(* ===== verification/Prelude.thy ===== *)
theory Prelude
  imports Main "HOL-Library.Sublist"
begin

text \<open>
  Shared material of the development: results that may be an exception (the sum type
  with \<open>Inl\<close> for a raised exception), the character classes and the \<open>str\<close> methods
  the program calls (\<open>strip\<close>, \<open>split\<close>, \<open>join\<close>, \<open>lower\<close>, \<open>replace\<close>), decimal
  printing, and generic lemmas on lists.

  A Python string is a list of code points. It is modelled as a \<open>char list\<close> whose
  characters are the code points U+0000 to U+00FF (Latin-1), so that \<open>length\<close> is Python's
  \<open>len\<close>; every pattern the program matches admits ASCII only. White space and case
  mapping are those of Python's \<open>str\<close> on this range.
\<close>

named_theorems result_simps \<open>evaluation of results and exception-propagating binds\<close>
named_theorems char_defs \<open>definitions of the character classes\<close>

section \<open>Results\<close>

definition rbind :: "'e + 'a \<Rightarrow> ('a \<Rightarrow> 'e + 'b) \<Rightarrow> 'e + 'b" where
  "rbind m f = (case m of Inl e \<Rightarrow> Inl e | Inr x \<Rightarrow> f x)"

lemma rbind_Inl [simp, result_simps]: "rbind (Inl e) f = Inl e"
  by (simp add: rbind_def)

lemma rbind_Inr [simp, result_simps]: "rbind (Inr x) f = f x"
  by (simp add: rbind_def)

lemma rbind_eq_Inr_iff [result_simps]:
  "rbind m f = Inr y \<longleftrightarrow> (\<exists>x. m = Inr x \<and> f x = Inr y)"
  by (cases m) auto

lemma rbind_eq_Inl_iff [result_simps]:
  "rbind m f = Inl e \<longleftrightarrow> m = Inl e \<or> (\<exists>x. m = Inr x \<and> f x = Inl e)"
  by (cases m) auto

lemma rbind_cong [fundef_cong]:
  "m = m' \<Longrightarrow> (\<And>x. m' = Inr x \<Longrightarrow> f x = g x) \<Longrightarrow> rbind m f = rbind m' g"
  by (cases m') auto

lemma rbindE:
  assumes "rbind m f = Inr y"
  obtains x where "m = Inr x" "f x = Inr y"
  using assms by (cases m) auto

text \<open>An optional value is passed through a partial conversion.\<close>

definition ropt :: "('a \<Rightarrow> 'e + 'b) \<Rightarrow> 'a option \<Rightarrow> 'e + 'b option" where
  "ropt f v = (case v of None \<Rightarrow> Inr None | Some x \<Rightarrow> rbind (f x) (\<lambda>y. Inr (Some y)))"

lemma ropt_simps [simp, result_simps]:
  "ropt f None = Inr None"
  "ropt f (Some x) = rbind (f x) (\<lambda>y. Inr (Some y))"
  by (simp_all add: ropt_def)

lemma ropt_eq_Inr_iff [result_simps]:
  "ropt f v = Inr w \<longleftrightarrow>
     (v = None \<and> w = None) \<or> (\<exists>x y. v = Some x \<and> f x = Inr y \<and> w = Some y)"
  by (cases v) (auto simp: rbind_eq_Inr_iff)

lemma ropt_None_iff: "ropt f v = Inr w \<Longrightarrow> w = None \<longleftrightarrow> v = None"
  by (cases v) (auto simp: rbind_eq_Inr_iff)

fun is_ok :: "'e + 'a \<Rightarrow> bool" where
  "is_ok (Inl _) = False"
| "is_ok (Inr _) = True"

lemma is_ok_iff: "is_ok r \<longleftrightarrow> (\<exists>x. r = Inr x)"
  by (cases r) auto

section \<open>Characters\<close>

definition code :: "char \<Rightarrow> nat" where
  "code c = of_char c"

lemma code_inject: "code c = code d \<longleftrightarrow> c = d"
  by (simp add: code_def)

lemma code_less_256: "code c < 256"
  by (simp add: code_def)

definition is_digit :: "char \<Rightarrow> bool" where
  "is_digit c \<longleftrightarrow> 48 \<le> code c \<and> code c \<le> 57"

definition is_lower :: "char \<Rightarrow> bool" where
  "is_lower c \<longleftrightarrow> 97 \<le> code c \<and> code c \<le> 122"

definition is_upper :: "char \<Rightarrow> bool" where
  "is_upper c \<longleftrightarrow> 65 \<le> code c \<and> code c \<le> 90"

definition is_alpha :: "char \<Rightarrow> bool" where
  "is_alpha c \<longleftrightarrow> is_lower c \<or> is_upper c"

definition is_alnum :: "char \<Rightarrow> bool" where
  "is_alnum c \<longleftrightarrow> is_alpha c \<or> is_digit c"

definition py_space :: "char \<Rightarrow> bool" where
  "py_space c \<longleftrightarrow> (9 \<le> code c \<and> code c \<le> 13) \<or> (28 \<le> code c \<and> code c \<le> 32)
     \<or> code c = 133 \<or> code c = 160"

definition lower_char :: "char \<Rightarrow> char" where
  "lower_char c =
     (if is_upper c \<or> (192 \<le> code c \<and> code c \<le> 222 \<and> code c \<noteq> 215)
      then char_of (code c + 32) else c)"

declare is_digit_def [char_defs] is_lower_def [char_defs] is_upper_def [char_defs]
  is_alpha_def [char_defs] is_alnum_def [char_defs] py_space_def [char_defs]

lemma code_char_of: "n < 256 \<Longrightarrow> code (char_of n) = n"
  by (simp add: code_def)

lemma code_lower_char:
  "code (lower_char c) =
     (if is_upper c \<or> (192 \<le> code c \<and> code c \<le> 222 \<and> code c \<noteq> 215)
      then code c + 32 else code c)"
  by (auto simp: lower_char_def char_defs intro!: code_char_of)

lemma lower_char_idem [simp]: "lower_char (lower_char c) = lower_char c"
  unfolding code_inject [symmetric] by (auto simp: code_lower_char char_defs)

lemma py_space_lower_char [simp]: "py_space (lower_char c) = py_space c"
  by (auto simp: code_lower_char char_defs)

lemma alnum_not_space: "is_alnum c \<Longrightarrow> \<not> py_space c"
  by (auto simp: char_defs)

lemma alnum_not_char:
  "is_alnum c \<Longrightarrow> c \<noteq> CHR ''@''" "is_alnum c \<Longrightarrow> c \<noteq> CHR ''.''"
  "is_alnum c \<Longrightarrow> c \<noteq> CHR ''_''" "is_alnum c \<Longrightarrow> c \<noteq> CHR ''-''"
  by (auto simp: is_alnum_def is_alpha_def is_lower_def is_upper_def is_digit_def code_def)

section \<open>The string methods the program calls\<close>

definition py_strip :: "string \<Rightarrow> string" where
  "py_strip s = rev (dropWhile py_space (rev (dropWhile py_space s)))"

definition py_lower :: "string \<Rightarrow> string" where
  "py_lower s = map lower_char s"

fun split_aux :: "string \<Rightarrow> string \<Rightarrow> string list" where
  "split_aux acc [] = (if acc = [] then [] else [rev acc])"
| "split_aux acc (c # cs) =
     (if py_space c then (if acc = [] then split_aux [] cs else rev acc # split_aux [] cs)
      else split_aux (c # acc) cs)"

definition py_split :: "string \<Rightarrow> string list" where
  "py_split s = split_aux [] s"

fun py_join :: "string \<Rightarrow> string list \<Rightarrow> string" where
  "py_join sep [] = []"
| "py_join sep [w] = w"
| "py_join sep (w # v # ws) = w @ sep @ py_join sep (v # ws)"

text \<open>The idiom \<open>" ".join(s.split())\<close>, used by every free-text field.\<close>

definition squash :: "string \<Rightarrow> string" where
  "squash s = py_join '' '' (py_split s)"

lemma py_lower_idem [simp]: "py_lower (py_lower s) = py_lower s"
  by (simp add: py_lower_def)

lemma length_py_lower [simp]: "length (py_lower s) = length s"
  by (simp add: py_lower_def)

lemma dropWhile_fixed: "(s = [] \<or> \<not> p (hd s)) \<Longrightarrow> dropWhile p s = s"
  by (cases s) auto

lemma hd_dropWhile_or: "dropWhile p s = [] \<or> \<not> p (hd (dropWhile p s))"
  by (induction s) auto

lemma py_strip_fixed:
  assumes "s = [] \<or> (\<not> py_space (hd s) \<and> \<not> py_space (last s))"
  shows "py_strip s = s"
proof (cases "s = []")
  case False
  with assms have "dropWhile py_space s = s" by (intro dropWhile_fixed) auto
  moreover from False assms have "dropWhile py_space (rev s) = rev s"
    by (intro dropWhile_fixed) (auto simp: hd_rev)
  ultimately show ?thesis by (simp add: py_strip_def)
qed (simp add: py_strip_def)

lemma py_strip_ends: "py_strip s = [] \<or> (\<not> py_space (hd (py_strip s)) \<and> \<not> py_space (last (py_strip s)))"
proof -
  let ?t = "dropWhile py_space s" and ?u = "dropWhile py_space (rev (dropWhile py_space s))"
  have u: "?u = [] \<or> \<not> py_space (hd ?u)" by (rule hd_dropWhile_or)
  show ?thesis
  proof (cases "?u = []")
    case False
    have "suffix ?u (rev ?t)" by (rule suffix_dropWhile)
    then have "last ?u = last (rev ?t)" using False
      by (metis last_appendR suffix_def)
    moreover have "?t \<noteq> []" using False by (cases "?t = []") simp_all
    ultimately have "last ?u = hd ?t" by (simp add: last_rev)
    with \<open>?t \<noteq> []\<close> hd_dropWhile_or [of py_space s] have "\<not> py_space (last ?u)" by auto
    with False u show ?thesis by (simp add: py_strip_def hd_rev last_rev)
  qed (simp add: py_strip_def)
qed

lemma py_strip_idem [simp]: "py_strip (py_strip s) = py_strip s"
  using py_strip_ends by (rule py_strip_fixed)

lemma dropWhile_map_space: "dropWhile py_space (map lower_char s) = map lower_char (dropWhile py_space s)"
  by (induction s) auto

lemma py_strip_lower: "py_strip (py_lower s) = py_lower (py_strip s)"
  by (simp add: py_strip_def py_lower_def dropWhile_map_space rev_map)

lemma split_aux_words:
  "\<forall>c\<in>set acc. \<not> py_space c \<Longrightarrow>
     \<forall>w\<in>set (split_aux acc s). w \<noteq> [] \<and> (\<forall>c\<in>set w. \<not> py_space c)"
proof (induction s arbitrary: acc)
  case (Cons c cs)
  have IH0: "\<forall>w\<in>set (split_aux [] cs). w \<noteq> [] \<and> (\<forall>c\<in>set w. \<not> py_space c)"
    by (rule Cons.IH) simp
  show ?case
  proof (cases "py_space c")
    case True
    with IH0 Cons.prems show ?thesis by simp
  next
    case False
    with Cons.prems have "\<forall>d\<in>set (c # acc). \<not> py_space d" by simp
    from Cons.IH [OF this] False show ?thesis by simp
  qed
qed simp

lemma py_split_words: "w \<in> set (py_split s) \<Longrightarrow> w \<noteq> [] \<and> (\<forall>c\<in>set w. \<not> py_space c)"
  using split_aux_words [of "[]" s] by (simp add: py_split_def)

lemma split_aux_word: "\<forall>c\<in>set w. \<not> py_space c \<Longrightarrow> split_aux acc (w @ s) = split_aux (rev w @ acc) s"
  by (induction w arbitrary: acc) auto

lemma space_is_space [simp]: "py_space CHR '' ''"
  by (simp add: py_space_def code_def)

lemma split_aux_space: "split_aux acc (CHR '' '' # s) = (if acc = [] then split_aux [] s else rev acc # split_aux [] s)"
  by simp

lemma split_aux_join:
  "\<forall>w\<in>set ws. w \<noteq> [] \<and> (\<forall>c\<in>set w. \<not> py_space c) \<Longrightarrow> split_aux [] (py_join '' '' ws) = ws"
proof (induction ws)
  case (Cons w ws)
  from Cons.prems have w: "w \<noteq> []" "\<forall>c\<in>set w. \<not> py_space c" by simp_all
  from Cons have rest: "split_aux [] (py_join '' '' ws) = ws" by simp
  show ?case
  proof (cases ws)
    case Nil
    with w show ?thesis using split_aux_word [OF w(2), of "[]" "[]"] by simp
  next
    case (Cons v vs)
    have "split_aux [] (py_join '' '' (w # ws)) = split_aux (rev w) (CHR '' '' # py_join '' '' ws)"
      using split_aux_word [OF w(2), of "[]" "CHR '' '' # py_join '' '' ws"] Cons by simp
    also have "\<dots> = w # ws" using w rest by (simp only: split_aux_space) simp
    finally show ?thesis .
  qed
qed simp

lemma squash_idem [simp]: "squash (squash s) = squash s"
  using split_aux_join [of "py_split s"] py_split_words
  by (simp add: squash_def py_split_def)

lemma squash_word: "w \<noteq> [] \<Longrightarrow> \<forall>c\<in>set w. \<not> py_space c \<Longrightarrow> squash w = w"
  using split_aux_word [of w "[]" "[]"] by (simp add: squash_def py_split_def)

section \<open>Patterns\<close>

text \<open>
  \<open>re.fullmatch("[A-Za-z0-9][A-Za-z0-9<extra>]*", s)\<close>, where \<open>p\<close> holds for the
  characters of \<open><extra>\<close>.
\<close>

definition ident_match :: "(char \<Rightarrow> bool) \<Rightarrow> string \<Rightarrow> bool" where
  "ident_match p s = (case s of [] \<Rightarrow> False
     | c # cs \<Rightarrow> is_alnum c \<and> list_all (\<lambda>d. is_alnum d \<or> p d) cs)"

definition ref_extra :: "char \<Rightarrow> bool" where
  "ref_extra c \<longleftrightarrow> c = CHR ''_'' \<or> c = CHR ''-''"

definition safe_extra :: "char \<Rightarrow> bool" where
  "safe_extra c \<longleftrightarrow> c = CHR ''.'' \<or> c = CHR ''_'' \<or> c = CHR '':'' \<or> c = CHR ''-''"

lemma ref_extra_not_space: "ref_extra c \<Longrightarrow> \<not> py_space c"
  by (auto simp: ref_extra_def py_space_def code_def)

lemma safe_extra_not_space: "safe_extra c \<Longrightarrow> \<not> py_space c"
  by (auto simp: safe_extra_def py_space_def code_def)

lemma ident_match_chars: "ident_match p s \<Longrightarrow> c \<in> set s \<Longrightarrow> is_alnum c \<or> p c"
  by (auto simp: ident_match_def list_all_iff split: list.splits)

lemma ident_match_nonempty: "ident_match p s \<Longrightarrow> s \<noteq> []"
  by (auto simp: ident_match_def split: list.splits)

lemma ident_match_strip:
  assumes "ident_match p s" and "\<And>c. p c \<Longrightarrow> \<not> py_space c"
  shows "py_strip s = s"
proof (rule py_strip_fixed)
  have "\<not> py_space c" if "c \<in> set s" for c
    using ident_match_chars [OF assms(1) that] assms(2) alnum_not_space by blast
  then show "s = [] \<or> \<not> py_space (hd s) \<and> \<not> py_space (last s)"
    by (cases "s = []") auto
qed

lemma ident_ref_strip: "ident_match ref_extra s \<Longrightarrow> py_strip s = s"
  by (erule ident_match_strip) (rule ref_extra_not_space)

lemma ident_safe_strip: "ident_match safe_extra s \<Longrightarrow> py_strip s = s"
  by (erule ident_match_strip) (rule safe_extra_not_space)

section \<open>Decimal printing\<close>

definition digit_char :: "nat \<Rightarrow> char" where
  "digit_char d = char_of (48 + d)"

fun show_nat :: "nat \<Rightarrow> string" where
  "show_nat n = (if n < 10 then [digit_char n] else show_nat (n div 10) @ [digit_char (n mod 10)])"

declare show_nat.simps [simp del]

definition show_int :: "int \<Rightarrow> string" where
  "show_int i = (if i < 0 then CHR ''-'' # show_nat (nat (- i)) else show_nat (nat i))"

lemma show_nat_nonempty: "show_nat n \<noteq> []"
  by (subst show_nat.simps) simp

lemma length_show_nat: "n < 10 ^ Suc k \<Longrightarrow> length (show_nat n) \<le> Suc k"
proof (induction k arbitrary: n)
  case 0
  then show ?case by (subst show_nat.simps) simp
next
  case (Suc k)
  show ?case
  proof (cases "n < 10")
    case True
    then show ?thesis by (subst show_nat.simps) simp
  next
    case False
    from Suc.prems have "n div 10 < 10 ^ Suc k" by (simp add: less_mult_imp_div_less)
    with Suc.IH False show ?thesis by (subst show_nat.simps) simp
  qed
qed

text \<open>Evaluation of the string functions on concrete values.\<close>

lemmas str_eval = py_strip_def py_lower_def squash_def py_split_def ident_match_def ref_extra_def
  safe_extra_def is_alnum_def is_alpha_def is_lower_def is_upper_def is_digit_def py_space_def
  lower_char_def code_def

end
