(* ===== verification/PyUuid.thy ===== *)
theory PyUuid
  imports Prelude
begin

text \<open>
  The canonical form \<open>str(uuid.UUID(value))\<close> that every identity of the program goes
  through (\<open>BookId\<close>, \<open>ReservationId\<close>, \<open>LoanId\<close>, \<open>PatronId\<close>): the constructor of the
  standard library's \<open>uuid.UUID\<close> from a string (the \<open>urn:\<close> and \<open>uuid:\<close> prefixes, braces
  and hyphens are dropped, 32 characters are left and read by \<open>int(hex, 16)\<close>) and the
  lower-case 8-4-4-4-12 printing. \<open>canon_uuid\<close> returns \<open>None\<close> where Python raises
  \<open>ValueError\<close>. The main facts: the canonical form is a fixed point, it has the shape
  of the wire pattern, and a string of that shape is canonicalised to its lower case.
\<close>

section \<open>The literal syntax of \<open>int(text, 16)\<close>\<close>

definition hexval :: "char \<Rightarrow> nat option" where
  "hexval c = (if is_digit c then Some (code c - 48)
     else if 97 \<le> code c \<and> code c \<le> 102 then Some (code c - 87)
     else if 65 \<le> code c \<and> code c \<le> 70 then Some (code c - 55)
     else None)"

definition hexchar :: "nat \<Rightarrow> char" where
  "hexchar d = char_of (if d < 10 then 48 + d else 87 + d)"

definition is_hex :: "char \<Rightarrow> bool" where
  "is_hex c \<longleftrightarrow> is_digit c \<or> (97 \<le> code c \<and> code c \<le> 102) \<or> (65 \<le> code c \<and> code c \<le> 70)"

text \<open>
  White space around the literal: the C notion on an ASCII string, that of \<open>str\<close> once a
  character beyond ASCII forces the string through the decimal translation.
\<close>

definition int_space :: "string \<Rightarrow> char \<Rightarrow> bool" where
  "int_space s c = (if list_all (\<lambda>d. code d < 128) s
     then (9 \<le> code c \<and> code c \<le> 13) \<or> code c = 32 else py_space c)"

text \<open>
  The digits: single underscores may separate them. The flag says that the position may
  not be followed by an underscore nor by the end (the start, or after an underscore).
\<close>

fun hex_body :: "nat \<Rightarrow> bool \<Rightarrow> string \<Rightarrow> nat option" where
  "hex_body acc pend [] = (if pend then None else Some acc)"
| "hex_body acc pend (c # cs) =
     (if c = CHR ''_'' then (if pend then None else hex_body acc True cs)
      else case hexval c of None \<Rightarrow> None | Some d \<Rightarrow> hex_body (acc * 16 + d) False cs)"

definition hex_literal :: "string \<Rightarrow> nat option" where
  "hex_literal s =
     (case s of
        z # x # cs \<Rightarrow>
          (if z = CHR ''0'' \<and> (x = CHR ''x'' \<or> x = CHR ''X'')
           then hex_body 0 True (case cs of u # ds \<Rightarrow> (if u = CHR ''_'' then ds else cs) | [] \<Rightarrow> [])
           else hex_body 0 True s)
      | _ \<Rightarrow> hex_body 0 True s)"

definition py_int16 :: "string \<Rightarrow> int option" where
  "py_int16 s =
     (let t = rev (dropWhile (int_space s) (rev (dropWhile (int_space s) s)))
      in case t of
           [] \<Rightarrow> None
         | c # cs \<Rightarrow>
             (if c = CHR ''-'' then map_option (\<lambda>n. - int n) (hex_literal cs)
              else if c = CHR ''+'' then map_option int (hex_literal cs)
              else map_option int (hex_literal t)))"

section \<open>\<open>uuid.UUID\<close> and its printing\<close>

fun remove_sub :: "string \<Rightarrow> string \<Rightarrow> string" where
  "remove_sub p [] = []"
| "remove_sub p (c # cs) =
     (if p \<noteq> [] \<and> prefix p (c # cs) then remove_sub p (drop (length p - 1) cs)
      else c # remove_sub p cs)"

definition is_brace :: "char \<Rightarrow> bool" where
  "is_brace c \<longleftrightarrow> c = CHR ''{'' \<or> c = CHR ''}''"

definition strip_braces :: "string \<Rightarrow> string" where
  "strip_braces s = rev (dropWhile is_brace (rev (dropWhile is_brace s)))"

definition uuid_hex :: "string \<Rightarrow> string" where
  "uuid_hex s =
     filter (\<lambda>c. c \<noteq> CHR ''-'') (strip_braces (remove_sub ''uuid:'' (remove_sub ''urn:'' s)))"

definition uuid_int :: "string \<Rightarrow> nat option" where
  "uuid_int s =
     (let h = uuid_hex s
      in if length h \<noteq> 32 then None
         else case py_int16 h of None \<Rightarrow> None
              | Some v \<Rightarrow> (if 0 \<le> v \<and> v < 2 ^ 128 then Some (nat v) else None))"

fun to_hex :: "nat \<Rightarrow> nat \<Rightarrow> string" where
  "to_hex 0 n = []"
| "to_hex (Suc k) n = to_hex k (n div 16) @ [hexchar (n mod 16)]"

definition uuid_dashes :: "string \<Rightarrow> string" where
  "uuid_dashes h = take 8 h @ ''-'' @ take 4 (drop 8 h) @ ''-'' @ take 4 (drop 12 h) @ ''-''
     @ take 4 (drop 16 h) @ ''-'' @ drop 20 h"

definition canon_uuid :: "string \<Rightarrow> string option" where
  "canon_uuid s = map_option (\<lambda>n. uuid_dashes (to_hex 32 n)) (uuid_int s)"

text \<open>
  The shape \<open>[0-9a-fA-F]{8}-[0-9a-fA-F]{4}-...-[0-9a-fA-F]{12}\<close>: 32 hexadecimal digits
  with hyphens inserted at these places.
\<close>

definition uuid_shape :: "string \<Rightarrow> bool" where
  "uuid_shape s \<longleftrightarrow>
     (let h = filter (\<lambda>c. c \<noteq> CHR ''-'') s
      in length h = 32 \<and> list_all is_hex h \<and> s = uuid_dashes h)"

section \<open>Printing and reading hexadecimal digits\<close>

lemma hexval_Some_iff: "(\<exists>d. hexval c = Some d) \<longleftrightarrow> is_hex c"
  by (auto simp: hexval_def is_hex_def)

lemma hexval_less: "hexval c = Some d \<Longrightarrow> d < 16"
  by (auto simp: hexval_def is_digit_def split: if_splits)

lemma code_hexchar: "d < 16 \<Longrightarrow> code (hexchar d) = (if d < 10 then 48 + d else 87 + d)"
  by (auto simp: hexchar_def code_def)

lemma hexval_hexchar [simp]: "d < 16 \<Longrightarrow> hexval (hexchar d) = Some d"
  by (auto simp: hexval_def code_hexchar is_digit_def)

lemma is_hex_hexchar [simp]: "d < 16 \<Longrightarrow> is_hex (hexchar d)"
  by (auto simp: is_hex_def code_hexchar is_digit_def)

lemma hexchar_hexval: "hexval c = Some d \<Longrightarrow> hexchar d = lower_char c"
  unfolding code_inject [symmetric]
  by (auto simp: code_hexchar hexval_less code_lower_char hexval_def is_digit_def is_upper_def
           split: if_splits)

definition hex_value :: "nat \<Rightarrow> string \<Rightarrow> nat" where
  "hex_value acc s = foldl (\<lambda>a c. a * 16 + the (hexval c)) acc s"

lemma is_hex_facts:
  assumes "is_hex c"
  shows "c \<noteq> CHR ''_''" "c \<noteq> CHR ''-''" "c \<noteq> CHR ''+''" "\<not> is_brace c"
    "c \<noteq> CHR ''u''" "c \<noteq> CHR ''x''" "c \<noteq> CHR ''X''" "\<not> int_space s c" "code c < 128" "\<not> py_space c"
  using assms by (auto simp: is_hex_def is_brace_def int_space_def py_space_def is_digit_def code_def)

lemma hex_body_value:
  "\<forall>c\<in>set s. is_hex c \<Longrightarrow> s \<noteq> [] \<or> \<not> pend \<Longrightarrow> hex_body acc pend s = Some (hex_value acc s)"
proof (induction s arbitrary: acc pend)
  case (Cons c cs)
  then obtain d where "hexval c = Some d" using hexval_Some_iff [of c] by auto
  with Cons is_hex_facts(1) [of c] show ?case by (simp add: hex_value_def)
qed (simp add: hex_value_def)

lemma hex_literal_value:
  assumes "\<forall>c\<in>set s. is_hex c" "s \<noteq> []"
  shows "hex_literal s = Some (hex_value 0 s)"
proof -
  have "\<not> (z = CHR ''0'' \<and> (x = CHR ''x'' \<or> x = CHR ''X''))" if "s = z # x # cs" for z x cs
    using assms(1) that is_hex_facts(6,7) [of x] by auto
  moreover have "hex_body 0 True s = Some (hex_value 0 s)"
    using assms by (simp add: hex_body_value)
  ultimately show ?thesis
    by (auto simp: hex_literal_def simp del: hex_body.simps split: list.splits)
qed

lemma py_int16_value:
  assumes hex: "\<forall>c\<in>set s. is_hex c" and ne: "s \<noteq> []"
  shows "py_int16 s = Some (int (hex_value 0 s))"
proof -
  have nosp: "\<not> int_space s c" if "c \<in> set s" for c using hex that is_hex_facts(8) by blast
  have t: "rev (dropWhile (int_space s) (rev (dropWhile (int_space s) s))) = s"
    using nosp ne by (simp add: dropWhile_fixed hd_rev)
  obtain c cs where s: "s = c # cs" using ne by (cases s) auto
  with hex have "c \<noteq> CHR ''-''" "c \<noteq> CHR ''+''" using is_hex_facts(2,3) [of c] by simp_all
  with t s hex_literal_value [OF hex ne] show ?thesis by (simp add: py_int16_def Let_def)
qed

lemma length_to_hex [simp]: "length (to_hex k n) = k"
  by (induction k arbitrary: n) auto

lemma to_hex_is_hex: "c \<in> set (to_hex k n) \<Longrightarrow> is_hex c"
  by (induction k arbitrary: n) auto

lemma hex_value_snoc: "hex_value acc (s @ [c]) = hex_value acc s * 16 + the (hexval c)"
  by (simp add: hex_value_def)

lemma hex_value_to_hex: "n < 16 ^ k \<Longrightarrow> hex_value 0 (to_hex k n) = n"
proof (induction k arbitrary: n)
  case (Suc k)
  then have "n div 16 < 16 ^ k" by (simp add: less_mult_imp_div_less mult.commute)
  with Suc.IH show ?case by (simp add: hex_value_snoc)
qed (simp add: hex_value_def)

lemma hex_value_bound: "\<forall>c\<in>set s. is_hex c \<Longrightarrow> hex_value 0 s < 16 ^ length s"
proof (induction s rule: rev_induct)
  case (snoc c s)
  then obtain d where d: "hexval c = Some d" "d < 16"
    using hexval_Some_iff [of c] hexval_less by auto
  from snoc have "hex_value 0 s < 16 ^ length s" by simp
  with d show ?case by (simp add: hex_value_snoc)
qed (simp add: hex_value_def)

lemma to_hex_hex_value: "\<forall>c\<in>set s. is_hex c \<Longrightarrow> to_hex (length s) (hex_value 0 s) = py_lower s"
proof (induction s rule: rev_induct)
  case (snoc c s)
  then obtain d where d: "hexval c = Some d" "d < 16"
    using hexval_Some_iff [of c] hexval_less by auto
  with snoc show ?case by (simp add: hex_value_snoc hexchar_hexval py_lower_def)
qed (simp add: hex_value_def py_lower_def)

section \<open>Canonical forms\<close>

lemma remove_sub_absent: "hd p \<notin> set s \<Longrightarrow> p \<noteq> [] \<Longrightarrow> remove_sub p s = s"
proof (induction s)
  case (Cons c cs)
  then have "\<not> prefix p (c # cs)" by (cases p) auto
  with Cons show ?case by simp
qed simp

lemma strip_braces_absent: "\<forall>c\<in>set s. \<not> is_brace c \<Longrightarrow> strip_braces s = s"
  by (cases "s = []") (simp_all add: strip_braces_def dropWhile_fixed hd_rev)

lemma take_drop_parts:
  "take 8 h @ take 4 (drop 8 h) @ take 4 (drop 12 h) @ take 4 (drop 16 h) @ drop 20 h = h"
proof -
  have "drop n h = take 4 (drop n h) @ drop (n + 4) h" for n
    by (metis add.commute append_take_drop_id drop_drop)
  from this [of 8] this [of 12] this [of 16] show ?thesis by simp
qed

lemma set_uuid_dashes: "set (uuid_dashes h) \<subseteq> insert CHR ''-'' (set h)"
  by (auto simp: uuid_dashes_def dest: in_set_takeD in_set_dropD)

lemma filter_uuid_dashes:
  assumes "\<forall>c\<in>set h. is_hex c"
  shows "filter (\<lambda>c. c \<noteq> CHR ''-'') (uuid_dashes h) = h"
proof -
  have keep: "filter (\<lambda>c. c \<noteq> CHR ''-'') x = x" if "set x \<subseteq> set h" for x
    using that assms is_hex_facts(2) by (auto intro!: filter_True)
  have sub: "set (take n (drop m h)) \<subseteq> set h" "set (take n h) \<subseteq> set h" "set (drop m h) \<subseteq> set h" for n m
    by (auto dest: in_set_takeD in_set_dropD)
  show ?thesis by (simp add: uuid_dashes_def keep sub take_drop_parts)
qed

lemma uuid_hex_dashes:
  assumes "\<forall>c\<in>set h. is_hex c"
  shows "uuid_hex (uuid_dashes h) = h"
proof -
  have chars: "is_hex c \<or> c = CHR ''-''" if "c \<in> set (uuid_dashes h)" for c
    using set_uuid_dashes assms that by auto
  have nou: "CHR ''u'' \<notin> set (uuid_dashes h)" using chars is_hex_facts(5) by fastforce
  have nob: "\<forall>c\<in>set (uuid_dashes h). \<not> is_brace c"
    using chars is_hex_facts(4) by (auto simp: is_brace_def)
  from nou nob filter_uuid_dashes [OF assms] show ?thesis
    by (simp add: uuid_hex_def remove_sub_absent strip_braces_absent)
qed

lemma uuid_int_dashes:
  assumes "\<forall>c\<in>set h. is_hex c" "length h = 32"
  shows "uuid_int (uuid_dashes h) = Some (hex_value 0 h)"
proof -
  have "h \<noteq> []" using assms(2) by auto
  moreover have "hex_value 0 h < 16 ^ 32" using hex_value_bound [OF assms(1)] assms(2) by simp
  ultimately show ?thesis using assms
    by (simp add: uuid_int_def uuid_hex_dashes py_int16_value Let_def)
qed

lemma uuid_int_bound: "uuid_int s = Some n \<Longrightarrow> n < 16 ^ 32"
  by (auto simp: uuid_int_def Let_def split: if_splits option.splits)

lemma canon_uuid_idem:
  assumes "canon_uuid s = Some u"
  shows "canon_uuid u = Some u"
proof -
  from assms obtain n where n: "uuid_int s = Some n" and u: "u = uuid_dashes (to_hex 32 n)"
    by (auto simp: canon_uuid_def)
  have "uuid_int u = Some (hex_value 0 (to_hex 32 n))"
    unfolding u by (rule uuid_int_dashes) (auto intro: to_hex_is_hex)
  also have "hex_value 0 (to_hex 32 n) = n" using uuid_int_bound [OF n] by (rule hex_value_to_hex)
  finally show ?thesis using u by (simp add: canon_uuid_def)
qed

lemma uuid_shape_iff: "uuid_shape s \<longleftrightarrow> (\<exists>h. length h = 32 \<and> (\<forall>c\<in>set h. is_hex c) \<and> s = uuid_dashes h)"
proof
  assume "uuid_shape s"
  then show "\<exists>h. length h = 32 \<and> (\<forall>c\<in>set h. is_hex c) \<and> s = uuid_dashes h"
    unfolding uuid_shape_def Let_def list_all_iff by blast
next
  assume "\<exists>h. length h = 32 \<and> (\<forall>c\<in>set h. is_hex c) \<and> s = uuid_dashes h"
  then obtain h where h: "length h = 32" "\<forall>c\<in>set h. is_hex c" "s = uuid_dashes h" by blast
  with filter_uuid_dashes [OF h(2)] show "uuid_shape s"
    by (simp add: uuid_shape_def Let_def list_all_iff)
qed

lemma canon_uuid_shape:
  assumes "canon_uuid s = Some u"
  shows "uuid_shape u"
proof -
  from assms obtain n where "u = uuid_dashes (to_hex 32 n)" by (auto simp: canon_uuid_def)
  then show ?thesis unfolding uuid_shape_iff
    by (intro exI [of _ "to_hex 32 n"]) (auto intro: to_hex_is_hex)
qed

lemma py_lower_dashes: "py_lower (uuid_dashes h) = uuid_dashes (py_lower h)"
proof -
  have "lower_char CHR ''-'' = CHR ''-''" by (simp add: lower_char_def is_upper_def code_def)
  then show ?thesis by (simp add: uuid_dashes_def py_lower_def take_map drop_map)
qed

lemma canon_uuid_of_shape:
  assumes "uuid_shape s"
  shows "canon_uuid s = Some (py_lower s)"
proof -
  from assms obtain h where h: "length h = 32" "\<forall>c\<in>set h. is_hex c" "s = uuid_dashes h"
    by (auto simp: uuid_shape_iff)
  have "to_hex 32 (hex_value 0 h) = py_lower h" using to_hex_hex_value [OF h(2)] h(1) by simp
  with h uuid_int_dashes [OF h(2) h(1)] show ?thesis
    by (simp add: canon_uuid_def py_lower_dashes)
qed

lemma uuid_dashes_first: "length h = 32 \<Longrightarrow> uuid_dashes h \<noteq> [] \<and> hd (uuid_dashes h) = hd h"
  by (cases h) (auto simp: uuid_dashes_def)

lemma uuid_shape_ident:
  assumes "uuid_shape s"
  shows "ident_match ref_extra s"
proof -
  from assms obtain h where h: "length h = 32" "\<forall>c\<in>set h. is_hex c" "s = uuid_dashes h"
    by (auto simp: uuid_shape_iff)
  have alnum: "is_alnum c" if "is_hex c" for c
    using that by (auto simp: is_hex_def is_alnum_def is_alpha_def is_lower_def is_upper_def)
  from h have "h \<noteq> []" by auto
  with h have "is_alnum (hd s)" using uuid_dashes_first [OF h(1)] alnum by simp
  moreover have "is_alnum c \<or> ref_extra c" if "c \<in> set s" for c
    using set_uuid_dashes h(2,3) alnum that by (fastforce simp: ref_extra_def)
  moreover have "s \<noteq> []" using h uuid_dashes_first by auto
  ultimately show ?thesis
    by (cases s) (auto simp: ident_match_def list_all_iff)
qed

lemma length_uuid_dashes: "length h = 32 \<Longrightarrow> length (uuid_dashes h) = 36"
  by (simp add: uuid_dashes_def)

lemma length_canon_uuid: "canon_uuid s = Some u \<Longrightarrow> length u = 36"
  by (auto simp: canon_uuid_def length_uuid_dashes)

end
