(* ===== verification/SharedKernel.thy ===== *)
theory SharedKernel
  imports PyUuid
begin

text \<open>
  The shared kernel (\<open>src/domain/shared_kernel\<close>): the exception classes of the three
  contexts and of the layers above them, time-zone normalisation, \<open>EmailAddress\<close>, and
  the seal that \<open>AggregateRoot\<close> puts on public state.

  A datetime is an instant in microseconds since 1970-01-01T00:00 UTC; an aware datetime
  also has an offset, a naive one has only its wall clock. Instants are bounded by
  \<open>datetime.min\<close> and \<open>datetime.max\<close>, and arithmetic that leaves the range raises
  \<open>OverflowError\<close>, as Python's does.
\<close>

section \<open>Exceptions\<close>

datatype shared_exn =
    ValidationException string
  | InvalidEmailException string
  | EmptyValueException string

datatype catalog_exn =
    BookNotFoundException string
  | BookAlreadyBorrowedException string
  | BookNotBorrowedException string
  | BookNotReservedException string string
  | StaleReservationException string string int string
  | LoanCorrelationMismatchException string string "string option"
  | StaleLoanCompletionException string string
  | BorrowerNotEligibleException string string
  | BorrowerEmailRequiredException
  | InvalidCatalogReferenceException string
  | InvalidReservationReasonException
  | InvalidBorrowPeriodException
  | InvalidCatalogStateException string
  | CatalogConcurrentModificationException string string

datatype lending_exn =
    LoanAlreadyReturnedException string
  | LoanNotActiveException string string
  | LoanNotOverdueException string
  | CannotExtendOverdueLoanException string
  | BookNotAvailableException string
  | InvalidLoanIdException
  | InvalidReservationIdException
  | InvalidLoanDurationException int
  | InvalidLoanExtensionException int
  | InvalidLoanReturnDateException string
  | InvalidLoanReferenceException string
  | InvalidLoanStateException string
  | InvalidCancellationReasonException
  | InvalidReservationGenerationException int
  | ReservationCorrelationMismatchException string string
  | ConcurrentLoanCreationException string string
  | LoanConcurrentModificationException string
  | PatronBorrowingLimitReachedException string int
  | PatronNotEligibleForLoanException string string
  | LoanNotFoundException string

datatype patron_exn =
    PatronAlreadySuspendedException string
  | PatronNotSuspendedException string
  | InvalidTierUpgradeException string string
  | InvalidPatronIdException
  | InvalidPatronNameException string string
  | InvalidSuspensionReasonException
  | InvalidPatronStateException string
  | PatronEmailAlreadyRegisteredException string
  | PatronNotFoundException string
  | PatronConcurrentModificationException string

datatype app_exn =
    IdempotencyKeyConflictException string string
  | InvalidIdempotencyKeyException
  | BorrowOperationNotFoundException string
  | BorrowOperationTransitionException string string

text \<open>Exceptions of the language and of the adapters the program can raise or see.\<close>

datatype py_exn =
    PyValueError string
  | PyOverflowError
  | PyAssertionError
  | PyRuntimeError string
  | DatabaseException string
  | SqlIntegrityError string
  | SqlDataError string
  | SqlMultipleResultsFound

datatype exn =
    Shared shared_exn
  | Catalog catalog_exn
  | Lending lending_exn
  | PatronE patron_exn
  | App app_exn
  | Py py_exn

section \<open>Time\<close>

type_synonym instant = int

datatype datetime = Naive int | Aware instant int

definition min_instant :: instant where "min_instant = -62135596800000000"
definition max_instant :: instant where "max_instant = 253402300799999999"

definition in_range :: "instant \<Rightarrow> bool" where
  "in_range t \<longleftrightarrow> min_instant \<le> t \<and> t \<le> max_instant"

definition microseconds_per_day :: int where
  "microseconds_per_day = 86400000000"

fun require_utc_datetime :: "datetime \<Rightarrow> string \<Rightarrow> exn + instant" where
  "require_utc_datetime (Naive _) field_name =
     Inl (Shared (ValidationException (field_name @ '' must include a timezone'')))"
| "require_utc_datetime (Aware t _) field_name =
     (if in_range t then Inr t else Inl (Py PyOverflowError))"

text \<open>\<open>timedelta(days=d)\<close> and its addition to an instant.\<close>

definition timedelta_days :: "int \<Rightarrow> exn + int" where
  "timedelta_days d =
     (if \<bar>d\<bar> \<le> 999999999 then Inr (d * microseconds_per_day) else Inl (Py PyOverflowError))"

definition add_delta :: "instant \<Rightarrow> int \<Rightarrow> exn + instant" where
  "add_delta t d = (if in_range (t + d) then Inr (t + d) else Inl (Py PyOverflowError))"

definition add_days :: "instant \<Rightarrow> int \<Rightarrow> exn + instant" where
  "add_days t d = rbind (timedelta_days d) (add_delta t)"

abbreviation utc :: "instant \<Rightarrow> datetime" where
  "utc t \<equiv> Aware t 0"

lemma require_utc_Inr [result_simps]:
  "require_utc_datetime d f = Inr t \<longleftrightarrow> (\<exists>off. d = Aware t off) \<and> in_range t"
  by (cases d) auto

lemma require_utc_utc: "in_range t \<Longrightarrow> require_utc_datetime (utc t) f = Inr t"
  by simp

lemma add_days_Inr [result_simps]:
  "add_days t d = Inr u \<longleftrightarrow> \<bar>d\<bar> \<le> 999999999 \<and> u = t + d * microseconds_per_day \<and> in_range u"
  by (auto simp: add_days_def timedelta_days_def add_delta_def)

section \<open>Email addresses\<close>

definition email_local_char :: "char \<Rightarrow> bool" where
  "email_local_char c \<longleftrightarrow> is_alnum c \<or> c = CHR ''.'' \<or> c = CHR ''_'' \<or> c = CHR ''%''
     \<or> c = CHR ''+'' \<or> c = CHR ''-''"

definition email_domain_char :: "char \<Rightarrow> bool" where
  "email_domain_char c \<longleftrightarrow> is_alnum c \<or> c = CHR ''.'' \<or> c = CHR ''-''"

text \<open>
  \<open>^[a-zA-Z0-9._%+-]+@[a-zA-Z0-9.-]+\.[a-zA-Z]{2,}$\<close>: the local part ends at the only
  \<open>@\<close>, the top-level domain starts after the last dot.
\<close>

definition is_valid_email :: "string \<Rightarrow> bool" where
  "is_valid_email s =
     (let l = takeWhile (\<lambda>c. c \<noteq> CHR ''@'') s;
          d = dropWhile (\<lambda>c. c \<noteq> CHR ''@'') s
      in case d of [] \<Rightarrow> False
         | at # host \<Rightarrow>
             (let tld = rev (takeWhile (\<lambda>c. c \<noteq> CHR ''.'') (rev host));
                  rest = rev (dropWhile (\<lambda>c. c \<noteq> CHR ''.'') (rev host))
              in l \<noteq> [] \<and> list_all email_local_char l
                 \<and> 2 \<le> length tld \<and> list_all is_alpha tld
                 \<and> 2 \<le> length rest \<and> list_all email_domain_char (butlast rest)))"

definition email_address :: "string \<Rightarrow> exn + string" where
  "email_address raw =
     (let value = py_lower (py_strip raw)
      in if length value > 254 \<or> \<not> is_valid_email value
         then Inl (Shared (InvalidEmailException value)) else Inr value)"

lemma email_chars_not_special:
  "email_local_char c \<Longrightarrow> c \<noteq> CHR ''@''"
  "email_domain_char c \<Longrightarrow> c \<noteq> CHR ''@''"
  "is_alpha c \<Longrightarrow> c \<noteq> CHR ''.''"
  using alnum_not_char [of c] by (auto simp: email_local_char_def email_domain_char_def is_alnum_def)

text \<open>The pattern as the regular expression states it.\<close>

lemma is_valid_email_iff:
  "is_valid_email s \<longleftrightarrow>
     (\<exists>l d t. s = l @ ''@'' @ d @ ''.'' @ t \<and> l \<noteq> [] \<and> list_all email_local_char l
        \<and> d \<noteq> [] \<and> list_all email_domain_char d \<and> 2 \<le> length t \<and> list_all is_alpha t)"
  (is "_ \<longleftrightarrow> ?R")
proof
  assume v: "is_valid_email s"
  let ?l = "takeWhile (\<lambda>c. c \<noteq> CHR ''@'') s"
  obtain a host where d: "dropWhile (\<lambda>c. c \<noteq> CHR ''@'') s = a # host"
    using v by (auto simp: is_valid_email_def Let_def split: list.splits)
  then have a: "a = CHR ''@''" using hd_dropWhile [of "\<lambda>c. c \<noteq> CHR ''@''" s] by simp
  let ?t = "rev (takeWhile (\<lambda>c. c \<noteq> CHR ''.'') (rev host))"
  let ?r = "rev (dropWhile (\<lambda>c. c \<noteq> CHR ''.'') (rev host))"
  from v d have p: "?l \<noteq> []" "list_all email_local_char ?l" "2 \<le> length ?t" "list_all is_alpha ?t"
    "2 \<le> length ?r" "list_all email_domain_char (butlast ?r)"
    by (simp_all add: is_valid_email_def Let_def)
  have host: "host = ?r @ ?t"
    using takeWhile_dropWhile_id [of "\<lambda>c. c \<noteq> CHR ''.''" "rev host"]
    by (simp add: rev_append [symmetric] del: rev_append)
  from p(5) have rne: "dropWhile (\<lambda>c. c \<noteq> CHR ''.'') (rev host) \<noteq> []"
    by (metis length_rev list.size(3) not_numeral_le_zero)
  then have "last ?r = CHR ''.''"
    using hd_dropWhile [of "\<lambda>c. c \<noteq> CHR ''.''" "rev host"] by (simp add: last_rev)
  with rne have r: "?r = butlast ?r @ ''.''"
    using append_butlast_last_id [of ?r] by simp
  have "s = ?l @ a # host" using d takeWhile_dropWhile_id [of "\<lambda>c. c \<noteq> CHR ''@''" s] by simp
  then have "s = ?l @ ''@'' @ butlast ?r @ ''.'' @ ?t"
    using a host r by (metis append_Cons append_Nil append_assoc)
  moreover have "butlast ?r \<noteq> []"
  proof
    assume "butlast ?r = []"
    then have "length ?r \<le> 1" using arg_cong [OF r, of length] by simp
    with p(5) show False by simp
  qed
  ultimately show ?R using p by blast
next
  assume ?R
  then obtain l d t where s: "s = l @ ''@'' @ d @ ''.'' @ t" and p: "l \<noteq> []"
    "list_all email_local_char l" "d \<noteq> []" "list_all email_domain_char d" "2 \<le> length t" "list_all is_alpha t"
    by blast
  have l: "\<forall>c\<in>set l. c \<noteq> CHR ''@''" using p(2) email_chars_not_special(1) by (auto simp: list_all_iff)
  have t: "\<forall>c\<in>set t. c \<noteq> CHR ''.''" using p(6) email_chars_not_special(3) by (auto simp: list_all_iff)
  have 1: "takeWhile (\<lambda>c. c \<noteq> CHR ''@'') s = l" "dropWhile (\<lambda>c. c \<noteq> CHR ''@'') s = CHR ''@'' # d @ ''.'' @ t"
    using l by (simp_all add: s takeWhile_append dropWhile_append)
  have 2: "takeWhile (\<lambda>c. c \<noteq> CHR ''.'') (rev t @ CHR ''.'' # rev d) = rev t"
    "dropWhile (\<lambda>c. c \<noteq> CHR ''.'') (rev t @ CHR ''.'' # rev d) = CHR ''.'' # rev d"
    using t by (simp_all add: takeWhile_append dropWhile_append)
  have "Suc 0 \<le> length d" using p(3) by (cases d) auto
  with p 1 2 show "is_valid_email s"
    by (simp add: is_valid_email_def Let_def)
qed

lemma email_address_Inr [result_simps]:
  "email_address raw = Inr v \<longleftrightarrow>
     v = py_lower (py_strip raw) \<and> length v \<le> 254 \<and> is_valid_email v"
  by (auto simp: email_address_def Let_def)

lemma email_address_idem:
  assumes "email_address raw = Inr v"
  shows "email_address v = Inr v"
  using assms by (auto simp: email_address_Inr py_strip_lower)

lemma email_nonempty: "is_valid_email v \<Longrightarrow> v \<noteq> []"
  by (auto simp: is_valid_email_iff)

section \<open>References carried between contexts\<close>

text \<open>
  \<open>_normalize_reference\<close>, which Catalog and Lending each define with their own exception.
\<close>

definition ref_ok :: "string \<Rightarrow> bool" where
  "ref_ok s \<longleftrightarrow> length s \<le> 64 \<and> ident_match ref_extra s"

definition normalize_ref :: "exn \<Rightarrow> string \<Rightarrow> exn + string" where
  "normalize_ref err value =
     (let normalized = py_strip value
      in if normalized = [] \<or> length normalized > 64 \<or> \<not> ident_match ref_extra normalized
         then Inl err else Inr normalized)"

lemma normalize_ref_Inr [result_simps]:
  "normalize_ref e v = Inr w \<longleftrightarrow> w = py_strip v \<and> ref_ok w"
  using ident_match_nonempty by (auto simp: normalize_ref_def ref_ok_def Let_def)

lemma ref_ok_strip: "ref_ok s \<Longrightarrow> py_strip s = s"
  by (simp add: ref_ok_def ident_ref_strip)

lemma normalize_ref_id: "ref_ok s \<Longrightarrow> normalize_ref e s = Inr s"
  by (simp add: normalize_ref_Inr ref_ok_strip)

text \<open>
  An identity that is a bounded opaque reference and, where it is a UUID, is stored in
  canonical form: the shared body of \<open>BookId\<close>, \<open>LoanId\<close> and \<open>PatronId\<close>.
\<close>

definition canonical_id :: "exn \<Rightarrow> exn \<Rightarrow> string \<Rightarrow> exn + string" where
  "canonical_id empty_err format_err raw =
     (let value = py_strip raw
      in if value = [] then Inl empty_err
         else if length value > 64 \<or> \<not> ident_match ref_extra value then Inl format_err
         else Inr (case canon_uuid value of Some u \<Rightarrow> u | None \<Rightarrow> value))"

definition id_ok :: "string \<Rightarrow> bool" where
  "id_ok s \<longleftrightarrow> ref_ok s \<and> (case canon_uuid s of Some u \<Rightarrow> u = s | None \<Rightarrow> True)"

lemma canonical_id_ok:
  assumes "canonical_id e1 e2 raw = Inr v"
  shows "id_ok v"
proof (cases "canon_uuid (py_strip raw)")
  case None
  with assms show ?thesis by (auto simp: canonical_id_def id_ok_def ref_ok_def Let_def split: if_splits)
next
  case (Some u)
  then have "uuid_shape u" "length u = 36" "canon_uuid u = Some u"
    by (auto dest: canon_uuid_shape length_canon_uuid canon_uuid_idem)
  moreover have "v = u" using assms Some by (auto simp: canonical_id_def Let_def split: if_splits)
  ultimately show ?thesis by (simp add: id_ok_def ref_ok_def uuid_shape_ident)
qed

lemma canonical_id_fixed: "id_ok s \<Longrightarrow> canonical_id e1 e2 s = Inr s"
  using ident_match_nonempty ref_ok_strip [of s]
  by (auto simp: canonical_id_def id_ok_def ref_ok_def Let_def split: option.splits)

section \<open>The seal of an aggregate\<close>

text \<open>
  \<open>AggregateRoot\<close>: the attributes of an instance, the protected public fields (set when
  construction or hydration ends), and the nesting depth of aggregate transitions.
  Attributes other than \<open>_state_fields\<close> and \<open>_mutation_depth\<close> are a map from names. These two are
  written by the class alone, with \<open>object.__setattr__\<close>; an assignment to them, which nothing in
  the repository makes and which would break the seal, is not modelled.
\<close>

record 'v aggregate_root =
  attrs :: "string \<Rightarrow> 'v option"
  state_fields :: "string list"
  mutation_depth :: int

datatype attr_error = AttributeError string

definition post_init :: "string list \<Rightarrow> 'v aggregate_root \<Rightarrow> 'v aggregate_root" where
  "post_init model_fields r =
     r\<lparr>state_fields := filter (\<lambda>f. \<not> prefix ''_'' f) model_fields\<rparr>"

definition setattr :: "'v aggregate_root \<Rightarrow> string \<Rightarrow> 'v \<Rightarrow> attr_error + 'v aggregate_root" where
  "setattr r name v =
     (if name \<in> set (state_fields r) \<and> mutation_depth r = 0 then Inl (AttributeError name)
      else Inr (r\<lparr>attrs := (attrs r)(name \<mapsto> v)\<rparr>))"

text \<open>
  \<open>aggregate_transition\<close>: the depth is raised around the method and lowered again whether
  the method returns or raises. A method maps the instance to the instance it leaves
  behind and its outcome.
\<close>

definition aggregate_transition ::
  "('v aggregate_root \<Rightarrow> 'v aggregate_root \<times> ('e + 'r)) \<Rightarrow> 'v aggregate_root
     \<Rightarrow> 'v aggregate_root \<times> ('e + 'r)" where
  "aggregate_transition method r =
     (let (r', out) = method (r\<lparr>mutation_depth := mutation_depth r + 1\<rparr>)
      in (r'\<lparr>mutation_depth := mutation_depth r' - 1\<rparr>, out))"

end
