(* ===== verification/Events.thy ===== *)
theory Events
  imports SharedKernel
begin

text \<open>
  Domain events (\<open>src/domain/shared_kernel/domain_event.py\<close> and the \<open>events\<close> packages of
  the three contexts), and the contract that an aggregate keeps while it is driven by
  commands: a well-formedness invariant, and pending events that only grow.

  What an event takes from its surroundings (a fresh uuid4, the clock, the correlation and
  causation context variables) is the record \<open>ambient\<close>.
\<close>

section \<open>Event classes\<close>

text \<open>Constructor arguments are the dataclass fields in the source's order.\<close>

datatype catalog_event =
    BookAddedToCatalog string string string
  | BookRemovedFromCatalog string
  | CatalogBookReserved string string string int string instant string
  | CatalogBookBorrowed string string string int string string instant instant string
  | CatalogBookReleased string string int string string
  | CatalogBookReturned string string string int string

datatype lending_event =
    LoanCreated string string int string string string string datetime instant
  | LoanCompleted string string int string string instant bool
  | LoanCancelled string string int string string string
  | BookOverdue string string string string string instant int
  | LoanExtended string string string instant instant

datatype patron_event =
    PatronRegistered string string string string
  | PatronSuspended string string
  | PatronReinstated string

datatype event_data =
    CatalogEvent catalog_event
  | LendingEvent lending_event
  | PatronEvent patron_event

record domain_event =
  event_id :: string
  occurred_at :: instant
  correlation_id :: "string option"
  causation_id :: "string option"
  event_data :: event_data

record ambient =
  fresh_event_id :: string
  utc_now :: datetime
  correlation_context :: "string option"
  causation_context :: "string option"

section \<open>Construction\<close>

definition event_identity :: "string \<Rightarrow> string \<Rightarrow> exn + string" where
  "event_identity value field_name =
     (let normalized = py_strip value
      in if \<not> (1 \<le> length normalized \<and> length normalized \<le> 128)
            \<or> \<not> ident_match safe_extra normalized
         then Inl (Shared (ValidationException (field_name @ '' must be 1-128 URL/log-safe characters'')))
         else Inr normalized)"

definition identity_ok :: "string \<Rightarrow> bool" where
  "identity_ok s \<longleftrightarrow> length s \<le> 128 \<and> ident_match safe_extra s"

text \<open>\<open>DomainEvent.__post_init__\<close>.\<close>

definition domain_event_init ::
  "string \<Rightarrow> datetime \<Rightarrow> string option \<Rightarrow> string option \<Rightarrow> event_data \<Rightarrow> exn + domain_event" where
  "domain_event_init raw_id raw_at raw_corr raw_caus d =
     rbind (event_identity raw_id ''event_id'') (\<lambda>eid.
     rbind (case raw_corr of Some c \<Rightarrow> event_identity c ''correlation_id'' | None \<Rightarrow> Inr eid) (\<lambda>corr.
     rbind (ropt (\<lambda>c. event_identity c ''causation_id'') raw_caus) (\<lambda>caus.
     rbind (require_utc_datetime raw_at ''occurred_at'') (\<lambda>at.
       Inr \<lparr>event_id = eid, occurred_at = at, correlation_id = Some corr, causation_id = caus,
            event_data = d\<rparr>))))"

text \<open>An event class called with its data only: the defaults come from the surroundings.\<close>

definition new_event :: "ambient \<Rightarrow> event_data \<Rightarrow> exn + domain_event" where
  "new_event amb d = domain_event_init (fresh_event_id amb) (utc_now amb)
     (correlation_context amb) (causation_context amb) d"

definition caused_by :: "domain_event \<Rightarrow> ambient \<Rightarrow> ambient" where
  "caused_by ev amb = amb\<lparr>
     correlation_context := Some (case correlation_id ev of
         Some c \<Rightarrow> (if c = [] then event_id ev else c) | None \<Rightarrow> event_id ev),
     causation_context := Some (event_id ev)\<rparr>"

definition ambient_ok :: "ambient \<Rightarrow> bool" where
  "ambient_ok amb \<longleftrightarrow> identity_ok (fresh_event_id amb)
     \<and> (\<exists>t off. utc_now amb = Aware t off \<and> in_range t)
     \<and> (case correlation_context amb of None \<Rightarrow> True | Some c \<Rightarrow> identity_ok c)
     \<and> (case causation_context amb of None \<Rightarrow> True | Some c \<Rightarrow> identity_ok c)"

definition event_ok :: "domain_event \<Rightarrow> bool" where
  "event_ok ev \<longleftrightarrow> identity_ok (event_id ev) \<and> in_range (occurred_at ev)
     \<and> (case correlation_id ev of None \<Rightarrow> False | Some c \<Rightarrow> identity_ok c)
     \<and> (case causation_id ev of None \<Rightarrow> True | Some c \<Rightarrow> identity_ok c)"

lemma event_identity_Inr [result_simps]:
  "event_identity v f = Inr w \<longleftrightarrow> w = py_strip v \<and> identity_ok w"
  using ident_match_nonempty by (auto simp: event_identity_def identity_ok_def Let_def Suc_le_eq)

lemma event_identity_id: "identity_ok s \<Longrightarrow> event_identity s f = Inr s"
  by (simp add: event_identity_Inr) (simp add: identity_ok_def ident_safe_strip)

lemma new_event_total:
  assumes "ambient_ok amb"
  shows "\<exists>ev. new_event amb d = Inr ev"
  using assms
  by (auto simp: ambient_ok_def new_event_def domain_event_init_def event_identity_id split: option.splits)

lemma domain_event_init_ok: "domain_event_init i t c k d = Inr ev \<Longrightarrow> event_ok ev"
  by (auto simp: domain_event_init_def event_ok_def result_simps split: option.splits)

lemma new_event_data: "new_event amb d = Inr ev \<Longrightarrow> event_data ev = d"
  by (auto simp: new_event_def domain_event_init_def result_simps)

lemma caused_by_ok: "ambient_ok amb \<Longrightarrow> event_ok ev \<Longrightarrow> ambient_ok (caused_by ev amb)"
  by (auto simp: ambient_ok_def caused_by_def event_ok_def split: option.splits)

section \<open>The contract of an aggregate\<close>

text \<open>
  A command either raises, and the caller drops the instance it was working on, or leaves
  a new instance. Running a list of commands keeps the last good instance.
\<close>

fun run_commands :: "('c \<Rightarrow> 'a \<Rightarrow> exn + 'a) \<Rightarrow> 'c list \<Rightarrow> 'a \<Rightarrow> 'a" where
  "run_commands step [] a = a"
| "run_commands step (c # cs) a =
     run_commands step cs (case step c a of Inl _ \<Rightarrow> a | Inr a' \<Rightarrow> a')"

locale aggregate =
  fixes step :: "'c \<Rightarrow> 'a \<Rightarrow> exn + 'a"
    and inv :: "'a \<Rightarrow> bool"
    and pending :: "'a \<Rightarrow> domain_event list"
    and ident :: "'a \<Rightarrow> 'i"
  assumes step_inv: "inv a \<Longrightarrow> step c a = Inr a' \<Longrightarrow> inv a'"
    and step_pending: "step c a = Inr a' \<Longrightarrow> prefix (pending a) (pending a')"
    and step_ident: "step c a = Inr a' \<Longrightarrow> ident a' = ident a"
begin

lemma run_inv: "inv a \<Longrightarrow> inv (run_commands step cs a)"
  by (induction cs arbitrary: a) (auto split: sum.splits dest: step_inv)

lemma run_pending: "prefix (pending a) (pending (run_commands step cs a))"
proof (induction cs arbitrary: a)
  case (Cons c cs)
  show ?case
  proof (cases "step c a")
    case (Inr a')
    then have "prefix (pending a) (pending a')" by (rule step_pending)
    also have "prefix (pending a') (pending (run_commands step cs a'))" by (rule Cons.IH)
    finally show ?thesis using Inr by simp
  qed (use Cons.IH in simp)
qed simp

lemma run_ident: "ident (run_commands step cs a) = ident a"
  by (induction cs arbitrary: a) (auto split: sum.splits dest: step_ident)

end

end
