(* ===== verification/CatalogBook.thy ===== *)
theory CatalogBook
  imports Events
begin

text \<open>
  The Catalog context's domain (\<open>src/domain/catalog\<close>): the value objects of
  \<open>value_objects/book_metadata.py\<close> and the \<open>Book\<close> aggregate of
  \<open>entities/catalog_book.py\<close>, whose availability is a state machine guarded by the
  reservation's identity and generation.

  \<open>book_post_init\<close> is the dataclass constructor on raw field values; \<open>book_wf\<close> is what it
  establishes and every transition keeps. The lemmas give the transition table, the
  exactness of the reservation fence, and the idempotence of redelivered commands.
\<close>

section \<open>Value objects\<close>

datatype book_status = AVAILABLE | RESERVED | BORROWED

fun book_status_value :: "book_status \<Rightarrow> string" where
  "book_status_value AVAILABLE = ''available''"
| "book_status_value RESERVED = ''reserved''"
| "book_status_value BORROWED = ''borrowed''"

definition book_status_of :: "string \<Rightarrow> book_status option" where
  "book_status_of s =
     (if s = ''available'' then Some AVAILABLE else if s = ''reserved'' then Some RESERVED
      else if s = ''borrowed'' then Some BORROWED else None)"

definition mk_book_id :: "string \<Rightarrow> exn + string" where
  "mk_book_id = canonical_id (Shared (ValidationException ''BookId cannot be empty''))
                  (Shared (ValidationException ''BookId has an invalid format''))"

definition catalog_reservation_id :: "string \<Rightarrow> exn + string" where
  "catalog_reservation_id raw =
     (case canon_uuid raw of
        None \<Rightarrow> Inl (Shared (ValidationException ''ReservationId must be a valid UUID''))
      | Some u \<Rightarrow> Inr u)"

definition mk_title :: "string \<Rightarrow> exn + string" where
  "mk_title raw =
     (let value = squash raw
      in if value = [] then Inl (Shared (ValidationException ''Title cannot be empty''))
         else if length value > 100
         then Inl (Shared (ValidationException ''Title cannot be longer than 100 characters''))
         else Inr value)"

definition mk_author :: "string \<Rightarrow> exn + string" where
  "mk_author raw =
     (let value = squash raw
      in if value = [] then Inl (Shared (ValidationException ''Author cannot be empty''))
         else if length value > 200
         then Inl (Shared (ValidationException ''Author cannot be longer than 200 characters''))
         else Inr value)"

text \<open>
  \<open>ISBN\<close>. \<open>str.isdigit\<close> accepts the superscript digits of Latin-1, which \<open>int\<close> does not
  read; \<open>upper\<close> turns one character into two for the sharp s. The two letters of the
  range whose upper case lies beyond it are left alone: neither is a digit nor an X.
\<close>

definition py_isdigit_char :: "char \<Rightarrow> bool" where
  "py_isdigit_char c \<longleftrightarrow> is_digit c \<or> code c = 178 \<or> code c = 179 \<or> code c = 185"

definition py_isdigit :: "string \<Rightarrow> bool" where
  "py_isdigit s \<longleftrightarrow> s \<noteq> [] \<and> list_all py_isdigit_char s"

definition upper_char :: "char \<Rightarrow> string" where
  "upper_char c =
     (if is_lower c \<or> (224 \<le> code c \<and> code c \<le> 254 \<and> code c \<noteq> 247) then [char_of (code c - 32)]
      else if code c = 223 then ''SS'' else [c])"

definition int_of_char :: "char \<Rightarrow> exn + int" where
  "int_of_char c = (if is_digit c then Inr (int (code c) - 48)
     else Inl (Py (PyValueError ''invalid literal for int() with base 10'')))"

definition int_or_x :: "char \<Rightarrow> exn + int" where
  "int_or_x c = (if c = CHR ''X'' then Inr 10 else int_of_char c)"

fun weighted_sum :: "(char \<Rightarrow> exn + int) \<Rightarrow> (nat \<Rightarrow> int) \<Rightarrow> nat \<Rightarrow> string \<Rightarrow> exn + int" where
  "weighted_sum digit w i [] = Inr 0"
| "weighted_sum digit w i (c # cs) =
     rbind (digit c) (\<lambda>d. rbind (weighted_sum digit w (Suc i) cs) (\<lambda>r. Inr (w i * d + r)))"

definition isbn_checksum_ok :: "string \<Rightarrow> exn + bool" where
  "isbn_checksum_ok v =
     (if length v = 10
      then rbind (weighted_sum int_or_x (\<lambda>i. 10 - int i) 0 v) (\<lambda>s. Inr (s mod 11 = 0))
      else rbind (weighted_sum int_of_char (\<lambda>i. if even i then 1 else 3) 0 (take 12 v)) (\<lambda>s.
           rbind (int_of_char (v ! 12)) (\<lambda>d. Inr ((s + d) mod 10 = 0))))"

definition mk_isbn :: "string \<Rightarrow> exn + string" where
  "mk_isbn raw =
     (if raw = [] then Inr raw
      else
        (let clean = concat (map upper_char (filter (\<lambda>c. c \<noteq> CHR ''-'' \<and> c \<noteq> CHR '' '') raw))
         in if length clean \<noteq> 10 \<and> length clean \<noteq> 13
            then Inl (Shared (ValidationException ''ISBN must be 10 or 13 digits''))
            else if \<not> (py_isdigit clean
                       \<or> (length clean = 10 \<and> py_isdigit (butlast clean) \<and> last clean = CHR ''X''))
            then Inl (Shared (ValidationException ''ISBN must contain only digits''))
            else rbind (isbn_checksum_ok clean) (\<lambda>ok.
              if \<not> ok then Inl (Shared (ValidationException ''ISBN checksum is invalid''))
              else Inr clean)))"

section \<open>The aggregate\<close>

record book =
  title :: string
  author :: string
  bid :: string
  status :: book_status
  reserved_at :: "instant option"
  borrowed_at :: "instant option"
  return_due_date :: "instant option"
  reservation_id :: "string option"
  reservation_generation :: int
  reserved_patron_id :: "string option"
  reserved_patron_email :: "string option"
  current_loan_id :: "string option"
  last_completed_loan_id :: "string option"
  book_events :: "domain_event list"
  book_version :: int

text \<open>The constructor's arguments, as a caller or a database row supplies them.\<close>

record book_args =
  arg_title :: string
  arg_author :: string
  arg_id :: string
  arg_status :: string
  arg_reserved_at :: "datetime option"
  arg_borrowed_at :: "datetime option"
  arg_return_due_date :: "datetime option"
  arg_reservation_id :: "string option"
  arg_reservation_generation :: int
  arg_reserved_patron_id :: "string option"
  arg_reserved_patron_email :: "string option"
  arg_current_loan_id :: "string option"
  arg_last_completed_loan_id :: "string option"

definition catalog_reference :: "string \<Rightarrow> string \<Rightarrow> exn + string" where
  "catalog_reference value field =
     normalize_ref (Catalog (InvalidCatalogReferenceException field)) value"

definition correlation_complete :: "book \<Rightarrow> bool" where
  "correlation_complete b \<longleftrightarrow> reservation_id b \<noteq> None \<and> reserved_patron_id b \<noteq> None
     \<and> reserved_patron_email b \<noteq> None"

definition correlation_any :: "book \<Rightarrow> bool" where
  "correlation_any b \<longleftrightarrow> reservation_id b \<noteq> None \<or> reserved_patron_id b \<noteq> None
     \<or> reserved_patron_email b \<noteq> None"

definition validate_state :: "book \<Rightarrow> exn + unit" where
  "validate_state b =
     (case status b of
        AVAILABLE \<Rightarrow>
          (if reserved_at b \<noteq> None \<or> borrowed_at b \<noteq> None \<or> return_due_date b \<noteq> None
              \<or> current_loan_id b \<noteq> None
           then Inl (Catalog (InvalidCatalogStateException ''available book retains an active lifecycle field''))
           else if correlation_any b \<and> \<not> correlation_complete b
           then Inl (Catalog (InvalidCatalogStateException ''historical reservation correlation is incomplete''))
           else Inr ())
      | RESERVED \<Rightarrow>
          (if \<not> correlation_complete b \<or> reserved_at b = None \<or> reservation_generation b < 1
              \<or> borrowed_at b \<noteq> None \<or> return_due_date b \<noteq> None \<or> current_loan_id b \<noteq> None
           then Inl (Catalog (InvalidCatalogStateException ''reserved book lacks exact reservation state''))
           else Inr ())
      | BORROWED \<Rightarrow>
          (if \<not> correlation_complete b \<or> reservation_generation b < 1 \<or> reserved_at b \<noteq> None
              \<or> current_loan_id b = None
              \<or> (case (borrowed_at b, return_due_date b) of
                   (Some f, Some d) \<Rightarrow> d \<le> f | _ \<Rightarrow> True)
           then Inl (Catalog (InvalidCatalogStateException
                  ''borrowed book lacks exact loan correlation and dates''))
           else Inr ()))"

definition book_post_init :: "book_args \<Rightarrow> exn + book" where
  "book_post_init a =
     rbind (mk_title (arg_title a)) (\<lambda>t.
     rbind (mk_author (arg_author a)) (\<lambda>au.
     rbind (mk_book_id (arg_id a)) (\<lambda>i.
     case book_status_of (arg_status a) of
       None \<Rightarrow> Inl (Catalog (InvalidCatalogStateException ''unknown status''))
     | Some st \<Rightarrow>
     if arg_reservation_generation a < 0
     then Inl (Catalog (InvalidCatalogStateException ''reservation generation must be non-negative''))
     else
     rbind (ropt catalog_reservation_id (arg_reservation_id a)) (\<lambda>rid.
     rbind (ropt (\<lambda>v. catalog_reference v ''reserved_patron_id'') (arg_reserved_patron_id a)) (\<lambda>pid.
     rbind (ropt (\<lambda>v. catalog_reference v ''current_loan_id'') (arg_current_loan_id a)) (\<lambda>cur.
     rbind (ropt (\<lambda>v. catalog_reference v ''last_completed_loan_id'') (arg_last_completed_loan_id a)) (\<lambda>lst.
     rbind (ropt email_address (arg_reserved_patron_email a)) (\<lambda>em.
     rbind (ropt (\<lambda>d. require_utc_datetime d ''reserved_at'') (arg_reserved_at a)) (\<lambda>ra.
     rbind (ropt (\<lambda>d. require_utc_datetime d ''borrowed_at'') (arg_borrowed_at a)) (\<lambda>ba.
     rbind (ropt (\<lambda>d. require_utc_datetime d ''return_due_date'') (arg_return_due_date a)) (\<lambda>rd.
     let b = \<lparr>title = t, author = au, bid = i, status = st, reserved_at = ra, borrowed_at = ba,
              return_due_date = rd, reservation_id = rid,
              reservation_generation = arg_reservation_generation a, reserved_patron_id = pid,
              reserved_patron_email = em, current_loan_id = cur, last_completed_loan_id = lst,
              book_events = [], book_version = 0\<rparr>
     in rbind (validate_state b) (\<lambda>_. Inr b))))))))))))"

definition is_borrowed :: "book \<Rightarrow> bool" where
  "is_borrowed b \<longleftrightarrow> status b = BORROWED"

definition is_unavailable :: "book \<Rightarrow> bool" where
  "is_unavailable b \<longleftrightarrow> status b \<noteq> AVAILABLE"

section \<open>Transitions\<close>

definition add_book_event :: "ambient \<Rightarrow> catalog_event \<Rightarrow> book \<Rightarrow> exn + book" where
  "add_book_event amb e b =
     rbind (new_event amb (CatalogEvent e)) (\<lambda>ev. Inr (b\<lparr>book_events := book_events b @ [ev]\<rparr>))"

text \<open>\<open>next_id\<close> is the uuid4 that \<open>ReservationId.next_id()\<close> draws.\<close>

definition reserve ::
  "ambient \<Rightarrow> string \<Rightarrow> string \<Rightarrow> string \<Rightarrow> datetime \<Rightarrow> string option \<Rightarrow> book \<Rightarrow> exn + book \<times> string" where
  "reserve amb next_id patron_id borrower_email at given_id b =
     (if status b \<noteq> AVAILABLE then Inl (Catalog (BookAlreadyBorrowedException (bid b)))
      else if borrower_email = [] \<or> py_strip borrower_email = []
      then Inl (Catalog BorrowerEmailRequiredException)
      else
        rbind (catalog_reference patron_id ''patron_id'') (\<lambda>pid.
        rbind (email_address borrower_email) (\<lambda>em.
        rbind (require_utc_datetime at ''reserved_at'') (\<lambda>t.
        rbind (catalog_reservation_id (case given_id of Some g \<Rightarrow> g | None \<Rightarrow> next_id)) (\<lambda>token.
        let b' = b\<lparr>status := RESERVED, reserved_at := Some t, borrowed_at := None,
                   return_due_date := None, reservation_id := Some token,
                   reservation_generation := reservation_generation b + 1,
                   reserved_patron_id := Some pid, reserved_patron_email := Some em,
                   current_loan_id := None\<rparr>
        in rbind (add_book_event amb (CatalogBookReserved (bid b) (title b) token
                    (reservation_generation b + 1) pid t em) b') (\<lambda>b''. Inr (b'', token)))))))"

definition stale_reservation :: "book \<Rightarrow> string \<Rightarrow> int \<Rightarrow> string \<Rightarrow> exn" where
  "stale_reservation b token generation operation =
     Catalog (StaleReservationException (bid b) token generation operation)"

definition require_matching_reservation ::
  "book \<Rightarrow> string \<Rightarrow> int \<Rightarrow> string \<Rightarrow> string \<Rightarrow> exn + string" where
  "require_matching_reservation b rid generation patron_id operation =
     rbind (catalog_reservation_id rid) (\<lambda>token.
       if reservation_id b \<noteq> Some token \<or> reservation_generation b \<noteq> generation
          \<or> reserved_patron_id b \<noteq> Some patron_id
       then Inl (stale_reservation b token generation operation) else Inr token)"

definition confirm_borrow ::
  "ambient \<Rightarrow> string \<Rightarrow> int \<Rightarrow> string \<Rightarrow> string \<Rightarrow> datetime \<Rightarrow> datetime \<Rightarrow> book \<Rightarrow> exn + book \<times> bool" where
  "confirm_borrow amb rid generation patron_id loan_id from due b =
     rbind (require_matching_reservation b rid generation patron_id ''confirm borrow'') (\<lambda>token.
     rbind (catalog_reference loan_id ''loan_id'') (\<lambda>lid.
     rbind (require_utc_datetime from ''borrowed_at'') (\<lambda>f.
     rbind (require_utc_datetime due ''return_due_date'') (\<lambda>d.
       if status b = BORROWED \<and> current_loan_id b = Some lid
       then (if borrowed_at b \<noteq> Some f \<or> return_due_date b \<noteq> Some d
             then Inl (stale_reservation b token generation ''confirm borrow'')
             else Inr (b, False))
       else if status b \<noteq> RESERVED \<or> current_loan_id b \<noteq> None
       then Inl (stale_reservation b token generation ''confirm borrow'')
       else if d \<le> f then Inl (Catalog InvalidBorrowPeriodException)
       else if (case reserved_at b of Some r \<Rightarrow> f < r | None \<Rightarrow> False)
       then Inl (Catalog InvalidBorrowPeriodException)
       else case reserved_patron_email b of
              None \<Rightarrow> Inl (Py PyAssertionError)
            | Some em \<Rightarrow>
                (let b' = b\<lparr>status := BORROWED, reserved_at := None, current_loan_id := Some lid,
                            borrowed_at := Some f, return_due_date := Some d\<rparr>
                 in rbind (add_book_event amb (CatalogBookBorrowed (bid b) (title b) token
                        (reservation_generation b) patron_id lid f d em) b') (\<lambda>b''. Inr (b'', True)))))))"

definition release ::
  "ambient \<Rightarrow> string \<Rightarrow> int \<Rightarrow> string \<Rightarrow> string \<Rightarrow> book \<Rightarrow> exn + book \<times> bool" where
  "release amb rid generation patron_id raw_reason b =
     rbind (require_matching_reservation b rid generation patron_id ''release reservation'') (\<lambda>token.
     let reason = squash raw_reason
     in if reason = [] \<or> length reason > 500 then Inl (Catalog InvalidReservationReasonException)
        else if status b = AVAILABLE then Inr (b, False)
        else if status b \<noteq> RESERVED
        then Inl (stale_reservation b token generation ''release reservation'')
        else
          (let b' = b\<lparr>status := AVAILABLE, reserved_at := None, borrowed_at := None,
                      return_due_date := None\<rparr>
           in rbind (add_book_event amb (CatalogBookReleased (bid b) token generation patron_id reason) b')
                (\<lambda>b''. Inr (b'', True))))"

definition return_mismatches :: "book \<Rightarrow> string \<Rightarrow> int \<Rightarrow> string \<Rightarrow> string list" where
  "return_mismatches b token generation patron_id =
     (if reservation_id b \<noteq> Some token then [''reservation_id''] else [])
     @ (if reservation_generation b \<noteq> generation then [''reservation_generation''] else [])
     @ (if reserved_patron_id b \<noteq> Some patron_id then [''patron_id''] else [])"

definition require_return_correlation ::
  "book \<Rightarrow> string \<Rightarrow> string \<Rightarrow> int \<Rightarrow> string \<Rightarrow> exn + unit" where
  "require_return_correlation b loan_id token generation patron_id =
     (let m = return_mismatches b token generation patron_id
      in if m \<noteq> []
         then Inl (Catalog (LoanCorrelationMismatchException (bid b) loan_id
                (Some (py_join '', '' m @ '' differ''))))
         else Inr ())"

definition return_book ::
  "ambient \<Rightarrow> string \<Rightarrow> string \<Rightarrow> int \<Rightarrow> string \<Rightarrow> book \<Rightarrow> exn + book \<times> bool" where
  "return_book amb loan_id rid generation patron_id b =
     rbind (catalog_reference loan_id ''loan_id'') (\<lambda>lid.
     rbind (catalog_reservation_id rid) (\<lambda>token.
       if status b = AVAILABLE \<and> last_completed_loan_id b = Some lid
       then (if reservation_generation b > generation
             then Inl (Catalog (StaleLoanCompletionException (bid b) lid))
             else rbind (require_return_correlation b lid token generation patron_id) (\<lambda>_. Inr (b, False)))
       else if status b \<noteq> BORROWED \<or> current_loan_id b \<noteq> Some lid
       then Inl (Catalog (StaleLoanCompletionException (bid b) lid))
       else
         rbind (require_return_correlation b lid token generation patron_id) (\<lambda>_.
         case (reservation_id b, reserved_patron_id b) of
           (Some r, Some p) \<Rightarrow>
             (let b' = b\<lparr>status := AVAILABLE, borrowed_at := None, return_due_date := None,
                         current_loan_id := None, last_completed_loan_id := Some lid\<rparr>
              in rbind (add_book_event amb (CatalogBookReturned (bid b) lid r (reservation_generation b) p) b')
                   (\<lambda>b''. Inr (b'', True)))
         | _ \<Rightarrow> Inl (Py PyAssertionError))))"

end
