(* ===== verification/PatronAggregate.thy ===== *)
theory PatronAggregate
  imports Events
begin

text \<open>
  The Patron context's domain (\<open>src/domain/patron\<close>): \<open>PatronId\<close>, \<open>PatronName\<close>,
  \<open>MembershipTier\<close> of \<open>value_objects/patron_info.py\<close> and the \<open>Patron\<close> aggregate of
  \<open>entities/patron.py\<close>.
\<close>

section \<open>Value objects\<close>

definition mk_patron_id :: "string \<Rightarrow> exn + string" where
  "mk_patron_id = canonical_id (PatronE InvalidPatronIdException) (PatronE InvalidPatronIdException)"

definition mk_patron_name :: "string \<Rightarrow> string \<Rightarrow> exn + string \<times> string" where
  "mk_patron_name raw_first raw_last =
     (let fname = squash raw_first; lname = squash raw_last
      in if fname = [] then Inl (PatronE (InvalidPatronNameException ''First name'' ''cannot be empty''))
         else if lname = [] then Inl (PatronE (InvalidPatronNameException ''Last name'' ''cannot be empty''))
         else if length fname > 100 then Inl (PatronE (InvalidPatronNameException ''First name'' ''is too long''))
         else if length lname > 100 then Inl (PatronE (InvalidPatronNameException ''Last name'' ''is too long''))
         else Inr (fname, lname))"

definition full_name :: "string \<Rightarrow> string \<Rightarrow> string" where
  "full_name fname lname = fname @ '' '' @ lname"

datatype membership_tier = REGULAR | PREMIUM | RESEARCHER

fun tier_value :: "membership_tier \<Rightarrow> string" where
  "tier_value REGULAR = ''regular''"
| "tier_value PREMIUM = ''premium''"
| "tier_value RESEARCHER = ''researcher''"

definition tier_of :: "string \<Rightarrow> membership_tier option" where
  "tier_of s = (if s = ''regular'' then Some REGULAR else if s = ''premium'' then Some PREMIUM
     else if s = ''researcher'' then Some RESEARCHER else None)"

section \<open>The aggregate\<close>

record patron =
  first_name :: string
  last_name :: string
  patron_email :: string
  registered_at :: instant
  pid :: string
  membership_tier :: membership_tier
  is_suspended :: bool
  suspended_reason :: "string option"
  patron_events :: "domain_event list"
  patron_version :: int

record patron_args =
  arg_first_name :: string
  arg_last_name :: string
  arg_email :: string
  arg_registered_at :: datetime
  arg_pid :: string
  arg_tier :: string
  arg_is_suspended :: bool
  arg_suspended_reason :: "string option"

definition patron_post_init :: "patron_args \<Rightarrow> exn + patron" where
  "patron_post_init a =
     rbind (mk_patron_id (arg_pid a)) (\<lambda>i.
     rbind (mk_patron_name (arg_first_name a) (arg_last_name a)) (\<lambda>(fname, lname).
     rbind (email_address (arg_email a)) (\<lambda>em.
     case tier_of (arg_tier a) of
       None \<Rightarrow> Inl (PatronE (InvalidPatronStateException ''unknown membership tier''))
     | Some tier \<Rightarrow>
     rbind (require_utc_datetime (arg_registered_at a) ''registered_at'') (\<lambda>at.
     let made = (\<lambda>reason. \<lparr>first_name = fname, last_name = lname, patron_email = em,
           registered_at = at, pid = i, membership_tier = tier, is_suspended = arg_is_suspended a,
           suspended_reason = reason, patron_events = [], patron_version = 0\<rparr>)
     in if arg_is_suspended a
        then (let reason = squash (case arg_suspended_reason a of None \<Rightarrow> '''' | Some r \<Rightarrow> r)
              in if reason = [] \<or> length reason > 500
                 then Inl (PatronE (InvalidPatronStateException ''suspended patron requires a bounded reason''))
                 else Inr (made (Some reason)))
        else if arg_suspended_reason a \<noteq> None
        then Inl (PatronE (InvalidPatronStateException ''active patron cannot retain a suspension reason''))
        else Inr (made None)))))"

definition add_patron_event :: "ambient \<Rightarrow> patron_event \<Rightarrow> patron \<Rightarrow> exn + patron" where
  "add_patron_event amb e p =
     rbind (new_event amb (PatronEvent e)) (\<lambda>ev. Inr (p\<lparr>patron_events := patron_events p @ [ev]\<rparr>))"

definition patron_register ::
  "ambient \<Rightarrow> string \<Rightarrow> string \<Rightarrow> string \<Rightarrow> string \<Rightarrow> datetime \<Rightarrow> membership_tier \<Rightarrow> exn + patron" where
  "patron_register amb next_id fname lname email at tier =
     rbind (patron_post_init \<lparr>arg_first_name = fname, arg_last_name = lname, arg_email = email,
       arg_registered_at = at, arg_pid = next_id, arg_tier = tier_value tier,
       arg_is_suspended = False, arg_suspended_reason = None\<rparr>) (\<lambda>p.
     add_patron_event amb (PatronRegistered (pid p) (patron_email p)
       (full_name (first_name p) (last_name p)) (tier_value (membership_tier p))) p)"

definition suspend :: "ambient \<Rightarrow> string \<Rightarrow> patron \<Rightarrow> exn + patron" where
  "suspend amb raw_reason p =
     (if is_suspended p then Inl (PatronE (PatronAlreadySuspendedException (pid p)))
      else
        (let reason = squash raw_reason
         in if reason = [] \<or> length reason > 500 then Inl (PatronE InvalidSuspensionReasonException)
            else add_patron_event amb (PatronSuspended (pid p) reason)
                   (p\<lparr>is_suspended := True, suspended_reason := Some reason\<rparr>)))"

definition reinstate :: "ambient \<Rightarrow> patron \<Rightarrow> exn + patron" where
  "reinstate amb p =
     (if \<not> is_suspended p then Inl (PatronE (PatronNotSuspendedException (pid p)))
      else add_patron_event amb (PatronReinstated (pid p))
             (p\<lparr>is_suspended := False, suspended_reason := None\<rparr>))"

fun progression :: "membership_tier \<Rightarrow> nat" where
  "progression REGULAR = 0"
| "progression PREMIUM = 1"
| "progression RESEARCHER = 2"

definition upgrade_tier :: "membership_tier \<Rightarrow> patron \<Rightarrow> exn + patron" where
  "upgrade_tier new_tier p =
     (if progression new_tier \<le> progression (membership_tier p)
      then Inl (PatronE (InvalidTierUpgradeException (tier_value (membership_tier p)) (tier_value new_tier)))
      else Inr (p\<lparr>membership_tier := new_tier\<rparr>))"

section \<open>Invariant and transitions\<close>

definition patron_wf :: "patron \<Rightarrow> bool" where
  "patron_wf p \<longleftrightarrow> id_ok (pid p) \<and> mk_patron_name (first_name p) (last_name p) = Inr (first_name p, last_name p)
     \<and> email_address (patron_email p) = Inr (patron_email p) \<and> in_range (registered_at p)
     \<and> (if is_suspended p
        then (\<exists>r. suspended_reason p = Some r \<and> squash r = r \<and> r \<noteq> [] \<and> length r \<le> 500)
        else suspended_reason p = None)"

lemma tier_of_value [simp]: "tier_of (tier_value t) = Some t"
  by (cases t) (simp_all add: tier_of_def)

lemma mk_patron_name_idem: "mk_patron_name f l = Inr (f', l') \<Longrightarrow> mk_patron_name f' l' = Inr (f', l')"
  by (auto simp: mk_patron_name_def Let_def split: if_splits)

lemma add_patron_event_Inr [result_simps]:
  "add_patron_event amb e p = Inr p' \<longleftrightarrow>
     (\<exists>ev. new_event amb (PatronEvent e) = Inr ev \<and> p' = p\<lparr>patron_events := patron_events p @ [ev]\<rparr>)"
  by (auto simp: add_patron_event_def result_simps)

lemma patron_post_init_Inr:
  assumes "patron_post_init a = Inr p"
  shows "mk_patron_id (arg_pid a) = Inr (pid p)"
    "mk_patron_name (arg_first_name a) (arg_last_name a) = Inr (first_name p, last_name p)"
    "email_address (arg_email a) = Inr (patron_email p)"
    "tier_of (arg_tier a) = Some (membership_tier p)"
    "require_utc_datetime (arg_registered_at a) ''registered_at'' = Inr (registered_at p)"
    "is_suspended p = arg_is_suspended a"
    "if is_suspended p then \<exists>r. suspended_reason p = Some r \<and> squash r = r \<and> r \<noteq> [] \<and> length r \<le> 500
       \<and> r = squash (case arg_suspended_reason a of None \<Rightarrow> '''' | Some r \<Rightarrow> r)
     else suspended_reason p = None \<and> arg_suspended_reason a = None"
    "patron_events p = []" "patron_version p = 0"
  using assms unfolding patron_post_init_def Let_def
  by (auto elim!: rbindE split: option.splits if_splits)

lemma patron_post_init_wf:
  assumes "patron_post_init a = Inr p"
  shows "patron_wf p \<and> patron_events p = [] \<and> patron_version p = 0"
proof -
  note * = patron_post_init_Inr [OF assms]
  have "id_ok (pid p)" using *(1) canonical_id_ok by (auto simp: mk_patron_id_def)
  moreover have "in_range (registered_at p)" using *(5) by (simp add: require_utc_Inr)
  ultimately show ?thesis
    using * mk_patron_name_idem [OF *(2)] email_address_idem [OF *(3)]
    by (auto simp: patron_wf_def split: if_splits)
qed

lemma patron_wf_events [simp]: "patron_wf (p\<lparr>patron_events := es\<rparr>) = patron_wf p"
  by (simp add: patron_wf_def)

lemma register_wf: "patron_register amb n f l e at t = Inr p \<Longrightarrow> patron_wf p"
  unfolding patron_register_def by (elim rbindE) (auto simp: add_patron_event_Inr dest: patron_post_init_wf)

datatype patron_command = Suspend ambient string | Reinstate ambient | UpgradeTier membership_tier

fun patron_step :: "patron_command \<Rightarrow> patron \<Rightarrow> exn + patron" where
  "patron_step (Suspend amb r) p = suspend amb r p"
| "patron_step (Reinstate amb) p = reinstate amb p"
| "patron_step (UpgradeTier t) p = upgrade_tier t p"

lemma patron_step_wf: "patron_wf p \<Longrightarrow> patron_step c p = Inr p' \<Longrightarrow> patron_wf p'"
  by (cases c) (auto simp: suspend_def reinstate_def upgrade_tier_def patron_wf_def
      add_patron_event_Inr Let_def split: if_splits)

lemma patron_step_pending: "patron_step c p = Inr p' \<Longrightarrow> prefix (patron_events p) (patron_events p')"
  by (cases c) (auto simp: suspend_def reinstate_def upgrade_tier_def
      add_patron_event_Inr Let_def split: if_splits)

lemma patron_step_ident:
  "patron_step c p = Inr p' \<Longrightarrow>
     (pid p', patron_email p', registered_at p') = (pid p, patron_email p, registered_at p)"
  by (cases c) (auto simp: suspend_def reinstate_def upgrade_tier_def
      add_patron_event_Inr Let_def split: if_splits)

interpretation patron: aggregate patron_step patron_wf patron_events
    "\<lambda>p. (pid p, patron_email p, registered_at p)"
  by unfold_locales (auto dest: patron_step_wf patron_step_pending patron_step_ident)

lemma patron_step_tier:
  "patron_step c p = Inr p' \<Longrightarrow> progression (membership_tier p) \<le> progression (membership_tier p')"
  by (cases c) (auto simp: suspend_def reinstate_def upgrade_tier_def
      add_patron_event_Inr Let_def split: if_splits)

lemma run_tier_mono:
  "progression (membership_tier p) \<le> progression (membership_tier (run_commands patron_step cs p))"
proof (induction cs arbitrary: p)
  case (Cons c cs)
  show ?case
  proof (cases "patron_step c p")
    case (Inr p')
    with patron_step_tier [OF Inr] Cons.IH [of p'] show ?thesis by simp
  qed (use Cons.IH in simp)
qed simp

end
