(* ===== verification/Samples.thy ===== *)
theory Samples
  imports Events
begin

text \<open>
  Concrete values shared by the witnesses (an ambient, a UUID, references, an address), and
  the facts that they are accepted, evaluated by the simplifier.
\<close>

definition sample_uuid :: string where "sample_uuid = ''11111111-2222-3333-4444-555555555555''"

definition other_uuid :: string where "other_uuid = ''99999999-2222-3333-4444-555555555555''"

definition sample_ambient :: ambient where
  "sample_ambient = \<lparr>fresh_event_id = ''evt-1'', utc_now = utc 5, correlation_context = None,
     causation_context = None\<rparr>"

lemma sample_uuid_shape: "uuid_shape sample_uuid" "uuid_shape other_uuid"
  by (simp_all add: uuid_shape_def Let_def uuid_dashes_def is_hex_def is_digit_def code_def
      sample_uuid_def other_uuid_def)

lemma sample_uuid_canon [simp]:
  "canon_uuid sample_uuid = Some sample_uuid" "canon_uuid other_uuid = Some other_uuid"
  using sample_uuid_shape [THEN canon_uuid_of_shape]
  by (simp_all add: py_lower_def lower_char_def is_upper_def code_def sample_uuid_def other_uuid_def)

lemma other_uuid_neq [simp]: "other_uuid \<noteq> sample_uuid" "sample_uuid \<noteq> other_uuid"
  by (simp_all add: sample_uuid_def other_uuid_def)

lemma short_not_uuid: "length (uuid_hex s) \<noteq> 32 \<Longrightarrow> canon_uuid s = None"
  by (simp add: canon_uuid_def uuid_int_def Let_def)

lemma range_nat [simp]: "in_range 0" "in_range 1" "in_range (numeral n) = (numeral n \<le> max_instant)"
  by (simp_all add: in_range_def min_instant_def max_instant_def)

lemma max_instant_num [simp]: "numeral n \<le> max_instant \<longleftrightarrow> numeral n \<le> (253402300799999999 :: int)"
  by (simp add: max_instant_def)

lemma sample_ambient_ok [simp]: "ambient_ok sample_ambient"
  by (simp add: sample_ambient_def ambient_ok_def identity_ok_def str_eval)

definition sample_event :: "event_data \<Rightarrow> domain_event" where
  "sample_event d = \<lparr>event_id = ''evt-1'', occurred_at = 5, correlation_id = Some ''evt-1'',
     causation_id = None, event_data = d\<rparr>"

lemma sample_new_event [simp]: "new_event sample_ambient d = Inr (sample_event d)"
  by (simp add: new_event_def domain_event_init_def sample_ambient_def sample_event_def
      event_identity_def str_eval Let_def)

lemma sample_refs [simp]:
  "ref_ok ''patron-1''" "ref_ok ''book-1''" "ref_ok ''loan-1''"
  by (simp_all add: ref_ok_def str_eval)

lemma sample_refs_strip [simp]:
  "py_strip ''patron-1'' = ''patron-1''" "py_strip ''book-1'' = ''book-1''"
  "py_strip ''loan-1'' = ''loan-1''"
  by (simp_all add: str_eval)

lemma sample_refs_not_uuid [simp]:
  "canon_uuid ''patron-1'' = None" "canon_uuid ''book-1'' = None" "canon_uuid ''loan-1'' = None"
  by (simp_all add: short_not_uuid uuid_hex_def strip_braces_def is_brace_def)

lemma sample_ids [simp]: "id_ok ''patron-1''" "id_ok ''book-1''" "id_ok ''loan-1''"
  by (simp_all add: id_ok_def)

definition sample_email :: string where "sample_email = ''ann@example.org''"

lemma sample_email_ok [simp]: "email_address sample_email = Inr sample_email"
  by (simp add: sample_email_def email_address_def is_valid_email_def email_local_char_def
      email_domain_char_def str_eval Let_def)

lemma sample_email_strip [simp]: "sample_email \<noteq> []" "py_strip sample_email = sample_email"
  by (simp_all add: sample_email_def str_eval)

end
