(* ===== verification/KernelProps.thy ===== *)
theory KernelProps
  imports CatalogBook PatronAggregate Samples
begin

text \<open>
  Properties of the shared kernel and of the smaller domain types: the seal of an
  aggregate, the causal links of events, e-mail normalisation, the ISBN check digit, and
  the Patron aggregate.
\<close>

section \<open>The seal of an aggregate\<close>

definition keeps_seal :: "('v aggregate_root \<Rightarrow> 'v aggregate_root \<times> ('e + 'r)) \<Rightarrow> bool" where
  "keeps_seal m \<longleftrightarrow> (\<forall>r. mutation_depth (fst (m r)) = mutation_depth r
     \<and> state_fields (fst (m r)) = state_fields r)"

lemma transition_keeps_seal:
  assumes "keeps_seal m"
  shows "keeps_seal (aggregate_transition m)"
proof -
  have "mutation_depth (fst (m r)) = mutation_depth r" "state_fields (fst (m r)) = state_fields r" for r
    using assms by (auto simp: keeps_seal_def)
  then show ?thesis by (auto simp: keeps_seal_def aggregate_transition_def case_prod_beta)
qed

text \<open>A method that only assigns attributes, stopping at the first assignment that raises.\<close>

fun assign_all :: "(string \<times> 'v) list \<Rightarrow> 'v aggregate_root \<Rightarrow> 'v aggregate_root \<times> (attr_error + unit)" where
  "assign_all [] r = (r, Inr ())"
| "assign_all ((n, v) # ws) r =
     (case setattr r n v of Inl e \<Rightarrow> (r, Inl e) | Inr r' \<Rightarrow> assign_all ws r')"

lemma setattr_keeps: "setattr r n v = Inr r' \<Longrightarrow>
    mutation_depth r' = mutation_depth r \<and> state_fields r' = state_fields r"
  by (auto simp: setattr_def split: if_splits)

lemma assign_all_keeps:
  "mutation_depth (fst (assign_all ws r)) = mutation_depth r \<and> state_fields (fst (assign_all ws r)) = state_fields r"
  by (induction ws arbitrary: r) (auto split: sum.splits dest: setattr_keeps)

lemma assign_all_inside:
  "0 < mutation_depth r \<Longrightarrow> snd (assign_all ws r) = Inr ()"
proof (induction ws arbitrary: r)
  case (Cons w ws)
  obtain n v where w: "w = (n, v)" by (cases w)
  from Cons.prems have "setattr r n v = Inr (r\<lparr>attrs := (attrs r)(n \<mapsto> v)\<rparr>)"
    by (simp add: setattr_def)
  with w Cons show ?case by simp
qed simp

text \<open>
  C30: the seal holds around every transition. Whatever an aggregate method does, and
  whether it returns or raises, when it has ended on a sealed aggregate a direct write to a
  protected field raises again, at any depth of nesting; inside a transition the same write
  is allowed.
\<close>

theorem aggregate_seal:
  assumes "keeps_seal m" and "mutation_depth r = 0" and "f \<in> set (state_fields r)"
  shows "setattr (fst (aggregate_transition m r)) f v = Inl (AttributeError f)
    \<and> setattr (fst (aggregate_transition (aggregate_transition m) r)) f v = Inl (AttributeError f)
    \<and> snd (aggregate_transition (assign_all [(f, v)]) r) = Inr ()"
proof -
  have seal: "setattr (fst (k r)) f v = Inl (AttributeError f)" if "keeps_seal k"
    for k :: "'a aggregate_root \<Rightarrow> 'a aggregate_root \<times> ('b + 'c)"
    using that assms(2,3) by (simp add: keeps_seal_def setattr_def)
  have "snd (aggregate_transition (assign_all [(f, v)]) r) = Inr ()"
    using assms(2) by (simp add: aggregate_transition_def setattr_def)
  with seal transition_keeps_seal assms(1) show ?thesis by blast
qed

definition sample_root :: "nat aggregate_root" where
  "sample_root = post_init [''status'', ''_events''] \<lparr>attrs = [''status'' \<mapsto> 0], state_fields = [],
     mutation_depth = 0\<rparr>"

theorem aggregate_seal_witness:
  "setattr (fst (aggregate_transition (assign_all [(''status'', 1)]) sample_root)) ''status'' 2
     = Inl (AttributeError ''status'')"
proof -
  have k: "keeps_seal (assign_all [(''status'', 1 :: nat)])"
    unfolding keeps_seal_def by (intro allI assign_all_keeps)
  have "mutation_depth sample_root = 0" "''status'' \<in> set (state_fields sample_root)"
    by (simp_all add: sample_root_def post_init_def)
  from aggregate_seal [OF k this] show ?thesis by (rule conjunct1)
qed

section \<open>Events\<close>

text \<open>
  An event raised while another is being handled belongs to the same workflow and
  names its direct cause, and is well-formed itself.
\<close>

theorem caused_event_links:
  assumes "event_ok ev" and "new_event (caused_by ev amb) d = Inr ev'"
  shows "correlation_id ev' = correlation_id ev \<and> causation_id ev' = Some (event_id ev)
    \<and> event_ok ev' \<and> event_data ev' = d"
proof -
  from assms(1) obtain c where c: "correlation_id ev = Some c" "identity_ok c" "identity_ok (event_id ev)"
    by (auto simp: event_ok_def split: option.splits)
  then have "c \<noteq> []" using ident_match_nonempty by (auto simp: identity_ok_def)
  with c assms(2) have "correlation_id ev' = Some c" "causation_id ev' = Some (event_id ev)" "event_data ev' = d"
    by (auto simp: new_event_def caused_by_def domain_event_init_def event_identity_id rbind_eq_Inr_iff)
  moreover have "event_ok ev'" using assms(2) unfolding new_event_def by (rule domain_event_init_ok)
  ultimately show ?thesis using c by simp
qed

lemma sample_event_ok [simp]: "event_ok (sample_event d)"
  by (simp add: sample_event_def event_ok_def identity_ok_def str_eval)

theorem caused_event_links_witness:
  "\<exists>ev. new_event (caused_by (sample_event (PatronEvent (PatronReinstated ''patron-1''))) sample_ambient) (PatronEvent (PatronReinstated ''patron-1'')) = Inr ev
     \<and> causation_id ev = Some ''evt-1'' \<and> correlation_id ev = Some ''evt-1''"
proof -
  obtain ev where ev: "new_event (caused_by (sample_event (PatronEvent (PatronReinstated ''patron-1''))) sample_ambient) (PatronEvent (PatronReinstated ''patron-1'')) = Inr ev"
    using new_event_total [OF caused_by_ok [OF sample_ambient_ok sample_event_ok]] by blast
  from caused_event_links [OF sample_event_ok ev] ev show ?thesis by (auto simp: sample_event_def)
qed

section \<open>ISBN\<close>

lemma int_of_char_Inr: "int_of_char c = Inr d \<Longrightarrow> 0 \<le> d \<and> d \<le> 9 \<and> d = int (code c) - 48"
  by (auto simp: int_of_char_def is_digit_def split: if_splits)

lemma int_or_x_Inr: "int_or_x c = Inr d \<Longrightarrow> 0 \<le> d \<and> d \<le> 10"
  by (auto simp: int_or_x_def dest: int_of_char_Inr split: if_splits)

lemma int_of_char_inj: "int_of_char c = Inr d \<Longrightarrow> int_of_char c' = Inr d \<Longrightarrow> c = c'"
  by (auto simp: code_inject [symmetric] dest!: int_of_char_Inr)

lemma int_or_x_inj: "int_or_x c = Inr d \<Longrightarrow> int_or_x c' = Inr d \<Longrightarrow> c = c'"
  by (auto simp: int_or_x_def dest: int_of_char_Inr int_of_char_inj split: if_splits)

text \<open>Changing one character changes the sum by its weight times the change of the digit.\<close>

lemma weighted_sum_update:
  assumes "weighted_sum dg w i v = Inr s" and "weighted_sum dg w i (v[k := c]) = Inr s'" and "k < length v"
  shows "\<exists>d d'. dg (v ! k) = Inr d \<and> dg c = Inr d' \<and> s' - s = w (i + k) * (d' - d)"
  using assms
proof (induction v arbitrary: i k s s')
  case (Cons x v)
  show ?case
  proof (cases k)
    case 0
    with Cons.prems show ?thesis by (auto elim!: rbindE simp: right_diff_distrib)
  next
    case (Suc j)
    from Cons.prems(1) obtain d0 r where d0: "dg x = Inr d0" and r: "weighted_sum dg w (Suc i) v = Inr r"
      and s: "s = w i * d0 + r" by (auto elim!: rbindE)
    from Cons.prems(2) Suc d0 obtain r' where r': "weighted_sum dg w (Suc i) (v[j := c]) = Inr r'"
      and s': "s' = w i * d0 + r'" by (auto elim!: rbindE)
    from Cons.IH [OF r r'] Cons.prems(3) Suc s s' show ?thesis by auto
  qed
qed simp

lemma mod_eq_dvd: "(a::int) mod m = 0 \<Longrightarrow> b mod m = 0 \<Longrightarrow> m dvd b - a"
  by (simp add: mod_0_imp_dvd dvd_diff)

lemma weight10:
  assumes "(11::int) dvd (10 - int k) * e" and "k < 10" and "\<bar>e\<bar> \<le> 10"
  shows "e = 0"
proof -
  have "k \<in> {0,1,2,3,4,5,6,7,8,9}" using assms(2) by auto
  then show ?thesis using assms(1,3) by auto presburger+
qed

lemma weight13:
  assumes "(10::int) dvd (if even k then 1 else 3) * e" and "\<bar>e\<bar> \<le> 9"
  shows "e = 0"
  using assms by (cases "even k") (simp_all, presburger+)

lemma checksum10_detects:
  assumes "length v = 10" and "k < 10" and "c \<noteq> v ! k" and "isbn_checksum_ok v = Inr True"
  shows "isbn_checksum_ok (v[k := c]) \<noteq> Inr True"
proof
  assume "isbn_checksum_ok (v[k := c]) = Inr True"
  with assms obtain s s' where s: "weighted_sum int_or_x (\<lambda>i. 10 - int i) 0 v = Inr s" "s mod 11 = 0"
    and s': "weighted_sum int_or_x (\<lambda>i. 10 - int i) 0 (v[k := c]) = Inr s'" "s' mod 11 = 0"
    by (auto simp: isbn_checksum_ok_def elim!: rbindE)
  from weighted_sum_update [OF s(1) s'(1)] assms obtain d d' where
    d: "int_or_x (v ! k) = Inr d" "int_or_x c = Inr d'" "s' - s = (10 - int k) * (d' - d)" by auto
  have "11 dvd (10 - int k) * (d' - d)" using mod_eq_dvd [OF s(2) s'(2)] d(3) by simp
  moreover have "\<bar>d' - d\<bar> \<le> 10" using d(1,2) [THEN int_or_x_Inr] by auto
  ultimately have "d' - d = 0" using weight10 assms(2) by blast
  with d int_or_x_inj assms(3) show False by auto
qed

lemma checksum13_detects:
  assumes "length v = 13" and "k < 13" and "c \<noteq> v ! k" and "isbn_checksum_ok v = Inr True"
  shows "isbn_checksum_ok (v[k := c]) \<noteq> Inr True"
proof
  assume "isbn_checksum_ok (v[k := c]) = Inr True"
  then obtain s' x' where s': "weighted_sum int_of_char (\<lambda>i. if even i then 1 else 3) 0 (take 12 (v[k := c])) = Inr s'"
    "int_of_char (v[k := c] ! 12) = Inr x'" "(s' + x') mod 10 = 0"
    using assms(1) by (auto simp: isbn_checksum_ok_def elim!: rbindE)
  from assms obtain s x where s: "weighted_sum int_of_char (\<lambda>i. if even i then 1 else 3) 0 (take 12 v) = Inr s"
    "int_of_char (v ! 12) = Inr x" "(s + x) mod 10 = 0"
    by (auto simp: isbn_checksum_ok_def elim!: rbindE)
  have dvd: "10 dvd (s' + x') - (s + x)" by (rule mod_eq_dvd [OF s(3) s'(3)])
  show False
  proof (cases "k = 12")
    case True
    with s(1) s'(1) have "s' = s" by (simp add: take_update_cancel)
    with dvd have "10 dvd (if even (0::nat) then 1 else 3) * (x' - x)" by simp
    moreover have "\<bar>x' - x\<bar> \<le> 9" using s(2) s'(2) by (auto dest!: int_of_char_Inr)
    ultimately have "x' - x = 0" by (rule weight13)
    with s(2) s'(2) True assms int_of_char_inj show False by auto
  next
    case False
    with assms(2) have k: "k < 12" by simp
    then have "x' = x" using s(2) s'(2) by simp
    have "take 12 (v[k := c]) = (take 12 v)[k := c]" by (simp add: take_update_swap)
    with weighted_sum_update [OF s(1), of k c s'] s'(1) assms(1) k obtain d d' where
      d: "int_of_char (v ! k) = Inr d" "int_of_char c = Inr d'"
      "s' - s = (if even k then 1 else 3) * (d' - d)" by (auto split: if_splits)
    with dvd \<open>x' = x\<close> have "10 dvd (if even k then 1 else 3) * (d' - d)" by simp
    moreover have "\<bar>d' - d\<bar> \<le> 9" using d(1,2) by (auto dest!: int_of_char_Inr)
    ultimately have "d' - d = 0" by (rule weight13)
    with d int_of_char_inj assms(3) show False by auto
  qed
qed

lemma digit_or_x_clean:
  assumes "is_digit c \<or> c = CHR ''X''"
  shows "c \<noteq> CHR ''-'' \<and> c \<noteq> CHR '' '' \<and> upper_char c = [c]"
  using assms by (auto simp: is_digit_def is_lower_def upper_char_def code_def)

lemma clean_fixed:
  "list_all (\<lambda>c. is_digit c \<or> c = CHR ''X'') v \<Longrightarrow>
     concat (map upper_char (filter (\<lambda>c. c \<noteq> CHR ''-'' \<and> c \<noteq> CHR '' '') v)) = v"
proof (induction v)
  case (Cons c v)
  from Cons.prems digit_or_x_clean [of c] have "c \<noteq> CHR ''-''" "c \<noteq> CHR '' ''" "upper_char c = [c]" by simp_all
  with Cons show ?case by simp
qed simp

lemma weighted_sum_valid: "weighted_sum dg w i v = Inr s \<Longrightarrow> c \<in> set v \<Longrightarrow> \<exists>d. dg c = Inr d"
  by (induction v arbitrary: i s) (auto elim!: rbindE)

lemma int_of_char_digit: "int_of_char c = Inr d \<Longrightarrow> is_digit c"
  by (simp add: int_of_char_def split: if_splits)

lemma int_or_x_digit: "int_or_x c = Inr d \<Longrightarrow> is_digit c \<or> c = CHR ''X''"
  by (auto simp: int_or_x_def dest: int_of_char_digit split: if_splits)

lemma checksum_chars:
  assumes "isbn_checksum_ok v = Inr b" and "length v = 10 \<or> length v = 13"
  shows "list_all (\<lambda>c. is_digit c \<or> c = CHR ''X'') v"
proof (cases "length v = 10")
  case True
  with assms(1) obtain s where "weighted_sum int_or_x (\<lambda>i. 10 - int i) 0 v = Inr s"
    by (auto simp: isbn_checksum_ok_def elim!: rbindE)
  then show ?thesis using weighted_sum_valid int_or_x_digit by (fastforce simp: list_all_iff)
next
  case False
  with assms obtain s d where s: "weighted_sum int_of_char (\<lambda>i. if even i then 1 else 3) 0 (take 12 v) = Inr s"
    and d: "int_of_char (v ! 12) = Inr d"
    by (auto simp: isbn_checksum_ok_def elim!: rbindE)
  have "v = take 12 v @ [v ! 12]" using assms(2) False take_Suc_conv_app_nth [of 12 v] by simp
  then have "set v = set (take 12 v) \<union> {v ! 12}" by (metis list.set(1) list.simps(15) set_append)
  then show ?thesis using weighted_sum_valid [OF s] d int_of_char_digit
    by (fastforce simp: list_all_iff)
qed

lemma mk_isbn_Inr:
  assumes "mk_isbn raw = Inr v" and "raw \<noteq> []"
  shows "(length v = 10 \<or> length v = 13) \<and> isbn_checksum_ok v = Inr True"
  using assms by (auto simp: mk_isbn_def Let_def elim!: rbindE split: if_splits)

lemma clean_replaced:
  assumes "list_all (\<lambda>c. is_digit c \<or> c = CHR ''X'') v" and "k < length v"
  shows "concat (map upper_char (filter (\<lambda>c. c \<noteq> CHR ''-'' \<and> c \<noteq> CHR '' '') (v[k := c])))
    = take k v @ (if c = CHR ''-'' \<or> c = CHR '' '' then [] else upper_char c) @ drop (Suc k) v"
proof -
  have "list_all (\<lambda>c. is_digit c \<or> c = CHR ''X'') (take k v)" "list_all (\<lambda>c. is_digit c \<or> c = CHR ''X'') (drop (Suc k) v)"
    using assms(1) by (auto simp: list_all_iff dest: in_set_takeD in_set_dropD)
  then show ?thesis using assms(2) clean_fixed by (simp add: upd_conv_take_nth_drop)
qed

text \<open>
  C31: the ISBN value object detects every single-character error within Latin-1: an accepted ISBN in
  which one character is replaced by any other character up to U+00FF is refused, unless the upper case
  of the new character is the old one, that is, an X has become an x. (Beyond Latin-1, the code
  takes a decimal digit of another script for the digit of the same value.)
\<close>

theorem isbn_detects_single_error:
  assumes "mk_isbn raw = Inr v" and "raw \<noteq> []" and "k < length v" and "upper_char c \<noteq> [v ! k]"
  shows "\<exists>e. mk_isbn (v[k := c]) = Inl e"
proof (cases "mk_isbn (v[k := c])")
  case (Inr w)
  from mk_isbn_Inr [OF assms(1,2)] have l: "length v = 10 \<or> length v = 13"
    and ok: "isbn_checksum_ok v = Inr True" by simp_all
  let ?w = "take k v @ (if c = CHR ''-'' \<or> c = CHR '' '' then [] else upper_char c) @ drop (Suc k) v"
  have "v[k := c] \<noteq> []" using l by auto
  with Inr clean_replaced [OF checksum_chars [OF ok l] assms(3), of c]
  have w: "length ?w = 10 \<or> length ?w = 13" "isbn_checksum_ok ?w = Inr True"
    by (auto simp: mk_isbn_def Let_def elim!: rbindE split: if_splits)
  have "length (upper_char c) \<le> 2" by (simp add: upper_char_def)
  with w(1) l assms(3) obtain d where d: "upper_char c = [d]" "?w = v[k := d]"
    by (cases "upper_char c" rule: list.exhaust) (auto simp: upd_conv_take_nth_drop split: if_splits)
  with w(2) l ok assms(3,4) checksum10_detects [of v k d] checksum13_detects [of v k d] show ?thesis by auto
qed blast

lemma sample_isbn: "mk_isbn ''0-306-40615-2'' = Inr ''0306406152''"
  by (simp add: mk_isbn_def upper_char_def py_isdigit_def py_isdigit_char_def isbn_checksum_ok_def
      int_or_x_def int_of_char_def str_eval)

theorem isbn_detects_single_error_witness: "\<exists>e. mk_isbn ''0306406151'' = Inl e"
  using isbn_detects_single_error [OF sample_isbn, of 9 "CHR ''1''"]
  by (simp add: upper_char_def is_lower_def code_def)

section \<open>The Patron aggregate\<close>

text \<open>
  C29: a patron that satisfies the Patron invariant still satisfies it after any sequence of
  commands; in particular a suspended patron always has a bounded reason and an active one
  has none. No pending event is lost, identity, address and registration date stay, and the
  membership tier never goes down.
\<close>

theorem patron_lifecycle_invariant:
  assumes "patron_wf p"
  shows "patron_wf (run_commands patron_step cs p)
    \<and> prefix (patron_events p) (patron_events (run_commands patron_step cs p))
    \<and> pid (run_commands patron_step cs p) = pid p
    \<and> patron_email (run_commands patron_step cs p) = patron_email p
    \<and> progression (membership_tier p) \<le> progression (membership_tier (run_commands patron_step cs p))"
  using patron.run_inv [OF assms, of cs] patron.run_pending [of p cs] patron.run_ident [of cs p]
    run_tier_mono [of p cs] by simp

definition sample_patron :: patron where
  "sample_patron = \<lparr>first_name = ''Ann'', last_name = ''Lee'', patron_email = sample_email,
     registered_at = 5, pid = ''patron-1'', membership_tier = REGULAR, is_suspended = False,
     suspended_reason = None, patron_events = [], patron_version = 0\<rparr>"

lemma sample_patron_wf: "patron_wf sample_patron"
  by (simp add: patron_wf_def sample_patron_def mk_patron_name_def squash_word Let_def str_eval)

theorem patron_lifecycle_invariant_witness:
  "patron_wf (run_commands patron_step [Suspend sample_ambient ''late'', UpgradeTier PREMIUM] sample_patron)"
  using patron_lifecycle_invariant [OF sample_patron_wf] by blast

text \<open>
  Suspension and reinstatement exclude each other and undo each other: a suspended
  patron cannot be suspended again, can be reinstated, and is then as before except for the
  two events recorded.
\<close>

theorem suspend_reinstate_roundtrip:
  assumes "patron_wf p" and "ambient_ok amb2" and "suspend amb reason p = Inr p'"
  shows "suspend amb2 r2 p' = Inl (PatronE (PatronAlreadySuspendedException (pid p)))
    \<and> suspended_reason p' = Some (squash reason)
    \<and> (\<exists>e1 e2. reinstate amb2 p' = Inr (p\<lparr>patron_events := patron_events p @ [e1, e2]\<rparr>)
        \<and> event_data e1 = PatronEvent (PatronSuspended (pid p) (squash reason))
        \<and> event_data e2 = PatronEvent (PatronReinstated (pid p)))"
proof -
  from assms(3) obtain e1 where p: "\<not> is_suspended p"
    and e1: "new_event amb (PatronEvent (PatronSuspended (pid p) (squash reason))) = Inr e1"
    and p': "p' = p\<lparr>is_suspended := True, suspended_reason := Some (squash reason),
                    patron_events := patron_events p @ [e1]\<rparr>"
    by (auto simp: suspend_def Let_def add_patron_event_Inr split: if_splits)
  from assms(1) p have none: "suspended_reason p = None" by (simp add: patron_wf_def)
  obtain e2 where e2: "new_event amb2 (PatronEvent (PatronReinstated (pid p))) = Inr e2"
    using new_event_total [OF assms(2)] by blast
  have "reinstate amb2 p' = Inr (p\<lparr>patron_events := patron_events p @ [e1, e2]\<rparr>)"
    using p p' e2 none by (simp add: reinstate_def add_patron_event_def)
  moreover have "event_data e1 = PatronEvent (PatronSuspended (pid p) (squash reason))"
    "event_data e2 = PatronEvent (PatronReinstated (pid p))" by (rule new_event_data [OF e1], rule new_event_data [OF e2])
  ultimately show ?thesis using p' by (fastforce simp: suspend_def)
qed

lemma sample_suspend: "\<exists>p. suspend sample_ambient ''late'' sample_patron = Inr p"
  by (simp add: suspend_def sample_patron_def add_patron_event_def squash_word Let_def str_eval)

theorem suspend_reinstate_roundtrip_witness:
  "\<exists>p p'. suspend sample_ambient ''late'' sample_patron = Inr p \<and> reinstate sample_ambient p = Inr p'
     \<and> is_suspended p' = False"
proof -
  obtain p where p: "suspend sample_ambient ''late'' sample_patron = Inr p" using sample_suspend by blast
  from suspend_reinstate_roundtrip [OF sample_patron_wf sample_ambient_ok p, of r2] p
  show ?thesis by (auto simp: sample_patron_def)
qed

end
