(* ===== verification/CatalogBookProps.thy ===== *)
theory CatalogBookProps
  imports CatalogBook Samples
begin

text \<open>
  What the \<open>Book\<close> aggregate guarantees: the invariant \<open>book_wf\<close> that construction
  establishes and every transition keeps, the transition table with its exact guards, the
  reservation fence, and the idempotence of redelivered commands.
\<close>

section \<open>The invariant\<close>

definition book_wf :: "book \<Rightarrow> bool" where
  "book_wf b \<longleftrightarrow> mk_title (title b) = Inr (title b) \<and> mk_author (author b) = Inr (author b)
     \<and> id_ok (bid b) \<and> 0 \<le> reservation_generation b
     \<and> pred_option (\<lambda>u. canon_uuid u = Some u) (reservation_id b)
     \<and> pred_option ref_ok (reserved_patron_id b) \<and> pred_option ref_ok (current_loan_id b)
     \<and> pred_option ref_ok (last_completed_loan_id b)
     \<and> pred_option (\<lambda>e. email_address e = Inr e) (reserved_patron_email b)
     \<and> pred_option in_range (reserved_at b) \<and> pred_option in_range (borrowed_at b)
     \<and> pred_option in_range (return_due_date b)
     \<and> validate_state b = Inr ()"

text \<open>The state part of the invariant, status by status.\<close>

lemma validate_state_Inr [result_simps]:
  "validate_state b = Inr () \<longleftrightarrow>
     (case status b of
        AVAILABLE \<Rightarrow> reserved_at b = None \<and> borrowed_at b = None \<and> return_due_date b = None
          \<and> current_loan_id b = None \<and> (correlation_any b \<longrightarrow> correlation_complete b)
      | RESERVED \<Rightarrow> correlation_complete b \<and> reserved_at b \<noteq> None \<and> 1 \<le> reservation_generation b
          \<and> borrowed_at b = None \<and> return_due_date b = None \<and> current_loan_id b = None
      | BORROWED \<Rightarrow> correlation_complete b \<and> 1 \<le> reservation_generation b \<and> reserved_at b = None
          \<and> current_loan_id b \<noteq> None
          \<and> (\<exists>f d. borrowed_at b = Some f \<and> return_due_date b = Some d \<and> f < d))"
  by (auto simp: validate_state_def split: book_status.splits option.splits)

lemma mk_title_Inr: "mk_title r = Inr v \<longleftrightarrow> v = squash r \<and> v \<noteq> [] \<and> length v \<le> 100"
  by (auto simp: mk_title_def Let_def)

lemma mk_author_Inr: "mk_author r = Inr v \<longleftrightarrow> v = squash r \<and> v \<noteq> [] \<and> length v \<le> 200"
  by (auto simp: mk_author_def Let_def)

lemma mk_title_idem: "mk_title r = Inr v \<Longrightarrow> mk_title v = Inr v"
  by (auto simp: mk_title_Inr)

lemma mk_author_idem: "mk_author r = Inr v \<Longrightarrow> mk_author v = Inr v"
  by (auto simp: mk_author_Inr)

lemma catalog_reservation_id_Inr [result_simps]:
  "catalog_reservation_id r = Inr u \<longleftrightarrow> canon_uuid r = Some u"
  by (auto simp: catalog_reservation_id_def split: option.splits)

lemma catalog_reference_Inr [result_simps]:
  "catalog_reference v f = Inr w \<longleftrightarrow> w = py_strip v \<and> ref_ok w"
  by (simp add: catalog_reference_def normalize_ref_Inr)

lemma add_book_event_Inr [result_simps]:
  "add_book_event amb e b = Inr b' \<longleftrightarrow>
     (\<exists>ev. new_event amb (CatalogEvent e) = Inr ev \<and> b' = b\<lparr>book_events := book_events b @ [ev]\<rparr>)"
  by (auto simp: add_book_event_def result_simps)

lemma correlation_events [simp]:
  "correlation_complete (b\<lparr>book_events := es\<rparr>) = correlation_complete b"
  "correlation_any (b\<lparr>book_events := es\<rparr>) = correlation_any b"
  by (simp_all add: correlation_complete_def correlation_any_def)

lemma book_wf_events [simp]: "book_wf (b\<lparr>book_events := es\<rparr>) = book_wf b"
  by (simp add: book_wf_def validate_state_Inr split: book_status.split)

text \<open>Properties of the value objects in the form the post-initialisation leaves them.\<close>

lemma ropt_pred:
  assumes "ropt f v = Inr w" and "\<And>x y. f x = Inr y \<Longrightarrow> P y"
  shows "pred_option P w"
  using assms by (cases v) (auto simp: result_simps)

lemma book_post_init_Inr:
  assumes "book_post_init a = Inr b"
  shows "mk_title (arg_title a) = Inr (title b)" "mk_author (arg_author a) = Inr (author b)"
    "mk_book_id (arg_id a) = Inr (bid b)" "0 \<le> reservation_generation b"
    "ropt catalog_reservation_id (arg_reservation_id a) = Inr (reservation_id b)"
    "ropt (\<lambda>v. catalog_reference v ''reserved_patron_id'') (arg_reserved_patron_id a) = Inr (reserved_patron_id b)"
    "ropt (\<lambda>v. catalog_reference v ''current_loan_id'') (arg_current_loan_id a) = Inr (current_loan_id b)"
    "ropt (\<lambda>v. catalog_reference v ''last_completed_loan_id'') (arg_last_completed_loan_id a) = Inr (last_completed_loan_id b)"
    "ropt email_address (arg_reserved_patron_email a) = Inr (reserved_patron_email b)"
    "ropt (\<lambda>d. require_utc_datetime d ''reserved_at'') (arg_reserved_at a) = Inr (reserved_at b)"
    "ropt (\<lambda>d. require_utc_datetime d ''borrowed_at'') (arg_borrowed_at a) = Inr (borrowed_at b)"
    "ropt (\<lambda>d. require_utc_datetime d ''return_due_date'') (arg_return_due_date a) = Inr (return_due_date b)"
    "validate_state b = Inr ()" "book_events b = []" "book_version b = 0"
    "book_status_of (arg_status a) = Some (status b)"
    "reservation_generation b = arg_reservation_generation a"
  using assms unfolding book_post_init_def Let_def
  by - (elim rbindE, (simp split: option.splits if_splits; elim rbindE; (clarsimp; fail)?))+

lemma book_post_init_wf:
  assumes "book_post_init a = Inr b"
  shows "book_wf b \<and> book_events b = [] \<and> book_version b = 0"
proof -
  note * = book_post_init_Inr [OF assms]
  show ?thesis
    unfolding book_wf_def
  proof (intro conjI)
    show "mk_title (title b) = Inr (title b)" using *(1) by (rule mk_title_idem)
    show "mk_author (author b) = Inr (author b)" using *(2) by (rule mk_author_idem)
    show "id_ok (bid b)" using *(3) canonical_id_ok by (auto simp: mk_book_id_def)
    show "pred_option (\<lambda>u. canon_uuid u = Some u) (reservation_id b)"
      by (rule ropt_pred [OF *(5)]) (auto simp: result_simps dest: canon_uuid_idem)
    show "pred_option ref_ok (reserved_patron_id b)" by (rule ropt_pred [OF *(6)]) (simp add: result_simps)
    show "pred_option ref_ok (current_loan_id b)" by (rule ropt_pred [OF *(7)]) (simp add: result_simps)
    show "pred_option ref_ok (last_completed_loan_id b)" by (rule ropt_pred [OF *(8)]) (simp add: result_simps)
    show "pred_option (\<lambda>e. email_address e = Inr e) (reserved_patron_email b)"
      by (rule ropt_pred [OF *(9)]) (rule email_address_idem)
    show "pred_option in_range (reserved_at b)" by (rule ropt_pred [OF *(10)]) (simp add: result_simps)
    show "pred_option in_range (borrowed_at b)" by (rule ropt_pred [OF *(11)]) (simp add: result_simps)
    show "pred_option in_range (return_due_date b)" by (rule ropt_pred [OF *(12)]) (simp add: result_simps)
  qed (use * in simp_all)
qed

section \<open>The transitions, inverted\<close>

lemma require_matching_Inr [result_simps]:
  "require_matching_reservation b rid g p op = Inr token \<longleftrightarrow>
     canon_uuid rid = Some token \<and> reservation_id b = Some token \<and> reservation_generation b = g
     \<and> reserved_patron_id b = Some p"
  by (auto simp: require_matching_reservation_def result_simps)

lemma reserve_Inr:
  assumes "reserve amb next_id p e at given b = Inr (b', token)"
  obtains pid em t ev where
    "status b = AVAILABLE" "pid = py_strip p" "ref_ok pid" "email_address e = Inr em"
    "require_utc_datetime at ''reserved_at'' = Inr t"
    "canon_uuid (case given of Some g \<Rightarrow> g | None \<Rightarrow> next_id) = Some token"
    "new_event amb (CatalogEvent (CatalogBookReserved (bid b) (title b) token
       (reservation_generation b + 1) pid t em)) = Inr ev"
    "b' = b\<lparr>status := RESERVED, reserved_at := Some t, borrowed_at := None, return_due_date := None,
            reservation_id := Some token, reservation_generation := reservation_generation b + 1,
            reserved_patron_id := Some pid, reserved_patron_email := Some em, current_loan_id := None,
            book_events := book_events b @ [ev]\<rparr>"
  using assms unfolding reserve_def Let_def
  by (auto split: if_splits elim!: rbindE
      simp: catalog_reference_Inr catalog_reservation_id_Inr add_book_event_Inr intro: that)

lemma confirm_borrow_Inr:
  assumes "confirm_borrow amb rid g p lid from due b = Inr (b', changed)"
  obtains token l f d where
    "canon_uuid rid = Some token" "reservation_id b = Some token" "reservation_generation b = g"
    "reserved_patron_id b = Some p" "l = py_strip lid" "ref_ok l"
    "require_utc_datetime from ''borrowed_at'' = Inr f"
    "require_utc_datetime due ''return_due_date'' = Inr d"
    "\<not> changed \<and> b' = b \<and> status b = BORROWED \<and> current_loan_id b = Some l
       \<and> borrowed_at b = Some f \<and> return_due_date b = Some d
     \<or> changed \<and> status b = RESERVED \<and> current_loan_id b = None \<and> f < d
       \<and> (\<forall>r. reserved_at b = Some r \<longrightarrow> r \<le> f)
       \<and> (\<exists>em ev. reserved_patron_email b = Some em
            \<and> new_event amb (CatalogEvent (CatalogBookBorrowed (bid b) (title b) token g p l f d em)) = Inr ev
            \<and> b' = b\<lparr>status := BORROWED, reserved_at := None, current_loan_id := Some l,
                     borrowed_at := Some f, return_due_date := Some d,
                     book_events := book_events b @ [ev]\<rparr>)"
  using assms unfolding confirm_borrow_def Let_def
  by (auto split: if_splits option.splits elim!: rbindE
      simp: catalog_reference_Inr require_matching_Inr add_book_event_Inr intro: that)

lemma release_Inr:
  assumes "release amb rid g p reason b = Inr (b', changed)"
  obtains token where
    "canon_uuid rid = Some token" "reservation_id b = Some token" "reservation_generation b = g"
    "reserved_patron_id b = Some p" "squash reason \<noteq> []" "length (squash reason) \<le> 500"
    "\<not> changed \<and> b' = b \<and> status b = AVAILABLE
     \<or> changed \<and> status b = RESERVED
       \<and> (\<exists>ev. new_event amb (CatalogEvent (CatalogBookReleased (bid b) token g p (squash reason))) = Inr ev
            \<and> b' = b\<lparr>status := AVAILABLE, reserved_at := None, borrowed_at := None,
                     return_due_date := None, book_events := book_events b @ [ev]\<rparr>)"
  using assms unfolding release_def Let_def
  by (auto split: if_splits elim!: rbindE simp: require_matching_Inr add_book_event_Inr intro: that)

lemma return_correlation_Inr [result_simps]:
  "require_return_correlation b l token g p = Inr () \<longleftrightarrow>
     reservation_id b = Some token \<and> reservation_generation b = g \<and> reserved_patron_id b = Some p"
  by (simp add: require_return_correlation_def return_mismatches_def Let_def)

lemma return_book_Inr:
  assumes "return_book amb lid rid g p b = Inr (b', changed)"
  obtains token l where
    "canon_uuid rid = Some token" "reservation_id b = Some token" "reservation_generation b = g"
    "reserved_patron_id b = Some p" "l = py_strip lid" "ref_ok l"
    "\<not> changed \<and> b' = b \<and> status b = AVAILABLE \<and> last_completed_loan_id b = Some l
     \<or> changed \<and> status b = BORROWED \<and> current_loan_id b = Some l
       \<and> (\<exists>ev. new_event amb (CatalogEvent (CatalogBookReturned (bid b) l token g p)) = Inr ev
            \<and> b' = b\<lparr>status := AVAILABLE, borrowed_at := None, return_due_date := None,
                     current_loan_id := None, last_completed_loan_id := Some l,
                     book_events := book_events b @ [ev]\<rparr>)"
  using assms unfolding return_book_def Let_def
  by (auto split: if_splits option.splits elim!: rbindE
      simp: catalog_reference_Inr catalog_reservation_id_Inr return_correlation_Inr add_book_event_Inr
      intro: that)

section \<open>Every transition keeps the invariant\<close>

lemma reserve_wf: "book_wf b \<Longrightarrow> reserve amb n p e at given b = Inr (b', token) \<Longrightarrow> book_wf b'"
  by (erule reserve_Inr)
    (auto simp: book_wf_def validate_state_Inr correlation_complete_def require_utc_Inr
      dest: canon_uuid_idem email_address_idem split: book_status.splits)

lemma confirm_borrow_wf:
  "book_wf b \<Longrightarrow> confirm_borrow amb rid g p lid from due b = Inr (b', changed) \<Longrightarrow> book_wf b'"
  by (erule confirm_borrow_Inr)
    (auto simp: book_wf_def validate_state_Inr correlation_complete_def require_utc_Inr)

lemma release_wf: "book_wf b \<Longrightarrow> release amb rid g p reason b = Inr (b', changed) \<Longrightarrow> book_wf b'"
  by (erule release_Inr) (auto simp: book_wf_def validate_state_Inr correlation_complete_def)

lemma return_book_wf:
  "book_wf b \<Longrightarrow> return_book amb lid rid g p b = Inr (b', changed) \<Longrightarrow> book_wf b'"
  by (erule return_book_Inr) (auto simp: book_wf_def validate_state_Inr correlation_complete_def)

section \<open>The aggregate as a state machine\<close>

datatype book_command =
    Reserve ambient string string string datetime "string option"
  | ConfirmBorrow ambient string int string string datetime datetime
  | Release ambient string int string string
  | ReturnBook ambient string string int string

fun book_step :: "book_command \<Rightarrow> book \<Rightarrow> exn + book" where
  "book_step (Reserve amb n p e at given) b = rbind (reserve amb n p e at given b) (\<lambda>(b', _). Inr b')"
| "book_step (ConfirmBorrow amb rid g p lid from due) b =
     rbind (confirm_borrow amb rid g p lid from due b) (\<lambda>(b', _). Inr b')"
| "book_step (Release amb rid g p reason) b = rbind (release amb rid g p reason b) (\<lambda>(b', _). Inr b')"
| "book_step (ReturnBook amb lid rid g p) b = rbind (return_book amb lid rid g p b) (\<lambda>(b', _). Inr b')"

lemma book_step_wf: "book_wf b \<Longrightarrow> book_step c b = Inr b' \<Longrightarrow> book_wf b'"
  by (cases c) (auto simp: rbind_eq_Inr_iff dest: reserve_wf confirm_borrow_wf release_wf return_book_wf)

lemma book_step_pending: "book_step c b = Inr b' \<Longrightarrow> prefix (book_events b) (book_events b')"
  by (cases c) (auto simp: rbind_eq_Inr_iff elim!: reserve_Inr confirm_borrow_Inr release_Inr return_book_Inr)

lemma book_step_ident: "book_step c b = Inr b' \<Longrightarrow> bid b' = bid b"
  by (cases c) (auto simp: rbind_eq_Inr_iff elim!: reserve_Inr confirm_borrow_Inr release_Inr return_book_Inr)

interpretation book: aggregate book_step book_wf book_events bid
  by unfold_locales (auto dest: book_step_wf book_step_pending book_step_ident)

text \<open>The saga commands that name an existing reservation, and the reservation they name.\<close>

fun saga_target :: "book_command \<Rightarrow> (string \<times> int \<times> string) option" where
  "saga_target (Reserve _ _ _ _ _ _) = None"
| "saga_target (ConfirmBorrow _ rid g p _ _ _) = Some (rid, g, p)"
| "saga_target (Release _ rid g p _) = Some (rid, g, p)"
| "saga_target (ReturnBook _ _ rid g p) = Some (rid, g, p)"

fun redelivered :: "ambient \<Rightarrow> book_command \<Rightarrow> book_command" where
  "redelivered amb (Reserve _ n p e at given) = Reserve amb n p e at given"
| "redelivered amb (ConfirmBorrow _ rid g p lid from due) = ConfirmBorrow amb rid g p lid from due"
| "redelivered amb (Release _ rid g p reason) = Release amb rid g p reason"
| "redelivered amb (ReturnBook _ lid rid g p) = ReturnBook amb lid rid g p"

fun is_reserve :: "book_command \<Rightarrow> bool" where
  "is_reserve (Reserve _ _ _ _ _ _) = True"
| "is_reserve _ = False"

lemma book_step_generation:
  "book_step c b = Inr b' \<Longrightarrow>
     reservation_generation b' = reservation_generation b + (if is_reserve c then 1 else 0)"
  by (cases c) (auto simp: rbind_eq_Inr_iff elim!: reserve_Inr confirm_borrow_Inr release_Inr return_book_Inr)

lemma saga_target_matches:
  "saga_target c = Some (rid, g, p) \<Longrightarrow> book_step c b = Inr b' \<Longrightarrow>
     reservation_id b = canon_uuid rid \<and> reservation_id b \<noteq> None
     \<and> reservation_generation b = g \<and> reserved_patron_id b = Some p"
  by (cases c) (auto simp: rbind_eq_Inr_iff elim!: confirm_borrow_Inr release_Inr return_book_Inr)

lemma confirm_again:
  assumes "confirm_borrow amb rid g p lid from due b = Inr (b', changed)"
  shows "confirm_borrow amb' rid g p lid from due b' = Inr (b', False)"
  using assms
proof (rule confirm_borrow_Inr)
  fix token l f d
  assume t: "canon_uuid rid = Some token" and l: "l = py_strip lid" "ref_ok l"
    and r: "reservation_id b = Some token" "reservation_generation b = g" "reserved_patron_id b = Some p"
    and fd: "require_utc_datetime from ''borrowed_at'' = Inr f"
      "require_utc_datetime due ''return_due_date'' = Inr d"
    and c: "\<not> changed \<and> b' = b \<and> status b = BORROWED \<and> current_loan_id b = Some l
       \<and> borrowed_at b = Some f \<and> return_due_date b = Some d
     \<or> changed \<and> status b = RESERVED \<and> current_loan_id b = None \<and> f < d
       \<and> (\<forall>r. reserved_at b = Some r \<longrightarrow> r \<le> f)
       \<and> (\<exists>em ev. reserved_patron_email b = Some em
            \<and> new_event amb (CatalogEvent (CatalogBookBorrowed (bid b) (title b) token g p l f d em)) = Inr ev
            \<and> b' = b\<lparr>status := BORROWED, reserved_at := None, current_loan_id := Some l,
                     borrowed_at := Some f, return_due_date := Some d,
                     book_events := book_events b @ [ev]\<rparr>)"
  have "catalog_reference lid ''loan_id'' = Inr l" using l by (simp add: catalog_reference_Inr)
  moreover have "status b' = BORROWED" "current_loan_id b' = Some l" "borrowed_at b' = Some f"
    "return_due_date b' = Some d" using c by auto
  moreover have "require_matching_reservation b' rid g p ''confirm borrow'' = Inr token"
    using c r t by (auto simp: require_matching_Inr)
  ultimately show ?thesis using fd by (simp add: confirm_borrow_def)
qed

lemma release_again:
  assumes "release amb rid g p reason b = Inr (b', changed)"
  shows "release amb' rid g p reason b' = Inr (b', False)"
  using assms
  by (rule release_Inr)
    (auto simp: release_def require_matching_reservation_def catalog_reservation_id_def Let_def)

lemma return_again:
  assumes "return_book amb lid rid g p b = Inr (b', changed)"
  shows "return_book amb' lid rid g p b' = Inr (b', False)"
  using assms
proof (rule return_book_Inr)
  fix token l
  assume t: "canon_uuid rid = Some token" and l: "l = py_strip lid" "ref_ok l"
    and r: "reservation_id b = Some token" "reservation_generation b = g" "reserved_patron_id b = Some p"
    and c: "\<not> changed \<and> b' = b \<and> status b = AVAILABLE \<and> last_completed_loan_id b = Some l
     \<or> changed \<and> status b = BORROWED \<and> current_loan_id b = Some l
       \<and> (\<exists>ev. new_event amb (CatalogEvent (CatalogBookReturned (bid b) l token g p)) = Inr ev
            \<and> b' = b\<lparr>status := AVAILABLE, borrowed_at := None, return_due_date := None,
                     current_loan_id := None, last_completed_loan_id := Some l,
                     book_events := book_events b @ [ev]\<rparr>)"
  have "catalog_reference lid ''loan_id'' = Inr l" using l by (simp add: catalog_reference_Inr)
  moreover have "catalog_reservation_id rid = Inr token" using t by (simp add: catalog_reservation_id_Inr)
  moreover have "status b' = AVAILABLE" "last_completed_loan_id b' = Some l"
    "reservation_generation b' = g" "require_return_correlation b' l token g p = Inr ()"
    using c r by (auto simp: return_correlation_Inr)
  ultimately show ?thesis by (simp add: return_book_def)
qed

section \<open>Properties\<close>

text \<open>The transitions the class comment draws.\<close>

inductive lifecycle :: "book_status \<Rightarrow> book_status \<Rightarrow> bool" where
  reserve_edge: "lifecycle AVAILABLE RESERVED"
| confirm_edge: "lifecycle RESERVED BORROWED"
| release_edge: "lifecycle RESERVED AVAILABLE"
| return_edge: "lifecycle BORROWED AVAILABLE"

inductive_simps lifecycle_simps:
  "lifecycle AVAILABLE s" "lifecycle RESERVED s" "lifecycle BORROWED s"

lemma book_step_edge:
  "book_step c b = Inr b' \<Longrightarrow>
     (b' = b \<and> \<not> is_reserve c)
     \<or> (lifecycle (status b) (status b') \<and> length (book_events b') = Suc (length (book_events b)))"
  by (cases c) (auto simp: rbind_eq_Inr_iff lifecycle_simps
      elim!: reserve_Inr confirm_borrow_Inr release_Inr return_book_Inr)

lemma run_generation_mono: "reservation_generation b \<le> reservation_generation (run_commands book_step cs b)"
proof (induction cs arbitrary: b)
  case (Cons c cs)
  show ?case
  proof (cases "book_step c b")
    case (Inr b')
    then have "reservation_generation b \<le> reservation_generation b'" by (simp add: book_step_generation)
    with Inr Cons.IH [of b'] show ?thesis by simp
  qed (use Cons.IH in simp)
qed simp

text \<open>Concrete values for the witnesses.\<close>

definition sample_book :: book where
  "sample_book = \<lparr>title = ''Dune'', author = ''Herbert'', bid = ''book-1'', status = AVAILABLE,
     reserved_at = None, borrowed_at = None, return_due_date = None, reservation_id = None,
     reservation_generation = 0, reserved_patron_id = None, reserved_patron_email = None,
     current_loan_id = None, last_completed_loan_id = None, book_events = [], book_version = 0\<rparr>"

definition sample_reserve :: book_command where
  "sample_reserve = Reserve sample_ambient sample_uuid ''patron-1'' sample_email (utc 10) None"

definition sample_confirm :: book_command where
  "sample_confirm = ConfirmBorrow sample_ambient sample_uuid 1 ''patron-1'' ''loan-1'' (utc 10) (utc 20)"

definition sample_reserved_book :: book where
  "sample_reserved_book = sample_book\<lparr>status := RESERVED, reserved_at := Some 10,
     reservation_id := Some sample_uuid, reservation_generation := 1,
     reserved_patron_id := Some ''patron-1'', reserved_patron_email := Some sample_email,
     book_events := [sample_event (CatalogEvent (CatalogBookReserved ''book-1'' ''Dune'' sample_uuid 1
        ''patron-1'' 10 sample_email))]\<rparr>"

lemma sample_book_wf: "book_wf sample_book"
  by (simp add: book_wf_def sample_book_def mk_title_def mk_author_def str_eval Let_def
      validate_state_Inr correlation_any_def)

lemma sample_reserve_step: "book_step sample_reserve sample_book = Inr sample_reserved_book"
  by (simp add: sample_reserve_def sample_book_def sample_reserved_book_def reserve_def
      catalog_reference_def normalize_ref_id catalog_reservation_id_def add_book_event_def)

lemma sample_confirm_step:
  "\<exists>b. book_step sample_confirm sample_reserved_book = Inr b \<and> status b = BORROWED"
  by (simp add: sample_confirm_def sample_book_def sample_reserved_book_def confirm_borrow_def
      require_matching_reservation_def catalog_reference_def normalize_ref_id
      catalog_reservation_id_def add_book_event_def)

subsection \<open>Book lifecycle\<close>

text \<open>
  C11: a book that satisfies the Book invariant still satisfies it after any sequence of
  commands, valid or rejected, in any order; no pending event is lost and its identity
  never changes.
\<close>

theorem book_lifecycle_invariant:
  assumes "book_wf b"
  shows "book_wf (run_commands book_step cs b)
    \<and> prefix (book_events b) (book_events (run_commands book_step cs b))
    \<and> bid (run_commands book_step cs b) = bid b"
  using book.run_inv [OF assms] book.run_pending book.run_ident by blast

theorem book_lifecycle_invariant_witness:
  "book_wf (run_commands book_step [sample_reserve, sample_reserve, sample_confirm] sample_book)"
  using book_lifecycle_invariant [OF sample_book_wf] by blast

text \<open>
  C10: the aggregate implements the state machine its documentation draws. A command that
  does not raise either takes one drawn edge and records exactly one event, or is a
  redelivered saga command that leaves the book as it is.
\<close>

theorem book_refines_lifecycle:
  assumes "book_step c b = Inr b'"
  shows "(b' = b \<and> saga_target c \<noteq> None)
    \<or> (lifecycle (status b) (status b') \<and> length (book_events b') = Suc (length (book_events b)))"
proof -
  have "saga_target c \<noteq> None" if "\<not> is_reserve c" using that by (cases c) auto
  with book_step_edge [OF assms] show ?thesis by blast
qed

theorem book_refines_lifecycle_witness:
  "lifecycle (status sample_book) (status sample_reserved_book)"
  using book_refines_lifecycle [OF sample_reserve_step]
  by (auto simp: sample_book_def sample_reserved_book_def)

text \<open>
  The fence. A confirmation, release or return whose reservation identity, generation
  or patron differs from the book's current correlation raises, so it cannot change the
  book.
\<close>

theorem reservation_fence:
  assumes "saga_target c = Some (rid, g, p)"
    and "canon_uuid rid \<noteq> reservation_id b \<or> g \<noteq> reservation_generation b
      \<or> reserved_patron_id b \<noteq> Some p"
  shows "\<exists>e. book_step c b = Inl e"
proof (cases "book_step c b")
  case (Inr b')
  from saga_target_matches [OF assms(1) Inr] assms(2) show ?thesis by auto
qed blast

theorem reservation_fence_witness:
  "\<exists>e. book_step (Release sample_ambient other_uuid 1 ''patron-1'' ''late'') sample_reserved_book = Inl e"
  by (rule reservation_fence [of _ other_uuid 1 "''patron-1''"]) (simp_all add: sample_reserved_book_def)

text \<open>
  C6: the generation is a fencing token for the whole life of the book. Once the book has
  been reserved again, a message of an earlier reservation raises then and at any later
  time, whatever happens in between, even if an identity were reused.
\<close>

theorem superseded_reservation_is_dead:
  assumes "saga_target c = Some (rid, g, p)" and "g < reservation_generation b"
  shows "\<exists>e. book_step c (run_commands book_step cs b) = Inl e"
proof (cases "book_step c (run_commands book_step cs b)")
  case (Inr b')
  from saga_target_matches [OF assms(1) Inr] have "reservation_generation (run_commands book_step cs b) = g"
    by simp
  with assms(2) run_generation_mono [of b cs] show ?thesis by simp
qed blast

theorem superseded_reservation_is_dead_witness:
  "\<exists>e. book_step (Release sample_ambient sample_uuid 0 ''patron-1'' ''late'')
     (run_commands book_step [sample_confirm] sample_reserved_book) = Inl e"
  by (rule superseded_reservation_is_dead [of _ sample_uuid 0 "''patron-1''"])
    (simp_all add: sample_reserved_book_def)

text \<open>
  C19: at-least-once delivery is safe. A confirmation, release or return that was applied is
  accepted again, in any surroundings, and changes nothing and raises no second event.
\<close>

theorem redelivery_changes_nothing:
  assumes "saga_target c \<noteq> None" and "book_step c b = Inr b'"
  shows "book_step (redelivered amb c) b' = Inr b'"
  using assms
proof (cases c)
  case (ConfirmBorrow am rid g p lid bat due)
  with assms obtain ch where "confirm_borrow am rid g p lid bat due b = Inr (b', ch)"
    by (auto simp: rbind_eq_Inr_iff)
  from confirm_again [OF this] ConfirmBorrow show ?thesis by simp
next
  case (Release am rid g p reason)
  with assms obtain ch where "release am rid g p reason b = Inr (b', ch)"
    by (auto simp: rbind_eq_Inr_iff)
  from release_again [OF this] Release show ?thesis by simp
next
  case (ReturnBook am lid rid g p)
  with assms obtain ch where "return_book am lid rid g p b = Inr (b', ch)"
    by (auto simp: rbind_eq_Inr_iff)
  from return_again [OF this] ReturnBook show ?thesis by simp
qed simp

theorem redelivery_changes_nothing_witness:
  "\<exists>b. book_step sample_confirm sample_reserved_book = Inr b
     \<and> book_step (redelivered sample_ambient sample_confirm) b = Inr b"
proof -
  obtain b where b: "book_step sample_confirm sample_reserved_book = Inr b"
    using sample_confirm_step by blast
  have "saga_target sample_confirm \<noteq> None" by (simp add: sample_confirm_def)
  from redelivery_changes_nothing [OF this b] b show ?thesis by blast
qed

text \<open>
  C20: the semantic lock. With acceptable arguments, a reservation succeeds exactly when the
  book is available; it then withholds the book under a fresh generation for exactly the
  borrower named, and any other attempt is told the book is taken.
\<close>

theorem reserve_iff_available:
  assumes "ambient_ok amb" and "ref_ok (py_strip p)" and "email_address e = Inr em"
    and "require_utc_datetime at ''reserved_at'' = Inr t" and "canon_uuid next_id = Some token"
  shows "if status b = AVAILABLE
    then \<exists>b'. reserve amb next_id p e at None b = Inr (b', token) \<and> status b' = RESERVED
      \<and> reservation_id b' = Some token \<and> reservation_generation b' = reservation_generation b + 1
      \<and> reserved_patron_id b' = Some (py_strip p) \<and> reserved_patron_email b' = Some em
    else reserve amb next_id p e at None b = Inl (Catalog (BookAlreadyBorrowedException (bid b)))"
proof (cases "status b = AVAILABLE")
  case True
  from assms(3) have "em = py_lower (py_strip e)" "em \<noteq> []"
    by (auto simp: email_address_Inr dest: email_nonempty)
  then have ne: "py_strip e \<noteq> []" by (auto simp: py_lower_def)
  then have "e \<noteq> []" by (auto simp: py_strip_def)
  moreover obtain ev where "new_event amb (CatalogEvent (CatalogBookReserved (bid b) (title b) token
      (reservation_generation b + 1) (py_strip p) t em)) = Inr ev"
    using new_event_total [OF assms(1)] by blast
  moreover have "catalog_reference p ''patron_id'' = Inr (py_strip p)"
    using assms(2) by (simp add: catalog_reference_Inr)
  ultimately show ?thesis using True ne assms
    by (simp add: reserve_def catalog_reservation_id_def add_book_event_def)
next
  case False
  then show ?thesis by (simp add: reserve_def)
qed

theorem reserve_iff_available_witness:
  "\<exists>b'. reserve sample_ambient sample_uuid ''patron-1'' sample_email (utc 10) None sample_book
     = Inr (b', sample_uuid)"
  using reserve_iff_available [OF sample_ambient_ok, of "''patron-1''" sample_email sample_email
      "utc 10" 10 sample_uuid sample_uuid sample_book]
  by (auto simp: sample_book_def)

end
