(* ===== verification/LendingLoan.thy ===== *)
theory LendingLoan
  imports Events
begin

text \<open>
  The Lending context's domain (\<open>src/domain/lending\<close>): \<open>LoanId\<close>, \<open>ReservationId\<close>, \<open>DueDate\<close>
  and \<open>LoanStatus\<close> of \<open>value_objects/lending_vo.py\<close>, the policy of
  \<open>value_objects/borrowing_policy.py\<close>, and the \<open>Loan\<close> aggregate of \<open>entities/loan.py\<close>.
\<close>

section \<open>Value objects\<close>

definition mk_loan_id :: "string \<Rightarrow> exn + string" where
  "mk_loan_id = canonical_id (Lending InvalidLoanIdException) (Lending InvalidLoanIdException)"

definition lending_reservation_id :: "string \<Rightarrow> exn + string" where
  "lending_reservation_id raw =
     (case canon_uuid raw of
        None \<Rightarrow> Inl (Lending InvalidReservationIdException)
      | Some u \<Rightarrow> Inr u)"

datatype loan_status = ACTIVE | RETURNED | OVERDUE | LOST | CANCELLED

fun loan_status_value :: "loan_status \<Rightarrow> string" where
  "loan_status_value ACTIVE = ''active''"
| "loan_status_value RETURNED = ''returned''"
| "loan_status_value OVERDUE = ''overdue''"
| "loan_status_value LOST = ''lost''"
| "loan_status_value CANCELLED = ''cancelled''"

definition loan_status_of :: "string \<Rightarrow> loan_status option" where
  "loan_status_of s =
     (if s = ''active'' then Some ACTIVE else if s = ''returned'' then Some RETURNED
      else if s = ''overdue'' then Some OVERDUE else if s = ''lost'' then Some LOST
      else if s = ''cancelled'' then Some CANCELLED else None)"

text \<open>A \<open>DueDate\<close> is its normalised instant.\<close>

definition mk_due_date :: "datetime \<Rightarrow> exn + instant" where
  "mk_due_date d = require_utc_datetime d ''due_date''"

definition from_loan_duration :: "datetime \<Rightarrow> int \<Rightarrow> exn + instant" where
  "from_loan_duration loan_date days =
     (if days \<le> 0 then Inl (Lending (InvalidLoanDurationException days))
      else rbind (require_utc_datetime loan_date ''borrowed_at'') (\<lambda>t.
           rbind (add_days t days) (\<lambda>u. mk_due_date (utc u))))"

definition due_is_overdue_as_of :: "instant \<Rightarrow> datetime \<Rightarrow> exn + bool" where
  "due_is_overdue_as_of due now =
     rbind (require_utc_datetime now ''current_time'') (\<lambda>t. Inr (t > due))"

definition days_until_due_as_of :: "instant \<Rightarrow> datetime \<Rightarrow> exn + int" where
  "days_until_due_as_of due now =
     rbind (require_utc_datetime now ''current_time'') (\<lambda>t. Inr ((due - t) div microseconds_per_day))"

definition due_extend :: "instant \<Rightarrow> int \<Rightarrow> exn + instant" where
  "due_extend due days =
     (if days \<le> 0 then Inl (Lending (InvalidLoanExtensionException days))
      else rbind (add_days due days) (\<lambda>u. mk_due_date (utc u)))"

record borrowing_terms =
  max_outstanding_loans :: int
  loan_duration_days :: int

definition policy_terms :: "(string \<times> borrowing_terms) list" where
  "policy_terms =
     [(''regular'', \<lparr>max_outstanding_loans = 5, loan_duration_days = 14\<rparr>),
      (''premium'', \<lparr>max_outstanding_loans = 10, loan_duration_days = 21\<rparr>),
      (''researcher'', \<lparr>max_outstanding_loans = 20, loan_duration_days = 30\<rparr>)]"

definition for_membership_tier :: "string \<Rightarrow> borrowing_terms option" where
  "for_membership_tier tier = map_of policy_terms (py_lower (py_strip tier))"

section \<open>The aggregate\<close>

record loan =
  loan_patron_id :: string
  loan_patron_email :: string
  loan_book_id :: string
  loan_book_title :: string
  loan_due_date :: instant
  loan_borrowed_at :: instant
  loan_reservation_id :: string
  loan_reservation_generation :: int
  loan_id :: string
  loan_status :: loan_status
  loan_returned_at :: "instant option"
  loan_events :: "domain_event list"
  loan_version :: int

record loan_args =
  arg_patron_id :: string
  arg_patron_email :: string
  arg_book_id :: string
  arg_book_title :: string
  arg_due_date :: datetime
  arg_loan_borrowed_at :: datetime
  arg_loan_reservation_id :: string
  arg_loan_generation :: int
  arg_loan_id :: string
  arg_loan_status :: string
  arg_returned_at :: "datetime option"

definition loan_reference :: "string \<Rightarrow> string \<Rightarrow> exn + string" where
  "loan_reference value field = normalize_ref (Lending (InvalidLoanReferenceException field)) value"

definition loan_post_init :: "loan_args \<Rightarrow> exn + loan" where
  "loan_post_init a =
     rbind (mk_loan_id (arg_loan_id a)) (\<lambda>i.
     rbind (lending_reservation_id (arg_loan_reservation_id a)) (\<lambda>rid.
     rbind (mk_due_date (arg_due_date a)) (\<lambda>due.
     case loan_status_of (arg_loan_status a) of
       None \<Rightarrow> Inl (Lending (InvalidLoanStateException ''unknown status''))
     | Some st \<Rightarrow>
     rbind (loan_reference (arg_patron_id a) ''patron_id'') (\<lambda>pid.
     rbind (loan_reference (arg_book_id a) ''catalog_book_id'') (\<lambda>book.
     rbind (email_address (arg_patron_email a)) (\<lambda>em.
     let btitle = squash (arg_book_title a)
     in if btitle = [] \<or> length btitle > 100
        then Inl (Lending (InvalidLoanReferenceException ''book_title''))
        else if arg_loan_generation a < 1
        then Inl (Lending (InvalidReservationGenerationException (arg_loan_generation a)))
        else
     rbind (require_utc_datetime (arg_loan_borrowed_at a) ''borrowed_at'') (\<lambda>from_at.
     rbind (ropt (\<lambda>d. require_utc_datetime d ''returned_at'') (arg_returned_at a)) (\<lambda>ret.
     if due \<le> from_at then Inl (Lending (InvalidLoanDurationException 0))
     else if (case ret of Some r \<Rightarrow> r < from_at | None \<Rightarrow> False)
     then Inl (Lending (InvalidLoanReturnDateException i))
     else if (st = RETURNED) \<noteq> (ret \<noteq> None)
     then Inl (Lending (InvalidLoanStateException ''returned status and returned_at must change together''))
     else Inr \<lparr>loan_patron_id = pid, loan_patron_email = em, loan_book_id = book,
                loan_book_title = btitle, loan_due_date = due, loan_borrowed_at = from_at,
                loan_reservation_id = rid, loan_reservation_generation = arg_loan_generation a,
                loan_id = i, loan_status = st, loan_returned_at = ret, loan_events = [],
                loan_version = 0\<rparr>))))))))"

definition add_loan_event :: "ambient \<Rightarrow> lending_event \<Rightarrow> loan \<Rightarrow> exn + loan" where
  "add_loan_event amb e l =
     rbind (new_event amb (LendingEvent e)) (\<lambda>ev. Inr (l\<lparr>loan_events := loan_events l @ [ev]\<rparr>))"

text \<open>
  \<open>Loan.create\<close>. The event carries the factory's own arguments, before the constructor
  normalises them.
\<close>

definition loan_create ::
  "ambient \<Rightarrow> string \<Rightarrow> string \<Rightarrow> string \<Rightarrow> string \<Rightarrow> string \<Rightarrow> int \<Rightarrow> datetime \<Rightarrow> string \<Rightarrow> int \<Rightarrow> exn + loan" where
  "loan_create amb next_id patron_id email book_id btitle days borrowed rid generation =
     (if generation < 1 then Inl (Lending (InvalidReservationGenerationException generation))
      else
        rbind (lending_reservation_id rid) (\<lambda>token.
        rbind (from_loan_duration borrowed days) (\<lambda>due.
        rbind (loan_post_init \<lparr>arg_patron_id = patron_id, arg_patron_email = email,
                 arg_book_id = book_id, arg_book_title = btitle, arg_due_date = utc due,
                 arg_loan_borrowed_at = borrowed, arg_loan_reservation_id = token,
                 arg_loan_generation = generation, arg_loan_id = next_id,
                 arg_loan_status = ''active'', arg_returned_at = None\<rparr>) (\<lambda>l.
        add_loan_event amb (LoanCreated (loan_id l) token generation patron_id email book_id btitle
          borrowed due) l))))"

definition loan_return :: "ambient \<Rightarrow> datetime \<Rightarrow> loan \<Rightarrow> exn + loan \<times> bool" where
  "loan_return amb at l =
     (if loan_status l = RETURNED then Inr (l, False)
      else if loan_status l = CANCELLED
      then Inl (Lending (LoanNotActiveException (loan_id l) ''return''))
      else
        rbind (require_utc_datetime at ''returned_at'') (\<lambda>t.
        if t < loan_borrowed_at l then Inl (Lending (InvalidLoanReturnDateException (loan_id l)))
        else
          rbind (due_is_overdue_as_of (loan_due_date l) (utc t)) (\<lambda>was_overdue.
          rbind (add_loan_event amb (LoanCompleted (loan_id l) (loan_reservation_id l)
                   (loan_reservation_generation l) (loan_patron_id l) (loan_book_id l) t was_overdue)
                 (l\<lparr>loan_status := RETURNED, loan_returned_at := Some t\<rparr>)) (\<lambda>l'. Inr (l', True)))))"

definition loan_cancel :: "ambient \<Rightarrow> string \<Rightarrow> loan \<Rightarrow> exn + loan \<times> bool" where
  "loan_cancel amb raw_reason l =
     (if loan_status l = CANCELLED then Inr (l, False)
      else if loan_status l = RETURNED
      then Inl (Lending (LoanNotActiveException (loan_id l) ''cancel''))
      else
        (let reason = squash raw_reason
         in if reason = [] \<or> length reason > 500 then Inl (Lending InvalidCancellationReasonException)
            else rbind (add_loan_event amb (LoanCancelled (loan_id l) (loan_reservation_id l)
                     (loan_reservation_generation l) (loan_patron_id l) (loan_book_id l) reason)
                   (l\<lparr>loan_status := CANCELLED\<rparr>)) (\<lambda>l'. Inr (l', True))))"

definition mark_overdue :: "ambient \<Rightarrow> datetime \<Rightarrow> loan \<Rightarrow> exn + loan" where
  "mark_overdue amb now l =
     (if loan_status l \<noteq> ACTIVE
      then Inl (Lending (LoanNotActiveException (loan_id l) ''mark as overdue''))
      else
        rbind (due_is_overdue_as_of (loan_due_date l) now) (\<lambda>overdue.
        if \<not> overdue then Inl (Lending (LoanNotOverdueException (loan_id l)))
        else
          rbind (days_until_due_as_of (loan_due_date l) now) (\<lambda>d.
          add_loan_event amb (BookOverdue (loan_id l) (loan_patron_id l) (loan_patron_email l)
            (loan_book_id l) (loan_book_title l) (loan_due_date l) \<bar>d\<bar>)
            (l\<lparr>loan_status := OVERDUE\<rparr>))))"

definition loan_extend :: "ambient \<Rightarrow> int \<Rightarrow> datetime \<Rightarrow> loan \<Rightarrow> exn + loan" where
  "loan_extend amb days now l =
     (if loan_status l \<noteq> ACTIVE then Inl (Lending (LoanNotActiveException (loan_id l) ''extend''))
      else
        rbind (due_is_overdue_as_of (loan_due_date l) now) (\<lambda>overdue.
        if overdue then Inl (Lending (CannotExtendOverdueLoanException (loan_id l)))
        else
          rbind (due_extend (loan_due_date l) days) (\<lambda>due.
          add_loan_event amb (LoanExtended (loan_id l) (loan_patron_id l) (loan_book_id l)
            (loan_due_date l) due) (l\<lparr>loan_due_date := due\<rparr>))))"

definition loan_is_overdue_as_of :: "datetime \<Rightarrow> loan \<Rightarrow> exn + bool" where
  "loan_is_overdue_as_of now l =
     (if loan_status l = ACTIVE then due_is_overdue_as_of (loan_due_date l) now else Inr False)"

end
