(* ===== verification/LendingLoanProps.thy ===== *)
theory LendingLoanProps
  imports LendingLoan Samples
begin

text \<open>
  What the \<open>Loan\<close> aggregate guarantees: the invariant \<open>loan_wf\<close> that construction
  establishes and every transition keeps, the two terminal states, what creation promises,
  how an extension moves the due date, and when a loan is overdue.
\<close>

section \<open>The invariant\<close>

definition loan_wf :: "loan \<Rightarrow> bool" where
  "loan_wf l \<longleftrightarrow> id_ok (loan_id l) \<and> canon_uuid (loan_reservation_id l) = Some (loan_reservation_id l)
     \<and> ref_ok (loan_patron_id l) \<and> ref_ok (loan_book_id l)
     \<and> email_address (loan_patron_email l) = Inr (loan_patron_email l)
     \<and> squash (loan_book_title l) = loan_book_title l \<and> loan_book_title l \<noteq> []
     \<and> length (loan_book_title l) \<le> 100 \<and> 1 \<le> loan_reservation_generation l
     \<and> in_range (loan_borrowed_at l) \<and> in_range (loan_due_date l)
     \<and> loan_borrowed_at l < loan_due_date l
     \<and> (loan_status l = RETURNED \<longleftrightarrow> loan_returned_at l \<noteq> None)
     \<and> (\<forall>r. loan_returned_at l = Some r \<longrightarrow> loan_borrowed_at l \<le> r \<and> in_range r)"

lemma lending_reservation_id_Inr [result_simps]:
  "lending_reservation_id r = Inr u \<longleftrightarrow> canon_uuid r = Some u"
  by (auto simp: lending_reservation_id_def split: option.splits)

lemma loan_reference_Inr [result_simps]: "loan_reference v f = Inr w \<longleftrightarrow> w = py_strip v \<and> ref_ok w"
  by (simp add: loan_reference_def normalize_ref_Inr)

lemma add_loan_event_Inr [result_simps]:
  "add_loan_event amb e l = Inr l' \<longleftrightarrow>
     (\<exists>ev. new_event amb (LendingEvent e) = Inr ev \<and> l' = l\<lparr>loan_events := loan_events l @ [ev]\<rparr>)"
  by (auto simp: add_loan_event_def result_simps)

lemma due_overdue_Inr [result_simps]:
  "due_is_overdue_as_of due now = Inr v \<longleftrightarrow>
     (\<exists>t. require_utc_datetime now ''current_time'' = Inr t \<and> v = (due < t))"
  by (auto simp: due_is_overdue_as_of_def result_simps)

lemma due_extend_Inr [result_simps]:
  "due_extend due days = Inr u \<longleftrightarrow>
     0 < days \<and> days \<le> 999999999 \<and> u = due + days * microseconds_per_day \<and> in_range u"
  by (auto simp: due_extend_def mk_due_date_def result_simps)

lemma from_loan_duration_Inr [result_simps]:
  "from_loan_duration bat days = Inr u \<longleftrightarrow>
     0 < days \<and> days \<le> 999999999 \<and> (\<exists>t. require_utc_datetime bat ''borrowed_at'' = Inr t
       \<and> u = t + days * microseconds_per_day) \<and> in_range u"
  by (auto simp: from_loan_duration_def mk_due_date_def result_simps)

lemma loan_post_init_Inr:
  assumes "loan_post_init a = Inr l"
  shows "mk_loan_id (arg_loan_id a) = Inr (loan_id l)"
    "canon_uuid (arg_loan_reservation_id a) = Some (loan_reservation_id l)"
    "require_utc_datetime (arg_due_date a) ''due_date'' = Inr (loan_due_date l)"
    "loan_status_of (arg_loan_status a) = Some (loan_status l)"
    "loan_patron_id l = py_strip (arg_patron_id a)" "ref_ok (loan_patron_id l)"
    "loan_book_id l = py_strip (arg_book_id a)" "ref_ok (loan_book_id l)"
    "email_address (arg_patron_email a) = Inr (loan_patron_email l)"
    "loan_book_title l = squash (arg_book_title a)" "loan_book_title l \<noteq> []"
    "length (loan_book_title l) \<le> 100"
    "loan_reservation_generation l = arg_loan_generation a" "1 \<le> arg_loan_generation a"
    "require_utc_datetime (arg_loan_borrowed_at a) ''borrowed_at'' = Inr (loan_borrowed_at l)"
    "ropt (\<lambda>d. require_utc_datetime d ''returned_at'') (arg_returned_at a) = Inr (loan_returned_at l)"
    "loan_borrowed_at l < loan_due_date l"
    "loan_status l = RETURNED \<longleftrightarrow> loan_returned_at l \<noteq> None"
    "\<forall>r. loan_returned_at l = Some r \<longrightarrow> loan_borrowed_at l \<le> r"
    "loan_events l = []" "loan_version l = 0"
  using assms unfolding loan_post_init_def Let_def
  by - (elim rbindE, (simp split: option.splits if_splits; elim rbindE; (clarsimp simp: result_simps mk_due_date_def split: if_splits option.splits; fail)?))+

lemma loan_post_init_wf:
  assumes "loan_post_init a = Inr l"
  shows "loan_wf l \<and> loan_events l = [] \<and> loan_version l = 0"
proof -
  note * = loan_post_init_Inr [OF assms]
  have "id_ok (loan_id l)" using *(1) canonical_id_ok by (auto simp: mk_loan_id_def)
  moreover have "in_range (loan_borrowed_at l)" "in_range (loan_due_date l)"
    using *(3,15) by (simp_all add: require_utc_Inr)
  moreover have "\<forall>r. loan_returned_at l = Some r \<longrightarrow> in_range r"
    using *(16) by (cases "arg_returned_at a") (auto simp: result_simps)
  ultimately show ?thesis
    using *(4-14,17-) canon_uuid_idem [OF *(2)] email_address_idem [OF *(9)]
    by (simp add: loan_wf_def)
qed

lemma loan_wf_events [simp]: "loan_wf (l\<lparr>loan_events := es\<rparr>) = loan_wf l"
  by (simp add: loan_wf_def)

section \<open>The transitions, inverted\<close>

lemma loan_return_Inr:
  assumes "loan_return amb at l = Inr (l', changed)"
  obtains
    (again) "\<not> changed" "l' = l" "loan_status l = RETURNED"
  | (fresh) t ev where "changed" "loan_status l \<noteq> RETURNED" "loan_status l \<noteq> CANCELLED"
      "require_utc_datetime at ''returned_at'' = Inr t" "loan_borrowed_at l \<le> t"
      "new_event amb (LendingEvent (LoanCompleted (loan_id l) (loan_reservation_id l)
         (loan_reservation_generation l) (loan_patron_id l) (loan_book_id l) t (loan_due_date l < t))) = Inr ev"
      "l' = l\<lparr>loan_status := RETURNED, loan_returned_at := Some t, loan_events := loan_events l @ [ev]\<rparr>"
  using assms unfolding loan_return_def
  by (auto split: if_splits elim!: rbindE simp: due_overdue_Inr add_loan_event_Inr require_utc_Inr)

lemma loan_cancel_Inr:
  assumes "loan_cancel amb reason l = Inr (l', changed)"
  obtains
    (again) "\<not> changed" "l' = l" "loan_status l = CANCELLED"
  | (fresh) ev where "changed" "loan_status l \<noteq> RETURNED" "loan_status l \<noteq> CANCELLED"
      "squash reason \<noteq> []" "length (squash reason) \<le> 500"
      "new_event amb (LendingEvent (LoanCancelled (loan_id l) (loan_reservation_id l)
         (loan_reservation_generation l) (loan_patron_id l) (loan_book_id l) (squash reason))) = Inr ev"
      "l' = l\<lparr>loan_status := CANCELLED, loan_events := loan_events l @ [ev]\<rparr>"
  using assms unfolding loan_cancel_def Let_def
  by (auto split: if_splits elim!: rbindE simp: add_loan_event_Inr)

lemma mark_overdue_Inr:
  assumes "mark_overdue amb now l = Inr l'"
  obtains t ev where "loan_status l = ACTIVE" "require_utc_datetime now ''current_time'' = Inr t"
      "loan_due_date l < t"
      "new_event amb (LendingEvent (BookOverdue (loan_id l) (loan_patron_id l) (loan_patron_email l)
         (loan_book_id l) (loan_book_title l) (loan_due_date l)
         \<bar>(loan_due_date l - t) div microseconds_per_day\<bar>)) = Inr ev"
      "l' = l\<lparr>loan_status := OVERDUE, loan_events := loan_events l @ [ev]\<rparr>"
  using assms unfolding mark_overdue_def days_until_due_as_of_def
  by (auto split: if_splits elim!: rbindE simp: due_overdue_Inr add_loan_event_Inr require_utc_Inr)

lemma loan_extend_Inr:
  assumes "loan_extend amb days now l = Inr l'"
  obtains t ev due where "loan_status l = ACTIVE" "require_utc_datetime now ''current_time'' = Inr t"
      "t \<le> loan_due_date l" "0 < days" "due = loan_due_date l + days * microseconds_per_day" "in_range due"
      "new_event amb (LendingEvent (LoanExtended (loan_id l) (loan_patron_id l) (loan_book_id l)
            (loan_due_date l) due)) = Inr ev"
      "l' = l\<lparr>loan_due_date := due, loan_events := loan_events l @ [ev]\<rparr>"
  using assms unfolding loan_extend_def
  by (auto split: if_splits elim!: rbindE simp: due_overdue_Inr due_extend_Inr add_loan_event_Inr require_utc_Inr)

section \<open>The aggregate as a state machine\<close>

datatype loan_command =
    Return ambient datetime
  | Cancel ambient string
  | MarkOverdue ambient datetime
  | Extend ambient int datetime

fun loan_step :: "loan_command \<Rightarrow> loan \<Rightarrow> exn + loan" where
  "loan_step (Return amb at) l = rbind (loan_return amb at l) (\<lambda>(l', _). Inr l')"
| "loan_step (Cancel amb reason) l = rbind (loan_cancel amb reason l) (\<lambda>(l', _). Inr l')"
| "loan_step (MarkOverdue amb now) l = mark_overdue amb now l"
| "loan_step (Extend amb days now) l = loan_extend amb days now l"

lemmas loan_inversions = loan_return_Inr loan_cancel_Inr mark_overdue_Inr loan_extend_Inr

lemma microseconds_pos: "0 < microseconds_per_day"
  by (simp add: microseconds_per_day_def)

lemma extend_later: "0 < d \<Longrightarrow> (t::int) < t + d * microseconds_per_day"
  using microseconds_pos by simp

lemma loan_step_wf: "loan_wf l \<Longrightarrow> loan_step c l = Inr l' \<Longrightarrow> loan_wf l'"
proof (cases c)
  case (Extend amb days now)
  assume "loan_wf l" "loan_step c l = Inr l'"
  with Extend show ?thesis
    by (auto simp: loan_wf_def elim!: loan_extend_Inr dest: extend_later [of _ "loan_due_date l"])
qed (auto simp: rbind_eq_Inr_iff loan_wf_def require_utc_Inr
      elim!: loan_return_Inr loan_cancel_Inr mark_overdue_Inr)

lemma loan_step_pending: "loan_step c l = Inr l' \<Longrightarrow> prefix (loan_events l) (loan_events l')"
  by (cases c) (auto simp: rbind_eq_Inr_iff elim!: loan_inversions)

definition loan_ident :: "loan \<Rightarrow> string \<times> string \<times> string \<times> string \<times> int \<times> instant" where
  "loan_ident l = (loan_id l, loan_patron_id l, loan_book_id l, loan_reservation_id l,
     loan_reservation_generation l, loan_borrowed_at l)"

lemma loan_step_ident: "loan_step c l = Inr l' \<Longrightarrow> loan_ident l' = loan_ident l"
  by (cases c) (auto simp: rbind_eq_Inr_iff loan_ident_def elim!: loan_inversions)

interpretation loan: aggregate loan_step loan_wf loan_events loan_ident
  by unfold_locales (auto dest: loan_step_wf loan_step_pending loan_step_ident)

inductive loan_lifecycle :: "loan_status \<Rightarrow> loan_status \<Rightarrow> bool" where
  extend_edge: "loan_lifecycle ACTIVE ACTIVE"
| overdue_edge: "loan_lifecycle ACTIVE OVERDUE"
| return_edge: "s \<notin> {RETURNED, CANCELLED} \<Longrightarrow> loan_lifecycle s RETURNED"
| cancel_edge: "s \<notin> {RETURNED, CANCELLED} \<Longrightarrow> loan_lifecycle s CANCELLED"

inductive_simps lifecycle_terminal: "loan_lifecycle RETURNED s" "loan_lifecycle CANCELLED s"

lemma lifecycle_terminal_False [simp]: "\<not> loan_lifecycle RETURNED s" "\<not> loan_lifecycle CANCELLED s"
  by (simp_all add: lifecycle_terminal)

lemma loan_step_edge:
  assumes "loan_step c l = Inr l'"
  shows "l' = l \<and> loan_status l \<in> {RETURNED, CANCELLED}
     \<or> loan_lifecycle (loan_status l) (loan_status l')
       \<and> length (loan_events l') = Suc (length (loan_events l))"
proof (cases c)
  case (Return amb at)
  with assms obtain ch where "loan_return amb at l = Inr (l', ch)" by (auto simp: rbind_eq_Inr_iff)
  then show ?thesis by (rule loan_return_Inr) (simp_all add: return_edge)
next
  case (Cancel amb reason)
  with assms obtain ch where "loan_cancel amb reason l = Inr (l', ch)" by (auto simp: rbind_eq_Inr_iff)
  then show ?thesis by (rule loan_cancel_Inr) (simp_all add: cancel_edge)
next
  case (MarkOverdue amb now)
  with assms have "mark_overdue amb now l = Inr l'" by simp
  then show ?thesis by (rule mark_overdue_Inr) (simp add: overdue_edge)
next
  case (Extend amb days now)
  with assms have "loan_extend amb days now l = Inr l'" by simp
  then show ?thesis by (rule loan_extend_Inr) (simp add: extend_edge)
qed

lemma terminal_step:
  "loan_status l \<in> {RETURNED, CANCELLED} \<Longrightarrow> loan_step c l = Inr l' \<Longrightarrow> l' = l"
  using loan_step_edge [of c l l'] by auto

lemma terminal_run:
  assumes "loan_status l \<in> {RETURNED, CANCELLED}"
  shows "run_commands loan_step cs l = l"
proof (induction cs)
  case (Cons c cs)
  then show ?case using terminal_step [OF assms, of c] by (cases "loan_step c l") auto
qed simp

section \<open>Properties\<close>

text \<open>Concrete values for the witnesses.\<close>

definition sample_loan :: loan where
  "sample_loan = \<lparr>loan_patron_id = ''patron-1'', loan_patron_email = sample_email,
     loan_book_id = ''book-1'', loan_book_title = ''Dune'', loan_due_date = 1209600000010,
     loan_borrowed_at = 10, loan_reservation_id = sample_uuid, loan_reservation_generation = 1,
     loan_id = ''loan-1'', loan_status = ACTIVE, loan_returned_at = None, loan_events = [],
     loan_version = 0\<rparr>"

lemma sample_loan_wf: "loan_wf sample_loan"
  by (simp add: loan_wf_def sample_loan_def str_eval)

text \<open>
  C27: a loan that satisfies the Loan invariant still satisfies it after any sequence of
  commands, accepted or rejected; no pending event is lost, and the loan never changes its
  identity, its patron, its book, its reservation or the day it was borrowed.
\<close>

theorem loan_lifecycle_invariant:
  assumes "loan_wf l"
  shows "loan_wf (run_commands loan_step cs l)
    \<and> prefix (loan_events l) (loan_events (run_commands loan_step cs l))
    \<and> loan_ident (run_commands loan_step cs l) = loan_ident l"
  using loan.run_inv [OF assms] loan.run_pending loan.run_ident by blast

theorem loan_lifecycle_invariant_witness:
  "loan_wf (run_commands loan_step [Extend sample_ambient 7 (utc 20), Return sample_ambient (utc 30)] sample_loan)"
  using loan_lifecycle_invariant [OF sample_loan_wf] by blast

text \<open>
  C28: the aggregate implements its state machine: a loan that is neither returned nor
  cancelled takes one edge and records one event, and a returned or cancelled loan stays as
  it is for ever, whatever commands follow.
\<close>

theorem loan_refines_lifecycle:
  assumes "loan_step c l = Inr l'"
  shows "if loan_status l \<in> {RETURNED, CANCELLED}
    then run_commands loan_step (c # cs) l = l
    else loan_lifecycle (loan_status l) (loan_status l')
      \<and> length (loan_events l') = Suc (length (loan_events l))"
  using loan_step_edge [OF assms] terminal_run [of l "c # cs"] by (auto simp del: run_commands.simps)

lemma sample_extend:
  "loan_step (Extend sample_ambient 7 (utc 20)) sample_loan
     = Inr (sample_loan\<lparr>loan_due_date := 1814400000010,
         loan_events := [sample_event (LendingEvent (LoanExtended ''loan-1'' ''patron-1'' ''book-1''
            1209600000010 1814400000010))]\<rparr>)"
  by (simp add: loan_extend_def due_is_overdue_as_of_def due_extend_def mk_due_date_def add_days_def
      timedelta_days_def add_delta_def microseconds_per_day_def add_loan_event_def sample_loan_def)

theorem loan_refines_lifecycle_witness:
  "loan_lifecycle (loan_status sample_loan) ACTIVE"
  using loan_refines_lifecycle [OF sample_extend, of "[]"] by (simp add: sample_loan_def)

lemma loan_create_Inr:
  assumes "loan_create amb next_id p e b t days bat rid g = Inr l"
  shows "loan_wf l \<and> loan_status l = ACTIVE \<and> 0 < days
    \<and> loan_due_date l = loan_borrowed_at l + days * microseconds_per_day
    \<and> canon_uuid rid = Some (loan_reservation_id l) \<and> loan_reservation_generation l = g
    \<and> loan_patron_id l = py_strip p \<and> loan_book_id l = py_strip b
    \<and> (\<exists>ev. loan_events l = [ev] \<and> event_data ev = LendingEvent
         (LoanCreated (loan_id l) (loan_reservation_id l) g p e b t bat (loan_due_date l)))"
proof -
  from assms obtain token due l0 where g: "1 \<le> g" and token: "canon_uuid rid = Some token"
    and due: "from_loan_duration bat days = Inr due"
    and l0: "loan_post_init \<lparr>arg_patron_id = p, arg_patron_email = e,
                 arg_book_id = b, arg_book_title = t, arg_due_date = utc due,
                 arg_loan_borrowed_at = bat, arg_loan_reservation_id = token,
                 arg_loan_generation = g, arg_loan_id = next_id,
                 arg_loan_status = ''active'', arg_returned_at = None\<rparr> = Inr l0"
    and l: "add_loan_event amb (LoanCreated (loan_id l0) token g p e b t bat due) l0 = Inr l"
    unfolding loan_create_def by (auto split: if_splits elim!: rbindE simp: lending_reservation_id_Inr)
  note i = loan_post_init_Inr [OF l0, simplified]
  from i(2) canon_uuid_idem [OF token] have r: "loan_reservation_id l0 = token" by simp
  from i(3) have d: "loan_due_date l0 = due" by (simp split: if_splits)
  from due i(15) have "due = loan_borrowed_at l0 + days * microseconds_per_day" "0 < days"
    by (auto simp: from_loan_duration_Inr)
  moreover from l obtain ev where "new_event amb (LendingEvent (LoanCreated (loan_id l0) token g p e b t bat due)) = Inr ev"
    "l = l0\<lparr>loan_events := [ev]\<rparr>" using i(20) by (auto simp: add_loan_event_Inr)
  moreover have "loan_status l0 = ACTIVE" using i(4) by (simp add: loan_status_of_def)
  ultimately show ?thesis
    using r d token i loan_post_init_wf [OF l0] by (simp add: new_event_data)
qed

text \<open>
  With acceptable arguments creation returns a well-formed active loan due exactly the
  given number of days after it was borrowed, correlated with the reservation, and records
  the single \<open>LoanCreated\<close> event that names them.
\<close>

theorem loan_create_active:
  assumes "loan_create amb next_id p e b t days bat rid g = Inr l"
  shows "loan_wf l \<and> loan_status l = ACTIVE \<and> 0 < days
    \<and> loan_due_date l = loan_borrowed_at l + days * microseconds_per_day
    \<and> canon_uuid rid = Some (loan_reservation_id l) \<and> loan_reservation_generation l = g
    \<and> loan_patron_id l = py_strip p \<and> loan_book_id l = py_strip b
    \<and> (\<exists>ev. loan_events l = [ev] \<and> event_data ev = LendingEvent
         (LoanCreated (loan_id l) (loan_reservation_id l) g p e b t bat (loan_due_date l)))"
  using loan_create_Inr [OF assms] .

lemma sample_create:
  "\<exists>l. loan_create sample_ambient ''loan-1'' ''patron-1'' sample_email ''book-1'' ''Dune'' 14
     (utc 10) sample_uuid 1 = Inr l"
  by (simp add: loan_create_def lending_reservation_id_def from_loan_duration_def mk_due_date_def
      add_days_def timedelta_days_def add_delta_def microseconds_per_day_def loan_post_init_def
      mk_loan_id_def canonical_id_fixed loan_reference_def normalize_ref_id loan_status_of_def
      add_loan_event_def squash_word Let_def str_eval)

theorem loan_create_active_witness:
  "\<exists>l. loan_create sample_ambient ''loan-1'' ''patron-1'' sample_email ''book-1'' ''Dune'' 14
     (utc 10) sample_uuid 1 = Inr l \<and> loan_wf l \<and> loan_status l = ACTIVE"
proof -
  obtain l where "loan_create sample_ambient ''loan-1'' ''patron-1'' sample_email ''book-1'' ''Dune'' 14
     (utc 10) sample_uuid 1 = Inr l" using sample_create by blast
  with loan_create_active [OF this] show ?thesis by blast
qed

text \<open>
  An extension is granted only to an active loan that is not yet overdue; it moves the
  due date by exactly the days asked for, which are positive, and keeps everything else.
\<close>

theorem extension_moves_due_date:
  assumes "loan_extend amb days now l = Inr l'"
  shows "0 < days \<and> loan_due_date l' = loan_due_date l + days * microseconds_per_day
    \<and> loan_due_date l < loan_due_date l' \<and> loan_status l' = ACTIVE \<and> loan_ident l' = loan_ident l
    \<and> loan_is_overdue_as_of now l = Inr False"
  using assms
  by (rule loan_extend_Inr)
    (auto simp: loan_ident_def loan_is_overdue_as_of_def due_is_overdue_as_of_def
      microseconds_pos split: if_splits)

theorem extension_moves_due_date_witness:
  "loan_due_date (sample_loan\<lparr>loan_due_date := 1814400000010,
         loan_events := [sample_event (LendingEvent (LoanExtended ''loan-1'' ''patron-1'' ''book-1''
            1209600000010 1814400000010))]\<rparr>) = 1209600000010 + 7 * microseconds_per_day"
  using extension_moves_due_date [OF sample_extend [unfolded loan_step.simps]]
  by (simp add: sample_loan_def)

text \<open>
  A return is idempotent: the first one fixes the return date and states whether the
  loan was overdue then, and any later return, at any time, is accepted and changes nothing.
\<close>

theorem loan_return_idempotent:
  assumes "loan_return amb at l = Inr (l', changed)" and "loan_status l \<noteq> RETURNED"
  shows "changed \<and> loan_return amb' at' l' = Inr (l', False)
    \<and> (\<exists>t ev. require_utc_datetime at ''returned_at'' = Inr t \<and> loan_returned_at l' = Some t
        \<and> loan_events l' = loan_events l @ [ev]
        \<and> event_data ev = LendingEvent (LoanCompleted (loan_id l) (loan_reservation_id l)
            (loan_reservation_generation l) (loan_patron_id l) (loan_book_id l) t (loan_due_date l < t)))"
  using assms(1)
proof (rule loan_return_Inr)
  show "loan_status l = RETURNED \<Longrightarrow> ?thesis" using assms(2) by simp
qed (auto simp: loan_return_def new_event_data)

theorem loan_return_idempotent_witness:
  "\<exists>l. loan_return sample_ambient (utc 30) sample_loan = Inr (l, True)
     \<and> loan_return sample_ambient (utc 40) l = Inr (l, False)"
proof -
  obtain l where l: "loan_return sample_ambient (utc 30) sample_loan = Inr (l, True)"
    by (simp add: loan_return_def sample_loan_def due_is_overdue_as_of_def add_loan_event_def)
  moreover have "loan_status sample_loan \<noteq> RETURNED" by (simp add: sample_loan_def)
  from loan_return_idempotent [OF l this] have "loan_return sample_ambient (utc 40) l = Inr (l, False)"
    by blast
  ultimately show ?thesis by blast
qed

end
