(* ===== verification/Tables.thy ===== *)
theory Tables
  imports Prelude
begin

text \<open>
  Relational tables as far as the adapters rely on them: a table is the list of its rows; its
  schema names the column types, the check constraints and the unique indexes (an index maps
  a row to its key, or to \<open>None\<close> when the row is outside a partial index or the key is NULL).
  Insertion and the \<open>UPDATE ... WHERE\<close> statement enforce the schema.

  \<open>update_where\<close> with the row's identity and version as condition is the statement on which
  the optimistic locking of the command repositories rests; the locale \<open>versioned_table\<close>
  states that contract, and \<open>Database\<close> interprets it for the three aggregates.
\<close>

datatype sql_error = IntegrityError string | DataError string

record 'r schema =
  column_types :: "'r \<Rightarrow> (string \<times> bool) list"
  constraints :: "'r \<Rightarrow> (string \<times> bool) list"
  unique_indexes :: "(string \<times> ('r \<Rightarrow> string list option)) list"

text \<open>The first condition of a list that fails.\<close>

definition first_violation :: "(string \<times> bool) list \<Rightarrow> string option" where
  "first_violation cs = (case filter (\<lambda>(_, ok). \<not> ok) cs of [] \<Rightarrow> None | (n, _) # _ \<Rightarrow> Some n)"

definition row_error :: "'r schema \<Rightarrow> 'r \<Rightarrow> sql_error option" where
  "row_error sch r =
     (case first_violation (column_types sch r) of Some c \<Rightarrow> Some (DataError c)
      | None \<Rightarrow> map_option IntegrityError (first_violation (constraints sch r)))"

definition index_error :: "'r schema \<Rightarrow> 'r list \<Rightarrow> sql_error option" where
  "index_error sch rows =
     map_option IntegrityError
       (first_violation (map (\<lambda>(n, k). (n, distinct (List.map_filter k rows))) (unique_indexes sch)))"

definition insert_row :: "'r schema \<Rightarrow> 'r \<Rightarrow> 'r list \<Rightarrow> sql_error + 'r list" where
  "insert_row sch r rows =
     (case row_error sch r of Some e \<Rightarrow> Inl e
      | None \<Rightarrow> (case index_error sch (rows @ [r]) of Some e \<Rightarrow> Inl e | None \<Rightarrow> Inr (rows @ [r])))"

text \<open>\<open>UPDATE table SET f WHERE p\<close>, with the number of rows it changed.\<close>

definition update_where ::
  "'r schema \<Rightarrow> ('r \<Rightarrow> bool) \<Rightarrow> ('r \<Rightarrow> 'r) \<Rightarrow> 'r list \<Rightarrow> sql_error + 'r list \<times> nat" where
  "update_where sch p f rows =
     (let rows' = map (\<lambda>r. if p r then f r else r) rows
      in case List.map_filter (\<lambda>r. if p r then row_error sch (f r) else None) rows of
           e # _ \<Rightarrow> Inl e
         | [] \<Rightarrow> (case index_error sch rows' of Some e \<Rightarrow> Inl e
                 | None \<Rightarrow> Inr (rows', length (filter p rows))))"

definition table_ok :: "'r schema \<Rightarrow> 'r list \<Rightarrow> bool" where
  "table_ok sch rows \<longleftrightarrow> (\<forall>r\<in>set rows. row_error sch r = None) \<and> index_error sch rows = None"

lemma first_violation_None [simp]: "first_violation cs = None \<longleftrightarrow> (\<forall>(n, ok)\<in>set cs. ok)"
  by (induction cs) (auto simp: first_violation_def split: list.splits)

lemma index_error_None:
  "index_error sch rows = None \<longleftrightarrow> (\<forall>(n, k)\<in>set (unique_indexes sch). distinct (List.map_filter k rows))"
  by (auto simp: index_error_def)

lemma insert_row_Inr:
  "insert_row sch r rows = Inr rows' \<longleftrightarrow>
     row_error sch r = None \<and> index_error sch (rows @ [r]) = None \<and> rows' = rows @ [r]"
  by (auto simp: insert_row_def split: option.splits)

lemma map_filter_Nil: "List.map_filter f xs = [] \<longleftrightarrow> (\<forall>x\<in>set xs. f x = None)"
  by (induction xs) (auto simp: map_filter_simps split: option.splits)

lemma update_where_Inr:
  "update_where sch p f rows = Inr (rows', n) \<longleftrightarrow>
     rows' = map (\<lambda>r. if p r then f r else r) rows \<and> n = length (filter p rows)
     \<and> (\<forall>r\<in>set rows. p r \<longrightarrow> row_error sch (f r) = None) \<and> index_error sch rows' = None"
proof (cases "List.map_filter (\<lambda>r. if p r then row_error sch (f r) else None) rows")
  case Nil
  then have "\<forall>r\<in>set rows. p r \<longrightarrow> row_error sch (f r) = None" by (auto simp: map_filter_Nil split: if_splits)
  with Nil show ?thesis by (auto simp: update_where_def Let_def split: option.splits)
next
  case (Cons e es)
  have "\<not> (\<forall>r\<in>set rows. p r \<longrightarrow> row_error sch (f r) = None)"
  proof
    assume "\<forall>r\<in>set rows. p r \<longrightarrow> row_error sch (f r) = None"
    then have "List.map_filter (\<lambda>r. if p r then row_error sch (f r) else None) rows = []"
      by (simp add: map_filter_Nil)
    with Cons show False by simp
  qed
  with Cons show ?thesis by (auto simp: update_where_def Let_def)
qed

lemma insert_row_ok: "table_ok sch rows \<Longrightarrow> insert_row sch r rows = Inr rows' \<Longrightarrow> table_ok sch rows'"
  by (auto simp: table_ok_def insert_row_Inr)

lemma update_where_ok:
  "table_ok sch rows \<Longrightarrow> update_where sch p f rows = Inr (rows', n) \<Longrightarrow> table_ok sch rows'"
  by (auto simp: table_ok_def update_where_Inr)

text \<open>A total unique index is a key of the table.\<close>

lemma map_filter_Some: "List.map_filter (\<lambda>x. Some (f x)) xs = map f xs"
  by (induction xs) (simp_all add: map_filter_simps)

lemma index_distinct:
  assumes "table_ok sch rows" and "(n, k) \<in> set (unique_indexes sch)"
  shows "distinct (List.map_filter k rows)"
  using assms by (auto simp: table_ok_def index_error_None)

lemma set_map_filter: "v \<in> set (List.map_filter k rows) \<longleftrightarrow> (\<exists>r\<in>set rows. k r = Some v)"
  by (induction rows) (auto simp: map_filter_simps split: option.splits)

lemma distinct_map_filter_inj:
  assumes "distinct (List.map_filter k rows)" and "i < length rows" and "j < length rows"
    and "k (rows ! i) = Some v" and "k (rows ! j) = Some v"
  shows "i = j"
  using assms
proof (induction rows arbitrary: i j)
  case (Cons r rows)
  have mem: "v \<in> set (List.map_filter k rows)" if "l < length rows" "k (rows ! l) = Some v" for l
    using that nth_mem [of l rows] by (auto simp: set_map_filter)
  show ?case
    using Cons mem by (cases i; cases j) (auto simp: map_filter_simps split: option.splits)
qed simp

text \<open>What the statement \<open>UPDATE ... WHERE key = i AND version = e\<close> does to a table with key.\<close>

lemma find_key:
  assumes "distinct (map key rows)" and "r \<in> set rows"
  shows "find (\<lambda>x. key x = key r) rows = Some r"
  using assms by (induction rows) auto

lemma find_SomeD: "find p xs = Some x \<Longrightarrow> p x \<and> x \<in> set xs"
  by (induction xs) (auto split: if_splits)

lemma find_map_update:
  assumes "\<And>r. key (g r) = key r"
  shows "find (\<lambda>r. key r = j) (map g rows) = map_option g (find (\<lambda>r. key r = j) rows)"
  using assms by (induction rows) auto

lemma versioned_update:
  assumes "distinct (map key rows)"
    and "update_where sch (\<lambda>r. key r = i \<and> ver r = e) f rows = Inr (rows', n)" and "n \<noteq> 0"
    and "\<And>r. key (f r) = key r" and "\<And>r. ver (f r) = e + 1"
  shows "(\<exists>r. find (\<lambda>r. key r = i) rows = Some r \<and> r \<in> set rows \<and> key r = i \<and> ver r = (e::int)
      \<and> find (\<lambda>r. key r = i) rows' = Some (f r))
    \<and> (\<forall>j. j \<noteq> i \<longrightarrow> find (\<lambda>r. key r = j) rows' = find (\<lambda>r. key r = j) rows)"
proof -
  let ?g = "\<lambda>r. if key r = i \<and> ver r = e then f r else r"
  from assms(2,3) have rows': "rows' = map ?g rows" and "filter (\<lambda>r. key r = i \<and> ver r = e) rows \<noteq> []"
    by (auto simp: update_where_Inr)
  then obtain r where r: "r \<in> set rows" "key r = i" "ver r = e" by (auto simp: filter_empty_conv)
  have g: "find (\<lambda>r. key r = j) rows' = map_option ?g (find (\<lambda>r. key r = j) rows)" for j
    unfolding rows' by (rule find_map_update) (simp add: assms(4))
  from find_key [OF assms(1) r(1)] r(2) have f: "find (\<lambda>x. key x = i) rows = Some r" by simp
  moreover have "map_option ?g (find (\<lambda>r. key r = j) rows) = find (\<lambda>r. key r = j) rows" if "j \<noteq> i" for j
    using that find_SomeD [of "\<lambda>r. key r = j" rows] by (cases "find (\<lambda>r. key r = j) rows") auto
  ultimately show ?thesis using g r by auto
qed

section \<open>Optimistic locking\<close>

fun run_updates :: "(string \<Rightarrow> int \<Rightarrow> 'v \<Rightarrow> 'd \<Rightarrow> 'e + 'd) \<Rightarrow> (string \<times> int \<times> 'v) list \<Rightarrow> 'd \<Rightarrow> 'd" where
  "run_updates upd [] d = d"
| "run_updates upd ((i, e, v) # us) d =
     run_updates upd us (case upd i e v d of Inl _ \<Rightarrow> d | Inr d' \<Rightarrow> d')"

text \<open>
  The contract of a repository's \<open>update\<close>: it succeeds only on the version it was prepared
  from, and then leaves the next version.
\<close>

locale versioned_table =
  fixes upd :: "string \<Rightarrow> int \<Rightarrow> 'v \<Rightarrow> 'd \<Rightarrow> 'e + 'd"
    and ver :: "'d \<Rightarrow> string \<Rightarrow> int option"
    and inv :: "'d \<Rightarrow> bool"
  assumes upd_inv: "inv d \<Longrightarrow> upd i e v d = Inr d' \<Longrightarrow> inv d'"
    and upd_version: "inv d \<Longrightarrow> upd i e v d = Inr d' \<Longrightarrow> ver d i = Some e \<and> ver d' i = Some (e + 1)"
    and upd_frame: "inv d \<Longrightarrow> upd i e v d = Inr d' \<Longrightarrow> j \<noteq> i \<Longrightarrow> ver d' j = ver d j"
begin

lemma conflict: "inv d \<Longrightarrow> ver d i \<noteq> Some e \<Longrightarrow> \<exists>x. upd i e v d = Inl x"
  using upd_version by (cases "upd i e v d") auto

lemma run_version:
  "inv d \<Longrightarrow> ver d i = Some n \<Longrightarrow> inv (run_updates upd us d) \<and> (\<exists>m\<ge>n. ver (run_updates upd us d) i = Some m)"
proof (induction us arbitrary: d n)
  case (Cons u us)
  obtain j e v where u: "u = (j, e, v)" by (cases u) auto
  show ?case
  proof (cases "upd j e v d")
    case (Inl x)
    with Cons u show ?thesis by simp
  next
    case (Inr d')
    have d': "inv d'" using upd_inv [OF Cons.prems(1) Inr] .
    have "\<exists>m\<ge>n. ver d' i = Some m"
      using upd_version [OF Cons.prems(1) Inr] upd_frame [OF Cons.prems(1) Inr, of i] Cons.prems(2)
      by (cases "i = j") auto
    then obtain m where m: "m \<ge> n" "ver d' i = Some m" by blast
    from Cons.IH [OF d' m(2)] m(1) u Inr show ?thesis by (auto intro: order_trans)
  qed
qed auto

text \<open>An update prepared from a version that another update has since replaced is lost to nobody: it raises.\<close>

lemma no_lost_update:
  assumes "inv d" and "upd i e v d = Inr d'"
  shows "\<exists>x. upd i e w (run_updates upd us d') = Inl x"
proof -
  from upd_version [OF assms] run_version [OF upd_inv [OF assms], of i "e + 1" us]
  obtain m where "m \<ge> e + 1" "ver (run_updates upd us d') i = Some m" "inv (run_updates upd us d')" by auto
  then show ?thesis by (intro conflict) auto
qed

end

end
