(* ===== verification/Rows.thy ===== *)
theory Rows
  imports CatalogBookProps LendingLoanProps PatronAggregate Tables
begin

text \<open>
  The relational rows of the three aggregates (\<open>book_model.py\<close>, \<open>loan_model.py\<close> and
  \<open>patron_model.py\<close> under \<open>src/infrastructure/adapters\<close>): the columns, the check
  constraints of the tables, and the conversions \<open>to_entity\<close> and \<open>from_entity\<close>.

  A \<open>timestamptz\<close> column is an instant, which the driver returns as an aware UTC datetime.
  A table's constraints are a list of names with the condition each states, in the order of
  the source; widths of \<open>String(n)\<close> columns and the 32-bit range of \<open>Integer\<close> columns are a
  separate list, because the database reports them as data errors.
\<close>

section \<open>What the constraints are written with\<close>

definition pg_trim :: "string \<Rightarrow> string" where
  "pg_trim s = rev (dropWhile (\<lambda>c. c = CHR '' '') (rev (dropWhile (\<lambda>c. c = CHR '' '') s)))"

definition between :: "nat \<Rightarrow> nat \<Rightarrow> nat \<Rightarrow> bool" where
  "between lo hi n \<longleftrightarrow> lo \<le> n \<and> n \<le> hi"

definition null_or :: "('a \<Rightarrow> bool) \<Rightarrow> 'a option \<Rightarrow> bool" where
  "null_or p v = (case v of None \<Rightarrow> True | Some x \<Rightarrow> p x)"

definition int4 :: "int \<Rightarrow> bool" where
  "int4 i \<longleftrightarrow> -2147483648 \<le> i \<and> i \<le> 2147483647"

definition sql_ident :: "string \<Rightarrow> bool" where
  "sql_ident s = ident_match ref_extra s"

definition sql_uuid :: "string \<Rightarrow> bool" where
  "sql_uuid s = uuid_shape (py_lower s)"

definition sql_email :: "string \<Rightarrow> bool" where
  "sql_email s \<longleftrightarrow> s = py_lower (pg_trim s) \<and> between 3 254 (length s) \<and> is_valid_email s"

section \<open>Books\<close>

record book_row =
  br_id :: string
  br_title :: string
  br_author :: string
  br_status :: string
  br_reserved_at :: "instant option"
  br_borrowed_at :: "instant option"
  br_return_due_date :: "instant option"
  br_reservation_id :: "string option"
  br_reservation_generation :: int
  br_reserved_patron_id :: "string option"
  br_reserved_patron_email :: "string option"
  br_current_loan_id :: "string option"
  br_last_completed_loan_id :: "string option"
  br_version :: int

definition book_checks :: "book_row \<Rightarrow> (string \<times> bool) list" where
  "book_checks r =
     [(''ck_books_status'', br_status r \<in> {''available'', ''reserved'', ''borrowed''}),
      (''ck_books_reservation_generation'', 0 \<le> br_reservation_generation r),
      (''ck_books_id'', sql_ident (br_id r)),
      (''ck_books_reservation_id'', null_or sql_uuid (br_reservation_id r)),
      (''ck_books_reserved_patron_id'', null_or sql_ident (br_reserved_patron_id r)),
      (''ck_books_current_loan_id'', null_or sql_ident (br_current_loan_id r)),
      (''ck_books_last_completed_loan_id'', null_or sql_ident (br_last_completed_loan_id r)),
      (''ck_books_version'', 0 \<le> br_version r),
      (''ck_books_title'', between 1 100 (length (pg_trim (br_title r)))),
      (''ck_books_author'', between 1 200 (length (pg_trim (br_author r)))),
      (''ck_books_reserved_patron_email'', null_or sql_email (br_reserved_patron_email r)),
      (''ck_books_reserved_state'', br_status r \<noteq> ''reserved''
         \<or> (1 \<le> br_reservation_generation r \<and> br_reservation_id r \<noteq> None \<and> br_reserved_at r \<noteq> None
            \<and> br_reserved_patron_id r \<noteq> None \<and> br_reserved_patron_email r \<noteq> None
            \<and> br_current_loan_id r = None \<and> br_borrowed_at r = None \<and> br_return_due_date r = None)),
      (''ck_books_borrowed_state'', br_status r \<noteq> ''borrowed''
         \<or> (1 \<le> br_reservation_generation r \<and> br_reservation_id r \<noteq> None \<and> br_reserved_at r = None
            \<and> br_reserved_patron_id r \<noteq> None \<and> br_reserved_patron_email r \<noteq> None
            \<and> br_current_loan_id r \<noteq> None
            \<and> (case (br_borrowed_at r, br_return_due_date r) of
                  (Some b, d) \<Rightarrow> null_or (\<lambda>x. b < x) d
                | (None, _) \<Rightarrow> False))),
      (''ck_books_available_state'', br_status r \<noteq> ''available''
         \<or> (br_current_loan_id r = None \<and> br_reserved_at r = None \<and> br_borrowed_at r = None
            \<and> br_return_due_date r = None))]"

definition book_types :: "book_row \<Rightarrow> (string \<times> bool) list" where
  "book_types r =
     [(''id'', length (br_id r) \<le> 64), (''title'', length (br_title r) \<le> 100),
      (''author'', length (br_author r) \<le> 200), (''status'', length (br_status r) \<le> 16),
      (''reservation_id'', null_or (\<lambda>s. length s \<le> 36) (br_reservation_id r)),
      (''reservation_generation'', int4 (br_reservation_generation r)),
      (''reserved_patron_id'', null_or (\<lambda>s. length s \<le> 64) (br_reserved_patron_id r)),
      (''reserved_patron_email'', null_or (\<lambda>s. length s \<le> 254) (br_reserved_patron_email r)),
      (''current_loan_id'', null_or (\<lambda>s. length s \<le> 64) (br_current_loan_id r)),
      (''last_completed_loan_id'', null_or (\<lambda>s. length s \<le> 64) (br_last_completed_loan_id r)),
      (''version'', int4 (br_version r))]"

definition book_to_entity :: "book_row \<Rightarrow> exn + book" where
  "book_to_entity r =
     rbind (mk_book_id (br_id r)) (\<lambda>i.
     rbind (mk_title (br_title r)) (\<lambda>t.
     rbind (mk_author (br_author r)) (\<lambda>au.
     case book_status_of (br_status r) of
       None \<Rightarrow> Inl (Py (PyValueError ''not a valid BookStatus''))
     | Some st \<Rightarrow>
     rbind (case br_reservation_id r of None \<Rightarrow> Inr None
            | Some x \<Rightarrow> if x = [] then Inr None else ropt catalog_reservation_id (Some x)) (\<lambda>rid.
     rbind (book_post_init \<lparr>arg_title = t, arg_author = au, arg_id = i,
              arg_status = book_status_value st,
              arg_reserved_at = map_option utc (br_reserved_at r),
              arg_borrowed_at = map_option utc (br_borrowed_at r),
              arg_return_due_date = map_option utc (br_return_due_date r),
              arg_reservation_id = rid,
              arg_reservation_generation = br_reservation_generation r,
              arg_reserved_patron_id = br_reserved_patron_id r,
              arg_reserved_patron_email = br_reserved_patron_email r,
              arg_current_loan_id = br_current_loan_id r,
              arg_last_completed_loan_id = br_last_completed_loan_id r\<rparr>) (\<lambda>b.
     Inr (b\<lparr>book_version := br_version r\<rparr>))))))"

definition book_from_entity :: "book \<Rightarrow> book_row" where
  "book_from_entity b = \<lparr>br_id = bid b, br_title = title b, br_author = author b,
     br_status = book_status_value (status b), br_reserved_at = reserved_at b,
     br_borrowed_at = borrowed_at b, br_return_due_date = return_due_date b,
     br_reservation_id = reservation_id b, br_reservation_generation = reservation_generation b,
     br_reserved_patron_id = reserved_patron_id b, br_reserved_patron_email = reserved_patron_email b,
     br_current_loan_id = current_loan_id b, br_last_completed_loan_id = last_completed_loan_id b,
     br_version = book_version b\<rparr>"

section \<open>Loans\<close>

record loan_row =
  lr_id :: string
  lr_patron_id :: string
  lr_patron_email :: string
  lr_catalog_book_id :: string
  lr_reservation_id :: string
  lr_reservation_generation :: int
  lr_book_title :: string
  lr_borrowed_at :: instant
  lr_due_date :: instant
  lr_returned_at :: "instant option"
  lr_status :: string
  lr_version :: int

definition loan_checks :: "loan_row \<Rightarrow> (string \<times> bool) list" where
  "loan_checks r =
     [(''ck_loans_status'', lr_status r \<in> {''active'', ''returned'', ''overdue'', ''lost'', ''cancelled''}),
      (''ck_loans_reservation_generation'', 1 \<le> lr_reservation_generation r),
      (''ck_loans_id'', sql_ident (lr_id r)),
      (''ck_loans_patron_id'', sql_ident (lr_patron_id r)),
      (''ck_loans_catalog_book_id'', sql_ident (lr_catalog_book_id r)),
      (''ck_loans_reservation_id'', sql_uuid (lr_reservation_id r)),
      (''ck_loans_version'', 0 \<le> lr_version r),
      (''ck_loans_due_after_borrow'', lr_borrowed_at r < lr_due_date r),
      (''ck_loans_return_after_borrow'', null_or (\<lambda>t. lr_borrowed_at r \<le> t) (lr_returned_at r)),
      (''ck_loans_returned_state'', (lr_status r = ''returned'' \<and> lr_returned_at r \<noteq> None)
         \<or> (lr_status r \<noteq> ''returned'' \<and> lr_returned_at r = None)),
      (''ck_loans_patron_email'', sql_email (lr_patron_email r)),
      (''ck_loans_book_title'', between 1 100 (length (pg_trim (lr_book_title r))))]"

definition loan_types :: "loan_row \<Rightarrow> (string \<times> bool) list" where
  "loan_types r =
     [(''id'', length (lr_id r) \<le> 64), (''patron_id'', length (lr_patron_id r) \<le> 64),
      (''patron_email'', length (lr_patron_email r) \<le> 254),
      (''catalog_book_id'', length (lr_catalog_book_id r) \<le> 64),
      (''reservation_id'', length (lr_reservation_id r) \<le> 36),
      (''reservation_generation'', int4 (lr_reservation_generation r)),
      (''book_title'', length (lr_book_title r) \<le> 100), (''status'', length (lr_status r) \<le> 16),
      (''version'', int4 (lr_version r))]"

definition loan_to_entity :: "loan_row \<Rightarrow> exn + loan" where
  "loan_to_entity r =
     rbind (mk_loan_id (lr_id r)) (\<lambda>i.
     rbind (lending_reservation_id (lr_reservation_id r)) (\<lambda>rid.
     rbind (mk_due_date (utc (lr_due_date r))) (\<lambda>due.
     case loan_status_of (lr_status r) of
       None \<Rightarrow> Inl (Py (PyValueError ''not a valid LoanStatus''))
     | Some st \<Rightarrow>
     rbind (loan_post_init \<lparr>arg_patron_id = lr_patron_id r, arg_patron_email = lr_patron_email r,
              arg_book_id = lr_catalog_book_id r, arg_book_title = lr_book_title r,
              arg_due_date = utc due, arg_loan_borrowed_at = utc (lr_borrowed_at r),
              arg_loan_reservation_id = rid, arg_loan_generation = lr_reservation_generation r,
              arg_loan_id = i, arg_loan_status = loan_status_value st,
              arg_returned_at = map_option utc (lr_returned_at r)\<rparr>) (\<lambda>l.
     Inr (l\<lparr>loan_version := lr_version r\<rparr>)))))"

definition loan_from_entity :: "loan \<Rightarrow> loan_row" where
  "loan_from_entity l = \<lparr>lr_id = loan_id l, lr_patron_id = loan_patron_id l,
     lr_patron_email = loan_patron_email l, lr_catalog_book_id = loan_book_id l,
     lr_reservation_id = loan_reservation_id l,
     lr_reservation_generation = loan_reservation_generation l, lr_book_title = loan_book_title l,
     lr_borrowed_at = loan_borrowed_at l, lr_due_date = loan_due_date l,
     lr_returned_at = loan_returned_at l, lr_status = loan_status_value (loan_status l),
     lr_version = loan_version l\<rparr>"

section \<open>Patrons\<close>

record patron_row =
  pr_id :: string
  pr_first_name :: string
  pr_last_name :: string
  pr_email :: string
  pr_membership_tier :: string
  pr_is_suspended :: bool
  pr_suspended_reason :: "string option"
  pr_registered_at :: instant
  pr_version :: int

definition patron_checks :: "patron_row \<Rightarrow> (string \<times> bool) list" where
  "patron_checks r =
     [(''ck_patrons_membership_tier'', pr_membership_tier r \<in> {''regular'', ''premium'', ''researcher''}),
      (''ck_patrons_id'', sql_ident (pr_id r)),
      (''ck_patrons_version'', 0 \<le> pr_version r),
      (''ck_patrons_first_name'', between 1 100 (length (pg_trim (pr_first_name r)))),
      (''ck_patrons_last_name'', between 1 100 (length (pg_trim (pr_last_name r)))),
      (''ck_patrons_email_normalized'', pr_email r = py_lower (pg_trim (pr_email r))),
      (''ck_patrons_email_length'', between 3 254 (length (pr_email r))),
      (''ck_patrons_email_format'', is_valid_email (pr_email r)),
      (''ck_patrons_suspension_state'',
         (pr_is_suspended r \<and> (case pr_suspended_reason r of None \<Rightarrow> False
            | Some x \<Rightarrow> between 1 500 (length (pg_trim x))))
         \<or> (\<not> pr_is_suspended r \<and> pr_suspended_reason r = None))]"

definition patron_types :: "patron_row \<Rightarrow> (string \<times> bool) list" where
  "patron_types r =
     [(''id'', length (pr_id r) \<le> 64), (''first_name'', length (pr_first_name r) \<le> 100),
      (''last_name'', length (pr_last_name r) \<le> 100), (''email'', length (pr_email r) \<le> 254),
      (''membership_tier'', length (pr_membership_tier r) \<le> 16),
      (''suspended_reason'', null_or (\<lambda>s. length s \<le> 500) (pr_suspended_reason r)),
      (''version'', int4 (pr_version r))]"

definition patron_to_entity :: "patron_row \<Rightarrow> exn + patron" where
  "patron_to_entity r =
     rbind (mk_patron_id (pr_id r)) (\<lambda>i.
     rbind (mk_patron_name (pr_first_name r) (pr_last_name r)) (\<lambda>(fname, lname).
     rbind (email_address (pr_email r)) (\<lambda>em.
     case tier_of (pr_membership_tier r) of
       None \<Rightarrow> Inl (Py (PyValueError ''not a valid MembershipTier''))
     | Some tier \<Rightarrow>
     rbind (patron_post_init \<lparr>arg_first_name = fname, arg_last_name = lname, arg_email = em,
              arg_registered_at = utc (pr_registered_at r), arg_pid = i, arg_tier = tier_value tier,
              arg_is_suspended = pr_is_suspended r,
              arg_suspended_reason = pr_suspended_reason r\<rparr>) (\<lambda>p.
     Inr (p\<lparr>patron_version := pr_version r\<rparr>)))))"

definition patron_from_entity :: "patron \<Rightarrow> patron_row" where
  "patron_from_entity p = \<lparr>pr_id = pid p, pr_first_name = first_name p, pr_last_name = last_name p,
     pr_email = patron_email p, pr_membership_tier = tier_value (membership_tier p),
     pr_is_suspended = is_suspended p, pr_suspended_reason = suspended_reason p,
     pr_registered_at = registered_at p, pr_version = patron_version p\<rparr>"

end
