(* ===== verification/Fingerprint.thy ===== *)
theory Fingerprint
  imports SharedKernel Samples "HOL-Library.List_Lexorder" "HOL-Library.Char_ord"
begin

text \<open>
  Command idempotency (\<open>src/application/ports/idempotency.py\<close>): the idempotency key, the
  canonical JSON payload of a command's facts, its fingerprint, and the check of a receipt.

  The digest \<open>sha256(...).hexdigest()\<close> is the parameter \<open>sha\<close>. The payload is
  \<open>json.dumps(values, sort_keys=True, separators=(",", ":"))\<close> of a dictionary of strings
  and integers, with the ASCII escapes of the standard encoder.
\<close>

section \<open>The canonical payload\<close>

datatype json_value = JStr string | JInt int

definition short_escape :: "char \<Rightarrow> char option" where
  "short_escape c =
     (if code c = 34 then Some c else if code c = 92 then Some c
      else if code c = 10 then Some CHR ''n'' else if code c = 13 then Some CHR ''r''
      else if code c = 9 then Some CHR ''t'' else if code c = 8 then Some CHR ''b''
      else if code c = 12 then Some CHR ''f'' else None)"

definition json_char :: "char \<Rightarrow> string" where
  "json_char c =
     (case short_escape c of Some d \<Rightarrow> [CHR 0x5C, d]
      | None \<Rightarrow> if 32 \<le> code c \<and> code c \<le> 126 then [c]
                else [CHR 0x5C, CHR ''u'', CHR ''0'', CHR ''0''] @ to_hex 2 (code c))"

definition json_string :: "string \<Rightarrow> string" where
  "json_string s = CHR 0x22 # concat (map json_char s) @ [CHR 0x22]"

fun json_of :: "json_value \<Rightarrow> string" where
  "json_of (JStr s) = json_string s"
| "json_of (JInt i) = show_int i"

definition json_field :: "string \<times> json_value \<Rightarrow> string" where
  "json_field f = json_string (fst f) @ '':'' @ json_of (snd f)"

fun json_fields :: "(string \<times> json_value) list \<Rightarrow> string" where
  "json_fields [] = ''}''"
| "json_fields [f] = json_field f @ ''}''"
| "json_fields (f # g # fs) = json_field f @ '','' @ json_fields (g # fs)"

definition json_object :: "(string \<times> json_value) list \<Rightarrow> string" where
  "json_object fs = ''{'' @ json_fields (sort_key fst fs)"

definition command_fingerprint :: "(string \<Rightarrow> string) \<Rightarrow> (string \<times> json_value) list \<Rightarrow> string" where
  "command_fingerprint sha values = sha (json_object values)"

section \<open>Keys and receipts\<close>

definition idempotency_key :: "string \<Rightarrow> exn + string" where
  "idempotency_key raw =
     (let value = py_strip raw
      in if \<not> (8 \<le> length value \<and> length value \<le> 128) \<or> \<not> ident_match safe_extra value
         then Inl (App InvalidIdempotencyKeyException) else Inr value)"

record 'r command_receipt =
  scope :: string
  receipt_key :: string
  request_hash :: string
  response :: 'r

definition require_matching_receipt :: "'r command_receipt \<Rightarrow> string \<Rightarrow> exn + 'r" where
  "require_matching_receipt receipt h =
     (if request_hash receipt \<noteq> h
      then Inl (App (IdempotencyKeyConflictException (receipt_key receipt)
             ''request fingerprint differs''))
      else Inr (response receipt))"

section \<open>The payload determines the facts\<close>

lemma code_letters: "code CHR ''n'' = 110" "code CHR ''r'' = 114" "code CHR ''t'' = 116"
  "code CHR ''b'' = 98" "code CHR ''f'' = 102" "code CHR ''u'' = 117" "code CHR 0x22 = 34" "code CHR 0x5C = 92"
  by (simp_all add: code_def)

lemma short_escape_inj:
  assumes "short_escape c = Some d" and "short_escape c' = Some d"
  shows "c = c'"
proof -
  have "code c = code c'"
    using assms by (auto simp: short_escape_def code_letters split: if_splits)
  then show ?thesis by (simp only: code_inject)
qed

lemma short_escape_not_u: "short_escape c \<noteq> Some CHR ''u''"
  by (auto simp: short_escape_def code_letters split: if_splits)

lemma to_hex_inj:
  assumes "to_hex 2 (code c) = to_hex 2 (code d)"
  shows "c = d"
proof -
  have v: "hex_value 0 (to_hex 2 (code x)) = code x" for x
    using code_less_256 [of x] by (intro hex_value_to_hex) simp
  have "code c = code d" by (subst (1 2) v [symmetric]) (simp only: assms)
  then show ?thesis by (simp only: code_inject)
qed

lemma json_char_kind:
  obtains (short) d where "short_escape c = Some d" "json_char c = [CHR 0x5C, d]" "d \<noteq> CHR ''u''"
  | (plain) "json_char c = [c]" "c \<noteq> CHR 0x22" "c \<noteq> CHR 0x5C"
  | (hex) "json_char c = CHR 0x5C # CHR ''u'' # CHR ''0'' # CHR ''0'' # to_hex 2 (code c)"
proof (cases "short_escape c")
  case None
  then have "code c \<noteq> 34" "code c \<noteq> 92" by (auto simp: short_escape_def split: if_splits)
  then have n: "c \<noteq> CHR 0x22" "c \<noteq> CHR 0x5C" by (auto simp: code_letters)
  show thesis
  proof (cases "32 \<le> code c \<and> code c \<le> 126")
    case True
    show thesis by (rule plain) (use True None n in \<open>simp_all add: json_char_def\<close>)
  next
    case False
    show thesis by (rule hex) (use False None in \<open>simp add: json_char_def\<close>)
  qed
next
  case (Some d)
  with that short_escape_not_u [of c] show thesis by (auto simp: json_char_def)
qed

lemma json_char_not_quote: "json_char c @ r \<noteq> CHR 0x22 # r'"
  by (rule json_char_kind [of c]) auto

lemma json_char_prefix:
  assumes "json_char c @ r = json_char d @ r'"
  shows "c = d \<and> r = r'"
proof -
  have hex: "length (to_hex 2 n) = 2" for n by (rule length_to_hex)
  show ?thesis
    by (rule json_char_kind [of c]; rule json_char_kind [of d])
      (use assms hex to_hex_inj short_escape_inj in \<open>auto simp: append_eq_append_conv\<close>)
qed

lemma json_body_prefix:
  "concat (map json_char s) @ CHR 0x22 # r = concat (map json_char t) @ CHR 0x22 # r' \<Longrightarrow> s = t \<and> r = r'"
proof (induction s arbitrary: t)
  case Nil
  then show ?case using json_char_not_quote by (cases t) (auto, metis)
next
  case (Cons c s)
  show ?case
  proof (cases t)
    case Nil
    with Cons.prems json_char_not_quote show ?thesis by simp
  next
    case (Cons d u)
    with Cons.prems have "json_char c @ concat (map json_char s) @ CHR 0x22 # r
        = json_char d @ concat (map json_char u) @ CHR 0x22 # r'" by simp
    from json_char_prefix [OF this] Cons.IH [of u] Cons show ?thesis by blast
  qed
qed

lemma json_string_prefix: "json_string s @ r = json_string t @ r' \<Longrightarrow> s = t \<and> r = r'"
  using json_body_prefix [of s r t r'] by (simp add: json_string_def)

text \<open>A decimal is read back as the value of its digits.\<close>

fun digits_value :: "nat \<Rightarrow> string \<Rightarrow> nat" where
  "digits_value acc [] = acc"
| "digits_value acc (c # cs) = digits_value (acc * 10 + (code c - 48)) cs"

lemma digits_value_snoc: "digits_value acc (s @ [c]) = digits_value acc s * 10 + (code c - 48)"
  by (induction s arbitrary: acc) simp_all

lemma code_digit_char: "d < 10 \<Longrightarrow> code (digit_char d) = 48 + d"
  by (simp add: digit_char_def code_char_of)

lemma show_nat_value: "digits_value 0 (show_nat n) = n"
proof (induction n rule: show_nat.induct)
  case (1 n)
  then show ?case by (subst show_nat.simps) (simp add: digits_value_snoc code_digit_char)
qed

lemma show_nat_digits: "c \<in> set (show_nat n) \<Longrightarrow> is_digit c"
proof (induction n rule: show_nat.induct)
  case (1 n)
  then show ?case
    by (subst (asm) (2) show_nat.simps) (auto simp: code_digit_char is_digit_def split: if_splits)
qed

lemma show_int_inj: "show_int i = show_int j \<Longrightarrow> i = j"
proof -
  assume e: "show_int i = show_int j"
  have d: "hd (show_nat n) \<noteq> CHR ''-''" for n
  proof
    assume "hd (show_nat n) = CHR ''-''"
    with show_nat_nonempty [of n] have "CHR ''-'' \<in> set (show_nat n)" by (metis hd_in_set)
    from show_nat_digits [OF this] show False by (simp add: is_digit_def code_def)
  qed
  have ne: "CHR ''-'' # s \<noteq> show_nat n" for s n
  proof
    assume "CHR ''-'' # s = show_nat n"
    then have "hd (show_nat n) = hd (CHR ''-'' # s)" by (rule arg_cong [OF sym])
    with d [of n] show False by simp
  qed
  have inj: "m = n" if "show_nat m = show_nat n" for m n
    using arg_cong [OF that, of "digits_value 0"] by (simp only: show_nat_value)
  consider "i < 0" "j < 0" | "i < 0" "\<not> j < 0" | "\<not> i < 0" "j < 0" | "\<not> i < 0" "\<not> j < 0" by blast
  then show ?thesis
  proof cases
    case 1
    with e have "nat (- i) = nat (- j)" by (intro inj) (simp add: show_int_def)
    with 1 show ?thesis by simp
  next
    case 2
    with e ne [of "show_nat (nat (- i))" "nat j"] show ?thesis by (simp add: show_int_def)
  next
    case 3
    with e ne [of "show_nat (nat (- j))" "nat i", symmetric] show ?thesis by (simp add: show_int_def)
  next
    case 4
    with e have "nat i = nat j" by (intro inj) (simp add: show_int_def)
    with 4 show ?thesis by simp
  qed
qed

lemma show_int_chars: "c \<in> set (show_int i) \<Longrightarrow> is_digit c \<or> c = CHR ''-''"
  by (auto simp: show_int_def dest: show_nat_digits split: if_splits)

lemma show_int_nonempty: "show_int i \<noteq> []"
  using show_nat_nonempty by (simp add: show_int_def)

lemma prefix_stop:
  assumes "s @ x # r = t @ y # r'" and "x \<notin> set t" and "y \<notin> set s"
  shows "s = t \<and> x # r = y # r'"
  using assms by (induction s arbitrary: t) (auto simp: Cons_eq_append_conv append_eq_Cons_conv split: list.splits)

definition json_stop :: "char \<Rightarrow> bool" where
  "json_stop c \<longleftrightarrow> c = CHR '','' \<or> c = CHR ''}''"

lemma show_int_prefix:
  assumes "show_int i @ x # r = show_int j @ y # r'" and "json_stop x" and "json_stop y"
  shows "i = j \<and> x # r = y # r'"
proof -
  have "c \<notin> set (show_int k)" if "json_stop c" for c k
    using that show_int_chars [of c k] by (auto simp: json_stop_def is_digit_def code_def)
  with prefix_stop [OF assms(1)] assms(2,3) show_int_inj show ?thesis by blast
qed

lemma json_of_prefix:
  assumes "json_of v @ x # r = json_of w @ y # r'" and "json_stop x" and "json_stop y"
  shows "v = w \<and> x # r = y # r'"
proof -
  have ne: "json_string s @ q \<noteq> show_int i @ q'" for s q i q'
  proof
    assume e: "json_string s @ q = show_int i @ q'"
    obtain c cs where "show_int i = c # cs" using show_int_nonempty [of i] by (cases "show_int i") auto
    with e have "CHR 0x22 \<in> set (show_int i)" by (simp add: json_string_def)
    from show_int_chars [OF this] show False by (simp add: is_digit_def code_def)
  qed
  show ?thesis
  proof (cases v)
    case (JStr s)
    show ?thesis
    proof (cases w)
      case (JStr t)
      with assms(1) \<open>v = JStr s\<close> have "json_string s @ x # r = json_string t @ y # r'" by simp
      from json_string_prefix [OF this] JStr \<open>v = JStr s\<close> show ?thesis by simp
    next
      case (JInt j)
      with assms(1) \<open>v = JStr s\<close> ne [of s "x # r" j "y # r'"] show ?thesis by simp
    qed
  next
    case (JInt i)
    show ?thesis
    proof (cases w)
      case (JStr t)
      with assms(1) \<open>v = JInt i\<close> ne [of t "y # r'" i "x # r", symmetric] show ?thesis by simp
    next
      case (JInt j)
      with assms(1) \<open>v = JInt i\<close> have "show_int i @ x # r = show_int j @ y # r'" by simp
      from show_int_prefix [OF this assms(2,3)] JInt \<open>v = JInt i\<close> show ?thesis by simp
    qed
  qed
qed

lemma json_fields_inj:
  assumes "json_fields fs = json_fields gs" and "length fs = length gs"
  shows "fs = gs"
  using assms
proof (induction fs arbitrary: gs rule: json_fields.induct)
  case 1 then show ?case by simp
next
  case (2 f)
  then obtain g where g: "gs = [g]" by (cases gs) auto
  with 2 have "json_string (fst f) @ CHR '':'' # json_of (snd f) @ CHR ''}'' # []
     = json_string (fst g) @ CHR '':'' # json_of (snd g) @ CHR ''}'' # []"
    by (simp add: json_field_def)
  from json_string_prefix [OF this] json_of_prefix [of "snd f" "CHR ''}''" "[]" "snd g" "CHR ''}''" "[]"] g
  show ?case by (simp add: json_stop_def prod_eq_iff)
next
  case (3 f f2 fs)
  then obtain g g2 gs' where g: "gs = g # g2 # gs'" by (cases gs; cases "tl gs") auto
  let ?r = "json_fields (f2 # fs)" and ?r' = "json_fields (g2 # gs')"
  from 3 g have "json_string (fst f) @ CHR '':'' # json_of (snd f) @ CHR '','' # ?r
     = json_string (fst g) @ CHR '':'' # json_of (snd g) @ CHR '','' # ?r'"
    by (simp add: json_field_def)
  from json_string_prefix [OF this] json_of_prefix [of "snd f" "CHR '',''" ?r "snd g" "CHR '',''" ?r']
  have "f = g" "?r = ?r'" by (simp_all add: json_stop_def prod_eq_iff)
  with 3 g show ?case by simp
qed

lemma json_object_inj:
  assumes "json_object fs = json_object gs" and "map fst fs = map fst gs" and "distinct (map fst fs)"
  shows "fs = gs"
proof -
  have "sort_key fst fs = sort_key fst gs"
    using assms(1) map_eq_imp_length_eq [OF assms(2)] by (intro json_fields_inj) (simp_all add: json_object_def)
  then have s: "set fs = set gs" by (metis set_sort)
  show ?thesis
  proof (rule nth_equalityI)
    show len: "length fs = length gs" using assms(2) by (rule map_eq_imp_length_eq)
    fix i assume i: "i < length fs"
    then have "gs ! i \<in> set fs" using s len by simp
    then obtain j where j: "j < length fs" "fs ! j = gs ! i" by (auto simp: in_set_conv_nth)
    have "map fst fs ! i = map fst gs ! i" using assms(2) by simp
    with i j len have "map fst fs ! i = map fst fs ! j" by simp
    with assms(3) i j have "i = j" using nth_eq_iff_index_eq [of "map fst fs" i j] by simp
    with j show "fs ! i = gs ! i" by simp
  qed
qed

section \<open>Properties\<close>

text \<open>
  C26: a fingerprint identifies a command: two commands of the same kind with the same
  fingerprint have the same facts, unless the digest collides on their two payloads.
  Nothing a caller writes into a field can be taken for the structure of the payload.
\<close>

theorem fingerprint_identifies_command:
  assumes "command_fingerprint sha fs = command_fingerprint sha gs"
    and "map fst fs = map fst gs" and "distinct (map fst fs)"
    and "sha (json_object fs) = sha (json_object gs) \<Longrightarrow> json_object fs = json_object gs"
  shows "fs = gs"
  using assms(1) by (intro json_object_inj assms(2-4)) (simp add: command_fingerprint_def)

theorem fingerprint_identifies_command_witness:
  "command_fingerprint id [(''loan_id'', JStr ''a''), (''days'', JInt 7)]
     \<noteq> command_fingerprint id [(''loan_id'', JStr ''a''), (''days'', JInt 8)]"
  using fingerprint_identifies_command [of id "[(''loan_id'', JStr ''a''), (''days'', JInt 7)]"
      "[(''loan_id'', JStr ''a''), (''days'', JInt 8)]"] by auto

lemma idempotency_key_Inr [result_simps]:
  "idempotency_key raw = Inr k \<longleftrightarrow>
     k = py_strip raw \<and> 8 \<le> length k \<and> length k \<le> 128 \<and> ident_match safe_extra k"
  by (auto simp: idempotency_key_def Let_def)

lemma idempotency_key_idem: "idempotency_key raw = Inr k \<Longrightarrow> idempotency_key k = Inr k"
  by (auto simp: idempotency_key_Inr)

lemma matching_receipt_Inr [result_simps]:
  "require_matching_receipt r h = Inr v \<longleftrightarrow> request_hash r = h \<and> v = response r"
  by (auto simp: require_matching_receipt_def)

end
