(* ===== verification/Database.thy ===== *)
theory Database
  imports Rows Fingerprint
begin

text \<open>
  The relational state and what the adapters do to it: the tables with their schemas, the
  command repositories (\<open>book_command_repository.py\<close>, \<open>loan_command_repository.py\<close>,
  \<open>patron_command_repository.py\<close>), the application-state repositories, and the three units
  of work.

  A handler's transaction reads a snapshot and leaves a plan: the statements its
  repositories execute, in order, and the rows it adds, which the session inserts when the
  unit of work commits (the session factory turns autoflush off). \<open>commit\<close> applies a plan to
  the current database, all of it or nothing. The version test of an \<open>UPDATE\<close> is evaluated
  there, against the current row, as the database does under the row lock that it keeps
  until the commit.
\<close>

section \<open>Process state and results of commands\<close>

datatype operation_status = OpReserved | OpBorrowed | OpReleased | OpReturned

record borrow_operation =
  operation_id :: string
  op_book_id :: string
  op_patron_id :: string
  op_generation :: int
  op_status :: operation_status
  op_created_at :: instant
  op_updated_at :: instant
  op_loan_id :: "string option"
  op_failure_reason :: "string option"

record patron_snapshot =
  snap_id :: string
  snap_name :: string
  snap_first_name :: string
  snap_last_name :: string
  snap_email :: string
  snap_membership_tier :: string
  snap_is_suspended :: bool
  snap_suspended_reason :: "string option"
  snap_registered_at :: instant

text \<open>
  Responses of the idempotent commands; a receipt stores the JSON object of its fields.
  Arguments are in the order of the result classes' fields.
\<close>

datatype response =
    AddBookResult string string string bool string
  | BorrowBookResult string string string bool string int string string "instant option"
  | ReturnLoanResult string instant bool
  | ExtendLoanResult string instant
  | PatronResult patron_snapshot

section \<open>Schemas\<close>

definition book_schema :: "book_row schema" where
  "book_schema = \<lparr>column_types = book_types, constraints = book_checks,
     unique_indexes = [(''books_pkey'', \<lambda>r. Some [br_id r]),
       (''ix_books_reservation_id'', \<lambda>r. map_option (\<lambda>x. [x]) (br_reservation_id r)),
       (''ix_books_current_loan_id'', \<lambda>r. map_option (\<lambda>x. [x]) (br_current_loan_id r))]\<rparr>"

definition loan_schema :: "loan_row schema" where
  "loan_schema = \<lparr>column_types = loan_types, constraints = loan_checks,
     unique_indexes = [(''loans_pkey'', \<lambda>r. Some [lr_id r]),
       (''ix_loans_reservation_id_unique'', \<lambda>r. Some [lr_reservation_id r]),
       (''ix_loans_outstanding_book_unique'',
          \<lambda>r. if lr_status r \<in> {''returned'', ''cancelled''} then None else Some [lr_catalog_book_id r])]\<rparr>"

definition patron_schema :: "patron_row schema" where
  "patron_schema = \<lparr>column_types = patron_types, constraints = patron_checks,
     unique_indexes = [(''patrons_pkey'', \<lambda>r. Some [pr_id r]), (''ix_patrons_email'', \<lambda>r. Some [pr_email r])]\<rparr>"

definition operation_schema :: "borrow_operation schema" where
  "operation_schema = \<lparr>
     column_types = (\<lambda>r.
       [(''operation_id'', length (operation_id r) \<le> 36), (''book_id'', length (op_book_id r) \<le> 64),
        (''patron_id'', length (op_patron_id r) \<le> 64), (''reservation_generation'', int4 (op_generation r)),
        (''loan_id'', null_or (\<lambda>s. length s \<le> 64) (op_loan_id r)),
        (''failure_reason'', null_or (\<lambda>s. length s \<le> 500) (op_failure_reason r))]),
     constraints = (\<lambda>r.
       [(''ck_borrow_operations_generation'', 1 \<le> op_generation r),
        (''ck_borrow_operations_timestamps'', op_created_at r \<le> op_updated_at r),
        (''ck_borrow_operations_id'', sql_uuid (operation_id r)),
        (''ck_borrow_operations_book_id'', sql_ident (op_book_id r)),
        (''ck_borrow_operations_patron_id'', sql_ident (op_patron_id r)),
        (''ck_borrow_operations_loan_id'', null_or sql_ident (op_loan_id r)),
        (''ck_borrow_operations_state'',
           (case op_status r of
              OpReserved \<Rightarrow> op_loan_id r = None \<and> op_failure_reason r = None
            | OpReleased \<Rightarrow> op_loan_id r = None \<and> (case op_failure_reason r of None \<Rightarrow> False
                | Some f \<Rightarrow> between 1 500 (length (pg_trim f)))
            | _ \<Rightarrow> op_loan_id r \<noteq> None \<and> op_failure_reason r = None))]),
     unique_indexes = [(''borrow_operations_pkey'', \<lambda>r. Some [operation_id r])]\<rparr>"

definition receipt_schema :: "response command_receipt schema" where
  "receipt_schema = \<lparr>
     column_types = (\<lambda>r. [(''scope'', length (scope r) \<le> 64), (''idempotency_key'', length (receipt_key r) \<le> 128),
       (''request_hash'', length (request_hash r) \<le> 64)]),
     constraints = (\<lambda>r.
       [(''ck_command_receipts_scope'', between 1 64 (length (scope r))),
        (''ck_command_receipts_key'', between 8 128 (length (receipt_key r))
           \<and> ident_match safe_extra (receipt_key r)),
        (''ck_command_receipts_hash'', length (request_hash r) = 64
           \<and> list_all (\<lambda>c. is_hex c \<and> \<not> is_upper c) (request_hash r))]),
     unique_indexes = [(''command_receipts_pkey'', \<lambda>r. Some [scope r, receipt_key r])]\<rparr>"

text \<open>
  A row of the outbox. Its \<open>type\<close> and \<open>payload\<close> columns are what the registry serialises
  the event to; here they are the event.
\<close>

record outbox_row =
  ob_id :: string
  ob_aggregatetype :: string
  ob_aggregateid :: string
  ob_event :: domain_event
  ob_occurred_at :: instant
  ob_inserted_at :: instant

definition aggregate_type_ok :: "string \<Rightarrow> bool" where
  "aggregate_type_ok s = (case s of [] \<Rightarrow> False
     | c # cs \<Rightarrow> is_lower c \<and> length cs \<le> 31
         \<and> list_all (\<lambda>d. is_lower d \<or> is_digit d \<or> ref_extra d) cs)"

definition outbox_schema :: "outbox_row schema" where
  "outbox_schema = \<lparr>
     column_types = (\<lambda>r. [(''id'', length (ob_id r) \<le> 128),
       (''aggregatetype'', length (ob_aggregatetype r) \<le> 32), (''aggregateid'', length (ob_aggregateid r) \<le> 64)]),
     constraints = (\<lambda>r.
       [(''ck_outbox_event_id'', ident_match safe_extra (ob_id r)),
        (''ck_outbox_aggregate_type'', aggregate_type_ok (ob_aggregatetype r)),
        (''ck_outbox_aggregate_id'', sql_ident (ob_aggregateid r))]),
     unique_indexes = [(''outbox_pkey'', \<lambda>r. Some [ob_id r])]\<rparr>"

section \<open>The database\<close>

record db =
  books :: "book_row list"
  loans :: "loan_row list"
  patrons :: "patron_row list"
  operations :: "borrow_operation list"
  receipts :: "response command_receipt list"
  outbox :: "outbox_row list"
  server_now :: instant

definition db_ok :: "db \<Rightarrow> bool" where
  "db_ok d \<longleftrightarrow> table_ok book_schema (books d) \<and> table_ok loan_schema (loans d)
     \<and> table_ok patron_schema (patrons d) \<and> table_ok operation_schema (operations d)
     \<and> table_ok receipt_schema (receipts d) \<and> table_ok outbox_schema (outbox d)"

section \<open>Statements of the repositories\<close>

text \<open>\<open>BookCommandRepository.update\<close>: \<open>row\<close> carries the values the entity has.\<close>

definition update_book :: "string \<Rightarrow> int \<Rightarrow> book_row \<Rightarrow> db \<Rightarrow> exn + db" where
  "update_book i expected row d =
     (case update_where book_schema (\<lambda>r. br_id r = i \<and> br_version r = expected)
             (\<lambda>r. r\<lparr>br_status := br_status row, br_reserved_at := br_reserved_at row,
                    br_borrowed_at := br_borrowed_at row, br_return_due_date := br_return_due_date row,
                    br_reservation_id := br_reservation_id row,
                    br_reservation_generation := br_reservation_generation row,
                    br_reserved_patron_id := br_reserved_patron_id row,
                    br_reserved_patron_email := br_reserved_patron_email row,
                    br_current_loan_id := br_current_loan_id row,
                    br_last_completed_loan_id := br_last_completed_loan_id row,
                    br_version := expected + 1\<rparr>) (books d) of
        Inl _ \<Rightarrow> Inl (Py (DatabaseException (''Error updating book '' @ i)))
      | Inr (rows, changed) \<Rightarrow>
          (if changed = 0
           then (case find (\<lambda>r. br_id r = i) (books d) of
                   None \<Rightarrow> Inl (Py (DatabaseException (''Book '' @ i @ '' not found'')))
                 | Some _ \<Rightarrow> Inl (Catalog (CatalogConcurrentModificationException ''Book'' i)))
           else Inr (d\<lparr>books := rows\<rparr>)))"

definition update_loan :: "string \<Rightarrow> int \<Rightarrow> loan_row \<Rightarrow> db \<Rightarrow> exn + db" where
  "update_loan i expected row d =
     (case update_where loan_schema (\<lambda>r. lr_id r = i \<and> lr_version r = expected)
             (\<lambda>r. r\<lparr>lr_status := lr_status row, lr_returned_at := lr_returned_at row,
                    lr_due_date := lr_due_date row, lr_version := expected + 1\<rparr>) (loans d) of
        Inl _ \<Rightarrow> Inl (Py (DatabaseException ''Error updating loan''))
      | Inr (rows, changed) \<Rightarrow>
          (if changed = 0
           then (case find (\<lambda>r. lr_id r = i) (loans d) of
                   None \<Rightarrow> Inl (Py (DatabaseException (''Loan '' @ i @ '' not found'')))
                 | Some _ \<Rightarrow> Inl (Lending (LoanConcurrentModificationException i)))
           else Inr (d\<lparr>loans := rows\<rparr>)))"

definition update_patron :: "string \<Rightarrow> int \<Rightarrow> patron_row \<Rightarrow> db \<Rightarrow> exn + db" where
  "update_patron i expected row d =
     (case update_where patron_schema (\<lambda>r. pr_id r = i \<and> pr_version r = expected)
             (\<lambda>r. r\<lparr>pr_first_name := pr_first_name row, pr_last_name := pr_last_name row,
                    pr_email := pr_email row, pr_membership_tier := pr_membership_tier row,
                    pr_is_suspended := pr_is_suspended row,
                    pr_suspended_reason := pr_suspended_reason row, pr_version := expected + 1\<rparr>) (patrons d) of
        Inl _ \<Rightarrow> Inl (Py (DatabaseException ''Error updating patron''))
      | Inr (rows, changed) \<Rightarrow>
          (if changed = 0
           then (case find (\<lambda>r. pr_id r = i) (patrons d) of
                   None \<Rightarrow> Inl (Py (DatabaseException (''Patron '' @ i @ '' not found'')))
                 | Some _ \<Rightarrow> Inl (PatronE (PatronConcurrentModificationException i)))
           else Inr (d\<lparr>patrons := rows\<rparr>)))"

text \<open>\<open>BorrowOperationRepository.transition\<close>. Its statement is not wrapped: a SQL error escapes as it is.\<close>

fun operation_status_value :: "operation_status \<Rightarrow> string" where
  "operation_status_value OpReserved = ''reserved''"
| "operation_status_value OpBorrowed = ''borrowed''"
| "operation_status_value OpReleased = ''released''"
| "operation_status_value OpReturned = ''returned''"

fun allowed_sources :: "operation_status \<Rightarrow> operation_status list option" where
  "allowed_sources OpBorrowed = Some [OpReserved]"
| "allowed_sources OpReleased = Some [OpReserved]"
| "allowed_sources OpReturned = Some [OpBorrowed]"
| "allowed_sources OpReserved = None"

fun sql_exn :: "sql_error \<Rightarrow> exn" where
  "sql_exn (IntegrityError c) = Py (SqlIntegrityError c)"
| "sql_exn (DataError c) = Py (SqlDataError c)"

definition transition_operation ::
  "string \<Rightarrow> operation_status \<Rightarrow> string \<Rightarrow> string \<Rightarrow> int \<Rightarrow> string option \<Rightarrow> string option \<Rightarrow> instant
     \<Rightarrow> db \<Rightarrow> exn + db" where
  "transition_operation i st book patron generation loan failure at d =
     (case allowed_sources st of
        None \<Rightarrow> Inl (App (BorrowOperationTransitionException i
                  (operation_status_value st @ '' is not a transition target'')))
      | Some sources \<Rightarrow>
          (case update_where operation_schema
                  (\<lambda>r. operation_id r = i \<and> op_book_id r = book \<and> op_patron_id r = patron
                     \<and> op_generation r = generation \<and> op_status r \<in> set sources)
                  (\<lambda>r. r\<lparr>op_status := st, op_loan_id := loan, op_failure_reason := failure,
                         op_updated_at := at\<rparr>) (operations d) of
             Inl e \<Rightarrow> Inl (sql_exn e)
           | Inr (rows, changed) \<Rightarrow>
               (if changed = 0
                then (case find (\<lambda>r. operation_id r = i) (operations d) of
                        None \<Rightarrow> Inl (App (BorrowOperationNotFoundException i))
                      | Some _ \<Rightarrow> Inl (App (BorrowOperationTransitionException i
                          ''identity, fencing generation, or current status does not match'')))
                else Inr (d\<lparr>operations := rows\<rparr>))))"

datatype stmt =
    UpdateBook string int book_row
  | UpdateLoan string int loan_row
  | UpdatePatron string int patron_row
  | TransitionOperation string operation_status string string int "string option" "string option" instant

fun exec_stmt :: "stmt \<Rightarrow> db \<Rightarrow> exn + db" where
  "exec_stmt (UpdateBook i v row) d = update_book i v row d"
| "exec_stmt (UpdateLoan i v row) d = update_loan i v row d"
| "exec_stmt (UpdatePatron i v row) d = update_patron i v row d"
| "exec_stmt (TransitionOperation i st b p g l f at) d = transition_operation i st b p g l f at d"

fun exec_all :: "stmt list \<Rightarrow> db \<Rightarrow> exn + db" where
  "exec_all [] d = Inr d"
| "exec_all (s # ss) d = rbind (exec_stmt s d) (exec_all ss)"

section \<open>Rows the session inserts\<close>

datatype insert =
    InsBook book_row
  | InsLoan loan_row
  | InsPatron patron_row
  | InsOperation borrow_operation
  | InsReceipt "response command_receipt"
  | InsOutbox outbox_row

definition rmap :: "('a \<Rightarrow> 'b) \<Rightarrow> 'e + 'a \<Rightarrow> 'e + 'b" where
  "rmap f r = rbind r (\<lambda>x. Inr (f x))"

fun flush_insert :: "insert \<Rightarrow> db \<Rightarrow> sql_error + db" where
  "flush_insert (InsBook r) d = rmap (\<lambda>t. d\<lparr>books := t\<rparr>) (insert_row book_schema r (books d))"
| "flush_insert (InsLoan r) d = rmap (\<lambda>t. d\<lparr>loans := t\<rparr>) (insert_row loan_schema r (loans d))"
| "flush_insert (InsPatron r) d = rmap (\<lambda>t. d\<lparr>patrons := t\<rparr>) (insert_row patron_schema r (patrons d))"
| "flush_insert (InsOperation r) d = rmap (\<lambda>t. d\<lparr>operations := t\<rparr>) (insert_row operation_schema r (operations d))"
| "flush_insert (InsReceipt r) d = rmap (\<lambda>t. d\<lparr>receipts := t\<rparr>) (insert_row receipt_schema r (receipts d))"
| "flush_insert (InsOutbox r) d =
     rmap (\<lambda>t. d\<lparr>outbox := t\<rparr>) (insert_row outbox_schema (r\<lparr>ob_inserted_at := server_now d\<rparr>) (outbox d))"

fun flush_all :: "insert list \<Rightarrow> db \<Rightarrow> sql_error + db" where
  "flush_all [] d = Inr d"
| "flush_all (i # is) d = rbind (flush_insert i d) (flush_all is)"

text \<open>\<open>OutboxMessageModel.from_domain_event\<close> and \<open>_stage_domain_events\<close>.\<close>

definition from_domain_event :: "domain_event \<Rightarrow> string \<Rightarrow> string \<Rightarrow> outbox_row" where
  "from_domain_event ev aggregate_type aggregate_id =
     \<lparr>ob_id = event_id ev, ob_aggregatetype = aggregate_type, ob_aggregateid = aggregate_id,
      ob_event = ev, ob_occurred_at = occurred_at ev, ob_inserted_at = 0\<rparr>"

definition stage_book :: "book \<Rightarrow> insert list" where
  "stage_book b = map (\<lambda>ev. InsOutbox (from_domain_event ev ''book'' (bid b))) (book_events b)"

definition stage_loan :: "loan \<Rightarrow> insert list" where
  "stage_loan l = map (\<lambda>ev. InsOutbox (from_domain_event ev ''loan'' (loan_id l))) (loan_events l)"

definition stage_patron :: "patron \<Rightarrow> insert list" where
  "stage_patron p = map (\<lambda>ev. InsOutbox (from_domain_event ev ''patron'' (pid p))) (patron_events p)"

section \<open>Units of work\<close>

datatype uow = CatalogUow | LendingUow | PatronUow

definition first_receipt_key :: "insert list \<Rightarrow> string" where
  "first_receipt_key is = (case List.map_filter (\<lambda>i. case i of InsReceipt r \<Rightarrow> Some (receipt_key r) | _ \<Rightarrow> None) is of
     [] \<Rightarrow> ''unknown'' | k # _ \<Rightarrow> k)"

definition added_loan :: "insert list \<Rightarrow> string \<times> string" where
  "added_loan is = (case List.map_filter (\<lambda>i. case i of
       InsLoan r \<Rightarrow> Some (lr_reservation_id r, lr_catalog_book_id r) | _ \<Rightarrow> None) is of
     [] \<Rightarrow> (''unknown'', ''unknown'') | x # _ \<Rightarrow> x)"

definition added_patron_email :: "insert list \<Rightarrow> string" where
  "added_patron_email is = (case List.map_filter (\<lambda>i. case i of InsPatron r \<Rightarrow> Some (pr_email r) | _ \<Rightarrow> None) is of
     [] \<Rightarrow> ''unknown'' | e # _ \<Rightarrow> e)"

text \<open>
  How \<open>commit\<close> translates an integrity error of the flush. The name of the violated
  constraint stands for the driver's diagnostics; the aggregate reported is the one added,
  which is the first in the identity map of every handler that adds one.
\<close>

definition translate_integrity :: "uow \<Rightarrow> insert list \<Rightarrow> string \<Rightarrow> exn" where
  "translate_integrity u is constraint =
     (if sublist ''command_receipts'' constraint
      then App (IdempotencyKeyConflictException (first_receipt_key is)
             ''another request with this key committed concurrently; retry'')
      else case u of
        CatalogUow \<Rightarrow> Py (SqlIntegrityError constraint)
      | LendingUow \<Rightarrow>
          (if sublist ''ix_loans_outstanding_book_unique'' constraint
              \<or> sublist ''ix_loans_reservation_id_unique'' constraint
           then Lending (ConcurrentLoanCreationException (fst (added_loan is)) (snd (added_loan is)))
           else Py (SqlIntegrityError constraint))
      | PatronUow \<Rightarrow>
          (if sublist ''ix_patrons_email'' constraint
           then PatronE (PatronEmailAlreadyRegisteredException (added_patron_email is))
           else Py (SqlIntegrityError constraint)))"

fun commit_exn :: "uow \<Rightarrow> insert list \<Rightarrow> sql_error \<Rightarrow> exn" where
  "commit_exn u is (IntegrityError c) = translate_integrity u is c"
| "commit_exn u is (DataError c) = Py (SqlDataError c)"

type_synonym plan = "stmt list \<times> insert list"

definition commit :: "uow \<Rightarrow> plan \<Rightarrow> db \<Rightarrow> exn + db" where
  "commit u p d =
     rbind (exec_all (fst p) d) (\<lambda>d1.
       case flush_all (snd p) d1 of
         Inl e \<Rightarrow> Inl (commit_exn u (snd p) e)
       | Inr d2 \<Rightarrow> Inr d2)"

text \<open>
  A transaction: the handler's body on what it read (a snapshot, or several), then the commit on the current
  database. An exception anywhere leaves the database as it was.
\<close>

definition run_tx :: "uow \<Rightarrow> ('v \<Rightarrow> exn + plan \<times> 'r) \<Rightarrow> 'v \<Rightarrow> db \<Rightarrow> exn + db \<times> 'r" where
  "run_tx u body snapshot d =
     rbind (body snapshot) (\<lambda>(p, r). rbind (commit u p d) (\<lambda>d'. Inr (d', r)))"

section \<open>Queries of the repositories\<close>

definition scalar_one_or_none :: "exn \<Rightarrow> 'a list \<Rightarrow> exn + 'a option" where
  "scalar_one_or_none err xs = (case xs of [] \<Rightarrow> Inr None | [x] \<Rightarrow> Inr (Some x) | _ \<Rightarrow> Inl err)"

definition book_by_id :: "db \<Rightarrow> string \<Rightarrow> exn + book option" where
  "book_by_id d i =
     (case filter (\<lambda>r. br_id r = i) (books d) of [] \<Rightarrow> Inr None | r # _ \<Rightarrow> rmap Some (book_to_entity r))"

definition loan_by_id :: "db \<Rightarrow> string \<Rightarrow> exn + loan option" where
  "loan_by_id d i =
     rbind (scalar_one_or_none (Py (DatabaseException (''Error retrieving loan '' @ i)))
              (filter (\<lambda>r. lr_id r = i) (loans d))) (ropt loan_to_entity)"

definition loan_by_reservation :: "db \<Rightarrow> string \<Rightarrow> exn + loan option" where
  "loan_by_reservation d raw =
     rbind (lending_reservation_id raw) (\<lambda>i.
     rbind (scalar_one_or_none (Py (DatabaseException (''Error retrieving loan for reservation '' @ i)))
              (filter (\<lambda>r. lr_reservation_id r = i) (loans d))) (ropt loan_to_entity))"

definition terminal_loan_statuses :: "string list" where
  "terminal_loan_statuses = [loan_status_value RETURNED, loan_status_value CANCELLED]"

definition outstanding :: "loan_row \<Rightarrow> bool" where
  "outstanding r \<longleftrightarrow> lr_status r \<notin> set terminal_loan_statuses"

definition active_loan_for_book :: "db \<Rightarrow> string \<Rightarrow> exn + loan option" where
  "active_loan_for_book d i =
     rbind (scalar_one_or_none (Py (DatabaseException ''Error retrieving loan for book''))
              (filter (\<lambda>r. lr_catalog_book_id r = i \<and> outstanding r) (loans d))) (ropt loan_to_entity)"

definition count_outstanding :: "db \<Rightarrow> string \<Rightarrow> int" where
  "count_outstanding d i = int (length (filter (\<lambda>r. lr_patron_id r = i \<and> outstanding r) (loans d)))"

definition patron_by_id :: "db \<Rightarrow> string \<Rightarrow> exn + patron option" where
  "patron_by_id d i =
     rbind (scalar_one_or_none (Py (DatabaseException (''Error retrieving patron '' @ i)))
              (filter (\<lambda>r. pr_id r = i) (patrons d))) (ropt patron_to_entity)"

definition patron_by_email :: "db \<Rightarrow> string \<Rightarrow> exn + patron option" where
  "patron_by_email d raw =
     rbind (email_address raw) (\<lambda>e.
     rbind (scalar_one_or_none (Py (DatabaseException ''Error retrieving patron by email''))
              (filter (\<lambda>r. pr_email r = e) (patrons d))) (ropt patron_to_entity))"

definition get_receipt :: "db \<Rightarrow> string \<Rightarrow> string \<Rightarrow> exn + response command_receipt option" where
  "get_receipt d sc k =
     scalar_one_or_none (Py SqlMultipleResultsFound) (filter (\<lambda>r. scope r = sc \<and> receipt_key r = k) (receipts d))"

text \<open>The borrower directory: a row translated into what the other contexts may know.\<close>

record borrower_profile =
  bp_patron_id :: string
  bp_email :: string
  bp_is_eligible :: bool
  bp_membership_tier :: string
  bp_ineligible_reason :: "string option"

definition translate_patron :: "patron_row \<Rightarrow> borrower_profile" where
  "translate_patron r = \<lparr>bp_patron_id = pr_id r, bp_email = pr_email r,
     bp_is_eligible = (\<not> pr_is_suspended r), bp_membership_tier = pr_membership_tier r,
     bp_ineligible_reason = (if pr_is_suspended r then Some ''patron is suspended'' else None)\<rparr>"

definition directory_find_by_email :: "db \<Rightarrow> string \<Rightarrow> exn + borrower_profile option" where
  "directory_find_by_email d email =
     rmap (map_option translate_patron)
       (scalar_one_or_none (Py SqlMultipleResultsFound)
          (filter (\<lambda>r. pr_email r = py_lower (py_strip email)) (patrons d)))"

definition directory_get_by_id :: "db \<Rightarrow> string \<Rightarrow> exn + borrower_profile option" where
  "directory_get_by_id d i =
     rmap (map_option translate_patron)
       (scalar_one_or_none (Py SqlMultipleResultsFound)
          (filter (\<lambda>r. pr_id r = py_strip i) (patrons d)))"

end
