(* ===== verification/CatalogHandlers.thy ===== *)
theory CatalogHandlers
  imports Database "HOL-Library.List_Lexorder" "HOL-Library.Char_ord"
begin

text \<open>
  The command handlers of the Catalog context (\<open>src/application/command_handlers\<close>):
  adding, borrowing (which reserves), confirming, releasing, the sweep of expired
  reservations, and returning.

  A handler is a function from what it takes from its surroundings, its command and the
  database snapshot its session reads to an exception, or to the plan it commits and its
  result. A handler that returns without committing leaves the empty plan. Logging is not
  modelled.
\<close>

text \<open>
  The surroundings: the ambient of each event raised (an event's index is its position in
  the handler's run), the uuid4 drawn for a new aggregate or reservation, the UTC clock,
  and the SHA-256 digest.
\<close>

record env =
  ambients :: "nat \<Rightarrow> ambient"
  new_id :: string
  clock_now :: instant
  sha256 :: "string \<Rightarrow> string"

section \<open>Idempotency\<close>

definition command_key :: "string option \<Rightarrow> exn + string option" where
  "command_key raw =
     (case raw of None \<Rightarrow> Inr None
      | Some k \<Rightarrow> if k = [] then Inr None else rmap Some (idempotency_key k))"

definition replay :: "db \<Rightarrow> string \<Rightarrow> string option \<Rightarrow> string \<Rightarrow> exn + response option" where
  "replay d sc key h =
     (case key of None \<Rightarrow> Inr None
      | Some k \<Rightarrow>
          rbind (get_receipt d sc k) (\<lambda>found.
          case found of None \<Rightarrow> Inr None
          | Some receipt \<Rightarrow> rmap Some (require_matching_receipt receipt h)))"

definition receipt_for :: "string \<Rightarrow> string option \<Rightarrow> string \<Rightarrow> response \<Rightarrow> insert list" where
  "receipt_for sc key h r =
     (case key of None \<Rightarrow> []
      | Some k \<Rightarrow> [InsReceipt \<lparr>scope = sc, receipt_key = k, request_hash = h, response = r\<rparr>])"

section \<open>Adding a book\<close>

record add_book_command =
  ab_title :: string
  ab_author :: string
  ab_key :: "string option"

definition add_book :: "env \<Rightarrow> add_book_command \<Rightarrow> db \<Rightarrow> exn + plan \<times> response" where
  "add_book e c d =
     rbind (mk_title (ab_title c)) (\<lambda>t.
     rbind (mk_author (ab_author c)) (\<lambda>au.
     rbind (command_key (ab_key c)) (\<lambda>key.
     let h = command_fingerprint (sha256 e) [(''title'', JStr t), (''author'', JStr au)] in
     rbind (replay d ''catalog.add_book'' key h) (\<lambda>replayed.
     case replayed of Some r \<Rightarrow> Inr (([], []), r)
     | None \<Rightarrow>
       rbind (mk_book_id (new_id e)) (\<lambda>i.
       rbind (book_post_init \<lparr>arg_title = t, arg_author = au, arg_id = i,
                arg_status = ''available'', arg_reserved_at = None, arg_borrowed_at = None,
                arg_return_due_date = None, arg_reservation_id = None,
                arg_reservation_generation = 0, arg_reserved_patron_id = None,
                arg_reserved_patron_email = None, arg_current_loan_id = None,
                arg_last_completed_loan_id = None\<rparr>) (\<lambda>b.
       let r = AddBookResult (bid b) (title b) (author b) (is_borrowed b) (book_status_value (status b))
       in Inr (([], InsBook (book_from_entity b) # receipt_for ''catalog.add_book'' key h r
                    @ stage_book b), r)))))))"

section \<open>Borrowing\<close>

record borrow_book_command =
  bb_book_id :: string
  bb_borrower_email :: string
  bb_key :: "string option"

definition borrow_book :: "env \<Rightarrow> borrow_book_command \<Rightarrow> db \<Rightarrow> exn + plan \<times> response" where
  "borrow_book e c d =
     rbind (command_key (bb_key c)) (\<lambda>key.
     rbind (email_address (bb_borrower_email c)) (\<lambda>email.
     let h = command_fingerprint (sha256 e)
               [(''book_id'', JStr (py_strip (bb_book_id c))), (''borrower_email'', JStr email)] in
     rbind (replay d ''catalog.borrow_book'' key h) (\<lambda>replayed.
     case replayed of Some r \<Rightarrow> Inr (([], []), r)
     | None \<Rightarrow>
       rbind (directory_find_by_email d email) (\<lambda>found.
       case found of
         None \<Rightarrow> Inl (Catalog (BorrowerNotEligibleException email ''no patron registered with this email''))
       | Some borrower \<Rightarrow>
         if \<not> bp_is_eligible borrower
         then Inl (Catalog (BorrowerNotEligibleException email
                (case bp_ineligible_reason borrower of
                   Some (x # xs) \<Rightarrow> x # xs | _ \<Rightarrow> ''patron is not eligible'')))
         else
         rbind (book_by_id d (bb_book_id c)) (\<lambda>loaded.
         case loaded of
           None \<Rightarrow> Inl (Catalog (BookNotFoundException (bb_book_id c)))
         | Some b \<Rightarrow>
           rbind (reserve (ambients e 0) (new_id e) (bp_patron_id borrower) (bp_email borrower)
                    (utc (clock_now e)) None b) (\<lambda>(b', token).
           let r = BorrowBookResult (bid b') (title b') (author b') (is_borrowed b') token
                     (reservation_generation b') token (book_status_value (status b')) (return_due_date b')
           in Inr (([UpdateBook (bid b') (book_version b') (book_from_entity b')],
                    InsOperation \<lparr>operation_id = token, op_book_id = bid b',
                      op_patron_id = bp_patron_id borrower, op_generation = reservation_generation b',
                      op_status = OpReserved, op_created_at = clock_now e,
                      op_updated_at = clock_now e, op_loan_id = None, op_failure_reason = None\<rparr>
                    # receipt_for ''catalog.borrow_book'' key h r @ stage_book b'), r)))))))"

section \<open>Settling a reservation\<close>

record confirm_book_borrow_command =
  cb_book_id :: string
  cb_reservation_id :: string
  cb_reservation_generation :: int
  cb_patron_id :: string
  cb_loan_id :: string
  cb_borrowed_at :: datetime
  cb_return_due_date :: datetime

definition confirm_book_borrow :: "env \<Rightarrow> confirm_book_borrow_command \<Rightarrow> db \<Rightarrow> exn + plan \<times> bool" where
  "confirm_book_borrow e c d =
     rbind (book_by_id d (cb_book_id c)) (\<lambda>loaded.
     case loaded of
       None \<Rightarrow> Inl (Catalog (BookNotFoundException (cb_book_id c)))
     | Some b \<Rightarrow>
       rbind (confirm_borrow (ambients e 0) (cb_reservation_id c) (cb_reservation_generation c)
                (cb_patron_id c) (cb_loan_id c) (cb_borrowed_at c) (cb_return_due_date c) b) (\<lambda>(b', changed).
       if \<not> changed then Inr (([], []), False)
       else Inr (([UpdateBook (bid b') (book_version b') (book_from_entity b'),
                   TransitionOperation (cb_reservation_id c) OpBorrowed (cb_book_id c) (cb_patron_id c)
                     (cb_reservation_generation c) (Some (cb_loan_id c)) None (clock_now e)],
                  stage_book b'), True)))"

record release_book_reservation_command =
  rb_book_id :: string
  rb_reservation_id :: string
  rb_reservation_generation :: int
  rb_patron_id :: string
  rb_reason :: string

definition release_book_reservation ::
  "env \<Rightarrow> release_book_reservation_command \<Rightarrow> db \<Rightarrow> exn + plan \<times> bool" where
  "release_book_reservation e c d =
     rbind (book_by_id d (rb_book_id c)) (\<lambda>loaded.
     case loaded of
       None \<Rightarrow> Inl (Catalog (BookNotFoundException (rb_book_id c)))
     | Some b \<Rightarrow>
       (let reason = squash (rb_reason c) in
       rbind (release (ambients e 0) (rb_reservation_id c) (rb_reservation_generation c)
                (rb_patron_id c) reason b) (\<lambda>(b', changed).
       if \<not> changed then Inr (([], []), False)
       else Inr (([UpdateBook (bid b') (book_version b') (book_from_entity b'),
                   TransitionOperation (rb_reservation_id c) OpReleased (rb_book_id c) (rb_patron_id c)
                     (rb_reservation_generation c) None (Some reason) (clock_now e)],
                  stage_book b'), True))))"

section \<open>The sweep of expired reservations\<close>

record release_expired_reservations_command =
  re_ttl_seconds :: int
  re_batch_size :: int

text \<open>
  \<open>find_expired_reservations\<close>: one batch in the order of the reservation date, then of the
  identity; rows locked by other transactions are skipped.
\<close>

definition find_expired_reservations ::
  "(string \<Rightarrow> bool) \<Rightarrow> instant \<Rightarrow> int \<Rightarrow> db \<Rightarrow> exn + book list" where
  "find_expired_reservations locked cutoff limit d =
     (let expired = filter (\<lambda>r. br_status r = ''reserved'' \<and> null_or (\<lambda>t. t < cutoff) (br_reserved_at r)
                              \<and> br_reserved_at r \<noteq> None \<and> \<not> locked (br_id r)) (books d);
          ordered = sort_key (\<lambda>r. case br_reserved_at r of Some t \<Rightarrow> t | None \<Rightarrow> 0) (sort_key br_id expired)
      in foldr (\<lambda>r acc. rbind (book_to_entity r) (\<lambda>b. rmap (\<lambda>bs. b # bs) acc))
           (take (nat limit) ordered) (Inr []))"

definition expiry_reason :: "int \<Rightarrow> string" where
  "expiry_reason ttl = ''reservation expired after '' @ show_int ttl @ ''s without loan confirmation''"

fun release_each :: "env \<Rightarrow> int \<Rightarrow> nat \<Rightarrow> book list \<Rightarrow> exn + plan \<times> int" where
  "release_each e ttl n [] = Inr (([], []), 0)"
| "release_each e ttl n (b # bs) =
     (case (reservation_id b, reserved_patron_id b) of
        (Some rid, Some p) \<Rightarrow>
          rbind (release (ambients e n) rid (reservation_generation b) p (expiry_reason ttl) b) (\<lambda>(b', changed).
          rbind (release_each e ttl (Suc n) bs) (\<lambda>((ss, is), count).
          if \<not> changed then Inr ((ss, is), count)
          else Inr ((UpdateBook (bid b') (book_version b') (book_from_entity b')
                     # TransitionOperation rid OpReleased (bid b') p (reservation_generation b') None
                         (Some ''reservation expired'') (clock_now e) # ss,
                     stage_book b' @ is), count + 1)))
      | _ \<Rightarrow> Inl (Py PyAssertionError))"

definition microseconds_per_second :: int where "microseconds_per_second = 1000000"

definition release_expired_reservations ::
  "env \<Rightarrow> (string \<Rightarrow> bool) \<Rightarrow> release_expired_reservations_command \<Rightarrow> db \<Rightarrow> exn + plan \<times> int \<times> bool" where
  "release_expired_reservations e locked c d =
     (if re_ttl_seconds c \<le> 0 then Inl (Py (PyValueError ''ttl_seconds must be positive''))
      else if \<not> (1 \<le> re_batch_size c \<and> re_batch_size c \<le> 1000)
      then Inl (Py (PyValueError ''batch_size must be between 1 and 1000''))
      else if re_ttl_seconds c \<ge> 1000000000 * 86400 then Inl (Py PyOverflowError)
      else
        rbind (add_delta (clock_now e) (- (re_ttl_seconds c * microseconds_per_second))) (\<lambda>cutoff.
        rbind (find_expired_reservations locked cutoff (re_batch_size c) d) (\<lambda>expired.
        rbind (release_each e (re_ttl_seconds c) 0 expired) (\<lambda>(p, released).
        Inr (p, released, int (length expired) = re_batch_size c)))))"

section \<open>Returning\<close>

record return_book_command =
  rt_book_id :: string
  rt_loan_id :: string
  rt_reservation_id :: string
  rt_reservation_generation :: int
  rt_patron_id :: string

datatype return_book_result = ReturnBookResult string string string bool string

definition return_book_handler :: "env \<Rightarrow> return_book_command \<Rightarrow> db \<Rightarrow> exn + plan \<times> return_book_result" where
  "return_book_handler e c d =
     rbind (book_by_id d (rt_book_id c)) (\<lambda>loaded.
     case loaded of
       None \<Rightarrow> Inl (Catalog (BookNotFoundException (rt_book_id c)))
     | Some b \<Rightarrow>
       rbind (return_book (ambients e 0) (rt_loan_id c) (rt_reservation_id c)
                (rt_reservation_generation c) (rt_patron_id c) b) (\<lambda>(b', changed).
       let r = ReturnBookResult (bid b') (title b') (author b') (is_borrowed b') (book_status_value (status b'))
       in if \<not> changed then Inr (([], []), r)
          else Inr (([UpdateBook (bid b') (book_version b') (book_from_entity b'),
                      TransitionOperation (rt_reservation_id c) OpReturned (rt_book_id c) (rt_patron_id c)
                        (rt_reservation_generation c) (Some (rt_loan_id c)) None (clock_now e)],
                     stage_book b'), r)))"

end
