(* ===== verification/LendingHandlers.thy ===== *)
theory LendingHandlers
  imports CatalogHandlers
begin

text \<open>
  The command handlers of the Lending context: creating a loan for a reservation (with the
  replay check, the borrowing fence, the admission policy, and the reconciliation of a lost
  race), returning, extending and cancelling a loan.
\<close>

section \<open>Creating a loan\<close>

record create_loan_command =
  cl_reservation_id :: string
  cl_reservation_generation :: int
  cl_patron_id :: string
  cl_patron_email :: string
  cl_catalog_book_id :: string
  cl_book_title :: string
  cl_borrowed_at :: datetime

record create_loan_result =
  clr_id :: string
  clr_reservation_id :: string
  clr_reservation_generation :: int
  clr_patron_id :: string
  clr_catalog_book_id :: string
  clr_book_title :: string
  clr_borrowed_at :: instant
  clr_due_date :: instant

definition create_loan_result_of :: "loan \<Rightarrow> create_loan_result" where
  "create_loan_result_of l = \<lparr>clr_id = loan_id l, clr_reservation_id = loan_reservation_id l,
     clr_reservation_generation = loan_reservation_generation l, clr_patron_id = loan_patron_id l,
     clr_catalog_book_id = loan_book_id l, clr_book_title = loan_book_title l,
     clr_borrowed_at = loan_borrowed_at l, clr_due_date = loan_due_date l\<rparr>"

text \<open>Python's \<open>==\<close> on a stored (aware) datetime and another: a naive one is never equal.\<close>

definition same_instant :: "instant \<Rightarrow> datetime \<Rightarrow> bool" where
  "same_instant t d = (case d of Aware u _ \<Rightarrow> t = u | Naive _ \<Rightarrow> False)"

definition replay_mismatches :: "create_loan_command \<Rightarrow> loan \<Rightarrow> string \<Rightarrow> string list" where
  "replay_mismatches c l rid =
     map fst (filter (\<lambda>(_, same). \<not> same)
       [(''reservation_id'', loan_reservation_id l = rid),
        (''reservation_generation'', loan_reservation_generation l = cl_reservation_generation c),
        (''patron_id'', loan_patron_id l = cl_patron_id c),
        (''patron_email'', loan_patron_email l = cl_patron_email c),
        (''catalog_book_id'', loan_book_id l = cl_catalog_book_id c),
        (''book_title'', loan_book_title l = cl_book_title c),
        (''borrowed_at'', same_instant (loan_borrowed_at l) (cl_borrowed_at c))])"

definition require_exact_replay :: "create_loan_command \<Rightarrow> loan \<Rightarrow> string \<Rightarrow> exn + unit" where
  "require_exact_replay c l rid =
     (let m = replay_mismatches c l rid
      in if m \<noteq> [] then Inl (Lending (ReservationCorrelationMismatchException rid
             (''immutable field(s) differ: '' @ py_join '', '' m)))
         else Inr ())"

text \<open>
  The decision after the fence. Each of its four queries sees what has been committed when it runs,
  the one of the borrower directory in a session of its own.
\<close>

record admission_reads =
  counted_in :: db
  rechecked_in :: db
  directory_in :: db
  contended_in :: db

definition admit :: "env \<Rightarrow> create_loan_command \<Rightarrow> string \<Rightarrow> admission_reads \<Rightarrow> exn + plan \<times> create_loan_result" where
  "admit e c rid v =
     (let outstanding_count = count_outstanding (counted_in v) (cl_patron_id c);
          reject = (\<lambda>why. Inl (Lending (PatronNotEligibleForLoanException (cl_patron_id c) why))) in
      rbind (loan_by_reservation (rechecked_in v) rid) (\<lambda>existing.
      case existing of
        Some l \<Rightarrow> rbind (require_exact_replay c l rid) (\<lambda>_. Inr (([], []), create_loan_result_of l))
      | None \<Rightarrow>
      rbind (directory_get_by_id (directory_in v) (cl_patron_id c)) (\<lambda>found.
      case found of
        None \<Rightarrow> reject ''patron no longer exists''
      | Some borrower \<Rightarrow>
      if bp_patron_id borrower \<noteq> cl_patron_id c then reject ''authoritative identity mismatch''
      else if bp_email borrower \<noteq> cl_patron_email c then reject ''authoritative email mismatch''
      else if \<not> bp_is_eligible borrower
      then reject (case bp_ineligible_reason borrower of
             Some (x # xs) \<Rightarrow> x # xs | _ \<Rightarrow> ''patron policy rejected borrowing'')
      else case for_membership_tier (bp_membership_tier borrower) of
        None \<Rightarrow> reject ''membership tier is not supported by Lending''
      | Some terms \<Rightarrow>
      if outstanding_count \<ge> max_outstanding_loans terms
      then Inl (Lending (PatronBorrowingLimitReachedException (cl_patron_id c) (max_outstanding_loans terms)))
      else
      rbind (active_loan_for_book (contended_in v) (cl_catalog_book_id c)) (\<lambda>active.
      case active of
        Some _ \<Rightarrow> Inl (Lending (BookNotAvailableException (cl_catalog_book_id c)))
      | None \<Rightarrow>
      rbind (loan_create (ambients e 0) (new_id e) (cl_patron_id c) (cl_patron_email c)
               (cl_catalog_book_id c) (cl_book_title c) (loan_duration_days terms)
               (cl_borrowed_at c) rid (cl_reservation_generation c)) (\<lambda>l.
      Inr (([], InsLoan (loan_from_entity l) # stage_loan l), create_loan_result_of l))))))"

text \<open>\<open>early\<close> is what the transaction reads before it waits for the fence.\<close>

definition create_or_replay ::
  "env \<Rightarrow> create_loan_command \<Rightarrow> string \<Rightarrow> db \<Rightarrow> admission_reads \<Rightarrow> exn + plan \<times> create_loan_result" where
  "create_or_replay e c rid early fenced =
     rbind (loan_by_reservation early rid) (\<lambda>existing.
     case existing of
       Some l \<Rightarrow> rbind (require_exact_replay c l rid) (\<lambda>_. Inr (([], []), create_loan_result_of l))
     | None \<Rightarrow> admit e c rid fenced)"

definition reconcile_concurrent_insert ::
  "create_loan_command \<Rightarrow> string \<Rightarrow> exn \<Rightarrow> db \<Rightarrow> exn + create_loan_result" where
  "reconcile_concurrent_insert c rid conflict d =
     rbind (loan_by_reservation d rid) (\<lambda>winner.
     case winner of
       Some l \<Rightarrow> rbind (require_exact_replay c l rid) (\<lambda>_. Inr (create_loan_result_of l))
     | None \<Rightarrow>
     rbind (active_loan_for_book d (cl_catalog_book_id c)) (\<lambda>active.
     case active of
       Some _ \<Rightarrow> Inl (Lending (BookNotAvailableException (cl_catalog_book_id c)))
     | None \<Rightarrow> Inl conflict))"

text \<open>
  \<open>CreateLoanHandler.handle\<close>: \<open>current\<close> is the database at the commit, \<open>later\<close> the one the
  reconciling transaction reads.
\<close>

fun lost_creation_race :: "exn \<Rightarrow> bool" where
  "lost_creation_race (Lending (ConcurrentLoanCreationException _ _)) = True"
| "lost_creation_race _ = False"

definition create_loan ::
  "env \<Rightarrow> create_loan_command \<Rightarrow> db \<Rightarrow> admission_reads \<Rightarrow> db \<Rightarrow> db \<Rightarrow> exn + db \<times> create_loan_result" where
  "create_loan e c early fenced current later =
     rbind (lending_reservation_id (cl_reservation_id c)) (\<lambda>rid.
     case run_tx LendingUow (create_or_replay e c rid early) fenced current of
       Inr r \<Rightarrow> Inr r
     | Inl x \<Rightarrow>
         if lost_creation_race x
         then rbind (reconcile_concurrent_insert c rid x later) (\<lambda>r. Inr (later, r))
         else Inl x)"

section \<open>Returning a loan\<close>

record return_loan_command =
  rl_loan_id :: string
  rl_key :: "string option"

definition return_loan :: "env \<Rightarrow> return_loan_command \<Rightarrow> db \<Rightarrow> exn + plan \<times> response" where
  "return_loan e c d =
     (let i = py_strip (rl_loan_id c) in
     rbind (command_key (rl_key c)) (\<lambda>key.
     let h = command_fingerprint (sha256 e) [(''loan_id'', JStr i)] in
     rbind (replay d ''lending.return_loan'' key h) (\<lambda>replayed.
     case replayed of Some r \<Rightarrow> Inr (([], []), r)
     | None \<Rightarrow>
       rbind (loan_by_id d i) (\<lambda>loaded.
       case loaded of
         None \<Rightarrow> Inl (Lending (LoanNotFoundException i))
       | Some l \<Rightarrow>
         rbind (loan_return (ambients e 0) (utc (clock_now e)) l) (\<lambda>(l', changed).
         case loan_returned_at l' of
           None \<Rightarrow> Inl (Py PyAssertionError)
         | Some t \<Rightarrow>
           rbind (due_is_overdue_as_of (loan_due_date l') (utc t)) (\<lambda>was_overdue.
           let r = ReturnLoanResult (loan_id l') t was_overdue
           in Inr ((if changed then [UpdateLoan (loan_id l') (loan_version l') (loan_from_entity l')] else [],
                    receipt_for ''lending.return_loan'' key h r @ (if changed then stage_loan l' else [])),
                   r)))))))"

section \<open>Extending a loan\<close>

record extend_loan_command =
  xl_loan_id :: string
  xl_days :: int
  xl_key :: "string option"

definition extend_loan :: "env \<Rightarrow> extend_loan_command \<Rightarrow> db \<Rightarrow> exn + plan \<times> response" where
  "extend_loan e c d =
     rbind (command_key (xl_key c)) (\<lambda>key.
     let h = command_fingerprint (sha256 e)
               [(''loan_id'', JStr (py_strip (xl_loan_id c))), (''days'', JInt (xl_days c))] in
     rbind (replay d ''lending.extend_loan'' key h) (\<lambda>replayed.
     case replayed of Some r \<Rightarrow> Inr (([], []), r)
     | None \<Rightarrow>
       rbind (loan_by_id d (xl_loan_id c)) (\<lambda>loaded.
       case loaded of
         None \<Rightarrow> Inl (Lending (LoanNotFoundException (xl_loan_id c)))
       | Some l \<Rightarrow>
         rbind (loan_extend (ambients e 0) (xl_days c) (utc (clock_now e)) l) (\<lambda>l'.
         let r = ExtendLoanResult (loan_id l') (loan_due_date l')
         in Inr (([UpdateLoan (loan_id l') (loan_version l') (loan_from_entity l')],
                  receipt_for ''lending.extend_loan'' key h r @ stage_loan l'), r)))))"

section \<open>Cancelling a loan\<close>

record cancel_loan_command =
  cn_reservation_id :: string
  cn_reservation_generation :: int
  cn_patron_id :: string
  cn_catalog_book_id :: string
  cn_expected_loan_id :: "string option"
  cn_reason :: string

definition cancellation_matches :: "cancel_loan_command \<Rightarrow> string \<Rightarrow> loan \<Rightarrow> bool" where
  "cancellation_matches c rid l \<longleftrightarrow> loan_reservation_id l = rid
     \<and> loan_reservation_generation l = cn_reservation_generation c
     \<and> loan_patron_id l = cn_patron_id c \<and> loan_book_id l = cn_catalog_book_id c
     \<and> (case cn_expected_loan_id c of None \<Rightarrow> True | Some i \<Rightarrow> loan_id l = i)"

fun not_active :: "exn \<Rightarrow> bool" where
  "not_active (Lending (LoanNotActiveException _ _)) = True"
| "not_active _ = False"

definition cancel_loan :: "env \<Rightarrow> cancel_loan_command \<Rightarrow> db \<Rightarrow> exn + plan \<times> bool" where
  "cancel_loan e c d =
     rbind (lending_reservation_id (cn_reservation_id c)) (\<lambda>rid.
     rbind (loan_by_reservation d rid) (\<lambda>found.
     case found of
       None \<Rightarrow> Inr (([], []), False)
     | Some l \<Rightarrow>
       if \<not> cancellation_matches c rid l
       then Inl (Lending (ReservationCorrelationMismatchException rid
              (''cancellation does not match loan '' @ loan_id l)))
       else case loan_cancel (ambients e 0) (cn_reason c) l of
         Inl x \<Rightarrow> (if not_active x then Inr (([], []), False) else Inl x)
       | Inr (l', changed) \<Rightarrow>
           (if \<not> changed then Inr (([], []), False)
            else Inr (([UpdateLoan (loan_id l') (loan_version l') (loan_from_entity l')], stage_loan l'), True))))"

end
