(* ===== verification/PatronHandlers.thy ===== *)
theory PatronHandlers
  imports CatalogHandlers
begin

text \<open>
  The command handlers of the Patron context: registering, suspending, reinstating and
  upgrading a patron. The last three take the borrowing fence of the patron before they
  read the row they change.
\<close>

definition from_patron :: "patron \<Rightarrow> patron_snapshot" where
  "from_patron p = \<lparr>snap_id = pid p, snap_name = full_name (first_name p) (last_name p),
     snap_first_name = first_name p, snap_last_name = last_name p, snap_email = patron_email p,
     snap_membership_tier = tier_value (membership_tier p), snap_is_suspended = is_suspended p,
     snap_suspended_reason = suspended_reason p, snap_registered_at = registered_at p\<rparr>"

definition requested_tier :: "string \<Rightarrow> exn + membership_tier" where
  "requested_tier raw =
     (case tier_of (py_lower (py_strip raw)) of
        None \<Rightarrow> Inl (Py (PyValueError ''not a valid MembershipTier'')) | Some t \<Rightarrow> Inr t)"

record register_patron_command =
  rp_first_name :: string
  rp_last_name :: string
  rp_email :: string
  rp_membership_tier :: string
  rp_key :: "string option"

definition register_patron :: "env \<Rightarrow> register_patron_command \<Rightarrow> db \<Rightarrow> exn + plan \<times> response" where
  "register_patron e c d =
     rbind (mk_patron_name (rp_first_name c) (rp_last_name c)) (\<lambda>(fname, lname).
     rbind (email_address (rp_email c)) (\<lambda>em.
     rbind (requested_tier (rp_membership_tier c)) (\<lambda>tier.
     rbind (command_key (rp_key c)) (\<lambda>key.
     let h = command_fingerprint (sha256 e)
               [(''first_name'', JStr fname), (''last_name'', JStr lname), (''email'', JStr em),
                (''membership_tier'', JStr (tier_value tier))] in
     rbind (replay d ''patron.register'' key h) (\<lambda>replayed.
     case replayed of Some r \<Rightarrow> Inr (([], []), r)
     | None \<Rightarrow>
       rbind (patron_by_email d em) (\<lambda>found.
       case found of
         Some _ \<Rightarrow> Inl (PatronE (PatronEmailAlreadyRegisteredException em))
       | None \<Rightarrow>
         rbind (patron_register (ambients e 0) (new_id e) fname lname em (utc (clock_now e)) tier) (\<lambda>p.
         let r = PatronResult (from_patron p)
         in Inr (([], InsPatron (patron_from_entity p) # receipt_for ''patron.register'' key h r
                      @ stage_patron p), r))))))))"

text \<open>
  The rest of the three handlers that change a registered patron: the body applies the
  aggregate's method.
\<close>

definition change_patron ::
  "string \<Rightarrow> string \<Rightarrow> string option \<Rightarrow> string \<Rightarrow> (patron \<Rightarrow> exn + patron) \<Rightarrow> db \<Rightarrow> exn + plan \<times> response" where
  "change_patron sc i key h change d =
     rbind (replay d sc key h) (\<lambda>replayed.
     case replayed of Some r \<Rightarrow> Inr (([], []), r)
     | None \<Rightarrow>
       rbind (patron_by_id d i) (\<lambda>loaded.
       case loaded of
         None \<Rightarrow> Inl (PatronE (PatronNotFoundException i))
       | Some p \<Rightarrow>
         rbind (change p) (\<lambda>p'.
         let r = PatronResult (from_patron p')
         in Inr (([UpdatePatron (pid p') (patron_version p') (patron_from_entity p')],
                  receipt_for sc key h r @ stage_patron p'), r))))"

record suspend_patron_command =
  sp_patron_id :: string
  sp_reason :: string
  sp_key :: "string option"

definition suspend_patron :: "env \<Rightarrow> suspend_patron_command \<Rightarrow> db \<Rightarrow> exn + plan \<times> response" where
  "suspend_patron e c d =
     (let i = py_strip (sp_patron_id c); reason = squash (sp_reason c) in
     rbind (command_key (sp_key c)) (\<lambda>key.
     let h = command_fingerprint (sha256 e) [(''patron_id'', JStr i), (''reason'', JStr reason)] in
     change_patron ''patron.suspend'' i key h (suspend (ambients e 0) reason) d))"

record reinstate_patron_command =
  ri_patron_id :: string
  ri_key :: "string option"

definition reinstate_patron :: "env \<Rightarrow> reinstate_patron_command \<Rightarrow> db \<Rightarrow> exn + plan \<times> response" where
  "reinstate_patron e c d =
     (let i = py_strip (ri_patron_id c) in
     rbind (command_key (ri_key c)) (\<lambda>key.
     let h = command_fingerprint (sha256 e) [(''patron_id'', JStr i)] in
     change_patron ''patron.reinstate'' i key h (reinstate (ambients e 0)) d))"

record upgrade_patron_tier_command =
  up_patron_id :: string
  up_new_tier :: string
  up_key :: "string option"

definition upgrade_patron_tier :: "env \<Rightarrow> upgrade_patron_tier_command \<Rightarrow> db \<Rightarrow> exn + plan \<times> response" where
  "upgrade_patron_tier e c d =
     (let i = py_strip (up_patron_id c) in
     rbind (requested_tier (up_new_tier c)) (\<lambda>tier.
     rbind (command_key (up_key c)) (\<lambda>key.
     let h = command_fingerprint (sha256 e) [(''patron_id'', JStr i), (''new_tier'', JStr (tier_value tier))] in
     change_patron ''patron.upgrade_tier'' i key h (upgrade_tier tier) d)))"

end
