(* ===== verification/RowProps.thy ===== *)
theory RowProps
  imports Rows KernelProps
begin

text \<open>
  What the rows guarantee: a well-formed aggregate survives being written and read back, it
  meets every constraint of its table, and whatever is read back is well-formed.
\<close>

section \<open>Trimming and the shapes the constraints test\<close>

lemma dropWhile_keeps: "c \<in> set s \<Longrightarrow> \<not> p c \<Longrightarrow> c \<in> set (dropWhile p s)"
  by (induction s) auto

lemma pg_trim_nonempty:
  assumes "c \<in> set s" and "c \<noteq> CHR '' ''"
  shows "pg_trim s \<noteq> []"
proof -
  let ?p = "\<lambda>c. c = CHR '' ''"
  have "c \<in> set (dropWhile ?p s)" using assms by (rule dropWhile_keeps)
  then have "c \<in> set (dropWhile ?p (rev (dropWhile ?p s)))"
    using assms(2) by (intro dropWhile_keeps) simp_all
  then have "dropWhile ?p (rev (dropWhile ?p s)) \<noteq> []" by (rule length_pos_if_in_set [THEN length_greater_0_conv [THEN iffD1]])
  then show ?thesis unfolding pg_trim_def by simp
qed

lemma length_pg_trim: "length (pg_trim s) \<le> length s"
  using length_dropWhile_le [of _ "rev (dropWhile (\<lambda>c. c = CHR '' '') s)"] length_dropWhile_le [of _ s]
  by (simp add: pg_trim_def) (meson le_trans length_dropWhile_le)

lemma pg_trim_fixed: "\<forall>c\<in>set s. c \<noteq> CHR '' '' \<Longrightarrow> pg_trim s = s"
proof -
  assume a: "\<forall>c\<in>set s. c \<noteq> CHR '' ''"
  then have "dropWhile (\<lambda>c. c = CHR '' '') s = s" by (cases s) auto
  moreover have "dropWhile (\<lambda>c. c = CHR '' '') (rev s) = rev s"
    using a by (intro dropWhile_fixed) (cases "s = []", simp_all add: hd_rev)
  ultimately show ?thesis by (simp add: pg_trim_def)
qed

lemma squash_has_word:
  assumes "squash s \<noteq> []"
  shows "\<exists>c\<in>set (squash s). c \<noteq> CHR '' ''"
proof (cases "py_split s")
  case Nil
  with assms show ?thesis by (simp add: squash_def)
next
  case (Cons w ws)
  then have w: "w \<noteq> []" "\<forall>c\<in>set w. \<not> py_space c" using py_split_words [of w s] by simp_all
  from Cons have "set w \<subseteq> set (squash s)" by (cases ws) (auto simp: squash_def)
  moreover obtain c where c: "c \<in> set w" using w(1) by (cases w) auto
  moreover have "c \<noteq> CHR '' ''" using w(2) c space_is_space by blast
  ultimately show ?thesis by blast
qed

lemma squash_trim_between:
  assumes "squash s = s" and "s \<noteq> []" and "length s \<le> n"
  shows "between 1 n (length (pg_trim s))"
proof -
  obtain c where "c \<in> set s" "c \<noteq> CHR '' ''" using squash_has_word [of s] assms(1,2) by auto
  then have "pg_trim s \<noteq> []" by (rule pg_trim_nonempty)
  then have "1 \<le> length (pg_trim s)" by (cases "pg_trim s") simp_all
  with length_pg_trim [of s] assms(3) show ?thesis by (simp add: between_def)
qed

lemma email_chars:
  assumes "is_valid_email v" and "c \<in> set v"
  shows "c \<noteq> CHR '' ''"
proof -
  have "\<not> is_alnum CHR '' ''" by (simp add: str_eval)
  moreover have "\<not> is_alpha CHR '' ''" by (simp add: str_eval)
  ultimately show ?thesis using assms
    by (auto simp: is_valid_email_iff list_all_iff email_local_char_def email_domain_char_def)
qed

lemma email_sql:
  assumes "email_address v = Inr v"
  shows "sql_email v" "v = py_lower (pg_trim v)" "between 3 254 (length v)" "is_valid_email v" "length v \<le> 254"
proof -
  from assms have v: "v = py_lower (py_strip v)" "length v \<le> 254" "is_valid_email v"
    by (auto simp: email_address_Inr)
  then have "py_lower v = v" by (metis py_lower_idem)
  moreover have "pg_trim v = v" using email_chars [OF v(3)] by (intro pg_trim_fixed) auto
  ultimately show trim: "v = py_lower (pg_trim v)" by simp
  have "3 \<le> length v"
  proof -
    from v(3) obtain l d t where "v = l @ ''@'' @ d @ ''.'' @ t" "2 \<le> length t"
      by (auto simp: is_valid_email_iff)
    then show ?thesis by simp
  qed
  with v show "between 3 254 (length v)" "is_valid_email v" "length v \<le> 254" by (simp_all add: between_def)
  with trim show "sql_email v" by (simp add: sql_email_def)
qed

lemma canon_sql:
  assumes "canon_uuid u = Some u"
  shows "sql_uuid u" "length u \<le> 36" "u \<noteq> []"
proof -
  have s: "uuid_shape u" using assms by (rule canon_uuid_shape)
  with assms have "py_lower u = u" using canon_uuid_of_shape by fastforce
  with s show "sql_uuid u" by (simp add: sql_uuid_def)
  show "length u \<le> 36" using length_canon_uuid [OF assms] by simp
  show "u \<noteq> []" using length_canon_uuid [OF assms] by auto
qed

lemma ref_sql: "ref_ok s \<Longrightarrow> sql_ident s" "ref_ok s \<Longrightarrow> length s \<le> 64"
  by (simp_all add: ref_ok_def sql_ident_def)

lemma id_sql: "id_ok s \<Longrightarrow> sql_ident s" "id_ok s \<Longrightarrow> length s \<le> 64"
  by (simp_all add: id_ok_def ref_sql)

lemma null_or_pred: "pred_option P v \<Longrightarrow> (\<And>x. P x \<Longrightarrow> Q x) \<Longrightarrow> null_or Q v"
  by (cases v) (simp_all add: null_or_def)

section \<open>Books\<close>

lemma book_status_of_value [simp]: "book_status_of (book_status_value s) = Some s"
  by (cases s) (simp_all add: book_status_of_def)

lemma ropt_fixed: "pred_option (\<lambda>x. f x = Inr x) v \<Longrightarrow> ropt f v = Inr v"
  by (cases v) simp_all

lemma ropt_utc: "pred_option in_range v \<Longrightarrow> ropt (\<lambda>d. require_utc_datetime d s) (map_option utc v) = Inr v"
  by (cases v) simp_all

lemma refs_fixed:
  "pred_option ref_ok v \<Longrightarrow> ropt (\<lambda>x. catalog_reference x f) v = Inr v"
  by (rule ropt_fixed) (auto elim!: option.pred_mono_strong simp: catalog_reference_def normalize_ref_id)

lemma reservation_fixed:
  "pred_option (\<lambda>u. canon_uuid u = Some u) v \<Longrightarrow> ropt catalog_reservation_id v = Inr v"
  by (rule ropt_fixed) (auto elim!: option.pred_mono_strong simp: catalog_reservation_id_def)

lemma validate_state_keeps:
  "validate_state (b\<lparr>book_events := es\<rparr>) = validate_state b"
  "validate_state (b\<lparr>book_version := v\<rparr>) = validate_state b"
  by (cases b; simp only: validate_state_def correlation_complete_def correlation_any_def
      book.select_convs book.update_convs)+

lemma book_roundtrip:
  assumes "book_wf b"
  shows "book_to_entity (book_from_entity b) = Inr (b\<lparr>book_events := []\<rparr>)"
proof -
  from assms have w: "mk_title (title b) = Inr (title b)" "mk_author (author b) = Inr (author b)"
    "mk_book_id (bid b) = Inr (bid b)" "\<not> reservation_generation b < 0"
    "ropt catalog_reservation_id (reservation_id b) = Inr (reservation_id b)"
    "\<And>f. ropt (\<lambda>x. catalog_reference x f) (reserved_patron_id b) = Inr (reserved_patron_id b)"
    "\<And>f. ropt (\<lambda>x. catalog_reference x f) (current_loan_id b) = Inr (current_loan_id b)"
    "\<And>f. ropt (\<lambda>x. catalog_reference x f) (last_completed_loan_id b) = Inr (last_completed_loan_id b)"
    "ropt email_address (reserved_patron_email b) = Inr (reserved_patron_email b)"
    "\<And>s. ropt (\<lambda>d. require_utc_datetime d s) (map_option utc (reserved_at b)) = Inr (reserved_at b)"
    "\<And>s. ropt (\<lambda>d. require_utc_datetime d s) (map_option utc (borrowed_at b)) = Inr (borrowed_at b)"
    "\<And>s. ropt (\<lambda>d. require_utc_datetime d s) (map_option utc (return_due_date b)) = Inr (return_due_date b)"
    by (simp_all add: book_wf_def mk_book_id_def canonical_id_fixed reservation_fixed refs_fixed
        ropt_fixed ropt_utc)
  have rid: "(case reservation_id b of None \<Rightarrow> Inr None
      | Some x \<Rightarrow> if x = [] then Inr None else ropt catalog_reservation_id (Some x)) = Inr (reservation_id b)"
    using assms w(5) canon_sql(3) by (cases "reservation_id b") (auto simp: book_wf_def)
  have "validate_state (b\<lparr>book_events := [], book_version := 0\<rparr>) = validate_state b"
    by (simp only: validate_state_keeps)
  moreover have "validate_state b = Inr ()" using assms by (simp add: book_wf_def)
  ultimately show ?thesis
    using w rid unfolding book_to_entity_def book_from_entity_def
    by (simp add: book_post_init_def del: ropt_simps) (cases b, simp)
qed

lemma book_to_entity_wf:
  assumes "book_to_entity r = Inr b"
  shows "book_wf b \<and> book_version b = br_version r \<and> book_events b = []"
proof -
  from assms obtain a b0 where "book_post_init a = Inr b0" "b = b0\<lparr>book_version := br_version r\<rparr>"
    unfolding book_to_entity_def by (auto elim!: rbindE split: option.splits)
  moreover have "book_wf (b0\<lparr>book_version := v\<rparr>) = book_wf b0" for v
    by (simp add: book_wf_def validate_state_keeps)
  ultimately show ?thesis using book_post_init_wf by auto
qed

lemma book_row_ok:
  assumes "book_wf b" and "int4 (reservation_generation b)" and "int4 (book_version b)" and "0 \<le> book_version b"
  shows "first_violation (book_checks (book_from_entity b)) = None
    \<and> first_violation (book_types (book_from_entity b)) = None"
proof -
  note w = assms(1) [unfolded book_wf_def mk_title_Inr mk_author_Inr]
  from w have state: "validate_state b = Inr ()" by simp
  have opt: "null_or sql_uuid (reservation_id b)" "null_or (\<lambda>s. length s \<le> 36) (reservation_id b)"
    "null_or sql_ident (reserved_patron_id b)" "null_or (\<lambda>s. length s \<le> 64) (reserved_patron_id b)"
    "null_or sql_ident (current_loan_id b)" "null_or (\<lambda>s. length s \<le> 64) (current_loan_id b)"
    "null_or sql_ident (last_completed_loan_id b)" "null_or (\<lambda>s. length s \<le> 64) (last_completed_loan_id b)"
    "null_or sql_email (reserved_patron_email b)" "null_or (\<lambda>s. length s \<le> 254) (reserved_patron_email b)"
    using w by (auto elim!: null_or_pred intro: canon_sql ref_sql email_sql)
  have trim: "between 1 100 (length (pg_trim (title b)))" "between 1 200 (length (pg_trim (author b)))"
    using w by (metis squash_trim_between)+
  show ?thesis
  proof (cases "status b")
    case AVAILABLE
    with state w assms opt trim id_sql [of "bid b"] show ?thesis
      by (simp add: book_checks_def book_types_def book_from_entity_def validate_state_Inr)
  next
    case RESERVED
    with state w assms opt trim id_sql [of "bid b"] show ?thesis
      by (auto simp: book_checks_def book_types_def book_from_entity_def validate_state_Inr
          correlation_complete_def)
  next
    case BORROWED
    with state w assms opt trim id_sql [of "bid b"] show ?thesis
      by (auto simp: book_checks_def book_types_def book_from_entity_def validate_state_Inr
          correlation_complete_def null_or_def [of _ "Some _"])
  qed
qed

section \<open>Loans\<close>

lemma loan_status_of_value [simp]: "loan_status_of (loan_status_value s) = Some s"
  by (cases s) (simp_all add: loan_status_of_def)

lemma loan_roundtrip:
  assumes "loan_wf l"
  shows "loan_to_entity (loan_from_entity l) = Inr (l\<lparr>loan_events := []\<rparr>)"
proof -
  from assms have w: "mk_loan_id (loan_id l) = Inr (loan_id l)"
    "lending_reservation_id (loan_reservation_id l) = Inr (loan_reservation_id l)"
    "\<And>f. loan_reference (loan_patron_id l) f = Inr (loan_patron_id l)"
    "\<And>f. loan_reference (loan_book_id l) f = Inr (loan_book_id l)"
    "email_address (loan_patron_email l) = Inr (loan_patron_email l)"
    "squash (loan_book_title l) = loan_book_title l" "loan_book_title l \<noteq> []"
    "\<not> 100 < length (loan_book_title l)" "\<not> loan_reservation_generation l < 1"
    "in_range (loan_borrowed_at l)" "in_range (loan_due_date l)"
    "\<not> loan_due_date l \<le> loan_borrowed_at l"
    "\<And>s. ropt (\<lambda>d. require_utc_datetime d s) (map_option utc (loan_returned_at l)) = Inr (loan_returned_at l)"
    by (auto simp: loan_wf_def mk_loan_id_def canonical_id_fixed lending_reservation_id_def
        loan_reference_def normalize_ref_id intro!: ropt_utc split: option.splits)
  have r: "\<not> (case loan_returned_at l of Some r \<Rightarrow> r < loan_borrowed_at l | None \<Rightarrow> False)"
    "(loan_status l = RETURNED) = (loan_returned_at l \<noteq> None)"
    using assms by (auto simp: loan_wf_def split: option.splits)
  show ?thesis
    unfolding loan_to_entity_def loan_from_entity_def
    using w r by (simp add: loan_post_init_def mk_due_date_def Let_def del: ropt_simps)
qed

lemma loan_to_entity_wf:
  assumes "loan_to_entity r = Inr l"
  shows "loan_wf l \<and> loan_version l = lr_version r \<and> loan_events l = []"
proof -
  from assms obtain a l0 where "loan_post_init a = Inr l0" "l = l0\<lparr>loan_version := lr_version r\<rparr>"
    unfolding loan_to_entity_def by (auto elim!: rbindE split: option.splits)
  moreover have "loan_wf (l0\<lparr>loan_version := v\<rparr>) = loan_wf l0" for v
    by (simp add: loan_wf_def)
  ultimately show ?thesis using loan_post_init_wf by auto
qed

lemma loan_row_ok:
  assumes "loan_wf l" and "int4 (loan_reservation_generation l)" and "int4 (loan_version l)" and "0 \<le> loan_version l"
  shows "first_violation (loan_checks (loan_from_entity l)) = None
    \<and> first_violation (loan_types (loan_from_entity l)) = None"
proof -
  note w = assms(1) [unfolded loan_wf_def]
  have "between 1 100 (length (pg_trim (loan_book_title l)))"
    using w by (intro squash_trim_between) auto
  moreover have "sql_email (loan_patron_email l)" "length (loan_patron_email l) \<le> 254"
    using w email_sql [of "loan_patron_email l"] by auto
  moreover have "sql_uuid (loan_reservation_id l)" "length (loan_reservation_id l) \<le> 36"
    using w canon_sql [of "loan_reservation_id l"] by auto
  moreover have "null_or (\<lambda>t. loan_borrowed_at l \<le> t) (loan_returned_at l)"
    using w by (auto simp: null_or_def split: option.splits)
  moreover have "loan_status_value (loan_status l) \<in> {''active'', ''returned'', ''overdue'', ''lost'', ''cancelled''}"
    "length (loan_status_value (loan_status l)) \<le> 16"
    "loan_status_value (loan_status l) = ''returned'' \<longleftrightarrow> loan_status l = RETURNED"
    by (cases "loan_status l"; simp)+
  ultimately show ?thesis
    using w assms id_sql [of "loan_id l"] ref_sql [of "loan_patron_id l"] ref_sql [of "loan_book_id l"]
    by (cases "loan_returned_at l") (simp_all add: loan_checks_def loan_types_def loan_from_entity_def)
qed

section \<open>Patrons\<close>

lemma patron_roundtrip:
  assumes "patron_wf p"
  shows "patron_to_entity (patron_from_entity p) = Inr (p\<lparr>patron_events := []\<rparr>)"
proof -
  from assms have w: "mk_patron_id (pid p) = Inr (pid p)"
    "mk_patron_name (first_name p) (last_name p) = Inr (first_name p, last_name p)"
    "email_address (patron_email p) = Inr (patron_email p)" "in_range (registered_at p)"
    by (simp_all add: patron_wf_def mk_patron_id_def canonical_id_fixed)
  show ?thesis
    unfolding patron_to_entity_def patron_from_entity_def
    using w assms
    by (cases "is_suspended p"; cases p) (auto simp: patron_post_init_def patron_wf_def Let_def)
qed

lemma patron_to_entity_wf:
  assumes "patron_to_entity r = Inr p"
  shows "patron_wf p \<and> patron_version p = pr_version r \<and> patron_events p = []"
proof -
  from assms obtain a p0 where "patron_post_init a = Inr p0" "p = p0\<lparr>patron_version := pr_version r\<rparr>"
    unfolding patron_to_entity_def by (auto elim!: rbindE split: option.splits)
  moreover have "patron_wf (p0\<lparr>patron_version := v\<rparr>) = patron_wf p0" for v
    by (simp add: patron_wf_def)
  ultimately show ?thesis using patron_post_init_wf by auto
qed

lemma patron_row_ok:
  assumes "patron_wf p" and "int4 (patron_version p)" and "0 \<le> patron_version p"
  shows "first_violation (patron_checks (patron_from_entity p)) = None
    \<and> first_violation (patron_types (patron_from_entity p)) = None"
proof -
  note w = assms(1) [unfolded patron_wf_def]
  have n: "squash (first_name p) = first_name p" "first_name p \<noteq> []" "length (first_name p) \<le> 100"
    "squash (last_name p) = last_name p" "last_name p \<noteq> []" "length (last_name p) \<le> 100"
    using w by (auto simp: mk_patron_name_def Let_def split: if_splits)
  then have "between 1 100 (length (pg_trim (first_name p)))" "between 1 100 (length (pg_trim (last_name p)))"
    by (metis squash_trim_between)+
  moreover have "patron_email p = py_lower (pg_trim (patron_email p))"
    "between 3 254 (length (patron_email p))" "is_valid_email (patron_email p)" "length (patron_email p) \<le> 254"
    using w email_sql [of "patron_email p"] by blast+
  moreover have "tier_value (membership_tier p) \<in> {''regular'', ''premium'', ''researcher''}"
    "length (tier_value (membership_tier p)) \<le> 16"
    by (cases "membership_tier p"; simp)+
  moreover have "between 1 500 (length (pg_trim r)) \<and> length r \<le> 500"
    if "suspended_reason p = Some r" "is_suspended p" for r
    using w that squash_trim_between [of r 500] by auto
  ultimately show ?thesis
    using w n assms id_sql [of "pid p"]
    by (cases "is_suspended p")
      (auto simp: patron_checks_def patron_types_def patron_from_entity_def null_or_def)
qed

section \<open>Properties\<close>

text \<open>
  C24: persistence loses nothing: a well-formed book, loan or patron that is written to its
  row and read back is the same aggregate with no pending events.
\<close>

theorem persistence_roundtrip:
  assumes "book_wf b" and "loan_wf l" and "patron_wf p"
  shows "book_to_entity (book_from_entity b) = Inr (b\<lparr>book_events := []\<rparr>)
    \<and> loan_to_entity (loan_from_entity l) = Inr (l\<lparr>loan_events := []\<rparr>)
    \<and> patron_to_entity (patron_from_entity p) = Inr (p\<lparr>patron_events := []\<rparr>)"
  using assms book_roundtrip loan_roundtrip patron_roundtrip by blast

theorem persistence_roundtrip_witness:
  "book_to_entity (book_from_entity sample_book) = Inr (sample_book\<lparr>book_events := []\<rparr>)"
  using persistence_roundtrip [OF sample_book_wf sample_loan_wf sample_patron_wf] by blast

text \<open>
  C25: the schema and the domain agree: no check constraint and no column width of the three
  tables rejects a well-formed aggregate whose counters fit their 32-bit columns.
\<close>

theorem schema_accepts_aggregates:
  assumes "book_wf b" and "loan_wf l" and "patron_wf p"
    and "int4 (reservation_generation b)" and "int4 (loan_reservation_generation l)"
    and "\<forall>v\<in>{book_version b, loan_version l, patron_version p}. 0 \<le> v \<and> int4 v"
  shows "first_violation (book_checks (book_from_entity b) @ book_types (book_from_entity b)) = None
    \<and> first_violation (loan_checks (loan_from_entity l) @ loan_types (loan_from_entity l)) = None
    \<and> first_violation (patron_checks (patron_from_entity p) @ patron_types (patron_from_entity p)) = None"
proof -
  have app: "first_violation (xs @ ys) = None \<longleftrightarrow> first_violation xs = None \<and> first_violation ys = None"
    for xs ys by auto
  show ?thesis
    using book_row_ok [OF assms(1)] loan_row_ok [OF assms(2)] patron_row_ok [OF assms(3)] assms(4-6)
    unfolding app by blast
qed

theorem schema_accepts_aggregates_witness:
  "first_violation (loan_checks (loan_from_entity sample_loan) @ loan_types (loan_from_entity sample_loan)) = None"
proof -
  have "int4 (reservation_generation sample_book)" "int4 (loan_reservation_generation sample_loan)"
    "\<forall>v\<in>{book_version sample_book, loan_version sample_loan, patron_version sample_patron}. 0 \<le> v \<and> int4 v"
    by (simp_all add: int4_def sample_book_def sample_loan_def sample_patron_def)
  from schema_accepts_aggregates [OF sample_book_wf sample_loan_wf sample_patron_wf this]
  show ?thesis by blast
qed

text \<open>
  Hydration is guarded: whatever row the tables hold, reading it either raises or yields
  a well-formed aggregate that carries the row's version and no pending events.
\<close>

theorem hydration_yields_wf:
  "(case book_to_entity r1 of Inl _ \<Rightarrow> True
      | Inr b \<Rightarrow> book_wf b \<and> book_version b = br_version r1 \<and> book_events b = [])
    \<and> (case loan_to_entity r2 of Inl _ \<Rightarrow> True
      | Inr l \<Rightarrow> loan_wf l \<and> loan_version l = lr_version r2 \<and> loan_events l = [])
    \<and> (case patron_to_entity r3 of Inl _ \<Rightarrow> True
      | Inr p \<Rightarrow> patron_wf p \<and> patron_version p = pr_version r3 \<and> patron_events p = [])"
  using book_to_entity_wf loan_to_entity_wf patron_to_entity_wf by (auto split: sum.splits)

end
