(* ===== verification/DatabaseProps.thy ===== *)
theory DatabaseProps
  imports Database RowProps
begin

text \<open>
  What the persistence layer guarantees to the handlers: every commit keeps the schemas, an
  update prepared from a version that has been replaced raises, no book has two outstanding
  loans and no reservation two loans, and a receipt is found again under its key.
\<close>

section \<open>Commits keep the schemas\<close>

lemma rmap_Inr [simp]: "rmap f r = Inr y \<longleftrightarrow> (\<exists>x. r = Inr x \<and> y = f x)"
  by (cases r) (auto simp: rmap_def)

lemma rmap_Inr_eq [simp]: "rmap f (Inr x) = Inr (f x)" "rmap f (Inl e) = Inl e"
  by (simp_all add: rmap_def)

lemma update_book_Inr:
  assumes "update_book i e row d = Inr d'"
  obtains rows n where "d' = d\<lparr>books := rows\<rparr>" "n \<noteq> 0"
    "update_where book_schema (\<lambda>r. br_id r = i \<and> br_version r = e)
             (\<lambda>r. r\<lparr>br_status := br_status row, br_reserved_at := br_reserved_at row,
                    br_borrowed_at := br_borrowed_at row, br_return_due_date := br_return_due_date row,
                    br_reservation_id := br_reservation_id row,
                    br_reservation_generation := br_reservation_generation row,
                    br_reserved_patron_id := br_reserved_patron_id row,
                    br_reserved_patron_email := br_reserved_patron_email row,
                    br_current_loan_id := br_current_loan_id row,
                    br_last_completed_loan_id := br_last_completed_loan_id row,
                    br_version := e + 1\<rparr>) (books d) = Inr (rows, n)"
  using assms unfolding update_book_def
  by (auto split: sum.splits if_splits option.splits)

lemma update_loan_Inr:
  assumes "update_loan i e row d = Inr d'"
  obtains rows n where "d' = d\<lparr>loans := rows\<rparr>" "n \<noteq> 0"
    "update_where loan_schema (\<lambda>r. lr_id r = i \<and> lr_version r = e)
             (\<lambda>r. r\<lparr>lr_status := lr_status row, lr_returned_at := lr_returned_at row,
                    lr_due_date := lr_due_date row, lr_version := e + 1\<rparr>) (loans d) = Inr (rows, n)"
  using assms unfolding update_loan_def
  by (auto split: sum.splits if_splits option.splits)

lemma update_patron_Inr:
  assumes "update_patron i e row d = Inr d'"
  obtains rows n where "d' = d\<lparr>patrons := rows\<rparr>" "n \<noteq> 0"
    "update_where patron_schema (\<lambda>r. pr_id r = i \<and> pr_version r = e)
             (\<lambda>r. r\<lparr>pr_first_name := pr_first_name row, pr_last_name := pr_last_name row,
                    pr_email := pr_email row, pr_membership_tier := pr_membership_tier row,
                    pr_is_suspended := pr_is_suspended row,
                    pr_suspended_reason := pr_suspended_reason row, pr_version := e + 1\<rparr>) (patrons d) = Inr (rows, n)"
  using assms unfolding update_patron_def
  by (auto split: sum.splits if_splits option.splits)

lemma transition_operation_Inr:
  assumes "transition_operation i st b p g l f at d = Inr d'"
  obtains rows n sources where "d' = d\<lparr>operations := rows\<rparr>" "n \<noteq> 0" "allowed_sources st = Some sources"
    "update_where operation_schema
       (\<lambda>r. operation_id r = i \<and> op_book_id r = b \<and> op_patron_id r = p
          \<and> op_generation r = g \<and> op_status r \<in> set sources)
       (\<lambda>r. r\<lparr>op_status := st, op_loan_id := l, op_failure_reason := f, op_updated_at := at\<rparr>)
       (operations d) = Inr (rows, n)"
  using assms unfolding transition_operation_def
  by (auto split: sum.splits if_splits option.splits)

lemma update_book_ok: "db_ok d \<Longrightarrow> update_book i v r d = Inr d' \<Longrightarrow> db_ok d'"
  by (erule update_book_Inr) (simp add: db_ok_def, blast intro: update_where_ok)

lemma update_loan_ok: "db_ok d \<Longrightarrow> update_loan i v r d = Inr d' \<Longrightarrow> db_ok d'"
  by (erule update_loan_Inr) (simp add: db_ok_def, blast intro: update_where_ok)

lemma update_patron_ok: "db_ok d \<Longrightarrow> update_patron i v r d = Inr d' \<Longrightarrow> db_ok d'"
  by (erule update_patron_Inr) (simp add: db_ok_def, blast intro: update_where_ok)

lemma transition_operation_ok:
  "db_ok d \<Longrightarrow> transition_operation i st b p g l f at d = Inr d' \<Longrightarrow> db_ok d'"
  by (erule transition_operation_Inr) (simp add: db_ok_def, blast intro: update_where_ok)

lemma exec_stmt_ok: "db_ok d \<Longrightarrow> exec_stmt s d = Inr d' \<Longrightarrow> db_ok d'"
  by (cases s) (simp_all, (erule (1) update_book_ok update_loan_ok update_patron_ok transition_operation_ok)+)

lemma exec_all_ok: "db_ok d \<Longrightarrow> exec_all ss d = Inr d' \<Longrightarrow> db_ok d'"
  by (induction ss arbitrary: d) (auto elim!: rbindE dest: exec_stmt_ok)

lemma flush_insert_ok: "db_ok d \<Longrightarrow> flush_insert i d = Inr d' \<Longrightarrow> db_ok d'"
  by (cases i) (auto simp: db_ok_def intro: insert_row_ok)

lemma flush_all_ok: "db_ok d \<Longrightarrow> flush_all is d = Inr d' \<Longrightarrow> db_ok d'"
  by (induction "is" arbitrary: d) (auto elim!: rbindE dest: flush_insert_ok)

lemma commit_Inr: "commit u p d = Inr d' \<longleftrightarrow> (\<exists>d1. exec_all (fst p) d = Inr d1 \<and> flush_all (snd p) d1 = Inr d')"
  by (cases "exec_all (fst p) d"; cases "flush_all (snd p) (projr (exec_all (fst p) d))") (auto simp: commit_def)

lemma commit_ok: "db_ok d \<Longrightarrow> commit u p d = Inr d' \<Longrightarrow> db_ok d'"
  by (auto simp: commit_Inr dest: exec_all_ok flush_all_ok)

lemma run_tx_Inr:
  "run_tx u body s d = Inr (d', r) \<longleftrightarrow> (\<exists>p. body s = Inr (p, r) \<and> commit u p d = Inr d')"
  by (auto simp: run_tx_def result_simps)

section \<open>Keys\<close>

lemma books_key: "db_ok d \<Longrightarrow> distinct (map br_id (books d))"
  using index_distinct [of book_schema "books d" "''books_pkey''" "\<lambda>r. Some [br_id r]"]
  by (simp add: db_ok_def book_schema_def map_filter_Some distinct_map inj_on_def)

lemma loans_key: "db_ok d \<Longrightarrow> distinct (map lr_id (loans d))"
  using index_distinct [of loan_schema "loans d" "''loans_pkey''" "\<lambda>r. Some [lr_id r]"]
  by (simp add: db_ok_def loan_schema_def map_filter_Some distinct_map inj_on_def)

lemma loans_reservation_key: "db_ok d \<Longrightarrow> distinct (map lr_reservation_id (loans d))"
  using index_distinct [of loan_schema "loans d" "''ix_loans_reservation_id_unique''" "\<lambda>r. Some [lr_reservation_id r]"]
  by (simp add: db_ok_def loan_schema_def map_filter_Some distinct_map inj_on_def)

lemma patrons_key: "db_ok d \<Longrightarrow> distinct (map pr_id (patrons d))"
  using index_distinct [of patron_schema "patrons d" "''patrons_pkey''" "\<lambda>r. Some [pr_id r]"]
  by (simp add: db_ok_def patron_schema_def map_filter_Some distinct_map inj_on_def)

lemma patrons_email_key: "db_ok d \<Longrightarrow> distinct (map pr_email (patrons d))"
  using index_distinct [of patron_schema "patrons d" "''ix_patrons_email''" "\<lambda>r. Some [pr_email r]"]
  by (simp add: db_ok_def patron_schema_def map_filter_Some distinct_map inj_on_def)

lemma operations_key: "db_ok d \<Longrightarrow> distinct (map operation_id (operations d))"
  using index_distinct [of operation_schema "operations d" "''borrow_operations_pkey''" "\<lambda>r. Some [operation_id r]"]
  by (simp add: db_ok_def operation_schema_def map_filter_Some distinct_map inj_on_def)

lemma receipts_key: "db_ok d \<Longrightarrow> distinct (map (\<lambda>r. (scope r, receipt_key r)) (receipts d))"
  using index_distinct [of receipt_schema "receipts d" "''command_receipts_pkey''" "\<lambda>r. Some [scope r, receipt_key r]"]
  by (simp add: db_ok_def receipt_schema_def map_filter_Some distinct_map inj_on_def)

lemma outbox_key: "db_ok d \<Longrightarrow> distinct (map ob_id (outbox d))"
  using index_distinct [of outbox_schema "outbox d" "''outbox_pkey''" "\<lambda>r. Some [ob_id r]"]
  by (simp add: db_ok_def outbox_schema_def map_filter_Some distinct_map inj_on_def)

lemma distinct_map_eq: "distinct (map f xs) \<Longrightarrow> x \<in> set xs \<Longrightarrow> y \<in> set xs \<Longrightarrow> f x = f y \<Longrightarrow> x = y"
  by (auto simp: distinct_map dest: inj_onD)

lemma filter_key: "distinct (map f xs) \<Longrightarrow> x \<in> set xs \<Longrightarrow> f x = k \<Longrightarrow> filter (\<lambda>y. f y = k) xs = [x]"
proof (induction xs)
  case (Cons y ys)
  show ?case
  proof (cases "y = x")
    case True
    with Cons.prems have "\<forall>z\<in>set ys. f z \<noteq> k" by (metis distinct.simps(2) image_eqI list.set_map list.simps(9))
    with True Cons.prems show ?thesis by (simp add: filter_empty_conv)
  next
    case False
    with Cons have "x \<in> set ys" "f y \<noteq> k" by auto
    with Cons show ?thesis by simp
  qed
qed simp

lemma map_filter_distinct_eq:
  assumes "distinct (List.map_filter k rows)" and "r \<in> set rows" and "r' \<in> set rows"
    and "k r = Some v" and "k r' = Some v"
  shows "r = r'"
proof -
  from assms(2,3) obtain i j where "i < length rows" "rows ! i = r" "j < length rows" "rows ! j = r'"
    by (auto simp: in_set_conv_nth)
  with distinct_map_filter_inj [OF assms(1), of i j v] assms(4,5) show ?thesis by auto
qed

text \<open>The constant of the repository and the predicate of the partial index agree.\<close>

lemma outstanding_iff: "outstanding r \<longleftrightarrow> lr_status r \<notin> {''returned'', ''cancelled''}"
  by (simp add: outstanding_def terminal_loan_statuses_def)

lemma outstanding_unique:
  assumes "db_ok d" and "r \<in> set (loans d)" and "r' \<in> set (loans d)"
    and "outstanding r" and "outstanding r'" and "lr_catalog_book_id r = lr_catalog_book_id r'"
  shows "r = r'"
proof -
  have "distinct (List.map_filter (\<lambda>r. if lr_status r \<in> {''returned'', ''cancelled''} then None
      else Some [lr_catalog_book_id r]) (loans d))"
    using assms(1) by (intro index_distinct [of loan_schema _ "''ix_loans_outstanding_book_unique''"])
      (simp_all add: db_ok_def loan_schema_def)
  from map_filter_distinct_eq [OF this assms(2,3)] assms(4-6) show ?thesis
    by (simp add: outstanding_iff)
qed

section \<open>The optimistic lock of the three repositories\<close>

definition book_version_of :: "db \<Rightarrow> string \<Rightarrow> int option" where
  "book_version_of d i = map_option br_version (find (\<lambda>r. br_id r = i) (books d))"

definition loan_version_of :: "db \<Rightarrow> string \<Rightarrow> int option" where
  "loan_version_of d i = map_option lr_version (find (\<lambda>r. lr_id r = i) (loans d))"

definition patron_version_of :: "db \<Rightarrow> string \<Rightarrow> int option" where
  "patron_version_of d i = map_option pr_version (find (\<lambda>r. pr_id r = i) (patrons d))"

lemma update_book_versions:
  assumes "db_ok d" and "update_book i e row d = Inr d'"
  shows "book_version_of d i = Some e \<and> book_version_of d' i = Some (e + 1)
    \<and> (\<forall>j. j \<noteq> i \<longrightarrow> book_version_of d' j = book_version_of d j)"
  using assms(2)
proof (rule update_book_Inr)
  fix rows n
  assume d': "d' = d\<lparr>books := rows\<rparr>" and n: "n \<noteq> 0" and u: "update_where book_schema (\<lambda>r. br_id r = i \<and> br_version r = e) (\<lambda>r. r\<lparr>br_status := br_status row, br_reserved_at := br_reserved_at row, br_borrowed_at := br_borrowed_at row, br_return_due_date := br_return_due_date row, br_reservation_id := br_reservation_id row, br_reservation_generation := br_reservation_generation row, br_reserved_patron_id := br_reserved_patron_id row, br_reserved_patron_email := br_reserved_patron_email row, br_current_loan_id := br_current_loan_id row, br_last_completed_loan_id := br_last_completed_loan_id row, br_version := e + 1\<rparr>) (books d) = Inr (rows, n)"
  from versioned_update [OF books_key [OF assms(1)] u n] d' show ?thesis
    by (auto simp: book_version_of_def)
qed

interpretation book_lock: versioned_table update_book book_version_of db_ok
  by unfold_locales (auto dest: update_book_ok update_book_versions)

lemma update_loan_versions:
  assumes "db_ok d" and "update_loan i e row d = Inr d'"
  shows "loan_version_of d i = Some e \<and> loan_version_of d' i = Some (e + 1)
    \<and> (\<forall>j. j \<noteq> i \<longrightarrow> loan_version_of d' j = loan_version_of d j)"
  using assms(2)
proof (rule update_loan_Inr)
  fix rows n
  assume d': "d' = d\<lparr>loans := rows\<rparr>" and n: "n \<noteq> 0" and u: "update_where loan_schema (\<lambda>r. lr_id r = i \<and> lr_version r = e) (\<lambda>r. r\<lparr>lr_status := lr_status row, lr_returned_at := lr_returned_at row, lr_due_date := lr_due_date row, lr_version := e + 1\<rparr>) (loans d) = Inr (rows, n)"
  from versioned_update [OF loans_key [OF assms(1)] u n] d' show ?thesis
    by (auto simp: loan_version_of_def)
qed

interpretation loan_lock: versioned_table update_loan loan_version_of db_ok
  by unfold_locales (auto dest: update_loan_ok update_loan_versions)

lemma update_patron_versions:
  assumes "db_ok d" and "update_patron i e row d = Inr d'"
  shows "patron_version_of d i = Some e \<and> patron_version_of d' i = Some (e + 1)
    \<and> (\<forall>j. j \<noteq> i \<longrightarrow> patron_version_of d' j = patron_version_of d j)"
  using assms(2)
proof (rule update_patron_Inr)
  fix rows n
  assume d': "d' = d\<lparr>patrons := rows\<rparr>" and n: "n \<noteq> 0" and u: "update_where patron_schema (\<lambda>r. pr_id r = i \<and> pr_version r = e) (\<lambda>r. r\<lparr>pr_first_name := pr_first_name row, pr_last_name := pr_last_name row, pr_email := pr_email row, pr_membership_tier := pr_membership_tier row, pr_is_suspended := pr_is_suspended row, pr_suspended_reason := pr_suspended_reason row, pr_version := e + 1\<rparr>) (patrons d) = Inr (rows, n)"
  from versioned_update [OF patrons_key [OF assms(1)] u n] d' show ?thesis
    by (auto simp: patron_version_of_def)
qed

interpretation patron_lock: versioned_table update_patron patron_version_of db_ok
  by unfold_locales (auto dest: update_patron_ok update_patron_versions)

section \<open>Rows of well-formed aggregates\<close>

lemma row_error_None:
  "row_error sch r = None \<longleftrightarrow>
     first_violation (column_types sch r) = None \<and> first_violation (constraints sch r) = None"
  by (simp add: row_error_def del: first_violation_None split: option.splits)

lemma book_row_error:
  "book_wf b \<Longrightarrow> int4 (reservation_generation b) \<Longrightarrow> int4 (book_version b) \<Longrightarrow> 0 \<le> book_version b \<Longrightarrow>
     row_error book_schema (book_from_entity b) = None"
  using book_row_ok [of b] by (simp add: row_error_None book_schema_def del: first_violation_None)

lemma loan_row_error:
  "loan_wf l \<Longrightarrow> int4 (loan_reservation_generation l) \<Longrightarrow> int4 (loan_version l) \<Longrightarrow> 0 \<le> loan_version l \<Longrightarrow>
     row_error loan_schema (loan_from_entity l) = None"
  using loan_row_ok [of l] by (simp add: row_error_None loan_schema_def del: first_violation_None)

lemma patron_row_error:
  "patron_wf p \<Longrightarrow> int4 (patron_version p) \<Longrightarrow> 0 \<le> patron_version p \<Longrightarrow>
     row_error patron_schema (patron_from_entity p) = None"
  using patron_row_ok [of p] by (simp add: row_error_None patron_schema_def del: first_violation_None)

section \<open>Properties\<close>

definition sample_db :: db where
  "sample_db = \<lparr>books = [book_from_entity sample_book], loans = [],
     patrons = [patron_from_entity sample_patron], operations = [], receipts = [], outbox = [],
     server_now = 7\<rparr>"

lemma table_ok_Nil: "table_ok sch []"
  by (auto simp: table_ok_def index_error_None map_filter_simps)

lemma table_ok_single: "row_error sch r = None \<Longrightarrow> table_ok sch [r]"
  by (auto simp: table_ok_def index_error_None map_filter_simps split: option.splits)

lemma sample_book_table: "table_ok book_schema [book_from_entity sample_book]"
  by (rule table_ok_single, rule book_row_error [OF sample_book_wf])
    (simp_all add: int4_def sample_book_def)

lemma sample_patron_table: "table_ok patron_schema [patron_from_entity sample_patron]"
  by (rule table_ok_single, rule patron_row_error [OF sample_patron_wf])
    (simp_all add: int4_def sample_patron_def)

lemma sample_loan_table: "table_ok loan_schema [loan_from_entity sample_loan]"
  by (rule table_ok_single, rule loan_row_error [OF sample_loan_wf])
    (simp_all add: int4_def sample_loan_def)

lemma sample_db_ok: "db_ok sample_db"
  by (simp add: db_ok_def sample_db_def sample_book_table sample_patron_table table_ok_Nil)

lemma sample_loan_db_ok: "db_ok (sample_db\<lparr>loans := [loan_from_entity sample_loan]\<rparr>)"
  using sample_db_ok sample_loan_table by (simp add: db_ok_def)

text \<open>
  A database that satisfies its schemas (column types, check constraints, unique
  indexes) still satisfies them after any committed transaction of any unit of work.
\<close>

theorem commit_keeps_schema:
  assumes "db_ok d" and "run_tx u body snapshot d = Inr (d', r)"
  shows "db_ok d'"
  using assms commit_ok by (auto simp: run_tx_Inr)

lemma sample_commit:
  "run_tx LendingUow (\<lambda>_. Inr (([], [InsLoan (loan_from_entity sample_loan)]), ())) sample_db sample_db
     = Inr (sample_db\<lparr>loans := [loan_from_entity sample_loan]\<rparr>, ())"
  using sample_loan_table
  by (simp add: run_tx_def commit_def insert_row_def table_ok_def sample_db_def)

theorem commit_keeps_schema_witness: "db_ok (sample_db\<lparr>loans := [loan_from_entity sample_loan]\<rparr>)"
  by (rule commit_keeps_schema [OF sample_db_ok sample_commit])

text \<open>
  C8: no update is lost. Two transactions that read a book, a loan or a patron at the same
  version cannot both write it: once the first has committed, the update of the second
  raises, no matter which other updates of any rows commit in between.
\<close>

theorem no_lost_updates:
  assumes "db_ok d"
  shows "(update_book i e row d = Inr d1 \<longrightarrow> (\<exists>x. update_book i e row' (run_updates update_book us d1) = Inl x))
    \<and> (update_loan j f lrow d = Inr d2 \<longrightarrow> (\<exists>x. update_loan j f lrow' (run_updates update_loan ls d2) = Inl x))
    \<and> (update_patron k g prow d = Inr d3 \<longrightarrow>
         (\<exists>x. update_patron k g prow' (run_updates update_patron ps d3) = Inl x))"
  using book_lock.no_lost_update [OF assms] loan_lock.no_lost_update [OF assms]
    patron_lock.no_lost_update [OF assms] by blast

lemma sample_update_loan:
  "\<exists>d. update_loan ''loan-1'' 0 (loan_from_entity sample_loan) (sample_db\<lparr>loans := [loan_from_entity sample_loan]\<rparr>) = Inr d"
proof -
  have "loan_wf (sample_loan\<lparr>loan_version := 1\<rparr>)" using sample_loan_wf by (simp add: loan_wf_def)
  then have "row_error loan_schema (loan_from_entity (sample_loan\<lparr>loan_version := 1\<rparr>)) = None"
    by (rule loan_row_error) (simp_all add: int4_def sample_loan_def)
  then have "row_error loan_schema ((loan_from_entity sample_loan)\<lparr>lr_version := 1\<rparr>) = None"
    by (simp add: loan_from_entity_def)
  then show ?thesis
    by (simp add: update_loan_def update_where_def map_filter_simps index_error_def first_violation_def
        loan_schema_def loan_from_entity_def sample_loan_def)
qed

theorem no_lost_updates_witness:
  "\<exists>d x. update_loan ''loan-1'' 0 (loan_from_entity sample_loan) (sample_db\<lparr>loans := [loan_from_entity sample_loan]\<rparr>) = Inr d
     \<and> update_loan ''loan-1'' 0 (loan_from_entity sample_loan) d = Inl x"
proof -
  obtain d where d: "update_loan ''loan-1'' 0 (loan_from_entity sample_loan)
      (sample_db\<lparr>loans := [loan_from_entity sample_loan]\<rparr>) = Inr d" using sample_update_loan by blast
  with no_lost_updates [OF sample_loan_db_ok, where us = "[]" and ls = "[]" and ps = "[]"]
  show ?thesis by fastforce
qed

text \<open>
  C22: the race for a book or a reservation is reported as such. When a loan for the same
  reservation, or an outstanding one for the same book, is already stored, inserting a valid
  loan with a fresh identity fails with \<open>ConcurrentLoanCreationException\<close> naming the loser's
  reservation and book, and nothing is written.
\<close>

theorem loan_race_is_reported:
  assumes "r' \<in> set (loans d)" and "row_error loan_schema r = None"
    and "distinct (map lr_id (loans d @ [r]))"
    and "lr_reservation_id r' = lr_reservation_id r
      \<or> (outstanding r \<and> outstanding r' \<and> lr_catalog_book_id r' = lr_catalog_book_id r)"
  shows "commit LendingUow ([], InsLoan r # rest) d
    = Inl (Lending (ConcurrentLoanCreationException (lr_reservation_id r) (lr_catalog_book_id r)))"
proof -
  let ?k = "\<lambda>r. if lr_status r \<in> {''returned'', ''cancelled''} then None else Some [lr_catalog_book_id r]"
  let ?rows = "loans d @ [r]"
  have "map (\<lambda>r. [lr_id r]) ?rows = map (\<lambda>x. [x]) (map lr_id ?rows)" by simp
  with assms(3) have pk: "distinct (map (\<lambda>r. [lr_id r]) ?rows)"
    by (simp only: distinct_map) (simp add: inj_on_def)
  have mem: "v \<in> set (List.map_filter f (loans d))" if "f r' = Some v" for f v
    using that assms(1) by (auto simp: set_map_filter)
  have app: "List.map_filter f (xs @ [r]) = List.map_filter f xs @ (case f r of None \<Rightarrow> [] | Some v \<Rightarrow> [v])"
    for f :: "loan_row \<Rightarrow> string list option" and xs
    by (induction xs) (auto simp: map_filter_simps split: option.splits)
  have dup: "\<not> distinct (List.map_filter (\<lambda>r. Some [lr_reservation_id r]) ?rows)
      \<or> \<not> distinct (List.map_filter ?k ?rows)"
    using assms(4)
  proof
    assume "lr_reservation_id r' = lr_reservation_id r"
    then show ?thesis using mem [of "\<lambda>r. Some [lr_reservation_id r]"] by (auto simp: app)
  next
    assume "outstanding r \<and> outstanding r' \<and> lr_catalog_book_id r' = lr_catalog_book_id r"
    then show ?thesis using mem [of ?k "[lr_catalog_book_id r]"] by (auto simp: app outstanding_iff)
  qed
  then have "index_error loan_schema ?rows \<in> Some ` IntegrityError `
      {''ix_loans_reservation_id_unique'', ''ix_loans_outstanding_book_unique''}"
    using pk by (auto simp: index_error_def first_violation_def loan_schema_def map_filter_Some)
  then obtain c where c: "index_error loan_schema ?rows = Some (IntegrityError c)"
    "c = ''ix_loans_reservation_id_unique'' \<or> c = ''ix_loans_outstanding_book_unique''" by auto
  have "\<not> sublist ''command_receipts'' c" using c(2) by (auto simp: sublist_code)
  moreover have "sublist ''ix_loans_outstanding_book_unique'' c \<or> sublist ''ix_loans_reservation_id_unique'' c"
    using c(2) by auto
  moreover have "added_loan (InsLoan r # rest) = (lr_reservation_id r, lr_catalog_book_id r)"
    by (simp add: added_loan_def map_filter_simps)
  ultimately show ?thesis using c(1) assms(2)
    by (simp add: commit_def insert_row_def translate_integrity_def)
qed

theorem loan_race_is_reported_witness:
  "commit LendingUow ([], [InsLoan (loan_from_entity (sample_loan\<lparr>loan_id := ''book-1''\<rparr>))])
     (sample_db\<lparr>loans := [loan_from_entity sample_loan]\<rparr>)
   = Inl (Lending (ConcurrentLoanCreationException sample_uuid ''book-1''))"
proof -
  have "loan_wf (sample_loan\<lparr>loan_id := ''book-1''\<rparr>)" using sample_loan_wf by (simp add: loan_wf_def)
  then have e: "row_error loan_schema (loan_from_entity (sample_loan\<lparr>loan_id := ''book-1''\<rparr>)) = None"
    by (rule loan_row_error) (simp_all add: int4_def sample_loan_def)
  from loan_race_is_reported [of "loan_from_entity sample_loan" _, OF _ e, of _ "[]"]
  show ?thesis by (simp add: loan_from_entity_def sample_loan_def)
qed

end
