(* ===== verification/IdempotentCommands.thy ===== *)
theory IdempotentCommands
  imports LendingHandlers PatronHandlers DatabaseProps
begin

text \<open>
  The contract of a command with an idempotency key, as a locale: a stored receipt is
  answered without any effect, and a run that finds none stores one. Each of the eight keyed
  handlers is an instance. From the contract alone: a committed command is executed once,
  whatever is committed afterwards and however often it is retried.
\<close>

section \<open>Receipts\<close>

lemma exec_stmt_receipts: "exec_stmt s d = Inr d' \<Longrightarrow> receipts d' = receipts d"
  by (cases s) (auto elim!: update_book_Inr update_loan_Inr update_patron_Inr transition_operation_Inr)

lemma exec_all_receipts: "exec_all ss d = Inr d' \<Longrightarrow> receipts d' = receipts d"
  by (induction ss arbitrary: d) (auto elim!: rbindE dest: exec_stmt_receipts)

lemma flush_insert_receipts:
  "flush_insert i d = Inr d' \<Longrightarrow> set (receipts d) \<subseteq> set (receipts d')
     \<and> (\<forall>rc. i = InsReceipt rc \<longrightarrow> rc \<in> set (receipts d'))"
  by (cases i) (auto simp: insert_row_Inr)

lemma flush_all_receipts:
  "flush_all is d = Inr d' \<Longrightarrow> set (receipts d) \<subseteq> set (receipts d')
     \<and> (\<forall>rc. InsReceipt rc \<in> set is \<longrightarrow> rc \<in> set (receipts d'))"
proof (induction "is" arbitrary: d)
  case (Cons i "is")
  then obtain d1 where "flush_insert i d = Inr d1" "flush_all is d1 = Inr d'" by (auto elim: rbindE)
  with Cons.IH flush_insert_receipts show ?case by fastforce
qed simp

lemma commit_receipts:
  "commit u p d = Inr d' \<Longrightarrow> set (receipts d) \<subseteq> set (receipts d')
     \<and> (\<forall>rc. InsReceipt rc \<in> set (snd p) \<longrightarrow> rc \<in> set (receipts d'))"
  using exec_all_receipts flush_all_receipts by (fastforce simp: commit_Inr)

lemma get_receipt_stored:
  assumes "db_ok d" and "rc \<in> set (receipts d)"
  shows "get_receipt d (scope rc) (receipt_key rc) = Inr (Some rc)"
  using filter_key [OF receipts_key [OF assms(1)] assms(2), of "(scope rc, receipt_key rc)"]
  by (simp add: get_receipt_def scalar_one_or_none_def)

section \<open>The contract\<close>

text \<open>
  \<open>ident e c\<close> is what the handler computes before its transaction: the normalised key and
  the fingerprint of the request, or the exception that stops it there.
\<close>

locale keyed_handler =
  fixes run :: "env \<Rightarrow> 'c \<Rightarrow> db \<Rightarrow> exn + plan \<times> response"
    and ident :: "env \<Rightarrow> 'c \<Rightarrow> exn + string option \<times> string"
    and sc :: string
  assumes replays: "ident e c = Inr (Some k, h) \<Longrightarrow> get_receipt d sc k = Inr (Some rc) \<Longrightarrow>
      run e c d = rbind (require_matching_receipt rc h) (\<lambda>r. Inr (([], []), r))"
    and records: "ident e c = Inr (Some k, h) \<Longrightarrow> run e c d = Inr (p, r) \<Longrightarrow>
      get_receipt d sc k = Inr None \<Longrightarrow>
      InsReceipt \<lparr>scope = sc, receipt_key = k, request_hash = h, response = r\<rparr> \<in> set (snd p)"
    and reads: "ident e c = Inr (Some k, h) \<Longrightarrow> run e c d = Inr x \<Longrightarrow> \<exists>found. get_receipt d sc k = Inr found"
begin

lemma receipt_after:
  assumes "ident e c = Inr (Some k, h)" and "run e c s = Inr (p, r)" and "commit u p d = Inr d'"
    and "set (receipts s) \<subseteq> set (receipts d)"
  shows "\<exists>rc\<in>set (receipts d'). scope rc = sc \<and> receipt_key rc = k \<and> request_hash rc = h \<and> response rc = r"
proof -
  obtain found where found: "get_receipt s sc k = Inr found" using reads [OF assms(1,2)] by blast
  show ?thesis
  proof (cases found)
    case None
    with records [OF assms(1,2)] found commit_receipts [OF assms(3)] show ?thesis by force
  next
    case (Some rc)
    with replays [OF assms(1)] found assms(2) have "request_hash rc = h" "response rc = r"
      by (auto simp: matching_receipt_Inr elim!: rbindE)
    moreover have "rc \<in> set (receipts s)" "scope rc = sc" "receipt_key rc = k"
      using found Some filter_set [of _ "receipts s"]
      by (auto simp: get_receipt_def scalar_one_or_none_def split: list.splits
          dest!: arg_cong [of "filter _ _" _ set])
    ultimately show ?thesis using commit_receipts [OF assms(3)] assms(4) by blast
  qed
qed

lemma retried:
  assumes "ident e c = Inr (Some k, h)" and "run e c s = Inr (p, r)" and "commit u p d = Inr d'"
    and "set (receipts s) \<subseteq> set (receipts d)" and "set (receipts d') \<subseteq> set (receipts d2)" and "db_ok d2"
    and "ident e2 c2 = Inr (Some k, h2)"
  shows "run e2 c2 d2 = (if h2 = h then Inr (([], []), r)
     else Inl (App (IdempotencyKeyConflictException k ''request fingerprint differs'')))"
proof -
  obtain rc where rc: "rc \<in> set (receipts d')" "scope rc = sc" "receipt_key rc = k" "request_hash rc = h" "response rc = r"
    using receipt_after [OF assms(1-4)] by blast
  then have "get_receipt d2 sc k = Inr (Some rc)"
    using get_receipt_stored [OF assms(6), of rc] assms(5) by auto
  from replays [OF assms(7) this] rc show ?thesis by (auto simp: require_matching_receipt_def)
qed

end

section \<open>The eight keyed commands\<close>

definition identify_add_book :: "env \<Rightarrow> add_book_command \<Rightarrow> exn + string option \<times> string" where
  "identify_add_book e c =
     rbind (mk_title (ab_title c)) (\<lambda>t. rbind (mk_author (ab_author c)) (\<lambda>au.
     rbind (command_key (ab_key c)) (\<lambda>key.
     Inr (key, command_fingerprint (sha256 e) [(''title'', JStr t), (''author'', JStr au)]))))"

definition identify_borrow_book :: "env \<Rightarrow> borrow_book_command \<Rightarrow> exn + string option \<times> string" where
  "identify_borrow_book e c =
     rbind (command_key (bb_key c)) (\<lambda>key. rbind (email_address (bb_borrower_email c)) (\<lambda>email.
     Inr (key, command_fingerprint (sha256 e)
               [(''book_id'', JStr (py_strip (bb_book_id c))), (''borrower_email'', JStr email)])))"

definition identify_return_loan :: "env \<Rightarrow> return_loan_command \<Rightarrow> exn + string option \<times> string" where
  "identify_return_loan e c =
     rbind (command_key (rl_key c)) (\<lambda>key.
     Inr (key, command_fingerprint (sha256 e) [(''loan_id'', JStr (py_strip (rl_loan_id c)))]))"

definition identify_extend_loan :: "env \<Rightarrow> extend_loan_command \<Rightarrow> exn + string option \<times> string" where
  "identify_extend_loan e c =
     rbind (command_key (xl_key c)) (\<lambda>key.
     Inr (key, command_fingerprint (sha256 e)
               [(''loan_id'', JStr (py_strip (xl_loan_id c))), (''days'', JInt (xl_days c))]))"

definition identify_register_patron :: "env \<Rightarrow> register_patron_command \<Rightarrow> exn + string option \<times> string" where
  "identify_register_patron e c =
     rbind (mk_patron_name (rp_first_name c) (rp_last_name c)) (\<lambda>(fname, lname).
     rbind (email_address (rp_email c)) (\<lambda>em.
     rbind (requested_tier (rp_membership_tier c)) (\<lambda>tier.
     rbind (command_key (rp_key c)) (\<lambda>key.
     Inr (key, command_fingerprint (sha256 e)
               [(''first_name'', JStr fname), (''last_name'', JStr lname), (''email'', JStr em),
                (''membership_tier'', JStr (tier_value tier))])))))"

definition identify_suspend_patron :: "env \<Rightarrow> suspend_patron_command \<Rightarrow> exn + string option \<times> string" where
  "identify_suspend_patron e c =
     rbind (command_key (sp_key c)) (\<lambda>key.
     Inr (key, command_fingerprint (sha256 e)
               [(''patron_id'', JStr (py_strip (sp_patron_id c))), (''reason'', JStr (squash (sp_reason c)))]))"

definition identify_reinstate_patron :: "env \<Rightarrow> reinstate_patron_command \<Rightarrow> exn + string option \<times> string" where
  "identify_reinstate_patron e c =
     rbind (command_key (ri_key c)) (\<lambda>key.
     Inr (key, command_fingerprint (sha256 e) [(''patron_id'', JStr (py_strip (ri_patron_id c)))]))"

definition identify_upgrade_tier :: "env \<Rightarrow> upgrade_patron_tier_command \<Rightarrow> exn + string option \<times> string" where
  "identify_upgrade_tier e c =
     rbind (requested_tier (up_new_tier c)) (\<lambda>tier.
     rbind (command_key (up_key c)) (\<lambda>key.
     Inr (key, command_fingerprint (sha256 e)
               [(''patron_id'', JStr (py_strip (up_patron_id c))), (''new_tier'', JStr (tier_value tier))])))"

lemma replay_Some:
  "get_receipt d sc k = Inr (Some rc) \<Longrightarrow>
     replay d sc (Some k) h = rbind (require_matching_receipt rc h) (\<lambda>r. Inr (Some r))"
  by (simp add: replay_def rmap_def)

lemma replay_None: "get_receipt d sc k = Inr None \<Longrightarrow> replay d sc (Some k) h = Inr None"
  by (simp add: replay_def)

lemma replay_reads: "replay d sc (Some k) h = Inr v \<Longrightarrow> \<exists>found. get_receipt d sc k = Inr found"
  by (auto simp: replay_def elim: rbindE)

lemma receipt_for_mem [simp]:
  "InsReceipt \<lparr>scope = sc, receipt_key = k, request_hash = h, response = r\<rparr> \<in> set (receipt_for sc (Some k) h r)"
  by (simp add: receipt_for_def)

lemma rbind_assoc: "rbind (rbind m f) g = rbind m (\<lambda>x. rbind (f x) g)"
  by (cases m) simp_all

text \<open>
  The contract follows from the three cases of the replay check, which each handler makes
  right after it has identified its command.
\<close>

lemma keyed_handlerI:
  assumes found: "\<And>e c k h d r. ident e c = Inr (Some k, h) \<Longrightarrow> replay d sc (Some k) h = Inr (Some r) \<Longrightarrow>
      run e c d = Inr (([], []), r)"
    and failed: "\<And>e c k h d x. ident e c = Inr (Some k, h) \<Longrightarrow> replay d sc (Some k) h = Inl x \<Longrightarrow>
      run e c d = Inl x"
    and fresh: "\<And>e c k h d p r. ident e c = Inr (Some k, h) \<Longrightarrow> replay d sc (Some k) h = Inr None \<Longrightarrow>
      run e c d = Inr (p, r) \<Longrightarrow>
      InsReceipt \<lparr>scope = sc, receipt_key = k, request_hash = h, response = r\<rparr> \<in> set (snd p)"
  shows "keyed_handler run ident sc"
proof
  fix e c k h d rc p r x
  assume i: "ident e c = Inr (Some k, h)"
  show "run e c d = rbind (require_matching_receipt rc h) (\<lambda>r. Inr (([], []), r))"
    if "get_receipt d sc k = Inr (Some rc)"
    using found [OF i] failed [OF i] replay_Some [OF that, of h]
    by (cases "require_matching_receipt rc h") simp_all
  show "InsReceipt \<lparr>scope = sc, receipt_key = k, request_hash = h, response = r\<rparr> \<in> set (snd p)"
    if "run e c d = Inr (p, r)" "get_receipt d sc k = Inr None"
    using fresh [OF i replay_None [OF that(2)] that(1)] .
  show "\<exists>found. get_receipt d sc k = Inr found" if "run e c d = Inr x"
    using failed [OF i, of d] that replay_reads by (cases "replay d sc (Some k) h") auto
qed

named_theorems handler_defs \<open>the handlers and their identification steps\<close>

declare add_book_def [handler_defs] identify_add_book_def [handler_defs]
  borrow_book_def [handler_defs] identify_borrow_book_def [handler_defs]
  return_loan_def [handler_defs] identify_return_loan_def [handler_defs]
  extend_loan_def [handler_defs] identify_extend_loan_def [handler_defs]
  register_patron_def [handler_defs] identify_register_patron_def [handler_defs]
  suspend_patron_def [handler_defs] identify_suspend_patron_def [handler_defs]
  reinstate_patron_def [handler_defs] identify_reinstate_patron_def [handler_defs]
  upgrade_patron_tier_def [handler_defs] identify_upgrade_tier_def [handler_defs]
  change_patron_def [handler_defs]

interpretation k_add_book: keyed_handler add_book identify_add_book "''catalog.add_book''"
  by (rule keyed_handlerI) (auto simp: handler_defs Let_def elim!: rbindE)

interpretation k_borrow_book: keyed_handler borrow_book identify_borrow_book "''catalog.borrow_book''"
  by (rule keyed_handlerI) (auto simp: handler_defs Let_def elim!: rbindE split: option.splits if_splits)

interpretation k_return_loan: keyed_handler return_loan identify_return_loan "''lending.return_loan''"
  by (rule keyed_handlerI) (auto simp: handler_defs Let_def elim!: rbindE split: option.splits)

interpretation k_extend_loan: keyed_handler extend_loan identify_extend_loan "''lending.extend_loan''"
  by (rule keyed_handlerI) (auto simp: handler_defs Let_def elim!: rbindE split: option.splits)

interpretation k_register: keyed_handler register_patron identify_register_patron "''patron.register''"
  by (rule keyed_handlerI) (auto simp: handler_defs Let_def elim!: rbindE split: option.splits)

interpretation k_suspend: keyed_handler suspend_patron identify_suspend_patron "''patron.suspend''"
  by (rule keyed_handlerI) (auto simp: handler_defs Let_def elim!: rbindE split: option.splits)

interpretation k_reinstate: keyed_handler reinstate_patron identify_reinstate_patron "''patron.reinstate''"
  by (rule keyed_handlerI) (auto simp: handler_defs Let_def elim!: rbindE split: option.splits)

interpretation k_upgrade: keyed_handler upgrade_patron_tier identify_upgrade_tier "''patron.upgrade_tier''"
  by (rule keyed_handlerI) (auto simp: handler_defs Let_def elim!: rbindE split: option.splits)

section \<open>Properties\<close>

datatype keyed_command =
    KAddBook add_book_command
  | KBorrowBook borrow_book_command
  | KReturnLoan return_loan_command
  | KExtendLoan extend_loan_command
  | KRegisterPatron register_patron_command
  | KSuspendPatron suspend_patron_command
  | KReinstatePatron reinstate_patron_command
  | KUpgradeTier upgrade_patron_tier_command

fun run_keyed :: "env \<Rightarrow> keyed_command \<Rightarrow> db \<Rightarrow> exn + plan \<times> response" where
  "run_keyed e (KAddBook c) d = add_book e c d"
| "run_keyed e (KBorrowBook c) d = borrow_book e c d"
| "run_keyed e (KReturnLoan c) d = return_loan e c d"
| "run_keyed e (KExtendLoan c) d = extend_loan e c d"
| "run_keyed e (KRegisterPatron c) d = register_patron e c d"
| "run_keyed e (KSuspendPatron c) d = suspend_patron e c d"
| "run_keyed e (KReinstatePatron c) d = reinstate_patron e c d"
| "run_keyed e (KUpgradeTier c) d = upgrade_patron_tier e c d"

fun identify_keyed :: "env \<Rightarrow> keyed_command \<Rightarrow> exn + string option \<times> string" where
  "identify_keyed e (KAddBook c) = identify_add_book e c"
| "identify_keyed e (KBorrowBook c) = identify_borrow_book e c"
| "identify_keyed e (KReturnLoan c) = identify_return_loan e c"
| "identify_keyed e (KExtendLoan c) = identify_extend_loan e c"
| "identify_keyed e (KRegisterPatron c) = identify_register_patron e c"
| "identify_keyed e (KSuspendPatron c) = identify_suspend_patron e c"
| "identify_keyed e (KReinstatePatron c) = identify_reinstate_patron e c"
| "identify_keyed e (KUpgradeTier c) = identify_upgrade_tier e c"

fun same_kind :: "keyed_command \<Rightarrow> keyed_command \<Rightarrow> bool" where
  "same_kind (KAddBook _) (KAddBook _) = True"
| "same_kind (KBorrowBook _) (KBorrowBook _) = True"
| "same_kind (KReturnLoan _) (KReturnLoan _) = True"
| "same_kind (KExtendLoan _) (KExtendLoan _) = True"
| "same_kind (KRegisterPatron _) (KRegisterPatron _) = True"
| "same_kind (KSuspendPatron _) (KSuspendPatron _) = True"
| "same_kind (KReinstatePatron _) (KReinstatePatron _) = True"
| "same_kind (KUpgradeTier _) (KUpgradeTier _) = True"
| "same_kind _ _ = False"

text \<open>Values for the witness: a patron is suspended under a key.\<close>

definition sample_env :: env where
  "sample_env = \<lparr>ambients = (\<lambda>_. sample_ambient), new_id = sample_uuid, clock_now = 10,
     sha256 = (\<lambda>_. replicate 64 CHR ''0'')\<rparr>"

definition sample_suspension :: suspend_patron_command where
  "sample_suspension = \<lparr>sp_patron_id = ''patron-1'', sp_reason = ''late'', sp_key = Some ''key-0001''\<rparr>"

lemma sample_squash: "squash ''late'' = ''late''"
  by (rule squash_word) (simp_all add: str_eval)

lemma sample_key: "command_key (Some ''key-0001'') = Inr (Some ''key-0001'')"
  by (simp add: command_key_def idempotency_key_def Let_def str_eval)

lemma sample_identify:
  "identify_suspend_patron sample_env sample_suspension = Inr (Some ''key-0001'', replicate 64 CHR ''0'')"
  by (simp add: identify_suspend_patron_def sample_suspension_def sample_key command_fingerprint_def sample_env_def)

definition suspended_sample :: patron where
  "suspended_sample = sample_patron\<lparr>is_suspended := True, suspended_reason := Some ''late'',
     patron_events := [sample_event (PatronEvent (PatronSuspended ''patron-1'' ''late''))]\<rparr>"

lemma suspended_sample_step: "suspend sample_ambient ''late'' (sample_patron\<lparr>patron_events := []\<rparr>) = Inr suspended_sample"
  by (simp add: suspend_def sample_patron_def suspended_sample_def sample_squash add_patron_event_def Let_def)

lemma sample_suspend_run:
  "\<exists>r. suspend_patron sample_env sample_suspension sample_db
     = Inr (([UpdatePatron ''patron-1'' 0 (patron_from_entity suspended_sample)],
         [InsReceipt \<lparr>scope = ''patron.suspend'', receipt_key = ''key-0001'',
            request_hash = replicate 64 CHR ''0'', response = r\<rparr>,
          InsOutbox (from_domain_event (sample_event (PatronEvent (PatronSuspended ''patron-1'' ''late''))) ''patron'' ''patron-1'')]), r)"
proof -
  have "patron_by_id sample_db ''patron-1'' = Inr (Some (sample_patron\<lparr>patron_events := []\<rparr>))"
    using patron_roundtrip [OF sample_patron_wf]
    by (simp add: patron_by_id_def sample_db_def scalar_one_or_none_def patron_from_entity_def sample_patron_def)
  then show ?thesis
    using suspended_sample_step
    by (simp add: suspend_patron_def change_patron_def replay_def get_receipt_def scalar_one_or_none_def
        sample_db_def sample_suspension_def sample_key sample_squash sample_env_def
        command_fingerprint_def receipt_for_def stage_patron_def suspended_sample_def sample_patron_def Let_def)
qed

lemma sample_suspend_commit:
  "\<exists>d. commit PatronUow ([UpdatePatron ''patron-1'' 0 (patron_from_entity suspended_sample)],
         [InsReceipt \<lparr>scope = ''patron.suspend'', receipt_key = ''key-0001'',
            request_hash = replicate 64 CHR ''0'', response = r\<rparr>,
          InsOutbox (from_domain_event (sample_event (PatronEvent (PatronSuspended ''patron-1'' ''late''))) ''patron'' ''patron-1'')]) sample_db = Inr d"
proof -
  have "patron_wf (suspended_sample\<lparr>patron_version := 1\<rparr>)"
    using sample_patron_wf by (simp add: patron_wf_def suspended_sample_def sample_patron_def sample_squash)
  then have "row_error patron_schema (patron_from_entity (suspended_sample\<lparr>patron_version := 1\<rparr>)) = None"
    by (rule patron_row_error) (simp_all add: int4_def)
  then have u: "\<exists>rows. update_patron ''patron-1'' 0 (patron_from_entity suspended_sample) sample_db
      = Inr (sample_db\<lparr>patrons := rows\<rparr>)"
    by (simp add: update_patron_def update_where_def map_filter_simps index_error_def first_violation_def
        patron_schema_def patron_from_entity_def sample_patron_def suspended_sample_def sample_db_def)
  have r: "insert_row receipt_schema \<lparr>scope = ''patron.suspend'', receipt_key = ''key-0001'',
      request_hash = replicate 64 CHR ''0'', response = r\<rparr> [] = Inr [\<lparr>scope = ''patron.suspend'',
      receipt_key = ''key-0001'', request_hash = replicate 64 CHR ''0'', response = r\<rparr>]"
    by (simp add: insert_row_def row_error_def index_error_def receipt_schema_def first_violation_def
        map_filter_simps between_def str_eval is_hex_def list_all_iff)
  have o: "\<exists>rows. insert_row outbox_schema ((from_domain_event (sample_event
      (PatronEvent (PatronSuspended ''patron-1'' ''late''))) ''patron'' ''patron-1'')\<lparr>ob_inserted_at := 7\<rparr>) [] = Inr rows"
    by (simp add: insert_row_def row_error_def index_error_def outbox_schema_def first_violation_def
        map_filter_simps from_domain_event_def sample_event_def aggregate_type_ok_def sql_ident_def str_eval)
  from u r o show ?thesis by (auto simp: commit_def sample_db_def)
qed

text \<open>
  C1: a keyed command is executed once. When a run of one of the eight commands has
  committed, any later command of the same kind with the same key, at any time and whatever
  else was committed, has no effect: with the same facts it is answered with the stored
  response, with others it is refused.
\<close>

theorem keyed_command_executes_once:
  assumes "identify_keyed e c = Inr (Some k, h)" and "run_keyed e c s = Inr (p, r)"
    and "commit u p d = Inr d'" and "set (receipts s) \<subseteq> set (receipts d)"
    and "set (receipts d') \<subseteq> set (receipts d2)" and "db_ok d2"
    and "identify_keyed e2 c2 = Inr (Some k, h2)" and "same_kind c c2"
  shows "run_keyed e2 c2 d2 = (if h2 = h then Inr (([], []), r)
     else Inl (App (IdempotencyKeyConflictException k ''request fingerprint differs'')))"
  using assms
  by (cases c; cases c2; simp only: same_kind.simps run_keyed.simps identify_keyed.simps)
    (erule (6) k_add_book.retried k_borrow_book.retried k_return_loan.retried k_extend_loan.retried
      k_register.retried k_suspend.retried k_reinstate.retried k_upgrade.retried)+

theorem keyed_command_executes_once_witness:
  "\<exists>d r. run_keyed sample_env (KSuspendPatron sample_suspension) d = Inr (([], []), r) \<and> db_ok d"
proof -
  from sample_suspend_run obtain p r where p: "suspend_patron sample_env sample_suspension sample_db = Inr (p, r)"
    and "\<exists>d. commit PatronUow p sample_db = Inr d" using sample_suspend_commit by blast
  then obtain d where d: "commit PatronUow p sample_db = Inr d" by blast
  have ok: "db_ok d" by (rule commit_ok [OF sample_db_ok d])
  have i: "identify_keyed sample_env (KSuspendPatron sample_suspension) = Inr (Some ''key-0001'', replicate 64 CHR ''0'')"
    by (simp only: identify_keyed.simps sample_identify)
  have run: "run_keyed sample_env (KSuspendPatron sample_suspension) sample_db = Inr (p, r)"
    by (simp only: run_keyed.simps p)
  from keyed_command_executes_once [OF i run d subset_refl subset_refl ok i] ok show ?thesis by auto
qed

end
