(* ===== verification/EventHandlers.thy ===== *)
theory EventHandlers
  imports LendingHandlers PatronHandlers
begin

text \<open>
  The application event handlers of the borrow workflow (\<open>src/application/event_handlers\<close>).
  As in the source, a handler is given the command operations it calls; an operation maps
  the world to the world it leaves and its outcome, so that whatever else runs between two
  operations of a handler is part of the operations. \<open>serial\<close> is the operation that runs a
  command handler as one transaction on the current database.
\<close>

type_synonym ('c, 'r, 'w) operation = "'c \<Rightarrow> 'w \<Rightarrow> 'w \<times> (exn + 'r)"

definition serial :: "uow \<Rightarrow> ('c \<Rightarrow> db \<Rightarrow> exn + plan \<times> 'r) \<Rightarrow> ('c, 'r, db) operation" where
  "serial u h c d = (case run_tx u (h c) d d of Inl x \<Rightarrow> (d, Inl x) | Inr (d', r) \<Rightarrow> (d', Inr r))"

section \<open>Which exceptions a handler treats as decided\<close>

fun stale_reservation_exn :: "exn \<Rightarrow> bool" where
  "stale_reservation_exn (Catalog (StaleReservationException _ _ _ _)) = True"
| "stale_reservation_exn _ = False"

fun stale_completion_exn :: "exn \<Rightarrow> bool" where
  "stale_completion_exn (Catalog (StaleLoanCompletionException _ _)) = True"
| "stale_completion_exn _ = False"

text \<open>The rejections \<open>CreateLoanOnBookReservedHandler\<close> compensates, with their messages.\<close>

fun business_rejection :: "exn \<Rightarrow> string option" where
  "business_rejection (Lending (BookNotAvailableException b)) =
     Some (''Book '' @ b @ '' is not available for checkout'')"
| "business_rejection (Lending (PatronBorrowingLimitReachedException p n)) =
     Some (''Patron '' @ p @ '' has reached the borrowing limit of '' @ show_int n)"
| "business_rejection (Lending (PatronNotEligibleForLoanException p why)) =
     Some (''Patron '' @ p @ '' is not eligible for a loan: '' @ why)"
| "business_rejection _ = None"

section \<open>Handlers\<close>

text \<open>The fields of \<open>CatalogBookReserved\<close>, in the order of its constructor.\<close>

fun create_loan_command_of :: "catalog_event \<Rightarrow> create_loan_command option" where
  "create_loan_command_of (CatalogBookReserved book ttl rid g p at em) =
     Some \<lparr>cl_reservation_id = rid, cl_reservation_generation = g, cl_patron_id = p,
           cl_patron_email = em, cl_catalog_book_id = book, cl_book_title = ttl,
           cl_borrowed_at = utc at\<rparr>"
| "create_loan_command_of _ = None"

fun release_command_of :: "catalog_event \<Rightarrow> string \<Rightarrow> release_book_reservation_command option" where
  "release_command_of (CatalogBookReserved book ttl rid g p at em) reason =
     Some \<lparr>rb_book_id = book, rb_reservation_id = rid, rb_reservation_generation = g,
           rb_patron_id = p, rb_reason = reason\<rparr>"
| "release_command_of _ _ = None"

definition compensate ::
  "(release_book_reservation_command, bool, 'w) operation \<Rightarrow> release_book_reservation_command \<Rightarrow> 'w
     \<Rightarrow> 'w \<times> (exn + unit)" where
  "compensate release_op c w =
     (case release_op c w of
        (w', Inr _) \<Rightarrow> (w', Inr ())
      | (w', Inl x) \<Rightarrow> (w', if stale_reservation_exn x then Inr () else Inl x))"

definition create_loan_on_book_reserved ::
  "(create_loan_command, create_loan_result, 'w) operation \<Rightarrow>
   (release_book_reservation_command, bool, 'w) operation \<Rightarrow> catalog_event \<Rightarrow> 'w \<Rightarrow> 'w \<times> (exn + unit)" where
  "create_loan_on_book_reserved create_op release_op ev w =
     (case create_loan_command_of ev of
        None \<Rightarrow> (w, Inr ())
      | Some c \<Rightarrow>
          (case create_op c w of
             (w1, Inr _) \<Rightarrow> (w1, Inr ())
           | (w1, Inl x) \<Rightarrow>
               (case business_rejection x of
                  None \<Rightarrow> (w1, Inl x)
                | Some reason \<Rightarrow>
                    (case release_command_of ev reason of
                       None \<Rightarrow> (w1, Inr ()) | Some rc \<Rightarrow> compensate release_op rc w1))))"

fun confirm_command_of :: "lending_event \<Rightarrow> confirm_book_borrow_command option" where
  "confirm_command_of (LoanCreated l rid g p em book ttl at due) =
     Some \<lparr>cb_book_id = book, cb_reservation_id = rid, cb_reservation_generation = g,
           cb_patron_id = p, cb_loan_id = l, cb_borrowed_at = at, cb_return_due_date = utc due\<rparr>"
| "confirm_command_of _ = None"

fun cancel_stale_command_of :: "lending_event \<Rightarrow> cancel_loan_command option" where
  "cancel_stale_command_of (LoanCreated l rid g p em book ttl at due) =
     Some \<lparr>cn_reservation_id = rid, cn_reservation_generation = g, cn_patron_id = p,
           cn_catalog_book_id = book, cn_expected_loan_id = Some l,
           cn_reason = ''catalog reservation is no longer current''\<rparr>"
| "cancel_stale_command_of _ = None"

definition confirm_borrow_on_loan_created ::
  "(confirm_book_borrow_command, bool, 'w) operation \<Rightarrow> (cancel_loan_command, bool, 'w) operation
     \<Rightarrow> lending_event \<Rightarrow> 'w \<Rightarrow> 'w \<times> (exn + unit)" where
  "confirm_borrow_on_loan_created confirm_op cancel_op ev w =
     (case (confirm_command_of ev, cancel_stale_command_of ev) of
        (Some c, Some cc) \<Rightarrow>
          (case confirm_op c w of
             (w1, Inr _) \<Rightarrow> (w1, Inr ())
           | (w1, Inl x) \<Rightarrow>
               (if stale_reservation_exn x
                then (case cancel_op cc w1 of (w2, Inr _) \<Rightarrow> (w2, Inr ()) | (w2, Inl y) \<Rightarrow> (w2, Inl y))
                else (w1, Inl x)))
      | _ \<Rightarrow> (w, Inr ()))"

fun cancel_released_command_of :: "catalog_event \<Rightarrow> cancel_loan_command option" where
  "cancel_released_command_of (CatalogBookReleased book rid g p reason) =
     Some \<lparr>cn_reservation_id = rid, cn_reservation_generation = g, cn_patron_id = p,
           cn_catalog_book_id = book, cn_expected_loan_id = None, cn_reason = reason\<rparr>"
| "cancel_released_command_of _ = None"

definition cancel_loan_on_book_released ::
  "(cancel_loan_command, bool, 'w) operation \<Rightarrow> catalog_event \<Rightarrow> 'w \<Rightarrow> 'w \<times> (exn + unit)" where
  "cancel_loan_on_book_released cancel_op ev w =
     (case cancel_released_command_of ev of
        None \<Rightarrow> (w, Inr ())
      | Some c \<Rightarrow> (case cancel_op c w of (w1, Inr _) \<Rightarrow> (w1, Inr ()) | (w1, Inl x) \<Rightarrow> (w1, Inl x)))"

fun return_command_of :: "lending_event \<Rightarrow> return_book_command option" where
  "return_command_of (LoanCompleted l rid g p book at overdue) =
     Some \<lparr>rt_book_id = book, rt_loan_id = l, rt_reservation_id = rid,
           rt_reservation_generation = g, rt_patron_id = p\<rparr>"
| "return_command_of _ = None"

definition return_book_on_loan_completed ::
  "(return_book_command, return_book_result, 'w) operation \<Rightarrow> lending_event \<Rightarrow> 'w \<Rightarrow> 'w \<times> (exn + unit)" where
  "return_book_on_loan_completed return_op ev w =
     (case return_command_of ev of
        None \<Rightarrow> (w, Inr ())
      | Some c \<Rightarrow>
          (case return_op c w of
             (w1, Inr _) \<Rightarrow> (w1, Inr ())
           | (w1, Inl x) \<Rightarrow> (w1, if stale_completion_exn x then Inr () else Inl x)))"

section \<open>Confirmation mail\<close>

text \<open>
  The subject and the escaped title of \<open>SendLoanConfirmationEmailHandler\<close>; \<open>html.escape\<close>
  with quotes. Formatting dates and sending belong to the library and to the adapter.
\<close>

definition html_escape_char :: "char \<Rightarrow> string" where
  "html_escape_char c =
     (if c = CHR ''&'' then ''&amp;'' else if c = CHR ''<'' then ''&lt;''
      else if c = CHR ''>'' then ''&gt;'' else if c = CHR 0x22 then ''&quot;''
      else if c = CHR 0x27 then ''&#x27;'' else [c])"

definition html_escape :: "string \<Rightarrow> string" where
  "html_escape s = concat (map html_escape_char s)"

definition mail_subject :: "string \<Rightarrow> string" where
  "mail_subject ttl = ''Loan confirmation: '' @
     map (\<lambda>c. if c = CHR 0x0D \<or> c = CHR 0x0A then CHR '' '' else c) ttl"

definition mail_content :: "string \<Rightarrow> string \<Rightarrow> string \<Rightarrow> string" where
  "mail_content ttl borrowed due =
     ''<p>You borrowed <strong>'' @ html_escape ttl @ ''</strong> on '' @ borrowed @ ''.</p><p>Please return it by <strong>''
     @ due @ ''</strong>.</p>''"

end
