(* ===== verification/SagaCore.thy ===== *)
theory SagaCore
  imports EventHandlers DatabaseProps
begin

text \<open>
  The consistency of the borrow workflow across the two contexts, as a relation between the
  rows of the books, the loans and the borrow operations and the events written to the
  outbox, and its preservation by each transaction of the workflow. All of it is stated on
  sets of rows, so that the preservation proofs are first-order.
\<close>

section \<open>Correlations\<close>

text \<open>Book, reservation, generation and patron, as each context records them.\<close>

type_synonym correlation = "string \<times> string option \<times> int \<times> string option"

definition book_corr :: "book_row \<Rightarrow> correlation" where
  "book_corr r = (br_id r, br_reservation_id r, br_reservation_generation r, br_reserved_patron_id r)"

definition op_corr :: "borrow_operation \<Rightarrow> correlation" where
  "op_corr o' = (op_book_id o', Some (operation_id o'), op_generation o', Some (op_patron_id o'))"

definition loan_corr :: "loan_row \<Rightarrow> correlation" where
  "loan_corr l = (lr_catalog_book_id l, Some (lr_reservation_id l), lr_reservation_generation l,
     Some (lr_patron_id l))"

definition settled :: "operation_status \<Rightarrow> bool" where
  "settled s \<longleftrightarrow> s = OpBorrowed \<or> s = OpReturned"

section \<open>The invariant\<close>

definition op_canonical :: "borrow_operation \<Rightarrow> bool" where
  "op_canonical q \<longleftrightarrow> ref_ok (op_book_id q) \<and> ref_ok (op_patron_id q)
     \<and> canon_uuid (operation_id q) = Some (operation_id q)"

definition ops_have_books :: "book_row set \<Rightarrow> borrow_operation set \<Rightarrow> bool" where
  "ops_have_books B Q \<longleftrightarrow> (\<forall>q\<in>Q. op_canonical q
     \<and> (op_status q = OpReserved \<longrightarrow> (\<exists>r\<in>B. br_status r = ''reserved'' \<and> book_corr r = op_corr q))
     \<and> (op_status q = OpBorrowed \<longrightarrow>
          (\<exists>r\<in>B. br_status r = ''borrowed'' \<and> book_corr r = op_corr q \<and> br_current_loan_id r = op_loan_id q)))"

definition books_have_ops :: "book_row set \<Rightarrow> borrow_operation set \<Rightarrow> bool" where
  "books_have_ops B Q \<longleftrightarrow> (\<forall>r\<in>B.
     (br_status r = ''reserved'' \<longrightarrow> (\<exists>q\<in>Q. op_status q = OpReserved \<and> op_corr q = book_corr r))
     \<and> (br_status r = ''borrowed'' \<longrightarrow>
          (\<exists>q\<in>Q. op_status q = OpBorrowed \<and> op_corr q = book_corr r \<and> op_loan_id q = br_current_loan_id r))
     \<and> (br_current_loan_id r \<noteq> None \<longrightarrow> br_status r = ''borrowed''))"

definition loan_fits :: "borrow_operation \<Rightarrow> loan_row \<Rightarrow> bool" where
  "loan_fits q l \<longleftrightarrow> op_corr q = loan_corr l
     \<and> (settled (op_status q) \<longrightarrow> op_loan_id q = Some (lr_id l) \<and> lr_status l \<noteq> ''cancelled'')
     \<and> (op_status q = OpReturned \<longrightarrow> lr_status l = ''returned'')
     \<and> (lr_status l = ''cancelled'' \<longrightarrow> op_status q = OpReleased)"

definition loans_have_ops :: "loan_row set \<Rightarrow> borrow_operation set \<Rightarrow> bool" where
  "loans_have_ops L Q \<longleftrightarrow> (\<forall>l\<in>L. \<exists>q\<in>Q. loan_fits q l)"

definition settled_ops_have_loans :: "loan_row set \<Rightarrow> borrow_operation set \<Rightarrow> bool" where
  "settled_ops_have_loans L Q \<longleftrightarrow> (\<forall>q\<in>Q. settled (op_status q) \<longrightarrow>
     (\<exists>l\<in>L. loan_corr l = op_corr q \<and> op_loan_id q = Some (lr_id l)))"

fun event_backed :: "loan_row set \<Rightarrow> borrow_operation set \<Rightarrow> event_data \<Rightarrow> bool" where
  "event_backed L Q (CatalogEvent (CatalogBookReserved b t rid g p at em)) =
     (\<exists>q\<in>Q. op_corr q = (b, Some rid, g, Some p))"
| "event_backed L Q (CatalogEvent (CatalogBookReleased b rid g p reason)) =
     (\<exists>q\<in>Q. op_corr q = (b, Some rid, g, Some p) \<and> op_status q = OpReleased)"
| "event_backed L Q (LendingEvent (LoanCreated lid rid g p em b t at due)) =
     (\<exists>l\<in>L. lr_id l = lid \<and> loan_corr l = (b, Some rid, g, Some p))"
| "event_backed L Q (LendingEvent (LoanCompleted lid rid g p b at overdue)) =
     (\<exists>l\<in>L. lr_id l = lid \<and> loan_corr l = (b, Some rid, g, Some p) \<and> lr_status l = ''returned'')"
| "event_backed L Q _ = True"

fun created_loan :: "event_data \<Rightarrow> string option" where
  "created_loan (LendingEvent (LoanCreated lid rid g p em b t at due)) = Some lid"
| "created_loan _ = None"

definition created_once :: "event_data set \<Rightarrow> bool" where
  "created_once E \<longleftrightarrow> (\<forall>x\<in>E. \<forall>y\<in>E. created_loan x \<noteq> None \<longrightarrow> created_loan x = created_loan y \<longrightarrow> x = y)"

definition dates_as_created :: "book_row set \<Rightarrow> event_data set \<Rightarrow> bool" where
  "dates_as_created B E \<longleftrightarrow> (\<forall>r\<in>B. \<forall>lid rid g p em b t at due.
     br_current_loan_id r = Some lid \<longrightarrow> LendingEvent (LoanCreated lid rid g p em b t at due) \<in> E \<longrightarrow>
     (\<exists>f. br_borrowed_at r = Some f \<and> same_instant f at) \<and> br_return_due_date r = Some due)"

definition saga_core ::
  "book_row set \<Rightarrow> loan_row set \<Rightarrow> borrow_operation set \<Rightarrow> event_data set \<Rightarrow> bool" where
  "saga_core B L Q E \<longleftrightarrow> ops_have_books B Q \<and> books_have_ops B Q \<and> loans_have_ops L Q
     \<and> settled_ops_have_loans L Q \<and> (\<forall>x\<in>E. event_backed L Q x) \<and> created_once E \<and> dates_as_created B E"

definition keys :: "book_row set \<Rightarrow> loan_row set \<Rightarrow> borrow_operation set \<Rightarrow> bool" where
  "keys B L Q \<longleftrightarrow> inj_on br_id B \<and> inj_on lr_id L \<and> inj_on lr_reservation_id L \<and> inj_on operation_id Q"

lemma op_corr_inj: "keys B L Q \<Longrightarrow> q \<in> Q \<Longrightarrow> q' \<in> Q \<Longrightarrow> op_corr q = op_corr q' \<Longrightarrow> q = q'"
  by (auto simp: keys_def op_corr_def dest: inj_onD)

lemma book_corr_inj: "keys B L Q \<Longrightarrow> r \<in> B \<Longrightarrow> r' \<in> B \<Longrightarrow> book_corr r = book_corr r' \<Longrightarrow> r = r'"
  by (auto simp: keys_def book_corr_def dest: inj_onD)

lemma loan_corr_inj: "keys B L Q \<Longrightarrow> l \<in> L \<Longrightarrow> l' \<in> L \<Longrightarrow> loan_corr l = loan_corr l' \<Longrightarrow> l = l'"
  by (auto simp: keys_def loan_corr_def dest: inj_onD)

lemma loan_id_inj: "keys B L Q \<Longrightarrow> l \<in> L \<Longrightarrow> l' \<in> L \<Longrightarrow> lr_id l = lr_id l' \<Longrightarrow> l = l'"
  by (auto simp: keys_def dest: inj_onD)

text \<open>An event stays backed when rows are added, operations keep their correlation and loans keep theirs.\<close>

lemma event_backed_mono:
  assumes "event_backed L Q x"
    and "\<And>q. q \<in> Q \<Longrightarrow> \<exists>q'\<in>Q'. op_corr q' = op_corr q \<and> (op_status q = OpReleased \<longrightarrow> op_status q' = OpReleased)"
    and "\<And>l. l \<in> L \<Longrightarrow> \<exists>l'\<in>L'. lr_id l' = lr_id l \<and> loan_corr l' = loan_corr l
       \<and> (lr_status l = ''returned'' \<longrightarrow> lr_status l' = ''returned'')"
  shows "event_backed L' Q' x"
proof (cases x)
  case (CatalogEvent c)
  then show ?thesis
  proof (cases c)
    case (CatalogBookReserved b t rid g p at em)
    with CatalogEvent assms(1) obtain q where "q \<in> Q" "op_corr q = (b, Some rid, g, Some p)" by auto
    with assms(2) [of q] CatalogEvent CatalogBookReserved show ?thesis by auto
  next
    case (CatalogBookReleased b rid g p reason)
    with CatalogEvent assms(1) obtain q where "q \<in> Q" "op_corr q = (b, Some rid, g, Some p)"
      "op_status q = OpReleased" by auto
    with assms(2) [of q] CatalogEvent CatalogBookReleased show ?thesis by auto
  qed simp_all
next
  case (LendingEvent e)
  then show ?thesis
  proof (cases e)
    case (LoanCreated lid rid g p em b t at due)
    with LendingEvent assms(1) obtain l where "l \<in> L" "lr_id l = lid" "loan_corr l = (b, Some rid, g, Some p)" by auto
    with assms(3) [of l] LendingEvent LoanCreated show ?thesis by auto
  next
    case (LoanCompleted lid rid g p b at ov)
    with LendingEvent assms(1) obtain l where "l \<in> L" "lr_id l = lid" "loan_corr l = (b, Some rid, g, Some p)"
      "lr_status l = ''returned''" by auto
    with assms(3) [of l] LendingEvent LoanCompleted show ?thesis by auto
  qed simp_all
qed simp

section \<open>Preservation\<close>

text \<open>Events that concern neither the books nor the loans of the workflow.\<close>

definition inert :: "event_data \<Rightarrow> bool" where
  "inert x \<longleftrightarrow> created_loan x = None \<and> (\<forall>L Q. event_backed L Q x)"

lemma core_events:
  assumes "saga_core B L Q E" and "\<forall>x\<in>F. created_loan x = None \<and> event_backed L Q x"
  shows "saga_core B L Q (E \<union> F)"
  using assms by (auto simp: saga_core_def created_once_def dates_as_created_def)

lemma core_add_book:
  assumes "saga_core B L Q E" and "br_status r = ''available''" and "br_current_loan_id r = None"
  shows "saga_core (insert r B) L Q E"
  using assms
  by (auto simp: saga_core_def ops_have_books_def books_have_ops_def dates_as_created_def)

lemma core_reserve:
  assumes core: "saga_core B L Q E" and r: "r \<in> B" "br_status r = ''available''"
    and r': "br_status r' = ''reserved''" "book_corr r' = op_corr q'" "br_current_loan_id r' = None"
    and q': "op_status q' = OpReserved" "op_canonical q'"
  shows "saga_core (insert r' (B - {r})) L (insert q' Q) E"
proof -
  note c = core [unfolded saga_core_def]
  have "ops_have_books (insert r' (B - {r})) (insert q' Q)"
    using c r r' q' by (fastforce simp: ops_have_books_def)
  moreover have "books_have_ops (insert r' (B - {r})) (insert q' Q)"
    using c r r' q' by (fastforce simp: books_have_ops_def)
  moreover have "loans_have_ops L (insert q' Q)" using c by (auto simp: loans_have_ops_def)
  moreover have "settled_ops_have_loans L (insert q' Q)"
    using c q' by (auto simp: settled_ops_have_loans_def settled_def)
  moreover have "\<forall>x\<in>E. event_backed L (insert q' Q) x"
    using c by (auto intro: event_backed_mono)
  moreover have "dates_as_created (insert r' (B - {r})) E"
    using c r' by (auto simp: dates_as_created_def)
  ultimately show ?thesis using c by (simp add: saga_core_def)
qed

lemma replaced_op_backed:
  assumes "\<forall>x\<in>E. event_backed L Q x" and "op_corr q' = op_corr q"
    and "op_status q = OpReleased \<longrightarrow> op_status q' = OpReleased"
  shows "\<forall>x\<in>E. event_backed L (insert q' (Q - {q})) x"
proof
  fix x
  assume "x \<in> E"
  with assms(1) have "event_backed L Q x" by blast
  then show "event_backed L (insert q' (Q - {q})) x"
    by (rule event_backed_mono) (use assms(2,3) in auto)
qed

text \<open>A book and its current operation change together.\<close>

definition in_step :: "book_row \<Rightarrow> borrow_operation \<Rightarrow> bool" where
  "in_step r q \<longleftrightarrow> (br_status r = ''reserved'' \<longleftrightarrow> op_status q = OpReserved)
     \<and> (br_status r = ''borrowed'' \<longleftrightarrow> op_status q = OpBorrowed)
     \<and> (op_status q = OpBorrowed \<longrightarrow> br_current_loan_id r = op_loan_id q)
     \<and> (br_current_loan_id r \<noteq> None \<longrightarrow> br_status r = ''borrowed'')"

lemma core_transition:
  assumes core: "saga_core B L Q E" and k: "keys B L Q"
    and r: "r \<in> B" "book_corr r' = book_corr r" and q: "q \<in> Q" "op_corr q = book_corr r"
    and q': "op_corr q' = op_corr q" "op_canonical q'" "op_status q \<noteq> OpReleased"
    and link: "in_step r' q'"
    and fits: "\<And>l. l \<in> L \<Longrightarrow> loan_fits q l \<Longrightarrow> loan_fits q' l"
    and settles: "settled (op_status q') \<Longrightarrow> \<exists>l\<in>L. loan_corr l = op_corr q' \<and> op_loan_id q' = Some (lr_id l)"
    and dates: "dates_as_created {r'} E"
  shows "saga_core (insert r' (B - {r})) L (insert q' (Q - {q})) E"
proof -
  note c = core [unfolded saga_core_def]
  have only_q: "x = q" if "x \<in> Q" "op_corr x = book_corr r" for x
    using that q by (intro op_corr_inj [OF k]) simp_all
  have only_r: "y = r" if "y \<in> B" "book_corr y = op_corr q" for y
    using that r q by (intro book_corr_inj [OF k]) simp_all
  have corr: "op_corr q' = book_corr r'" using q'(1) q(2) r(2) by simp
  have "ops_have_books (insert r' (B - {r})) (insert q' (Q - {q}))"
    unfolding ops_have_books_def
  proof (rule ballI)
    fix x
    assume x: "x \<in> insert q' (Q - {q})"
    show "op_canonical x
      \<and> (op_status x = OpReserved \<longrightarrow> (\<exists>y\<in>insert r' (B - {r}). br_status y = ''reserved'' \<and> book_corr y = op_corr x))
      \<and> (op_status x = OpBorrowed \<longrightarrow> (\<exists>y\<in>insert r' (B - {r}). br_status y = ''borrowed'' \<and> book_corr y = op_corr x
           \<and> br_current_loan_id y = op_loan_id x))"
    proof (cases "x = q'")
      case True
      show ?thesis using link q'(2) corr unfolding True in_step_def by simp
    next
      case False
      with x have xq: "x \<in> Q" "x \<noteq> q" by auto
      have "y \<noteq> r" if "book_corr y = op_corr x" for y
        using that only_q [OF xq(1)] xq(2) by metis
      moreover have "op_canonical x
        \<and> (op_status x = OpReserved \<longrightarrow> (\<exists>y\<in>B. br_status y = ''reserved'' \<and> book_corr y = op_corr x))
        \<and> (op_status x = OpBorrowed \<longrightarrow> (\<exists>y\<in>B. br_status y = ''borrowed'' \<and> book_corr y = op_corr x
             \<and> br_current_loan_id y = op_loan_id x))"
        using c xq(1) unfolding ops_have_books_def by blast
      ultimately show ?thesis by blast
    qed
  qed
  moreover have "books_have_ops (insert r' (B - {r})) (insert q' (Q - {q}))"
    unfolding books_have_ops_def
  proof (rule ballI)
    fix y
    assume y: "y \<in> insert r' (B - {r})"
    show "(br_status y = ''reserved'' \<longrightarrow> (\<exists>x\<in>insert q' (Q - {q}). op_status x = OpReserved \<and> op_corr x = book_corr y))
      \<and> (br_status y = ''borrowed'' \<longrightarrow> (\<exists>x\<in>insert q' (Q - {q}). op_status x = OpBorrowed \<and> op_corr x = book_corr y
           \<and> op_loan_id x = br_current_loan_id y))
      \<and> (br_current_loan_id y \<noteq> None \<longrightarrow> br_status y = ''borrowed'')"
    proof (cases "y = r'")
      case True
      show ?thesis using link corr unfolding True in_step_def by simp
    next
      case False
      with y have yb: "y \<in> B" "y \<noteq> r" by auto
      have "x \<noteq> q" if "op_corr x = book_corr y" for x
        using that only_r [OF yb(1)] yb(2) by metis
      moreover have "(br_status y = ''reserved'' \<longrightarrow> (\<exists>x\<in>Q. op_status x = OpReserved \<and> op_corr x = book_corr y))
        \<and> (br_status y = ''borrowed'' \<longrightarrow> (\<exists>x\<in>Q. op_status x = OpBorrowed \<and> op_corr x = book_corr y
             \<and> op_loan_id x = br_current_loan_id y))
        \<and> (br_current_loan_id y \<noteq> None \<longrightarrow> br_status y = ''borrowed'')"
        using c yb(1) unfolding books_have_ops_def by blast
      ultimately show ?thesis by blast
    qed
  qed
  moreover have "loans_have_ops L (insert q' (Q - {q}))"
    using c fits unfolding loans_have_ops_def by blast
  moreover have "settled_ops_have_loans L (insert q' (Q - {q}))"
    using c settles unfolding settled_ops_have_loans_def by blast
  moreover have "\<forall>x\<in>E. event_backed L (insert q' (Q - {q})) x"
    using c q' by (intro replaced_op_backed) blast+
  moreover have "dates_as_created (insert r' (B - {r})) E"
    using c dates unfolding dates_as_created_def by blast
  ultimately show ?thesis using c unfolding saga_core_def by blast
qed

lemma current_operation:
  assumes "saga_core B L Q E" and "keys B L Q" and "r \<in> B" and "q \<in> Q" and "op_corr q = book_corr r"
  shows "br_status r = ''reserved'' \<Longrightarrow> op_status q = OpReserved"
    and "br_status r = ''borrowed'' \<Longrightarrow> op_status q = OpBorrowed \<and> op_loan_id q = br_current_loan_id r"
proof -
  have b: "books_have_ops B Q" using assms(1) by (simp add: saga_core_def)
  have only: "x = q" if "x \<in> Q" "op_corr x = book_corr r" for x
    using that assms(4,5) by (intro op_corr_inj [OF assms(2)]) simp_all
  show "br_status r = ''reserved'' \<Longrightarrow> op_status q = OpReserved"
    using b assms(3) only unfolding books_have_ops_def by blast
  show "br_status r = ''borrowed'' \<Longrightarrow> op_status q = OpBorrowed \<and> op_loan_id q = br_current_loan_id r"
    using b assms(3) only unfolding books_have_ops_def by blast
qed

lemma core_release:
  assumes core: "saga_core B L Q E" and k: "keys B L Q"
    and r: "r \<in> B" "br_status r = ''reserved''" and q: "q \<in> Q" "op_corr q = book_corr r"
    and r': "br_status r' = ''available''" "br_current_loan_id r' = None" "book_corr r' = book_corr r"
    and q': "op_corr q' = op_corr q" "op_status q' = OpReleased" "op_canonical q'"
  shows "saga_core (insert r' (B - {r})) L (insert q' (Q - {q})) E"
proof (rule core_transition [OF core k r(1) r'(3) q q'(1,3)])
  have qs: "op_status q = OpReserved" using current_operation(1) [OF core k r(1) q] r(2) by simp
  then show "op_status q \<noteq> OpReleased" by simp
  show "in_step r' q'" using r' q' by (simp add: in_step_def)
  show "loan_fits q l \<Longrightarrow> loan_fits q' l" for l
    unfolding loan_fits_def settled_def q'(1,2) qs by simp
  show "settled (op_status q') \<Longrightarrow> \<exists>l\<in>L. loan_corr l = op_corr q' \<and> op_loan_id q' = Some (lr_id l)"
    using q'(2) by (simp add: settled_def)
  show "dates_as_created {r'} E" using r'(2) by (simp add: dates_as_created_def)
qed

text \<open>Confirming the borrow of a reserved book, for a loan whose creation is in the outbox.\<close>

lemma core_confirm:
  assumes core: "saga_core B L Q E" and k: "keys B L Q"
    and r: "r \<in> B" "br_status r = ''reserved''" and q: "q \<in> Q" "op_corr q = book_corr r"
    and ev: "LendingEvent (LoanCreated lid rid g p em b t at due) \<in> E" "op_corr q = (b, Some rid, g, Some p)"
    and r': "br_status r' = ''borrowed''" "br_current_loan_id r' = Some lid" "book_corr r' = book_corr r"
      "br_borrowed_at r' = Some f" "same_instant f at" "br_return_due_date r' = Some due"
    and q': "op_corr q' = op_corr q" "op_status q' = OpBorrowed" "op_loan_id q' = Some lid" "op_canonical q'"
  shows "saga_core (insert r' (B - {r})) L (insert q' (Q - {q})) E"
proof (rule core_transition [OF core k r(1) r'(3) q q'(1,4)])
  note c = core [unfolded saga_core_def]
  have qs: "op_status q = OpReserved" using current_operation(1) [OF core k r(1) q] r(2) by simp
  have "event_backed L Q (LendingEvent (LoanCreated lid rid g p em b t at due))" using c ev(1) by blast
  then obtain l where l: "l \<in> L" "lr_id l = lid" "loan_corr l = op_corr q" unfolding ev(2) by auto
  show "op_status q \<noteq> OpReleased" using qs by simp
  show "in_step r' q'" using r' q' by (simp add: in_step_def)
  show "loan_fits q' x" if "x \<in> L" "loan_fits q x" for x
  proof -
    have "loan_corr x = op_corr q" "lr_status x \<noteq> ''cancelled''"
      using that(2) qs unfolding loan_fits_def by auto
    moreover from this(1) l have "x = l" using that(1) by (intro loan_corr_inj [OF k]) simp_all
    ultimately show ?thesis using q' l by (simp add: loan_fits_def)
  qed
  show "\<exists>l\<in>L. loan_corr l = op_corr q' \<and> op_loan_id q' = Some (lr_id l)"
    using l q'(1,3) by metis
  show "dates_as_created {r'} E"
    unfolding dates_as_created_def
  proof (intro ballI allI impI)
    fix y lid2 rid2 g2 p2 em2 b2 t2 at2 due2
    assume "y \<in> {r'}" and lid: "br_current_loan_id y = Some lid2"
      and e: "LendingEvent (LoanCreated lid2 rid2 g2 p2 em2 b2 t2 at2 due2) \<in> E"
    from this(1) have y: "y = r'" by simp
    with lid r'(2) have "lid2 = lid" by simp
    with c ev(1) e have "at2 = at \<and> due2 = due" unfolding created_once_def by fastforce
    with r'(4-6) show "(\<exists>f. br_borrowed_at y = Some f \<and> same_instant f at2) \<and> br_return_due_date y = Some due2"
      by (simp add: y)
  qed
qed

lemma core_return:
  assumes core: "saga_core B L Q E" and k: "keys B L Q"
    and r: "r \<in> B" "br_status r = ''borrowed''" "br_current_loan_id r = Some lid"
    and q: "q \<in> Q" "op_corr q = book_corr r"
    and ev: "LendingEvent (LoanCompleted lid rid g p b at ov) \<in> E"
    and r': "br_status r' = ''available''" "br_current_loan_id r' = None" "book_corr r' = book_corr r"
    and q': "op_corr q' = op_corr q" "op_status q' = OpReturned" "op_loan_id q' = Some lid" "op_canonical q'"
  shows "saga_core (insert r' (B - {r})) L (insert q' (Q - {q})) E"
proof (rule core_transition [OF core k r(1) r'(3) q q'(1,4)])
  note c = core [unfolded saga_core_def]
  have qs: "op_status q = OpBorrowed" "op_loan_id q = Some lid"
    using current_operation(2) [OF core k r(1) q] r(2,3) by simp_all
  have "event_backed L Q (LendingEvent (LoanCompleted lid rid g p b at ov))" using c ev by blast
  then obtain l where l: "l \<in> L" "lr_id l = lid" "lr_status l = ''returned''" by auto
  show "op_status q \<noteq> OpReleased" using qs by simp
  show "in_step r' q'" using r' q' by (simp add: in_step_def)
  show "loan_fits q' x" if "x \<in> L" "loan_fits q x" for x
  proof -
    have x: "loan_corr x = op_corr q" "lr_id x = lid"
      using that(2) qs unfolding loan_fits_def settled_def by simp_all
    with l that(1) have "x = l" by (intro loan_id_inj [OF k]) simp_all
    with x l(3) q' show ?thesis by (simp add: loan_fits_def)
  qed
  show "\<exists>l\<in>L. loan_corr l = op_corr q' \<and> op_loan_id q' = Some (lr_id l)"
    using c q(1) qs q'(1,3) unfolding settled_ops_have_loans_def settled_def by metis
  show "dates_as_created {r'} E" using r'(2) by (simp add: dates_as_created_def)
qed

text \<open>A loan changes, keeping its identity and its correlation.\<close>

lemma core_loan:
  assumes core: "saga_core B L Q E" and l: "l \<in> L"
    and l': "lr_id l' = lr_id l" "loan_corr l' = loan_corr l"
      "lr_status l = ''returned'' \<Longrightarrow> lr_status l' = ''returned''"
    and fits: "\<And>q. q \<in> Q \<Longrightarrow> loan_fits q l \<Longrightarrow> loan_fits q l'"
  shows "saga_core B (insert l' (L - {l})) Q E"
proof -
  note c = core [unfolded saga_core_def]
  have other: "\<exists>y\<in>insert l' (L - {l}). lr_id y = lr_id x \<and> loan_corr y = loan_corr x
      \<and> (lr_status x = ''returned'' \<longrightarrow> lr_status y = ''returned'')" if "x \<in> L" for x
    using that l' by (cases "x = l") auto
  have "loans_have_ops (insert l' (L - {l})) Q"
    using c l fits unfolding loans_have_ops_def by blast
  moreover have "settled_ops_have_loans (insert l' (L - {l})) Q"
    using c other unfolding settled_ops_have_loans_def by metis
  moreover have "\<forall>x\<in>E. event_backed (insert l' (L - {l})) Q x"
  proof
    fix x
    assume "x \<in> E"
    with c have "event_backed L Q x" by blast
    then show "event_backed (insert l' (L - {l})) Q x" by (rule event_backed_mono) (blast, rule other)
  qed
  ultimately show ?thesis using c unfolding saga_core_def by blast
qed

text \<open>A loan is created for a reservation that has none, with its event.\<close>

lemma core_create:
  assumes core: "saga_core B L Q E"
    and q: "q \<in> Q" "loan_corr l = op_corr q" and fresh: "lr_id l \<notin> lr_id ` L" "lr_reservation_id l \<notin> lr_reservation_id ` L"
    and l: "lr_status l = ''active''" and lid: "lr_id l = lid" "loan_corr l = (b, Some rid, g, Some p)"
  shows "saga_core B (insert l L) Q (insert (LendingEvent (LoanCreated lid rid g p em b t at due)) E)"
proof -
  note c = core [unfolded saga_core_def]
  let ?e = "LendingEvent (LoanCreated lid rid g p em b t at due)"
  have "\<not> settled (op_status q)"
  proof
    assume "settled (op_status q)"
    with c q(1) obtain x where "x \<in> L" "loan_corr x = op_corr q"
      unfolding settled_ops_have_loans_def by blast
    moreover from this(2) q(2) have "loan_corr x = loan_corr l" by simp
    then have "lr_reservation_id x = lr_reservation_id l" by (simp add: loan_corr_def)
    ultimately show False using fresh(2) by (metis imageI)
  qed
  then have "loan_fits q l" using q(2) l by (auto simp: loan_fits_def settled_def)
  then have "loans_have_ops (insert l L) Q" using c q(1) unfolding loans_have_ops_def by blast
  moreover have "settled_ops_have_loans (insert l L) Q"
    using c unfolding settled_ops_have_loans_def by blast
  moreover have "\<forall>x\<in>insert ?e E. event_backed (insert l L) Q x"
  proof
    fix x
    assume "x \<in> insert ?e E"
    then consider "x = ?e" | "event_backed L Q x" using c by blast
    then show "event_backed (insert l L) Q x"
    proof cases
      case 2
      then show ?thesis by (rule event_backed_mono) blast+
    qed (use lid in simp)
  qed
  moreover have none: "created_loan x \<noteq> Some lid" if "x \<in> E" for x
  proof
    assume "created_loan x = Some lid"
    then obtain rid2 g2 p2 em2 b2 t2 at2 due2 where "x = LendingEvent (LoanCreated lid rid2 g2 p2 em2 b2 t2 at2 due2)"
      by (cases x rule: created_loan.cases) auto
    with c that have "event_backed L Q (LendingEvent (LoanCreated lid rid2 g2 p2 em2 b2 t2 at2 due2))" by blast
    then have "lid \<in> lr_id ` L" by auto
    with fresh(1) lid(1) show False by simp
  qed
  have "created_once (insert ?e E)"
    unfolding created_once_def
  proof (intro ballI impI)
    fix x y
    assume x: "x \<in> insert ?e E" and y: "y \<in> insert ?e E" and "created_loan x \<noteq> None" and eq: "created_loan x = created_loan y"
    then show "x = y"
      using c none [of x] none [of y] unfolding created_once_def
      by (cases "x = ?e"; cases "y = ?e") auto
  qed
  moreover have "dates_as_created B (insert ?e E)"
    unfolding dates_as_created_def
  proof (intro ballI allI impI)
    fix y lid2 rid2 g2 p2 em2 b2 t2 at2 due2
    assume y: "y \<in> B" and cur: "br_current_loan_id y = Some lid2"
      and e: "LendingEvent (LoanCreated lid2 rid2 g2 p2 em2 b2 t2 at2 due2) \<in> insert ?e E"
    have b: "books_have_ops B Q" using c by blast
    with y cur have "br_status y = ''borrowed''" unfolding books_have_ops_def by fastforce
    with b y obtain x where "x \<in> Q" "op_status x = OpBorrowed" "op_loan_id x = Some lid2"
      unfolding books_have_ops_def cur [symmetric] by blast
    then obtain z where "z \<in> L" "lr_id z = lid2"
      using c unfolding settled_ops_have_loans_def settled_def by auto
    with fresh(1) lid(1) have "lid2 \<noteq> lid" by (metis imageI)
    with e have "LendingEvent (LoanCreated lid2 rid2 g2 p2 em2 b2 t2 at2 due2) \<in> E" by simp
    with c y cur show "(\<exists>f. br_borrowed_at y = Some f \<and> same_instant f at2) \<and> br_return_due_date y = Some due2"
      unfolding dates_as_created_def by blast
  qed
  ultimately show ?thesis using c unfolding saga_core_def by blast
qed

end
