(* ===== verification/SagaEffects.thy ===== *)
theory SagaEffects
  imports SagaCore
begin

text \<open>
  What a committed transaction does to the rows and to the events of the outbox, as sets, and
  in which sense an earlier state of the database is still true of a later one. A handler
  may have read its snapshot long before it commits: the version test of its update then
  decides whether the row it decided upon is the row it replaces.
\<close>

section \<open>Events written to the outbox\<close>

definition events :: "db \<Rightarrow> event_data set" where
  "events d = (\<lambda>r. event_data (ob_event r)) ` set (outbox d)"

definition inserted_events :: "insert list \<Rightarrow> event_data set" where
  "inserted_events is = {event_data (ob_event r) |r. InsOutbox r \<in> set is}"

lemma events_simps [simp]:
  "events (d\<lparr>books := bs\<rparr>) = events d" "events (d\<lparr>loans := ls\<rparr>) = events d"
  "events (d\<lparr>patrons := ps\<rparr>) = events d" "events (d\<lparr>operations := os\<rparr>) = events d"
  "events (d\<lparr>receipts := rs\<rparr>) = events d"
  by (simp_all add: events_def)

lemma inserted_events_simps [simp]:
  "inserted_events [] = {}"
  "inserted_events (InsOutbox r # is) = insert (event_data (ob_event r)) (inserted_events is)"
  "inserted_events (InsBook b # is) = inserted_events is"
  "inserted_events (InsLoan l # is) = inserted_events is"
  "inserted_events (InsPatron p # is) = inserted_events is"
  "inserted_events (InsOperation q # is) = inserted_events is"
  "inserted_events (InsReceipt c # is) = inserted_events is"
  "inserted_events (is @ js) = inserted_events is \<union> inserted_events js"
  by (auto simp: inserted_events_def)

lemma inserted_events_stage [simp]:
  "inserted_events (stage_book b) = event_data ` set (book_events b)"
  "inserted_events (stage_loan l) = event_data ` set (loan_events l)"
  "inserted_events (stage_patron p) = event_data ` set (patron_events p)"
  by (force simp: inserted_events_def stage_book_def stage_loan_def stage_patron_def from_domain_event_def)+

lemma inserted_events_receipt [simp]: "inserted_events (receipt_for sc key h r) = {}"
  by (cases key) (simp_all add: receipt_for_def)

definition tables_kept :: "insert list \<Rightarrow> bool" where
  "tables_kept is \<longleftrightarrow> (\<forall>i\<in>set is. case i of InsOutbox _ \<Rightarrow> True | InsReceipt _ \<Rightarrow> True | InsPatron _ \<Rightarrow> True | _ \<Rightarrow> False)"

lemma tables_kept_simps [simp]:
  "tables_kept []" "tables_kept (stage_book b)" "tables_kept (stage_loan l)" "tables_kept (stage_patron p)"
  "tables_kept (receipt_for sc key h r)" "tables_kept (is @ js) \<longleftrightarrow> tables_kept is \<and> tables_kept js"
  "tables_kept (InsPatron pr # is) = tables_kept is"
  by (auto simp: tables_kept_def stage_book_def stage_loan_def stage_patron_def receipt_for_def split: option.splits)

lemma flush_insert_events:
  "flush_insert i d = Inr d' \<Longrightarrow> events d' = events d \<union> inserted_events [i]"
  by (cases i) (auto simp: insert_row_Inr events_def)

lemma flush_all_events:
  "flush_all is d = Inr d' \<Longrightarrow> events d' = events d \<union> inserted_events is"
proof (induction "is" arbitrary: d)
  case (Cons i "is")
  then obtain d1 where "flush_insert i d = Inr d1" "flush_all is d1 = Inr d'" by (auto elim: rbindE)
  with Cons.IH [of d1] flush_insert_events [of i d d1] show ?case
    by (cases i) auto
qed simp

lemma flush_insert_keeps:
  "flush_insert i d = Inr d' \<Longrightarrow> tables_kept [i] \<Longrightarrow>
     books d' = books d \<and> loans d' = loans d \<and> operations d' = operations d"
  by (cases i) (auto simp: tables_kept_def)

lemma flush_all_keeps:
  "flush_all is d = Inr d' \<Longrightarrow> tables_kept is \<Longrightarrow>
     books d' = books d \<and> loans d' = loans d \<and> operations d' = operations d"
proof (induction "is" arbitrary: d)
  case (Cons i "is")
  then obtain d1 where "flush_insert i d = Inr d1" "flush_all is d1 = Inr d'" by (auto elim: rbindE)
  moreover have "tables_kept [i]" "tables_kept is" using Cons.prems(2) by (simp_all add: tables_kept_def)
  ultimately show ?case using Cons.IH [of d1] flush_insert_keeps [of i d d1] by simp
qed simp

section \<open>Updates of one row\<close>

lemma update_where_one:
  assumes "distinct (map key rows)" and "update_where sch p f rows = Inr (rows', n)" and "n \<noteq> 0"
    and "\<And>x. p x \<Longrightarrow> key x = i"
  obtains r where "r \<in> set rows" "p r" "set rows' = insert (f r) (set rows - {r})"
proof -
  from assms(2,3) have rows': "rows' = map (\<lambda>r. if p r then f r else r) rows" and "filter p rows \<noteq> []"
    by (auto simp: update_where_Inr)
  then obtain r where r: "r \<in> set rows" "p r" by (auto simp: filter_empty_conv)
  have only: "x = r" if "x \<in> set rows" "p x" for x
    using distinct_map_eq [OF assms(1) that(1) r(1)] assms(4) that(2) r(2) by simp
  have "set rows' = insert (f r) (set rows - {r})"
  proof
    show "set rows' \<subseteq> insert (f r) (set rows - {r})"
      unfolding rows' using only r(2) by (auto split: if_splits)
    show "insert (f r) (set rows - {r}) \<subseteq> set rows'"
    proof
      fix y
      assume "y \<in> insert (f r) (set rows - {r})"
      then consider "y = f r" | "y \<in> set rows" "\<not> p y" using only by blast
      then have "\<exists>x\<in>set rows. y = (if p x then f x else x)" using r by cases (auto intro: bexI [of _ r])
      then show "y \<in> set rows'" by (simp only: rows' set_map image_iff)
    qed
  qed
  with r that show thesis by blast
qed

lemma books_inj: "db_ok d \<Longrightarrow> r \<in> set (books d) \<Longrightarrow> r' \<in> set (books d) \<Longrightarrow> br_id r = br_id r' \<Longrightarrow> r = r'"
  by (rule distinct_map_eq [OF books_key])

lemma loans_inj: "db_ok d \<Longrightarrow> l \<in> set (loans d) \<Longrightarrow> l' \<in> set (loans d) \<Longrightarrow> lr_id l = lr_id l' \<Longrightarrow> l = l'"
  by (rule distinct_map_eq [OF loans_key])

lemma db_keys: "db_ok d \<Longrightarrow> keys (set (books d)) (set (loans d)) (set (operations d))"
  using books_key [of d] loans_key [of d] loans_reservation_key [of d] operations_key [of d]
  by (simp add: keys_def distinct_map)

text \<open>What a repository's update does when the row it was prepared from is the row it meets.\<close>

lemma update_book_effect:
  assumes "db_ok d" and "update_book (bid b') (book_version b') (book_from_entity b') d = Inr d'"
    and stored: "\<forall>r\<in>set (books d). br_id r = bid b \<longrightarrow> br_version r = book_version b \<longrightarrow> r = book_from_entity b"
    and same: "bid b' = bid b" "title b' = title b" "author b' = author b" "book_version b' = book_version b"
  shows "book_from_entity b \<in> set (books d)"
    and "set (books d') = insert (book_from_entity (b'\<lparr>book_version := book_version b + 1\<rparr>)) (set (books d) - {book_from_entity b})"
    and "\<exists>rows. d' = d\<lparr>books := rows\<rparr>"
proof -
  obtain r rows where r: "r \<in> set (books d)" "br_id r = bid b'" "br_version r = book_version b'"
    and rows: "d' = d\<lparr>books := rows\<rparr>"
      "set rows = insert (book_from_entity (b'\<lparr>book_version := book_version b + 1\<rparr>)) (set (books d) - {r})"
  proof (rule update_book_Inr [OF assms(2)], erule (1) update_where_one [OF books_key [OF assms(1)]])
    fix rows r
    assume r: "r \<in> set (books d)" "br_id r = bid b' \<and> br_version r = book_version b'" and d': "d' = d\<lparr>books := rows\<rparr>"
    from r same stored have rb: "r = book_from_entity b" by simp
    assume "set rows = insert (r\<lparr>br_status := br_status (book_from_entity b'), br_reserved_at := br_reserved_at (book_from_entity b'),
        br_borrowed_at := br_borrowed_at (book_from_entity b'), br_return_due_date := br_return_due_date (book_from_entity b'),
        br_reservation_id := br_reservation_id (book_from_entity b'),
        br_reservation_generation := br_reservation_generation (book_from_entity b'),
        br_reserved_patron_id := br_reserved_patron_id (book_from_entity b'),
        br_reserved_patron_email := br_reserved_patron_email (book_from_entity b'),
        br_current_loan_id := br_current_loan_id (book_from_entity b'),
        br_last_completed_loan_id := br_last_completed_loan_id (book_from_entity b'),
        br_version := book_version b' + 1\<rparr>) (set (books d) - {r})"
    with rb same have "set rows = insert (book_from_entity (b'\<lparr>book_version := book_version b + 1\<rparr>)) (set (books d) - {r})"
      by (simp add: book_from_entity_def)
    with r d' that show thesis by simp
  qed auto
  from r same stored have "r = book_from_entity b" by simp
  with r rows show "book_from_entity b \<in> set (books d)"
    and "set (books d') = insert (book_from_entity (b'\<lparr>book_version := book_version b + 1\<rparr>)) (set (books d) - {book_from_entity b})"
    and "\<exists>rows. d' = d\<lparr>books := rows\<rparr>" by auto
qed

lemma update_loan_effect:
  assumes "db_ok d" and "update_loan (loan_id l') (loan_version l') (loan_from_entity l') d = Inr d'"
    and stored: "\<forall>r\<in>set (loans d). lr_id r = loan_id l \<longrightarrow> lr_version r = loan_version l \<longrightarrow> r = loan_from_entity l"
    and same: "loan_id l' = loan_id l" "loan_version l' = loan_version l" "loan_patron_id l' = loan_patron_id l"
      "loan_patron_email l' = loan_patron_email l" "loan_book_id l' = loan_book_id l" "loan_book_title l' = loan_book_title l"
      "loan_reservation_id l' = loan_reservation_id l" "loan_borrowed_at l' = loan_borrowed_at l"
      "loan_reservation_generation l' = loan_reservation_generation l"
  shows "loan_from_entity l \<in> set (loans d)"
    and "set (loans d') = insert (loan_from_entity (l'\<lparr>loan_version := loan_version l + 1\<rparr>)) (set (loans d) - {loan_from_entity l})"
    and "\<exists>rows. d' = d\<lparr>loans := rows\<rparr>"
proof -
  obtain r rows where r: "r \<in> set (loans d)" "lr_id r = loan_id l'" "lr_version r = loan_version l'"
    and rows: "d' = d\<lparr>loans := rows\<rparr>"
      "set rows = insert (loan_from_entity (l'\<lparr>loan_version := loan_version l + 1\<rparr>)) (set (loans d) - {r})"
  proof (rule update_loan_Inr [OF assms(2)], erule (1) update_where_one [OF loans_key [OF assms(1)]])
    fix rows r
    assume r: "r \<in> set (loans d)" "lr_id r = loan_id l' \<and> lr_version r = loan_version l'" and d': "d' = d\<lparr>loans := rows\<rparr>"
    from r same stored have rl: "r = loan_from_entity l" by simp
    assume "set rows = insert (r\<lparr>lr_status := lr_status (loan_from_entity l'), lr_returned_at := lr_returned_at (loan_from_entity l'),
        lr_due_date := lr_due_date (loan_from_entity l'), lr_version := loan_version l' + 1\<rparr>) (set (loans d) - {r})"
    with rl same have "set rows = insert (loan_from_entity (l'\<lparr>loan_version := loan_version l + 1\<rparr>)) (set (loans d) - {r})"
      by (simp add: loan_from_entity_def)
    with r d' that show thesis by simp
  qed auto
  from r same stored have "r = loan_from_entity l" by simp
  with r rows show "loan_from_entity l \<in> set (loans d)"
    and "set (loans d') = insert (loan_from_entity (l'\<lparr>loan_version := loan_version l + 1\<rparr>)) (set (loans d) - {loan_from_entity l})"
    and "\<exists>rows. d' = d\<lparr>loans := rows\<rparr>" by auto
qed

definition moved :: "borrow_operation \<Rightarrow> operation_status \<Rightarrow> string option \<Rightarrow> string option \<Rightarrow> instant \<Rightarrow> borrow_operation" where
  "moved q st loan f at = q\<lparr>op_status := st, op_loan_id := loan, op_failure_reason := f, op_updated_at := at\<rparr>"

lemma moved_simps [simp]:
  "op_corr (moved q st loan f at) = op_corr q" "op_canonical (moved q st loan f at) = op_canonical q"
  "op_status (moved q st loan f at) = st" "op_loan_id (moved q st loan f at) = loan"
  by (simp_all add: moved_def op_corr_def op_canonical_def)

lemma transition_effect:
  assumes "db_ok d" and "transition_operation i st b p g l f at d = Inr d'"
  obtains q sources where "allowed_sources st = Some sources" "q \<in> set (operations d)"
    "op_corr q = (b, Some i, g, Some p)" "op_status q \<in> set sources"
    "set (operations d') = insert (moved q st l f at) (set (operations d) - {q})"
    "\<exists>rows. d' = d\<lparr>operations := rows\<rparr>"
proof (rule transition_operation_Inr [OF assms(2)])
  fix rows n sources
  assume d': "d' = d\<lparr>operations := rows\<rparr>" and n: "n \<noteq> 0" and s: "allowed_sources st = Some sources"
    and u: "update_where operation_schema (\<lambda>r. operation_id r = i \<and> op_book_id r = b \<and> op_patron_id r = p \<and> op_generation r = g \<and> op_status r \<in> set sources)
       (\<lambda>r. r\<lparr>op_status := st, op_loan_id := l, op_failure_reason := f, op_updated_at := at\<rparr>) (operations d) = Inr (rows, n)"
  obtain q where q: "q \<in> set (operations d)"
      "operation_id q = i \<and> op_book_id q = b \<and> op_patron_id q = p \<and> op_generation q = g \<and> op_status q \<in> set sources"
      "set rows = insert (q\<lparr>op_status := st, op_loan_id := l, op_failure_reason := f, op_updated_at := at\<rparr>) (set (operations d) - {q})"
    by (rule update_where_one [OF operations_key [OF assms(1)] u n, of i]) simp_all
  show thesis
  proof (rule that [OF s q(1)])
    show "op_corr q = (b, Some i, g, Some p)" "op_status q \<in> set sources" using q(2) by (simp_all add: op_corr_def)
    show "set (operations d') = insert (moved q st l f at) (set (operations d) - {q})"
      using q(3) by (simp add: d' moved_def)
    show "\<exists>rows. d' = d\<lparr>operations := rows\<rparr>" by (blast intro: d')
  qed
qed

end
