(* ===== verification/SagaViews.thy ===== *)
theory SagaViews
  imports SagaEffects
begin

text \<open>
  What stays true while the workflow runs: \<open>good\<close> collects the schemas, the rows being
  written by well-formed aggregates, the consistency of the two contexts, and the outbox
  holding the event of every step taken; \<open>older\<close> relates an earlier state of the database to
  a later one. A handler that reads an old state and commits on the current one changes a
  row only if that row is still the one it read.
\<close>

section \<open>The outbox records every step\<close>

fun reserved_of :: "event_data \<Rightarrow> correlation option" where
  "reserved_of (CatalogEvent (CatalogBookReserved b t rid g p at em)) = Some (b, Some rid, g, Some p)"
| "reserved_of _ = None"

fun released_of :: "event_data \<Rightarrow> correlation option" where
  "released_of (CatalogEvent (CatalogBookReleased b rid g p reason)) = Some (b, Some rid, g, Some p)"
| "released_of _ = None"

fun borrowed_of :: "event_data \<Rightarrow> (correlation \<times> string option) option" where
  "borrowed_of (CatalogEvent (CatalogBookBorrowed b t rid g p lid at due em)) = Some ((b, Some rid, g, Some p), Some lid)"
| "borrowed_of _ = None"

fun returned_of :: "event_data \<Rightarrow> (correlation \<times> string option) option" where
  "returned_of (CatalogEvent (CatalogBookReturned b lid rid g p)) = Some ((b, Some rid, g, Some p), Some lid)"
| "returned_of _ = None"

fun completed_loan :: "event_data \<Rightarrow> string option" where
  "completed_loan (LendingEvent (LoanCompleted lid rid g p b at overdue)) = Some lid"
| "completed_loan _ = None"

fun cancelled_loan :: "event_data \<Rightarrow> string option" where
  "cancelled_loan (LendingEvent (LoanCancelled lid rid g p b reason)) = Some lid"
| "cancelled_loan _ = None"

fun due_of :: "event_data \<Rightarrow> (string \<times> instant) option" where
  "due_of (LendingEvent (LoanCreated lid rid g p em b t at due)) = Some (lid, due)"
| "due_of (LendingEvent (LoanExtended lid p b old new)) = Some (lid, new)"
| "due_of _ = None"

text \<open>The events that an operation and a loan must have behind them, by their status and due date.\<close>

definition op_recorded :: "event_data set \<Rightarrow> borrow_operation \<Rightarrow> bool" where
  "op_recorded E q \<longleftrightarrow> Some (op_corr q) \<in> reserved_of ` E
     \<and> (op_status q = OpReleased \<longrightarrow> Some (op_corr q) \<in> released_of ` E)
     \<and> (settled (op_status q) \<longrightarrow> Some (op_corr q, op_loan_id q) \<in> borrowed_of ` E)
     \<and> (op_status q = OpReturned \<longrightarrow> Some (op_corr q, op_loan_id q) \<in> returned_of ` E)"

definition loan_recorded :: "event_data set \<Rightarrow> loan_row \<Rightarrow> bool" where
  "loan_recorded E l \<longleftrightarrow> Some (lr_id l) \<in> created_loan ` E
     \<and> (lr_status l = ''returned'' \<longrightarrow> Some (lr_id l) \<in> completed_loan ` E)
     \<and> (lr_status l = ''cancelled'' \<longrightarrow> Some (lr_id l) \<in> cancelled_loan ` E)
     \<and> Some (lr_id l, lr_due_date l) \<in> due_of ` E"

definition recorded :: "loan_row set \<Rightarrow> borrow_operation set \<Rightarrow> event_data set \<Rightarrow> bool" where
  "recorded L Q E \<longleftrightarrow> (\<forall>q\<in>Q. op_recorded E q) \<and> (\<forall>l\<in>L. loan_recorded E l)"

lemma recorded_more:
  assumes "recorded L Q E" and "E \<subseteq> E'"
  shows "recorded L Q E'"
proof -
  note i = image_mono [OF assms(2), THEN subsetD]
  have "op_recorded E' q" if "op_recorded E q" for q using that unfolding op_recorded_def by (auto intro: i simp del: image_iff)
  moreover have "loan_recorded E' l" if "loan_recorded E l" for l using that unfolding loan_recorded_def by (auto intro: i simp del: image_iff)
  ultimately show ?thesis using assms(1) unfolding recorded_def by blast
qed

lemma recorded_op:
  assumes "recorded L Q E" and "q \<in> Q" and "E \<subseteq> E'" and "op_recorded E' q \<Longrightarrow> op_recorded E' q'"
  shows "recorded L (insert q' (Q - {q})) E'"
  using recorded_more [OF assms(1,3)] assms(2,4) unfolding recorded_def by blast

lemma recorded_loan:
  assumes "recorded L Q E" and "l \<in> L" and "E \<subseteq> E'" and "loan_recorded E' l \<Longrightarrow> loan_recorded E' l'"
  shows "recorded (insert l' (L - {l})) Q E'"
  using recorded_more [OF assms(1,3)] assms(2,4) unfolding recorded_def by blast

lemma recorded_new_op: "recorded L Q E \<Longrightarrow> E \<subseteq> E' \<Longrightarrow> op_recorded E' q \<Longrightarrow> recorded L (insert q Q) E'"
  using recorded_more [of L Q E E'] unfolding recorded_def by blast

lemma recorded_new_loan: "recorded L Q E \<Longrightarrow> E \<subseteq> E' \<Longrightarrow> loan_recorded E' l \<Longrightarrow> recorded (insert l L) Q E'"
  using recorded_more [of L Q E E'] unfolding recorded_def by blast

section \<open>Good states\<close>

definition entities_ok :: "book_row set \<Rightarrow> loan_row set \<Rightarrow> bool" where
  "entities_ok B L \<longleftrightarrow> B \<subseteq> book_from_entity ` Collect book_wf \<and> L \<subseteq> loan_from_entity ` Collect loan_wf"

definition good :: "db \<Rightarrow> bool" where
  "good d \<longleftrightarrow> db_ok d \<and> entities_ok (set (books d)) (set (loans d))
     \<and> saga_core (set (books d)) (set (loans d)) (set (operations d)) (events d)
     \<and> recorded (set (loans d)) (set (operations d)) (events d)"

section \<open>Earlier states\<close>

definition row_older :: "('r \<Rightarrow> string) \<Rightarrow> ('r \<Rightarrow> int) \<Rightarrow> 'r set \<Rightarrow> 'r set \<Rightarrow> bool" where
  "row_older key ver A B \<longleftrightarrow> (\<forall>r\<in>A. \<exists>r'\<in>B. key r' = key r \<and> ver r \<le> ver r' \<and> (ver r' = ver r \<longrightarrow> r' = r))"

definition op_older :: "borrow_operation set \<Rightarrow> borrow_operation set \<Rightarrow> bool" where
  "op_older Q Q' \<longleftrightarrow> (\<forall>q\<in>Q. \<exists>q'\<in>Q'. op_corr q' = op_corr q
     \<and> (op_status q = OpReleased \<or> op_status q = OpReturned \<longrightarrow> op_status q' = op_status q))"

definition older :: "db \<Rightarrow> db \<Rightarrow> bool" where
  "older s d \<longleftrightarrow> row_older br_id br_version (set (books s)) (set (books d))
     \<and> row_older lr_id lr_version (set (loans s)) (set (loans d))
     \<and> op_older (set (operations s)) (set (operations d)) \<and> events s \<subseteq> events d"

lemma row_older_mono: "A \<subseteq> B \<Longrightarrow> row_older key ver A B"
  by (auto simp: row_older_def)

lemma row_older_replace: "key r' = key r \<Longrightarrow> ver r < ver r' \<Longrightarrow> row_older key ver A (insert r' (A - {r}))"
  unfolding row_older_def
proof
  fix x
  assume a: "key r' = key r" "ver r < ver r'" "x \<in> A"
  show "\<exists>r'\<in>insert r' (A - {r}). key r' = key x \<and> ver x \<le> ver r' \<and> (ver r' = ver x \<longrightarrow> r' = x)"
    using a by (cases "x = r") auto
qed

lemma row_older_trans:
  assumes "row_older key ver A B" and "row_older key ver B C"
  shows "row_older key ver A C"
  unfolding row_older_def
proof
  fix x
  assume "x \<in> A"
  with assms(1) obtain y where y: "y \<in> B" "key y = key x" "ver x \<le> ver y" "ver y = ver x \<longrightarrow> y = x"
    unfolding row_older_def by blast
  with assms(2) obtain z where z: "z \<in> C" "key z = key y" "ver y \<le> ver z" "ver z = ver y \<longrightarrow> z = y"
    unfolding row_older_def by blast
  show "\<exists>r'\<in>C. key r' = key x \<and> ver x \<le> ver r' \<and> (ver r' = ver x \<longrightarrow> r' = x)"
  proof (rule bexI [OF _ z(1)], intro conjI impI)
    assume "ver z = ver x"
    with y(3) z(3) have "ver y = ver x" "ver z = ver y" by simp_all
    with y(4) z(4) show "z = x" by simp
  qed (use y z in simp_all)
qed

lemma op_older_mono: "Q \<subseteq> Q' \<Longrightarrow> op_older Q Q'"
  unfolding op_older_def by blast

lemma op_older_replace:
  assumes "op_corr q' = op_corr q" and "op_status q \<noteq> OpReleased" and "op_status q \<noteq> OpReturned"
  shows "op_older Q (insert q' (Q - {q}))"
  unfolding op_older_def
proof
  fix x
  assume "x \<in> Q"
  with assms show "\<exists>y\<in>insert q' (Q - {q}). op_corr y = op_corr x
      \<and> (op_status x = OpReleased \<or> op_status x = OpReturned \<longrightarrow> op_status y = op_status x)"
    by (cases "x = q") auto
qed

lemma op_older_trans: "op_older A B \<Longrightarrow> op_older B C \<Longrightarrow> op_older A C"
  unfolding op_older_def
proof
  fix q
  let ?R = "\<lambda>q q'. op_corr q' = op_corr q
    \<and> (op_status q = OpReleased \<or> op_status q = OpReturned \<longrightarrow> op_status q' = op_status q)"
  assume ab: "\<forall>q\<in>A. \<exists>q'\<in>B. ?R q q'" and bc: "\<forall>q\<in>B. \<exists>q'\<in>C. ?R q q'" and "q \<in> A"
  then obtain y where y: "y \<in> B" "?R q y" by blast
  with bc obtain z where z: "z \<in> C" "?R y z" by blast
  have "?R q z" using y(2) z(2) by simp
  with z(1) show "\<exists>q'\<in>C. ?R q q'" by blast
qed

lemma older_refl: "older d d"
  by (simp add: older_def row_older_mono op_older_mono)

lemma older_trans: "older a b \<Longrightarrow> older b c \<Longrightarrow> older a c"
  unfolding older_def by (meson row_older_trans op_older_trans order_trans)

section \<open>What a handler reads, and what the version test then tells it\<close>

lemma row_older_same:
  assumes "row_older key ver A B" and "r \<in> A" and "x \<in> B" and "key x = key r" and "ver x = ver r"
    and "\<And>y. y \<in> B \<Longrightarrow> key y = key x \<Longrightarrow> y = x"
  shows "x = r"
proof -
  from assms(1,2) obtain y where "y \<in> B" "key y = key r" "ver y = ver r \<longrightarrow> y = r"
    unfolding row_older_def by blast
  with assms(4-6) show ?thesis by metis
qed

lemma book_from_entity_events [simp]: "book_from_entity (b\<lparr>book_events := es\<rparr>) = book_from_entity b"
  by (simp add: book_from_entity_def)

lemma loan_from_entity_events [simp]: "loan_from_entity (l\<lparr>loan_events := es\<rparr>) = loan_from_entity l"
  by (simp add: loan_from_entity_def)

lemma stored_book:
  assumes "entities_ok (set (books v)) L" and "r \<in> set (books v)" and "book_to_entity r = Inr b"
  shows "book_wf b \<and> book_events b = [] \<and> book_from_entity b = r"
proof -
  from assms(1,2) obtain b0 where "book_wf b0" "r = book_from_entity b0" unfolding entities_ok_def by blast
  with assms(3) book_roundtrip [of b0] have "b = b0\<lparr>book_events := []\<rparr>" "book_wf b0" "r = book_from_entity b0" by auto
  then show ?thesis by simp
qed

lemma stored_loan:
  assumes "entities_ok B (set (loans v))" and "r \<in> set (loans v)" and "loan_to_entity r = Inr l"
  shows "loan_wf l \<and> loan_events l = [] \<and> loan_from_entity l = r"
proof -
  from assms(1,2) obtain l0 where "loan_wf l0" "r = loan_from_entity l0" unfolding entities_ok_def by blast
  with assms(3) loan_roundtrip [of l0] have "l = l0\<lparr>loan_events := []\<rparr>" "loan_wf l0" "r = loan_from_entity l0" by auto
  then show ?thesis by simp
qed

definition book_read :: "db \<Rightarrow> db \<Rightarrow> book \<Rightarrow> bool" where
  "book_read v d b \<longleftrightarrow> book_wf b \<and> book_events b = [] \<and> book_from_entity b \<in> set (books v)
     \<and> (\<forall>r\<in>set (books d). br_id r = bid b \<longrightarrow> br_version r = book_version b \<longrightarrow> r = book_from_entity b)"

definition loan_read :: "db \<Rightarrow> db \<Rightarrow> loan \<Rightarrow> bool" where
  "loan_read v d l \<longleftrightarrow> loan_wf l \<and> loan_events l = [] \<and> loan_from_entity l \<in> set (loans v)
     \<and> (\<forall>r\<in>set (loans d). lr_id r = loan_id l \<longrightarrow> lr_version r = loan_version l \<longrightarrow> r = loan_from_entity l)"

lemma read_book:
  assumes "good v" and "older v d" and "db_ok d" and "r \<in> set (books v)" and "book_to_entity r = Inr b"
  shows "book_read v d b \<and> bid b = br_id r"
proof -
  from assms(1) have e: "entities_ok (set (books v)) (set (loans v))" by (simp add: good_def)
  note b = stored_book [OF e assms(4,5)]
  have o: "row_older br_id br_version (set (books v)) (set (books d))" using assms(2) by (simp add: older_def)
  from b have key: "br_id r = bid b" "br_version r = book_version b" by (auto simp: book_from_entity_def)
  have "x = r" if "x \<in> set (books d)" "br_id x = bid b" "br_version x = book_version b" for x
    by (rule row_older_same [OF o assms(4) that(1)]) (use that key books_inj [OF assms(3)] in auto)
  with b assms(4) key show ?thesis unfolding book_read_def by auto
qed

lemma read_loan:
  assumes "good v" and "older v d" and "db_ok d" and "r \<in> set (loans v)" and "loan_to_entity r = Inr l"
  shows "loan_read v d l \<and> loan_id l = lr_id r"
proof -
  from assms(1) have e: "entities_ok (set (books v)) (set (loans v))" by (simp add: good_def)
  note l = stored_loan [OF e assms(4,5)]
  have o: "row_older lr_id lr_version (set (loans v)) (set (loans d))" using assms(2) by (simp add: older_def)
  from l have key: "lr_id r = loan_id l" "lr_version r = loan_version l" by (auto simp: loan_from_entity_def)
  have "x = r" if "x \<in> set (loans d)" "lr_id x = loan_id l" "lr_version x = loan_version l" for x
    by (rule row_older_same [OF o assms(4) that(1)]) (use that key loans_inj [OF assms(3)] in auto)
  with l assms(4) key show ?thesis unfolding loan_read_def by auto
qed

lemma singleton_filter:
  assumes "filter p xs = x # ys"
  shows "x \<in> set xs \<and> p x"
proof -
  have "x \<in> set (filter p xs)" unfolding assms by simp
  then show ?thesis by simp
qed

lemma book_by_id_read:
  assumes "good v" and "older v d" and "db_ok d" and "book_by_id v i = Inr (Some b)"
  shows "book_read v d b \<and> bid b = i"
proof -
  from assms(4) obtain r rs where r: "filter (\<lambda>r. br_id r = i) (books v) = r # rs" "book_to_entity r = Inr b"
    by (auto simp: book_by_id_def split: list.splits)
  from singleton_filter [OF r(1)] have "r \<in> set (books v)" "br_id r = i" by simp_all
  with read_book [OF assms(1-3) this(1) r(2)] show ?thesis by simp
qed

lemma scalar_Inr: "scalar_one_or_none e xs = Inr (Some x) \<longleftrightarrow> xs = [x]" "scalar_one_or_none e xs = Inr None \<longleftrightarrow> xs = []"
  by (auto simp: scalar_one_or_none_def split: list.splits)

lemma ropt_some: "ropt f v = Inr (Some y) \<longleftrightarrow> (\<exists>x. v = Some x \<and> f x = Inr y)"
  by (cases v) (auto simp: result_simps)

lemma loan_by_id_read:
  assumes "good v" and "older v d" and "db_ok d" and "loan_by_id v i = Inr (Some l)"
  shows "loan_read v d l \<and> loan_id l = i"
proof -
  from assms(4) obtain r where r: "filter (\<lambda>r. lr_id r = i) (loans v) = [r]" "loan_to_entity r = Inr l"
    by (auto simp: loan_by_id_def rbind_eq_Inr_iff ropt_some scalar_Inr)
  from singleton_filter [OF r(1)] read_loan [OF assms(1-3) _ r(2)] show ?thesis by auto
qed

lemma loan_by_reservation_read:
  assumes "good v" and "older v d" and "db_ok d" and "loan_by_reservation v raw = Inr (Some l)"
  shows "loan_read v d l \<and> canon_uuid raw = Some (loan_reservation_id l)"
proof -
  from assms(4) obtain i r where r: "canon_uuid raw = Some i" "filter (\<lambda>r. lr_reservation_id r = i) (loans v) = [r]"
      "loan_to_entity r = Inr l"
    by (auto simp: loan_by_reservation_def rbind_eq_Inr_iff ropt_some scalar_Inr lending_reservation_id_Inr)
  from singleton_filter [OF r(2)] have m: "r \<in> set (loans v)" "lr_reservation_id r = i" by auto
  from assms(1) have e: "entities_ok (set (books v)) (set (loans v))" by (simp add: good_def)
  from stored_loan [OF e m(1) r(3)] m(2) have "loan_reservation_id l = i" by (auto simp: loan_from_entity_def)
  with read_loan [OF assms(1-3) m(1) r(3)] r(1) show ?thesis by auto
qed

end
