(* ===== verification/SagaCommits.thy ===== *)
theory SagaCommits
  imports SagaViews
begin

text \<open>
  Each committed transaction of the workflow keeps a good state good, whatever earlier good
  state its handler read.
\<close>

section \<open>Good up to events still to be flushed\<close>

definition good_with :: "event_data set \<Rightarrow> db \<Rightarrow> bool" where
  "good_with F d \<longleftrightarrow> db_ok d \<and> entities_ok (set (books d)) (set (loans d))
     \<and> saga_core (set (books d)) (set (loans d)) (set (operations d)) (events d \<union> F)
     \<and> recorded (set (loans d)) (set (operations d)) (events d \<union> F)"

lemma good_with_empty: "good_with {} d = good d"
  by (simp add: good_with_def good_def)

lemma flush_good:
  assumes "good_with (inserted_events is) d" and "tables_kept is" and "flush_all is d = Inr d'"
  shows "good d' \<and> older d d'"
proof -
  have "db_ok d'" using assms(1,3) flush_all_ok by (auto simp: good_with_def)
  moreover note flush_all_events [OF assms(3)] flush_all_keeps [OF assms(3,2)]
  ultimately show ?thesis using assms(1)
    by (simp add: good_def good_with_def older_def row_older_mono op_older_mono)
qed

lemma good_with_more:
  assumes "good_with F d" and "\<forall>x\<in>N. created_loan x = None \<and> event_backed (set (loans d)) (set (operations d)) x"
  shows "good_with (F \<union> N) d"
proof -
  have "recorded (set (loans d)) (set (operations d)) (events d \<union> F \<union> N)"
    by (rule recorded_more [of _ _ "events d \<union> F"]) (use assms(1) in \<open>auto simp: good_with_def\<close>)
  moreover have "saga_core (set (books d)) (set (loans d)) (set (operations d)) (events d \<union> F)"
    using assms(1) by (simp add: good_with_def)
  then have "saga_core (set (books d)) (set (loans d)) (set (operations d)) (events d \<union> F \<union> N)"
    using assms(2) by (rule core_events)
  ultimately show ?thesis using assms(1) by (simp add: good_with_def Un_assoc)
qed

section \<open>A book and its operation\<close>

lemma allowed_active: "allowed_sources st = Some src \<Longrightarrow> s \<in> set src \<Longrightarrow> s = OpReserved \<or> s = OpBorrowed"
  by (cases st) auto

definition next_row :: "book \<Rightarrow> book_row" where
  "next_row b' = book_from_entity (b'\<lparr>book_version := book_version b' + 1\<rparr>)"

lemma next_row_simps [simp]:
  "br_status (next_row b) = book_status_value (status b)" "br_current_loan_id (next_row b) = current_loan_id b"
  "br_borrowed_at (next_row b) = borrowed_at b" "br_return_due_date (next_row b) = return_due_date b"
  "br_id (next_row b) = bid b" "br_version (next_row b) = book_version b + 1"
  "book_corr (next_row b) = (bid b, reservation_id b, reservation_generation b, reserved_patron_id b)"
  by (simp_all add: next_row_def book_from_entity_def book_corr_def)

lemma row_simps [simp]:
  "br_status (book_from_entity b) = book_status_value (status b)" "br_id (book_from_entity b) = bid b"
  "br_current_loan_id (book_from_entity b) = current_loan_id b" "br_version (book_from_entity b) = book_version b"
  "book_corr (book_from_entity b) = (bid b, reservation_id b, reservation_generation b, reserved_patron_id b)"
  by (simp_all add: book_from_entity_def book_corr_def)

lemma next_row_wf: "book_wf b \<Longrightarrow> next_row b \<in> book_from_entity ` Collect book_wf"
  unfolding next_row_def by (rule imageI) (simp add: book_wf_def validate_state_keeps)

lemma book_transition:
  assumes d: "good_with F d" and read: "book_read v d b" and wf: "book_wf b'"
    and same: "bid b' = bid b" "title b' = title b" "author b' = author b" "book_version b' = book_version b"
    and fence: "canon_uuid i = reservation_id b" "reservation_generation b = g" "reserved_patron_id b = Some p" "ib = bid b"
    and exec: "exec_all (UpdateBook (bid b') (book_version b') (book_from_entity b')
                 # TransitionOperation i st ib p g loan f at # ss) d = Inr d2"
    and core: "\<And>q sources. q \<in> set (operations d) \<Longrightarrow> op_corr q = book_corr (book_from_entity b) \<Longrightarrow>
        op_corr q = (ib, Some i, g, Some p) \<Longrightarrow>
        book_from_entity b \<in> set (books d) \<Longrightarrow> op_canonical q \<Longrightarrow>
        saga_core (insert (next_row b') (set (books d) - {book_from_entity b})) (set (loans d))
          (insert (moved q st loan f at) (set (operations d) - {q})) (events d \<union> F)"
    and N: "\<And>x. x \<in> N \<Longrightarrow> created_loan x = None"
      "\<And>x L Q q. x \<in> N \<Longrightarrow> q \<in> Q \<Longrightarrow> canon_uuid i = Some i \<Longrightarrow> op_corr q = (ib, Some i, g, Some p) \<Longrightarrow>
         op_status q = st \<Longrightarrow> event_backed L Q x"
      "\<And>q E. q \<in> set (operations d) \<Longrightarrow> op_corr q = book_corr (book_from_entity b) \<Longrightarrow>
         op_corr q = (ib, Some i, g, Some p) \<Longrightarrow> book_from_entity b \<in> set (books d) \<Longrightarrow> canon_uuid i = Some i \<Longrightarrow>
         N \<subseteq> E \<Longrightarrow> op_recorded E q \<Longrightarrow> op_recorded E (moved q st loan f at)"
  shows "\<exists>d1. exec_all ss d1 = Inr d2 \<and> good_with (F \<union> N) d1 \<and> older d d1"
proof -
  from exec obtain da d1 where u: "update_book (bid b') (book_version b') (book_from_entity b') d = Inr da"
    and t: "transition_operation i st ib p g loan f at da = Inr d1" and rest: "exec_all ss d1 = Inr d2"
    by (auto elim!: rbindE)
  have ok: "db_ok d" "db_ok da" "db_ok d1"
    using d update_book_ok [OF _ u] transition_operation_ok [OF _ t] by (auto simp: good_with_def)
  have stored: "\<forall>r\<in>set (books d). br_id r = bid b \<longrightarrow> br_version r = book_version b \<longrightarrow> r = book_from_entity b"
    using read by (simp add: book_read_def)
  let ?r = "book_from_entity b"
  note ub = update_book_effect [OF ok(1) u stored same]
  from ub(3) have da: "operations da = operations d" "loans da = loans d" "events da = events d"
    by auto
  obtain q sources where "allowed_sources st = Some sources" "q \<in> set (operations da)"
      "op_corr q = (ib, Some i, g, Some p)" "op_status q \<in> set sources"
      "set (operations d1) = insert (moved q st loan f at) (set (operations da) - {q})"
      "\<exists>rows. d1 = da\<lparr>operations := rows\<rparr>"
    by (rule transition_effect [OF ok(2) t])
  note q = this [unfolded da(1)]
  from q(6) obtain rows where "d1 = da\<lparr>operations := rows\<rparr>" by (rule exE)
  then have d1: "loans d1 = loans d" "events d1 = events d" "books d1 = books da" by (simp_all add: da(2,3))
  have books: "set (books d1) = insert (next_row b') (set (books d) - {?r})"
    unfolding d1(3) next_row_def using ub(2) same(4) by simp
  have canon: "op_canonical q" using d q(2) by (auto simp: good_with_def saga_core_def ops_have_books_def)
  with q(3) have i: "canon_uuid i = Some i" by (auto simp: op_corr_def op_canonical_def)
  with fence q(3) have corr: "op_corr q = book_corr ?r" by (simp add: book_corr_def book_from_entity_def)
  let ?q = "moved q st loan f at"
  have "saga_core (set (books d1)) (set (loans d1)) (set (operations d1)) (events d1 \<union> F)"
    unfolding books q(5) d1(1,2) by (rule core [OF q(2) corr q(3) ub(1) canon])
  then have "saga_core (set (books d1)) (set (loans d1)) (set (operations d1)) (events d1 \<union> F \<union> N)"
  proof (rule core_events)
    show "\<forall>x\<in>N. created_loan x = None \<and> event_backed (set (loans d1)) (set (operations d1)) x"
      using N(1) N(2) [of _ ?q _ _, OF _ _ i] q(3) unfolding q(5) by simp
  qed
  moreover have "recorded (set (loans d1)) (set (operations d1)) (events d1 \<union> F \<union> N)"
    unfolding q(5) d1(1,2)
  proof (rule recorded_op [OF _ q(2)])
    show "op_recorded (events d \<union> F \<union> N) q \<Longrightarrow> op_recorded (events d \<union> F \<union> N) ?q"
      by (rule N(3) [OF q(2) corr q(3) ub(1) i]) auto
  qed (use d in \<open>auto simp: good_with_def\<close>)
  moreover have "entities_ok (set (books d1)) (set (loans d1))"
    unfolding books d1(1,2) using d next_row_wf [OF wf] by (auto simp: good_with_def entities_ok_def)
  ultimately have "good_with (F \<union> N) d1" using ok(3) by (simp add: good_with_def Un_assoc)
  moreover have "older d d1"
    unfolding older_def books q(5) d1(1,2)
    using same allowed_active [OF q(1,4)]
    by (intro conjI row_older_replace op_older_replace row_older_mono [OF subset_refl]) auto
  ultimately show ?thesis using rest by blast
qed

text \<open>The three settlements, as statements.\<close>

lemma keys_with: "good_with F d \<Longrightarrow> keys (set (books d)) (set (loans d)) (set (operations d))"
  by (simp add: good_with_def db_keys)

lemma with_core: "good_with F d \<Longrightarrow> saga_core (set (books d)) (set (loans d)) (set (operations d)) (events d \<union> F)"
  by (simp add: good_with_def)

lemma release_good:
  assumes d: "good_with F d" and read: "book_read v d b"
    and rel: "release amb i g p reason b = Inr (b', changed)" "changed" and ib: "ib = bid b"
    and exec: "exec_all (UpdateBook (bid b') (book_version b') (book_from_entity b')
                 # TransitionOperation i OpReleased ib p g loan f at # ss) d = Inr d2"
  shows "\<exists>d1. exec_all ss d1 = Inr d2 \<and> good_with (F \<union> event_data ` set (book_events b')) d1 \<and> older d d1"
proof -
  from read have b: "book_wf b" "book_events b = []" by (simp_all add: book_read_def)
  have wf: "book_wf b'" by (rule release_wf [OF b(1) rel(1)])
  obtain token ev where f: "canon_uuid i = Some token" "reservation_id b = Some token"
      "reservation_generation b = g" "reserved_patron_id b = Some p" "status b = RESERVED"
    and new: "new_event amb (CatalogEvent (CatalogBookReleased (bid b) token g p (squash reason))) = Inr ev"
    and b': "b' = b\<lparr>status := AVAILABLE, reserved_at := None, borrowed_at := None, return_due_date := None,
                   book_events := [ev]\<rparr>"
    by (rule release_Inr [OF rel(1)]) (use rel(2) b(2) in auto)
  note ev = new_event_data [OF new]
  have cur: "current_loan_id b = None" using b(1) f(5) by (simp add: book_wf_def validate_state_Inr)
  show ?thesis
  proof (rule book_transition [OF d read wf _ _ _ _ _ f(3,4) ib exec])
    show "saga_core (insert (next_row b') (set (books d) - {book_from_entity b})) (set (loans d))
        (insert (moved q OpReleased loan f at) (set (operations d) - {q})) (events d \<union> F)"
      if "q \<in> set (operations d)" "op_corr q = book_corr (book_from_entity b)" "op_corr q = (ib, Some i, g, Some p)"
        "book_from_entity b \<in> set (books d)" "op_canonical q" for q
      by (rule core_release [OF with_core [OF d] keys_with [OF d] that(4) _ that(1,2)])
        (use b' cur f(5) that(5) in simp_all)
    show "event_backed L Q x" if "x \<in> event_data ` set (book_events b')" "q \<in> Q" "canon_uuid i = Some i"
        "op_corr q = (ib, Some i, g, Some p)" "op_status q = OpReleased" for x L Q q
    proof -
      have "x = CatalogEvent (CatalogBookReleased ib i g p (squash reason))" using that(1,3) b' ev f(1) ib by simp
      then show ?thesis using that by auto
    qed
    show "canon_uuid i = reservation_id b" using f by simp
    show "op_recorded E (moved q OpReleased loan f at)" if "op_corr q = (ib, Some i, g, Some p)" "canon_uuid i = Some i"
        "event_data ` set (book_events b') \<subseteq> E" "op_recorded E q" for q E
    proof -
      have "CatalogEvent (CatalogBookReleased ib i g p (squash reason)) \<in> E" using that(2,3) b' ev f(1) ib by simp
      then have "Some (op_corr q) \<in> released_of ` E" using that(1) by (intro image_eqI) simp_all
      with that(4) show ?thesis by (simp add: op_recorded_def settled_def)
    qed
    show "created_loan x = None" if "x \<in> event_data ` set (book_events b')" for x
      using that b' ev by auto
  qed (simp_all add: b')
qed

lemma event_loan_id:
  assumes "good_with F d" and "LendingEvent (LoanCreated lid rid g p em b t at due) \<in> events d \<union> F"
  shows "py_strip lid = lid"
proof -
  have "event_backed (set (loans d)) (set (operations d)) (LendingEvent (LoanCreated lid rid g p em b t at due))"
    using with_core [OF assms(1)] assms(2) unfolding saga_core_def by blast
  then obtain l where l: "l \<in> set (loans d)" "lr_id l = lid" by auto
  with assms(1) obtain x where "loan_wf x" "l = loan_from_entity x" by (auto simp: good_with_def entities_ok_def)
  with l(2) show ?thesis by (simp add: loan_from_entity_def loan_wf_def id_ok_def ref_ok_strip)
qed

lemma confirm_good:
  assumes d: "good_with F d" and read: "book_read v d b"
    and con: "confirm_borrow amb i g p lid at (utc due) b = Inr (b', changed)" "changed" and ib: "ib = bid b"
    and event: "LendingEvent (LoanCreated lid i g p em ib t at due) \<in> events d \<union> F"
    and exec: "exec_all (UpdateBook (bid b') (book_version b') (book_from_entity b')
                 # TransitionOperation i OpBorrowed ib p g (Some lid) f now # ss) d = Inr d2"
  shows "\<exists>d1. exec_all ss d1 = Inr d2 \<and> good_with (F \<union> event_data ` set (book_events b')) d1 \<and> older d d1"
proof -
  from read have b: "book_wf b" "book_events b = []" by (simp_all add: book_read_def)
  have wf: "book_wf b'" by (rule confirm_borrow_wf [OF b(1) con(1)])
  have lid: "py_strip lid = lid" by (rule event_loan_id [OF d event])
  obtain token fr du em2 ev where f: "canon_uuid i = Some token" "reservation_id b = Some token"
      "reservation_generation b = g" "reserved_patron_id b = Some p" "status b = RESERVED"
    and dates: "require_utc_datetime at ''borrowed_at'' = Inr fr" "require_utc_datetime (utc due) ''return_due_date'' = Inr du"
    and new: "new_event amb (CatalogEvent (CatalogBookBorrowed (bid b) (title b) token g p lid fr du em2)) = Inr ev"
    and b': "b' = b\<lparr>status := BORROWED, reserved_at := None, current_loan_id := Some lid,
                     borrowed_at := Some fr, return_due_date := Some du, book_events := [ev]\<rparr>"
    by (rule confirm_borrow_Inr [OF con(1)]) (use con(2) b(2) lid in auto)
  note ev = new_event_data [OF new]
  have at: "same_instant fr at" "du = due"
    using dates by (auto simp: require_utc_Inr same_instant_def split: if_splits)
  show ?thesis
  proof (rule book_transition [OF d read wf _ _ _ _ _ f(3,4) ib exec])
    show "saga_core (insert (next_row b') (set (books d) - {book_from_entity b})) (set (loans d))
        (insert (moved q OpBorrowed (Some lid) f now) (set (operations d) - {q})) (events d \<union> F)"
      if "q \<in> set (operations d)" "op_corr q = book_corr (book_from_entity b)" "op_corr q = (ib, Some i, g, Some p)"
        "book_from_entity b \<in> set (books d)" "op_canonical q" for q
      by (rule core_confirm [OF with_core [OF d] keys_with [OF d] that(4) _ that(1,2) event that(3)])
        (use b' f(5) that(5) at in simp_all)
    show "event_backed L Q x" if "x \<in> event_data ` set (book_events b')" for x L Q
      using that b' ev by auto
    show "canon_uuid i = reservation_id b" using f by simp
    show "created_loan x = None" if "x \<in> event_data ` set (book_events b')" for x
      using that b' ev by auto
    show "op_recorded E (moved q OpBorrowed (Some lid) f now)" if "op_corr q = (ib, Some i, g, Some p)" "canon_uuid i = Some i"
        "event_data ` set (book_events b') \<subseteq> E" "op_recorded E q" for q E
    proof -
      have "CatalogEvent (CatalogBookBorrowed ib (title b) i g p lid fr du em2) \<in> E" using that(2,3) b' ev f(1) ib by simp
      then have "Some (op_corr q, Some lid) \<in> borrowed_of ` E" using that(1) by (intro image_eqI) simp_all
      with that(4) show ?thesis by (simp add: op_recorded_def)
    qed
  qed (simp_all add: b')
qed

lemma return_good:
  assumes d: "good_with F d" and read: "book_read v d b"
    and ret: "return_book amb lid i g p b = Inr (b', changed)" "changed" and ib: "ib = bid b"
    and event: "LendingEvent (LoanCompleted lid i g p ib at overdue) \<in> events d \<union> F"
    and exec: "exec_all (UpdateBook (bid b') (book_version b') (book_from_entity b')
                 # TransitionOperation i OpReturned ib p g (Some lid) f now # ss) d = Inr d2"
  shows "\<exists>d1. exec_all ss d1 = Inr d2 \<and> good_with (F \<union> event_data ` set (book_events b')) d1 \<and> older d d1"
proof -
  from read have b: "book_wf b" "book_events b = []" by (simp_all add: book_read_def)
  have wf: "book_wf b'" by (rule return_book_wf [OF b(1) ret(1)])
  have "event_backed (set (loans d)) (set (operations d)) (LendingEvent (LoanCompleted lid i g p ib at overdue))"
    using with_core [OF d] event unfolding saga_core_def by blast
  then obtain l where l: "l \<in> set (loans d)" "lr_id l = lid" by auto
  with d obtain x where "loan_wf x" "l = loan_from_entity x" by (auto simp: good_with_def entities_ok_def)
  with l(2) have lid: "py_strip lid = lid" by (simp add: loan_from_entity_def loan_wf_def id_ok_def ref_ok_strip)
  obtain token ev where f: "canon_uuid i = Some token" "reservation_id b = Some token"
      "reservation_generation b = g" "reserved_patron_id b = Some p" "status b = BORROWED" "current_loan_id b = Some lid"
    and new: "new_event amb (CatalogEvent (CatalogBookReturned (bid b) lid token g p)) = Inr ev"
    and b': "b' = b\<lparr>status := AVAILABLE, borrowed_at := None, return_due_date := None,
                     current_loan_id := None, last_completed_loan_id := Some lid, book_events := [ev]\<rparr>"
    by (rule return_book_Inr [OF ret(1)]) (use ret(2) b(2) lid in auto)
  note ev = new_event_data [OF new]
  show ?thesis
  proof (rule book_transition [OF d read wf _ _ _ _ _ f(3,4) ib exec])
    show "saga_core (insert (next_row b') (set (books d) - {book_from_entity b})) (set (loans d))
        (insert (moved q OpReturned (Some lid) f now) (set (operations d) - {q})) (events d \<union> F)"
      if "q \<in> set (operations d)" "op_corr q = book_corr (book_from_entity b)" "op_corr q = (ib, Some i, g, Some p)"
        "book_from_entity b \<in> set (books d)" "op_canonical q" for q
      by (rule core_return [OF with_core [OF d] keys_with [OF d] that(4) _ _ that(1,2) event])
        (use b' f(5,6) that(5) in simp_all)
    show "event_backed L Q x" if "x \<in> event_data ` set (book_events b')" for x L Q
      using that b' ev by auto
    show "canon_uuid i = reservation_id b" using f by simp
    show "created_loan x = None" if "x \<in> event_data ` set (book_events b')" for x
      using that b' ev by auto
    show "op_recorded E (moved q OpReturned (Some lid) f now)" if "q \<in> set (operations d)" "op_corr q = book_corr (book_from_entity b)"
        "op_corr q = (ib, Some i, g, Some p)" "book_from_entity b \<in> set (books d)" "canon_uuid i = Some i"
        "event_data ` set (book_events b') \<subseteq> E" "op_recorded E q" for q E
    proof -
      have "op_status q = OpBorrowed" "op_loan_id q = Some lid"
        using current_operation(2) [OF with_core [OF d] keys_with [OF d] that(4,1,2)] f(5,6) by simp_all
      moreover have "CatalogEvent (CatalogBookReturned ib lid i g p) \<in> E" using that(5,6) b' ev f(1) ib by simp
      then have "Some (op_corr q, Some lid) \<in> returned_of ` E" using that(3) by (intro image_eqI) simp_all
      ultimately show ?thesis using that(7) by (simp add: op_recorded_def settled_def)
    qed
  qed (simp_all add: b')
qed

section \<open>Reserving\<close>

lemma insert_operation_sets:
  assumes "flush_insert (InsOperation q) d = Inr d'"
  shows "set (operations d') = insert q (set (operations d))" and "books d' = books d" and "loans d' = loans d"
    and "events d' = events d"
  using assms by (auto simp: insert_row_Inr)

lemma insert_loan_sets:
  assumes "flush_insert (InsLoan l) d = Inr d'"
  shows "loans d' = loans d @ [l]" and "books d' = books d" and "operations d' = operations d"
    and "events d' = events d"
  using assms by (auto simp: insert_row_Inr)

lemma insert_book_sets:
  assumes "flush_insert (InsBook b) d = Inr d'"
  shows "books d' = books d @ [b]" and "loans d' = loans d" and "operations d' = operations d"
    and "events d' = events d"
  using assms by (auto simp: insert_row_Inr)

lemma reserve_good:
  assumes d: "good d" and read: "book_read v d b"
    and res: "reserve amb i p em at given b = Inr (b', token)"
    and q: "op_corr q = (bid b', Some token, reservation_generation b', Some p)" "op_status q = OpReserved"
    and p: "py_strip p = p"
    and exec: "exec_all [UpdateBook (bid b') (book_version b') (book_from_entity b')] d = Inr da"
    and ins: "flush_all (InsOperation q # rest) da = Inr d2"
    and rest: "tables_kept rest" "inserted_events rest = event_data ` set (book_events b')"
  shows "good d2 \<and> older d d2"
proof -
  from read have b: "book_wf b" "book_events b = []" by (simp_all add: book_read_def)
  have wf: "book_wf b'" by (rule reserve_wf [OF b(1) res])
  obtain em2 t ev where avail: "status b = AVAILABLE" and pr: "ref_ok p"
    and tok: "canon_uuid token = Some token"
    and new: "new_event amb (CatalogEvent (CatalogBookReserved (bid b) (title b) token
       (reservation_generation b + 1) p t em2)) = Inr ev"
    and b': "b' = b\<lparr>status := RESERVED, reserved_at := Some t, borrowed_at := None, return_due_date := None,
            reservation_id := Some token, reservation_generation := reservation_generation b + 1,
            reserved_patron_id := Some p, reserved_patron_email := Some em2, current_loan_id := None,
            book_events := [ev]\<rparr>"
    by (rule reserve_Inr [OF res]) (use b(2) p canon_uuid_idem in auto)
  note ev = new_event_data [OF new]
  from exec have u: "update_book (bid b') (book_version b') (book_from_entity b') d = Inr da" by (auto elim: rbindE)
  have ok: "db_ok d" using d by (simp add: good_def)
  have stored: "\<forall>r\<in>set (books d). br_id r = bid b \<longrightarrow> br_version r = book_version b \<longrightarrow> r = book_from_entity b"
    using read by (simp add: book_read_def)
  let ?r = "book_from_entity b"
  have ub: "?r \<in> set (books d)" "set (books da) = insert (next_row b') (set (books d) - {?r})"
      "\<exists>rows. da = d\<lparr>books := rows\<rparr>"
    using update_book_effect [OF ok u stored] b' by (simp_all add: next_row_def)
  then obtain rows where "da = d\<lparr>books := rows\<rparr>" by blast
  then have da: "operations da = operations d" "loans da = loans d" "events da = events d" by simp_all
  from ins obtain d1 where i1: "flush_insert (InsOperation q) da = Inr d1" and i2: "flush_all rest d1 = Inr d2"
    by (auto elim!: rbindE simp del: flush_insert.simps)
  note s = insert_operation_sets [OF i1, unfolded da]
  have ok1: "db_ok d1" using flush_insert_ok [OF update_book_ok [OF ok u] i1] .
  have canon: "op_canonical q" using q(1) pr tok wf
    by (simp add: op_canonical_def op_corr_def book_wf_def id_ok_def)
  let ?B = "insert (next_row b') (set (books d) - {?r})"
  let ?Q = "insert q (set (operations d))"
  let ?N = "event_data ` set (book_events b')"
  have N: "?N = {CatalogEvent (CatalogBookReserved (bid b) (title b) token (reservation_generation b + 1) p t em2)}"
    using b' ev by simp
  have corr: "op_corr q = (bid b, Some token, reservation_generation b + 1, Some p)" using q(1) b' by simp
  have "saga_core ?B (set (loans d)) ?Q (events d)"
    by (rule core_reserve [OF _ ub(1)]) (use d avail b' q canon in \<open>simp_all add: good_def\<close>)
  then have "saga_core ?B (set (loans d)) ?Q (events d \<union> ?N)"
    by (rule core_events) (unfold N, use corr in auto)
  moreover have "recorded (set (loans d)) ?Q (events d \<union> ?N)"
    by (rule recorded_new_op [of _ _ "events d"]) (use d q(2) corr in \<open>auto simp: good_def N image_iff op_recorded_def settled_def\<close>)
  moreover have "entities_ok ?B (set (loans d))"
    using d next_row_wf [OF wf] by (auto simp: good_def entities_ok_def)
  ultimately have g: "good_with (inserted_events rest) d1"
    using ok1 unfolding good_with_def rest(2) s ub(2) by simp
  have "older d d1"
    unfolding older_def s ub(2) using b'
    by (intro conjI row_older_replace row_older_mono [OF subset_refl] op_older_mono) auto
  then show ?thesis using flush_good [OF g rest(1) i2] older_trans by blast
qed

section \<open>Loans\<close>

definition next_loan_row :: "loan \<Rightarrow> loan_row" where
  "next_loan_row l = loan_from_entity (l\<lparr>loan_version := loan_version l + 1\<rparr>)"

lemma next_loan_row_simps [simp]:
  "lr_id (next_loan_row l) = loan_id l" "lr_status (next_loan_row l) = loan_status_value (loan_status l)"
  "lr_version (next_loan_row l) = loan_version l + 1" "lr_due_date (next_loan_row l) = loan_due_date l"
  "lr_due_date (loan_from_entity l) = loan_due_date l"
  "loan_corr (next_loan_row l) = (loan_book_id l, Some (loan_reservation_id l), loan_reservation_generation l, Some (loan_patron_id l))"
  "lr_id (loan_from_entity l) = loan_id l" "lr_status (loan_from_entity l) = loan_status_value (loan_status l)"
  "lr_version (loan_from_entity l) = loan_version l"
  "loan_corr (loan_from_entity l) = (loan_book_id l, Some (loan_reservation_id l), loan_reservation_generation l, Some (loan_patron_id l))"
  by (simp_all add: next_loan_row_def loan_from_entity_def loan_corr_def)

lemma next_loan_row_wf: "loan_wf l \<Longrightarrow> next_loan_row l \<in> loan_from_entity ` Collect loan_wf"
  unfolding next_loan_row_def by (rule imageI) (simp add: loan_wf_def)

lemma loan_change_good:
  assumes d: "good d" and read: "loan_read v d l" and wf: "loan_wf l'"
    and same: "loan_id l' = loan_id l" "loan_version l' = loan_version l" "loan_patron_id l' = loan_patron_id l"
      "loan_patron_email l' = loan_patron_email l" "loan_book_id l' = loan_book_id l" "loan_book_title l' = loan_book_title l"
      "loan_reservation_id l' = loan_reservation_id l" "loan_borrowed_at l' = loan_borrowed_at l"
      "loan_reservation_generation l' = loan_reservation_generation l"
    and exec: "exec_all [UpdateLoan (loan_id l') (loan_version l') (loan_from_entity l')] d = Inr da"
    and ins: "flush_all rest da = Inr d2"
    and rest: "tables_kept rest" "inserted_events rest = event_data ` set (loan_events l')"
    and keeps: "loan_status l \<noteq> RETURNED"
    and fits: "\<And>q. q \<in> set (operations d) \<Longrightarrow> loan_fits q (loan_from_entity l) \<Longrightarrow> loan_fits q (next_loan_row l')"
    and N: "\<And>x. x \<in> event_data ` set (loan_events l') \<Longrightarrow> created_loan x = None"
      "\<And>x L Q. x \<in> event_data ` set (loan_events l') \<Longrightarrow> next_loan_row l' \<in> L \<Longrightarrow> event_backed L Q x"
      "\<And>E. event_data ` set (loan_events l') \<subseteq> E \<Longrightarrow> loan_recorded E (loan_from_entity l) \<Longrightarrow> loan_recorded E (next_loan_row l')"
  shows "good d2 \<and> older d d2"
proof -
  from exec have u: "update_loan (loan_id l') (loan_version l') (loan_from_entity l') d = Inr da" by (auto elim: rbindE)
  have ok: "db_ok d" using d by (simp add: good_def)
  have stored: "\<forall>r\<in>set (loans d). lr_id r = loan_id l \<longrightarrow> lr_version r = loan_version l \<longrightarrow> r = loan_from_entity l"
    using read by (simp add: loan_read_def)
  let ?l = "loan_from_entity l"
  note ul = update_loan_effect [OF ok u stored same]
  from ul(3) obtain rows where "da = d\<lparr>loans := rows\<rparr>" by blast
  then have da: "books da = books d" "operations da = operations d" "events da = events d" by simp_all
  have loans: "set (loans da) = insert (next_loan_row l') (set (loans d) - {?l})"
    using ul(2) same(2) by (simp add: next_loan_row_def)
  let ?L = "insert (next_loan_row l') (set (loans d) - {?l})"
  let ?N = "event_data ` set (loan_events l')"
  have not_ret: "lr_status ?l \<noteq> ''returned''" using keeps by (cases "loan_status l") simp_all
  have "saga_core (set (books d)) ?L (set (operations d)) (events d)"
    by (rule core_loan [OF _ ul(1)]) (use d same not_ret fits in \<open>simp_all add: good_def\<close>)
  then have "saga_core (set (books d)) ?L (set (operations d)) (events d \<union> ?N)"
    by (rule core_events) (use N(1,2) in auto)
  moreover have "recorded ?L (set (operations d)) (events d \<union> ?N)"
  proof (rule recorded_loan [OF _ ul(1)])
    show "loan_recorded (events d \<union> ?N) ?l \<Longrightarrow> loan_recorded (events d \<union> ?N) (next_loan_row l')" by (rule N(3)) auto
  qed (use d in \<open>auto simp: good_def\<close>)
  moreover have "entities_ok (set (books d)) ?L"
    using d next_loan_row_wf [OF wf] by (auto simp: good_def entities_ok_def)
  ultimately have g: "good_with (inserted_events rest) da"
    using update_loan_ok [OF ok u] unfolding good_with_def rest(2) da loans by simp
  have "older d da"
    unfolding older_def da loans using same
    by (intro conjI row_older_replace row_older_mono [OF subset_refl] op_older_mono) auto
  then show ?thesis using flush_good [OF g rest(1) ins] older_trans by blast
qed

end
