(* ===== verification/SagaHandlers.thy ===== *)
theory SagaHandlers
  imports SagaCommits PatronHandlers
begin

text \<open>
  Each command handler of the borrow workflow keeps a good database good: it may have read
  any earlier good state, and its plan is committed on the current one.
\<close>

section \<open>Plans\<close>

lemma commit_plan:
  assumes "commit u (ss, is) d = Inr d'"
  obtains d1 where "exec_all ss d = Inr d1" "flush_all is d1 = Inr d'"
  using assms by (auto simp: commit_Inr)

lemma commit_none: "commit u ([], []) d = Inr d' \<Longrightarrow> d' = d"
  by (simp add: commit_Inr)

lemma commit_inserts:
  assumes "good d" and "commit u ([], is) d = Inr d'" and "tables_kept is"
    and "\<forall>x\<in>inserted_events is. created_loan x = None \<and> event_backed (set (loans d)) (set (operations d)) x"
  shows "good d' \<and> older d d'"
proof -
  have "good_with ({} \<union> inserted_events is) d"
    using assms(1,4) by (intro good_with_more) (auto simp: good_with_empty)
  then have "good_with (inserted_events is) d" by simp
  with flush_good [OF _ assms(3)] assms(2) show ?thesis by (auto simp: commit_Inr)
qed

lemma flush_cons:
  assumes "flush_all (i # is) d = Inr d'"
  obtains d1 where "flush_insert i d = Inr d1" "flush_all is d1 = Inr d'"
  using assms by (auto elim!: rbindE simp del: flush_insert.simps)

section \<open>Adding a book\<close>

lemma add_book_plan:
  assumes "add_book e c v = Inr (p, r)"
  obtains "p = ([], [])"
  | a b key h where "book_post_init a = Inr b" "arg_status a = ''available''"
      "p = ([], InsBook (book_from_entity b) # receipt_for ''catalog.add_book'' key h r @ stage_book b)"
  using assms unfolding add_book_def Let_def
  by (elim rbindE) (auto split: option.splits elim!: rbindE)

lemma add_book_good:
  assumes d: "good d" and run: "run_tx u (add_book e c) v d = Inr (d', r)"
  shows "good d' \<and> older d d'"
proof -
  from run obtain p where body: "add_book e c v = Inr (p, r)" and com: "commit u p d = Inr d'"
    by (auto simp: run_tx_Inr)
  from body show ?thesis
  proof (rule add_book_plan)
    assume "p = ([], [])"
    with com commit_none d older_refl show ?thesis by blast
  next
    fix a b key h
    assume b: "book_post_init a = Inr b" "arg_status a = ''available''"
      and p: "p = ([], InsBook (book_from_entity b) # receipt_for ''catalog.add_book'' key h r @ stage_book b)"
    let ?rest = "receipt_for ''catalog.add_book'' key h r @ stage_book b"
    note bw = book_post_init_wf [OF b(1)]
    have st: "status b = AVAILABLE" using book_post_init_Inr(16) [OF b(1)] b(2) by (simp add: book_status_of_def)
    with bw have cur: "current_loan_id b = None" by (simp add: book_wf_def validate_state_Inr)
    from com p obtain d1 where i: "flush_insert (InsBook (book_from_entity b)) d = Inr d1" "flush_all ?rest d1 = Inr d'"
      by (auto elim!: commit_plan flush_cons simp del: flush_insert.simps flush_all.simps(2))
    note s = insert_book_sets [OF i(1)]
    have "saga_core (insert (book_from_entity b) (set (books d))) (set (loans d)) (set (operations d)) (events d)"
      by (rule core_add_book) (use d st cur in \<open>simp_all add: good_def\<close>)
    moreover have "entities_ok (insert (book_from_entity b) (set (books d))) (set (loans d))"
      using d bw by (auto simp: good_def entities_ok_def)
    moreover have "db_ok d1" using d flush_insert_ok [OF _ i(1)] by (simp add: good_def)
    ultimately have "good_with (inserted_events ?rest) d1" "older d d1"
      using d bw s by (auto simp: good_with_def good_def older_def intro!: row_older_mono op_older_mono)
    from flush_good [OF this(1) _ i(2)] this(2) older_trans show ?thesis by fastforce
  qed
qed

section \<open>Borrowing\<close>

lemma patron_row_strip:
  assumes "db_ok v" and "r \<in> set (patrons v)"
  shows "py_strip (pr_id r) = pr_id r"
proof -
  have "row_error patron_schema r = None" using assms by (auto simp: db_ok_def table_ok_def)
  then have "ref_ok (pr_id r)"
    by (auto simp: row_error_None patron_schema_def patron_checks_def patron_types_def ref_ok_def sql_ident_def)
  then show ?thesis by (rule ref_ok_strip)
qed

lemma directory_id:
  assumes "db_ok v" and "directory_find_by_email v em = Inr (Some bp)"
  shows "py_strip (bp_patron_id bp) = bp_patron_id bp"
proof -
  from assms(2) obtain r where "filter (\<lambda>r. pr_email r = py_lower (py_strip em)) (patrons v) = [r]" "bp = translate_patron r"
    by (auto simp: directory_find_by_email_def scalar_Inr eq_commute [of "Some bp"])
  with singleton_filter [OF this(1)] patron_row_strip [OF assms(1), of r] show ?thesis
    by (simp add: translate_patron_def)
qed

lemma borrow_book_plan:
  assumes "borrow_book e c v = Inr (p, r)"
  obtains "p = ([], [])"
  | em bp b b' token key h where "directory_find_by_email v em = Inr (Some bp)"
      "book_by_id v (bb_book_id c) = Inr (Some b)"
      "reserve (ambients e 0) (new_id e) (bp_patron_id bp) (bp_email bp) (utc (clock_now e)) None b = Inr (b', token)"
      "p = ([UpdateBook (bid b') (book_version b') (book_from_entity b')],
            InsOperation \<lparr>operation_id = token, op_book_id = bid b',
                      op_patron_id = bp_patron_id bp, op_generation = reservation_generation b',
                      op_status = OpReserved, op_created_at = clock_now e,
                      op_updated_at = clock_now e, op_loan_id = None, op_failure_reason = None\<rparr>
            # receipt_for ''catalog.borrow_book'' key h r @ stage_book b')"
  using assms unfolding borrow_book_def Let_def
  by (elim rbindE) (auto split: option.splits if_splits elim!: rbindE)

lemma borrow_book_good:
  assumes v: "good v" "older v d" and d: "good d" and run: "run_tx u (borrow_book e c) v d = Inr (d', r)"
  shows "good d' \<and> older d d'"
proof -
  from run obtain p where body: "borrow_book e c v = Inr (p, r)" and com: "commit u p d = Inr d'"
    by (auto simp: run_tx_Inr)
  from body show ?thesis
  proof (rule borrow_book_plan)
    assume "p = ([], [])"
    with com commit_none d older_refl show ?thesis by blast
  next
    fix em bp b b' token key h
    assume bp: "directory_find_by_email v em = Inr (Some bp)" and b: "book_by_id v (bb_book_id c) = Inr (Some b)"
      and res: "reserve (ambients e 0) (new_id e) (bp_patron_id bp) (bp_email bp) (utc (clock_now e)) None b = Inr (b', token)"
      and p: "p = ([UpdateBook (bid b') (book_version b') (book_from_entity b')],
            InsOperation \<lparr>operation_id = token, op_book_id = bid b',
                      op_patron_id = bp_patron_id bp, op_generation = reservation_generation b',
                      op_status = OpReserved, op_created_at = clock_now e,
                      op_updated_at = clock_now e, op_loan_id = None, op_failure_reason = None\<rparr>
            # receipt_for ''catalog.borrow_book'' key h r @ stage_book b')"
    have ok: "db_ok v" "db_ok d" using v(1) d by (simp_all add: good_def)
    have read: "book_read v d b" using book_by_id_read [OF v ok(2) b] by simp
    from com obtain da where ex: "exec_all [UpdateBook (bid b') (book_version b') (book_from_entity b')] d = Inr da"
      and fl: "flush_all (snd p) da = Inr d'" unfolding p by (rule commit_plan) simp
    show ?thesis
      by (rule reserve_good [OF d read res _ _ directory_id [OF ok(1) bp] ex fl [unfolded p snd_conv]])
        (simp_all add: op_corr_def)
  qed
qed

section \<open>Settling a reservation\<close>

lemma commit_transition:
  assumes "commit u (ss, stage_book b') d = Inr d'"
    and "\<And>d1. exec_all ss d = Inr d1 \<Longrightarrow> good_with (event_data ` set (book_events b')) d1 \<and> older d d1"
  shows "good d' \<and> older d d'"
proof -
  from assms(1) obtain d1 where d1: "exec_all ss d = Inr d1" "flush_all (stage_book b') d1 = Inr d'" by (rule commit_plan)
  from assms(2) [OF d1(1)] have g: "good_with (inserted_events (stage_book b')) d1" "older d d1" by simp_all
  from flush_good [OF g(1) _ d1(2)] g(2) older_trans show ?thesis by auto
qed

lemma release_book_reservation_good:
  assumes v: "good v" "older v d" and d: "good d"
    and run: "run_tx u (release_book_reservation e c) v d = Inr (d', r)"
  shows "good d' \<and> older d d'"
proof -
  from run obtain p where body: "release_book_reservation e c v = Inr (p, r)" and com: "commit u p d = Inr d'"
    by (auto simp: run_tx_Inr)
  have ok: "db_ok d" using d by (simp add: good_def)
  from body obtain b b' changed where b: "book_by_id v (rb_book_id c) = Inr (Some b)"
    and rel: "release (ambients e 0) (rb_reservation_id c) (rb_reservation_generation c) (rb_patron_id c)
               (squash (rb_reason c)) b = Inr (b', changed)"
    and p: "p = (if \<not> changed then ([], [])
      else ([UpdateBook (bid b') (book_version b') (book_from_entity b'),
                   TransitionOperation (rb_reservation_id c) OpReleased (rb_book_id c) (rb_patron_id c)
                     (rb_reservation_generation c) None (Some (squash (rb_reason c))) (clock_now e)],
                  stage_book b'))"
    unfolding release_book_reservation_def Let_def
    by (auto elim!: rbindE split: option.splits if_splits)
  show ?thesis
  proof (cases changed)
    case False
    with com p commit_none d older_refl show ?thesis by auto
  next
    case True
    have read: "book_read v d b" "rb_book_id c = bid b" using book_by_id_read [OF v ok b] by simp_all
    from d have gw: "good_with {} d" by (simp add: good_with_empty)
    show ?thesis
    proof (rule commit_transition)
      show "commit u ([UpdateBook (bid b') (book_version b') (book_from_entity b'),
                   TransitionOperation (rb_reservation_id c) OpReleased (rb_book_id c) (rb_patron_id c)
                     (rb_reservation_generation c) None (Some (squash (rb_reason c))) (clock_now e)],
                  stage_book b') d = Inr d'" using com p True by simp
    next
      fix d1
      assume "exec_all [UpdateBook (bid b') (book_version b') (book_from_entity b'),
                   TransitionOperation (rb_reservation_id c) OpReleased (rb_book_id c) (rb_patron_id c)
                     (rb_reservation_generation c) None (Some (squash (rb_reason c))) (clock_now e)] d = Inr d1"
      from release_good [OF gw read(1) rel True read(2) this]
      show "good_with (event_data ` set (book_events b')) d1 \<and> older d d1" by simp
    qed
  qed
qed

lemma confirm_book_borrow_good:
  assumes v: "good v" "older v d" and d: "good d"
    and ev: "LendingEvent ev \<in> events d" "confirm_command_of ev = Some c"
    and run: "run_tx u (confirm_book_borrow e c) v d = Inr (d', r)"
  shows "good d' \<and> older d d'"
proof -
  from run obtain p where body: "confirm_book_borrow e c v = Inr (p, r)" and com: "commit u p d = Inr d'"
    by (auto simp: run_tx_Inr)
  have ok: "db_ok d" using d by (simp add: good_def)
  from ev(2) obtain lid rid g pt em book ttl at due where e: "ev = LoanCreated lid rid g pt em book ttl at due"
    and c: "c = \<lparr>cb_book_id = book, cb_reservation_id = rid, cb_reservation_generation = g,
           cb_patron_id = pt, cb_loan_id = lid, cb_borrowed_at = at, cb_return_due_date = utc due\<rparr>"
    by (cases ev) auto
  let ?ss = "\<lambda>b'. [UpdateBook (bid b') (book_version b') (book_from_entity b'),
                   TransitionOperation rid OpBorrowed book pt g (Some lid) None (clock_now e)]"
  from body obtain b b' changed where b: "book_by_id v book = Inr (Some b)"
    and con: "confirm_borrow (ambients e 0) rid g pt lid at (utc due) b = Inr (b', changed)"
    and p: "p = (if \<not> changed then ([], []) else (?ss b', stage_book b'))"
    unfolding confirm_book_borrow_def c
    by (auto elim!: rbindE split: option.splits if_splits)
  show ?thesis
  proof (cases changed)
    case False
    with com p commit_none d older_refl show ?thesis by auto
  next
    case True
    have read: "book_read v d b" "book = bid b" using book_by_id_read [OF v ok b] by simp_all
    from d have gw: "good_with {} d" by (simp add: good_with_empty)
    from ev(1) e have ev': "LendingEvent (LoanCreated lid rid g pt em book ttl at due) \<in> events d \<union> {}" by simp
    show ?thesis
    proof (rule commit_transition)
      show "commit u (?ss b', stage_book b') d = Inr d'" using com p True by simp
    next
      fix d1
      assume "exec_all (?ss b') d = Inr d1"
      from confirm_good [OF gw read(1) con True read(2) ev' this]
      show "good_with (event_data ` set (book_events b')) d1 \<and> older d d1" by simp
    qed
  qed
qed

lemma return_book_handler_good:
  assumes v: "good v" "older v d" and d: "good d"
    and ev: "LendingEvent ev \<in> events d" "return_command_of ev = Some c"
    and run: "run_tx u (return_book_handler e c) v d = Inr (d', r)"
  shows "good d' \<and> older d d'"
proof -
  from run obtain p where body: "return_book_handler e c v = Inr (p, r)" and com: "commit u p d = Inr d'"
    by (auto simp: run_tx_Inr)
  have ok: "db_ok d" using d by (simp add: good_def)
  from ev(2) obtain lid rid g pt book at overdue where e: "ev = LoanCompleted lid rid g pt book at overdue"
    and c: "c = \<lparr>rt_book_id = book, rt_loan_id = lid, rt_reservation_id = rid,
           rt_reservation_generation = g, rt_patron_id = pt\<rparr>"
    by (cases ev) auto
  let ?ss = "\<lambda>b'. [UpdateBook (bid b') (book_version b') (book_from_entity b'),
                   TransitionOperation rid OpReturned book pt g (Some lid) None (clock_now e)]"
  from body obtain b b' changed where b: "book_by_id v book = Inr (Some b)"
    and ret: "return_book (ambients e 0) lid rid g pt b = Inr (b', changed)"
    and p: "p = (if \<not> changed then ([], []) else (?ss b', stage_book b'))"
    unfolding return_book_handler_def c Let_def
    by (auto elim!: rbindE split: option.splits if_splits)
  show ?thesis
  proof (cases changed)
    case False
    with com p commit_none d older_refl show ?thesis by auto
  next
    case True
    have read: "book_read v d b" "book = bid b" using book_by_id_read [OF v ok b] by simp_all
    from d have gw: "good_with {} d" by (simp add: good_with_empty)
    from ev(1) e have ev': "LendingEvent (LoanCompleted lid rid g pt book at overdue) \<in> events d \<union> {}" by simp
    show ?thesis
    proof (rule commit_transition)
      show "commit u (?ss b', stage_book b') d = Inr d'" using com p True by simp
    next
      fix d1
      assume "exec_all (?ss b') d = Inr d1"
      from return_good [OF gw read(1) ret True read(2) ev' this]
      show "good_with (event_data ` set (book_events b')) d1 \<and> older d d1" by simp
    qed
  qed
qed

section \<open>The sweep\<close>

lemma foldr_hydrated:
  assumes "foldr (\<lambda>r acc. rbind (book_to_entity r) (\<lambda>b. rmap (\<lambda>bs. b # bs) acc)) rows (Inr []) = Inr bs"
  shows "\<forall>b\<in>set bs. \<exists>r\<in>set rows. book_to_entity r = Inr b"
  using assms
proof (induction rows arbitrary: bs)
  case (Cons r rows)
  then obtain b bs' where "book_to_entity r = Inr b" "bs = b # bs'"
    "foldr (\<lambda>r acc. rbind (book_to_entity r) (\<lambda>b. rmap (\<lambda>bs. b # bs) acc)) rows (Inr []) = Inr bs'"
    by (auto elim!: rbindE)
  with Cons.IH [of bs'] show ?case by auto
qed simp

lemma find_expired_stored:
  assumes "find_expired_reservations locked cutoff n v = Inr bs"
  shows "\<forall>b\<in>set bs. \<exists>r\<in>set (books v). book_to_entity r = Inr b"
proof
  fix b
  assume "b \<in> set bs"
  with foldr_hydrated assms obtain r where r: "book_to_entity r = Inr b" and
    "r \<in> set (take (nat n) (sort_key (\<lambda>r. case br_reserved_at r of Some t \<Rightarrow> t | None \<Rightarrow> 0)
       (sort_key br_id (filter (\<lambda>r. br_status r = ''reserved'' \<and> null_or (\<lambda>t. t < cutoff) (br_reserved_at r)
                              \<and> br_reserved_at r \<noteq> None \<and> \<not> locked (br_id r)) (books v)))))"
    unfolding find_expired_reservations_def Let_def by blast
  from this(2) have "r \<in> set (books v)" by (auto dest: in_set_takeD)
  with r show "\<exists>r\<in>set (books v). book_to_entity r = Inr b" by blast
qed

lemma release_each_good:
  assumes "release_each e ttl n bs = Inr ((ss, is), count)" and "exec_all ss d = Inr d2"
    and "good_with F d" and "good v" and "older v d"
    and "\<forall>b\<in>set bs. \<exists>r\<in>set (books v). book_to_entity r = Inr b"
  shows "good_with (F \<union> inserted_events is) d2 \<and> older d d2 \<and> tables_kept is"
  using assms
proof (induction bs arbitrary: n ss "is" count d F)
  case Nil
  then show ?case by (simp add: older_refl)
next
  case (Cons b bs)
  from Cons.prems(1) obtain rid p b' changed ss1 is1 count1 where
    rp: "reservation_id b = Some rid" "reserved_patron_id b = Some p"
    and rel: "release (ambients e n) rid (reservation_generation b) p (expiry_reason ttl) b = Inr (b', changed)"
    and rest: "release_each e ttl (Suc n) bs = Inr ((ss1, is1), count1)"
    and plan: "(ss, is) = (if \<not> changed then (ss1, is1)
      else (UpdateBook (bid b') (book_version b') (book_from_entity b')
              # TransitionOperation rid OpReleased (bid b') p (reservation_generation b') None
                  (Some ''reservation expired'') (clock_now e) # ss1, stage_book b' @ is1))"
    by (auto elim!: rbindE split: option.splits if_splits)
  show ?case
  proof (cases changed)
    case False
    with Cons.IH [OF rest _ Cons.prems(3-5)] Cons.prems(2,6) plan show ?thesis by simp
  next
    case True
    from Cons.prems(6) obtain r where r: "r \<in> set (books v)" "book_to_entity r = Inr b" by auto
    have ok: "db_ok d" using Cons.prems(3) by (simp add: good_with_def)
    have read: "book_read v d b" using read_book [OF Cons.prems(4,5) ok r] by simp
    have same: "bid b' = bid b" "reservation_generation b' = reservation_generation b"
      using rel by (auto elim!: release_Inr)
    from plan True have ss: "ss = UpdateBook (bid b') (book_version b') (book_from_entity b')
        # TransitionOperation rid OpReleased (bid b') p (reservation_generation b) None
            (Some ''reservation expired'') (clock_now e) # ss1" "is = stage_book b' @ is1"
      using same by simp_all
    from release_good [OF Cons.prems(3) read rel True same(1) Cons.prems(2) [unfolded ss(1)]]
    obtain d1 where d1: "exec_all ss1 d1 = Inr d2" "good_with (F \<union> event_data ` set (book_events b')) d1" "older d d1"
      by blast
    from Cons.IH [OF rest d1(1,2) Cons.prems(4) older_trans [OF Cons.prems(5) d1(3)]] Cons.prems(6)
    have "good_with (F \<union> event_data ` set (book_events b') \<union> inserted_events is1) d2" "older d1 d2" "tables_kept is1"
      by simp_all
    with d1(3) older_trans show ?thesis by (auto simp: ss(2) Un_assoc)
  qed
qed

lemma release_expired_good:
  assumes v: "good v" "older v d" and d: "good d"
    and run: "run_tx u (release_expired_reservations e locked c) v d = Inr (d', r)"
  shows "good d' \<and> older d d'"
proof -
  from run obtain p where body: "release_expired_reservations e locked c v = Inr (p, r)" and com: "commit u p d = Inr d'"
    by (auto simp: run_tx_Inr)
  from body obtain cutoff bs count where bs: "find_expired_reservations locked cutoff (re_batch_size c) v = Inr bs"
    and rel: "release_each e (re_ttl_seconds c) 0 bs = Inr (p, count)"
    unfolding release_expired_reservations_def by (auto split: if_splits elim!: rbindE)
  obtain ss "is" where p: "p = (ss, is)" by (cases p)
  from com p obtain d1 where d1: "exec_all ss d = Inr d1" "flush_all is d1 = Inr d'" by (auto elim: commit_plan)
  from d have gw: "good_with {} d" by (simp add: good_with_empty)
  from release_each_good [OF rel [unfolded p] d1(1) gw v find_expired_stored [OF bs]]
  have "good_with (inserted_events is) d1" "older d d1" "tables_kept is" by simp_all
  with flush_good [OF _ _ d1(2)] older_trans show ?thesis by blast
qed

end
