(* ===== verification/SagaLoans.thy ===== *)
theory SagaLoans
  imports SagaHandlers
begin

text \<open>
  The handlers of the Lending and Patron contexts, and the creation of a loan, keep a good
  database good.
\<close>

section \<open>Changing a loan\<close>

lemma loan_changed_wf:
  assumes "loan_step c l = Inr l'" and "loan_wf l"
  shows "loan_wf l'"
  using loan_step_wf assms by blast

lemma fits_if_not_cancelled:
  assumes "loan_corr x = loan_corr l" and "lr_id x = lr_id l" and "lr_status x \<noteq> ''cancelled''"
    and "lr_status l \<noteq> ''returned''" and "loan_fits q l"
  shows "loan_fits q x"
proof -
  from assms(5) have f: "op_corr q = loan_corr l" "settled (op_status q) \<longrightarrow> op_loan_id q = Some (lr_id l)"
    "op_status q \<noteq> OpReturned" unfolding loan_fits_def using assms(4) by blast+
  show ?thesis unfolding loan_fits_def using f assms(3) by (simp add: assms(1,2))
qed

lemma status_value_eq [simp]:
  "loan_status_value s = ''returned'' \<longleftrightarrow> s = RETURNED" "loan_status_value s = ''cancelled'' \<longleftrightarrow> s = CANCELLED"
  by (cases s; simp)+

lemma return_loan_plan:
  assumes "return_loan e c v = Inr (p, r)"
  obtains "p = ([], [])"
  | key h where "p = ([], receipt_for ''lending.return_loan'' key h r)"
  | l l' key h where "loan_by_id v (py_strip (rl_loan_id c)) = Inr (Some l)"
      "loan_return (ambients e 0) (utc (clock_now e)) l = Inr (l', True)"
      "p = ([UpdateLoan (loan_id l') (loan_version l') (loan_from_entity l')],
            receipt_for ''lending.return_loan'' key h r @ stage_loan l')"
  using assms unfolding return_loan_def Let_def
  by (elim rbindE) (auto split: option.splits if_splits elim!: rbindE)

lemma return_loan_good:
  assumes v: "good v" "older v d" and d: "good d" and run: "run_tx u (return_loan e c) v d = Inr (d', r)"
  shows "good d' \<and> older d d'"
proof -
  from run obtain p where body: "return_loan e c v = Inr (p, r)" and com: "commit u p d = Inr d'"
    by (auto simp: run_tx_Inr)
  from body show ?thesis
  proof (rule return_loan_plan)
    assume "p = ([], [])"
    with com commit_none d older_refl show ?thesis by blast
  next
    fix key h
    assume "p = ([], receipt_for ''lending.return_loan'' key h r)"
    with commit_inserts [OF d] com show ?thesis by simp
  next
    fix l l' key h
    assume l: "loan_by_id v (py_strip (rl_loan_id c)) = Inr (Some l)"
      and ret: "loan_return (ambients e 0) (utc (clock_now e)) l = Inr (l', True)"
      and p: "p = ([UpdateLoan (loan_id l') (loan_version l') (loan_from_entity l')],
            receipt_for ''lending.return_loan'' key h r @ stage_loan l')"
    have ok: "db_ok d" using d by (simp add: good_def)
    have read: "loan_read v d l" using loan_by_id_read [OF v ok l] by simp
    then have lw: "loan_wf l" "loan_events l = []" by (simp_all add: loan_read_def)
    have wf: "loan_wf l'"
      by (rule loan_changed_wf [of "Return (ambients e 0) (utc (clock_now e))" l]) (simp_all add: ret lw)
    obtain t ev where st: "loan_status l \<noteq> RETURNED" "loan_status l \<noteq> CANCELLED"
      and new: "new_event (ambients e 0) (LendingEvent (LoanCompleted (loan_id l) (loan_reservation_id l)
         (loan_reservation_generation l) (loan_patron_id l) (loan_book_id l) t (loan_due_date l < t))) = Inr ev"
      and l': "l' = l\<lparr>loan_status := RETURNED, loan_returned_at := Some t, loan_events := [ev]\<rparr>"
    proof (rule loan_return_Inr [OF ret])
      fix t ev
      assume "loan_status l \<noteq> RETURNED" "loan_status l \<noteq> CANCELLED"
        "new_event (ambients e 0) (LendingEvent (LoanCompleted (loan_id l) (loan_reservation_id l)
         (loan_reservation_generation l) (loan_patron_id l) (loan_book_id l) t (loan_due_date l < t))) = Inr ev"
        "l' = l\<lparr>loan_status := RETURNED, loan_returned_at := Some t, loan_events := loan_events l @ [ev]\<rparr>"
      with lw(2) show thesis by (intro that) simp_all
    qed simp
    note ev = new_event_data [OF new]
    from com obtain da where ex: "exec_all [UpdateLoan (loan_id l') (loan_version l') (loan_from_entity l')] d = Inr da"
      and fl: "flush_all (receipt_for ''lending.return_loan'' key h r @ stage_loan l') da = Inr d'"
      unfolding p by (rule commit_plan)
    show ?thesis
    proof (rule loan_change_good [OF d read wf _ _ _ _ _ _ _ _ _ ex fl _ _ st(1)])
      show "loan_fits q (next_loan_row l')" if "loan_fits q (loan_from_entity l)" for q
        by (rule fits_if_not_cancelled [OF _ _ _ _ that]) (simp_all add: l' st)
      show "event_backed L Q x" if "x \<in> event_data ` set (loan_events l')" "next_loan_row l' \<in> L" for x L Q
        using that ev l' by (auto intro!: bexI [OF _ that(2)])
      show "loan_recorded E (next_loan_row l')" if "event_data ` set (loan_events l') \<subseteq> E" "loan_recorded E (loan_from_entity l)" for E
        using that ev l' by (auto simp: loan_recorded_def image_iff intro!: bexI [of _ "event_data ev"])
    qed (use l' ev in auto)
  qed
qed

lemma extend_loan_plan:
  assumes "extend_loan e c v = Inr (p, r)"
  obtains "p = ([], [])"
  | l l' key h where "loan_by_id v (xl_loan_id c) = Inr (Some l)"
      "loan_extend (ambients e 0) (xl_days c) (utc (clock_now e)) l = Inr l'"
      "p = ([UpdateLoan (loan_id l') (loan_version l') (loan_from_entity l')],
            receipt_for ''lending.extend_loan'' key h r @ stage_loan l')"
  using assms unfolding extend_loan_def Let_def
  by (elim rbindE) (auto split: option.splits elim!: rbindE)

lemma extend_loan_good:
  assumes v: "good v" "older v d" and d: "good d" and run: "run_tx u (extend_loan e c) v d = Inr (d', r)"
  shows "good d' \<and> older d d'"
proof -
  from run obtain p where body: "extend_loan e c v = Inr (p, r)" and com: "commit u p d = Inr d'"
    by (auto simp: run_tx_Inr)
  from body show ?thesis
  proof (rule extend_loan_plan)
    assume "p = ([], [])"
    with com commit_none d older_refl show ?thesis by blast
  next
    fix l l' key h
    assume l: "loan_by_id v (xl_loan_id c) = Inr (Some l)"
      and ext: "loan_extend (ambients e 0) (xl_days c) (utc (clock_now e)) l = Inr l'"
      and p: "p = ([UpdateLoan (loan_id l') (loan_version l') (loan_from_entity l')],
            receipt_for ''lending.extend_loan'' key h r @ stage_loan l')"
    have ok: "db_ok d" using d by (simp add: good_def)
    have read: "loan_read v d l" using loan_by_id_read [OF v ok l] by simp
    then have lw: "loan_wf l" "loan_events l = []" by (simp_all add: loan_read_def)
    have wf: "loan_wf l'"
      by (rule loan_changed_wf [of "Extend (ambients e 0) (xl_days c) (utc (clock_now e))" l]) (simp_all add: ext lw)
    obtain due ev where st: "loan_status l = ACTIVE"
      and new: "new_event (ambients e 0) (LendingEvent (LoanExtended (loan_id l) (loan_patron_id l) (loan_book_id l)
            (loan_due_date l) due)) = Inr ev"
      and l': "l' = l\<lparr>loan_due_date := due, loan_events := [ev]\<rparr>"
      by (rule loan_extend_Inr [OF ext]) (use lw(2) in auto)
    note ev = new_event_data [OF new]
    from com obtain da where ex: "exec_all [UpdateLoan (loan_id l') (loan_version l') (loan_from_entity l')] d = Inr da"
      and fl: "flush_all (receipt_for ''lending.extend_loan'' key h r @ stage_loan l') da = Inr d'"
      unfolding p by (rule commit_plan)
    have nr: "loan_status l \<noteq> RETURNED" using st by simp
    show ?thesis
    proof (rule loan_change_good [OF d read wf _ _ _ _ _ _ _ _ _ ex fl _ _ nr])
      show "loan_fits q (next_loan_row l')" if "loan_fits q (loan_from_entity l)" for q
        by (rule fits_if_not_cancelled [OF _ _ _ _ that]) (simp_all add: l' st)
      show "loan_recorded E (next_loan_row l')" if "event_data ` set (loan_events l') \<subseteq> E" "loan_recorded E (loan_from_entity l)" for E
        using that ev l' st by (auto simp: loan_recorded_def image_iff intro!: bexI [of _ "event_data ev"])
    qed (use l' ev st in auto)
  qed
qed

section \<open>Cancelling a loan\<close>

text \<open>What a cancellation may rely on: the reservation it names will not be borrowed.\<close>

definition not_borrowed :: "db \<Rightarrow> correlation \<Rightarrow> bool" where
  "not_borrowed d x \<longleftrightarrow> (\<exists>q\<in>set (operations d). op_corr q = x \<and> (op_status q = OpReleased \<or> op_status q = OpReturned))"

lemma not_borrowed_older: "older v d \<Longrightarrow> not_borrowed v x \<Longrightarrow> not_borrowed d x"
  unfolding older_def op_older_def not_borrowed_def by fastforce

lemma cancel_loan_plan:
  assumes "cancel_loan e c v = Inr (p, r)"
  obtains "p = ([], [])"
  | rid l l' where "canon_uuid (cn_reservation_id c) = Some rid" "loan_by_reservation v rid = Inr (Some l)"
      "cancellation_matches c rid l" "loan_cancel (ambients e 0) (cn_reason c) l = Inr (l', True)"
      "p = ([UpdateLoan (loan_id l') (loan_version l') (loan_from_entity l')], stage_loan l')"
  using assms unfolding cancel_loan_def
  by (auto split: option.splits sum.splits if_splits elim!: rbindE simp: lending_reservation_id_Inr)

lemma cancel_loan_good:
  assumes v: "good v" "older v d" and d: "good d"
    and nb: "not_borrowed d (cn_catalog_book_id c, Some (cn_reservation_id c), cn_reservation_generation c, Some (cn_patron_id c))"
    and run: "run_tx u (cancel_loan e c) v d = Inr (d', r)"
  shows "good d' \<and> older d d'"
proof -
  from run obtain p where body: "cancel_loan e c v = Inr (p, r)" and com: "commit u p d = Inr d'"
    by (auto simp: run_tx_Inr)
  from body show ?thesis
  proof (rule cancel_loan_plan)
    assume "p = ([], [])"
    with com commit_none d older_refl show ?thesis by blast
  next
    fix rid l l'
    assume rid: "canon_uuid (cn_reservation_id c) = Some rid" and l: "loan_by_reservation v rid = Inr (Some l)"
      and m: "cancellation_matches c rid l" and can: "loan_cancel (ambients e 0) (cn_reason c) l = Inr (l', True)"
      and p: "p = ([UpdateLoan (loan_id l') (loan_version l') (loan_from_entity l')], stage_loan l')"
    have ok: "db_ok d" using d by (simp add: good_def)
    have read: "loan_read v d l" using loan_by_reservation_read [OF v ok l] by simp
    then have lw: "loan_wf l" "loan_events l = []" by (simp_all add: loan_read_def)
    have wf: "loan_wf l'"
      by (rule loan_changed_wf [of "Cancel (ambients e 0) (cn_reason c)" l]) (simp_all add: can lw)
    obtain ev where st: "loan_status l \<noteq> RETURNED" "loan_status l \<noteq> CANCELLED"
      and new: "new_event (ambients e 0) (LendingEvent (LoanCancelled (loan_id l) (loan_reservation_id l)
         (loan_reservation_generation l) (loan_patron_id l) (loan_book_id l) (squash (cn_reason c)))) = Inr ev"
      and l': "l' = l\<lparr>loan_status := CANCELLED, loan_events := [ev]\<rparr>"
      by (rule loan_cancel_Inr [OF can]) (use lw(2) in auto)
    note ev = new_event_data [OF new]
    from nb obtain q0 where q0: "q0 \<in> set (operations d)"
        "op_corr q0 = (cn_catalog_book_id c, Some (cn_reservation_id c), cn_reservation_generation c, Some (cn_patron_id c))"
        "op_status q0 = OpReleased \<or> op_status q0 = OpReturned"
      unfolding not_borrowed_def by blast
    have "op_canonical q0" using d q0(1) by (auto simp: good_def saga_core_def ops_have_books_def)
    with q0(2) rid have "cn_reservation_id c = rid" by (auto simp: op_canonical_def op_corr_def)
    with m q0(2) have corr: "op_corr q0 = loan_corr (loan_from_entity l)"
      by (auto simp: cancellation_matches_def)
    from com obtain da where ex: "exec_all [UpdateLoan (loan_id l') (loan_version l') (loan_from_entity l')] d = Inr da"
      and fl: "flush_all (stage_loan l') da = Inr d'"
      unfolding p by (rule commit_plan)
    show ?thesis
    proof (rule loan_change_good [OF d read wf _ _ _ _ _ _ _ _ _ ex fl _ _ st(1)])
      fix q
      assume q: "q \<in> set (operations d)" and fit: "loan_fits q (loan_from_entity l)"
      from fit have "op_corr q = op_corr q0" unfolding loan_fits_def corr by blast
      then have qq: "q = q0" by (rule op_corr_inj [OF db_keys [OF ok] q q0(1)])
      have "op_status q \<noteq> OpReturned"
        using fit st(1) unfolding loan_fits_def by auto
      with q0(3) qq have "op_status q = OpReleased" by simp
      then show "loan_fits q (next_loan_row l')"
        using fit unfolding loan_fits_def settled_def by (simp add: l')
    next
      show "loan_recorded E (next_loan_row l')" if "event_data ` set (loan_events l') \<subseteq> E" "loan_recorded E (loan_from_entity l)" for E
        using that ev l' by (auto simp: loan_recorded_def image_iff intro!: bexI [of _ "event_data ev"])
    qed (use l' ev in auto)
  qed
qed

section \<open>Patrons\<close>

lemma change_patron_plan:
  assumes "change_patron sc i key h change v = Inr (p, r)"
  obtains "p = ([], [])"
  | pt p' where "patron_by_id v i = Inr (Some pt)" "change pt = Inr p'"
      "p = ([UpdatePatron (pid p') (patron_version p') (patron_from_entity p')],
            receipt_for sc key h r @ stage_patron p')"
  using assms unfolding change_patron_def Let_def
  by (elim rbindE) (auto split: option.splits elim!: rbindE)

lemma update_patron_quiet:
  assumes "good d" and "update_patron i n row d = Inr d1"
  shows "good d1 \<and> older d d1 \<and> loans d1 = loans d \<and> operations d1 = operations d"
proof -
  have "db_ok d1" using assms update_patron_ok by (auto simp: good_def)
  then show ?thesis using assms
    by (auto elim!: update_patron_Inr simp: good_def older_def intro!: row_older_mono op_older_mono)
qed

definition patron_events_only :: "domain_event list \<Rightarrow> bool" where
  "patron_events_only es \<longleftrightarrow> (\<forall>ev\<in>set es. \<exists>x. event_data ev = PatronEvent x)"

lemma patron_plan_good:
  assumes d: "good d" and com: "commit u ([UpdatePatron i n row], receipt_for sc key h r @ stage_patron p') d = Inr d'"
    and ev: "patron_events_only (patron_events p')"
  shows "good d' \<and> older d d'"
proof -
  from com obtain d1 where d1: "update_patron i n row d = Inr d1" "flush_all (receipt_for sc key h r @ stage_patron p') d1 = Inr d'"
    by (auto elim!: commit_plan rbindE)
  note q = update_patron_quiet [OF d d1(1)]
  have "commit u ([], receipt_for sc key h r @ stage_patron p') d1 = Inr d'" using d1(2) by (simp add: commit_Inr)
  from commit_inserts [OF conjunct1 [OF q] this] ev have "good d' \<and> older d1 d'"
    by (fastforce simp: patron_events_only_def)
  with q older_trans show ?thesis by blast
qed

lemma patron_change_good:
  assumes d: "good d" and run: "run_tx u (change_patron sc i key h change) v d = Inr (d', r)"
    and ev: "\<And>pt p'. patron_by_id v i = Inr (Some pt) \<Longrightarrow> change pt = Inr p' \<Longrightarrow> patron_events_only (patron_events p')"
  shows "good d' \<and> older d d'"
proof -
  from run obtain p where body: "change_patron sc i key h change v = Inr (p, r)" and com: "commit u p d = Inr d'"
    by (auto simp: run_tx_Inr)
  from body show ?thesis
  proof (rule change_patron_plan)
    assume "p = ([], [])"
    with com commit_none d older_refl show ?thesis by blast
  next
    fix pt p'
    assume "patron_by_id v i = Inr (Some pt)" "change pt = Inr p'"
      and p: "p = ([UpdatePatron (pid p') (patron_version p') (patron_from_entity p')], receipt_for sc key h r @ stage_patron p')"
    with ev patron_plan_good [OF d com [unfolded p]] show ?thesis by blast
  qed
qed

lemma patron_by_id_events:
  assumes "patron_by_id v i = Inr (Some pt)"
  shows "patron_events pt = []"
proof -
  from assms obtain r where "patron_to_entity r = Inr pt"
    by (auto simp: patron_by_id_def rbind_eq_Inr_iff ropt_some)
  with patron_to_entity_wf show ?thesis by blast
qed

lemma suspend_patron_good:
  assumes d: "good d" and run: "run_tx u (suspend_patron e c) v d = Inr (d', r)"
  shows "good d' \<and> older d d'"
proof -
  from run obtain p where com: "commit u p d = Inr d'" and body: "suspend_patron e c v = Inr (p, r)"
    by (auto simp: run_tx_Inr)
  from body obtain key h where b: "change_patron ''patron.suspend'' (py_strip (sp_patron_id c)) key h
      (suspend (ambients e 0) (squash (sp_reason c))) v = Inr (p, r)"
    unfolding suspend_patron_def Let_def by (auto elim!: rbindE)
  show ?thesis
  proof (rule patron_change_good [OF d])
    show "run_tx u (change_patron ''patron.suspend'' (py_strip (sp_patron_id c)) key h
      (suspend (ambients e 0) (squash (sp_reason c)))) v d = Inr (d', r)" using b com by (auto simp: run_tx_Inr)
    show "patron_events_only (patron_events p')" if "patron_by_id v (py_strip (sp_patron_id c)) = Inr (Some pt)"
      "suspend (ambients e 0) (squash (sp_reason c)) pt = Inr p'" for pt p'
      using that(2) patron_by_id_events [OF that(1)]
      by (auto simp: suspend_def Let_def add_patron_event_Inr patron_events_only_def split: if_splits dest!: new_event_data)
  qed
qed

lemma reinstate_patron_good:
  assumes d: "good d" and run: "run_tx u (reinstate_patron e c) v d = Inr (d', r)"
  shows "good d' \<and> older d d'"
proof -
  from run obtain p where com: "commit u p d = Inr d'" and body: "reinstate_patron e c v = Inr (p, r)"
    by (auto simp: run_tx_Inr)
  from body obtain key h where b: "change_patron ''patron.reinstate'' (py_strip (ri_patron_id c)) key h
      (reinstate (ambients e 0)) v = Inr (p, r)"
    unfolding reinstate_patron_def Let_def by (auto elim!: rbindE)
  show ?thesis
  proof (rule patron_change_good [OF d])
    show "run_tx u (change_patron ''patron.reinstate'' (py_strip (ri_patron_id c)) key h
      (reinstate (ambients e 0))) v d = Inr (d', r)" using b com by (auto simp: run_tx_Inr)
    show "patron_events_only (patron_events p')" if "patron_by_id v (py_strip (ri_patron_id c)) = Inr (Some pt)"
      "reinstate (ambients e 0) pt = Inr p'" for pt p'
      using that(2) patron_by_id_events [OF that(1)]
      by (auto simp: reinstate_def add_patron_event_Inr patron_events_only_def split: if_splits dest!: new_event_data)
  qed
qed

lemma upgrade_patron_tier_good:
  assumes d: "good d" and run: "run_tx u (upgrade_patron_tier e c) v d = Inr (d', r)"
  shows "good d' \<and> older d d'"
proof -
  from run obtain p where com: "commit u p d = Inr d'" and body: "upgrade_patron_tier e c v = Inr (p, r)"
    by (auto simp: run_tx_Inr)
  from body obtain key h tier where b: "change_patron ''patron.upgrade_tier'' (py_strip (up_patron_id c)) key h
      (upgrade_tier tier) v = Inr (p, r)"
    unfolding upgrade_patron_tier_def Let_def by (auto elim!: rbindE)
  show ?thesis
  proof (rule patron_change_good [OF d])
    show "run_tx u (change_patron ''patron.upgrade_tier'' (py_strip (up_patron_id c)) key h
      (upgrade_tier tier)) v d = Inr (d', r)" using b com by (auto simp: run_tx_Inr)
    show "patron_events_only (patron_events p')" if "patron_by_id v (py_strip (up_patron_id c)) = Inr (Some pt)"
      "upgrade_tier tier pt = Inr p'" for pt p'
      using that(2) patron_by_id_events [OF that(1)]
      by (auto simp: upgrade_tier_def patron_events_only_def split: if_splits)
  qed
qed

lemma register_patron_plan:
  assumes "register_patron e c v = Inr (p, r)"
  obtains "p = ([], [])"
  | fname lname em tier pt key h where
      "patron_register (ambients e 0) (new_id e) fname lname em (utc (clock_now e)) tier = Inr pt"
      "p = ([], InsPatron (patron_from_entity pt) # receipt_for ''patron.register'' key h r @ stage_patron pt)"
  using assms unfolding register_patron_def Let_def
  by (elim rbindE) (auto split: option.splits prod.splits elim!: rbindE)

lemma register_patron_good:
  assumes d: "good d" and run: "run_tx u (register_patron e c) v d = Inr (d', r)"
  shows "good d' \<and> older d d'"
proof -
  from run obtain p where com: "commit u p d = Inr d'" and body: "register_patron e c v = Inr (p, r)"
    by (auto simp: run_tx_Inr)
  from body show ?thesis
  proof (rule register_patron_plan)
    assume "p = ([], [])"
    with com commit_none d older_refl show ?thesis by blast
  next
    fix fname lname em tier pt key h
    assume reg: "patron_register (ambients e 0) (new_id e) fname lname em (utc (clock_now e)) tier = Inr pt"
      and p: "p = ([], InsPatron (patron_from_entity pt) # receipt_for ''patron.register'' key h r @ stage_patron pt)"
    from reg obtain p0 a x ev where p0: "patron_post_init a = Inr p0" and x: "new_event (ambients e 0) (PatronEvent x) = Inr ev"
        "pt = p0\<lparr>patron_events := patron_events p0 @ [ev]\<rparr>"
      unfolding patron_register_def by (auto elim!: rbindE simp: add_patron_event_Inr)
    with patron_post_init_wf [OF p0] have "patron_events p0 = []" by simp
    with x have "event_data ` set (patron_events pt) = {PatronEvent x}" by (simp add: new_event_data)
    then show ?thesis by (intro commit_inserts [OF d com [unfolded p]]) simp_all
  qed
qed

section \<open>Creating a loan\<close>

lemma admit_plan:
  assumes "admit e c rid v = Inr (p, r)"
  obtains "p = ([], [])"
  | days l where "loan_create (ambients e 0) (new_id e) (cl_patron_id c) (cl_patron_email c)
               (cl_catalog_book_id c) (cl_book_title c) days (cl_borrowed_at c) rid (cl_reservation_generation c) = Inr l"
      "p = ([], InsLoan (loan_from_entity l) # stage_loan l)"
  using assms unfolding admit_def Let_def
  by (auto split: option.splits if_splits list.splits elim!: rbindE)

lemma reserved_event_op:
  assumes "good d" and "CatalogEvent (CatalogBookReserved b t rid g p at em) \<in> events d"
  obtains q where "q \<in> set (operations d)" "op_corr q = (b, Some rid, g, Some p)" "op_canonical q"
    "canon_uuid rid = Some rid" "py_strip b = b" "py_strip p = p"
proof -
  have "event_backed (set (loans d)) (set (operations d)) (CatalogEvent (CatalogBookReserved b t rid g p at em))"
    using assms unfolding good_def saga_core_def by blast
  then obtain q where q: "q \<in> set (operations d)" "op_corr q = (b, Some rid, g, Some p)" by auto
  have c: "op_canonical q" using assms(1) q(1) by (auto simp: good_def saga_core_def ops_have_books_def)
  with q(2) have "ref_ok b" "ref_ok p" "canon_uuid rid = Some rid" by (auto simp: op_canonical_def op_corr_def)
  with q c that show thesis by (simp add: ref_ok_strip)
qed

lemma create_loan_good:
  assumes d: "good d" and ev: "CatalogEvent ev \<in> events d" "create_loan_command_of ev = Some c"
    and run: "create_loan e c early fenced d d = Inr (d', r)"
  shows "good d' \<and> older d d'"
proof -
  from ev(2) obtain book ttl rid0 g pt at em where e: "ev = CatalogBookReserved book ttl rid0 g pt at em"
    and c: "c = \<lparr>cl_reservation_id = rid0, cl_reservation_generation = g, cl_patron_id = pt,
           cl_patron_email = em, cl_catalog_book_id = book, cl_book_title = ttl, cl_borrowed_at = utc at\<rparr>"
    by (cases ev) auto
  obtain q where q: "q \<in> set (operations d)" "op_corr q = (book, Some rid0, g, Some pt)" "op_canonical q"
      "canon_uuid rid0 = Some rid0" "py_strip book = book" "py_strip pt = pt"
    using reserved_event_op [OF d, of book ttl rid0 g pt at em] ev(1) e by auto
  have rid: "lending_reservation_id (cl_reservation_id c) = Inr rid0"
    using q(4) by (simp add: c lending_reservation_id_Inr)
  show ?thesis
  proof (cases "run_tx LendingUow (create_or_replay e c rid0 early) fenced d")
    case (Inl x)
    with run rid have "d' = d" unfolding create_loan_def by (auto split: if_splits elim!: rbindE)
    with d older_refl show ?thesis by simp
  next
    case (Inr y)
    with run rid have "run_tx LendingUow (create_or_replay e c rid0 early) fenced d = Inr (d', r)"
      unfolding create_loan_def by simp
    then obtain p where body: "create_or_replay e c rid0 early fenced = Inr (p, r)" and com: "commit LendingUow p d = Inr d'"
      by (auto simp: run_tx_Inr)
    from body have "p = ([], []) \<or> admit e c rid0 fenced = Inr (p, r)"
      unfolding create_or_replay_def by (auto split: option.splits elim!: rbindE)
    then consider "p = ([], [])" | days l where "loan_create (ambients e 0) (new_id e) pt em book ttl days (utc at) rid0 g = Inr l"
        "p = ([], InsLoan (loan_from_entity l) # stage_loan l)"
      by (elim disjE) (simp, erule admit_plan, simp_all add: c)
    then show ?thesis
    proof cases
      case 1
      with com commit_none d older_refl show ?thesis by blast
    next
      case (2 days l)
      note cr = loan_create_Inr [OF 2(1)]
      let ?l = "loan_from_entity l"
      from cr obtain dev where dev: "loan_events l = [dev]" "event_data dev = LendingEvent
          (LoanCreated (loan_id l) (loan_reservation_id l) g pt em book ttl (utc at) (loan_due_date l))" by blast
      have rl: "loan_reservation_id l = rid0" using cr q(4) by simp
      from com 2(2) obtain d1 where i: "flush_insert (InsLoan ?l) d = Inr d1" "flush_all (stage_loan l) d1 = Inr d'"
        by (auto elim!: commit_plan flush_cons simp del: flush_insert.simps flush_all.simps(2))
      note s = insert_loan_sets [OF i(1)]
      have ok1: "db_ok d1" using d flush_insert_ok [OF _ i(1)] by (simp add: good_def)
      have fresh: "lr_id ?l \<notin> lr_id ` set (loans d)" "lr_reservation_id ?l \<notin> lr_reservation_id ` set (loans d)"
        using loans_key [OF ok1] loans_reservation_key [OF ok1] unfolding s(1) by auto
      let ?e = "LendingEvent (LoanCreated (loan_id l) rid0 g pt em book ttl (utc at) (loan_due_date l))"
      have N: "inserted_events (stage_loan l) = {?e}" using dev rl by simp
      have "saga_core (set (books d)) (insert ?l (set (loans d))) (set (operations d)) (insert ?e (events d))"
        by (rule core_create [OF _ q(1) _ fresh]) (use d cr q rl in \<open>simp_all add: good_def\<close>)
      moreover have "recorded (insert ?l (set (loans d))) (set (operations d)) (insert ?e (events d))"
        by (rule recorded_new_loan [of _ _ "events d"]) (use d cr rl in \<open>auto simp: good_def loan_recorded_def\<close>)
      moreover have "entities_ok (set (books d)) (insert ?l (set (loans d)))"
        using d cr by (auto simp: good_def entities_ok_def)
      ultimately have g: "good_with (inserted_events (stage_loan l)) d1"
        using ok1 s unfolding N good_with_def by simp
      have "older d d1" unfolding older_def s by (intro conjI row_older_mono op_older_mono) auto
      with flush_good [OF g _ i(2)] older_trans show ?thesis by auto
    qed
  qed
qed

end
