(* ===== verification/Saga.thy ===== *)
theory Saga
  imports SagaLoans
begin

text \<open>
  The borrow workflow as a whole. A state is the database with the states it had before (a
  handler in flight may have read any of them), the reservations whose loan was rejected and
  whose compensation is due, and the created loans whose confirmation Catalog refused and
  whose cancellation is due. A step is one committed transaction of one handler, or the
  decision of a handler between two of its transactions. Messages are the events of the
  outbox: each may be delivered any number of times, in any order, at any later time.
\<close>

section \<open>States and steps\<close>

record saga =
  now :: db
  past :: "db set"
  rejected :: "(catalog_event \<times> string) set"
  stale :: "lending_event set"

definition views :: "saga \<Rightarrow> db set" where
  "views g = insert (now g) (past g)"

definition advance :: "saga \<Rightarrow> db \<Rightarrow> saga" where
  "advance g d = g\<lparr>now := d, past := views g\<rparr>"

definition start :: "instant \<Rightarrow> saga" where
  "start t = \<lparr>now = \<lparr>books = [], loans = [], patrons = [], operations = [], receipts = [], outbox = [],
     server_now = t\<rparr>, past = {}, rejected = {}, stale = {}\<rparr>"

definition reads_from :: "db set \<Rightarrow> admission_reads \<Rightarrow> bool" where
  "reads_from V w \<longleftrightarrow> counted_in w \<in> V \<and> rechecked_in w \<in> V \<and> directory_in w \<in> V \<and> contended_in w \<in> V"

text \<open>
  The steps that take no borrowing fence, and all of them. A change of a patron looks for its receipt
  before it waits for the fence, and reads the patron behind it.
\<close>

inductive unfenced_step :: "saga \<Rightarrow> saga \<Rightarrow> bool" where
  tick: "unfenced_step g (advance g (now g\<lparr>server_now := t\<rparr>))"
| add: "v \<in> views g \<Longrightarrow> run_tx CatalogUow (add_book e ca) v (now g) = Inr (d, r) \<Longrightarrow> unfenced_step g (advance g d)"
| borrow: "v \<in> views g \<Longrightarrow> run_tx CatalogUow (borrow_book e cb) v (now g) = Inr (d, r) \<Longrightarrow> unfenced_step g (advance g d)"
| sweep: "v \<in> views g \<Longrightarrow> run_tx CatalogUow (release_expired_reservations e locked cs) v (now g) = Inr (d, n) \<Longrightarrow>
    unfenced_step g (advance g d)"
| register: "v \<in> views g \<Longrightarrow> run_tx PatronUow (register_patron e cr) v (now g) = Inr (d, r) \<Longrightarrow> unfenced_step g (advance g d)"
| return_loan: "v \<in> views g \<Longrightarrow> run_tx LendingUow (return_loan e cl) v (now g) = Inr (d, r) \<Longrightarrow> unfenced_step g (advance g d)"
| extend_loan: "v \<in> views g \<Longrightarrow> run_tx LendingUow (extend_loan e cx) v (now g) = Inr (d, r) \<Longrightarrow> unfenced_step g (advance g d)"
| compensate: "(cev, why) \<in> rejected g \<Longrightarrow> release_command_of cev why = Some rc \<Longrightarrow>
    v \<in> views g \<Longrightarrow> run_tx CatalogUow (release_book_reservation e rc) v (now g) = Inr (d, b) \<Longrightarrow> unfenced_step g (advance g d)"
| confirm: "LendingEvent ev \<in> events (now g) \<Longrightarrow> confirm_command_of ev = Some cf \<Longrightarrow>
    v \<in> views g \<Longrightarrow> run_tx CatalogUow (confirm_book_borrow e cf) v (now g) = Inr (d, b) \<Longrightarrow> unfenced_step g (advance g d)"
| refuse: "v \<in> views g \<Longrightarrow> LendingEvent ev \<in> events v \<Longrightarrow> confirm_command_of ev = Some cf \<Longrightarrow>
    confirm_book_borrow e cf v = Inl x \<Longrightarrow> stale_reservation_exn x \<Longrightarrow> unfenced_step g (g\<lparr>stale := insert ev (stale g)\<rparr>)"
| cancel_stale: "ev \<in> stale g \<Longrightarrow> cancel_stale_command_of ev = Some cn \<Longrightarrow>
    v \<in> views g \<Longrightarrow> run_tx LendingUow (cancel_loan e cn) v (now g) = Inr (d, b) \<Longrightarrow> unfenced_step g (advance g d)"
| cancel_released: "CatalogEvent cev \<in> events (now g) \<Longrightarrow> cancel_released_command_of cev = Some cn \<Longrightarrow>
    v \<in> views g \<Longrightarrow> run_tx LendingUow (cancel_loan e cn) v (now g) = Inr (d, b) \<Longrightarrow> unfenced_step g (advance g d)"
| return_book: "LendingEvent ev \<in> events (now g) \<Longrightarrow> return_command_of ev = Some cret \<Longrightarrow>
    v \<in> views g \<Longrightarrow> run_tx CatalogUow (return_book_handler e cret) v (now g) = Inr (d, rr) \<Longrightarrow> unfenced_step g (advance g d)"

inductive saga_step :: "saga \<Rightarrow> saga \<Rightarrow> bool" where
  unfenced: "unfenced_step g g' \<Longrightarrow> saga_step g g'"
| suspend: "v \<in> views g \<Longrightarrow> w \<in> views g \<Longrightarrow>
    run_tx PatronUow (suspend_patron e cu) (v\<lparr>receipts := receipts w\<rparr>) (now g) = Inr (d, r) \<Longrightarrow> saga_step g (advance g d)"
| reinstate: "v \<in> views g \<Longrightarrow> w \<in> views g \<Longrightarrow>
    run_tx PatronUow (reinstate_patron e ci) (v\<lparr>receipts := receipts w\<rparr>) (now g) = Inr (d, r) \<Longrightarrow> saga_step g (advance g d)"
| upgrade: "v \<in> views g \<Longrightarrow> w \<in> views g \<Longrightarrow>
    run_tx PatronUow (upgrade_patron_tier e ct) (v\<lparr>receipts := receipts w\<rparr>) (now g) = Inr (d, r) \<Longrightarrow> saga_step g (advance g d)"
| create: "CatalogEvent cev \<in> events (now g) \<Longrightarrow> create_loan_command_of cev = Some cc \<Longrightarrow>
    v \<in> views g \<Longrightarrow> reads_from (views g) w \<Longrightarrow> create_loan e cc v w (now g) (now g) = Inr (d, cr') \<Longrightarrow>
    saga_step g (advance g d)"
| reject: "CatalogEvent cev \<in> events (now g) \<Longrightarrow> create_loan_command_of cev = Some cc \<Longrightarrow>
    v \<in> views g \<Longrightarrow> reads_from (views g) w \<Longrightarrow> create_loan e cc v w (now g) (now g) = Inl x \<Longrightarrow> business_rejection x = Some why \<Longrightarrow>
    saga_step g (g\<lparr>rejected := insert (cev, why) (rejected g)\<rparr>)"

section \<open>A refused confirmation\<close>

lemma not_stale_errors:
  "catalog_reference s f = Inl x \<Longrightarrow> \<not> stale_reservation_exn x"
  "require_utc_datetime t f = Inl x \<Longrightarrow> \<not> stale_reservation_exn x"
  "event_identity s f = Inl x \<Longrightarrow> \<not> stale_reservation_exn x"
  by (auto simp: catalog_reference_def normalize_ref_def event_identity_def Let_def split: if_splits)
    (cases t; auto split: if_splits)

lemma ropt_Inl: "ropt f v = Inl x \<Longrightarrow> \<exists>y. f y = Inl x"
  by (cases v) (auto simp: rbind_eq_Inl_iff)

lemma new_event_not_stale: "new_event amb d = Inl x \<Longrightarrow> \<not> stale_reservation_exn x"
  by (auto simp: new_event_def domain_event_init_def rbind_eq_Inl_iff dest: not_stale_errors ropt_Inl split: option.splits)

lemma confirm_reserved_not_stale:
  assumes "confirm_borrow amb rid g p lid from due b = Inl x" and "canon_uuid rid = Some rid"
    and "reservation_id b = Some rid" "reservation_generation b = g" "reserved_patron_id b = Some p"
    and "status b = RESERVED" "current_loan_id b = None"
  shows "\<not> stale_reservation_exn x"
  using assms unfolding confirm_borrow_def Let_def
  by (auto simp: rbind_eq_Inl_iff require_matching_reservation_def catalog_reservation_id_def add_book_event_def
      dest: not_stale_errors new_event_not_stale split: if_splits option.splits)

lemma confirm_again_not_stale:
  assumes "canon_uuid rid = Some rid"
    and "reservation_id b = Some rid" "reservation_generation b = g" "reserved_patron_id b = Some p"
    and "status b = BORROWED" "current_loan_id b = Some lid" "ref_ok lid"
    and "borrowed_at b = Some f" "same_instant f at" "in_range f" "return_due_date b = Some due" "in_range due"
  shows "confirm_borrow amb rid g p lid at (utc due) b = Inr (b, False)"
proof -
  from assms(9,10) have "require_utc_datetime at s = Inr f" for s
    by (cases at) (auto simp: same_instant_def)
  with assms show ?thesis
    by (simp add: confirm_borrow_def require_matching_reservation_def catalog_reservation_id_def
        catalog_reference_def normalize_ref_id)
qed

lemma book_by_id_stored:
  assumes "good d" and "book_wf b" and "book_from_entity b \<in> set (books d)"
  shows "book_by_id d (bid b) = Inr (Some (b\<lparr>book_events := []\<rparr>))"
proof -
  have "filter (\<lambda>r. br_id r = bid b) (books d) = [book_from_entity b]"
    by (rule filter_key [OF books_key]) (use assms in \<open>simp_all add: good_def\<close>)
  with book_roundtrip [OF assms(2)] show ?thesis by (simp add: book_by_id_def)
qed

lemma refused_not_borrowed:
  assumes d: "good d" and ev: "LendingEvent (LoanCreated lid rid g p em book ttl at due) \<in> events d"
    and c: "confirm_command_of (LoanCreated lid rid g p em book ttl at due) = Some c"
    and x: "confirm_book_borrow e c d = Inl x" "stale_reservation_exn x"
  shows "not_borrowed d (book, Some rid, g, Some p)"
proof (rule ccontr)
  assume nb: "\<not> not_borrowed d (book, Some rid, g, Some p)"
  let ?B = "set (books d)" and ?L = "set (loans d)" and ?Q = "set (operations d)"
  note core = d [unfolded good_def saga_core_def]
  have "event_backed ?L ?Q (LendingEvent (LoanCreated lid rid g p em book ttl at due))" using core ev by blast
  then obtain l where l: "l \<in> ?L" "lr_id l = lid" "loan_corr l = (book, Some rid, g, Some p)" by auto
  with core obtain q where q: "q \<in> ?Q" "loan_fits q l" unfolding loans_have_ops_def by blast
  then have corr: "op_corr q = (book, Some rid, g, Some p)" using l(3) by (simp add: loan_fits_def)
  have ops: "ops_have_books ?B ?Q" using core by blast
  with q(1) have canon: "canon_uuid rid = Some rid"
    using corr by (auto simp: ops_have_books_def op_canonical_def op_corr_def)
  from l(1,2) core obtain ln where "loan_wf ln" "l = loan_from_entity ln" by (auto simp: entities_ok_def)
  with l(2) have lid: "ref_ok lid" by (auto simp: loan_wf_def id_ok_def)
  from nb q(1) corr have "op_status q = OpReserved \<or> op_status q = OpBorrowed"
    unfolding not_borrowed_def by (cases "op_status q") auto
  then show False
  proof
    assume "op_status q = OpReserved"
    with ops q(1) obtain r where r: "r \<in> ?B" "br_status r = ''reserved''" "book_corr r = op_corr q"
      unfolding ops_have_books_def by blast
    with core obtain b where b: "book_wf b" "r = book_from_entity b" by (auto simp: entities_ok_def)
    from b r corr have f: "bid b = book" "reservation_id b = Some rid" "reservation_generation b = g"
      "reserved_patron_id b = Some p" by simp_all
    from b r have st: "status b = RESERVED" by (cases "status b") simp_all
    with b(1) have cur: "current_loan_id b = None" by (simp add: book_wf_def validate_state_Inr)
    from book_by_id_stored [OF d b(1)] b(2) r(1) f(1)
    have "book_by_id d book = Inr (Some (b\<lparr>book_events := []\<rparr>))" by simp
    with x(1) c have "confirm_borrow (ambients e 0) rid g p lid at (utc due) (b\<lparr>book_events := []\<rparr>) = Inl x"
      by (auto simp: confirm_book_borrow_def rbind_eq_Inl_iff split: if_splits)
    from confirm_reserved_not_stale [OF this canon] f st cur x(2) show False by simp
  next
    assume st: "op_status q = OpBorrowed"
    with q(2) have qid: "op_loan_id q = Some lid" using l(2) by (simp add: loan_fits_def settled_def)
    from st ops q(1) obtain r where r: "r \<in> ?B" "br_status r = ''borrowed''" "book_corr r = op_corr q"
        "br_current_loan_id r = op_loan_id q"
      unfolding ops_have_books_def by blast
    with core obtain b where b: "book_wf b" "r = book_from_entity b" by (auto simp: entities_ok_def)
    from b r corr qid have f: "bid b = book" "reservation_id b = Some rid" "reservation_generation b = g"
      "reserved_patron_id b = Some p" "current_loan_id b = Some lid" by simp_all
    from b r have bst: "status b = BORROWED" by (cases "status b") simp_all
    have dates: "dates_as_created ?B (events d)" using core by blast
    have "br_current_loan_id r = Some lid" using r(4) qid by simp
    with dates r(1) ev obtain f0 where "br_borrowed_at r = Some f0" "same_instant f0 at" "br_return_due_date r = Some due"
      unfolding dates_as_created_def by blast
    then have at: "borrowed_at b = Some f0" "same_instant f0 at" "return_due_date b = Some due"
      using b(2) by (simp_all add: book_from_entity_def)
    have rg: "in_range f0" "in_range due" using b(1) at by (simp_all add: book_wf_def)
    from book_by_id_stored [OF d b(1)] b(2) r(1) f(1)
    have "book_by_id d book = Inr (Some (b\<lparr>book_events := []\<rparr>))" by simp
    moreover have "confirm_borrow (ambients e 0) rid g p lid at (utc due) (b\<lparr>book_events := []\<rparr>) = Inr (b\<lparr>book_events := []\<rparr>, False)"
      by (rule confirm_again_not_stale [OF canon _ _ _ _ _ lid _ at(2) rg(1) _ rg(2)]) (simp_all add: f bst at)
    ultimately show False using x(1) c by (auto simp: confirm_book_borrow_def)
  qed
qed

section \<open>The invariant of the workflow\<close>

fun refused_reservation :: "lending_event \<Rightarrow> correlation" where
  "refused_reservation (LoanCreated lid rid g p em book ttl at due) = (book, Some rid, g, Some p)"
| "refused_reservation _ = ([], None, 0, None)"

definition saga_ok :: "saga \<Rightarrow> bool" where
  "saga_ok g \<longleftrightarrow> good (now g) \<and> (\<forall>v\<in>past g. good v \<and> older v (now g))
     \<and> (\<forall>ev\<in>stale g. not_borrowed (now g) (refused_reservation ev))"

lemma saga_ok_view: "saga_ok g \<Longrightarrow> v \<in> views g \<Longrightarrow> good v \<and> older v (now g)"
  using older_refl by (auto simp: saga_ok_def views_def)

lemma saga_ok_advance:
  assumes "saga_ok g" and "good d \<and> older (now g) d"
  shows "saga_ok (advance g d)"
  using assms saga_ok_view [OF assms(1)]
  by (auto simp: saga_ok_def advance_def intro: older_trans not_borrowed_older)

lemma good_tick: "good (d\<lparr>server_now := t\<rparr>) = good d" "older d (d\<lparr>server_now := t\<rparr>)"
  by (simp_all add: good_def db_ok_def events_def older_def row_older_mono op_older_mono)

lemma saga_ok_start: "saga_ok (start t)"
  by (simp add: saga_ok_def start_def good_def db_ok_def table_ok_Nil entities_ok_def saga_core_def
      ops_have_books_def books_have_ops_def loans_have_ops_def settled_ops_have_loans_def events_def
      created_once_def dates_as_created_def recorded_def)

lemma unfenced_step_ok:
  assumes "unfenced_step g g'" and ok: "saga_ok g"
  shows "saga_ok g'"
proof -
  have d: "good (now g)" using ok by (simp add: saga_ok_def)
  have v: "good v" "older v (now g)" if "v \<in> views g" for v using saga_ok_view [OF ok that] by simp_all
  note adv = saga_ok_advance [OF ok]
  from assms(1) show ?thesis
  proof cases
  case (refuse v ev cf e x)
  note v = saga_ok_view [OF ok refuse(2)]
  from refuse(4) obtain lid rid gen p em book ttl at due where e: "ev = LoanCreated lid rid gen p em book ttl at due"
    by (cases ev) auto
  have "not_borrowed v (refused_reservation ev)"
    using refused_not_borrowed [of v lid rid gen p em book ttl at due cf e x] v refuse(3-6)
    unfolding e refused_reservation.simps by blast
  with v not_borrowed_older have "not_borrowed (now g) (refused_reservation ev)" by blast
  with ok show ?thesis unfolding refuse(1) by (simp add: saga_ok_def)
next
  case (cancel_stale ev cn v e d b)
  from cancel_stale(3) have "(cn_catalog_book_id cn, Some (cn_reservation_id cn), cn_reservation_generation cn, Some (cn_patron_id cn))
      = refused_reservation ev" by (cases ev) auto
  with ok cancel_stale(2) have "not_borrowed (now g)
      (cn_catalog_book_id cn, Some (cn_reservation_id cn), cn_reservation_generation cn, Some (cn_patron_id cn))"
    by (simp add: saga_ok_def)
  from cancel_loan_good [OF v [OF cancel_stale(4)] d this cancel_stale(5)] show ?thesis
    unfolding cancel_stale(1) by (rule adv)
next
  case (cancel_released cev cn v e d b)
  from cancel_released(3) obtain book rid gen p reason where e: "cev = CatalogBookReleased book rid gen p reason"
    and cn: "cn_catalog_book_id cn = book" "cn_reservation_id cn = rid" "cn_reservation_generation cn = gen" "cn_patron_id cn = p"
    by (cases cev) auto
  have "good (now g)" using ok by (simp add: saga_ok_def)
  with cancel_released(2) have "event_backed (set (loans (now g))) (set (operations (now g))) (CatalogEvent cev)"
    unfolding good_def saga_core_def by blast
  then have "not_borrowed (now g) (cn_catalog_book_id cn, Some (cn_reservation_id cn), cn_reservation_generation cn, Some (cn_patron_id cn))"
    unfolding e cn by (auto simp: not_borrowed_def)
  from cancel_loan_good [OF v [OF cancel_released(4)] d this cancel_released(5)] show ?thesis
    unfolding cancel_released(1) by (rule adv)
next
  case (tick t)
  have "good (now g\<lparr>server_now := t\<rparr>) \<and> older (now g) (now g\<lparr>server_now := t\<rparr>)" using d good_tick by simp
  then show ?thesis unfolding tick(1) by (rule adv)
next
  case (confirm ev cf v e d b)
  from confirm_book_borrow_good [OF v [OF confirm(4)] d confirm(2,3,5)] show ?thesis unfolding confirm(1) by (rule adv)
next
  case (return_book ev cret v e d rr)
  from return_book_handler_good [OF v [OF return_book(4)] d return_book(2,3,5)] show ?thesis unfolding return_book(1) by (rule adv)
next
  case (compensate cev why rc v e d b)
  from release_book_reservation_good [OF v [OF compensate(4)] d compensate(5)] show ?thesis unfolding compensate(1) by (rule adv)
next
  case (add v e ca d r)
  from add_book_good [OF d add(3)] show ?thesis unfolding add(1) by (rule adv)
next
  case (borrow v e cb d r)
  from borrow_book_good [OF v [OF borrow(2)] d borrow(3)] show ?thesis unfolding borrow(1) by (rule adv)
next
  case (sweep v e locked cs d n)
  from release_expired_good [OF v [OF sweep(2)] d sweep(3)] show ?thesis unfolding sweep(1) by (rule adv)
next
  case (register v e cr d r)
  from register_patron_good [OF d register(3)] show ?thesis unfolding register(1) by (rule adv)
next
  case (return_loan v e cl d r)
  from return_loan_good [OF v [OF return_loan(2)] d return_loan(3)] show ?thesis unfolding return_loan(1) by (rule adv)
next
  case (extend_loan v e cx d r)
  from extend_loan_good [OF v [OF extend_loan(2)] d extend_loan(3)] show ?thesis unfolding extend_loan(1) by (rule adv)
  qed
qed

lemma saga_step_ok:
  assumes "saga_step g g'" and ok: "saga_ok g"
  shows "saga_ok g'"
proof -
  have d: "good (now g)" using ok by (simp add: saga_ok_def)
  have v: "good v" "older v (now g)" if "v \<in> views g" for v using saga_ok_view [OF ok that] by simp_all
  note adv = saga_ok_advance [OF ok]
  from assms(1) show ?thesis
  proof cases
  case unfenced
  from unfenced_step_ok [OF this ok] show ?thesis .
next
  case (reject cev cc v w e x why)
  with ok show ?thesis by (simp add: saga_ok_def)
next
  case (create cev cc v w e d cr')
  from create_loan_good [OF d create(2,3,6)] show ?thesis unfolding create(1) by (rule adv)
next
  case (suspend v w e cu d r)
  from suspend_patron_good [OF d suspend(4)] show ?thesis unfolding suspend(1) by (rule adv)
next
  case (reinstate v w e ci d r)
  from reinstate_patron_good [OF d reinstate(4)] show ?thesis unfolding reinstate(1) by (rule adv)
next
  case (upgrade v w e ct d r)
  from upgrade_patron_tier_good [OF d upgrade(4)] show ?thesis unfolding upgrade(1) by (rule adv)
  qed
qed

lemma saga_reachable_ok: "saga_step\<^sup>*\<^sup>* (start t) g \<Longrightarrow> saga_ok g"
  by (induction rule: rtranclp_induct) (auto intro: saga_ok_start saga_step_ok)

end
