(* ===== verification/SagaRun.thy ===== *)
theory SagaRun
  imports Saga IdempotentCommands
begin

text \<open>
  A concrete run of the workflow: a book is added, a patron registered, and the book
  reserved. The states are computed, so that the properties of reachable states have
  instances that are not empty.
\<close>

definition env_for :: "string \<Rightarrow> string \<Rightarrow> env" where
  "env_for i eid = \<lparr>ambients = (\<lambda>_. sample_ambient\<lparr>fresh_event_id := eid\<rparr>), new_id = i, clock_now = 10,
     sha256 = (\<lambda>_. [])\<rparr>"

lemma env_for_simps [simp]:
  "ambients (env_for i eid) n = sample_ambient\<lparr>fresh_event_id := eid\<rparr>" "new_id (env_for i eid) = i"
  "clock_now (env_for i eid) = 10"
  by (simp_all add: env_for_def)

definition event_for :: "string \<Rightarrow> event_data \<Rightarrow> domain_event" where
  "event_for eid d = \<lparr>event_id = eid, occurred_at = 5, correlation_id = Some eid, causation_id = None, event_data = d\<rparr>"

lemma new_event_for:
  "identity_ok eid \<Longrightarrow> new_event (sample_ambient\<lparr>fresh_event_id := eid\<rparr>) d = Inr (event_for eid d)"
  by (simp add: new_event_def domain_event_init_def sample_ambient_def event_for_def event_identity_id)

section \<open>Adding the book\<close>

definition run0 :: db where
  "run0 = now (start 0)"

definition run1 :: db where
  "run1 = run0\<lparr>books := [book_from_entity sample_book]\<rparr>"

lemma mk_sample: "mk_title ''Dune'' = Inr ''Dune''" "mk_author ''Herbert'' = Inr ''Herbert''" "mk_book_id ''book-1'' = Inr ''book-1''"
  by (simp_all add: mk_title_def mk_author_def mk_book_id_def canonical_id_fixed str_eval Let_def)

lemma insert_first: "row_error sch r = None \<Longrightarrow> insert_row sch r [] = Inr [r]"
  using table_ok_single [of sch r] by (simp add: insert_row_def table_ok_def)

lemma book_row: "row_error book_schema (book_from_entity sample_book) = None"
  by (rule book_row_error [OF sample_book_wf]) (simp_all add: sample_book_def int4_def)

lemma run_add:
  "\<exists>r. run_tx CatalogUow (add_book (env_for ''book-1'' ''evt-0'')
       \<lparr>ab_title = ''Dune'', ab_author = ''Herbert'', ab_key = None\<rparr>) run0 run0 = Inr (run1, r)"
proof -
  have "\<exists>r. add_book (env_for ''book-1'' ''evt-0'') \<lparr>ab_title = ''Dune'', ab_author = ''Herbert'', ab_key = None\<rparr> run0
      = Inr (([], [InsBook (book_from_entity sample_book)]), r)"
    by (simp add: add_book_def mk_sample command_key_def replay_def book_post_init_def book_status_of_def
        validate_state_def correlation_any_def receipt_for_def stage_book_def sample_book_def Let_def)
  then obtain r where r: "add_book (env_for ''book-1'' ''evt-0'') \<lparr>ab_title = ''Dune'', ab_author = ''Herbert'', ab_key = None\<rparr> run0
      = Inr (([], [InsBook (book_from_entity sample_book)]), r)" by blast
  moreover have "commit CatalogUow ([], [InsBook (book_from_entity sample_book)]) run0 = Inr run1"
    by (simp add: commit_def run0_def start_def run1_def insert_first book_row)
  ultimately show ?thesis by (auto simp: run_tx_Inr)
qed

section \<open>Registering the patron\<close>

definition ann :: patron where
  "ann = sample_patron\<lparr>registered_at := 10, patron_events := [event_for ''evt-1''
     (PatronEvent (PatronRegistered ''patron-1'' sample_email (full_name ''Ann'' ''Lee'') ''regular''))]\<rparr>"

lemma ann_wf: "patron_wf ann"
  using sample_patron_wf by (simp add: ann_def patron_wf_def)

definition outbox_of :: "domain_event \<Rightarrow> string \<Rightarrow> string \<Rightarrow> outbox_row" where
  "outbox_of ev ty i = (from_domain_event ev ty i)\<lparr>ob_inserted_at := 0\<rparr>"

definition ann_row :: outbox_row where
  "ann_row = outbox_of (event_for ''evt-1''
     (PatronEvent (PatronRegistered ''patron-1'' sample_email (full_name ''Ann'' ''Lee'') ''regular''))) ''patron'' ''patron-1''"

definition run2 :: db where
  "run2 = run1\<lparr>patrons := [patron_from_entity ann], outbox := [ann_row]\<rparr>"

lemma idents [simp]: "identity_ok ''evt-1''" "identity_ok ''evt-2''"
  by (simp_all add: identity_ok_def str_eval)

lemma run_register:
  "\<exists>r. run_tx PatronUow (register_patron (env_for ''patron-1'' ''evt-1'')
       \<lparr>rp_first_name = ''Ann'', rp_last_name = ''Lee'', rp_email = sample_email, rp_membership_tier = ''regular'',
        rp_key = None\<rparr>) run1 run1 = Inr (run2, r)"
proof -
  let ?c = "\<lparr>rp_first_name = ''Ann'', rp_last_name = ''Lee'', rp_email = sample_email, rp_membership_tier = ''regular'',
        rp_key = None\<rparr>"
  have n: "mk_patron_name ''Ann'' ''Lee'' = Inr (''Ann'', ''Lee'')"
    by (simp add: mk_patron_name_def squash_word Let_def str_eval)
  have tier: "requested_tier ''regular'' = Inr REGULAR"
    by (simp add: requested_tier_def tier_of_def str_eval)
  have reg: "patron_register (sample_ambient\<lparr>fresh_event_id := ''evt-1''\<rparr>) ''patron-1'' ''Ann'' ''Lee'' sample_email (utc 10) REGULAR
      = Inr ann"
    by (simp add: patron_register_def patron_post_init_def mk_patron_id_def canonical_id_fixed n tier_of_def
        add_patron_event_def new_event_for ann_def sample_patron_def Let_def)
  have "\<exists>r. register_patron (env_for ''patron-1'' ''evt-1'') ?c run1
      = Inr (([], [InsPatron (patron_from_entity ann), InsOutbox (from_domain_event (event_for ''evt-1''
     (PatronEvent (PatronRegistered ''patron-1'' sample_email (full_name ''Ann'' ''Lee'') ''regular''))) ''patron'' ''patron-1'')]), r)"
    by (simp add: register_patron_def n tier command_key_def replay_def patron_by_email_def scalar_one_or_none_def
        run1_def run0_def start_def reg receipt_for_def stage_patron_def Let_def)
      (simp add: ann_def sample_patron_def)
  then obtain r where r: "register_patron (env_for ''patron-1'' ''evt-1'') ?c run1
      = Inr (([], [InsPatron (patron_from_entity ann), InsOutbox (from_domain_event (event_for ''evt-1''
     (PatronEvent (PatronRegistered ''patron-1'' sample_email (full_name ''Ann'' ''Lee'') ''regular''))) ''patron'' ''patron-1'')]), r)"
    by blast
  have p: "row_error patron_schema (patron_from_entity ann) = None"
    by (rule patron_row_error [OF ann_wf]) (simp_all add: ann_def sample_patron_def int4_def)
  have o: "row_error outbox_schema ann_row = None"
    by (simp add: ann_row_def outbox_of_def row_error_def outbox_schema_def first_violation_def
        from_domain_event_def event_for_def aggregate_type_ok_def sql_ident_def str_eval)
  have "commit PatronUow ([], [InsPatron (patron_from_entity ann), InsOutbox (from_domain_event (event_for ''evt-1''
     (PatronEvent (PatronRegistered ''patron-1'' sample_email (full_name ''Ann'' ''Lee'') ''regular''))) ''patron'' ''patron-1'')]) run1 = Inr run2"
    using insert_first [OF p] insert_first [OF o]
    by (simp add: commit_def run1_def run0_def start_def run2_def ann_row_def outbox_of_def)
  with r show ?thesis by (auto simp: run_tx_Inr)
qed

section \<open>Reserving the book\<close>

definition reserved_dune :: book where
  "reserved_dune = sample_book\<lparr>status := RESERVED, reserved_at := Some 10,
     reservation_id := Some sample_uuid, reservation_generation := 1,
     reserved_patron_id := Some ''patron-1'', reserved_patron_email := Some sample_email,
     book_events := [event_for ''evt-2'' (CatalogEvent (CatalogBookReserved ''book-1'' ''Dune'' sample_uuid 1
        ''patron-1'' 10 sample_email))]\<rparr>"

definition dune_operation :: borrow_operation where
  "dune_operation = \<lparr>operation_id = sample_uuid, op_book_id = ''book-1'', op_patron_id = ''patron-1'', op_generation = 1,
     op_status = OpReserved, op_created_at = 10, op_updated_at = 10, op_loan_id = None, op_failure_reason = None\<rparr>"

definition dune_event_row :: outbox_row where
  "dune_event_row = outbox_of (event_for ''evt-2'' (CatalogEvent (CatalogBookReserved ''book-1'' ''Dune'' sample_uuid 1
        ''patron-1'' 10 sample_email))) ''book'' ''book-1''"

definition run3 :: db where
  "run3 = run2\<lparr>books := [next_row reserved_dune], operations := [dune_operation], outbox := [ann_row, dune_event_row]\<rparr>"

lemma reserve_dune:
  "reserve (sample_ambient\<lparr>fresh_event_id := ''evt-2''\<rparr>) sample_uuid ''patron-1'' sample_email (utc 10) None sample_book
     = Inr (reserved_dune, sample_uuid)"
  by (simp add: reserve_def sample_book_def reserved_dune_def catalog_reference_def normalize_ref_id
      catalog_reservation_id_def add_book_event_def new_event_for)

lemma reserved_dune_row: "row_error book_schema (next_row reserved_dune) = None"
  unfolding next_row_def
proof (rule book_row_error)
  show "book_wf (reserved_dune\<lparr>book_version := book_version reserved_dune + 1\<rparr>)"
    using reserve_wf [OF sample_book_wf reserve_dune] by (simp add: book_wf_def validate_state_keeps)
qed (simp_all add: reserved_dune_def sample_book_def int4_def)

lemma dune_operation_row: "row_error operation_schema dune_operation = None"
  using canon_sql [OF sample_uuid_canon(1)] ref_sql [OF sample_refs(1)] ref_sql [OF sample_refs(2)]
  by (simp add: row_error_def operation_schema_def dune_operation_def null_or_def int4_def first_violation_def)

lemma dune_event_stored: "insert_row outbox_schema dune_event_row [ann_row] = Inr [ann_row, dune_event_row]"
proof -
  have "row_error outbox_schema dune_event_row = None"
    by (simp add: dune_event_row_def outbox_of_def row_error_def outbox_schema_def first_violation_def
        from_domain_event_def event_for_def aggregate_type_ok_def sql_ident_def str_eval)
  moreover have "index_error outbox_schema [ann_row, dune_event_row] = None"
    by (simp add: index_error_def outbox_schema_def map_filter_simps first_violation_def
        ann_row_def dune_event_row_def outbox_of_def from_domain_event_def event_for_def)
  ultimately show ?thesis by (simp add: insert_row_def)
qed

lemma dune_updated:
  "update_book ''book-1'' 0 (book_from_entity reserved_dune) run2 = Inr (run2\<lparr>books := [next_row reserved_dune]\<rparr>)"
  using reserved_dune_row
  by (simp add: update_book_def update_where_def map_filter_simps index_error_def first_violation_def
      book_schema_def run2_def run1_def run0_def start_def next_row_def book_from_entity_def
      reserved_dune_def sample_book_def)

lemma run_borrow:
  "\<exists>r. run_tx CatalogUow (borrow_book (env_for sample_uuid ''evt-2'')
       \<lparr>bb_book_id = ''book-1'', bb_borrower_email = sample_email, bb_key = None\<rparr>) run2 run2 = Inr (run3, r)"
proof -
  let ?c = "\<lparr>bb_book_id = ''book-1'', bb_borrower_email = sample_email, bb_key = None\<rparr>"
  let ?bp = "\<lparr>bp_patron_id = ''patron-1'', bp_email = sample_email, bp_is_eligible = True, bp_membership_tier = ''regular'',
      bp_ineligible_reason = None\<rparr>"
  let ?p = "([UpdateBook ''book-1'' 0 (book_from_entity reserved_dune)],
      [InsOperation dune_operation, InsOutbox (from_domain_event (event_for ''evt-2''
        (CatalogEvent (CatalogBookReserved ''book-1'' ''Dune'' sample_uuid 1 ''patron-1'' 10 sample_email))) ''book'' ''book-1'')])"
  have dir: "directory_find_by_email run2 sample_email = Inr (Some ?bp)"
    by (simp add: directory_find_by_email_def run2_def patron_from_entity_def ann_def sample_patron_def
        scalar_one_or_none_def translate_patron_def)
      (simp add: sample_email_def str_eval)
  have book: "book_by_id run2 ''book-1'' = Inr (Some sample_book)"
    using book_roundtrip [OF sample_book_wf]
    by (simp add: book_by_id_def run2_def run1_def book_from_entity_def sample_book_def)
  have "\<exists>r. borrow_book (env_for sample_uuid ''evt-2'') ?c run2 = Inr (?p, r)"
    by (simp add: borrow_book_def command_key_def replay_def dir book reserve_dune receipt_for_def stage_book_def Let_def)
      (simp add: reserved_dune_def sample_book_def dune_operation_def)
  then obtain r where r: "borrow_book (env_for sample_uuid ''evt-2'') ?c run2 = Inr (?p, r)" by blast
  have "commit CatalogUow ?p run2 = Inr run3"
    using insert_first [OF dune_operation_row] dune_event_stored dune_updated
    by (simp add: commit_def run3_def run2_def run1_def run0_def start_def dune_event_row_def outbox_of_def)
  with r show ?thesis by (auto simp: run_tx_Inr)
qed

section \<open>Creating the loan\<close>

definition dune_due :: instant where "dune_due = 10 + 14 * microseconds_per_day"

definition dune_created :: event_data where
  "dune_created = LendingEvent (LoanCreated ''loan-1'' sample_uuid 1 ''patron-1'' sample_email ''book-1'' ''Dune'' (utc 10) dune_due)"

definition dune_loan :: loan where
  "dune_loan = \<lparr>loan_patron_id = ''patron-1'', loan_patron_email = sample_email, loan_book_id = ''book-1'',
     loan_book_title = ''Dune'', loan_due_date = dune_due, loan_borrowed_at = 10, loan_reservation_id = sample_uuid,
     loan_reservation_generation = 1, loan_id = ''loan-1'', loan_status = ACTIVE, loan_returned_at = None,
     loan_events = [event_for ''evt-3'' dune_created], loan_version = 0\<rparr>"

definition dune_loan_row :: outbox_row where
  "dune_loan_row = outbox_of (event_for ''evt-3'' dune_created) ''loan'' ''loan-1''"

definition run4 :: db where
  "run4 = run3\<lparr>loans := [loan_from_entity dune_loan], outbox := [ann_row, dune_event_row, dune_loan_row]\<rparr>"

definition reads_at :: "db \<Rightarrow> admission_reads" where
  "reads_at v = \<lparr>counted_in = v, rechecked_in = v, directory_in = v, contended_in = v\<rparr>"

lemma reads_at_simps [simp]: "counted_in (reads_at v) = v" "rechecked_in (reads_at v) = v" "directory_in (reads_at v) = v"
    "contended_in (reads_at v) = v" "reads_from V (reads_at v) \<longleftrightarrow> v \<in> V"
  by (simp_all add: reads_at_def reads_from_def)

definition dune_loan_command :: create_loan_command where
  "dune_loan_command = \<lparr>cl_reservation_id = sample_uuid, cl_reservation_generation = 1, cl_patron_id = ''patron-1'',
     cl_patron_email = sample_email, cl_catalog_book_id = ''book-1'', cl_book_title = ''Dune'', cl_borrowed_at = utc 10\<rparr>"

lemma ident3 [simp]: "identity_ok ''evt-3''" by (simp add: identity_ok_def str_eval)

lemma dune_due_num: "dune_due = 1209600000010" by (simp add: dune_due_def microseconds_per_day_def)

lemma create_dune:
  "loan_create (sample_ambient\<lparr>fresh_event_id := ''evt-3''\<rparr>) ''loan-1'' ''patron-1'' sample_email ''book-1'' ''Dune'' 14
     (utc 10) sample_uuid 1 = Inr dune_loan"
  by (simp add: loan_create_def lending_reservation_id_def from_loan_duration_def mk_due_date_def
      add_days_def timedelta_days_def add_delta_def microseconds_per_day_def loan_post_init_def
      mk_loan_id_def canonical_id_fixed loan_reference_def normalize_ref_id loan_status_of_def
      add_loan_event_def squash_word Let_def str_eval new_event_for dune_loan_def dune_created_def dune_due_num)

lemma dune_loan_stored: "insert_row loan_schema (loan_from_entity dune_loan) [] = Inr [loan_from_entity dune_loan]"
proof (rule insert_first, rule loan_row_error)
  show "loan_wf dune_loan" using loan_create_Inr [OF create_dune] by simp
qed (simp_all add: dune_loan_def int4_def)

lemma dune_loan_event_stored:
  "insert_row outbox_schema dune_loan_row [ann_row, dune_event_row] = Inr [ann_row, dune_event_row, dune_loan_row]"
proof -
  have "row_error outbox_schema dune_loan_row = None"
    by (simp add: dune_loan_row_def outbox_of_def row_error_def outbox_schema_def first_violation_def
        from_domain_event_def event_for_def aggregate_type_ok_def sql_ident_def str_eval)
  moreover have "index_error outbox_schema [ann_row, dune_event_row, dune_loan_row] = None"
    by (simp add: index_error_def outbox_schema_def map_filter_simps first_violation_def dune_loan_row_def
        ann_row_def dune_event_row_def outbox_of_def from_domain_event_def event_for_def)
  ultimately show ?thesis by (simp add: insert_row_def)
qed

lemma run_create: "\<exists>r. create_loan (env_for ''loan-1'' ''evt-3'') dune_loan_command run3 (reads_at run3) run3 run3 = Inr (run4, r)"
proof -
  let ?e = "env_for ''loan-1'' ''evt-3''"
  let ?bp = "\<lparr>bp_patron_id = ''patron-1'', bp_email = sample_email, bp_is_eligible = True, bp_membership_tier = ''regular'',
      bp_ineligible_reason = None\<rparr>"
  let ?p = "([], [InsLoan (loan_from_entity dune_loan), InsOutbox (from_domain_event (event_for ''evt-3'' dune_created) ''loan'' ''loan-1'')])"
  have dir: "directory_get_by_id run3 ''patron-1'' = Inr (Some ?bp)"
    by (simp add: directory_get_by_id_def run3_def run2_def patron_from_entity_def ann_def sample_patron_def
        scalar_one_or_none_def translate_patron_def)
  have none: "loan_by_reservation run3 sample_uuid = Inr None" "active_loan_for_book run3 ''book-1'' = Inr None"
      "count_outstanding run3 ''patron-1'' = 0"
    by (simp_all add: loan_by_reservation_def active_loan_for_book_def count_outstanding_def lending_reservation_id_def
        run3_def run2_def run1_def run0_def start_def scalar_one_or_none_def)
  have terms: "for_membership_tier ''regular'' = Some \<lparr>max_outstanding_loans = 5, loan_duration_days = 14\<rparr>"
    by (simp add: for_membership_tier_def policy_terms_def str_eval)
  have stage: "stage_loan dune_loan = [InsOutbox (from_domain_event (event_for ''evt-3'' dune_created) ''loan'' ''loan-1'')]"
    by (simp add: stage_loan_def dune_loan_def)
  have body: "create_or_replay ?e dune_loan_command sample_uuid run3 (reads_at run3) = Inr (?p, create_loan_result_of dune_loan)"
    using dir none terms create_dune stage
    by (simp add: create_or_replay_def admit_def dune_loan_command_def Let_def)
  have "commit LendingUow ?p run3 = Inr run4"
    using dune_loan_stored dune_loan_event_stored
    by (simp add: commit_def run4_def run3_def run2_def run1_def run0_def start_def dune_loan_row_def outbox_of_def)
  with body have "run_tx LendingUow (create_or_replay ?e dune_loan_command sample_uuid run3) (reads_at run3) run3
      = Inr (run4, create_loan_result_of dune_loan)" by (auto simp: run_tx_Inr)
  then show ?thesis
    by (simp add: create_loan_def lending_reservation_id_def dune_loan_command_def)
qed

section \<open>Confirming the borrow\<close>

definition borrowed_dune :: book where
  "borrowed_dune = reserved_dune\<lparr>status := BORROWED, reserved_at := None, current_loan_id := Some ''loan-1'',
     borrowed_at := Some 10, return_due_date := Some dune_due, book_version := 1,
     book_events := [event_for ''evt-4'' (CatalogEvent (CatalogBookBorrowed ''book-1'' ''Dune'' sample_uuid 1
        ''patron-1'' ''loan-1'' 10 dune_due sample_email))]\<rparr>"

definition confirm_dune :: confirm_book_borrow_command where
  "confirm_dune = \<lparr>cb_book_id = ''book-1'', cb_reservation_id = sample_uuid, cb_reservation_generation = 1,
     cb_patron_id = ''patron-1'', cb_loan_id = ''loan-1'', cb_borrowed_at = utc 10, cb_return_due_date = utc dune_due\<rparr>"

definition run5 :: db where
  "run5 = run4\<lparr>books := [next_row borrowed_dune],
     operations := [moved dune_operation OpBorrowed (Some ''loan-1'') None 10],
     outbox := [ann_row, dune_event_row, dune_loan_row, outbox_of (event_for ''evt-4'' (CatalogEvent
       (CatalogBookBorrowed ''book-1'' ''Dune'' sample_uuid 1 ''patron-1'' ''loan-1'' 10 dune_due sample_email))) ''book'' ''book-1'']\<rparr>"

lemma ident4 [simp]: "identity_ok ''evt-4''" by (simp add: identity_ok_def str_eval)

lemma stored_reserved_wf: "book_wf (reserved_dune\<lparr>book_version := 1\<rparr>)"
  using reserve_wf [OF sample_book_wf reserve_dune] by (simp add: book_wf_def validate_state_keeps)

lemma confirm_dune_step:
  "confirm_borrow (sample_ambient\<lparr>fresh_event_id := ''evt-4''\<rparr>) sample_uuid 1 ''patron-1'' ''loan-1'' (utc 10) (utc dune_due)
     (reserved_dune\<lparr>book_version := 1, book_events := []\<rparr>) = Inr (borrowed_dune, True)"
  by (simp add: confirm_borrow_def require_matching_reservation_def catalog_reservation_id_def reserved_dune_def
      sample_book_def catalog_reference_def normalize_ref_id add_book_event_def new_event_for borrowed_dune_def
      dune_due_num)

lemma borrowed_dune_row: "row_error book_schema (next_row borrowed_dune) = None"
  unfolding next_row_def
proof (rule book_row_error)
  have "book_wf (reserved_dune\<lparr>book_version := 1, book_events := []\<rparr>)" using stored_reserved_wf by simp
  from confirm_borrow_wf [OF this confirm_dune_step]
  show "book_wf (borrowed_dune\<lparr>book_version := book_version borrowed_dune + 1\<rparr>)"
    by (simp add: book_wf_def validate_state_keeps)
qed (simp_all add: borrowed_dune_def reserved_dune_def sample_book_def int4_def)

lemma run_confirm:
  "run_tx CatalogUow (confirm_book_borrow (env_for ''x'' ''evt-4'') confirm_dune) run4 run4 = Inr (run5, True)"
proof -
  let ?ev = "event_for ''evt-4'' (CatalogEvent (CatalogBookBorrowed ''book-1'' ''Dune'' sample_uuid 1
        ''patron-1'' ''loan-1'' 10 dune_due sample_email))"
  have row: "next_row reserved_dune = book_from_entity (reserved_dune\<lparr>book_version := 1\<rparr>)"
    by (simp add: next_row_def reserved_dune_def sample_book_def)
  have "book_by_id run4 ''book-1'' = Inr (Some (reserved_dune\<lparr>book_version := 1, book_events := []\<rparr>))"
    using book_roundtrip [OF stored_reserved_wf]
    by (simp add: book_by_id_def run4_def run3_def row) (simp add: reserved_dune_def sample_book_def)
  then have body: "confirm_book_borrow (env_for ''x'' ''evt-4'') confirm_dune run4 =
      Inr (([UpdateBook ''book-1'' 1 (book_from_entity borrowed_dune),
             TransitionOperation sample_uuid OpBorrowed ''book-1'' ''patron-1'' 1 (Some ''loan-1'') None 10],
            [InsOutbox (from_domain_event ?ev ''book'' ''book-1'')]), True)"
    using confirm_dune_step
    by (simp add: confirm_book_borrow_def confirm_dune_def stage_book_def)
      (simp add: borrowed_dune_def reserved_dune_def sample_book_def)
  have u: "update_book ''book-1'' 1 (book_from_entity borrowed_dune) run4 = Inr (run4\<lparr>books := [next_row borrowed_dune]\<rparr>)"
    using borrowed_dune_row
    by (simp add: update_book_def update_where_def map_filter_simps index_error_def first_violation_def
        book_schema_def run4_def run3_def next_row_def book_from_entity_def borrowed_dune_def
        reserved_dune_def sample_book_def)
  have "row_error operation_schema (moved dune_operation OpBorrowed (Some ''loan-1'') None 10) = None"
    using canon_sql [OF sample_uuid_canon(1)] ref_sql [OF sample_refs(1)] ref_sql [OF sample_refs(2)] ref_sql [OF sample_refs(3)]
    by (simp add: row_error_def operation_schema_def dune_operation_def moved_def null_or_def int4_def first_violation_def)
  then have t: "transition_operation sample_uuid OpBorrowed ''book-1'' ''patron-1'' 1 (Some ''loan-1'') None 10
      (run4\<lparr>books := [next_row borrowed_dune]\<rparr>)
    = Inr (run4\<lparr>books := [next_row borrowed_dune], operations := [moved dune_operation OpBorrowed (Some ''loan-1'') None 10]\<rparr>)"
    by (simp add: transition_operation_def update_where_def map_filter_simps index_error_def first_violation_def
        operation_schema_def run4_def run3_def moved_def dune_operation_def)
  have o: "insert_row outbox_schema (outbox_of ?ev ''book'' ''book-1'') [ann_row, dune_event_row, dune_loan_row]
      = Inr [ann_row, dune_event_row, dune_loan_row, outbox_of ?ev ''book'' ''book-1'']"
    by (simp add: insert_row_def outbox_of_def row_error_def outbox_schema_def first_violation_def index_error_def
        map_filter_simps from_domain_event_def event_for_def aggregate_type_ok_def sql_ident_def str_eval
        ann_row_def dune_event_row_def dune_loan_row_def)
  have "commit CatalogUow ([UpdateBook ''book-1'' 1 (book_from_entity borrowed_dune),
             TransitionOperation sample_uuid OpBorrowed ''book-1'' ''patron-1'' 1 (Some ''loan-1'') None 10],
            [InsOutbox (from_domain_event ?ev ''book'' ''book-1'')]) run4 = Inr run5"
    using u t o by (simp add: commit_def run5_def run4_def run3_def run2_def run1_def run0_def start_def outbox_of_def)
  with body show ?thesis by (simp add: run_tx_Inr)
qed

section \<open>The run\<close>

definition sample_saga :: "nat \<Rightarrow> saga" where
  "sample_saga n = foldl advance (start 0) (take n [run1, run2, run3, run4, run5])"

lemma sample_saga_simps [simp]:
  "now (sample_saga 4) = run4" "now (sample_saga 5) = run5" "run4 \<in> views (sample_saga 5)"
  by (simp_all add: sample_saga_def advance_def views_def numeral_eq_Suc)

lemma run3_event: "CatalogEvent (CatalogBookReserved ''book-1'' ''Dune'' sample_uuid 1 ''patron-1'' 10 sample_email) \<in> events run3"
  by (simp add: events_def run3_def dune_event_row_def outbox_of_def from_domain_event_def event_for_def)

lemma run4_event: "dune_created \<in> events run4"
  by (simp add: events_def run4_def dune_loan_row_def outbox_of_def from_domain_event_def event_for_def)

lemma sample_saga_reachable: "saga_step\<^sup>*\<^sup>* (start 0) (sample_saga 4)" "saga_step\<^sup>*\<^sup>* (start 0) (sample_saga 5)"
    "unfenced_step\<^sup>*\<^sup>* (start 0) (sample_saga 3)"
proof -
  let ?g1 = "advance (start 0) run1"
  let ?g2 = "advance ?g1 run2"
  let ?g3 = "advance ?g2 run3"
  let ?g4 = "advance ?g3 run4"
  have now: "now (advance g d) = d" for g d by (simp add: advance_def)
  have self: "now g \<in> views g" for g by (simp add: views_def)
  obtain r1 r2 r3 r4 where r1: "run_tx CatalogUow (add_book (env_for ''book-1'' ''evt-0'')
       \<lparr>ab_title = ''Dune'', ab_author = ''Herbert'', ab_key = None\<rparr>) (now (start 0)) (now (start 0)) = Inr (run1, r1)"
    and r2: "run_tx PatronUow (register_patron (env_for ''patron-1'' ''evt-1'')
       \<lparr>rp_first_name = ''Ann'', rp_last_name = ''Lee'', rp_email = sample_email, rp_membership_tier = ''regular'',
        rp_key = None\<rparr>) (now ?g1) (now ?g1) = Inr (run2, r2)"
    and r3: "run_tx CatalogUow (borrow_book (env_for sample_uuid ''evt-2'')
       \<lparr>bb_book_id = ''book-1'', bb_borrower_email = sample_email, bb_key = None\<rparr>) (now ?g2) (now ?g2) = Inr (run3, r3)"
    and r4: "create_loan (env_for ''loan-1'' ''evt-3'') dune_loan_command (now ?g3) (reads_at (now ?g3)) (now ?g3) (now ?g3) = Inr (run4, r4)"
    using run_add run_register run_borrow run_create unfolding run0_def now by blast
  have r5: "run_tx CatalogUow (confirm_book_borrow (env_for ''x'' ''evt-4'') confirm_dune) (now ?g4) (now ?g4) = Inr (run5, True)"
    using run_confirm unfolding now .
  have e3: "CatalogEvent (CatalogBookReserved ''book-1'' ''Dune'' sample_uuid 1 ''patron-1'' 10 sample_email) \<in> events (now ?g3)"
    using run3_event unfolding now .
  have e4: "LendingEvent (LoanCreated ''loan-1'' sample_uuid 1 ''patron-1'' sample_email ''book-1'' ''Dune'' (utc 10) dune_due) \<in> events (now ?g4)"
    using run4_event unfolding now dune_created_def .
  have "unfenced_step (start 0) ?g1" by (rule unfenced_step.add [OF self r1])
  moreover have "unfenced_step ?g1 ?g2" by (rule unfenced_step.register [OF self r2])
  moreover have "unfenced_step ?g2 ?g3" by (rule unfenced_step.borrow [OF self r3])
  ultimately have u: "unfenced_step\<^sup>*\<^sup>* (start 0) ?g3" by (meson converse_rtranclp_into_rtranclp rtranclp.rtrancl_refl)
  then have "saga_step\<^sup>*\<^sup>* (start 0) ?g3" by (rule mono_rtranclp [rule_format, rotated]) (rule saga_step.unfenced)
  moreover have "saga_step ?g3 ?g4"
    by (rule saga_step.create [OF e3 _ self _ r4]) (simp_all add: dune_loan_command_def views_def)
  ultimately have r: "saga_step\<^sup>*\<^sup>* (start 0) ?g4" by (rule rtranclp.rtrancl_into_rtrancl)
  moreover have "saga_step ?g4 (advance ?g4 run5)"
    by (rule saga_step.unfenced, rule unfenced_step.confirm [OF e4 _ self r5]) (simp add: confirm_dune_def)
  ultimately have "saga_step\<^sup>*\<^sup>* (start 0) (advance ?g4 run5)" by (rule rtranclp.rtrancl_into_rtrancl)
  with r u show "saga_step\<^sup>*\<^sup>* (start 0) (sample_saga 4)" "saga_step\<^sup>*\<^sup>* (start 0) (sample_saga 5)"
      "unfenced_step\<^sup>*\<^sup>* (start 0) (sample_saga 3)"
    by (simp_all add: sample_saga_def numeral_eq_Suc)
qed

section \<open>Properties of reachable states\<close>

text \<open>
  C2: Catalog and Lending agree. Whatever interleaving of commands, redeliveries, lost races,
  sweeps, compensations and cancellations has run: a reserved book has its borrow operation in
  reserved, a borrowed book has a loan with the same book, reservation, generation and
  patron, recorded on the book by its identity and not cancelled, and a cancelled loan belongs
  to a released reservation.
\<close>

theorem borrow_workflow_consistent:
  assumes "saga_step\<^sup>*\<^sup>* (start t) g"
  shows "(\<forall>r\<in>set (books (now g)).
      (br_status r = ''reserved'' \<longrightarrow>
         (\<exists>q\<in>set (operations (now g)). op_status q = OpReserved \<and> op_corr q = book_corr r))
    \<and> (br_status r = ''borrowed'' \<longrightarrow>
         (\<exists>l\<in>set (loans (now g)). loan_corr l = book_corr r \<and> br_current_loan_id r = Some (lr_id l)
            \<and> lr_status l \<noteq> ''cancelled'')))
    \<and> (\<forall>l\<in>set (loans (now g)). lr_status l = ''cancelled'' \<longrightarrow>
         (\<exists>q\<in>set (operations (now g)). op_status q = OpReleased \<and> op_corr q = loan_corr l))"
proof -
  have d: "good (now g)" using saga_reachable_ok [OF assms] by (simp add: saga_ok_def)
  let ?B = "set (books (now g))" and ?L = "set (loans (now g))" and ?Q = "set (operations (now g))"
  have c: "books_have_ops ?B ?Q" "loans_have_ops ?L ?Q" "settled_ops_have_loans ?L ?Q"
    using d unfolding good_def saga_core_def by blast+
  have k: "keys ?B ?L ?Q" using d by (simp add: good_def db_keys)
  have borrowed: "\<exists>l\<in>?L. loan_corr l = book_corr r \<and> br_current_loan_id r = Some (lr_id l) \<and> lr_status l \<noteq> ''cancelled''"
    if r: "r \<in> ?B" "br_status r = ''borrowed''" for r
  proof -
    from c(1) r obtain q where q: "q \<in> ?Q" "op_status q = OpBorrowed" "op_corr q = book_corr r"
        "op_loan_id q = br_current_loan_id r" unfolding books_have_ops_def by blast
    with c(3) obtain l where l: "l \<in> ?L" "loan_corr l = op_corr q" "op_loan_id q = Some (lr_id l)"
      unfolding settled_ops_have_loans_def settled_def by blast
    from c(2) l(1) obtain q2 where q2: "q2 \<in> ?Q" "loan_fits q2 l" unfolding loans_have_ops_def by blast
    then have "op_corr q2 = op_corr q" using l(2) by (simp add: loan_fits_def)
    then have "q2 = q" by (rule op_corr_inj [OF k q2(1) q(1)])
    with q2(2) q(2) have "lr_status l \<noteq> ''cancelled''" by (simp add: loan_fits_def settled_def)
    with l q show ?thesis by metis
  qed
  have cancelled: "\<exists>q\<in>?Q. op_status q = OpReleased \<and> op_corr q = loan_corr l"
    if "l \<in> ?L" "lr_status l = ''cancelled''" for l
    using c(2) that unfolding loans_have_ops_def loan_fits_def by blast
  show ?thesis using c(1) borrowed cancelled unfolding books_have_ops_def by blast
qed

theorem borrow_workflow_consistent_witness:
  "\<exists>l\<in>set (loans run5). loan_corr l = book_corr (next_row borrowed_dune) \<and> lr_id l = ''loan-1'' \<and> lr_status l \<noteq> ''cancelled''"
proof -
  have "next_row borrowed_dune \<in> set (books (now (sample_saga 5)))" by (simp add: run5_def)
  moreover have "br_status (next_row borrowed_dune) = ''borrowed''"
      "br_current_loan_id (next_row borrowed_dune) = Some ''loan-1''" by (simp_all add: borrowed_dune_def)
  ultimately show ?thesis using borrow_workflow_consistent [OF sample_saga_reachable(2)] unfolding sample_saga_simps by fastforce
qed

text \<open>
  C21: the outbox is complete. In every reachable state each borrow operation has its
  reservation event in the outbox; once released its release event; once borrowed, and still
  when it is returned, the event of the borrow with its loan; once returned the event of the
  return. Each loan has its creation event, once returned its completion event, once cancelled
  its cancellation event, and its due date is that of the creation or of an extension event. No step of
  the workflow is lost between a commit and the publication of its event.
\<close>

theorem outbox_records_every_step:
  assumes "saga_step\<^sup>*\<^sup>* (start t) g"
  shows "(\<forall>q\<in>set (operations (now g)). Some (op_corr q) \<in> reserved_of ` events (now g)
        \<and> (op_status q = OpReleased \<longrightarrow> Some (op_corr q) \<in> released_of ` events (now g))
        \<and> (op_status q \<in> {OpBorrowed, OpReturned} \<longrightarrow> Some (op_corr q, op_loan_id q) \<in> borrowed_of ` events (now g))
        \<and> (op_status q = OpReturned \<longrightarrow> Some (op_corr q, op_loan_id q) \<in> returned_of ` events (now g)))
    \<and> (\<forall>l\<in>set (loans (now g)). Some (lr_id l) \<in> created_loan ` events (now g)
        \<and> (lr_status l = ''returned'' \<longrightarrow> Some (lr_id l) \<in> completed_loan ` events (now g))
        \<and> (lr_status l = ''cancelled'' \<longrightarrow> Some (lr_id l) \<in> cancelled_loan ` events (now g))
        \<and> Some (lr_id l, lr_due_date l) \<in> due_of ` events (now g))"
  using saga_reachable_ok [OF assms]
  by (simp add: saga_ok_def good_def recorded_def op_recorded_def loan_recorded_def settled_def)

theorem outbox_records_every_step_witness:
  "Some (lr_id (loan_from_entity dune_loan)) \<in> created_loan ` events run5"
proof -
  have "loan_from_entity dune_loan \<in> set (loans (now (sample_saga 5)))" by (simp add: run5_def run4_def)
  with outbox_records_every_step [OF sample_saga_reachable(2)] show ?thesis unfolding sample_saga_simps by blast
qed

text \<open>A lookup of at most one row, of a table whose rows were written from entities.\<close>

lemma lookup_exact:
  assumes "distinct rows" and "\<And>r r'. r \<in> set rows \<Longrightarrow> r' \<in> set rows \<Longrightarrow> P r \<Longrightarrow> P r' \<Longrightarrow> r = r'"
    and "\<And>r. r \<in> set rows \<Longrightarrow> \<exists>x. to r = Inr x \<and> from x = r"
  obtains "filter P rows = []" "{r \<in> set rows. P r} = {}"
  | r x where "filter P rows = [r]" "to r = Inr x" "from x = r" "{r \<in> set rows. P r} = {r}"
proof (cases "filter P rows")
  case Nil
  then have "{r \<in> set rows. P r} = {}" by (metis list.set(1) set_filter)
  with Nil that(1) show thesis by simp
next
  case (Cons r rs)
  then have r: "r \<in> set rows" "P r" by (auto dest!: arg_cong [of _ _ set])
  have "set (filter P rows) \<subseteq> {r}" using assms(2) r by auto
  moreover have "distinct (filter P rows)" using assms(1) by simp
  ultimately have "rs = []" using Cons by (cases rs) auto
  moreover have "{x \<in> set rows. P x} = {r}" using assms(2) r by auto
  ultimately show thesis using assms(3) [OF r(1)] Cons that(2) by auto
qed

lemma set_option_lookup:
  assumes "distinct rows" and "\<And>r r'. r \<in> set rows \<Longrightarrow> r' \<in> set rows \<Longrightarrow> P r \<Longrightarrow> P r' \<Longrightarrow> r = r'"
    and "\<And>r. r \<in> set rows \<Longrightarrow> \<exists>x. to r = Inr x \<and> from x = r"
  shows "\<exists>found. rbind (scalar_one_or_none e (filter P rows)) (ropt to) = Inr found \<and> from ` set_option found = {r \<in> set rows. P r}"
proof (rule lookup_exact [of rows P to "from", OF assms])
  assume "filter P rows = []" "{r \<in> set rows. P r} = {}"
  then show ?thesis by (intro exI [of _ None]) (simp add: scalar_one_or_none_def)
next
  fix r x
  assume "filter P rows = [r]" "to r = Inr x" "from x = r" "{r \<in> set rows. P r} = {r}"
  then show ?thesis by (intro exI [of _ "Some x"]) (simp add: scalar_one_or_none_def)
qed

lemma good_rows:
  assumes "good d"
  shows "r \<in> set (loans d) \<Longrightarrow> \<exists>l. loan_to_entity r = Inr l \<and> loan_from_entity l = r"
    and "s \<in> set (books d) \<Longrightarrow> \<exists>b. book_to_entity s = Inr b \<and> book_from_entity b = s"
  using assms loan_roundtrip book_roundtrip by (fastforce simp: good_def entities_ok_def)+

text \<open>
  C23: the lookups on which the handlers decide are exact in every reachable state. Finding a book by its
  identifier, the loan of a reservation and the outstanding loan of a book never fails, neither because there
  are several rows nor because a row cannot be read back; it returns nothing when there
  is no such row, and otherwise the entity of the only one. So a reservation has at most one loan, and a book at
  most one whose status the repository regards as outstanding, whatever handlers have run.
\<close>

theorem reachable_lookups_are_exact:
  assumes "saga_step\<^sup>*\<^sup>* (start t) g"
  shows "(\<exists>found. book_by_id (now g) i = Inr found \<and> book_from_entity ` set_option found = {r \<in> set (books (now g)). br_id r = i})
    \<and> (\<exists>found. active_loan_for_book (now g) i = Inr found
        \<and> loan_from_entity ` set_option found = {r \<in> set (loans (now g)). lr_catalog_book_id r = i \<and> outstanding r})
    \<and> (canon_uuid raw = Some token \<longrightarrow> (\<exists>found. loan_by_reservation (now g) raw = Inr found
        \<and> loan_from_entity ` set_option found = {r \<in> set (loans (now g)). lr_reservation_id r = token}))"
proof -
  have d: "good (now g)" using saga_reachable_ok [OF assms] by (simp add: saga_ok_def)
  then have ok: "db_ok (now g)" by (simp add: good_def)
  have distinct: "distinct (books (now g))" "distinct (loans (now g))"
    using books_key [OF ok] loans_key [OF ok] by (simp_all add: distinct_map)
  have "\<exists>found. book_by_id (now g) i = Inr found \<and> book_from_entity ` set_option found = {r \<in> set (books (now g)). br_id r = i}"
  proof (rule lookup_exact [of "books (now g)" "\<lambda>r. br_id r = i" book_to_entity book_from_entity, OF distinct(1) _ good_rows(2) [OF d]])
    show "r = r'" if "r \<in> set (books (now g))" "r' \<in> set (books (now g))" "br_id r = i" "br_id r' = i" for r r'
      using distinct_map_eq [OF books_key [OF ok] that(1,2)] that(3,4) by simp
  qed (auto simp: book_by_id_def)
  moreover have "\<exists>found. active_loan_for_book (now g) i = Inr found
        \<and> loan_from_entity ` set_option found = {r \<in> set (loans (now g)). lr_catalog_book_id r = i \<and> outstanding r}"
    unfolding active_loan_for_book_def
    using outstanding_unique [OF ok] by (intro set_option_lookup [OF distinct(2) _ good_rows(1) [OF d]]) auto
  moreover have "\<exists>found. loan_by_reservation (now g) raw = Inr found
        \<and> loan_from_entity ` set_option found = {r \<in> set (loans (now g)). lr_reservation_id r = token}"
    if "canon_uuid raw = Some token"
  proof -
    have "loan_by_reservation (now g) raw = rbind (scalar_one_or_none (Py (DatabaseException (''Error retrieving loan for reservation '' @ token)))
        (filter (\<lambda>r. lr_reservation_id r = token) (loans (now g)))) (ropt loan_to_entity)"
      using that by (simp add: loan_by_reservation_def lending_reservation_id_def)
    then show ?thesis using distinct_map_eq [OF loans_reservation_key [OF ok]]
      by (simp, intro set_option_lookup [OF distinct(2) _ good_rows(1) [OF d]]) auto
  qed
  ultimately show ?thesis by blast
qed

theorem reachable_lookups_are_exact_witness:
  "\<exists>l. active_loan_for_book run5 ''book-1'' = Inr (Some l) \<and> loan_from_entity l = loan_from_entity dune_loan"
proof -
  have "{r \<in> set (loans run5). lr_catalog_book_id r = ''book-1'' \<and> outstanding r} = {loan_from_entity dune_loan}"
    by (auto simp: run5_def run4_def outstanding_iff) (simp_all add: loan_from_entity_def dune_loan_def)
  with reachable_lookups_are_exact [OF sample_saga_reachable(2), where i = "''book-1''" and raw = "[]" and token = "[]"]
  obtain found where "active_loan_for_book run5 ''book-1'' = Inr found" "loan_from_entity ` set_option found = {loan_from_entity dune_loan}"
    by auto
  then show ?thesis by (cases found) auto
qed

text \<open>
  C7: a live reservation is never refused. When the message that its loan was created is
  handled, on the current state or on any earlier one in which the loan exists, while the
  book is reserved or borrowed under the reservation, the confirmation does not fail as
  stale. So the loan of a book that is being held is never cancelled as a leftover.
\<close>

theorem live_reservation_is_never_refused:
  assumes "saga_step\<^sup>*\<^sup>* (start t) g" and "v \<in> views g"
    and "LendingEvent (LoanCreated lid rid gen p em book ttl at due) \<in> events v"
    and "r \<in> set (books (now g))" and "br_status r \<noteq> ''available''" and "book_corr r = (book, Some rid, gen, Some p)"
  shows "confirm_book_borrow e \<lparr>cb_book_id = book, cb_reservation_id = rid, cb_reservation_generation = gen,
           cb_patron_id = p, cb_loan_id = lid, cb_borrowed_at = at, cb_return_due_date = utc due\<rparr> v
         \<noteq> Inl (Catalog (StaleReservationException b token n why))"
proof
  assume x: "confirm_book_borrow e \<lparr>cb_book_id = book, cb_reservation_id = rid, cb_reservation_generation = gen,
           cb_patron_id = p, cb_loan_id = lid, cb_borrowed_at = at, cb_return_due_date = utc due\<rparr> v
         = Inl (Catalog (StaleReservationException b token n why))"
  have ok: "saga_ok g" by (rule saga_reachable_ok [OF assms(1)])
  note v = saga_ok_view [OF ok assms(2)]
  have d: "good (now g)" using ok by (simp add: saga_ok_def)
  have "not_borrowed v (book, Some rid, gen, Some p)"
    by (rule refused_not_borrowed [OF conjunct1 [OF v] assms(3) _ x]) simp_all
  with v not_borrowed_older obtain q where q: "q \<in> set (operations (now g))" "op_corr q = (book, Some rid, gen, Some p)"
      "op_status q = OpReleased \<or> op_status q = OpReturned"
    unfolding not_borrowed_def by blast
  have corr: "op_corr q = book_corr r" using q(2) assms(6) by simp
  from d assms(4) obtain bk where "r = book_from_entity bk" unfolding good_def entities_ok_def by blast
  with assms(5) have "br_status r = ''reserved'' \<or> br_status r = ''borrowed''" by (cases "status bk") simp_all
  moreover have c: "saga_core (set (books (now g))) (set (loans (now g))) (set (operations (now g))) (events (now g))"
      "db_ok (now g)" using d by (simp_all add: good_def)
  ultimately show False
    using current_operation [OF c(1) db_keys [OF c(2)] assms(4) q(1) corr] q(3) by auto
qed

theorem live_reservation_is_never_refused_witness:
  "confirm_book_borrow (env_for ''x'' ''evt-9'') confirm_dune run4 \<noteq> Inl (Catalog (StaleReservationException ''book-1'' sample_uuid 1 ''confirm borrow''))"
proof -
  have r: "next_row borrowed_dune \<in> set (books (now (sample_saga 5)))" by (simp add: run5_def)
  show ?thesis unfolding confirm_dune_def
    by (rule live_reservation_is_never_refused [OF sample_saga_reachable(2) sample_saga_simps(3)
          run4_event [unfolded dune_created_def] r])
      (simp_all add: borrowed_dune_def reserved_dune_def sample_book_def)
qed

end
