(* ===== verification/BorrowingFence.thy ===== *)
theory BorrowingFence
  imports SagaRun
begin

text \<open>
  The borrowing fence (\<open>src/infrastructure/adapters/borrowing_fence.py\<close>) and the sessions that take it: the
  creation of a loan, and the suspension, the reinstatement and the tier upgrade of a patron. The fence is a
  PostgreSQL advisory lock on the hash of the patron's identifier, held by a transaction until it
  commits or rolls back; a session that asks for a lock of another one waits.

  A state is that of the workflow with the locks and, for each session, how far its transaction has got
  and what it has read. Every query of a transaction reads what is committed at its own moment, and
  everything else may happen between any two of them.
\<close>

section \<open>The lock\<close>

type_synonym locks = "int \<Rightarrow> nat option"

text \<open>\<open>None\<close>: the session has to wait. A lock may be taken again by its owner.\<close>

definition acquire_borrowing_fence :: "(string \<Rightarrow> int) \<Rightarrow> nat \<Rightarrow> string \<Rightarrow> locks \<Rightarrow> locks option" where
  "acquire_borrowing_fence hash i patron ls =
     (case ls (hash patron) of
        None \<Rightarrow> Some (ls(hash patron \<mapsto> i))
      | Some j \<Rightarrow> (if j = i then Some ls else None))"

definition release_locks :: "nat \<Rightarrow> locks \<Rightarrow> locks" where
  "release_locks i ls = (\<lambda>k. if ls k = Some i then None else ls k)"

section \<open>Sessions\<close>

datatype policy_change =
    Suspension env suspend_patron_command
  | Reinstatement env reinstate_patron_command
  | TierUpgrade env upgrade_patron_tier_command

fun policy_patron :: "policy_change \<Rightarrow> string" where
  "policy_patron (Suspension e c) = py_strip (sp_patron_id c)"
| "policy_patron (Reinstatement e c) = py_strip (ri_patron_id c)"
| "policy_patron (TierUpgrade e c) = py_strip (up_patron_id c)"

fun run_policy :: "policy_change \<Rightarrow> db \<Rightarrow> exn + plan \<times> response" where
  "run_policy (Suspension e c) v = suspend_patron e c v"
| "run_policy (Reinstatement e c) v = reinstate_patron e c v"
| "run_policy (TierUpgrade e c) v = upgrade_patron_tier e c v"

text \<open>
  A loan is asked for, with what was read before the fence; it is considered behind the fence, with
  what the queries have seen so far. A change of a patron is asked for and made in the same way.
\<close>

datatype session =
    Idle
  | Asking catalog_event env create_loan_command db
  | Considering catalog_event env create_loan_command db "db list"
  | ChangeAsked policy_change db
  | Changing policy_change db "db option"

fun admission :: "db list \<Rightarrow> admission_reads option" where
  "admission [v1, v2, v3, v4] = Some \<lparr>counted_in = v1, rechecked_in = v2, directory_in = v3, contended_in = v4\<rparr>"
| "admission _ = None"

record fence_state =
  workflow :: saga
  locks :: locks
  sessions :: "nat \<Rightarrow> session"

definition enter :: "nat \<Rightarrow> session \<Rightarrow> fence_state \<Rightarrow> fence_state" where
  "enter i x s = s\<lparr>sessions := (sessions s)(i := x)\<rparr>"

text \<open>The transaction has committed, and the state is \<open>g\<close>, or it has rolled back.\<close>

definition leave :: "nat \<Rightarrow> saga \<Rightarrow> fence_state \<Rightarrow> fence_state" where
  "leave i g s = s\<lparr>workflow := g, locks := release_locks i (locks s), sessions := (sessions s)(i := Idle)\<rparr>"

abbreviation committed :: "fence_state \<Rightarrow> db" where
  "committed s \<equiv> now (workflow s)"

definition fence_start :: "instant \<Rightarrow> fence_state" where
  "fence_start t = \<lparr>workflow = start t, locks = (\<lambda>k. None), sessions = (\<lambda>i. Idle)\<rparr>"

text \<open>
  \<open>ask\<close> to \<open>reject\<close> are \<open>CreateLoanHandler\<close>, in the order of its awaits: the first look for the loan of
  the reservation, the fence, the four queries of the admission, the commit. \<open>ask_change\<close> to \<open>change\<close>
  are the three handlers of a patron: the look for the receipt, the fence, the patron, the commit. A
  session may be abandoned at any time, by an error, a crash or a replay that is answered at once.
\<close>

inductive fence_step :: "(string \<Rightarrow> int) \<Rightarrow> fence_state \<Rightarrow> fence_state \<Rightarrow> bool" for hash where
  unfenced: "unfenced_step (workflow s) g \<Longrightarrow> fence_step hash s (s\<lparr>workflow := g\<rparr>)"
| ask: "sessions s i = Idle \<Longrightarrow> CatalogEvent cev \<in> events (committed s) \<Longrightarrow> create_loan_command_of cev = Some c \<Longrightarrow>
    fence_step hash s (enter i (Asking cev e c (committed s)) s)"
| fence: "sessions s i = Asking cev e c early \<Longrightarrow> lending_reservation_id (cl_reservation_id c) = Inr rid \<Longrightarrow>
    loan_by_reservation early rid = Inr None \<Longrightarrow> acquire_borrowing_fence hash i (cl_patron_id c) (locks s) = Some ls \<Longrightarrow>
    fence_step hash s (enter i (Considering cev e c early []) (s\<lparr>locks := ls\<rparr>))"
| read_next: "sessions s i = Considering cev e c early vs \<Longrightarrow> length vs < 4 \<Longrightarrow>
    fence_step hash s (enter i (Considering cev e c early (vs @ [committed s])) s)"
| admit: "sessions s i = Considering cev e c early vs \<Longrightarrow> admission vs = Some w \<Longrightarrow>
    create_loan e c early w (committed s) (committed s) = Inr (d, r) \<Longrightarrow>
    fence_step hash s (leave i (advance (workflow s) d) s)"
| reject: "sessions s i = Considering cev e c early vs \<Longrightarrow> admission vs = Some w \<Longrightarrow>
    create_loan e c early w (committed s) (committed s) = Inl x \<Longrightarrow> business_rejection x = Some why \<Longrightarrow>
    fence_step hash s (leave i (workflow s\<lparr>rejected := insert (cev, why) (rejected (workflow s))\<rparr>) s)"
| ask_change: "sessions s i = Idle \<Longrightarrow> fence_step hash s (enter i (ChangeAsked p (committed s)) s)"
| fence_change: "sessions s i = ChangeAsked p early \<Longrightarrow> acquire_borrowing_fence hash i (policy_patron p) (locks s) = Some ls \<Longrightarrow>
    fence_step hash s (enter i (Changing p early None) (s\<lparr>locks := ls\<rparr>))"
| read_patron: "sessions s i = Changing p early None \<Longrightarrow> fence_step hash s (enter i (Changing p early (Some (committed s))) s)"
| change: "sessions s i = Changing p early (Some v) \<Longrightarrow>
    run_tx PatronUow (run_policy p) (v\<lparr>receipts := receipts early\<rparr>) (committed s) = Inr (d, r) \<Longrightarrow>
    fence_step hash s (leave i (advance (workflow s) d) s)"
| abandon: "fence_step hash s (leave i (workflow s) s)"

section \<open>Effects on the loans and the patrons\<close>

text \<open>A change that takes no fence: patrons are only registered, and nobody has more loans.\<close>

definition patron_row_ok :: "patron_row \<Rightarrow> bool" where
  "patron_row_ok r \<longleftrightarrow> (\<exists>p. patron_wf p \<and> r = patron_from_entity p)"

definition calm :: "db \<Rightarrow> db \<Rightarrow> bool" where
  "calm d d' \<longleftrightarrow> (\<exists>ps. patrons d' = patrons d @ ps \<and> (\<forall>r\<in>set ps. patron_row_ok r)) \<and> (\<forall>p. count_outstanding d' p \<le> count_outstanding d p)
     \<and> lr_patron_id ` set (loans d') \<subseteq> lr_patron_id ` set (loans d) \<and> lr_id ` set (loans d') \<subseteq> lr_id ` set (loans d)"

lemma calm_refl: "calm d d"
  by (simp add: calm_def)

lemma calm_same: "loans d' = loans d \<Longrightarrow> patrons d' = patrons d @ ps \<Longrightarrow> \<forall>r\<in>set ps. patron_row_ok r \<Longrightarrow> calm d d'"
  by (auto simp: calm_def count_outstanding_def)

lemma calm_trans:
  assumes "calm a b" and "calm b c"
  shows "calm a c"
proof -
  obtain ps ps' where "patrons b = patrons a @ ps" "patrons c = patrons b @ ps'"
    and "\<forall>r\<in>set ps. patron_row_ok r" "\<forall>r\<in>set ps'. patron_row_ok r" using assms by (auto simp: calm_def)
  then have "\<exists>ps. patrons c = patrons a @ ps \<and> (\<forall>r\<in>set ps. patron_row_ok r)" by (intro exI [of _ "ps @ ps'"]) auto
  moreover have "count_outstanding c p \<le> count_outstanding a p" for p using assms unfolding calm_def by (meson order_trans)
  ultimately show ?thesis using assms unfolding calm_def by (meson subset_trans)
qed

fun quiet_stmt :: "stmt \<Rightarrow> bool" where
  "quiet_stmt (UpdateLoan i v r) = False"
| "quiet_stmt (UpdatePatron i v r) = False"
| "quiet_stmt _ = True"

fun quiet_insert :: "insert \<Rightarrow> bool" where
  "quiet_insert (InsLoan r) = False"
| "quiet_insert (InsPatron r) = patron_row_ok r"
| "quiet_insert _ = True"

lemma exec_quiet: "exec_all ss d = Inr d' \<Longrightarrow> list_all quiet_stmt ss \<Longrightarrow> loans d' = loans d \<and> patrons d' = patrons d"
proof (induction ss arbitrary: d)
  case (Cons s ss)
  then obtain d1 where "exec_stmt s d = Inr d1" "exec_all ss d1 = Inr d'" by (auto elim: rbindE)
  moreover from this(1) Cons.prems(2) have "loans d1 = loans d \<and> patrons d1 = patrons d"
    by (cases s) (auto elim: update_book_Inr transition_operation_Inr)
  ultimately show ?case using Cons by auto
qed simp

lemma flush_patrons: "flush_all is d = Inr d' \<Longrightarrow> list_all quiet_insert is \<Longrightarrow>
   loans d' = loans d \<and> (\<exists>ps. patrons d' = patrons d @ ps \<and> (\<forall>r\<in>set ps. patron_row_ok r))"
proof (induction "is" arbitrary: d)
  case (Cons i "is")
  then obtain d1 where "flush_insert i d = Inr d1" "flush_all is d1 = Inr d'" by (auto elim: rbindE)
  moreover from this(1) Cons.prems(2) have "loans d1 = loans d \<and> (\<exists>ps. patrons d1 = patrons d @ ps \<and> (\<forall>r\<in>set ps. patron_row_ok r))"
    by (cases i) (auto simp: insert_row_Inr)
  ultimately show ?case using Cons.IH [of d1] Cons.prems(2) by fastforce
qed simp

lemma quiet_staged [simp]: "list_all quiet_insert (stage_book b)" "list_all quiet_insert (stage_loan l)"
    "list_all quiet_insert (stage_patron p)" "list_all quiet_insert (receipt_for sc key h r)"
  by (auto simp: stage_book_def stage_loan_def stage_patron_def receipt_for_def list_all_iff split: option.splits)

lemma quiet_plan: "commit u (ss, is) d = Inr d' \<Longrightarrow> list_all quiet_stmt ss \<Longrightarrow> list_all quiet_insert is \<Longrightarrow> calm d d'"
  by (erule commit_plan, drule (1) exec_quiet, drule (1) flush_patrons) (auto intro: calm_same)

lemma release_each_quiet:
  "release_each e ttl n bs = Inr ((ss, is), k) \<Longrightarrow> list_all quiet_stmt ss \<and> list_all quiet_insert is"
proof (induction bs arbitrary: n ss "is" k)
  case (Cons b bs)
  then show ?case by (fastforce elim!: rbindE split: option.splits if_splits)
qed simp

lemma quiet_tx:
  assumes "run_tx u body v d = Inr (d', r)"
    and "\<And>p. body v = Inr (p, r) \<Longrightarrow> list_all quiet_stmt (fst p) \<and> list_all quiet_insert (snd p)"
  shows "calm d d'"
proof -
  from assms(1) obtain p where "body v = Inr (p, r)" "commit u p d = Inr d'" by (auto simp: run_tx_Inr)
  with assms(2) quiet_plan show ?thesis by (cases p) auto
qed

lemma catalog_calm:
  shows "run_tx u (add_book e ca) v d = Inr (d', r) \<Longrightarrow> calm d d'"
    and "run_tx u (borrow_book e cb) v d = Inr (d', r) \<Longrightarrow> calm d d'"
    and "run_tx u (register_patron e cr) v d = Inr (d', r) \<Longrightarrow> calm d d'"
    and "run_tx u (release_book_reservation e rc) v d = Inr (d', b) \<Longrightarrow> calm d d'"
    and "run_tx u (confirm_book_borrow e cf) v d = Inr (d', b) \<Longrightarrow> calm d d'"
    and "run_tx u (return_book_handler e cret) v d = Inr (d', rr) \<Longrightarrow> calm d d'"
    and "run_tx u (release_expired_reservations e locked cs) v d = Inr (d', n) \<Longrightarrow> calm d d'"
proof -
  note defs = release_book_reservation_def confirm_book_borrow_def return_book_handler_def release_expired_reservations_def Let_def
  show "run_tx u (add_book e ca) v d = Inr (d', r) \<Longrightarrow> calm d d'" by (erule quiet_tx, erule add_book_plan) simp_all
  show "run_tx u (borrow_book e cb) v d = Inr (d', r) \<Longrightarrow> calm d d'" by (erule quiet_tx, erule borrow_book_plan) simp_all
  show "run_tx u (register_patron e cr) v d = Inr (d', r) \<Longrightarrow> calm d d'" by (erule quiet_tx, erule register_patron_plan) (auto simp: patron_row_ok_def dest: register_wf)
  show "run_tx u (release_book_reservation e rc) v d = Inr (d', b) \<Longrightarrow> calm d d'"
    by (erule quiet_tx) (auto simp: defs elim!: rbindE split: option.splits if_splits)
  show "run_tx u (confirm_book_borrow e cf) v d = Inr (d', b) \<Longrightarrow> calm d d'"
    by (erule quiet_tx) (auto simp: defs elim!: rbindE split: option.splits if_splits)
  show "run_tx u (return_book_handler e cret) v d = Inr (d', rr) \<Longrightarrow> calm d d'"
    by (erule quiet_tx) (auto simp: defs elim!: rbindE split: option.splits if_splits)
  show "run_tx u (release_expired_reservations e locked cs) v d = Inr (d', n) \<Longrightarrow> calm d d'"
    by (erule quiet_tx) (auto simp: defs dest: release_each_quiet elim!: rbindE split: if_splits)
qed

text \<open>A change of a loan that was outstanding when it was read.\<close>

lemma count_card:
  assumes "db_ok d"
  shows "count_outstanding d p = int (card {r \<in> set (loans d). lr_patron_id r = p \<and> outstanding r})"
proof -
  have "distinct (loans d)" using loans_key [OF assms] by (simp add: distinct_map)
  then show ?thesis using distinct_card [of "filter (\<lambda>r. lr_patron_id r = p \<and> outstanding r) (loans d)"]
    by (simp add: count_outstanding_def)
qed

lemma loan_change_calm:
  assumes "db_ok d" and "loan_read v d l" and "loan_status l \<noteq> RETURNED" "loan_status l \<noteq> CANCELLED"
    and same: "loan_id l' = loan_id l" "loan_version l' = loan_version l" "loan_patron_id l' = loan_patron_id l"
      "loan_patron_email l' = loan_patron_email l" "loan_book_id l' = loan_book_id l" "loan_book_title l' = loan_book_title l"
      "loan_reservation_id l' = loan_reservation_id l" "loan_borrowed_at l' = loan_borrowed_at l"
      "loan_reservation_generation l' = loan_reservation_generation l"
    and com: "commit u ([UpdateLoan (loan_id l') (loan_version l') (loan_from_entity l')], is) d = Inr d'"
    and "list_all quiet_insert is"
  shows "calm d d'"
proof -
  from com obtain da where u: "update_loan (loan_id l') (loan_version l') (loan_from_entity l') d = Inr da"
    and f: "flush_all is da = Inr d'" by (auto elim!: commit_plan rbindE)
  have stored: "\<forall>r\<in>set (loans d). lr_id r = loan_id l \<longrightarrow> lr_version r = loan_version l \<longrightarrow> r = loan_from_entity l"
    using assms(2) by (simp add: loan_read_def)
  note ul = update_loan_effect [OF assms(1) u stored same]
  let ?x = "loan_from_entity (l'\<lparr>loan_version := loan_version l + 1\<rparr>)" and ?l = "loan_from_entity l"
  have old: "outstanding ?l" using assms(3,4) by (simp add: outstanding_iff)
  have keys: "lr_patron_id ?x = lr_patron_id ?l" "lr_id ?x = lr_id ?l" using same by (simp_all add: loan_from_entity_def)
  have "count_outstanding da p \<le> count_outstanding d p" for p
  proof -
    let ?C = "\<lambda>R. {r \<in> R. lr_patron_id r = p \<and> outstanding r}"
    have "card (?C (set (loans da))) \<le> card (?C (set (loans d)))"
    proof (cases "lr_patron_id ?l = p")
      case True
      then have c: "?C (set (loans d)) = insert ?l (?C (set (loans d) - {?l}))" using ul(1) old by auto
      have "?C (set (loans da)) \<subseteq> insert ?x (?C (set (loans d) - {?l}))" unfolding ul(2) by auto
      then have "card (?C (set (loans da))) \<le> card (insert ?x (?C (set (loans d) - {?l})))" by (rule card_mono [rotated]) simp
      also have "\<dots> \<le> Suc (card (?C (set (loans d) - {?l})))" by (simp add: card_insert_if)
      also have "\<dots> = card (?C (set (loans d)))" unfolding c by simp
      finally show ?thesis .
    next
      case False
      with keys(1) have "?C (set (loans da)) = ?C (set (loans d))" unfolding ul(2) by auto
      then show ?thesis by simp
    qed
    then show ?thesis using count_card [OF assms(1)] count_card [OF update_loan_ok [OF assms(1) u]] by simp
  qed
  moreover have "patrons da = patrons d" using ul(3) by auto
  moreover have "lr_patron_id ` set (loans da) \<subseteq> lr_patron_id ` set (loans d)" "lr_id ` set (loans da) \<subseteq> lr_id ` set (loans d)"
    using keys imageI [OF ul(1), of lr_patron_id] imageI [OF ul(1), of lr_id] unfolding ul(2) by (auto simp del: next_loan_row_simps)
  moreover have "calm da d'" using flush_patrons [OF f assms(15)] calm_same by blast
  ultimately show ?thesis using calm_trans [of d da d'] by (simp add: calm_def)
qed

lemma unfenced_calm:
  assumes "saga_ok g" and "unfenced_step g g'"
  shows "calm (now g) (now g')"
proof -
  have ok: "db_ok (now g)" using assms(1) by (simp add: saga_ok_def good_def)
  have v: "good v" "older v (now g)" if "v \<in> views g" for v using saga_ok_view [OF assms(1) that] by simp_all
  have loan: "calm (now g) d" if "v \<in> views g" "commit u p (now g) = Inr d" and
      p: "p = ([], is) \<or> (\<exists>l l'. loan_read v (now g) l \<and> loan_status l \<noteq> RETURNED \<and> loan_status l \<noteq> CANCELLED
         \<and> l' = l\<lparr>loan_status := loan_status l', loan_returned_at := loan_returned_at l', loan_due_date := loan_due_date l',
              loan_events := loan_events l'\<rparr>
         \<and> p = ([UpdateLoan (loan_id l') (loan_version l') (loan_from_entity l')], is))"
      and "list_all quiet_insert is" for v u p "is" d
    using p
  proof
    assume "p = ([], is)"
    with that quiet_plan show ?thesis by simp
  next
    assume "\<exists>l l'. loan_read v (now g) l \<and> loan_status l \<noteq> RETURNED \<and> loan_status l \<noteq> CANCELLED
         \<and> l' = l\<lparr>loan_status := loan_status l', loan_returned_at := loan_returned_at l', loan_due_date := loan_due_date l',
              loan_events := loan_events l'\<rparr>
         \<and> p = ([UpdateLoan (loan_id l') (loan_version l') (loan_from_entity l')], is)"
    then obtain l l' where l: "loan_read v (now g) l" "loan_status l \<noteq> RETURNED" "loan_status l \<noteq> CANCELLED"
      "l' = l\<lparr>loan_status := loan_status l', loan_returned_at := loan_returned_at l', loan_due_date := loan_due_date l',
              loan_events := loan_events l'\<rparr>"
      "p = ([UpdateLoan (loan_id l') (loan_version l') (loan_from_entity l')], is)" by blast
    show ?thesis
      by (rule loan_change_calm [OF ok l(1-3) _ _ _ _ _ _ _ _ _ that(2) [unfolded l(5)] that(4)]) (subst l(4), simp)+
  qed
  have cancel: "calm (now g) d" if "v \<in> views g" "run_tx LendingUow (cancel_loan e cn) v (now g) = Inr (d, b)" for v e cn d b
  proof -
    from that(2) obtain p where p: "cancel_loan e cn v = Inr (p, b)" "commit LendingUow p (now g) = Inr d" by (auto simp: run_tx_Inr)
    from p(1) show ?thesis
    proof (rule cancel_loan_plan)
      assume "p = ([], [])"
      then show ?thesis by (intro loan [OF that(1) p(2), of "[]"]) simp_all
    next
      fix rid l l'
      assume "loan_by_reservation v rid = Inr (Some l)" "loan_cancel (ambients e 0) (cn_reason cn) l = Inr (l', True)"
        and q: "p = ([UpdateLoan (loan_id l') (loan_version l') (loan_from_entity l')], stage_loan l')"
      with loan_by_reservation_read [OF v [OF that(1)] ok] have "loan_read v (now g) l" "loan_status l \<noteq> RETURNED"
          "loan_status l \<noteq> CANCELLED" "l' = l\<lparr>loan_status := loan_status l', loan_returned_at := loan_returned_at l',
             loan_due_date := loan_due_date l', loan_events := loan_events l'\<rparr>"
        by (auto elim!: loan_cancel_Inr)
      with q show ?thesis by (intro loan [OF that(1) p(2), of "stage_loan l'"]) auto
    qed
  qed
  from assms(2) show ?thesis
  proof cases
    case (return_loan v e cl d r)
    then obtain p where p: "LendingHandlers.return_loan e cl v = Inr (p, r)" "commit LendingUow p (now g) = Inr d" by (auto simp: run_tx_Inr)
    have "calm (now g) d" using p(1)
    proof (rule return_loan_plan)
      fix l l' key h
      assume "loan_by_id v (py_strip (rl_loan_id cl)) = Inr (Some l)" "loan_return (ambients e 0) (utc (clock_now e)) l = Inr (l', True)"
        and q: "p = ([UpdateLoan (loan_id l') (loan_version l') (loan_from_entity l')], receipt_for ''lending.return_loan'' key h r @ stage_loan l')"
      with loan_by_id_read [OF v [OF return_loan(2)] ok] have "loan_read v (now g) l" "loan_status l \<noteq> RETURNED"
          "loan_status l \<noteq> CANCELLED" "l' = l\<lparr>loan_status := loan_status l', loan_returned_at := loan_returned_at l',
             loan_due_date := loan_due_date l', loan_events := loan_events l'\<rparr>"
        by (auto elim!: loan_return_Inr)
      with q show ?thesis by (intro loan [OF return_loan(2) p(2), of "snd p"]) auto
    qed (use loan [OF return_loan(2) p(2), of "snd p"] in auto)
    then show ?thesis by (simp add: return_loan(1) advance_def)
  next
    case (extend_loan v e cx d r)
    then obtain p where p: "LendingHandlers.extend_loan e cx v = Inr (p, r)" "commit LendingUow p (now g) = Inr d" by (auto simp: run_tx_Inr)
    have "calm (now g) d" using p(1)
    proof (rule extend_loan_plan)
      fix l l' key h
      assume "loan_by_id v (xl_loan_id cx) = Inr (Some l)" "loan_extend (ambients e 0) (xl_days cx) (utc (clock_now e)) l = Inr l'"
        and q: "p = ([UpdateLoan (loan_id l') (loan_version l') (loan_from_entity l')], receipt_for ''lending.extend_loan'' key h r @ stage_loan l')"
      with loan_by_id_read [OF v [OF extend_loan(2)] ok] have "loan_read v (now g) l" "loan_status l \<noteq> RETURNED"
          "loan_status l \<noteq> CANCELLED" "l' = l\<lparr>loan_status := loan_status l', loan_returned_at := loan_returned_at l',
             loan_due_date := loan_due_date l', loan_events := loan_events l'\<rparr>"
        by (auto elim!: loan_extend_Inr)
      with q show ?thesis by (intro loan [OF extend_loan(2) p(2), of "snd p"]) auto
    qed (use loan [OF extend_loan(2) p(2), of "snd p"] in auto)
    then show ?thesis by (simp add: extend_loan(1) advance_def)
  qed (auto simp: advance_def count_outstanding_def intro: catalog_calm cancel calm_same calm_refl)
qed

end
