(* ===== verification/BorrowingPolicy.thy ===== *)
theory BorrowingPolicy
  imports BorrowingFence
begin

text \<open>
  The admission policy of Lending holds in every run of the sessions of \<open>BorrowingFence\<close>: what a
  session reads about a patron behind the fence stays true until it commits, because the sessions that
  could change it wait for the same lock.
\<close>

section \<open>The limits\<close>

definition tier_limit :: "patron_row \<Rightarrow> int option" where
  "tier_limit r = map_option max_outstanding_loans (for_membership_tier (pr_membership_tier r))"

definition policy_holds :: "db \<Rightarrow> bool" where
  "policy_holds d \<longleftrightarrow> (\<forall>r\<in>set (patrons d). patron_row_ok r)
     \<and> (\<forall>r\<in>set (patrons d). \<exists>m. tier_limit r = Some m \<and> count_outstanding d (pr_id r) \<le> m)
     \<and> lr_patron_id ` set (loans d) \<subseteq> pr_id ` set (patrons d)"

text \<open>The borrower of the loan is registered, not suspended, and has its address.\<close>

definition entitled :: "db \<Rightarrow> loan_row \<Rightarrow> bool" where
  "entitled d l \<longleftrightarrow> (\<exists>x\<in>set (patrons d). pr_id x = lr_patron_id l \<and> \<not> pr_is_suspended x \<and> pr_email x = lr_patron_email l)"

text \<open>The patron has no more loans than before, and the row is as it was.\<close>

definition undisturbed :: "db \<Rightarrow> db \<Rightarrow> string \<Rightarrow> bool" where
  "undisturbed d d' p \<longleftrightarrow> count_outstanding d' p \<le> count_outstanding d p
     \<and> (\<forall>r\<in>set (patrons d). pr_id r = p \<longrightarrow> r \<in> set (patrons d'))"

lemma undisturbed_refl: "undisturbed d d p"
  by (simp add: undisturbed_def)

lemma tier_terms: "for_membership_tier ''regular'' = Some \<lparr>max_outstanding_loans = 5, loan_duration_days = 14\<rparr>"
    "for_membership_tier ''premium'' = Some \<lparr>max_outstanding_loans = 10, loan_duration_days = 21\<rparr>"
    "for_membership_tier ''researcher'' = Some \<lparr>max_outstanding_loans = 20, loan_duration_days = 30\<rparr>"
  by (simp_all add: for_membership_tier_def policy_terms_def str_eval)

fun tier_max :: "membership_tier \<Rightarrow> int" where
  "tier_max REGULAR = 5"
| "tier_max PREMIUM = 10"
| "tier_max RESEARCHER = 20"

lemma tier_limit_entity: "tier_limit (patron_from_entity p) = Some (tier_max (membership_tier p))"
  by (cases "membership_tier p") (simp_all add: tier_limit_def patron_from_entity_def tier_terms)

lemma tier_max_mono: "progression t \<le> progression t' \<Longrightarrow> tier_max t \<le> tier_max t'"
  by (cases t; cases t') simp_all

lemma tier_max_nonneg: "0 \<le> tier_max t"
  by (cases t) simp_all

section \<open>Steps that take no fence\<close>

lemma calm_undisturbed: "calm d d' \<Longrightarrow> undisturbed d d' p"
  by (auto simp: calm_def undisturbed_def)

lemma no_loans_count: "p \<notin> lr_patron_id ` set (loans d) \<Longrightarrow> count_outstanding d p = 0"
  by (auto simp: count_outstanding_def filter_empty_conv)

lemma calm_policy:
  assumes "calm d d'" and "policy_holds d" and "db_ok d'"
  shows "policy_holds d'"
proof -
  from assms(1) obtain ps where ps: "patrons d' = patrons d @ ps" "\<forall>r\<in>set ps. patron_row_ok r"
    and fewer: "\<And>p. count_outstanding d' p \<le> count_outstanding d p"
    and owners: "lr_patron_id ` set (loans d') \<subseteq> lr_patron_id ` set (loans d)" by (auto simp: calm_def)
  have "\<exists>m. tier_limit r = Some m \<and> count_outstanding d' (pr_id r) \<le> m" if "r \<in> set (patrons d')" for r
  proof (cases "r \<in> set (patrons d)")
    case True
    with assms(2) fewer show ?thesis by (meson policy_holds_def order_trans)
  next
    case False
    with that ps(1) have r: "r \<in> set ps" by simp
    from patrons_key [OF assms(3)] r have "pr_id r \<notin> pr_id ` set (patrons d)" unfolding ps(1) by auto
    with assms(2) owners have "pr_id r \<notin> lr_patron_id ` set (loans d')" unfolding policy_holds_def by blast
    then have "count_outstanding d' (pr_id r) = 0" by (rule no_loans_count)
    moreover from r ps(2) obtain p where "r = patron_from_entity p" by (auto simp: patron_row_ok_def)
    ultimately show ?thesis using tier_limit_entity tier_max_nonneg by simp
  qed
  moreover have "lr_patron_id ` set (loans d') \<subseteq> pr_id ` set (patrons d')"
    using assms(2) owners unfolding policy_holds_def ps(1) by auto blast
  ultimately show ?thesis using assms(2) ps by (auto simp: policy_holds_def)
qed

section \<open>A change of a patron\<close>

fun side_insert :: "insert \<Rightarrow> bool" where
  "side_insert (InsLoan r) = False"
| "side_insert (InsPatron r) = False"
| "side_insert _ = True"

lemma flush_side: "flush_all is d = Inr d' \<Longrightarrow> list_all side_insert is \<Longrightarrow> loans d' = loans d \<and> patrons d' = patrons d"
proof (induction "is" arbitrary: d)
  case (Cons i "is")
  then obtain d1 where "flush_insert i d = Inr d1" "flush_all is d1 = Inr d'" by (auto elim: rbindE)
  moreover from this(1) Cons.prems(2) have "loans d1 = loans d \<and> patrons d1 = patrons d" by (cases i) auto
  ultimately show ?case using Cons.IH [of d1] Cons.prems(2) by simp
qed simp

lemma side_staged [simp]: "list_all side_insert (stage_loan l)" "list_all side_insert (stage_patron p)"
    "list_all side_insert (receipt_for sc key h r)"
  by (auto simp: stage_loan_def stage_patron_def receipt_for_def list_all_iff split: option.splits)

lemma patron_wf_version [simp]: "patron_wf (p\<lparr>patron_version := n\<rparr>) = patron_wf p"
  by (simp add: patron_wf_def)

lemma stored_patron_read:
  assumes "patron_by_id v i = Inr (Some pt)" and "\<forall>r\<in>set (patrons v). pr_id r = i \<longrightarrow> r \<in> set (patrons d)"
    and "\<forall>r\<in>set (patrons d). patron_row_ok r"
  obtains r where "r \<in> set (patrons d)" "pr_id r = i" "patron_wf pt" "r = patron_from_entity pt" "pid pt = i"
proof -
  from assms(1) obtain r where f: "filter (\<lambda>r. pr_id r = i) (patrons v) = [r]" and e: "patron_to_entity r = Inr pt"
    by (auto simp: patron_by_id_def rbind_eq_Inr_iff ropt_some scalar_Inr)
  have "r \<in> set (filter (\<lambda>r. pr_id r = i) (patrons v))" unfolding f by simp
  then have "r \<in> set (patrons v)" "pr_id r = i" by simp_all
  with assms(2) have r: "r \<in> set (patrons d)" "pr_id r = i" by auto
  with assms(3) obtain p where p: "patron_wf p" "r = patron_from_entity p" by (auto simp: patron_row_ok_def)
  with patron_roundtrip [OF p(1)] e have "pt = p\<lparr>patron_events := []\<rparr>" by simp
  with p r that show ?thesis by (simp add: patron_from_entity_def)
qed

lemma patron_step_methods: "patron_step (Suspend a why) = suspend a why" "patron_step (Reinstate a) = reinstate a"
    "patron_step (UpgradeTier t) = upgrade_tier t"
  by (simp_all add: fun_eq_iff)

lemma run_policy_handlers: "run_policy (Suspension e cs) = suspend_patron e cs" "run_policy (Reinstatement e cr) = reinstate_patron e cr"
    "run_policy (TierUpgrade e cu) = upgrade_patron_tier e cu"
  by (simp_all add: fun_eq_iff)

lemma run_policy_plan:
  assumes "run_policy p v = Inr (q, r)"
  obtains sc key h c where "change_patron sc (policy_patron p) key h (patron_step c) v = Inr (q, r)"
proof (cases p)
  case (Suspension e c)
  with assms show ?thesis
    by (auto simp: suspend_patron_def Let_def elim!: rbindE intro: that [of _ _ _ "Suspend (ambients e 0) (squash (sp_reason c))", unfolded patron_step_methods])
next
  case (Reinstatement e c)
  with assms show ?thesis
    by (auto simp: reinstate_patron_def Let_def elim!: rbindE intro: that [of _ _ _ "Reinstate (ambients e 0)", unfolded patron_step_methods])
next
  case (TierUpgrade e c)
  with assms show ?thesis
    by (auto simp: upgrade_patron_tier_def Let_def elim!: rbindE intro: that [of _ _ _ "UpgradeTier t" for t, unfolded patron_step_methods])
qed

lemma raised_policy:
  assumes "policy_holds d" and "loans d' = loans d" and "patron_from_entity pt \<in> set (patrons d)"
    and "patron_wf p'" "pid p' = pid pt" "tier_max (membership_tier pt) \<le> tier_max (membership_tier p')"
    and "set (patrons d') = insert (patron_from_entity p') (set (patrons d) - {patron_from_entity pt})"
  shows "policy_holds d'"
proof -
  have same: "count_outstanding d' q = count_outstanding d q" for q using assms(2) by (simp add: count_outstanding_def)
  have key: "pr_id (patron_from_entity p) = pid p" for p by (simp add: patron_from_entity_def)
  from assms(1,3) have "count_outstanding d (pid pt) \<le> tier_max (membership_tier pt)"
    by (auto simp: policy_holds_def tier_limit_entity key)
  with assms(5,6) have new: "count_outstanding d (pr_id (patron_from_entity p')) \<le> tier_max (membership_tier p')" by (simp add: key)
  have "pr_id ` set (patrons d) \<subseteq> pr_id ` set (patrons d')" unfolding assms(7) using assms(5) by (auto simp: key)
  with assms(1,2) have "lr_patron_id ` set (loans d') \<subseteq> pr_id ` set (patrons d')" unfolding policy_holds_def by simp blast
  moreover have "patron_row_ok (patron_from_entity p')" using assms(4) by (auto simp: patron_row_ok_def)
  ultimately show ?thesis using assms(1,7) new by (auto simp: policy_holds_def same tier_limit_entity)
qed

lemma policy_change_effect:
  assumes run: "run_tx u (run_policy p) v d = Inr (d', r)" and ok: "db_ok d" and pol: "policy_holds d"
    and kept: "\<forall>x\<in>set (patrons v). pr_id x = policy_patron p \<longrightarrow> x \<in> set (patrons d)"
  shows "policy_holds d' \<and> loans d' = loans d \<and> (\<forall>q. q \<noteq> policy_patron p \<longrightarrow> undisturbed d d' q)"
proof -
  from run obtain pl where body: "run_policy p v = Inr (pl, r)" and com: "commit u pl d = Inr d'" by (auto simp: run_tx_Inr)
  obtain sc key h c where "change_patron sc (policy_patron p) key h (patron_step c) v = Inr (pl, r)" using body by (rule run_policy_plan)
  then show ?thesis
  proof (rule change_patron_plan)
    assume "pl = ([], [])"
    with com have "d' = d" by (blast dest: commit_none)
    with pol show ?thesis by (simp add: undisturbed_refl)
  next
    fix pt p'
    assume read: "patron_by_id v (policy_patron p) = Inr (Some pt)" and st: "patron_step c pt = Inr p'"
      and pl: "pl = ([UpdatePatron (pid p') (patron_version p') (patron_from_entity p')], receipt_for sc key h r @ stage_patron p')"
    have rows: "\<forall>r\<in>set (patrons d). patron_row_ok r" using pol by (simp add: policy_holds_def)
    obtain x where x: "x \<in> set (patrons d)" "pr_id x = policy_patron p" "patron_wf pt" "x = patron_from_entity pt" "pid pt = policy_patron p"
      using read kept rows by (rule stored_patron_read)
    have wf: "patron_wf p'" using x(3) st by (rule patron_step_wf)
    have ident: "pid p' = pid pt" "registered_at p' = registered_at pt" using patron_step_ident [OF st] by simp_all
    let ?p = "p'\<lparr>patron_version := patron_version p' + 1\<rparr>"
    from com pl obtain d1 where u: "update_patron (pid p') (patron_version p') (patron_from_entity p') d = Inr d1"
      and f: "flush_all (receipt_for sc key h r @ stage_patron p') d1 = Inr d'" by (auto elim!: commit_plan rbindE)
    from u obtain rows' n where d1: "d1 = d\<lparr>patrons := rows'\<rparr>" "n \<noteq> 0" and w: "update_where patron_schema (\<lambda>r. pr_id r = pid p' \<and> pr_version r = patron_version p')
             (\<lambda>r. r\<lparr>pr_first_name := pr_first_name (patron_from_entity p'), pr_last_name := pr_last_name (patron_from_entity p'),
                    pr_email := pr_email (patron_from_entity p'), pr_membership_tier := pr_membership_tier (patron_from_entity p'),
                    pr_is_suspended := pr_is_suspended (patron_from_entity p'),
                    pr_suspended_reason := pr_suspended_reason (patron_from_entity p'), pr_version := patron_version p' + 1\<rparr>) (patrons d) = Inr (rows', n)"
      by (rule update_patron_Inr)
    from update_where_one [OF patrons_key [OF ok] w d1(2), of "pid p'"] obtain y where y: "y \<in> set (patrons d)" "pr_id y = pid p'"
      "set rows' = insert (y\<lparr>pr_first_name := pr_first_name (patron_from_entity p'), pr_last_name := pr_last_name (patron_from_entity p'),
                    pr_email := pr_email (patron_from_entity p'), pr_membership_tier := pr_membership_tier (patron_from_entity p'),
                    pr_is_suspended := pr_is_suspended (patron_from_entity p'),
                    pr_suspended_reason := pr_suspended_reason (patron_from_entity p'), pr_version := patron_version p' + 1\<rparr>) (set (patrons d) - {y})"
      by auto
    have "y = x" using distinct_map_eq [OF patrons_key [OF ok] y(1) x(1)] y(2) x(2,5) ident by simp
    with y(3) x(4) ident have rows': "set rows' = insert (patron_from_entity ?p) (set (patrons d) - {patron_from_entity pt})"
      by (simp add: patron_from_entity_def)
    have "list_all side_insert (receipt_for sc key h r @ stage_patron p')" by simp
    from flush_side [OF f this] d1 have after: "loans d' = loans d" "patrons d' = rows'" by simp_all
    have "policy_holds d'"
      by (rule raised_policy [OF pol after(1), of pt ?p])
        (use x wf ident rows' after patron_step_tier [OF st] in \<open>simp_all add: tier_max_mono\<close>)
    moreover have "undisturbed d d' q" if "q \<noteq> policy_patron p" for q
      using that x(2,4) after rows' by (auto simp: undisturbed_def count_outstanding_def)
    ultimately show ?thesis using after by blast
  qed
qed

section \<open>The creation of a loan\<close>

lemma admitted_loan:
  assumes "admit e c rid w = Inr (p, r)" and "p \<noteq> ([], [])"
  obtains x m l where "x \<in> set (patrons (directory_in w))" "pr_id x = cl_patron_id c" "py_strip (cl_patron_id c) = cl_patron_id c"
    "pr_email x = cl_patron_email c" "\<not> pr_is_suspended x" "tier_limit x = Some m"
    "count_outstanding (counted_in w) (cl_patron_id c) < m"
    "loan_patron_id l = py_strip (cl_patron_id c)" "email_address (cl_patron_email c) = Inr (loan_patron_email l)"
    "p = ([], InsLoan (loan_from_entity l) # stage_loan l)"
proof -
  from assms obtain bp terms l where d: "directory_get_by_id (directory_in w) (cl_patron_id c) = Inr (Some bp)"
      "bp_patron_id bp = cl_patron_id c" "bp_email bp = cl_patron_email c" "bp_is_eligible bp"
    and t: "for_membership_tier (bp_membership_tier bp) = Some terms"
      "count_outstanding (counted_in w) (cl_patron_id c) < max_outstanding_loans terms"
    and l: "loan_create (ambients e 0) (new_id e) (cl_patron_id c) (cl_patron_email c) (cl_catalog_book_id c) (cl_book_title c)
        (loan_duration_days terms) (cl_borrowed_at c) rid (cl_reservation_generation c) = Inr l"
      "p = ([], InsLoan (loan_from_entity l) # stage_loan l)"
    unfolding admit_def Let_def
    by (auto simp: not_le split: option.splits if_splits list.splits elim!: rbindE; blast)
  from d(1) obtain x where x: "filter (\<lambda>r. pr_id r = py_strip (cl_patron_id c)) (patrons (directory_in w)) = [x]" "bp = translate_patron x"
    by (auto simp: directory_get_by_id_def scalar_Inr eq_commute [of "Some _"])
  have "x \<in> set (filter (\<lambda>r. pr_id r = py_strip (cl_patron_id c)) (patrons (directory_in w)))" unfolding x(1) by simp
  then have "x \<in> set (patrons (directory_in w))" "pr_id x = py_strip (cl_patron_id c)" by simp_all
  moreover from l(1) obtain a l0 ev where "loan_post_init a = Inr l0" "arg_patron_email a = cl_patron_email c"
      "l = l0\<lparr>loan_events := loan_events l0 @ [ev]\<rparr>"
    unfolding loan_create_def by (auto simp: add_loan_event_Inr split: if_splits elim!: rbindE)
  with loan_post_init_Inr(9) have "email_address (cl_patron_email c) = Inr (loan_patron_email l)" by fastforce
  moreover have "loan_patron_id l = py_strip (cl_patron_id c)" using loan_create_Inr [OF l(1)] by simp
  ultimately show ?thesis
    using d(2-4) t l(2) x(2) by (intro that [of x "max_outstanding_loans terms" l]) (auto simp: translate_patron_def tier_limit_def)
qed

lemma create_loan_effect:
  assumes "create_loan e c early w d d = Inr (d', r)"
  obtains "d' = d"
  | x m l where "x \<in> set (patrons (directory_in w))" "pr_id x = cl_patron_id c" "pr_email x = cl_patron_email c"
      "\<not> pr_is_suspended x" "tier_limit x = Some m" "count_outstanding (counted_in w) (cl_patron_id c) < m"
      "loan_patron_id l = cl_patron_id c" "email_address (cl_patron_email c) = Inr (loan_patron_email l)"
      "loans d' = loans d @ [loan_from_entity l]" "patrons d' = patrons d"
proof -
  from assms obtain rid where rid: "lending_reservation_id (cl_reservation_id c) = Inr rid"
    unfolding create_loan_def by (auto elim: rbindE)
  show ?thesis
  proof (cases "run_tx LendingUow (create_or_replay e c rid early) w d")
    case (Inl x)
    with assms rid show ?thesis by (intro that(1)) (auto simp: create_loan_def split: if_splits elim!: rbindE)
  next
    case (Inr y)
    with assms rid have "y = (d', r)" by (simp add: create_loan_def)
    with Inr obtain p where body: "create_or_replay e c rid early w = Inr (p, r)" and com: "commit LendingUow p d = Inr d'"
      by (auto simp: run_tx_Inr)
    show ?thesis
    proof (cases "p = ([], [])")
      case True
      with com have "d' = d" by (blast dest: commit_none)
      then show ?thesis by (rule that(1))
    next
      case False
      with body have "admit e c rid w = Inr (p, r)"
        unfolding create_or_replay_def by (auto split: option.splits elim!: rbindE)
      then show ?thesis using False
      proof (rule admitted_loan)
        fix x m l
        assume a: "x \<in> set (patrons (directory_in w))" "pr_id x = cl_patron_id c" "py_strip (cl_patron_id c) = cl_patron_id c"
          "pr_email x = cl_patron_email c" "\<not> pr_is_suspended x" "tier_limit x = Some m"
          "count_outstanding (counted_in w) (cl_patron_id c) < m"
          "loan_patron_id l = py_strip (cl_patron_id c)" "email_address (cl_patron_email c) = Inr (loan_patron_email l)"
          "p = ([], InsLoan (loan_from_entity l) # stage_loan l)"
        from com a(10) obtain d1 where "flush_insert (InsLoan (loan_from_entity l)) d = Inr d1" "flush_all (stage_loan l) d1 = Inr d'"
          by (auto simp: commit_Inr elim!: rbindE)
        then have "loans d' = loans d @ [loan_from_entity l]" "patrons d' = patrons d"
          using flush_side [of "stage_loan l" d1 d'] by (auto simp: insert_row_Inr)
        with a show ?thesis by (intro that(2) [of x m l]) simp_all
      qed
    qed
  qed
qed

lemma count_added:
  "loans d' = loans d @ [l] \<Longrightarrow> count_outstanding d' p = count_outstanding d p + (if lr_patron_id l = p \<and> outstanding l then 1 else 0)"
  by (simp add: count_outstanding_def)

lemma added_loan_policy:
  assumes pol: "policy_holds d" and ok: "db_ok d" and l: "loans d' = loans d @ [l]" "patrons d' = patrons d"
    and x: "x \<in> set (patrons d)" "pr_id x = lr_patron_id l" "tier_limit x = Some m" "count_outstanding d (lr_patron_id l) < m"
  shows "policy_holds d'"
proof -
  have "\<exists>m. tier_limit r = Some m \<and> count_outstanding d' (pr_id r) \<le> m" if r: "r \<in> set (patrons d)" for r
  proof (cases "pr_id r = lr_patron_id l")
    case True
    then have "r = x" using distinct_map_eq [OF patrons_key [OF ok] r x(1)] x(2) by simp
    with x show ?thesis by (simp add: count_added [OF l(1)])
  next
    case False
    with pol r show ?thesis by (auto simp: policy_holds_def count_added [OF l(1)])
  qed
  moreover have "lr_patron_id l \<in> pr_id ` set (patrons d)" using x(1,2) by force
  ultimately show ?thesis using pol l by (simp add: policy_holds_def)
qed

section \<open>What the sessions know\<close>

fun fenced_patron :: "session \<Rightarrow> string option" where
  "fenced_patron (Considering cev e c early vs) = Some (cl_patron_id c)"
| "fenced_patron (Changing p early v) = Some (policy_patron p)"
| "fenced_patron _ = None"

fun session_reads :: "session \<Rightarrow> db set" where
  "session_reads Idle = {}"
| "session_reads (Asking cev e c early) = {early}"
| "session_reads (Considering cev e c early vs) = insert early (set vs)"
| "session_reads (ChangeAsked p early) = {early}"
| "session_reads (Changing p early v) = insert early (set_option v)"

fun requested :: "session \<Rightarrow> db \<Rightarrow> bool" where
  "requested (Asking cev e c early) d \<longleftrightarrow> CatalogEvent cev \<in> events d \<and> create_loan_command_of cev = Some c"
| "requested (Considering cev e c early vs) d \<longleftrightarrow> CatalogEvent cev \<in> events d \<and> create_loan_command_of cev = Some c"
| "requested _ d \<longleftrightarrow> True"

text \<open>What a session has read of its patron behind the fence.\<close>

fun still_true :: "session \<Rightarrow> db \<Rightarrow> bool" where
  "still_true (Considering cev e c early vs) d \<longleftrightarrow>
     (vs \<noteq> [] \<longrightarrow> count_outstanding d (cl_patron_id c) \<le> count_outstanding (vs ! 0) (cl_patron_id c))
     \<and> (2 < length vs \<longrightarrow> (\<forall>r\<in>set (patrons (vs ! 2)). pr_id r = cl_patron_id c \<longrightarrow> r \<in> set (patrons d)))"
| "still_true (Changing p early v) d \<longleftrightarrow>
     (\<forall>v'. v = Some v' \<longrightarrow> (\<forall>r\<in>set (patrons v'). pr_id r = policy_patron p \<longrightarrow> r \<in> set (patrons d)))"
| "still_true _ d \<longleftrightarrow> True"

definition session_ok :: "(string \<Rightarrow> int) \<Rightarrow> saga \<Rightarrow> locks \<Rightarrow> nat \<Rightarrow> session \<Rightarrow> bool" where
  "session_ok hash g ls i x \<longleftrightarrow> session_reads x \<subseteq> views g \<and> requested x (now g) \<and> still_true x (now g)
     \<and> (\<forall>p. fenced_patron x = Some p \<longrightarrow> ls (hash p) = Some i)"

definition fence_inv :: "(string \<Rightarrow> int) \<Rightarrow> fence_state \<Rightarrow> bool" where
  "fence_inv hash s \<longleftrightarrow> saga_ok (workflow s) \<and> policy_holds (committed s)
     \<and> (\<forall>i. session_ok hash (workflow s) (locks s) i (sessions s i))"

lemma still_true_moved:
  assumes "still_true x d" and "\<And>p. fenced_patron x = Some p \<Longrightarrow> undisturbed d d' p"
  shows "still_true x d'"
proof (cases x)
  case (Considering cev e c early vs)
  with assms(2) have "undisturbed d d' (cl_patron_id c)" by simp
  with assms(1) show ?thesis unfolding Considering undisturbed_def still_true.simps by (meson order_trans)
next
  case (Changing p early v)
  with assms(2) have "undisturbed d d' (policy_patron p)" by simp
  with assms(1) show ?thesis unfolding Changing undisturbed_def still_true.simps by blast
qed simp_all

lemma requested_moved: "requested x d \<Longrightarrow> events d \<subseteq> events d' \<Longrightarrow> requested x d'"
  by (cases x) auto

lemma session_ok_moved:
  assumes "session_ok hash g ls i x" and "views g \<subseteq> views g'" and "events (now g) \<subseteq> events (now g')"
    and "\<And>p. fenced_patron x = Some p \<Longrightarrow> undisturbed (now g) (now g') p"
    and "\<And>k. ls k = Some i \<Longrightarrow> ls' k = Some i"
  shows "session_ok hash g' ls' i x"
proof -
  note ok = assms(1) [unfolded session_ok_def]
  have "still_true x (now g')" by (rule still_true_moved [OF _ assms(4)]) (use ok in simp_all)
  moreover have "requested x (now g')" using ok assms(3) by (blast intro: requested_moved)
  ultimately show ?thesis using ok assms(2,5) by (auto simp: session_ok_def)
qed

text \<open>A step of session \<open>i\<close>: the others know what they knew when no other patron is disturbed.\<close>

lemma fence_inv_move:
  assumes inv: "fence_inv hash s" and ok: "saga_ok g" "policy_holds (now g)"
    and grow: "views (workflow s) \<subseteq> views g" "events (committed s) \<subseteq> events (now g)"
    and others: "\<And>j p. j \<noteq> i \<Longrightarrow> fenced_patron (sessions s j) = Some p \<Longrightarrow> undisturbed (committed s) (now g) p"
    and held: "\<And>j k. j \<noteq> i \<Longrightarrow> locks s k = Some j \<Longrightarrow> ls k = Some j"
    and me: "session_ok hash g ls i x"
  shows "fence_inv hash \<lparr>workflow = g, locks = ls, sessions = (sessions s)(i := x)\<rparr>"
proof -
  have "session_ok hash g ls j (sessions s j)" if j: "j \<noteq> i" for j
  proof (rule session_ok_moved [OF _ grow others [OF j] held [OF j]])
    show "session_ok hash (workflow s) (locks s) j (sessions s j)" using inv by (simp add: fence_inv_def)
  qed
  with ok me show ?thesis by (simp add: fence_inv_def)
qed

lemma acquired_held: "acquire_borrowing_fence hash i p ls = Some ls' \<Longrightarrow> ls k = Some j \<Longrightarrow> ls' k = Some j"
  by (auto simp: acquire_borrowing_fence_def split: option.splits if_splits)

lemma acquired: "acquire_borrowing_fence hash i p ls = Some ls' \<Longrightarrow> ls' (hash p) = Some i"
  by (auto simp: acquire_borrowing_fence_def split: option.splits if_splits)

lemma released_held: "j \<noteq> i \<Longrightarrow> ls k = Some j \<Longrightarrow> release_locks i ls k = Some j"
  by (simp add: release_locks_def)

lemma fenced_apart:
  assumes "fence_inv hash s" and "fenced_patron (sessions s i) = Some p" "fenced_patron (sessions s j) = Some q" "j \<noteq> i"
  shows "q \<noteq> p"
  using assms unfolding fence_inv_def session_ok_def by (metis option.inject)

section \<open>The invariant\<close>

text \<open>A session's own move, with nothing committed; and the end of its transaction.\<close>

lemma fence_inv_enter:
  assumes "fence_inv hash s" and "session_ok hash (workflow s) ls i x" and "\<And>j k. j \<noteq> i \<Longrightarrow> locks s k = Some j \<Longrightarrow> ls k = Some j"
  shows "fence_inv hash (enter i x (s\<lparr>locks := ls\<rparr>))"
proof -
  have "fence_inv hash \<lparr>workflow = workflow s, locks = ls, sessions = (sessions s)(i := x)\<rparr>"
    by (rule fence_inv_move [OF assms(1) _ _ _ _ _ assms(3,2)]) (use assms(1) undisturbed_refl in \<open>auto simp: fence_inv_def\<close>)
  then show ?thesis by (simp add: enter_def fence_inv_def)
qed

lemma fence_inv_leave:
  assumes "fence_inv hash s" and "saga_ok g" "policy_holds (now g)"
    and "views (workflow s) \<subseteq> views g" "events (committed s) \<subseteq> events (now g)"
    and "\<And>j q. j \<noteq> i \<Longrightarrow> fenced_patron (sessions s j) = Some q \<Longrightarrow> undisturbed (committed s) (now g) q"
  shows "fence_inv hash (leave i g s)"
proof -
  have "session_ok hash g (release_locks i (locks s)) i Idle" by (simp add: session_ok_def)
  have "fence_inv hash \<lparr>workflow = g, locks = release_locks i (locks s), sessions = (sessions s)(i := Idle)\<rparr>"
    by (rule fence_inv_move [OF assms released_held \<open>session_ok hash g (release_locks i (locks s)) i Idle\<close>])
  then show ?thesis by (simp add: leave_def fence_inv_def)
qed

lemma advance_grows: "views g \<subseteq> views (advance g d)" "d \<in> views (advance g d)"
  by (auto simp: views_def advance_def)

lemma admission_reads:
  assumes "admission vs = Some w"
  shows "counted_in w = vs ! 0" "directory_in w = vs ! 2" "length vs = 4" "set vs \<subseteq> V \<Longrightarrow> reads_from V w"
  using assms by (cases vs rule: admission.cases; simp; auto simp: reads_from_def)+

text \<open>Every step of the sessions is one of the workflow, or commits nothing.\<close>

lemma fence_step_saga:
  assumes inv: "fence_inv hash s" and st: "fence_step hash s s'"
  shows "workflow s' = workflow s \<or> saga_step (workflow s) (workflow s')"
proof -
  have sess: "session_reads (sessions s i) \<subseteq> views (workflow s)" "requested (sessions s i) (committed s)" for i
    using inv by (auto simp: fence_inv_def session_ok_def)
  from st show ?thesis
  proof cases
    case (unfenced g)
    then show ?thesis by (simp add: saga_step.unfenced)
  next
    case (admit i cev e c early vs w d r)
    with sess [of i] admission_reads(4) [OF admit(3)] show ?thesis
      by (auto simp: leave_def intro: saga_step.create)
  next
    case (reject i cev e c early vs w x why)
    with sess [of i] admission_reads(4) [OF reject(3)] show ?thesis
      by (auto simp: leave_def intro: saga_step.reject)
  next
    case (change i p early v d r)
    with sess [of i] show ?thesis
      by (cases p) (auto simp: leave_def run_policy_handlers simp del: run_policy.simps intro: saga_step.suspend saga_step.reinstate saga_step.upgrade)
  qed (simp_all add: enter_def leave_def)
qed

lemma events_grow:
  assumes "saga_ok g'" and "views g \<subseteq> views g'"
  shows "events (now g) \<subseteq> events (now g')"
proof -
  have "now g \<in> views g'" using assms(2) by (auto simp: views_def)
  with saga_ok_view [OF assms(1)] show ?thesis by (simp add: older_def)
qed

text \<open>The two transactions that commit behind the fence.\<close>

lemma admit_keeps:
  assumes inv: "fence_inv hash s" and me: "sessions s i = Considering cev e c early vs" and w: "admission vs = Some w"
    and run: "create_loan e c early w (committed s) (committed s) = Inr (d, r)"
  shows "policy_holds d \<and> (\<forall>q. q \<noteq> cl_patron_id c \<longrightarrow> undisturbed (committed s) d q)
    \<and> (\<forall>l\<in>set (loans d). lr_id l \<notin> lr_id ` set (loans (committed s)) \<longrightarrow> entitled (committed s) l)"
proof -
  have pol: "policy_holds (committed s)" and ok: "db_ok (committed s)"
    and "still_true (sessions s i) (committed s)"
    using inv by (auto simp: fence_inv_def saga_ok_def good_def session_ok_def)
  with me w have count: "count_outstanding (committed s) (cl_patron_id c) \<le> count_outstanding (counted_in w) (cl_patron_id c)"
    and row: "\<forall>x\<in>set (patrons (directory_in w)). pr_id x = cl_patron_id c \<longrightarrow> x \<in> set (patrons (committed s))"
    using admission_reads(1-3) [OF w] by auto
  from run show ?thesis
  proof (rule create_loan_effect)
    assume "d = committed s"
    with pol show ?thesis by (simp add: undisturbed_refl)
  next
    fix x m l
    assume x: "x \<in> set (patrons (directory_in w))" "pr_id x = cl_patron_id c" "pr_email x = cl_patron_email c"
      "\<not> pr_is_suspended x" "tier_limit x = Some m" "count_outstanding (counted_in w) (cl_patron_id c) < m"
      and l: "loan_patron_id l = cl_patron_id c" "email_address (cl_patron_email c) = Inr (loan_patron_email l)"
      and d: "loans d = loans (committed s) @ [loan_from_entity l]" "patrons d = patrons (committed s)"
    have key: "lr_patron_id (loan_from_entity l) = cl_patron_id c" "lr_patron_email (loan_from_entity l) = loan_patron_email l"
      using l(1) by (simp_all add: loan_from_entity_def)
    have stored: "x \<in> set (patrons (committed s))" using row x(1,2) by blast
    with pol obtain pt where "patron_wf pt" "x = patron_from_entity pt" by (auto simp: policy_holds_def patron_row_ok_def)
    with l(2) x(3) have mail: "pr_email x = loan_patron_email l" by (auto simp: patron_wf_def patron_from_entity_def)
    have "policy_holds d"
      by (rule added_loan_policy [OF pol ok d stored, of m]) (use x(2,5,6) count key(1) in simp_all)
    moreover have "undisturbed (committed s) d q" if "q \<noteq> cl_patron_id c" for q
      using that key(1) by (simp add: undisturbed_def count_added [OF d(1)] d(2))
    moreover have "entitled (committed s) (loan_from_entity l)" using stored x(2,4) mail key by (auto simp: entitled_def)
    ultimately show ?thesis using d(1) by auto
  qed
qed

lemma change_keeps:
  assumes inv: "fence_inv hash s" and me: "sessions s i = Changing p early (Some v)"
    and run: "run_tx PatronUow (run_policy p) (v\<lparr>receipts := receipts early\<rparr>) (committed s) = Inr (d, r)"
  shows "policy_holds d \<and> loans d = loans (committed s) \<and> (\<forall>q. q \<noteq> policy_patron p \<longrightarrow> undisturbed (committed s) d q)"
proof (rule policy_change_effect [OF run])
  have "still_true (sessions s i) (committed s)" using inv by (simp add: fence_inv_def session_ok_def)
  with me show "\<forall>x\<in>set (patrons (v\<lparr>receipts := receipts early\<rparr>)). pr_id x = policy_patron p \<longrightarrow> x \<in> set (patrons (committed s))" by simp
qed (use inv in \<open>simp_all add: fence_inv_def saga_ok_def good_def\<close>)

text \<open>The reads behind the fence.\<close>

lemma read_next_ok:
  assumes "session_ok hash g ls i (Considering cev e c early vs)"
  shows "session_ok hash g ls i (Considering cev e c early (vs @ [now g]))"
  using assms by (auto simp: session_ok_def views_def nth_append)

lemma fence_step_inv:
  assumes inv: "fence_inv hash s" and st: "fence_step hash s s'"
  shows "fence_inv hash s'"
proof -
  have g: "saga_ok (workflow s)" "db_ok (committed s)" and pol: "policy_holds (committed s)"
    and me: "session_ok hash (workflow s) (locks s) i (sessions s i)" for i
    using inv by (auto simp: fence_inv_def saga_ok_def good_def)
  have g': "saga_ok (workflow s')" using fence_step_saga [OF inv st] g(1) saga_step_ok by auto
  have v: "committed s \<in> views (workflow s)" by (simp add: views_def)
  note kept = fence_inv_enter [OF inv, where ls = "locks s"]
  note quiet = fence_inv_leave [OF inv g(1) pol]
  from st show ?thesis
  proof cases
    case (unfenced g1)
    have calm: "calm (committed s) (now g1)" by (rule unfenced_calm [OF g(1) unfenced(2)])
    have ok: "saga_ok g1" using g' unfenced(1) by simp
    have more: "views (workflow s) \<subseteq> views g1"
      using unfenced(2) by cases (simp_all add: advance_grows, simp add: views_def)
    note grow = more events_grow [OF ok more]
    have "session_ok hash g1 (locks s) i (sessions s i)" for i
      by (rule session_ok_moved [OF me grow calm_undisturbed [OF calm]])
    moreover have "policy_holds (now g1)" using calm pol ok by (auto simp: saga_ok_def good_def intro: calm_policy)
    ultimately show ?thesis using ok unfenced(1) by (simp add: fence_inv_def)
  next
    case (ask i cev c e)
    with kept [of i "Asking cev e c (committed s)"] v show ?thesis by (simp add: session_ok_def)
  next
    case (fence i cev e c early rid ls)
    have "session_ok hash (workflow s) ls i (Considering cev e c early [])"
      using me [of i] fence(2) acquired [OF fence(5)] by (simp add: session_ok_def)
    from fence_inv_enter [OF inv this acquired_held [OF fence(5)]] show ?thesis unfolding fence(1) .
  next
    case (read_next i cev e c early vs)
    from me [of i] read_next(2) have "session_ok hash (workflow s) (locks s) i (Considering cev e c early (vs @ [committed s]))"
      by (simp add: read_next_ok)
    from kept [OF this] show ?thesis using read_next(1) by simp
  next
    case (admit i cev e c early vs w d r)
    note k = admit_keeps [OF inv admit(2-4)]
    have ok: "saga_ok (advance (workflow s) d)" using g' admit(1) by (simp add: leave_def)
    have apart: "q \<noteq> cl_patron_id c" if "j \<noteq> i" "fenced_patron (sessions s j) = Some q" for j q
      using fenced_apart [OF inv _ that(2,1)] admit(2) by simp
    show ?thesis unfolding admit(1)
      by (rule fence_inv_leave [OF inv ok _ advance_grows(1) events_grow [OF ok advance_grows(1)]])
        (use k apart in \<open>simp_all add: advance_def\<close>)
  next
    case (reject i cev e c early vs w x why)
    let ?g = "workflow s\<lparr>rejected := insert (cev, why) (rejected (workflow s))\<rparr>"
    have "saga_ok ?g" using g(1) by (simp add: saga_ok_def)
    then show ?thesis unfolding reject(1)
      by (rule fence_inv_leave [OF inv]) (use pol undisturbed_refl in \<open>auto simp: views_def\<close>)
  next
    case (ask_change i p)
    with kept [of i "ChangeAsked p (committed s)"] v show ?thesis by (simp add: session_ok_def)
  next
    case (fence_change i p early ls)
    have "session_ok hash (workflow s) ls i (Changing p early None)"
      using me [of i] fence_change(2) acquired [OF fence_change(3)] by (simp add: session_ok_def)
    from fence_inv_enter [OF inv this acquired_held [OF fence_change(3)]] show ?thesis unfolding fence_change(1) .
  next
    case (read_patron i p early)
    have "session_ok hash (workflow s) (locks s) i (Changing p early (Some (committed s)))"
      using me [of i] read_patron(2) v by (simp add: session_ok_def)
    from kept [OF this] show ?thesis using read_patron(1) by simp
  next
    case (change i p early v d r)
    note k = change_keeps [OF inv change(2,3)]
    have ok: "saga_ok (advance (workflow s) d)" using g' change(1) by (simp add: leave_def)
    have apart: "q \<noteq> policy_patron p" if "j \<noteq> i" "fenced_patron (sessions s j) = Some q" for j q
      using fenced_apart [OF inv _ that(2,1)] change(2) by simp
    show ?thesis unfolding change(1)
      by (rule fence_inv_leave [OF inv ok _ advance_grows(1) events_grow [OF ok advance_grows(1)]])
        (use k apart in \<open>simp_all add: advance_def\<close>)
  next
    case (abandon i)
    then show ?thesis using quiet [of i] undisturbed_refl by simp
  qed
qed

lemma fence_start_inv: "fence_inv hash (fence_start t)"
  using saga_ok_start [of t] by (simp add: fence_inv_def fence_start_def policy_holds_def session_ok_def) (simp add: start_def)

lemma fence_reachable: "(fence_step hash)\<^sup>*\<^sup>* (fence_start t) s \<Longrightarrow> fence_inv hash s"
  by (induction rule: rtranclp_induct) (auto intro: fence_start_inv fence_step_inv)

lemma new_loans_entitled:
  assumes inv: "fence_inv hash s" and st: "fence_step hash s s'"
    and l: "l \<in> set (loans (committed s'))" "lr_id l \<notin> lr_id ` set (loans (committed s))"
  shows "entitled (committed s) l"
  using st
proof cases
  case (unfenced g)
  from inv have "saga_ok (workflow s)" by (simp add: fence_inv_def)
  from unfenced_calm [OF this unfenced(2)] l unfenced(1) show ?thesis by (auto simp: calm_def)
next
  case (admit i cev e c early vs w d r)
  with admit_keeps [OF inv admit(2-4)] l show ?thesis by (simp add: leave_def advance_def)
next
  case (change i p early v d r)
  with change_keeps [OF inv change(2,3)] l show ?thesis by (simp add: leave_def advance_def)
qed (use l in \<open>simp_all add: enter_def leave_def\<close>)

section \<open>The policy\<close>

text \<open>
  C9: the borrowing limit holds in every run, with any number of sessions that create loans and change
  patrons at the same time, each query reading what is committed at its own moment. Every patron has a
  tier that Lending knows and no more outstanding loans than it allows; every loan belongs to a
  registered patron; and whenever a step adds a loan, its patron is registered, not suspended and has
  the address of the loan at the moment of the commit.
\<close>

theorem borrowing_limit_respected:
  assumes "(fence_step hash)\<^sup>*\<^sup>* (fence_start t) s"
  shows "(\<forall>x\<in>set (patrons (committed s)). \<exists>terms. for_membership_tier (pr_membership_tier x) = Some terms
      \<and> count_outstanding (committed s) (pr_id x) \<le> max_outstanding_loans terms)
    \<and> lr_patron_id ` set (loans (committed s)) \<subseteq> pr_id ` set (patrons (committed s))
    \<and> (\<forall>s' l. fence_step hash s s' \<longrightarrow> l \<in> set (loans (committed s')) \<longrightarrow> lr_id l \<notin> lr_id ` set (loans (committed s)) \<longrightarrow>
         (\<exists>x\<in>set (patrons (committed s)). pr_id x = lr_patron_id l \<and> \<not> pr_is_suspended x \<and> pr_email x = lr_patron_email l))"
proof -
  have inv: "fence_inv hash s" using assms by (rule fence_reachable)
  have "policy_holds (committed s)" using inv by (simp add: fence_inv_def)
  moreover have "entitled (committed s) l" if "fence_step hash s s'" "l \<in> set (loans (committed s'))"
      "lr_id l \<notin> lr_id ` set (loans (committed s))" for s' l
    using inv that by (rule new_loans_entitled)
  ultimately show ?thesis unfolding policy_holds_def tier_limit_def entitled_def by fastforce
qed

text \<open>A run of one session: it asks, takes the fence, reads four times and commits.\<close>

abbreviation one_lock :: "string \<Rightarrow> int" where "one_lock \<equiv> (\<lambda>p. 0)"

definition dune_event :: catalog_event where
  "dune_event = CatalogBookReserved ''book-1'' ''Dune'' sample_uuid 1 ''patron-1'' 10 sample_email"

definition considering :: "db list \<Rightarrow> fence_state" where
  "considering vs = \<lparr>workflow = sample_saga 3, locks = (\<lambda>k. None)(0 \<mapsto> 7),
     sessions = (\<lambda>i. Idle)(7 := Considering dune_event (env_for ''loan-1'' ''evt-3'') dune_loan_command run3 vs)\<rparr>"

lemma unfenced_run: "unfenced_step\<^sup>*\<^sup>* (workflow s) g \<Longrightarrow> (fence_step hash)\<^sup>*\<^sup>* s (s\<lparr>workflow := g\<rparr>)"
proof (induction rule: rtranclp_induct)
  case (step g g')
  from step.hyps(2) fence_step.unfenced [of "s\<lparr>workflow := g\<rparr>" g' hash]
  have "fence_step hash (s\<lparr>workflow := g\<rparr>) (s\<lparr>workflow := g'\<rparr>)" by simp
  with step.IH show ?case by (rule rtranclp.rtrancl_into_rtrancl)
qed simp

lemma sample_committed: "now (sample_saga 3) = run3" "run3 \<in> views (sample_saga 3)"
  by (simp_all add: sample_saga_def advance_def views_def numeral_eq_Suc)

lemma dune_not_lent: "lending_reservation_id (cl_reservation_id dune_loan_command) = Inr sample_uuid"
    "loan_by_reservation run3 sample_uuid = Inr None"
  by (simp_all add: dune_loan_command_def lending_reservation_id_def loan_by_reservation_def run3_def run2_def run1_def run0_def
      start_def scalar_one_or_none_def)

lemma considering_run: "(fence_step one_lock)\<^sup>*\<^sup>* (fence_start 0) (considering [run3, run3, run3, run3])"
proof -
  let ?s = "fence_start 0\<lparr>workflow := sample_saga 3\<rparr>" and ?e = "env_for ''loan-1'' ''evt-3''"
  have "(fence_step one_lock)\<^sup>*\<^sup>* (fence_start 0) ?s"
    by (rule unfenced_run) (use sample_saga_reachable(3) in \<open>simp add: fence_start_def\<close>)
  moreover have "fence_step one_lock ?s (enter 7 (Asking dune_event ?e dune_loan_command run3) ?s)"
    using fence_step.ask [of ?s 7 dune_event dune_loan_command one_lock ?e] run3_event
    by (simp add: sample_committed fence_start_def dune_event_def dune_loan_command_def)
  moreover have "fence_step one_lock (enter 7 (Asking dune_event ?e dune_loan_command run3) ?s) (considering [])"
    using fence_step.fence [of "enter 7 (Asking dune_event ?e dune_loan_command run3) ?s" 7 dune_event ?e dune_loan_command run3
        sample_uuid one_lock "(\<lambda>k. None)(0 \<mapsto> 7)"] dune_not_lent
    by (simp add: enter_def fence_start_def considering_def acquire_borrowing_fence_def)
  moreover have "fence_step one_lock (considering vs) (considering (vs @ [run3]))" if "length vs < 4" for vs
    using fence_step.read_next [of "considering vs" 7 dune_event ?e dune_loan_command run3 vs one_lock] that
    by (simp add: considering_def enter_def sample_committed)
  from this [of "[]"] this [of "[run3]"] this [of "[run3, run3]"] this [of "[run3, run3, run3]"]
  have "(fence_step one_lock)\<^sup>*\<^sup>* (considering []) (considering [run3, run3, run3, run3])"
    by (simp add: converse_rtranclp_into_rtranclp)
  ultimately show ?thesis by (meson rtranclp.rtrancl_into_rtrancl rtranclp_trans)
qed

theorem borrowing_limit_respected_witness:
  "\<exists>terms. for_membership_tier ''regular'' = Some terms \<and> count_outstanding run4 ''patron-1'' = 1 \<and> 1 \<le> max_outstanding_loans terms"
proof -
  let ?s = "considering [run3, run3, run3, run3]"
  obtain r where r: "create_loan (env_for ''loan-1'' ''evt-3'') dune_loan_command run3 (reads_at run3) run3 run3 = Inr (run4, r)"
    using run_create by blast
  then have "fence_step one_lock ?s (leave 7 (advance (sample_saga 3) run4) ?s)"
    using fence_step.admit [of ?s 7 dune_event "env_for ''loan-1'' ''evt-3''" dune_loan_command run3 "[run3, run3, run3, run3]"
      "reads_at run3" run4 r one_lock] by (simp add: considering_def sample_committed reads_at_def)
  with considering_run have "(fence_step one_lock)\<^sup>*\<^sup>* (fence_start 0) (leave 7 (advance (sample_saga 3) run4) ?s)"
    by (rule rtranclp.rtrancl_into_rtrancl)
  from borrowing_limit_respected [OF this] have "\<exists>terms. for_membership_tier ''regular'' = Some terms
      \<and> count_outstanding run4 ''patron-1'' \<le> max_outstanding_loans terms"
    by (simp add: leave_def advance_def) (simp add: run4_def run3_def run2_def patron_from_entity_def ann_def sample_patron_def)
  moreover have "count_outstanding run4 ''patron-1'' = 1"
    by (simp add: count_outstanding_def run4_def loan_from_entity_def dune_loan_def outstanding_def terminal_loan_statuses_def)
  ultimately show ?thesis by simp
qed

end
