(* ===== verification/CircuitBreaker.thy ===== *)
theory CircuitBreaker
  imports Complex_Main
begin

text \<open>
  \<open>CircuitBreaker\<close> (\<open>src/infrastructure/adapters/resilience/circuit_breaker.py\<close>), its registry,
  and the email service that is protected by it
  (\<open>src/infrastructure/adapters/email/sendgrid_email_service.py\<close>).

  The critical sections of \<open>execute\<close> (deciding whether a call may run, recording its outcome)
  are functions on the breaker's state; each reads the clocks once. Times, rates and
  thresholds are floats in the code and reals here. Concurrent calls are the relation
  \<open>breaker_step\<close> of the next theory: the calls in flight are part of the state, each with
  its probe flag, and may return, raise or be cancelled in any order.
\<close>

section \<open>State\<close>

datatype circuit_state = CLOSED | OPEN | HALF_OPEN

record breaker_metrics =
  total_requests :: nat
  successful_requests :: nat
  failed_requests :: nat
  rejected_requests :: nat
  m_last_failure_time :: "real option"
  m_last_success_time :: "real option"
  state_changes :: nat

record breaker_config =
  cb_name :: string
  failure_threshold :: int
  success_threshold :: int
  timeout :: real
  failure_rate_threshold :: real
  window_seconds :: real
  minimum_calls :: int
  half_open_max_calls :: int

record breaker =
  cb_state :: circuit_state
  failure_count :: int
  success_count :: int
  last_failure_time :: "real option"
  outcome_window :: "(real \<times> bool) list"
  half_open_in_flight :: int
  metrics :: breaker_metrics

text \<open>The readings \<open>time.time()\<close> and \<open>time.monotonic()\<close> of one critical section.\<close>

record clocks =
  wall :: real
  monotonic :: real

definition new_metrics :: breaker_metrics where
  "new_metrics = \<lparr>total_requests = 0, successful_requests = 0, failed_requests = 0, rejected_requests = 0,
     m_last_failure_time = None, m_last_success_time = None, state_changes = 0\<rparr>"

definition new_breaker :: breaker where
  "new_breaker = \<lparr>cb_state = CLOSED, failure_count = 0, success_count = 0, last_failure_time = None,
     outcome_window = [], half_open_in_flight = 0, metrics = new_metrics\<rparr>"

definition record_success :: "clocks \<Rightarrow> breaker_metrics \<Rightarrow> breaker_metrics" where
  "record_success now m = m\<lparr>total_requests := total_requests m + 1,
     successful_requests := successful_requests m + 1, m_last_success_time := Some (wall now)\<rparr>"

definition record_failure :: "clocks \<Rightarrow> breaker_metrics \<Rightarrow> breaker_metrics" where
  "record_failure now m = m\<lparr>total_requests := total_requests m + 1,
     failed_requests := failed_requests m + 1, m_last_failure_time := Some (wall now)\<rparr>"

definition record_rejection :: "breaker_metrics \<Rightarrow> breaker_metrics" where
  "record_rejection m = m\<lparr>total_requests := total_requests m + 1, rejected_requests := rejected_requests m + 1\<rparr>"

definition success_rate :: "breaker_metrics \<Rightarrow> real" where
  "success_rate m = (if 0 < total_requests m
     then real (successful_requests m) / real (total_requests m) else 0)"

section \<open>Recovery time\<close>

definition should_attempt_reset :: "breaker_config \<Rightarrow> clocks \<Rightarrow> breaker \<Rightarrow> bool" where
  "should_attempt_reset cfg now b =
     (case last_failure_time b of None \<Rightarrow> True | Some t \<Rightarrow> timeout cfg \<le> wall now - t)"

definition time_until_retry :: "breaker_config \<Rightarrow> clocks \<Rightarrow> breaker \<Rightarrow> real" where
  "time_until_retry cfg now b =
     (case last_failure_time b of None \<Rightarrow> 0 | Some t \<Rightarrow> max 0 (timeout cfg - (wall now - t)))"

section \<open>The sliding window\<close>

definition prune_window :: "breaker_config \<Rightarrow> clocks \<Rightarrow> breaker \<Rightarrow> breaker" where
  "prune_window cfg now b =
     b\<lparr>outcome_window := dropWhile (\<lambda>(t, _). t < monotonic now - window_seconds cfg) (outcome_window b)\<rparr>"

definition record_outcome :: "breaker_config \<Rightarrow> clocks \<Rightarrow> bool \<Rightarrow> breaker \<Rightarrow> breaker" where
  "record_outcome cfg now is_failure b =
     prune_window cfg now (b\<lparr>outcome_window := outcome_window b @ [(monotonic now, is_failure)]\<rparr>)"

definition window_failure_rate :: "breaker_config \<Rightarrow> clocks \<Rightarrow> breaker \<Rightarrow> real option \<times> breaker" where
  "window_failure_rate cfg now b =
     (let b' = prune_window cfg now b;
          total = length (outcome_window b');
          failures = length (filter snd (outcome_window b'))
      in (if int total < minimum_calls cfg then None
          else Some (real failures / real total * 100), b'))"

section \<open>Transitions\<close>

definition transition_to :: "circuit_state \<Rightarrow> breaker \<Rightarrow> breaker" where
  "transition_to new_state b =
     b\<lparr>cb_state := new_state,
       metrics := (metrics b)\<lparr>state_changes := state_changes (metrics b) + 1\<rparr>,
       outcome_window := (if new_state = CLOSED then [] else outcome_window b),
       half_open_in_flight := (if new_state \<noteq> HALF_OPEN then 0 else half_open_in_flight b)\<rparr>"

definition release_probe :: "bool \<Rightarrow> breaker \<Rightarrow> breaker" where
  "release_probe is_probe b =
     (if is_probe \<and> 0 < half_open_in_flight b
      then b\<lparr>half_open_in_flight := half_open_in_flight b - 1\<rparr> else b)"

definition handle_success :: "breaker_config \<Rightarrow> clocks \<Rightarrow> bool \<Rightarrow> breaker \<Rightarrow> breaker" where
  "handle_success cfg now is_probe b =
     (let b1 = release_probe is_probe
                 (record_outcome cfg now False (b\<lparr>metrics := record_success now (metrics b)\<rparr>))
      in case cb_state b1 of
           HALF_OPEN \<Rightarrow>
             (let b2 = b1\<lparr>success_count := success_count b1 + 1\<rparr>
              in if success_threshold cfg \<le> success_count b2
                 then (transition_to CLOSED b2)\<lparr>failure_count := 0, success_count := 0\<rparr>
                 else b2)
         | CLOSED \<Rightarrow> b1\<lparr>failure_count := 0\<rparr>
         | OPEN \<Rightarrow> b1)"

definition handle_failure :: "breaker_config \<Rightarrow> clocks \<Rightarrow> bool \<Rightarrow> bool \<Rightarrow> breaker \<Rightarrow> breaker" where
  "handle_failure cfg now excluded is_probe b =
     (if excluded then release_probe is_probe b
      else
        (let b1 = release_probe is_probe
                    (record_outcome cfg now True (b\<lparr>metrics := record_failure now (metrics b)\<rparr>));
             b2 = b1\<lparr>last_failure_time := Some (wall now), failure_count := failure_count b1 + 1\<rparr>
         in case cb_state b2 of
              HALF_OPEN \<Rightarrow> (transition_to OPEN b2)\<lparr>success_count := 0\<rparr>
            | CLOSED \<Rightarrow>
                (if failure_threshold cfg \<le> failure_count b2 then transition_to OPEN b2
                 else (case window_failure_rate cfg now b2 of
                         (Some rate, b3) \<Rightarrow>
                           (if failure_rate_threshold cfg \<le> rate then transition_to OPEN b3 else b3)
                       | (None, b3) \<Rightarrow> b3))
            | OPEN \<Rightarrow> b2))"

text \<open>\<open>_acquire\<close>: whether a call may execute and whether it is a probe.\<close>

definition acquire :: "breaker_config \<Rightarrow> clocks \<Rightarrow> breaker \<Rightarrow> (bool \<times> bool) \<times> breaker" where
  "acquire cfg now b =
     (case cb_state b of
        CLOSED \<Rightarrow> ((True, False), b)
      | OPEN \<Rightarrow>
          (if should_attempt_reset cfg now b
           then ((True, True), (transition_to HALF_OPEN b)\<lparr>success_count := 0, half_open_in_flight := 1\<rparr>)
           else ((False, False), b))
      | HALF_OPEN \<Rightarrow>
          (if half_open_in_flight b < half_open_max_calls cfg
           then ((True, True), b\<lparr>half_open_in_flight := half_open_in_flight b + 1\<rparr>)
           else ((False, False), b)))"

definition reset :: "breaker \<Rightarrow> breaker" where
  "reset b = b\<lparr>cb_state := CLOSED, failure_count := 0, success_count := 0, last_failure_time := None,
     outcome_window := [], half_open_in_flight := 0\<rparr>"

section \<open>\<open>execute\<close>\<close>

text \<open>
  How a protected call ends. Only an \<open>Exception\<close> is caught: a cancellation passes through
  \<open>execute\<close> without being recorded.
\<close>

datatype 'e call_exn = CircuitBreakerOpenException string real | CallException 'e

datatype ('r, 'e) outcome = Returned 'r | Raised "'e call_exn" | Cancelled

definition breaker_open :: "breaker_config \<Rightarrow> clocks \<Rightarrow> breaker \<Rightarrow> 'e call_exn" where
  "breaker_open cfg now b = CircuitBreakerOpenException (cb_name cfg) (time_until_retry cfg now b)"

definition finish_call ::
  "breaker_config \<Rightarrow> ('e call_exn \<Rightarrow> bool) \<Rightarrow> clocks \<Rightarrow> bool \<Rightarrow> ('r, 'e) outcome \<Rightarrow> breaker \<Rightarrow> breaker" where
  "finish_call cfg excluded now is_probe res b =
     (case res of Returned _ \<Rightarrow> handle_success cfg now is_probe b
      | Raised e \<Rightarrow> handle_failure cfg now (excluded e) is_probe b
      | Cancelled \<Rightarrow> b)"

text \<open>One call that nothing overlaps; \<open>fallback\<close> replaces the call when the breaker refuses it.\<close>

definition execute ::
  "breaker_config \<Rightarrow> ('e call_exn \<Rightarrow> bool) \<Rightarrow> ('w \<Rightarrow> ('r, 'e) outcome \<times> 'w) option \<Rightarrow> clocks \<Rightarrow> clocks
     \<Rightarrow> ('w \<Rightarrow> ('r, 'e) outcome \<times> 'w) \<Rightarrow> breaker \<times> 'w \<Rightarrow> ('r, 'e) outcome \<times> breaker \<times> 'w" where
  "execute cfg excluded fallback t0 t1 func s =
     (case s of (b, w) \<Rightarrow>
        (case acquire cfg t0 b of
           ((False, _), b0) \<Rightarrow>
             (let b1 = b0\<lparr>metrics := record_rejection (metrics b0)\<rparr>
              in case fallback of
                   Some f \<Rightarrow> (case f w of (res, w') \<Rightarrow> (res, b1, w'))
                 | None \<Rightarrow> (Raised (breaker_open cfg t0 b1), b1, w))
         | ((True, is_probe), b0) \<Rightarrow>
             (case func w of (res, w') \<Rightarrow> (res, finish_call cfg excluded t1 is_probe res b0, w'))))"

text \<open>\<open>__aexit__\<close>: here a cancellation is an exception like any other.\<close>

definition context_exit ::
  "breaker_config \<Rightarrow> ('e call_exn \<Rightarrow> bool) \<Rightarrow> clocks \<Rightarrow> bool \<Rightarrow> ('r, 'e) outcome \<Rightarrow> breaker \<Rightarrow> breaker" where
  "context_exit cfg excluded now is_probe res b =
     (case res of Returned _ \<Rightarrow> handle_success cfg now is_probe b
      | Raised e \<Rightarrow> handle_failure cfg now (excluded e) is_probe b
      | Cancelled \<Rightarrow> handle_failure cfg now False is_probe b)"

section \<open>Status and registry\<close>

record breaker_status =
  bs_name :: string
  bs_state :: circuit_state
  bs_failure_count :: int
  bs_success_count :: int
  bs_window_calls :: nat
  bs_window_failure_rate :: "real option"
  bs_time_until_retry :: real
  bs_metrics :: breaker_metrics

definition get_status :: "breaker_config \<Rightarrow> clocks \<Rightarrow> breaker \<Rightarrow> breaker_status \<times> breaker" where
  "get_status cfg now b =
     (case window_failure_rate cfg now b of (rate, b') \<Rightarrow>
        (\<lparr>bs_name = cb_name cfg, bs_state = cb_state b', bs_failure_count = failure_count b',
          bs_success_count = success_count b', bs_window_calls = length (outcome_window b'),
          bs_window_failure_rate = rate,
          bs_time_until_retry = (if cb_state b' = OPEN then time_until_retry cfg now b' else 0),
          bs_metrics = metrics b'\<rparr>, b'))"

type_synonym breaker_registry = "(string \<times> breaker_config \<times> breaker) list"

definition register :: "breaker_config \<Rightarrow> breaker \<Rightarrow> breaker_registry \<Rightarrow> breaker_registry" where
  "register cfg b reg =
     (if cb_name cfg \<in> fst ` set reg
      then map (\<lambda>(n, x). if n = cb_name cfg then (n, cfg, b) else (n, x)) reg
      else reg @ [(cb_name cfg, cfg, b)])"

definition get_unhealthy :: "breaker_registry \<Rightarrow> string list" where
  "get_unhealthy reg = map fst (filter (\<lambda>(_, _, b). cb_state b = OPEN) reg)"

definition reset_all :: "breaker_registry \<Rightarrow> breaker_registry" where
  "reset_all reg = map (\<lambda>(n, cfg, b). (n, cfg, reset b)) reg"

section \<open>The email service\<close>

text \<open>
  What the SendGrid client may raise: an HTTP error with its status code, or another exception
  (which has none). A rejection of this recipient or content becomes an
  \<open>EmailDeliveryException\<close>, which is the one type the breaker excludes.
\<close>

datatype 'x email_error =
    EmailDeliveryException "'x"
  | ClientError "'x"

definition do_send_email :: "('x \<Rightarrow> int option) \<Rightarrow> ('w \<Rightarrow> ('r, 'x) outcome \<times> 'w) \<Rightarrow> 'w \<Rightarrow> (unit, 'x email_error) outcome \<times> 'w" where
  "do_send_email status_code send w =
     (case send w of
        (Returned _, w') \<Rightarrow> (Returned (), w')
      | (Cancelled, w') \<Rightarrow> (Cancelled, w')
      | (Raised (CircuitBreakerOpenException n t), w') \<Rightarrow> (Raised (CircuitBreakerOpenException n t), w')
      | (Raised (CallException e), w') \<Rightarrow>
          (case status_code e of
             Some code \<Rightarrow>
               (if code \<in> {400, 413, 422} then (Raised (CallException (EmailDeliveryException e)), w')
                else (Raised (CallException (ClientError e)), w'))
           | None \<Rightarrow> (Raised (CallException (ClientError e)), w')))"

fun email_excluded :: "'x email_error call_exn \<Rightarrow> bool" where
  "email_excluded (CallException (EmailDeliveryException _)) = True"
| "email_excluded _ = False"

definition send_email ::
  "breaker_config \<Rightarrow> ('x \<Rightarrow> int option) \<Rightarrow> clocks \<Rightarrow> clocks \<Rightarrow> ('w \<Rightarrow> ('r, 'x) outcome \<times> 'w)
     \<Rightarrow> breaker \<times> 'w \<Rightarrow> (unit, 'x email_error) outcome \<times> breaker \<times> 'w" where
  "send_email cfg status_code t0 t1 send s =
     execute cfg email_excluded None t0 t1 (do_send_email status_code send) s"

definition is_healthy :: "breaker \<Rightarrow> bool" where
  "is_healthy b \<longleftrightarrow> cb_state b \<noteq> OPEN"

end
