(* ===== verification/BreakerProps.thy ===== *)
theory BreakerProps
  imports CircuitBreaker
begin

text \<open>
  The circuit breaker under concurrent calls. A state is the breaker with the probe flags of the
  calls in flight; an event starts a call, ends the \<open>i\<close>-th call in flight, resets the breaker
  or reads its status. Shown: the invariant of the breaker, that an open circuit admits no call
  before its timeout, and that pruning the window from its left end computes the failure rate of
  exactly the recent outcomes. The last section shows two traces on which the probe limit of the
  documentation is not kept: a cancelled probe is never released, and a call admitted in an
  earlier phase releases the slot of a probe it is not.
\<close>

datatype ('r, 'e) breaker_event =
    Start clocks
  | Finish nat clocks "('r, 'e) outcome"
  | Reset
  | Status clocks

definition drop_nth :: "nat \<Rightarrow> 'a list \<Rightarrow> 'a list" where
  "drop_nth i xs = take i xs @ drop (Suc i) xs"

inductive breaker_step ::
  "breaker_config \<Rightarrow> ('e call_exn \<Rightarrow> bool) \<Rightarrow> ('r, 'e) breaker_event
     \<Rightarrow> breaker \<times> bool list \<Rightarrow> breaker \<times> bool list \<Rightarrow> bool"
  for cfg excluded where
  admit: "acquire cfg now b = ((True, p), b') \<Longrightarrow> breaker_step cfg excluded (Start now) (b, cs) (b', cs @ [p])"
| refuse: "acquire cfg now b = ((False, p), b')
    \<Longrightarrow> breaker_step cfg excluded (Start now) (b, cs) (b'\<lparr>metrics := record_rejection (metrics b')\<rparr>, cs)"
| finish: "i < length cs \<Longrightarrow> breaker_step cfg excluded (Finish i now res) (b, cs)
    (finish_call cfg excluded now (cs ! i) res b, drop_nth i cs)"
| reset: "breaker_step cfg excluded Reset (b, cs) (reset b, cs)"
| status: "breaker_step cfg excluded (Status now) (b, cs) (snd (get_status cfg now b), cs)"

inductive_cases startE: "breaker_step cfg excluded (Start now) (b, cs) s"
inductive_cases finishE: "breaker_step cfg excluded (Finish i now res) (b, cs) s"
inductive_cases statusE: "breaker_step cfg excluded (Status now) (b, cs) s"
inductive_cases resetE: "breaker_step cfg excluded Reset (b, cs) s"

inductive breaker_run ::
  "breaker_config \<Rightarrow> ('e call_exn \<Rightarrow> bool) \<Rightarrow> ('r, 'e) breaker_event list
     \<Rightarrow> breaker \<times> bool list \<Rightarrow> breaker \<times> bool list \<Rightarrow> bool"
  for cfg excluded where
  stop: "breaker_run cfg excluded [] s s"
| step: "breaker_step cfg excluded x s t \<Longrightarrow> breaker_run cfg excluded xs t u \<Longrightarrow> breaker_run cfg excluded (x # xs) s u"

section \<open>Invariant\<close>

definition breaker_ok :: "breaker_config \<Rightarrow> breaker \<Rightarrow> bool" where
  "breaker_ok cfg b \<longleftrightarrow>
     0 \<le> half_open_in_flight b \<and> half_open_in_flight b \<le> max 1 (half_open_max_calls cfg)
     \<and> (cb_state b \<noteq> HALF_OPEN \<longrightarrow> half_open_in_flight b = 0)
     \<and> 0 \<le> failure_count b \<and> (cb_state b = CLOSED \<longrightarrow> failure_count b < failure_threshold cfg)
     \<and> 0 \<le> success_count b \<and> (cb_state b = HALF_OPEN \<longrightarrow> success_count b < success_threshold cfg)
     \<and> (cb_state b \<noteq> CLOSED \<longrightarrow> last_failure_time b \<noteq> None)
     \<and> total_requests (metrics b)
         = successful_requests (metrics b) + failed_requests (metrics b) + rejected_requests (metrics b)"

lemmas breaker_defs = breaker_ok_def prune_window_def record_outcome_def window_failure_rate_def
  transition_to_def release_probe_def record_success_def record_failure_def record_rejection_def Let_def

lemma prune_fields [simp]:
  "cb_state (prune_window cfg now b) = cb_state b" "failure_count (prune_window cfg now b) = failure_count b"
  "success_count (prune_window cfg now b) = success_count b" "metrics (prune_window cfg now b) = metrics b"
  "last_failure_time (prune_window cfg now b) = last_failure_time b"
  "half_open_in_flight (prune_window cfg now b) = half_open_in_flight b"
  by (simp_all add: prune_window_def)

lemma breaker_ok_prune [simp]: "breaker_ok cfg (prune_window cfg now b) = breaker_ok cfg b"
  by (simp add: breaker_ok_def)

lemma rate_state: "window_failure_rate cfg now b = (r, b') \<Longrightarrow> b' = prune_window cfg now b"
  by (simp add: window_failure_rate_def Let_def)

lemma handle_success_ok:
  assumes "breaker_ok cfg b" and "1 \<le> failure_threshold cfg" and "1 \<le> success_threshold cfg"
  shows "breaker_ok cfg (handle_success cfg now p b)"
  using assms
  by (cases "cb_state b") (auto simp: handle_success_def breaker_defs split: circuit_state.splits)

lemma handle_failure_ok:
  assumes "breaker_ok cfg b" and "1 \<le> failure_threshold cfg" and "1 \<le> success_threshold cfg"
  shows "breaker_ok cfg (handle_failure cfg now excl p b)"
  using assms
  by (cases "cb_state b"; cases excl) (auto simp: handle_failure_def breaker_defs split: option.splits)

lemma finish_call_ok:
  "breaker_ok cfg b \<Longrightarrow> 1 \<le> failure_threshold cfg \<Longrightarrow> 1 \<le> success_threshold cfg
     \<Longrightarrow> breaker_ok cfg (finish_call cfg excluded now p res b)"
  by (auto simp: finish_call_def handle_success_ok handle_failure_ok split: outcome.split)

lemma acquire_ok:
  assumes "breaker_ok cfg b" and "1 \<le> success_threshold cfg" and "acquire cfg now b = (d, b')"
  shows "breaker_ok cfg b'"
  using assms
  by (auto simp: acquire_def breaker_defs split: circuit_state.splits if_splits)

lemma rejection_ok [simp]:
  "breaker_ok cfg (b\<lparr>metrics := record_rejection (metrics b)\<rparr>) = breaker_ok cfg b"
  by (simp add: breaker_ok_def record_rejection_def)

lemma reset_ok: "breaker_ok cfg b \<Longrightarrow> 1 \<le> failure_threshold cfg \<Longrightarrow> breaker_ok cfg (reset b)"
  by (simp add: breaker_ok_def reset_def)

lemma status_state: "snd (get_status cfg now b) = prune_window cfg now b"
  by (simp add: get_status_def window_failure_rate_def Let_def)

lemma breaker_step_ok:
  assumes "breaker_step cfg excluded x s t" and "breaker_ok cfg (fst s)"
    and "1 \<le> failure_threshold cfg" and "1 \<le> success_threshold cfg"
  shows "breaker_ok cfg (fst t)"
  using assms
  by cases (auto simp: finish_call_ok reset_ok status_state intro: acquire_ok)

lemma breaker_run_ok:
  assumes "breaker_run cfg excluded xs s t" and "breaker_ok cfg (fst s)"
    and "1 \<le> failure_threshold cfg" and "1 \<le> success_threshold cfg"
  shows "breaker_ok cfg (fst t)"
  using assms by induction (auto dest: breaker_step_ok)

lemma new_breaker_ok:
  "1 \<le> failure_threshold cfg \<Longrightarrow> breaker_ok cfg new_breaker"
  by (simp add: breaker_ok_def new_breaker_def new_metrics_def)

definition sample_config :: breaker_config where
  "sample_config = \<lparr>cb_name = ''sendgrid'', failure_threshold = 1, success_threshold = 1, timeout = 30,
     failure_rate_threshold = 50, window_seconds = 60, minimum_calls = 10, half_open_max_calls = 1\<rparr>"

definition clock_at :: "real \<Rightarrow> clocks" where
  "clock_at t = \<lparr>wall = t, monotonic = t\<rparr>"

lemma sample_failure:
  "breaker_run sample_config excluded
     [Start (clock_at 0), Finish 0 (clock_at 1) (Raised e)] (new_breaker, [])
     (handle_failure sample_config (clock_at 1) (excluded e) False new_breaker, [])"
proof (rule breaker_run.step)
  show "breaker_step sample_config excluded (Start (clock_at 0)) (new_breaker, []) (new_breaker, [] @ [False])"
    by (rule breaker_step.admit) (simp add: acquire_def new_breaker_def)
  have "breaker_step sample_config excluded (Finish 0 (clock_at 1) (Raised e)) (new_breaker, [False])
      (handle_failure sample_config (clock_at 1) (excluded e) False new_breaker, [])"
    using breaker_step.finish [of 0 "[False]" sample_config excluded "clock_at 1" "Raised e" new_breaker]
    by (simp add: finish_call_def drop_nth_def)
  then show "breaker_run sample_config excluded [Finish 0 (clock_at 1) (Raised e)] (new_breaker, [] @ [False])
      (handle_failure sample_config (clock_at 1) (excluded e) False new_breaker, [])"
    by (auto intro: breaker_run.intros)
qed

lemma sample_thresholds: "1 \<le> failure_threshold sample_config" "1 \<le> success_threshold sample_config"
  by (simp_all add: sample_config_def)

text \<open>
  C34: Whatever calls start, return, raise, are cancelled or are refused, in whatever order:
  the probe counter stays between 0 and the half-open limit (1 at least) and is 0 outside
  HALF_OPEN, a closed breaker has fewer consecutive failures than its threshold, a half-open one
  fewer successes than its own, a breaker that is not closed knows the time of a failure, and
  the request metric is the sum of successes, failures and rejections.
\<close>

theorem breaker_invariant:
  assumes "breaker_run cfg excluded xs (new_breaker, []) (b, calls)"
    and "1 \<le> failure_threshold cfg" and "1 \<le> success_threshold cfg"
  shows "breaker_ok cfg b"
  using breaker_run_ok [OF assms(1) _ assms(2,3)] new_breaker_ok [OF assms(2)] by simp

theorem breaker_invariant_witness:
  "breaker_ok sample_config (handle_failure sample_config (clock_at 1) False False new_breaker)"
  using breaker_invariant [OF sample_failure sample_thresholds, of "\<lambda>_. False"] by simp

section \<open>An open circuit\<close>

definition during_outage :: "breaker_config \<Rightarrow> real \<Rightarrow> ('r, 'e) breaker_event \<Rightarrow> bool" where
  "during_outage cfg t x = (case x of
     Start now \<Rightarrow> wall now < t + timeout cfg | Finish i now res \<Rightarrow> t \<le> wall now
   | Reset \<Rightarrow> False | Status now \<Rightarrow> True)"

definition open_since :: "real \<Rightarrow> breaker \<Rightarrow> bool" where
  "open_since t b \<longleftrightarrow> cb_state b = OPEN \<and> (\<exists>u\<ge>t. last_failure_time b = Some u)"

lemma open_finish: "open_since t b \<Longrightarrow> t \<le> wall now \<Longrightarrow> open_since t (finish_call cfg excluded now p res b)"
  by (auto simp: open_since_def finish_call_def handle_success_def handle_failure_def breaker_defs
      split: outcome.splits)

lemma open_step:
  assumes "breaker_step cfg excluded x s s'" and "open_since t (fst s)" and "during_outage cfg t x"
  shows "open_since t (fst s') \<and> length (snd s') \<le> length (snd s)"
  using assms
proof cases
  case (admit now b p b' cs)
  with assms(2,3) show ?thesis
    by (auto simp: acquire_def open_since_def should_attempt_reset_def during_outage_def)
next
  case (refuse now b p b' cs)
  with assms(2,3) show ?thesis
    by (auto simp: acquire_def open_since_def should_attempt_reset_def during_outage_def)
next
  case (finish i cs now res b)
  with assms(2,3) show ?thesis by (auto simp: during_outage_def drop_nth_def open_finish)
qed (use assms(2,3) in \<open>auto simp: during_outage_def status_state open_since_def\<close>)

lemma open_run:
  assumes "breaker_run cfg excluded xs s s'" and "open_since t (fst s)" and "list_all (during_outage cfg t) xs"
  shows "open_since t (fst s') \<and> length (snd s') \<le> length (snd s)"
  using assms
proof induction
  case (step x s s1 xs s2)
  have "open_since t (fst s1) \<and> length (snd s1) \<le> length (snd s)"
    using open_step [OF step.hyps(1) step.prems(1)] step.prems(2) by simp
  with step.IH step.prems(2) show ?case by auto
qed simp

text \<open>
  A circuit that opened on a failure stays open and admits no call until the timeout has
  passed on the clock, even while calls that were already running go on returning, raising or
  being cancelled: no new call is in flight afterwards.
\<close>

theorem open_circuit_admits_nobody:
  assumes "cb_state b = OPEN" and "last_failure_time b = Some t"
    and "list_all (during_outage cfg t) xs" and "breaker_run cfg excluded xs (b, calls) (b', calls')"
  shows "cb_state b' = OPEN \<and> length calls' \<le> length calls"
  using open_run [OF assms(4), of t] assms(1-3) by (auto simp: open_since_def)

definition sample_open :: breaker where
  "sample_open = handle_failure sample_config (clock_at 1) False False new_breaker"

lemma sample_open_fields [simp]:
  "cb_state sample_open = OPEN" "last_failure_time sample_open = Some 1" "half_open_in_flight sample_open = 0"
  by (simp_all add: sample_open_def handle_failure_def breaker_defs sample_config_def new_breaker_def clock_at_def)

theorem open_circuit_admits_nobody_witness:
  "cb_state (sample_open\<lparr>metrics := record_rejection (metrics sample_open)\<rparr>) = OPEN \<and> length ([] :: bool list) \<le> 0"
proof -
  have "acquire sample_config (clock_at 30) sample_open = ((False, False), sample_open)"
    by (simp add: acquire_def should_attempt_reset_def clock_at_def) (simp add: sample_config_def)
  then have "breaker_step sample_config (\<lambda>_. False) (Start (clock_at 30)) (sample_open, [])
      (sample_open\<lparr>metrics := record_rejection (metrics sample_open)\<rparr>, [])"
    by (rule breaker_step.refuse)
  then have "breaker_run sample_config (\<lambda>_. False) [Start (clock_at 30)] (sample_open, [])
      (sample_open\<lparr>metrics := record_rejection (metrics sample_open)\<rparr>, [])"
    by (auto intro: breaker_run.intros)
  from open_circuit_admits_nobody [OF _ _ _ this, of 1] show ?thesis
    by (simp add: during_outage_def clock_at_def sample_config_def)
qed

section \<open>The sliding window\<close>

definition recent :: "breaker_config \<Rightarrow> real \<Rightarrow> (real \<times> bool) list \<Rightarrow> (real \<times> bool) list" where
  "recent cfg now hist = filter (\<lambda>(t, _). now - window_seconds cfg \<le> t) hist"

definition rate_of :: "breaker_config \<Rightarrow> (real \<times> bool) list \<Rightarrow> real option" where
  "rate_of cfg hist = (if int (length hist) < minimum_calls cfg then None
     else Some (real (length (filter snd hist)) / real (length hist) * 100))"

fun record_all :: "breaker_config \<Rightarrow> (clocks \<times> bool) list \<Rightarrow> breaker \<Rightarrow> breaker" where
  "record_all cfg [] b = b"
| "record_all cfg ((now, f) # hist) b = record_all cfg hist (record_outcome cfg now f b)"

lemma dropWhile_sorted:
  "sorted (map fst hist) \<Longrightarrow> dropWhile (\<lambda>(t, _). t < c) hist = filter (\<lambda>(t, _). c \<le> t) hist"
  for c :: real
  by (induction hist) (auto simp: not_less intro!: filter_True [symmetric])

lemma prune_recent:
  "sorted (map fst (outcome_window b)) \<Longrightarrow>
     outcome_window (prune_window cfg now b) = recent cfg (monotonic now) (outcome_window b)"
  by (simp add: prune_window_def recent_def dropWhile_sorted)

lemma sorted_recent: "sorted (map fst hist) \<Longrightarrow> sorted (map fst (recent cfg now hist))"
  unfolding recent_def by (rule sorted_filter)

lemma sorted_recent_append:
  assumes "sorted (map fst (xs @ ys))"
  shows "sorted (map fst (recent cfg now xs @ ys))"
proof -
  have sub: "x \<in> set (map fst xs)" if "x \<in> set (map fst (recent cfg now xs))" for x
    using that by (auto simp: recent_def)
  from assms have all: "sorted (map fst xs)" "sorted (map fst ys)"
    "\<forall>x\<in>set (map fst xs). \<forall>y\<in>set (map fst ys). x \<le> y"
    unfolding map_append sorted_append by blast+
  show ?thesis unfolding map_append sorted_append
    using all(2,3) sub sorted_recent [OF all(1)] by blast
qed

lemma recent_recent: "now \<le> later \<Longrightarrow> recent cfg later (recent cfg now hist) = recent cfg later hist"
  by (auto simp: recent_def intro: filter_cong)

lemma recent_append: "recent cfg now (xs @ ys) = recent cfg now xs @ recent cfg now ys"
  by (simp add: recent_def)

abbreviation outcome_of :: "clocks \<times> bool \<Rightarrow> real \<times> bool" where
  "outcome_of x \<equiv> (monotonic (fst x), snd x)"

lemma record_outcome_window:
  assumes "sorted (map fst (outcome_window b @ [(monotonic now, f)]))"
  shows "outcome_window (record_outcome cfg now f b) = recent cfg (monotonic now) (outcome_window b @ [(monotonic now, f)])"
  using prune_recent [of "b\<lparr>outcome_window := outcome_window b @ [(monotonic now, f)]\<rparr>" cfg now] assms
  by (simp add: record_outcome_def)

lemma record_all_window:
  assumes "sorted (map fst (outcome_window b @ map outcome_of hist))"
    and "\<forall>x\<in>set hist. monotonic (fst x) \<le> now"
  shows "recent cfg now (outcome_window (record_all cfg hist b)) = recent cfg now (outcome_window b @ map outcome_of hist)
    \<and> sorted (map fst (outcome_window (record_all cfg hist b)))"
  using assms
proof (induction hist arbitrary: b)
  case (Cons x hist)
  obtain n f where x: "x = (n, f)" by (cases x)
  let ?b = "record_outcome cfg n f b"
  from Cons.prems(1) x have s1: "sorted (map fst (outcome_window b @ [(monotonic n, f)]))"
    by (auto simp: sorted_append)
  have w: "outcome_window ?b = recent cfg (monotonic n) (outcome_window b @ [(monotonic n, f)])"
    using s1 by (rule record_outcome_window)
  have "sorted (map fst (outcome_window ?b @ map outcome_of hist))"
    using Cons.prems(1) x unfolding w by (intro sorted_recent_append) simp
  from Cons.IH [OF this] Cons.prems(2)
  have "recent cfg now (outcome_window (record_all cfg hist ?b)) = recent cfg now (outcome_window ?b @ map outcome_of hist)"
    and "sorted (map fst (outcome_window (record_all cfg hist ?b)))" by simp_all
  moreover have "monotonic n \<le> now" using Cons.prems(2) x by simp
  ultimately show ?case
    using x w recent_append [of cfg now "[(monotonic n, f)]" "map outcome_of hist"]
    by (simp add: recent_append recent_recent)
qed simp

text \<open>
  C35: The failure rate that decides whether the circuit opens is the rate of the outcomes of
  the last \<open>window_seconds\<close>, exactly: for outcomes recorded in the order of a clock that does not
  go back, evicting expired entries from the left end of the deque, at each record and at the
  evaluation, gives the rate of the whole history filtered by age, or none below
  \<open>minimum_calls\<close>.
\<close>

theorem sliding_window_is_exact:
  assumes "outcome_window b = []" and "sorted (map (\<lambda>x. monotonic (fst x)) hist)"
    and "\<forall>x\<in>set hist. monotonic (fst x) \<le> monotonic now"
  shows "fst (window_failure_rate cfg now (record_all cfg hist b))
    = rate_of cfg (filter (\<lambda>(t, _). monotonic now - window_seconds cfg \<le> t) (map outcome_of hist))"
proof -
  let ?w = "outcome_window (record_all cfg hist b)"
  have "sorted (map fst (outcome_window b @ map outcome_of hist))" using assms(1,2) by (simp add: comp_def)
  from record_all_window [OF this assms(3), of cfg] assms(1)
  have "recent cfg (monotonic now) ?w = recent cfg (monotonic now) (map outcome_of hist)" "sorted (map fst ?w)" by simp_all
  then have "outcome_window (prune_window cfg now (record_all cfg hist b))
      = recent cfg (monotonic now) (map outcome_of hist)" by (simp add: prune_recent)
  then show ?thesis
    by (simp add: window_failure_rate_def rate_of_def recent_def Let_def)
qed

theorem sliding_window_is_exact_witness:
  "fst (window_failure_rate sample_config (clock_at 70)
      (record_all sample_config [(clock_at 5, True), (clock_at 65, False)] new_breaker))
   = rate_of sample_config (filter (\<lambda>(t, _). monotonic (clock_at 70) - window_seconds sample_config \<le> t)
       (map outcome_of [(clock_at 5, True), (clock_at 65, False)]))"
  by (rule sliding_window_is_exact) (simp_all add: new_breaker_def clock_at_def)

section \<open>Where the probe limit is not kept\<close>

text \<open>
  A probe that is cancelled (as the message timeout of the Kafka client cancels a handler)
  keeps its slot: when it was the only call in flight, no later call is ever admitted.
\<close>

lemma full_step:
  assumes "breaker_step cfg excluded x (b, []) t" and "cb_state b = HALF_OPEN"
    and "half_open_max_calls cfg \<le> half_open_in_flight b" and "x \<noteq> Reset"
  shows "snd t = [] \<and> cb_state (fst t) = HALF_OPEN \<and> half_open_max_calls cfg \<le> half_open_in_flight (fst t)"
  using assms
  by cases (auto simp: acquire_def status_state)

lemma full_run:
  assumes "breaker_run cfg excluded xs s t" and "snd s = []" and "cb_state (fst s) = HALF_OPEN"
    and "half_open_max_calls cfg \<le> half_open_in_flight (fst s)" and "Reset \<notin> set xs"
  shows "snd t = []"
  using assms
proof induction
  case (step x s t xs u)
  obtain b where "s = (b, [])" using step.prems(1) by (cases s) simp
  with full_step [of cfg excluded x b t] step show ?case by auto
qed simp

lemma cancelled_probe_blocks_for_ever:
  assumes "breaker_run sample_config excluded xs
      (finish_call sample_config excluded now True Cancelled
         (snd (acquire sample_config (clock_at 40) sample_open)), []) (b, calls)"
    and "Reset \<notin> set xs"
  shows "calls = []"
proof -
  let ?b = "snd (acquire sample_config (clock_at 40) sample_open)"
  have "cb_state ?b = HALF_OPEN" "half_open_in_flight ?b = 1"
    by (simp_all add: acquire_def should_attempt_reset_def clock_at_def)
       (simp_all add: sample_config_def transition_to_def)
  with full_run [OF assms(1)] assms(2) show ?thesis
    by (simp add: finish_call_def) (simp add: sample_config_def)
qed

text \<open>The step relation as a function, to run a trace.\<close>

fun exec_event ::
  "breaker_config \<Rightarrow> ('e call_exn \<Rightarrow> bool) \<Rightarrow> ('r, 'e) breaker_event \<Rightarrow> breaker \<times> bool list
     \<Rightarrow> (breaker \<times> bool list) option" where
  "exec_event cfg excluded (Start now) (b, cs) =
     (case acquire cfg now b of
        ((True, p), b') \<Rightarrow> Some (b', cs @ [p])
      | ((False, p), b') \<Rightarrow> Some (b'\<lparr>metrics := record_rejection (metrics b')\<rparr>, cs))"
| "exec_event cfg excluded (Finish i now res) (b, cs) =
     (if i < length cs then Some (finish_call cfg excluded now (cs ! i) res b, drop_nth i cs) else None)"
| "exec_event cfg excluded Reset (b, cs) = Some (CircuitBreaker.reset b, cs)"
| "exec_event cfg excluded (Status now) (b, cs) = Some (snd (get_status cfg now b), cs)"

fun exec_events ::
  "breaker_config \<Rightarrow> ('e call_exn \<Rightarrow> bool) \<Rightarrow> ('r, 'e) breaker_event list \<Rightarrow> breaker \<times> bool list
     \<Rightarrow> (breaker \<times> bool list) option" where
  "exec_events cfg excluded [] s = Some s"
| "exec_events cfg excluded (x # xs) s =
     (case exec_event cfg excluded x s of None \<Rightarrow> None | Some t \<Rightarrow> exec_events cfg excluded xs t)"

lemma exec_event_step: "exec_event cfg excluded x s = Some t \<Longrightarrow> breaker_step cfg excluded x s t"
proof (cases s; cases x)
  fix b cs now assume h: "s = (b, cs)" "x = Start now" "exec_event cfg excluded x s = Some t"
  obtain d p b' where a: "acquire cfg now b = ((d, p), b')" by (metis prod.collapse)
  with h show ?thesis by (cases d) (auto intro: breaker_step.admit breaker_step.refuse)
qed (auto intro: breaker_step.intros split: if_splits)

lemma exec_events_run: "exec_events cfg excluded xs s = Some t \<Longrightarrow> breaker_run cfg excluded xs s t"
  by (induction xs arbitrary: s)
     (auto intro: breaker_run.intros dest: exec_event_step split: option.splits)

text \<open>
  Two live probes under a limit of one: a call from before the outage fails while the first
  probe runs and opens the circuit again; when the first probe returns in the next half-open
  phase, it frees the slot of that phase's probe.
\<close>

definition two_success_config :: breaker_config where
  "two_success_config = sample_config\<lparr>success_threshold := 2\<rparr>"

lemma stale_probe_exceeds_limit:
  "\<exists>b. breaker_run two_success_config (\<lambda>_. False)
      [Start (clock_at 0), Start (clock_at 0), Finish 0 (clock_at 1) (Raised e), Start (clock_at 31),
       Finish 0 (clock_at 32) (Raised e), Start (clock_at 62), Finish 0 (clock_at 63) (Returned ()),
       Start (clock_at 64)] (new_breaker, []) (b, [True, True])
    \<and> cb_state b = HALF_OPEN \<and> half_open_max_calls two_success_config = 1"
proof -
  have "\<exists>b. exec_events two_success_config (\<lambda>_. False)
      [Start (clock_at 0), Start (clock_at 0), Finish 0 (clock_at 1) (Raised e), Start (clock_at 31),
       Finish 0 (clock_at 32) (Raised e), Start (clock_at 62), Finish 0 (clock_at 63) (Returned ()),
       Start (clock_at 64)] (new_breaker, []) = Some (b, [True, True])
    \<and> cb_state b = HALF_OPEN"
    by (simp add: acquire_def new_breaker_def finish_call_def handle_failure_def handle_success_def
        should_attempt_reset_def drop_nth_def clock_at_def two_success_config_def sample_config_def
        prune_window_def record_outcome_def transition_to_def release_probe_def Let_def)
  moreover have "half_open_max_calls two_success_config = 1"
    by (simp add: two_success_config_def sample_config_def)
  ultimately show ?thesis using exec_events_run by blast
qed

end
