(* ===== verification/Inbox.thy ===== *)
theory Inbox
  imports Rows
begin

text \<open>
  Durable stores of event delivery (\<open>src/infrastructure/adapters/events/delivery_store.py\<close>):
  the exceptions of the delivery layer, the table \<open>event_inbox\<close> with its constraints, and
  \<open>SqlAlchemyHandlerInbox\<close>: \<open>claim\<close>, \<open>complete\<close> and \<open>fail\<close>, each one transaction on one
  row that is found by its key (event, handler).

  What an operation takes from outside is written out: an attempt of \<open>claim\<close> has its uuid4
  token, the clock of the database, and the row another consumer may commit under the same
  key between the locked read (which locks nothing when there is no row) and the insertion.
  Operations of several consumers interleave as a list of operations.
\<close>

section \<open>Exceptions of the delivery layer\<close>

datatype infra_exn =
    AppException exn
  | RuntimeError string
  | ValueError string
  | TypeError string
  | OverflowError
  | TimeoutError
  | SqlError sql_error
  | InvalidEventEnvelopeError string "string option" "string option" "int option"
  | UnsupportedEventContractError string "string option" "string option" "int option"
  | EventDispatcherException string infra_exn
  | MessageBrokerException string "infra_exn option"
  | UnrecoverableMessageException string infra_exn
  | DurableMessageHandlingException string infra_exn

section \<open>Identities\<close>

definition is_sha256 :: "string \<Rightarrow> bool" where
  "is_sha256 s \<longleftrightarrow> length s = 64 \<and> list_all (\<lambda>c. is_digit c \<or> (97 \<le> code c \<and> code c \<le> 102)) s"

definition delivery_identity_ok :: "nat \<Rightarrow> string \<Rightarrow> bool" where
  "delivery_identity_ok max_length s \<longleftrightarrow> 1 \<le> length s \<and> length s \<le> max_length
     \<and> is_alnum (hd s) \<and> list_all (\<lambda>c. is_alnum c \<or> safe_extra c) s"

definition validate_delivery_identity :: "string option \<Rightarrow> string \<Rightarrow> nat \<Rightarrow> bool \<Rightarrow> infra_exn + unit" where
  "validate_delivery_identity value field_name max_length optional =
     (case value of
        None \<Rightarrow> (if optional then Inr ()
                 else Inl (ValueError (field_name @ '' has an invalid event-delivery identity'')))
      | Some s \<Rightarrow> (if delivery_identity_ok max_length s then Inr ()
                  else Inl (ValueError (field_name @ '' has an invalid event-delivery identity''))))"

definition searchable_identity :: "string option \<Rightarrow> nat \<Rightarrow> string option" where
  "searchable_identity value max_length =
     (case value of None \<Rightarrow> None
      | Some _ \<Rightarrow> (case validate_delivery_identity value ''quarantine identity'' max_length True of
           Inl _ \<Rightarrow> None | Inr _ \<Rightarrow> value))"

lemma delivery_identity_ident: "delivery_identity_ok n s \<longleftrightarrow> length s \<le> n \<and> ident_match safe_extra s"
  by (cases s) (auto simp: delivery_identity_ok_def ident_match_def)

section \<open>The table\<close>

record inbox_row =
  ib_event_id :: string
  ib_handler_name :: string
  ib_contract_name :: string
  ib_contract_version :: int
  ib_payload_hash :: string
  ib_correlation_id :: "string option"
  ib_causation_id :: "string option"
  ib_status :: string
  ib_attempts :: int
  ib_claim_token :: "string option"
  ib_lease_until :: "instant option"
  ib_received_at :: instant
  ib_processed_at :: "instant option"
  ib_last_error :: "string option"

definition inbox_status_fields :: "inbox_row \<Rightarrow> bool" where
  "inbox_status_fields r \<longleftrightarrow>
     (ib_status r = ''processing'' \<and> ib_claim_token r \<noteq> None \<and> ib_lease_until r \<noteq> None \<and> ib_processed_at r = None)
   \<or> (ib_status r = ''processed'' \<and> ib_claim_token r = None \<and> ib_lease_until r = None \<and> ib_processed_at r \<noteq> None)
   \<or> (ib_status r = ''failed'' \<and> ib_claim_token r = None \<and> ib_lease_until r = None \<and> ib_processed_at r = None)"

definition inbox_checks :: "inbox_row \<Rightarrow> (string \<times> bool) list" where
  "inbox_checks r =
     [(''ck_event_inbox_status'', ib_status r \<in> {''processing'', ''processed'', ''failed''}),
      (''ck_event_inbox_attempts'', 1 \<le> ib_attempts r),
      (''ck_event_inbox_contract_version'', 1 \<le> ib_contract_version r),
      (''ck_event_inbox_payload_hash'', is_sha256 (ib_payload_hash r)),
      (''ck_event_inbox_event_id'', ident_match safe_extra (ib_event_id r)),
      (''ck_event_inbox_handler_name'', ident_match safe_extra (ib_handler_name r)),
      (''ck_event_inbox_contract_name'', ident_match safe_extra (ib_contract_name r)),
      (''ck_event_inbox_correlation_id'', null_or (ident_match safe_extra) (ib_correlation_id r)),
      (''ck_event_inbox_causation_id'', null_or (ident_match safe_extra) (ib_causation_id r)),
      (''ck_event_inbox_status_fields'', inbox_status_fields r)]"

definition inbox_types :: "inbox_row \<Rightarrow> (string \<times> bool) list" where
  "inbox_types r =
     [(''event_id'', length (ib_event_id r) \<le> 128), (''handler_name'', length (ib_handler_name r) \<le> 128),
      (''contract_name'', length (ib_contract_name r) \<le> 160), (''contract_version'', int4 (ib_contract_version r)),
      (''payload_hash'', length (ib_payload_hash r) \<le> 64),
      (''correlation_id'', null_or (\<lambda>s. length s \<le> 128) (ib_correlation_id r)),
      (''causation_id'', null_or (\<lambda>s. length s \<le> 128) (ib_causation_id r)),
      (''attempts'', int4 (ib_attempts r))]"

definition inbox_schema :: "inbox_row schema" where
  "inbox_schema = \<lparr>column_types = inbox_types, constraints = inbox_checks,
     unique_indexes = [(''event_inbox_pkey'', \<lambda>r. Some [ib_event_id r, ib_handler_name r])]\<rparr>"

abbreviation inbox_key :: "inbox_row \<Rightarrow> string \<times> string" where
  "inbox_key r \<equiv> (ib_event_id r, ib_handler_name r)"

definition locked_row :: "inbox_row list \<Rightarrow> string \<times> string \<Rightarrow> inbox_row option" where
  "locked_row t k = find (\<lambda>r. inbox_key r = k) t"

section \<open>Claims\<close>

datatype inbox_claim_status = CLAIMED | PROCESSED | BUSY

record inbox_claim =
  claim_status :: inbox_claim_status
  claim_token :: "string option"

record claim_request =
  rq_event_id :: string
  rq_handler_name :: string
  rq_contract_name :: string
  rq_contract_version :: int
  rq_payload_hash :: string
  rq_correlation_id :: "string option"
  rq_causation_id :: "string option"

record attempt =
  fresh_token :: string
  database_now :: instant
  rival :: "inbox_row option"

abbreviation rq_key :: "claim_request \<Rightarrow> string \<times> string" where
  "rq_key q \<equiv> (rq_event_id q, rq_handler_name q)"

text \<open>The arguments \<open>claim\<close> refuses before it opens a session.\<close>

definition validate_claim :: "claim_request \<Rightarrow> infra_exn + unit" where
  "validate_claim q =
     (if \<not> is_sha256 (rq_payload_hash q)
      then Inl (ValueError ''payload_hash must be a lowercase SHA-256 digest'')
      else rbind (validate_delivery_identity (Some (rq_event_id q)) ''event_id'' 128 False) (\<lambda>_.
           rbind (validate_delivery_identity (Some (rq_handler_name q)) ''handler_name'' 128 False) (\<lambda>_.
           rbind (validate_delivery_identity (Some (rq_contract_name q)) ''contract_name'' 160 False) (\<lambda>_.
           rbind (validate_delivery_identity (rq_correlation_id q) ''correlation_id'' 128 True) (\<lambda>_.
                  validate_delivery_identity (rq_causation_id q) ''causation_id'' 128 True)))))"

definition is_future :: "instant option \<Rightarrow> instant \<Rightarrow> bool" where
  "is_future v now = (case v of None \<Rightarrow> False | Some t \<Rightarrow> now < t)"

definition lease_end :: "int \<Rightarrow> instant \<Rightarrow> infra_exn + instant" where
  "lease_end lease now = (if in_range (now + lease) then Inr (now + lease) else Inl OverflowError)"

definition new_inbox_row :: "claim_request \<Rightarrow> attempt \<Rightarrow> instant \<Rightarrow> inbox_row" where
  "new_inbox_row q a until =
     \<lparr>ib_event_id = rq_event_id q, ib_handler_name = rq_handler_name q,
      ib_contract_name = rq_contract_name q, ib_contract_version = rq_contract_version q,
      ib_payload_hash = rq_payload_hash q, ib_correlation_id = rq_correlation_id q,
      ib_causation_id = rq_causation_id q, ib_status = ''processing'', ib_attempts = 1,
      ib_claim_token = Some (fresh_token a), ib_lease_until = Some until,
      ib_received_at = database_now a, ib_processed_at = None, ib_last_error = None\<rparr>"

definition reclaimed :: "attempt \<Rightarrow> instant \<Rightarrow> inbox_row \<Rightarrow> inbox_row" where
  "reclaimed a until r = r\<lparr>ib_status := ''processing'', ib_attempts := ib_attempts r + 1,
     ib_claim_token := Some (fresh_token a), ib_lease_until := Some until, ib_last_error := None\<rparr>"

definition same_delivery :: "claim_request \<Rightarrow> inbox_row \<Rightarrow> bool" where
  "same_delivery q r \<longleftrightarrow> ib_contract_name r = rq_contract_name q
     \<and> ib_contract_version r = rq_contract_version q \<and> ib_payload_hash r = rq_payload_hash q
     \<and> ib_correlation_id r = rq_correlation_id q \<and> ib_causation_id r = rq_causation_id q"

definition collision :: "claim_request \<Rightarrow> infra_exn" where
  "collision q = RuntimeError (''Event identity collision for '' @ rq_event_id q @ ''/'' @ rq_handler_name q
     @ '': stored contract or trace metadata differs from this delivery'')"

abbreviation claimed_by :: "string \<Rightarrow> inbox_claim" where
  "claimed_by tok \<equiv> \<lparr>claim_status = CLAIMED, claim_token = Some tok\<rparr>"

abbreviation claim_processed :: inbox_claim where
  "claim_processed \<equiv> \<lparr>claim_status = PROCESSED, claim_token = None\<rparr>"

abbreviation claim_busy :: inbox_claim where
  "claim_busy \<equiv> \<lparr>claim_status = BUSY, claim_token = None\<rparr>"

text \<open>The end of the transaction: an \<open>IntegrityError\<close> lets the loop go on (\<open>Inr None\<close>).\<close>

definition end_attempt ::
  "'t \<Rightarrow> inbox_claim \<Rightarrow> sql_error + 't \<Rightarrow> (infra_exn + inbox_claim option) \<times> 't" where
  "end_attempt t c result =
     (case result of
        Inr t' \<Rightarrow> (Inr (Some c), t')
      | Inl (IntegrityError n) \<Rightarrow> (Inr None, t)
      | Inl (DataError n) \<Rightarrow> (Inl (SqlError (DataError n)), t))"

definition rival_commits :: "inbox_row option \<Rightarrow> inbox_row list \<Rightarrow> inbox_row list" where
  "rival_commits rv t = (case rv of None \<Rightarrow> t
     | Some r \<Rightarrow> (case insert_row inbox_schema r t of Inl _ \<Rightarrow> t | Inr t' \<Rightarrow> t'))"

definition claim_attempt ::
  "int \<Rightarrow> claim_request \<Rightarrow> attempt \<Rightarrow> inbox_row list \<Rightarrow> (infra_exn + inbox_claim option) \<times> inbox_row list" where
  "claim_attempt lease q a t =
     (case locked_row t (rq_key q) of
        None \<Rightarrow>
          (case lease_end lease (database_now a) of
             Inl e \<Rightarrow> (Inl e, t)
           | Inr until \<Rightarrow>
               (let t1 = rival_commits (rival a) t
                in end_attempt t1 (claimed_by (fresh_token a))
                     (insert_row inbox_schema (new_inbox_row q a until) t1)))
      | Some r \<Rightarrow>
          (if \<not> same_delivery q r then (Inl (collision q), t)
           else if ib_processed_at r \<noteq> None \<or> ib_status r = ''processed'' then (Inr (Some claim_processed), t)
           else if ib_status r = ''processing'' \<and> is_future (ib_lease_until r) (database_now a)
           then (Inr (Some claim_busy), t)
           else case lease_end lease (database_now a) of
                  Inl e \<Rightarrow> (Inl e, t)
                | Inr until \<Rightarrow>
                    end_attempt t (claimed_by (fresh_token a))
                      (rbind (update_where inbox_schema (\<lambda>x. inbox_key x = rq_key q) (reclaimed a until) t)
                         (\<lambda>(t', _). Inr t'))))"

text \<open>\<open>for _ in range(2)\<close>: the attempts of the loop.\<close>

fun claim_loop ::
  "int \<Rightarrow> claim_request \<Rightarrow> attempt list \<Rightarrow> inbox_row list \<Rightarrow> (infra_exn + inbox_claim) \<times> inbox_row list" where
  "claim_loop lease q [] t = (Inr claim_busy, t)"
| "claim_loop lease q (a # as) t =
     (case claim_attempt lease q a t of
        (Inl e, t') \<Rightarrow> (Inl e, t')
      | (Inr (Some c), t') \<Rightarrow> (Inr c, t')
      | (Inr None, t') \<Rightarrow> claim_loop lease q as t')"

definition claim ::
  "int \<Rightarrow> claim_request \<Rightarrow> attempt \<times> attempt \<Rightarrow> inbox_row list \<Rightarrow> (infra_exn + inbox_claim) \<times> inbox_row list" where
  "claim lease q env t =
     (case validate_claim q of Inl e \<Rightarrow> (Inl e, t) | Inr _ \<Rightarrow> claim_loop lease q [fst env, snd env] t)"

section \<open>Completion and failure\<close>

definition holds_claim :: "string \<times> string \<Rightarrow> string \<Rightarrow> inbox_row \<Rightarrow> bool" where
  "holds_claim k tok r \<longleftrightarrow> inbox_key r = k \<and> ib_claim_token r = Some tok \<and> ib_processed_at r = None"

definition fenced_update ::
  "string \<times> string \<Rightarrow> string \<Rightarrow> (inbox_row \<Rightarrow> inbox_row) \<Rightarrow> infra_exn \<Rightarrow> inbox_row list
     \<Rightarrow> (infra_exn + unit) \<times> inbox_row list" where
  "fenced_update k tok f lost t =
     (case update_where inbox_schema (holds_claim k tok) f t of
        Inl e \<Rightarrow> (Inl (SqlError e), t)
      | Inr (t', rowcount) \<Rightarrow> (if rowcount \<noteq> 1 then (Inl lost, t) else (Inr (), t')))"

definition completed :: "instant \<Rightarrow> inbox_row \<Rightarrow> inbox_row" where
  "completed now r = r\<lparr>ib_status := ''processed'', ib_processed_at := Some now, ib_claim_token := None,
     ib_lease_until := None, ib_last_error := None\<rparr>"

definition failed :: "string \<Rightarrow> inbox_row \<Rightarrow> inbox_row" where
  "failed error_text r = r\<lparr>ib_status := ''failed'', ib_claim_token := None, ib_lease_until := None,
     ib_last_error := Some (take 8000 error_text)\<rparr>"

definition complete :: "string \<times> string \<Rightarrow> string \<Rightarrow> instant \<Rightarrow> inbox_row list \<Rightarrow> (infra_exn + unit) \<times> inbox_row list" where
  "complete k tok now t = fenced_update k tok (completed now)
     (RuntimeError (''Inbox claim was lost before completion: '' @ fst k @ ''/'' @ snd k)) t"

definition fail :: "string \<times> string \<Rightarrow> string \<Rightarrow> string \<Rightarrow> inbox_row list \<Rightarrow> (infra_exn + unit) \<times> inbox_row list" where
  "fail k tok error_text t = fenced_update k tok (failed error_text)
     (RuntimeError (''Inbox claim was lost before failure was recorded: '' @ fst k @ ''/'' @ snd k)) t"

section \<open>Interleavings of several consumers\<close>

datatype inbox_op =
    ClaimOp claim_request "attempt \<times> attempt"
  | CompleteOp "string \<times> string" string instant
  | FailOp "string \<times> string" string string

fun exec_inbox_op :: "int \<Rightarrow> inbox_op \<Rightarrow> inbox_row list \<Rightarrow> inbox_row list" where
  "exec_inbox_op lease (ClaimOp q env) t = snd (claim lease q env t)"
| "exec_inbox_op lease (CompleteOp k tok now) t = snd (complete k tok now t)"
| "exec_inbox_op lease (FailOp k tok error_text) t = snd (fail k tok error_text t)"

fun run_inbox :: "int \<Rightarrow> inbox_op list \<Rightarrow> inbox_row list \<Rightarrow> inbox_row list" where
  "run_inbox lease [] t = t"
| "run_inbox lease (x # xs) t = run_inbox lease xs (exec_inbox_op lease x t)"

end
