(* ===== verification/InboxProps.thy ===== *)
theory InboxProps
  imports Inbox
begin

text \<open>
  What the handler inbox guarantees to concurrent consumers. The first part computes how one
  operation changes the row of a key (\<open>row_change\<close>); every guarantee is an induction over a
  list of operations with these lemmas: a processed row is final, a lease protects its holder,
  and a consumer whose claim was taken over can record nothing any more.
\<close>

section \<open>One operation and one row\<close>

lemma locked_row_key: "locked_row t k = Some r \<Longrightarrow> inbox_key r = k \<and> r \<in> set t"
  unfolding locked_row_def by (drule find_SomeD) simp


lemma find_append_None: "find p xs = None \<Longrightarrow> find p (xs @ ys) = find p ys"
  by (induction xs) (auto split: if_splits)

lemma find_append_Some: "find p xs = Some r \<Longrightarrow> find p (xs @ ys) = Some r"
  by (induction xs) (auto split: if_splits)

lemma insert_keeps_row:
  "insert_row inbox_schema x t = Inr t' \<Longrightarrow> locked_row t k = Some r \<Longrightarrow> locked_row t' k = Some r"
  by (auto simp: insert_row_Inr locked_row_def find_append_Some)

lemma rival_ok: "table_ok inbox_schema t \<Longrightarrow> table_ok inbox_schema (rival_commits rv t)"
  by (auto simp: rival_commits_def insert_row_ok split: option.splits sum.splits)

lemma rival_keeps_row: "locked_row t k = Some r \<Longrightarrow> locked_row (rival_commits rv t) k = Some r"
  by (auto simp: rival_commits_def insert_keeps_row split: option.splits sum.splits)

lemma update_row:
  assumes "update_where inbox_schema p f t = Inr (t', n)" and "\<And>x. inbox_key (f x) = inbox_key x"
  shows "locked_row t' k = map_option (\<lambda>r. if p r then f r else r) (locked_row t k)"
proof -
  from assms(1) have t': "t' = map (\<lambda>r. if p r then f r else r) t" by (simp add: update_where_Inr)
  show ?thesis unfolding t' locked_row_def
  proof (rule find_map_update)
    fix r show "inbox_key (if p r then f r else r) = inbox_key r"
      using assms(2) [of r] by (cases "p r") simp_all
  qed
qed

text \<open>The writes of the three operations keep the key and the row's check constraints.\<close>

lemma write_keys [simp]:
  "inbox_key (reclaimed a u r) = inbox_key r" "inbox_key (completed now r) = inbox_key r"
  "inbox_key (failed e r) = inbox_key r" "inbox_key (new_inbox_row q a u) = rq_key q"
  by (simp_all add: reclaimed_def completed_def failed_def new_inbox_row_def)

lemma row_error_iff:
  "row_error inbox_schema r = None \<longleftrightarrow>
     (\<forall>(n, ok)\<in>set (inbox_types r). ok) \<and> (\<forall>(n, ok)\<in>set (inbox_checks r). ok)"
  by (simp add: row_error_def inbox_schema_def flip: first_violation_None split: option.splits)

lemmas row_facts = row_error_iff inbox_types_def inbox_checks_def inbox_status_fields_def

lemma completed_valid: "row_error inbox_schema r = None \<Longrightarrow> row_error inbox_schema (completed now r) = None"
  by (auto simp: row_facts completed_def)

lemma failed_valid:
  "row_error inbox_schema r = None \<Longrightarrow> ib_processed_at r = None \<Longrightarrow> row_error inbox_schema (failed e r) = None"
  by (auto simp: row_facts failed_def)

lemma reclaimed_valid:
  assumes "row_error inbox_schema r = None" and "ib_processed_at r = None" and "ib_attempts r < 2147483647"
  shows "row_error inbox_schema (reclaimed a u r) = None"
  using assms by (auto simp: row_facts reclaimed_def int4_def)

lemma new_row_valid:
  assumes "validate_claim q = Inr ()" and "1 \<le> rq_contract_version q" and "int4 (rq_contract_version q)"
  shows "row_error inbox_schema (new_inbox_row q a u) = None"
  using assms
  by (auto simp: row_facts new_inbox_row_def validate_claim_def validate_delivery_identity_def
      delivery_identity_ident is_sha256_def int4_def null_or_def result_simps split: if_splits option.splits)

lemma same_keys_index:
  assumes "index_error inbox_schema t = None" and "map inbox_key t' = map inbox_key t"
  shows "index_error inbox_schema t' = None"
proof -
  have "map (\<lambda>r. [ib_event_id r, ib_handler_name r]) t' = map (\<lambda>(a, b). [a, b]) (map inbox_key t')" by simp
  also have "\<dots> = map (\<lambda>(a, b). [a, b]) (map inbox_key t)" using assms(2) by simp
  also have "\<dots> = map (\<lambda>r. [ib_event_id r, ib_handler_name r]) t" by simp
  finally have keys: "map (\<lambda>r. [ib_event_id r, ib_handler_name r]) t' = \<dots>" .
  have "index_error inbox_schema ts = None \<longleftrightarrow> distinct (map (\<lambda>r. [ib_event_id r, ib_handler_name r]) ts)" for ts
    by (simp add: index_error_None inbox_schema_def map_filter_Some)
  then show ?thesis using assms(1) keys by (simp only:)
qed

lemma update_succeeds:
  assumes "table_ok inbox_schema t" and "\<And>x. inbox_key (f x) = inbox_key x"
    and "\<And>r. r \<in> set t \<Longrightarrow> p r \<Longrightarrow> row_error inbox_schema (f r) = None"
  shows "update_where inbox_schema p f t = Inr (map (\<lambda>r. if p r then f r else r) t, length (filter p t))"
proof -
  have "index_error inbox_schema (map (\<lambda>r. if p r then f r else r) t) = None"
  proof (rule same_keys_index)
    show "index_error inbox_schema t = None" using assms(1) by (simp add: table_ok_def)
    show "map inbox_key (map (\<lambda>r. if p r then f r else r) t) = map inbox_key t"
      using assms(2) by simp
  qed
  then show ?thesis using assms(3) by (simp add: update_where_Inr)
qed

lemma keys_distinct:
  assumes "table_ok inbox_schema t"
  shows "distinct (map inbox_key t)"
proof -
  have "distinct (map (\<lambda>r. [ib_event_id r, ib_handler_name r]) t)"
    using assms by (simp add: table_ok_def index_error_None inbox_schema_def map_filter_Some)
  then have "distinct (map (\<lambda>(a, b). [a, b]) (map inbox_key t))" by (simp add: comp_def)
  then show ?thesis by (simp only: distinct_map)
qed

lemma locked_row_iff:
  "table_ok inbox_schema t \<Longrightarrow> locked_row t k = Some r \<longleftrightarrow> r \<in> set t \<and> inbox_key r = k"
  using keys_distinct [of t] find_key [of inbox_key t r] locked_row_key [of t k r]
  by (auto simp: locked_row_def)

lemma holder_unique:
  assumes "table_ok inbox_schema t" and "locked_row t k = Some r" and "holds_claim k tok r"
  shows "length (filter (holds_claim k tok) t) = 1"
proof -
  have "filter (holds_claim k tok) t = filter (\<lambda>x. x = r) t"
  proof (intro filter_cong refl iffI)
    fix x assume "x \<in> set t" "holds_claim k tok x"
    then have "locked_row t k = Some x" using assms(1) by (simp add: locked_row_iff holds_claim_def)
    then show "x = r" using assms(2) by simp
  qed (use assms(3) in simp)
  moreover have "distinct t" using keys_distinct [OF assms(1)] by (simp add: distinct_map)
  ultimately show ?thesis using assms(2) locked_row_key [of t k r]
    by (simp add: distinct_length_filter)
qed

lemma no_holder:
  assumes "table_ok inbox_schema t" and "\<And>r. locked_row t k = Some r \<Longrightarrow> \<not> holds_claim k tok r"
  shows "filter (holds_claim k tok) t = []"
  using assms by (auto simp: filter_empty_conv locked_row_iff holds_claim_def)

section \<open>How an operation changes a row\<close>

definition takes_over :: "claim_request \<Rightarrow> attempt \<Rightarrow> inbox_row \<Rightarrow> bool" where
  "takes_over q a r \<longleftrightarrow> inbox_key r = rq_key q \<and> same_delivery q r \<and> ib_processed_at r = None
     \<and> ib_status r \<noteq> ''processed''
     \<and> \<not> (ib_status r = ''processing'' \<and> is_future (ib_lease_until r) (database_now a))"

definition row_change :: "int \<Rightarrow> inbox_op \<Rightarrow> inbox_row \<Rightarrow> inbox_row \<Rightarrow> bool" where
  "row_change lease x r r' \<longleftrightarrow> r' = r \<or>
     (case x of
        ClaimOp q env \<Rightarrow> (\<exists>a\<in>{fst env, snd env}. takes_over q a r
          \<and> r' = reclaimed a (database_now a + lease) r)
      | CompleteOp k tok now \<Rightarrow> holds_claim k tok r \<and> r' = completed now r
      | FailOp k tok e \<Rightarrow> holds_claim k tok r \<and> r' = failed e r)"

lemma end_attempt_cases:
  obtains t' where "res = Inr t'" "end_attempt t c res = (Inr (Some c), t')"
  | "end_attempt t c res = (Inr None, t)"
  | n where "end_attempt t c res = (Inl (SqlError (DataError n)), t)"
  by (cases res; cases "projl res") (auto simp: end_attempt_def)

lemma end_attempt_table: "snd (end_attempt t c res) = (case res of Inl _ \<Rightarrow> t | Inr t' \<Rightarrow> t')"
  by (auto simp: end_attempt_def split: sum.splits sql_error.splits)

lemma end_attempt_claimed: "fst (end_attempt t c res) = Inr (Some d) \<longleftrightarrow> d = c \<and> (\<exists>t'. res = Inr t')"
  by (auto simp: end_attempt_def split: sum.splits sql_error.splits)

lemma lease_end_Inr: "lease_end lease now = Inr u \<longleftrightarrow> u = now + lease \<and> in_range u"
  by (auto simp: lease_end_def)

lemma claim_attempt_ok:
  assumes "table_ok inbox_schema t"
  shows "table_ok inbox_schema (snd (claim_attempt lease q a t))"
  using assms
  by (auto simp: claim_attempt_def Let_def end_attempt_table rival_ok result_simps
      split: option.splits sum.splits prod.splits elim!: insert_row_ok [rotated] update_where_ok [rotated])

lemma claim_attempt_new_row:
  assumes "locked_row t k = Some r" and "locked_row t (rq_key q) = None"
  shows "locked_row (snd (claim_attempt lease q a t)) k = Some r"
  using assms rival_keeps_row [OF assms(1)]
  by (auto simp: claim_attempt_def Let_def end_attempt_table intro: insert_keeps_row split: sum.splits)

lemma claim_attempt_row:
  assumes "locked_row t k = Some r"
  shows "locked_row (snd (claim_attempt lease q a t)) k = Some r \<or>
    (rq_key q = k \<and> takes_over q a r \<and> fst (claim_attempt lease q a t) = Inr (Some (claimed_by (fresh_token a)))
      \<and> locked_row (snd (claim_attempt lease q a t)) k = Some (reclaimed a (database_now a + lease) r))"
proof (cases "locked_row t (rq_key q)")
  case None
  with assms claim_attempt_new_row show ?thesis by blast
next
  case (Some y)
  let ?open = "same_delivery q y \<and> \<not> (ib_processed_at y \<noteq> None \<or> ib_status y = ''processed'')
    \<and> \<not> (ib_status y = ''processing'' \<and> is_future (ib_lease_until y) (database_now a))"
  let ?upd = "update_where inbox_schema (\<lambda>x. inbox_key x = rq_key q) (reclaimed a (database_now a + lease)) t"
  show ?thesis
  proof (cases "?open \<and> in_range (database_now a + lease)")
    case False
    then have "snd (claim_attempt lease q a t) = t"
      using Some by (auto simp: claim_attempt_def lease_end_def)
    with assms show ?thesis by simp
  next
    case True
    then have c: "claim_attempt lease q a t =
        end_attempt t (claimed_by (fresh_token a)) (rbind ?upd (\<lambda>(t', _). Inr t'))"
      using Some by (auto simp: claim_attempt_def lease_end_def)
    show ?thesis
    proof (cases ?upd)
      case (Inl e)
      with assms c show ?thesis by (simp add: end_attempt_table)
    next
      case (Inr p)
      obtain t' n where p: "p = (t', n)" by (cases p)
      have e: "claim_attempt lease q a t = (Inr (Some (claimed_by (fresh_token a))), t')"
        using c Inr p by (simp add: end_attempt_def)
      have l: "locked_row t' k = Some (if inbox_key r = rq_key q then reclaimed a (database_now a + lease) r else r)"
        using update_row [OF Inr [unfolded p], of k] assms by simp
      have rk: "inbox_key r = k" using locked_row_key [OF assms] by simp
      show ?thesis
      proof (cases "k = rq_key q")
        case False
        with l rk e show ?thesis by simp
      next
        case same: True
        with Some assms have "y = r" by simp
        with True same rk have "takes_over q a r" by (simp add: takes_over_def)
        with l rk e same show ?thesis by simp
      qed
    qed
  qed
qed

lemma claim_loop_ok: "table_ok inbox_schema t \<Longrightarrow> table_ok inbox_schema (snd (claim_loop lease q as t))"
proof (induction as arbitrary: t)
  case (Cons a as)
  have "table_ok inbox_schema (snd (claim_attempt lease q a t))" using Cons.prems by (rule claim_attempt_ok)
  with Cons.IH show ?case by (auto split: prod.split sum.split option.split)
qed simp

lemma claim_loop_row:
  assumes "locked_row t k = Some r"
  shows "locked_row (snd (claim_loop lease q as t)) k = Some r \<or>
    (\<exists>a\<in>set as. rq_key q = k \<and> takes_over q a r
      \<and> locked_row (snd (claim_loop lease q as t)) k = Some (reclaimed a (database_now a + lease) r))"
  using assms
proof (induction as arbitrary: t)
  case (Cons a as)
  obtain res t' where c: "claim_attempt lease q a t = (res, t')" by (cases "claim_attempt lease q a t")
  from claim_attempt_row [OF Cons.prems, of lease q a] c
  consider "locked_row t' k = Some r"
    | "rq_key q = k" "takes_over q a r" "res = Inr (Some (claimed_by (fresh_token a)))"
      "locked_row t' k = Some (reclaimed a (database_now a + lease) r)" by auto
  then show ?case
  proof cases
    case 1
    from Cons.IH [OF this] 1 c show ?thesis by (auto split: sum.split option.split)
  next
    case 2
    with c show ?thesis by auto
  qed
qed simp

lemma fenced_update_row:
  assumes "locked_row t j = Some r" and "\<And>x. inbox_key (f x) = inbox_key x"
  shows "locked_row (snd (fenced_update k tok f lost t)) j = Some r
    \<or> (holds_claim k tok r \<and> locked_row (snd (fenced_update k tok f lost t)) j = Some (f r))"
proof (cases "update_where inbox_schema (holds_claim k tok) f t")
  case (Inr p)
  obtain t' n where p: "p = (t', n)" by (cases p)
  from update_row [OF Inr [unfolded p] assms(2), of j] assms(1) Inr p show ?thesis
    by (auto simp: fenced_update_def split: if_splits)
qed (use assms in \<open>simp add: fenced_update_def\<close>)

lemma fenced_update_ok: "table_ok inbox_schema t \<Longrightarrow> table_ok inbox_schema (snd (fenced_update k tok f lost t))"
  by (auto simp: fenced_update_def split: sum.splits elim: update_where_ok)

lemma exec_ok: "table_ok inbox_schema t \<Longrightarrow> table_ok inbox_schema (exec_inbox_op lease x t)"
  by (cases x) (auto simp: claim_def complete_def fail_def fenced_update_ok split: sum.splits
      intro!: claim_loop_ok simp del: claim_loop.simps)

lemma run_inbox_ok: "table_ok inbox_schema t \<Longrightarrow> table_ok inbox_schema (run_inbox lease xs t)"
  by (induction xs arbitrary: t) (simp_all add: exec_ok)

lemma exec_row:
  assumes "locked_row t k = Some r"
  shows "\<exists>r'. locked_row (exec_inbox_op lease x t) k = Some r' \<and> row_change lease x r r'"
proof (cases x)
  case (ClaimOp q env)
  show ?thesis
    using claim_loop_row [OF assms, of lease q "[fst env, snd env]"] ClaimOp assms locked_row_key [OF assms]
    by (auto simp: claim_def row_change_def simp del: claim_loop.simps split: sum.splits)
next
  case (CompleteOp j tok now)
  with fenced_update_row [OF assms, of "completed now" j tok] show ?thesis
    by (fastforce simp: complete_def row_change_def)
next
  case (FailOp j tok e)
  with fenced_update_row [OF assms, of "failed e" j tok] show ?thesis
    by (fastforce simp: fail_def row_change_def)
qed

text \<open>Induction over operations for a predicate on the row of a key.\<close>

lemma run_row_induct:
  assumes "locked_row t k = Some r" and "P r"
    and "\<And>x r r'. x \<in> set xs \<Longrightarrow> P r \<Longrightarrow> inbox_key r = k \<Longrightarrow> row_change lease x r r' \<Longrightarrow> P r'"
  shows "\<exists>r'. locked_row (run_inbox lease xs t) k = Some r' \<and> P r'"
  using assms
proof (induction xs arbitrary: t r)
  case (Cons x xs)
  obtain r' where r': "locked_row (exec_inbox_op lease x t) k = Some r'" "row_change lease x r r'"
    using exec_row [OF Cons.prems(1)] by blast
  have "P r'"
    using Cons.prems(3) [of x r r'] Cons.prems(1,2) r'(2) locked_row_key [OF Cons.prems(1)] by simp
  show ?case unfolding run_inbox.simps
    by (rule Cons.IH [OF r'(1) \<open>P r'\<close>]) (rule Cons.prems(3), simp_all)
qed auto

section \<open>What a successful claim leaves\<close>

definition held :: "string \<Rightarrow> instant \<Rightarrow> inbox_row \<Rightarrow> bool" where
  "held tok until r \<longleftrightarrow> ib_status r = ''processing'' \<and> ib_claim_token r = Some tok
     \<and> ib_lease_until r = Some until \<and> ib_processed_at r = None"

lemma held_writes [simp]:
  "held tok u (new_inbox_row q a v) \<longleftrightarrow> tok = fresh_token a \<and> u = v"
  "ib_processed_at r = None \<Longrightarrow> held tok u (reclaimed a v r) \<longleftrightarrow> tok = fresh_token a \<and> u = v"
  by (auto simp: held_def new_inbox_row_def reclaimed_def)

lemma same_delivery_writes [simp]:
  "same_delivery q (new_inbox_row q a v)" "same_delivery q (reclaimed a v r) = same_delivery q r"
  "same_delivery q (completed now r) = same_delivery q r" "same_delivery q (failed e r) = same_delivery q r"
  by (simp_all add: same_delivery_def new_inbox_row_def reclaimed_def completed_def failed_def)

lemma claim_attempt_claimed:
  assumes ok: "table_ok inbox_schema t"
    and c: "claim_attempt lease q a t = (Inr (Some \<lparr>claim_status = CLAIMED, claim_token = tk\<rparr>), t')"
  shows "tk = Some (fresh_token a)
    \<and> (\<exists>r. locked_row t' (rq_key q) = Some r \<and> held (fresh_token a) (database_now a + lease) r
        \<and> same_delivery q r)"
proof (cases "locked_row t (rq_key q)")
  case None
  with c obtain t1 where t1: "t1 = rival_commits (rival a) t"
    and e: "end_attempt t1 (claimed_by (fresh_token a))
       (insert_row inbox_schema (new_inbox_row q a (database_now a + lease)) t1)
       = (Inr (Some \<lparr>claim_status = CLAIMED, claim_token = tk\<rparr>), t')"
    by (auto simp: claim_attempt_def Let_def lease_end_def split: if_splits)
  from e have tk: "tk = Some (fresh_token a)"
    and ins: "insert_row inbox_schema (new_inbox_row q a (database_now a + lease)) t1 = Inr t'"
    by (auto simp: end_attempt_def split: sum.splits sql_error.splits)
  have "table_ok inbox_schema t'" using insert_row_ok [OF _ ins] rival_ok [OF ok] t1 by simp
  then have "locked_row t' (rq_key q) = Some (new_inbox_row q a (database_now a + lease))"
    using ins by (subst locked_row_iff) (auto simp: insert_row_Inr)
  with tk show ?thesis by simp
next
  case (Some y)
  from c Some obtain p where
    p: "update_where inbox_schema (\<lambda>x. inbox_key x = rq_key q) (reclaimed a (database_now a + lease)) t = Inr p"
    "tk = Some (fresh_token a)" "t' = fst p" "ib_processed_at y = None" "same_delivery q y"
    by (auto simp: claim_attempt_def end_attempt_def lease_end_def rbind_def
        split: if_splits sum.splits sql_error.splits prod.splits)
  obtain t2 n where "p = (t2, n)" by (cases p)
  with p show ?thesis
    using update_row [of "\<lambda>x. inbox_key x = rq_key q" "reclaimed a (database_now a + lease)" t t2 n "rq_key q"]
      Some locked_row_key [OF Some] by simp
qed

lemma claim_claimed:
  assumes ok: "table_ok inbox_schema t"
    and "claim lease q env t = (Inr \<lparr>claim_status = CLAIMED, claim_token = tk\<rparr>, t')"
  obtains a r where "a \<in> {fst env, snd env}" "tk = Some (fresh_token a)"
    "locked_row t' (rq_key q) = Some r" "held (fresh_token a) (database_now a + lease) r"
    "same_delivery q r" "validate_claim q = Inr ()" "table_ok inbox_schema t'"
proof -
  have loop: "\<exists>a\<in>set as. tk = Some (fresh_token a)
      \<and> (\<exists>r. locked_row t' (rq_key q) = Some r \<and> held (fresh_token a) (database_now a + lease) r
        \<and> same_delivery q r)"
    if "table_ok inbox_schema s" and "claim_loop lease q as s = (Inr \<lparr>claim_status = CLAIMED, claim_token = tk\<rparr>, t')"
    for as s
    using that
  proof (induction as arbitrary: s)
    case (Cons a as)
    obtain res s' where c: "claim_attempt lease q a s = (res, s')" by (cases "claim_attempt lease q a s")
    have "table_ok inbox_schema s'" using claim_attempt_ok [OF Cons.prems(1), of lease q a] c by simp
    with Cons.IH Cons.prems(2) c claim_attempt_claimed [OF Cons.prems(1), of lease q a tk t'] show ?case
      by (cases res; cases "projr res") auto
  qed simp
  from assms(2) have l: "claim_loop lease q [fst env, snd env] t = (Inr \<lparr>claim_status = CLAIMED, claim_token = tk\<rparr>, t')"
    and v: "validate_claim q = Inr ()"
    by (simp_all add: claim_def del: claim_loop.simps split: sum.splits)
  have "table_ok inbox_schema t'" using claim_loop_ok [OF ok, of lease q "[fst env, snd env]"] l by simp
  with loop [OF ok l] v that show thesis by auto
qed

section \<open>Guarantees\<close>

lemma fenced_update_lost:
  assumes "table_ok inbox_schema t" and "\<And>x. inbox_key (f x) = inbox_key x"
    and "\<And>r. locked_row t k = Some r \<Longrightarrow> \<not> holds_claim k tok r"
  shows "fenced_update k tok f lost t = (Inl lost, t)"
proof -
  have none: "filter (holds_claim k tok) t = []" using assms(1,3) by (rule no_holder)
  have "update_where inbox_schema (holds_claim k tok) f t
      = Inr (map (\<lambda>r. if holds_claim k tok r then f r else r) t, length (filter (holds_claim k tok) t))"
    using assms(1,2) none by (intro update_succeeds) (auto simp: filter_empty_conv)
  with none show ?thesis by (simp add: fenced_update_def)
qed

lemma fenced_update_held:
  assumes "table_ok inbox_schema t" and "\<And>x. inbox_key (f x) = inbox_key x"
    and "locked_row t k = Some r" and "holds_claim k tok r"
    and "\<And>x. row_error inbox_schema x = None \<Longrightarrow> ib_processed_at x = None \<Longrightarrow> row_error inbox_schema (f x) = None"
  shows "fst (fenced_update k tok f lost t) = Inr ()
    \<and> locked_row (snd (fenced_update k tok f lost t)) k = Some (f r)"
proof -
  have u: "update_where inbox_schema (holds_claim k tok) f t
      = Inr (map (\<lambda>r. if holds_claim k tok r then f r else r) t, length (filter (holds_claim k tok) t))"
    using assms(1,2,5) by (intro update_succeeds) (auto simp: table_ok_def holds_claim_def)
  with update_row [OF u assms(2), of k] holder_unique [OF assms(1,3,4)] assms(3,4) show ?thesis
    by (simp add: fenced_update_def)
qed

lemma claim_of_processed:
  assumes "locked_row t (rq_key q) = Some r" and "ib_processed_at r \<noteq> None"
  shows "claim lease q env t = (case validate_claim q of Inl e \<Rightarrow> (Inl e, t)
     | Inr _ \<Rightarrow> (if same_delivery q r then (Inr claim_processed, t) else (Inl (collision q), t)))"
  using assms by (auto simp: claim_def claim_attempt_def split: sum.splits)

lemma processed_row_final:
  assumes "locked_row t k = Some r" and "ib_processed_at r \<noteq> None"
  shows "locked_row (run_inbox lease xs t) k = Some r"
proof -
  have "\<exists>r'. locked_row (run_inbox lease xs t) k = Some r' \<and> r' = r"
  proof (rule run_row_induct [OF assms(1)])
    fix x y r' assume "y = r" "row_change lease x y r'"
    with assms(2) show "r' = r"
      by (auto simp: row_change_def takes_over_def holds_claim_def split: inbox_op.splits)
  qed simp
  then show ?thesis by simp
qed

lemma claim_of_new:
  assumes "table_ok inbox_schema t" and "locked_row t (rq_key q) = None" and "validate_claim q = Inr ()"
    and "1 \<le> rq_contract_version q" and "int4 (rq_contract_version q)"
    and "rival a = None" and "in_range (database_now a + lease)"
  shows "claim lease q (a, b) t
    = (Inr (claimed_by (fresh_token a)), t @ [new_inbox_row q a (database_now a + lease)])"
proof -
  let ?r = "new_inbox_row q a (database_now a + lease)"
  have "row_error inbox_schema ?r = None" using assms(3-5) by (rule new_row_valid)
  moreover have "index_error inbox_schema (t @ [?r]) = None"
  proof -
    have "\<forall>x\<in>set t. [ib_event_id x, ib_handler_name x] \<noteq> [rq_event_id q, rq_handler_name q]"
      using assms(2) by (auto simp: locked_row_def find_None_iff)
    with assms(1) show ?thesis
      by (auto simp: table_ok_def index_error_None inbox_schema_def map_filter_Some new_inbox_row_def)
  qed
  ultimately have "insert_row inbox_schema ?r t = Inr (t @ [?r])" by (simp add: insert_row_Inr)
  with assms show ?thesis
    by (simp add: claim_def claim_attempt_def lease_end_def rival_commits_def end_attempt_def)
qed

definition op_clocks :: "inbox_op \<Rightarrow> instant set" where
  "op_clocks x = (case x of ClaimOp q env \<Rightarrow> {database_now (fst env), database_now (snd env)} | _ \<Rightarrow> {})"

definition op_tokens :: "inbox_op \<Rightarrow> string set" where
  "op_tokens x = (case x of ClaimOp q env \<Rightarrow> {fresh_token (fst env), fresh_token (snd env)}
     | CompleteOp k tok now \<Rightarrow> {tok} | FailOp k tok e \<Rightarrow> {tok})"

definition new_tokens :: "inbox_op \<Rightarrow> string set" where
  "new_tokens x = (case x of ClaimOp q env \<Rightarrow> {fresh_token (fst env), fresh_token (snd env)} | _ \<Rightarrow> {})"

lemma complete_Inr:
  assumes "table_ok inbox_schema t" and "complete k tok now t = (Inr (), t')"
  obtains r where "locked_row t k = Some r" "holds_claim k tok r" "locked_row t' k = Some (completed now r)"
proof (cases "\<exists>r. locked_row t k = Some r \<and> holds_claim k tok r")
  case True
  then obtain r where r: "locked_row t k = Some r" "holds_claim k tok r" by blast
  have "locked_row (snd (complete k tok now t)) k = Some (completed now r)"
    unfolding complete_def
    by (rule fenced_update_held [OF assms(1) _ r, THEN conjunct2]) (simp_all only: write_keys completed_valid)
  then have "locked_row t' k = Some (completed now r)" using assms(2) by simp
  with r that show thesis by blast
next
  case False
  with fenced_update_lost [OF assms(1), of "completed now" k tok] assms(2) show thesis
    by (auto simp: complete_def)
qed

definition sample_sha :: string where
  "sample_sha = ''0123456789abcdef0123456789abcdef0123456789abcdef0123456789abcdef''"

definition sample_request :: claim_request where
  "sample_request = \<lparr>rq_event_id = ''evt-1'', rq_handler_name = ''mailer'', rq_contract_name = ''library.catalog.book-added'',
     rq_contract_version = 1, rq_payload_hash = sample_sha, rq_correlation_id = Some ''evt-1'', rq_causation_id = None\<rparr>"

definition sample_attempt :: "string \<Rightarrow> instant \<Rightarrow> attempt" where
  "sample_attempt tok now = \<lparr>fresh_token = tok, database_now = now, rival = None\<rparr>"

definition sample_row :: "string \<Rightarrow> instant \<Rightarrow> inbox_row" where
  "sample_row tok until = new_inbox_row sample_request (sample_attempt tok 0) until"

lemmas inbox_eval = sample_request_def sample_attempt_def sample_row_def sample_sha_def
  validate_claim_def validate_delivery_identity_def delivery_identity_ident is_sha256_def
  claim_def claim_attempt_def end_attempt_def lease_end_def in_range_def min_instant_def max_instant_def
  rival_commits_def insert_row_def row_error_def index_error_def first_violation_def inbox_schema_def
  inbox_types_def inbox_checks_def inbox_status_fields_def new_inbox_row_def locked_row_def
  null_or_def int4_def map_filter_simps

lemma sample_request_valid: "validate_claim sample_request = Inr ()"
  by code_simp

lemma sample_row_ok: "table_ok inbox_schema [sample_row tok until]"
  using new_row_valid [OF sample_request_valid, of "sample_attempt tok 0" until]
  by (simp add: table_ok_def sample_row_def sample_request_def int4_def index_error_None inbox_schema_def map_filter_simps)

text \<open>
  C18: Once a consumer has recorded that a handler processed an event, no sequence of claims,
  completions and failures by any consumers makes the inbox hand the event to that handler
  again: every later claim is answered PROCESSED, or refused when its arguments are invalid or
  its contract, payload or trace metadata differs from what was recorded.
\<close>

theorem processed_event_is_final:
  assumes "table_ok inbox_schema t" and "complete (rq_key q) tok now t = (Inr (), t')"
  shows "\<exists>r. locked_row t (rq_key q) = Some r \<and>
    claim lease q env (run_inbox lease xs t') =
      (case validate_claim q of Inl e \<Rightarrow> Inl e
       | Inr _ \<Rightarrow> (if same_delivery q r then Inr claim_processed else Inl (collision q)), run_inbox lease xs t')"
proof -
  from complete_Inr [OF assms] obtain r where
    r: "locked_row t (rq_key q) = Some r" "locked_row t' (rq_key q) = Some (completed now r)" .
  have "ib_processed_at (completed now r) \<noteq> None" by (simp add: completed_def)
  with r claim_of_processed [OF processed_row_final [OF r(2)], of lease env lease xs] show ?thesis
    by (auto split: sum.splits)
qed

theorem processed_event_is_final_witness:
  "claim 300 sample_request (sample_attempt ''c'' 900, sample_attempt ''d'' 901)
     (run_inbox 300 [ClaimOp sample_request (sample_attempt ''b'' 500, sample_attempt ''b'' 501)]
       (snd (complete (rq_key sample_request) ''a'' 7 [sample_row ''a'' 300])))
   = (Inr claim_processed, run_inbox 300 [ClaimOp sample_request (sample_attempt ''b'' 500, sample_attempt ''b'' 501)]
       (snd (complete (rq_key sample_request) ''a'' 7 [sample_row ''a'' 300])))"
proof -
  have row: "locked_row [sample_row ''a'' 300] (rq_key sample_request) = Some (sample_row ''a'' 300)"
    by (simp add: locked_row_def sample_row_def new_inbox_row_def)
  have h: "holds_claim (rq_key sample_request) ''a'' (sample_row ''a'' 300)"
    by (simp add: holds_claim_def sample_row_def new_inbox_row_def sample_attempt_def)
  have "fst (complete (rq_key sample_request) ''a'' 7 [sample_row ''a'' 300]) = Inr ()"
    unfolding complete_def
    by (rule fenced_update_held [OF sample_row_ok _ row h, THEN conjunct1]) (simp_all only: write_keys completed_valid)
  then have "complete (rq_key sample_request) ''a'' 7 [sample_row ''a'' 300]
      = (Inr (), snd (complete (rq_key sample_request) ''a'' 7 [sample_row ''a'' 300]))"
    by (simp add: prod_eq_iff)
  from processed_event_is_final [OF sample_row_ok this, of 300 "(sample_attempt ''c'' 900, sample_attempt ''d'' 901)"
      "[ClaimOp sample_request (sample_attempt ''b'' 500, sample_attempt ''b'' 501)]"]
  show ?thesis using row
    by (simp only: sample_request_valid) (auto simp: same_delivery_def sample_row_def new_inbox_row_def)
qed

text \<open>
  C32: A claim is exclusive while its lease runs: after a consumer got CLAIMED, whatever
  claims other consumers attempt before the lease ends on the database clock, and whatever they
  complete or fail with tokens of their own, the holder's completion is still accepted.
\<close>

theorem lease_protects_holder:
  assumes "table_ok inbox_schema t"
    and "claim lease q env t = (Inr \<lparr>claim_status = CLAIMED, claim_token = Some tok\<rparr>, t')"
    and "list_all (\<lambda>x. tok \<notin> op_tokens x
      \<and> (\<forall>now\<in>op_clocks x. now < min (database_now (fst env)) (database_now (snd env)) + lease)) xs"
  shows "fst (complete (rq_key q) tok now (run_inbox lease xs t')) = Inr ()"
proof -
  from claim_claimed [OF assms(1,2)] obtain a r where
    a: "a \<in> {fst env, snd env}" "tok = fresh_token a" and r: "locked_row t' (rq_key q) = Some r"
    and held: "held (fresh_token a) (database_now a + lease) r" and "same_delivery q r"
    and "validate_claim q = Inr ()" and ok: "table_ok inbox_schema t'"
    by auto
  let ?u = "database_now a + lease"
  have "\<exists>r'. locked_row (run_inbox lease xs t') (rq_key q) = Some r' \<and> held tok ?u r'"
  proof (rule run_row_induct [OF r])
    fix x y r' assume x: "x \<in> set xs" "held tok ?u y" "row_change lease x y r'"
    have "min (database_now (fst env)) (database_now (snd env)) + lease \<le> ?u" using a(1) by auto
    moreover have "tok \<notin> op_tokens x"
      "\<forall>now\<in>op_clocks x. now < min (database_now (fst env)) (database_now (snd env)) + lease"
      using assms(3) x(1) by (simp_all add: list_all_iff)
    ultimately have clocks: "tok \<notin> op_tokens x" "\<forall>now\<in>op_clocks x. now < ?u"
      by (auto intro: less_le_trans)
    have "r' = y"
    proof (cases x)
      case (ClaimOp p e)
      with clocks(2) have "database_now (fst e) < ?u" "database_now (snd e) < ?u"
        by (simp_all add: op_clocks_def)
      then show ?thesis using x(2,3) ClaimOp
        by (auto simp: row_change_def takes_over_def held_def is_future_def)
    qed (use x(2,3) clocks(1) in \<open>auto simp: row_change_def holds_claim_def held_def op_tokens_def\<close>)
    with x(2) show "held tok ?u r'" by simp
  qed (use held a(2) in simp)
  then obtain r' where r': "locked_row (run_inbox lease xs t') (rq_key q) = Some r'" "held tok ?u r'" by blast
  have h: "holds_claim (rq_key q) tok r'"
    using r' locked_row_key [OF r'(1)] by (simp add: holds_claim_def held_def)
  show ?thesis unfolding complete_def
    by (rule fenced_update_held [OF run_inbox_ok [OF ok] _ r'(1) h, THEN conjunct1])
       (simp_all only: write_keys completed_valid)
qed

text \<open>
  C17: A consumer whose lease ran out is fenced off: after another consumer was granted the
  same handler's claim, the earlier token (which is never issued again) can neither complete
  nor fail the message, and trying to changes nothing.
\<close>

theorem lost_claim_is_fenced:
  assumes "table_ok inbox_schema t"
    and "claim lease q env t = (Inr \<lparr>claim_status = CLAIMED, claim_token = Some newer\<rparr>, t')"
    and "newer \<noteq> tok" and "list_all (\<lambda>x. tok \<notin> new_tokens x) xs"
  shows "complete (rq_key q) tok now (run_inbox lease xs t') =
      (Inl (RuntimeError (''Inbox claim was lost before completion: '' @ rq_event_id q @ ''/'' @ rq_handler_name q)),
       run_inbox lease xs t')
    \<and> fail (rq_key q) tok error_text (run_inbox lease xs t') =
      (Inl (RuntimeError (''Inbox claim was lost before failure was recorded: '' @ rq_event_id q @ ''/''
         @ rq_handler_name q)), run_inbox lease xs t')"
proof -
  from claim_claimed [OF assms(1,2)] obtain a r where
    "a \<in> {fst env, snd env}" "newer = fresh_token a" and r': "locked_row t' (rq_key q) = Some r"
    and "held (fresh_token a) (database_now a + lease) r" and "same_delivery q r"
    and "validate_claim q = Inr ()" and ok: "table_ok inbox_schema t'"
    by auto
  then have r: "locked_row t' (rq_key q) = Some r" "held newer (database_now a + lease) r" by simp_all
  have "\<exists>r'. locked_row (run_inbox lease xs t') (rq_key q) = Some r' \<and> ib_claim_token r' \<noteq> Some tok"
  proof (rule run_row_induct [OF r(1)])
    show "ib_claim_token r \<noteq> Some tok" using r(2) assms(3) by (simp add: held_def)
  next
    fix x y r' assume x: "x \<in> set xs" "ib_claim_token y \<noteq> Some tok" "row_change lease x y r'"
    have "tok \<notin> new_tokens x" using assms(4) x(1) by (simp add: list_all_iff)
    with x(2,3) show "ib_claim_token r' \<noteq> Some tok"
      by (auto simp: row_change_def new_tokens_def reclaimed_def completed_def failed_def split: inbox_op.splits)
  qed
  then have lost: "\<not> holds_claim (rq_key q) tok r'" if "locked_row (run_inbox lease xs t') (rq_key q) = Some r'" for r'
    using that by (auto simp: holds_claim_def)
  show ?thesis unfolding complete_def fail_def
    using fenced_update_lost [OF run_inbox_ok [OF ok] _ lost, of "completed now"]
      fenced_update_lost [OF run_inbox_ok [OF ok] _ lost, of "failed error_text"]
    by simp
qed

lemma empty_inbox_ok: "table_ok inbox_schema []"
  by (simp add: table_ok_def index_error_None inbox_schema_def map_filter_simps)

lemma sample_granted:
  "claim 300 sample_request (sample_attempt ''a'' 10, sample_attempt ''b'' 11) []
    = (Inr (claimed_by ''a''), [new_inbox_row sample_request (sample_attempt ''a'' 10) 310])"
proof -
  have "rq_contract_version sample_request = 1" by (simp add: sample_request_def)
  with claim_of_new [OF empty_inbox_ok _ sample_request_valid, of "sample_attempt ''a'' 10" 300 "sample_attempt ''b'' 11"]
  show ?thesis
    by (simp add: locked_row_def int4_def sample_attempt_def in_range_def min_instant_def max_instant_def)
qed

theorem lease_protects_holder_witness:
  "fst (complete (rq_key sample_request) ''a'' 40
     (run_inbox 300 [ClaimOp sample_request (sample_attempt ''c'' 20, sample_attempt ''d'' 309),
        FailOp (rq_key sample_request) ''c'' ''boom''] [new_inbox_row sample_request (sample_attempt ''a'' 10) 310]))
   = Inr ()"
  by (rule lease_protects_holder [OF empty_inbox_ok sample_granted])
     (simp add: op_tokens_def op_clocks_def sample_attempt_def)

theorem lost_claim_is_fenced_witness:
  "complete (rq_key sample_request) ''z'' 40
     (run_inbox 300 [FailOp (rq_key sample_request) ''a'' ''boom''] [new_inbox_row sample_request (sample_attempt ''a'' 10) 310])
   = (Inl (RuntimeError (''Inbox claim was lost before completion: '' @ rq_event_id sample_request @ ''/''
        @ rq_handler_name sample_request)),
      run_inbox 300 [FailOp (rq_key sample_request) ''a'' ''boom''] [new_inbox_row sample_request (sample_attempt ''a'' 10) 310])"
  by (rule lost_claim_is_fenced [OF empty_inbox_ok sample_granted, THEN conjunct1]) (simp_all add: new_tokens_def)

end
