(* ===== verification/Dispatcher.thy ===== *)
theory Dispatcher
  imports InboxProps Samples
begin

text \<open>
  \<open>EventDispatcher\<close> (\<open>src/infrastructure/adapters/events/event_dispatcher.py\<close>). A handler is a
  function of the surroundings, the event and the state \<open>'w\<close> its side effects live in, which
  may raise; the inbox is a record of the three operations of the protocol \<open>HandlerInbox\<close>, on a
  state of its own. \<open>deliver_one\<close> is the body of the inner loop, \<open>deliver_all\<close> the loop.

  The locale \<open>handler_inbox\<close> states what the dispatcher relies on; its client lemmas say that a
  dispatch that does not raise has recorded every handler, and that a recorded handler is not
  invoked again. \<open>sql_inbox\<close> is the instance with the SQL inbox, other consumers included.
\<close>

section \<open>Event classes\<close>

datatype event_class =
    BookAddedToCatalogC | BookRemovedFromCatalogC | CatalogBookReservedC | CatalogBookBorrowedC
  | CatalogBookReleasedC | CatalogBookReturnedC | LoanCreatedC | LoanCompletedC | LoanCancelledC
  | BookOverdueC | LoanExtendedC | PatronRegisteredC | PatronSuspendedC | PatronReinstatedC

fun class_of :: "event_data \<Rightarrow> event_class" where
  "class_of (CatalogEvent (BookAddedToCatalog _ _ _)) = BookAddedToCatalogC"
| "class_of (CatalogEvent (BookRemovedFromCatalog _)) = BookRemovedFromCatalogC"
| "class_of (CatalogEvent (CatalogBookReserved _ _ _ _ _ _ _)) = CatalogBookReservedC"
| "class_of (CatalogEvent (CatalogBookBorrowed _ _ _ _ _ _ _ _ _)) = CatalogBookBorrowedC"
| "class_of (CatalogEvent (CatalogBookReleased _ _ _ _ _)) = CatalogBookReleasedC"
| "class_of (CatalogEvent (CatalogBookReturned _ _ _ _ _)) = CatalogBookReturnedC"
| "class_of (LendingEvent (LoanCreated _ _ _ _ _ _ _ _ _)) = LoanCreatedC"
| "class_of (LendingEvent (LoanCompleted _ _ _ _ _ _ _)) = LoanCompletedC"
| "class_of (LendingEvent (LoanCancelled _ _ _ _ _ _)) = LoanCancelledC"
| "class_of (LendingEvent (BookOverdue _ _ _ _ _ _ _)) = BookOverdueC"
| "class_of (LendingEvent (LoanExtended _ _ _ _ _)) = LoanExtendedC"
| "class_of (PatronEvent (PatronRegistered _ _ _ _)) = PatronRegisteredC"
| "class_of (PatronEvent (PatronSuspended _ _)) = PatronSuspendedC"
| "class_of (PatronEvent (PatronReinstated _)) = PatronReinstatedC"

fun class_name :: "event_class \<Rightarrow> string" where
  "class_name BookAddedToCatalogC = ''BookAddedToCatalog''"
| "class_name BookRemovedFromCatalogC = ''BookRemovedFromCatalog''"
| "class_name CatalogBookReservedC = ''CatalogBookReserved''"
| "class_name CatalogBookBorrowedC = ''CatalogBookBorrowed''"
| "class_name CatalogBookReleasedC = ''CatalogBookReleased''"
| "class_name CatalogBookReturnedC = ''CatalogBookReturned''"
| "class_name LoanCreatedC = ''LoanCreated''"
| "class_name LoanCompletedC = ''LoanCompleted''"
| "class_name LoanCancelledC = ''LoanCancelled''"
| "class_name BookOverdueC = ''BookOverdue''"
| "class_name LoanExtendedC = ''LoanExtended''"
| "class_name PatronRegisteredC = ''PatronRegistered''"
| "class_name PatronSuspendedC = ''PatronSuspended''"
| "class_name PatronReinstatedC = ''PatronReinstated''"

definition event_type :: "domain_event \<Rightarrow> string" where
  "event_type ev = class_name (class_of (event_data ev))"

text \<open>\<open>isinstance(event, subscribed_type)\<close>; \<open>None\<close> is the base class \<open>DomainEvent\<close>.\<close>

definition is_instance :: "domain_event \<Rightarrow> event_class option \<Rightarrow> bool" where
  "is_instance ev subscribed = (case subscribed of None \<Rightarrow> True | Some c \<Rightarrow> class_of (event_data ev) = c)"

section \<open>Handlers and the inbox protocol\<close>

record 'w event_handler =
  inbox_consumer_name :: "string option"
  type_path :: string
  handle :: "ambient \<Rightarrow> domain_event \<Rightarrow> 'w \<Rightarrow> infra_exn option \<times> 'w"

datatype 'w registration =
    HandlerInstance "'w event_handler"
  | HandlerProvider "'w event_handler option"
  | NotAHandler

record 's inbox_protocol =
  claim_op :: "claim_request \<Rightarrow> 's \<Rightarrow> (infra_exn + inbox_claim) \<times> 's"
  complete_op :: "string \<times> string \<Rightarrow> string \<Rightarrow> 's \<Rightarrow> (infra_exn + unit) \<times> 's"
  fail_op :: "string \<times> string \<Rightarrow> string \<Rightarrow> infra_exn \<Rightarrow> 's \<Rightarrow> (infra_exn + unit) \<times> 's"

record event_delivery_identity =
  di_contract_name :: string
  di_contract_version :: int
  di_payload_hash :: string

definition handler_name :: "'w event_handler \<Rightarrow> string" where
  "handler_name h = (case inbox_consumer_name h of
     Some n \<Rightarrow> (if py_strip n \<noteq> [] then n else type_path h) | None \<Rightarrow> type_path h)"

definition resolve_handler :: "'w registration \<Rightarrow> infra_exn + 'w event_handler" where
  "resolve_handler r = (case r of
     HandlerInstance h \<Rightarrow> Inr h
   | HandlerProvider (Some h) \<Rightarrow> Inr h
   | _ \<Rightarrow> Inl (TypeError ''Event subscription must resolve to an event handler''))"

type_synonym 'w subscriptions = "(event_class option \<times> 'w registration list) list"

definition subscribe :: "event_class option \<Rightarrow> 'w registration \<Rightarrow> 'w subscriptions \<Rightarrow> 'w subscriptions" where
  "subscribe c r subs =
     (if c \<in> fst ` set subs then map (\<lambda>(d, rs). (d, if d = c then rs @ [r] else rs)) subs
      else subs @ [(c, [r])])"

section \<open>Dispatch\<close>

definition claim_request_of :: "domain_event \<Rightarrow> event_delivery_identity \<Rightarrow> string \<Rightarrow> claim_request" where
  "claim_request_of ev ident name =
     \<lparr>rq_event_id = event_id ev, rq_handler_name = name, rq_contract_name = di_contract_name ident,
      rq_contract_version = di_contract_version ident, rq_payload_hash = di_payload_hash ident,
      rq_correlation_id = correlation_id ev, rq_causation_id = causation_id ev\<rparr>"

text \<open>The invocation of a handler whose claim (if there is an inbox) was granted.\<close>

definition invoke ::
  "('s inbox_protocol \<times> string) option \<Rightarrow> ambient \<Rightarrow> domain_event \<Rightarrow> 'w event_handler \<Rightarrow> 's \<times> 'w
     \<Rightarrow> infra_exn list \<times> 's \<times> 'w" where
  "invoke granted amb ev h st =
     (case handle h (caused_by ev amb) ev (snd st) of
        (Some e, w) \<Rightarrow>
          (case granted of
             None \<Rightarrow> ([e], fst st, w)
           | Some (ib, tok) \<Rightarrow>
               (case fail_op ib (event_id ev, handler_name h) tok e (fst st) of
                  (Inl inbox_error, s) \<Rightarrow> ([e, inbox_error], s, w)
                | (Inr _, s) \<Rightarrow> ([e], s, w)))
      | (None, w) \<Rightarrow>
          (case granted of
             None \<Rightarrow> ([], fst st, w)
           | Some (ib, tok) \<Rightarrow>
               (case complete_op ib (event_id ev, handler_name h) tok (fst st) of
                  (Inl completion_error, s) \<Rightarrow> ([completion_error], s, w)
                | (Inr _, s) \<Rightarrow> ([], s, w))))"

definition deliver_one ::
  "'s inbox_protocol option \<Rightarrow> infra_exn + event_delivery_identity \<Rightarrow> ambient \<Rightarrow> domain_event
     \<Rightarrow> 'w event_handler \<Rightarrow> 's \<times> 'w \<Rightarrow> infra_exn list \<times> 's \<times> 'w" where
  "deliver_one inbox identity amb ev h st =
     (case inbox of
        None \<Rightarrow> invoke None amb ev h st
      | Some ib \<Rightarrow>
          (case identity of
             Inl e \<Rightarrow> ([e], st)
           | Inr ident \<Rightarrow>
               (case claim_op ib (claim_request_of ev ident (handler_name h)) (fst st) of
                  (Inl e, s) \<Rightarrow> ([e], s, snd st)
                | (Inr c, s) \<Rightarrow>
                    (case claim_status c of
                       PROCESSED \<Rightarrow> ([], s, snd st)
                     | BUSY \<Rightarrow> ([RuntimeError (''Event '' @ event_id ev @ '' is already leased by '' @ handler_name h)],
                                s, snd st)
                     | CLAIMED \<Rightarrow>
                         (case claim_token c of
                            Some (t # ts) \<Rightarrow> invoke (Some (ib, t # ts)) amb ev h (s, snd st)
                          | _ \<Rightarrow> ([RuntimeError (''Inbox returned a claimed event without a fencing token for ''
                                    @ event_id ev @ ''/'' @ handler_name h)], s, snd st))))))"

fun deliver_all ::
  "'s inbox_protocol option \<Rightarrow> infra_exn + event_delivery_identity \<Rightarrow> ambient \<Rightarrow> domain_event
     \<Rightarrow> 'w registration list \<Rightarrow> infra_exn list \<Rightarrow> 's \<times> 'w \<Rightarrow> (infra_exn + infra_exn list) \<times> 's \<times> 'w" where
  "deliver_all inbox identity amb ev [] failures st = (Inr failures, st)"
| "deliver_all inbox identity amb ev (r # rs) failures st =
     (case resolve_handler r of
        Inl e \<Rightarrow> (Inl e, st)
      | Inr h \<Rightarrow>
          (let (fs, st') = deliver_one inbox identity amb ev h st
           in deliver_all inbox identity amb ev rs (failures @ fs) st'))"

definition matching :: "'w subscriptions \<Rightarrow> domain_event \<Rightarrow> 'w registration list" where
  "matching subs ev = concat (map snd (filter (\<lambda>(c, _). is_instance ev c) subs))"

definition dispatch_failed :: "domain_event \<Rightarrow> infra_exn list \<Rightarrow> infra_exn" where
  "dispatch_failed ev failures = EventDispatcherException
     (show_nat (length failures) @ '' handler(s) failed for '' @ event_type ev @ '' (event_id=''
        @ event_id ev @ ''); message will be retried'') (hd failures)"

text \<open>
  \<open>dispatch\<close>; \<open>identity\<close> is the delivery identity it is given, or what \<open>_current_identity\<close>
  computes (it may raise).
\<close>

definition dispatch ::
  "'w subscriptions \<Rightarrow> 's inbox_protocol option \<Rightarrow> infra_exn + event_delivery_identity \<Rightarrow> ambient
     \<Rightarrow> domain_event \<Rightarrow> 's \<times> 'w \<Rightarrow> (infra_exn + unit) \<times> 's \<times> 'w" where
  "dispatch subs inbox identity amb ev st =
     (case deliver_all inbox identity amb ev (matching subs ev) [] st of
        (Inl e, st') \<Rightarrow> (Inl e, st')
      | (Inr failures, st') \<Rightarrow>
          (if failures \<noteq> [] then (Inl (dispatch_failed ev failures), st') else (Inr (), st')))"

section \<open>What the dispatcher relies on\<close>

text \<open>
  \<open>ok\<close> is the invariant of the inbox; \<open>recorded q\<close> says that the completion of the delivery
  \<open>q\<close> is on record.
\<close>

locale handler_inbox =
  fixes ib :: "'s inbox_protocol" and ok :: "'s \<Rightarrow> bool" and recorded :: "claim_request \<Rightarrow> 's \<Rightarrow> bool"
  assumes claim_ok: "ok s \<Longrightarrow> ok (snd (claim_op ib q s))"
    and complete_ok: "ok s \<Longrightarrow> ok (snd (complete_op ib k tok s))"
    and fail_ok: "ok s \<Longrightarrow> ok (snd (fail_op ib k tok e s))"
    and claim_keeps: "ok s \<Longrightarrow> recorded p s \<Longrightarrow> recorded p (snd (claim_op ib q s))"
    and complete_keeps: "ok s \<Longrightarrow> recorded p s \<Longrightarrow> recorded p (snd (complete_op ib k tok s))"
    and fail_keeps: "ok s \<Longrightarrow> recorded p s \<Longrightarrow> recorded p (snd (fail_op ib k tok e s))"
    and claim_recorded: "ok s \<Longrightarrow> recorded q s \<Longrightarrow> fst (claim_op ib q s) = Inr claim_processed"
    and claim_answered: "ok s \<Longrightarrow> claim_op ib q s = (Inr c, s') \<Longrightarrow> claim_status c = PROCESSED \<Longrightarrow> recorded q s'"
    and complete_records: "ok s \<Longrightarrow> claim_op ib q s = (Inr c, s') \<Longrightarrow> claim_status c = CLAIMED
      \<Longrightarrow> claim_token c = Some tok \<Longrightarrow> complete_op ib (rq_key q) tok s' = (Inr (), s'') \<Longrightarrow> recorded q s''"
begin

lemma deliver_one_ok:
  assumes "ok s" and "deliver_one (Some ib) identity amb ev h (s, w) = (fs, s', w')"
  shows "ok s'"
proof (cases identity)
  case (Inr ident)
  obtain res s1 where c: "claim_op ib (claim_request_of ev ident (handler_name h)) s = (res, s1)" by fastforce
  have s1: "ok s1" using claim_ok [OF assms(1), of "claim_request_of ev ident (handler_name h)"] c by simp
  have f: "ok (snd (fail_op ib k tok e s1))" "ok (snd (complete_op ib k tok s1))" for k tok e
    using s1 by (rule fail_ok, rule complete_ok)
  show ?thesis using assms(2) Inr c s1 f
    by (auto simp: deliver_one_def invoke_def prod_eq_iff split: sum.splits inbox_claim_status.splits option.splits
        list.splits prod.splits)
qed (use assms in \<open>simp add: deliver_one_def\<close>)

lemma deliver_one_keeps:
  assumes "ok s" and "recorded p s" and "deliver_one (Some ib) identity amb ev h (s, w) = (fs, s', w')"
  shows "recorded p s'"
proof (cases identity)
  case (Inr ident)
  obtain res s1 where c: "claim_op ib (claim_request_of ev ident (handler_name h)) s = (res, s1)" by fastforce
  have s1: "ok s1" "recorded p s1"
    using claim_ok [OF assms(1), of "claim_request_of ev ident (handler_name h)"]
      claim_keeps [OF assms(1,2), of "claim_request_of ev ident (handler_name h)"] c by simp_all
  have f: "recorded p (snd (fail_op ib k tok e s1))" "recorded p (snd (complete_op ib k tok s1))" for k tok e
    using s1 by (rule fail_keeps, rule complete_keeps)
  show ?thesis using assms(3) Inr c s1 f
    by (auto simp: deliver_one_def invoke_def prod_eq_iff split: sum.splits inbox_claim_status.splits option.splits
        list.splits prod.splits)
qed (use assms in \<open>simp add: deliver_one_def\<close>)

lemma deliver_one_records:
  assumes "ok s" and "deliver_one (Some ib) (Inr ident) amb ev h (s, w) = ([], s', w')"
  shows "recorded (claim_request_of ev ident (handler_name h)) s'"
proof -
  let ?q = "claim_request_of ev ident (handler_name h)"
  obtain res s1 where c: "claim_op ib ?q s = (res, s1)" by fastforce
  from assms(2) c obtain cl where cl: "res = Inr cl" "claim_status cl \<noteq> BUSY"
    by (auto simp: deliver_one_def split: sum.splits inbox_claim_status.splits)
  show ?thesis
  proof (cases "claim_status cl")
    case PROCESSED
    with assms(2) c cl have "s' = s1" by (simp add: deliver_one_def)
    with claim_answered [OF assms(1) c [unfolded cl(1)] PROCESSED] show ?thesis by simp
  next
    case CLAIMED
    with assms(2) c cl obtain tok where tok: "claim_token cl = Some tok"
      and i: "invoke (Some (ib, tok)) amb ev h (s1, w) = ([], s', w')"
      by (auto simp: deliver_one_def split: option.splits list.splits)
    have k: "rq_key ?q = (event_id ev, handler_name h)" by (simp add: claim_request_of_def)
    from i have "complete_op ib (rq_key ?q) tok s1 = (Inr (), s')"
      unfolding k by (auto simp: invoke_def split: prod.splits option.splits sum.splits)
    with complete_records [OF assms(1) c [unfolded cl(1)] CLAIMED tok] show ?thesis by simp
  qed (use cl in simp)
qed

lemma deliver_one_recorded:
  assumes "ok s" and "recorded (claim_request_of ev ident (handler_name h)) s"
  shows "\<exists>s'. deliver_one (Some ib) (Inr ident) amb ev h (s, w) = ([], s', w)"
  using claim_recorded [OF assms] by (auto simp: deliver_one_def split: prod.splits)

lemma deliver_all_ok:
  assumes "ok s" and "deliver_all (Some ib) identity amb ev rs fs (s, w) = (res, s', w')"
  shows "ok s'"
  using assms
proof (induction rs arbitrary: fs s w)
  case (Cons r rs)
  show ?case
  proof (cases "resolve_handler r")
    case (Inr h)
    obtain gs s1 w1 where d: "deliver_one (Some ib) identity amb ev h (s, w) = (gs, s1, w1)" by (rule prod_cases3)
    with Cons.prems(2) Inr have "deliver_all (Some ib) identity amb ev rs (fs @ gs) (s1, w1) = (res, s', w')" by simp
    with Cons.IH deliver_one_ok [OF Cons.prems(1) d] show ?thesis by blast
  qed (use Cons.prems in simp)
qed simp

lemma deliver_all_keeps:
  assumes "ok s" and "recorded p s" and "deliver_all (Some ib) identity amb ev rs fs (s, w) = (res, s', w')"
  shows "recorded p s'"
  using assms
proof (induction rs arbitrary: fs s w)
  case (Cons r rs)
  show ?case
  proof (cases "resolve_handler r")
    case (Inr h)
    obtain gs s1 w1 where d: "deliver_one (Some ib) identity amb ev h (s, w) = (gs, s1, w1)" by (rule prod_cases3)
    with Cons.prems(3) Inr have "deliver_all (Some ib) identity amb ev rs (fs @ gs) (s1, w1) = (res, s', w')" by simp
    with Cons.IH deliver_one_ok [OF Cons.prems(1) d] deliver_one_keeps [OF Cons.prems(1,2) d] show ?thesis by blast
  qed (use Cons.prems in simp)
qed simp

lemma deliver_all_prefix: "deliver_all inbox identity amb ev rs fs st = (Inr gs, st') \<Longrightarrow> prefix fs gs"
  by (induction rs arbitrary: fs st) (fastforce split: sum.splits prod.splits elim: append_prefixD)+

lemma deliver_all_records:
  assumes "ok s" and "deliver_all (Some ib) (Inr ident) amb ev rs [] (s, w) = (Inr [], s', w')"
    and "r \<in> set rs" and "resolve_handler r = Inr h"
  shows "recorded (claim_request_of ev ident (handler_name h)) s'"
  using assms
proof (induction rs arbitrary: s w)
  case (Cons r' rs)
  obtain h' where h': "resolve_handler r' = Inr h'" using Cons.prems(2) by (cases "resolve_handler r'") simp_all
  obtain gs s1 w1 where d: "deliver_one (Some ib) (Inr ident) amb ev h' (s, w) = (gs, s1, w1)" by (rule prod_cases3)
  have gs: "gs = []" using Cons.prems(2) h' d deliver_all_prefix [of "Some ib" "Inr ident" amb ev rs gs] by fastforce
  have rest: "deliver_all (Some ib) (Inr ident) amb ev rs [] (s1, w1) = (Inr [], s', w')"
    using Cons.prems(2) h' d gs by simp
  have s1: "ok s1" using deliver_one_ok [OF Cons.prems(1) d] .
  show ?case
  proof (cases "r = r'")
    case True
    with h' Cons.prems(4) have "h' = h" by simp
    with deliver_one_records [OF Cons.prems(1) d [unfolded gs]]
    have "recorded (claim_request_of ev ident (handler_name h)) s1" by simp
    with deliver_all_keeps [OF s1 _ rest] show ?thesis by blast
  next
    case False
    with Cons.IH [OF s1 rest _ Cons.prems(4)] Cons.prems(3) show ?thesis by simp
  qed
qed simp

lemma deliver_all_recorded:
  assumes "ok s" and "\<And>r. r \<in> set rs \<Longrightarrow>
     \<exists>h. resolve_handler r = Inr h \<and> recorded (claim_request_of ev ident (handler_name h)) s"
  shows "\<exists>s'. deliver_all (Some ib) (Inr ident) amb ev rs fs (s, w) = (Inr fs, s', w)"
  using assms
proof (induction rs arbitrary: s)
  case (Cons r rs)
  obtain h where h: "resolve_handler r = Inr h" "recorded (claim_request_of ev ident (handler_name h)) s"
    using Cons.prems(2) [of r] by auto
  obtain s1 where d: "deliver_one (Some ib) (Inr ident) amb ev h (s, w) = ([], s1, w)"
    using deliver_one_recorded [OF Cons.prems(1) h(2)] by blast
  have s1: "ok s1" using deliver_one_ok [OF Cons.prems(1) d] .
  have "\<exists>s'. deliver_all (Some ib) (Inr ident) amb ev rs fs (s1, w) = (Inr fs, s', w)"
  proof (rule Cons.IH [OF s1])
    fix r' assume "r' \<in> set rs"
    with Cons.prems(2) obtain h' where "resolve_handler r' = Inr h'"
      "recorded (claim_request_of ev ident (handler_name h')) s" by (meson list.set_intros(2))
    with deliver_one_keeps [OF Cons.prems(1) _ d]
    show "\<exists>h. resolve_handler r' = Inr h \<and> recorded (claim_request_of ev ident (handler_name h)) s1" by blast
  qed
  with h(1) d show ?case by simp
qed simp

lemma resolved:
  "deliver_all inbox identity amb ev rs fs st = (Inr gs, st') \<Longrightarrow> r \<in> set rs \<Longrightarrow> \<exists>h. resolve_handler r = Inr h"
  by (induction rs arbitrary: fs st) (auto split: sum.splits prod.splits)

lemma dispatch_ok:
  assumes "ok s" and "dispatch subs (Some ib) identity amb ev (s, w) = (res, s', w')"
  shows "ok s'"
  using assms deliver_all_ok [OF assms(1), of identity amb ev "matching subs ev" "[]" w]
  by (auto simp: dispatch_def split: prod.splits sum.splits if_splits)

text \<open>A dispatch that did not raise: delivered again, whatever happened to the inbox since, no handler runs.\<close>

lemma redelivery:
  assumes "ok s" and "dispatch subs (Some ib) (Inr ident) amb ev (s, w) = (Inr (), s1, w1)"
    and "ok s2" and "\<And>p. recorded p s1 \<Longrightarrow> recorded p s2"
  shows "\<exists>s3. dispatch subs (Some ib) (Inr ident) amb' ev (s2, w2) = (Inr (), s3, w2)"
proof -
  let ?rs = "matching subs ev"
  have d: "deliver_all (Some ib) (Inr ident) amb ev ?rs [] (s, w) = (Inr [], s1, w1)"
    using assms(2) by (auto simp: dispatch_def split: prod.splits sum.splits if_splits)
  have "\<exists>s3. deliver_all (Some ib) (Inr ident) amb' ev ?rs [] (s2, w2) = (Inr [], s3, w2)"
  proof (rule deliver_all_recorded [OF assms(3)])
    fix r assume r: "r \<in> set ?rs"
    then obtain h where h: "resolve_handler r = Inr h" using resolved [OF d] by blast
    from deliver_all_records [OF assms(1) d r h] assms(4) h
    show "\<exists>h. resolve_handler r = Inr h \<and> recorded (claim_request_of ev ident (handler_name h)) s2" by blast
  qed
  then show ?thesis by (auto simp: dispatch_def)
qed

end

section \<open>The SQL inbox as the dispatcher's inbox\<close>

text \<open>
  The \<open>n\<close>-th call of the dispatcher's process has its own surroundings: what other consumers
  committed since its last call, the attempts of a claim, and the local clock of a completion.
\<close>

record inbox_surroundings =
  others :: "inbox_op list"
  attempts :: "attempt \<times> attempt"
  local_now :: instant

type_synonym sql_state = "inbox_row list \<times> nat"

definition sql_call ::
  "int \<Rightarrow> (nat \<Rightarrow> inbox_surroundings) \<Rightarrow> (inbox_surroundings \<Rightarrow> inbox_row list \<Rightarrow> 'a \<times> inbox_row list)
     \<Rightarrow> sql_state \<Rightarrow> 'a \<times> sql_state" where
  "sql_call lease env f s =
     (case s of (t, n) \<Rightarrow>
        (case f (env n) (run_inbox lease (others (env n)) t) of (res, t') \<Rightarrow> (res, t', n + 1)))"

definition sql_inbox :: "int \<Rightarrow> (infra_exn \<Rightarrow> string) \<Rightarrow> (nat \<Rightarrow> inbox_surroundings) \<Rightarrow> sql_state inbox_protocol" where
  "sql_inbox lease exn_text env =
     \<lparr>claim_op = (\<lambda>q. sql_call lease env (\<lambda>e. claim lease q (attempts e))),
      complete_op = (\<lambda>k tok. sql_call lease env (\<lambda>e. complete k tok (local_now e))),
      fail_op = (\<lambda>k tok x. sql_call lease env (\<lambda>e. fail k tok (exn_text x)))\<rparr>"

definition sql_ok :: "sql_state \<Rightarrow> bool" where
  "sql_ok s \<longleftrightarrow> table_ok inbox_schema (fst s)"

definition sql_recorded :: "claim_request \<Rightarrow> sql_state \<Rightarrow> bool" where
  "sql_recorded q s \<longleftrightarrow> validate_claim q = Inr () \<and>
     (\<exists>r. locked_row (fst s) (rq_key q) = Some r \<and> same_delivery q r \<and> ib_processed_at r \<noteq> None)"

lemma claim_ok_table: "table_ok inbox_schema t \<Longrightarrow> table_ok inbox_schema (snd (claim lease q e t))"
  using exec_ok [of t lease "ClaimOp q e"] by simp

lemma complete_ok_table: "table_ok inbox_schema t \<Longrightarrow> table_ok inbox_schema (snd (complete k tok now t))"
  using exec_ok [of t 0 "CompleteOp k tok now"] by simp

lemma fail_ok_table: "table_ok inbox_schema t \<Longrightarrow> table_ok inbox_schema (snd (fail k tok x t))"
  using exec_ok [of t 0 "FailOp k tok x"] by simp

lemma sql_call_snd:
  "snd (sql_call lease env f s)
     = (snd (f (env (snd s)) (run_inbox lease (others (env (snd s))) (fst s))), snd s + 1)"
  by (simp add: sql_call_def split: prod.splits)

lemma sql_call_fst:
  "fst (sql_call lease env f s) = fst (f (env (snd s)) (run_inbox lease (others (env (snd s))) (fst s)))"
  by (simp add: sql_call_def split: prod.splits)

lemma recorded_final:
  "sql_recorded p (t, n) \<Longrightarrow> sql_recorded p (run_inbox lease xs t, m)"
  using processed_row_final by (fastforce simp: sql_recorded_def)

lemma sql_op_keeps:
  assumes "sql_recorded p s" and "\<And>e t. \<exists>x. snd (f e t) = exec_inbox_op lease x t"
  shows "sql_recorded p (snd (sql_call lease env f s))"
proof -
  let ?t = "run_inbox lease (others (env (snd s))) (fst s)"
  obtain x where x: "snd (f (env (snd s)) ?t) = exec_inbox_op lease x ?t" using assms(2) by blast
  have "sql_recorded p (fst s, snd s)" using assms(1) by simp
  then have "sql_recorded p (?t, 0)" by (rule recorded_final)
  then have "sql_recorded p (run_inbox lease [x] ?t, snd s + 1)" by (rule recorded_final)
  with x show ?thesis by (simp add: sql_call_snd)
qed

lemma sql_claim_keeps: "\<exists>x. snd (claim lease q (attempts e) t) = exec_inbox_op lease x t"
  by (rule exI [of _ "ClaimOp q (attempts e)"]) simp

lemma sql_complete_keeps: "\<exists>x. snd (complete k tok (local_now e) t) = exec_inbox_op lease x t"
  by (rule exI [of _ "CompleteOp k tok (local_now e)"]) simp

lemma sql_fail_keeps: "\<exists>x. snd (fail k tok y t) = exec_inbox_op lease x t"
  by (rule exI [of _ "FailOp k tok y"]) simp

lemma claim_processed_recorded:
  assumes "table_ok inbox_schema t" and "claim lease q env t = (Inr c, t')" and "claim_status c = PROCESSED"
  shows "sql_recorded q (t', n)"
proof -
  have attempt: "\<exists>r. locked_row (snd (claim_attempt lease q a s)) (rq_key q) = Some r \<and> same_delivery q r
      \<and> ib_processed_at r \<noteq> None"
    if h: "fst (claim_attempt lease q a s) = Inr (Some c)" and ok: "table_ok inbox_schema s" for a s
  proof (cases "locked_row s (rq_key q)")
    case None
    with h assms(3) show ?thesis
      by (auto simp: claim_attempt_def Let_def end_attempt_claimed split: sum.splits)
  next
    case (Some r)
    have "row_error inbox_schema r = None" using ok locked_row_key [OF Some] by (simp add: table_ok_def)
    then have st: "ib_status r = ''processed'' \<longrightarrow> ib_processed_at r \<noteq> None" by (auto simp: row_facts)
    from h assms(3) Some have "same_delivery q r" "ib_processed_at r \<noteq> None \<or> ib_status r = ''processed''"
      by (auto simp: claim_attempt_def end_attempt_claimed split: sum.splits if_splits)
    with Some st show ?thesis by (auto simp: claim_attempt_def)
  qed
  have loop: "claim_loop lease q as s = (Inr c, t') \<Longrightarrow> table_ok inbox_schema s
      \<Longrightarrow> \<exists>r. locked_row t' (rq_key q) = Some r \<and> same_delivery q r \<and> ib_processed_at r \<noteq> None" for as s
  proof (induction as arbitrary: s)
    case (Cons a as)
    have "table_ok inbox_schema (snd (claim_attempt lease q a s))" using Cons.prems(2) by (rule claim_attempt_ok)
    with Cons attempt [of a s] show ?case
      by (auto split: prod.splits sum.splits option.splits)
  qed (use assms(3) in auto)
  from assms(2) have "validate_claim q = Inr ()" "claim_loop lease q [fst env, snd env] t = (Inr c, t')"
    by (simp_all add: claim_def del: claim_loop.simps split: sum.splits)
  with loop [OF this(2) assms(1)] show ?thesis by (simp add: sql_recorded_def)
qed

lemma sql_call_eq:
  "sql_call lease env f s = (res, s') \<longleftrightarrow>
     f (env (snd s)) (run_inbox lease (others (env (snd s))) (fst s)) = (res, fst s') \<and> snd s' = snd s + 1"
  by (cases s') (auto simp: sql_call_def split: prod.splits)

lemma run_sql_ok: "sql_ok s \<Longrightarrow> table_ok inbox_schema (run_inbox lease xs (fst s))"
  by (simp add: sql_ok_def run_inbox_ok)

lemma sql_complete_records:
  assumes ok: "sql_ok s" and cl: "claim_op (sql_inbox lease exn_text env) q s = (Inr c, s')"
    and c: "claim_status c = CLAIMED" "claim_token c = Some tok"
    and co: "complete_op (sql_inbox lease exn_text env) (rq_key q) tok s' = (Inr (), s'')"
  shows "sql_recorded q s''"
proof -
  let ?t1 = "run_inbox lease (others (env (snd s))) (fst s)" and ?t2 = "run_inbox lease (others (env (snd s'))) (fst s')"
  have cc: "c = \<lparr>claim_status = CLAIMED, claim_token = Some tok\<rparr>" using c by simp
  from cl have "claim lease q (attempts (env (snd s))) ?t1 = (Inr \<lparr>claim_status = CLAIMED, claim_token = Some tok\<rparr>, fst s')"
    unfolding cc by (simp add: sql_inbox_def sql_call_eq)
  from claim_claimed [OF run_sql_ok [OF ok] this] obtain a r where
    r: "locked_row (fst s') (rq_key q) = Some r" "same_delivery q r" and v: "validate_claim q = Inr ()"
    and ok': "table_ok inbox_schema (fst s')" by auto
  have "\<exists>r'. locked_row ?t2 (rq_key q) = Some r' \<and> same_delivery q r'"
    by (rule run_row_induct [where P = "same_delivery q", OF r]) (auto simp: row_change_def split: inbox_op.splits)
  then obtain r' where r': "locked_row ?t2 (rq_key q) = Some r'" "same_delivery q r'" by blast
  from co have "complete (rq_key q) tok (local_now (env (snd s'))) ?t2 = (Inr (), fst s'')"
    by (simp add: sql_inbox_def sql_call_eq)
  from complete_Inr [OF run_inbox_ok [OF ok'] this] r'(1)
  have "locked_row (fst s'') (rq_key q) = Some (completed (local_now (env (snd s'))) r')" by auto
  then show ?thesis using r'(2) v by (simp add: sql_recorded_def) (simp add: completed_def)
qed

interpretation sql: handler_inbox "sql_inbox lease exn_text env" sql_ok sql_recorded
  for lease exn_text env
proof (unfold_locales, goal_cases)
  case (1 s q)
  then show ?case by (simp add: sql_inbox_def sql_call_snd sql_ok_def claim_ok_table run_inbox_ok)
next
  case (2 s k tok)
  then show ?case by (simp add: sql_inbox_def sql_call_snd sql_ok_def complete_ok_table run_inbox_ok)
next
  case (3 s k tok e)
  then show ?case by (simp add: sql_inbox_def sql_call_snd sql_ok_def fail_ok_table run_inbox_ok)
next
  case (4 s p q)
  from 4(2) show ?case by (simp add: sql_inbox_def) (rule sql_op_keeps, simp_all add: sql_claim_keeps)
next
  case (5 s p k tok)
  from 5(2) show ?case by (simp add: sql_inbox_def) (rule sql_op_keeps, simp_all add: sql_complete_keeps)
next
  case (6 s p k tok e)
  from 6(2) show ?case by (simp add: sql_inbox_def) (rule sql_op_keeps, simp_all add: sql_fail_keeps)
next
  case (7 s q)
  let ?t = "run_inbox lease (others (env (snd s))) (fst s)"
  have "sql_recorded q (fst s, snd s)" using 7(2) by simp
  then have "sql_recorded q (?t, 0)" by (rule recorded_final)
  then obtain r where "validate_claim q = Inr ()" "locked_row ?t (rq_key q) = Some r" "same_delivery q r"
    "ib_processed_at r \<noteq> None" by (auto simp: sql_recorded_def)
  then show ?case by (simp add: sql_inbox_def sql_call_fst claim_of_processed)
next
  case (8 s q c s')
  then have "claim lease q (attempts (env (snd s))) (run_inbox lease (others (env (snd s))) (fst s)) = (Inr c, fst s')"
    by (simp add: sql_inbox_def sql_call_eq)
  from claim_processed_recorded [OF run_sql_ok [OF 8(1)] this 8(3), of "snd s'"] show ?case by simp
next
  case (9 s q c s' tok s'')
  then show ?case by (rule sql_complete_records)
qed

section \<open>Effects happen once\<close>

text \<open>
  C33: Delivery is at least once, handler effects are recorded once: after a dispatch that did
  not raise, delivering the same event again (from any surroundings, after any claims,
  completions and failures of other consumers) succeeds and invokes no handler, so the state the
  handlers work on is left as it is.
\<close>

theorem redelivered_event_has_no_effect:
  assumes "table_ok inbox_schema t"
    and "dispatch subs (Some (sql_inbox lease exn_text env)) (Inr ident) amb ev ((t, n), w) = (Inr (), (t1, n1), w1)"
  shows "\<exists>s. dispatch subs (Some (sql_inbox lease exn_text env)) (Inr ident) amb' ev ((run_inbox lease xs t1, m), w2)
    = (Inr (), s, w2)"
proof (rule sql.redelivery [OF _ assms(2)])
  show "sql_ok (t, n)" using assms(1) by (simp add: sql_ok_def)
  have "sql_ok (t1, n1)" using sql.dispatch_ok [OF \<open>sql_ok (t, n)\<close> assms(2)] .
  then show "sql_ok (run_inbox lease xs t1, m)" by (simp add: sql_ok_def run_inbox_ok)
qed (rule recorded_final)

definition counting_handler :: "nat event_handler" where
  "counting_handler = \<lparr>inbox_consumer_name = Some ''mailer'', type_path = ''handlers.Mailer'',
     handle = (\<lambda>amb ev w. (None, w + 1))\<rparr>"

definition sample_identity :: event_delivery_identity where
  "sample_identity = \<lparr>di_contract_name = ''library.catalog.book-added'', di_contract_version = 1,
     di_payload_hash = sample_sha\<rparr>"

definition sample_added :: domain_event where
  "sample_added = sample_event (CatalogEvent (BookAddedToCatalog ''book-1'' ''Dune'' ''Herbert''))"

definition quiet :: "nat \<Rightarrow> inbox_surroundings" where
  "quiet n = \<lparr>others = [], attempts = (sample_attempt ''a'' 10, sample_attempt ''b'' 11), local_now = 12\<rparr>"

lemma sample_claim_request: "claim_request_of sample_added sample_identity ''mailer'' = sample_request"
  by (simp add: claim_request_of_def sample_added_def sample_event_def sample_identity_def sample_request_def)

lemma sample_dispatch:
  "dispatch [(None, [HandlerInstance counting_handler])] (Some (sql_inbox 300 (\<lambda>_. ''boom'') quiet))
     (Inr sample_identity) sample_ambient sample_added (([], 0), 0)
   = (Inr (), ([completed 12 (new_inbox_row sample_request (sample_attempt ''a'' 10) 310)], 2), 1)"
proof -
  let ?r = "new_inbox_row sample_request (sample_attempt ''a'' 10) 310"
  have name: "handler_name counting_handler = ''mailer''"
    by (simp add: handler_name_def counting_handler_def str_eval)
  have key: "(event_id sample_added, ''mailer'') = rq_key sample_request"
    by (simp add: sample_added_def sample_event_def sample_request_def)
  have ok: "table_ok inbox_schema [?r]" using claim_ok_table [OF empty_inbox_ok, of 300 sample_request] sample_granted
    by (metis snd_conv)
  have h: "holds_claim (rq_key sample_request) ''a'' ?r"
    by (simp add: holds_claim_def new_inbox_row_def sample_attempt_def)
  have row: "row_error inbox_schema ?r = None" using ok by (simp add: table_ok_def)
  have "complete (rq_key sample_request) ''a'' 12 [?r] = (Inr (), [completed 12 ?r])"
    using update_succeeds [OF ok, of "completed 12" "holds_claim (rq_key sample_request) ''a''"]
      completed_valid [OF row] h by (simp add: complete_def fenced_update_def)
  then have co: "complete_op (sql_inbox 300 (\<lambda>_. ''boom'') quiet) (rq_key sample_request) ''a'' ([?r], 1)
      = (Inr (), [completed 12 ?r], 2)"
    by (simp add: sql_inbox_def sql_call_def quiet_def)
  have cl: "claim_op (sql_inbox 300 (\<lambda>_. ''boom'') quiet) sample_request ([], 0) = (Inr (claimed_by ''a''), [?r], 1)"
    using sample_granted by (simp add: sql_inbox_def sql_call_def quiet_def)
  have h: "handle counting_handler a e w = (None, w + 1)" for a e w by (simp add: counting_handler_def)
  show ?thesis
    by (simp add: dispatch_def matching_def is_instance_def resolve_handler_def deliver_one_def name
        sample_claim_request cl invoke_def h key co del: One_nat_def)
qed

theorem redelivered_event_has_no_effect_witness:
  "\<exists>s. dispatch [(None, [HandlerInstance counting_handler])] (Some (sql_inbox 300 (\<lambda>_. ''boom'') quiet))
     (Inr sample_identity) sample_ambient sample_added
     ((run_inbox 300 [ClaimOp sample_request (sample_attempt ''z'' 900, sample_attempt ''y'' 901)]
        [completed 12 (new_inbox_row sample_request (sample_attempt ''a'' 10) 310)], 7), 1)
   = (Inr (), s, 1)"
  by (rule redelivered_event_has_no_effect [OF empty_inbox_ok sample_dispatch])

end
