(* ===== verification/EventRegistry.thy ===== *)
theory EventRegistry
  imports Complex_Main Dispatcher "HOL-Library.List_Lexorder" "HOL-Library.Char_ord"
begin

text \<open>
  The wire contracts of domain events
  (\<open>src/infrastructure/adapters/events/event_registry.py\<close>): the table of contracts, the
  envelope reader, the coercion of field values, the semantic checks, \<open>serialize_event\<close> and
  \<open>deserialize_event\<close>.

  A JSON value is the datatype \<open>wire\<close>, an object the list of its fields with distinct names;
  \<open>WDate\<close> is a Python datetime, which occurs in the dictionaries inside the process only.
  \<open>serialize_event\<close> gives the envelope as a value; printing it as text and reading the text
  back (\<open>json.dumps\<close>, \<open>json.loads\<close>) are inverse on such values and are left out. The reader
  of ISO-8601 texts, \<open>datetime.fromisoformat\<close>, accepts different texts in the Python versions
  the project admits and is a parameter \<open>from_iso\<close>; the printer is \<open>isoformat\<close> below.
\<close>

section \<open>JSON values and the printing of instants\<close>

datatype wire =
    WNull | WBool bool | WInt int | WFloat rat | WStr string | WDate datetime
  | WArr "wire list" | WObj "(string \<times> wire) list"

abbreviation get :: "(string \<times> wire) list \<Rightarrow> string \<Rightarrow> wire option" where
  "get d k \<equiv> map_of d k"

text \<open>\<open>dict.get\<close>: a missing key reads as \<open>None\<close>.\<close>

definition dget :: "(string \<times> wire) list \<Rightarrow> string \<Rightarrow> wire" where
  "dget d k = (case map_of d k of None \<Rightarrow> WNull | Some v \<Rightarrow> v)"

definition keys :: "(string \<times> wire) list \<Rightarrow> string set" where
  "keys d = fst ` set d"

definition pad :: "nat \<Rightarrow> nat \<Rightarrow> string" where
  "pad k n = replicate (k - length (show_nat n)) (CHR ''0'') @ show_nat n"

definition days_before_month :: "nat \<Rightarrow> nat" where
  "days_before_month m = [0, 0, 31, 59, 90, 120, 151, 181, 212, 243, 273, 304, 334] ! m"

text \<open>Year, month and day of the \<open>n\<close>-th day from 0001-01-01 (as \<open>datetime._ord2ymd\<close>).\<close>

definition year_month_day :: "nat \<Rightarrow> nat \<times> nat \<times> nat" where
  "year_month_day n0 =
     (let n400 = n0 div 146097; n = n0 mod 146097;
          n100 = n div 36524; n = n mod 36524;
          n4 = n div 1461; n = n mod 1461;
          n1 = n div 365; n = n mod 365;
          year = n400 * 400 + 1 + n100 * 100 + n4 * 4 + n1
      in if n1 = 4 \<or> n100 = 4 then (year - 1, 12, 31)
         else (let leap = (n1 = 3 \<and> (n4 \<noteq> 24 \<or> n100 = 3));
                   month = (n + 50) div 32;
                   before = (\<lambda>m. days_before_month m + (if 2 < m \<and> leap then 1 else 0));
                   month = (if n < before month then month - 1 else month)
               in (year, month, n - before month + 1)))"

text \<open>The date and time of an instant of the UTC calendar, and its ISO-8601 text.\<close>

definition wall_clock_text :: "instant \<Rightarrow> string" where
  "wall_clock_text t =
     (let u = nat (t - min_instant);
          (y, m, d) = year_month_day (u div 86400000000);
          r = u mod 86400000000
      in pad 4 y @ ''-'' @ pad 2 m @ ''-'' @ pad 2 d @ ''T'' @ pad 2 (r div 3600000000) @ '':''
         @ pad 2 (r div 60000000 mod 60) @ '':'' @ pad 2 (r div 1000000 mod 60)
         @ (if r mod 1000000 = 0 then [] else ''.'' @ pad 6 (r mod 1000000)))"

definition isoformat :: "instant \<Rightarrow> string" where
  "isoformat t = wall_clock_text t @ ''+00:00''"

section \<open>Errors\<close>

text \<open>\<open>str(error)\<close>; the texts of exceptions of other layers are not modelled.\<close>

fun error_text :: "infra_exn \<Rightarrow> string" where
  "error_text (ValueError s) = s"
| "error_text (TypeError s) = s"
| "error_text (RuntimeError s) = s"
| "error_text (InvalidEventEnvelopeError s _ _ _) = s"
| "error_text (UnsupportedEventContractError s _ _ _) = s"
| "error_text (EventDispatcherException s _) = s"
| "error_text (MessageBrokerException s _) = s"
| "error_text (UnrecoverableMessageException s _) = s"
| "error_text (DurableMessageHandlingException s _) = s"
| "error_text _ = []"

fun contract_error :: "infra_exn \<Rightarrow> bool" where
  "contract_error (InvalidEventEnvelopeError _ _ _ _) = True"
| "contract_error (UnsupportedEventContractError _ _ _ _) = True"
| "contract_error _ = False"

text \<open>\<open>except (TypeError, ValueError)\<close>: the contract errors are value errors.\<close>

fun type_or_value_error :: "infra_exn \<Rightarrow> bool" where
  "type_or_value_error (ValueError _) = True"
| "type_or_value_error (TypeError _) = True"
| "type_or_value_error e = contract_error e"

section \<open>Contracts\<close>

datatype field_type = TStr | TInt | TBool | TDate | TOptStr

record event_contract =
  ec_namespace :: string
  ec_name :: string
  ec_version :: int
  ec_class :: event_class

definition qualified_name :: "event_contract \<Rightarrow> string" where
  "qualified_name c = ec_namespace c @ ''.'' @ ec_name c"

definition mk_contract :: "string \<Rightarrow> string \<Rightarrow> event_class \<Rightarrow> event_contract" where
  "mk_contract ns n c = \<lparr>ec_namespace = ns, ec_name = n, ec_version = 1, ec_class = c\<rparr>"

definition event_contracts :: "event_contract list" where
  "event_contracts =
     [mk_contract ''library.catalog'' ''book-added'' BookAddedToCatalogC,
      mk_contract ''library.catalog'' ''book-removed'' BookRemovedFromCatalogC,
      mk_contract ''library.catalog'' ''book-reserved'' CatalogBookReservedC,
      mk_contract ''library.catalog'' ''book-borrowed'' CatalogBookBorrowedC,
      mk_contract ''library.catalog'' ''book-released'' CatalogBookReleasedC,
      mk_contract ''library.catalog'' ''book-returned'' CatalogBookReturnedC,
      mk_contract ''library.lending'' ''loan-created'' LoanCreatedC,
      mk_contract ''library.lending'' ''loan-completed'' LoanCompletedC,
      mk_contract ''library.lending'' ''loan-cancelled'' LoanCancelledC,
      mk_contract ''library.lending'' ''loan-extended'' LoanExtendedC,
      mk_contract ''library.lending'' ''book-overdue'' BookOverdueC,
      mk_contract ''library.patron'' ''patron-registered'' PatronRegisteredC,
      mk_contract ''library.patron'' ''patron-suspended'' PatronSuspendedC,
      mk_contract ''library.patron'' ''patron-reinstated'' PatronReinstatedC]"

definition contract_by_name :: "string \<Rightarrow> event_contract option" where
  "contract_by_name n = find (\<lambda>c. qualified_name c = n) event_contracts"

definition contract_for_event :: "domain_event \<Rightarrow> infra_exn + event_contract" where
  "contract_for_event ev =
     (case find (\<lambda>c. ec_class c = class_of (event_data ev)) event_contracts of
        Some c \<Rightarrow> Inr c
      | None \<Rightarrow> Inl (UnsupportedEventContractError (''No wire contract registered for '' @ event_type ev)
                       (Some (event_id ev)) None None))"

definition outbox_type_for_event_class :: "event_class \<Rightarrow> infra_exn + string" where
  "outbox_type_for_event_class k =
     (case find (\<lambda>c. ec_class c = k) event_contracts of
        Some c \<Rightarrow> Inr (qualified_name c @ ''.v'' @ show_int (ec_version c))
      | None \<Rightarrow> Inl (UnsupportedEventContractError (''No wire contract registered for '' @ class_name k) None None None))"

section \<open>Event classes as dataclasses\<close>

definition metadata_types :: "(string \<times> field_type) list" where
  "metadata_types = [(''event_id'', TStr), (''occurred_at'', TDate), (''correlation_id'', TOptStr), (''causation_id'', TOptStr)]"

fun data_types :: "event_class \<Rightarrow> (string \<times> field_type) list" where
  "data_types BookAddedToCatalogC = [(''book_id'', TStr), (''title'', TStr), (''author'', TStr)]"
| "data_types BookRemovedFromCatalogC = [(''book_id'', TStr)]"
| "data_types CatalogBookReservedC = [(''book_id'', TStr), (''title'', TStr), (''reservation_id'', TStr),
     (''reservation_generation'', TInt), (''patron_id'', TStr), (''reserved_at'', TDate), (''borrower_email'', TStr)]"
| "data_types CatalogBookBorrowedC = [(''book_id'', TStr), (''title'', TStr), (''reservation_id'', TStr),
     (''reservation_generation'', TInt), (''patron_id'', TStr), (''loan_id'', TStr), (''borrowed_at'', TDate),
     (''return_due_date'', TDate), (''borrower_email'', TStr)]"
| "data_types CatalogBookReleasedC = [(''book_id'', TStr), (''reservation_id'', TStr),
     (''reservation_generation'', TInt), (''patron_id'', TStr), (''reason'', TStr)]"
| "data_types CatalogBookReturnedC = [(''book_id'', TStr), (''loan_id'', TStr), (''reservation_id'', TStr),
     (''reservation_generation'', TInt), (''patron_id'', TStr)]"
| "data_types LoanCreatedC = [(''loan_id'', TStr), (''reservation_id'', TStr), (''reservation_generation'', TInt),
     (''patron_id'', TStr), (''patron_email'', TStr), (''book_id'', TStr), (''book_title'', TStr),
     (''borrowed_at'', TDate), (''due_date'', TDate)]"
| "data_types LoanCompletedC = [(''loan_id'', TStr), (''reservation_id'', TStr), (''reservation_generation'', TInt),
     (''patron_id'', TStr), (''book_id'', TStr), (''returned_at'', TDate), (''was_overdue'', TBool)]"
| "data_types LoanCancelledC = [(''loan_id'', TStr), (''reservation_id'', TStr), (''reservation_generation'', TInt),
     (''patron_id'', TStr), (''book_id'', TStr), (''reason'', TStr)]"
| "data_types BookOverdueC = [(''loan_id'', TStr), (''patron_id'', TStr), (''patron_email'', TStr), (''book_id'', TStr),
     (''book_title'', TStr), (''due_date'', TDate), (''days_overdue'', TInt)]"
| "data_types LoanExtendedC = [(''loan_id'', TStr), (''patron_id'', TStr), (''book_id'', TStr),
     (''old_due_date'', TDate), (''new_due_date'', TDate)]"
| "data_types PatronRegisteredC = [(''patron_id'', TStr), (''email'', TStr), (''name'', TStr), (''membership_tier'', TStr)]"
| "data_types PatronSuspendedC = [(''patron_id'', TStr), (''reason'', TStr)]"
| "data_types PatronReinstatedC = [(''patron_id'', TStr)]"

text \<open>\<open>dataclasses.fields\<close>: the fields of the base class come first.\<close>

definition class_fields :: "event_class \<Rightarrow> (string \<times> field_type) list" where
  "class_fields c = metadata_types @ data_types c"

text \<open>The field values of an event without its metadata (\<open>asdict\<close>).\<close>

fun data_values :: "event_data \<Rightarrow> wire list" where
  "data_values (CatalogEvent (BookAddedToCatalog b t a)) = [WStr b, WStr t, WStr a]"
| "data_values (CatalogEvent (BookRemovedFromCatalog b)) = [WStr b]"
| "data_values (CatalogEvent (CatalogBookReserved b t r g p t1 e)) =
     [WStr b, WStr t, WStr r, WInt g, WStr p, WDate (utc t1), WStr e]"
| "data_values (CatalogEvent (CatalogBookBorrowed b t r g p l t1 due e)) =
     [WStr b, WStr t, WStr r, WInt g, WStr p, WStr l, WDate (utc t1), WDate (utc due), WStr e]"
| "data_values (CatalogEvent (CatalogBookReleased b r g p reason)) = [WStr b, WStr r, WInt g, WStr p, WStr reason]"
| "data_values (CatalogEvent (CatalogBookReturned b l r g p)) = [WStr b, WStr l, WStr r, WInt g, WStr p]"
| "data_values (LendingEvent (LoanCreated l r g p e b t t1 due)) =
     [WStr l, WStr r, WInt g, WStr p, WStr e, WStr b, WStr t, WDate t1, WDate (utc due)]"
| "data_values (LendingEvent (LoanCompleted l r g p b t1 late)) =
     [WStr l, WStr r, WInt g, WStr p, WStr b, WDate (utc t1), WBool late]"
| "data_values (LendingEvent (LoanCancelled l r g p b reason)) = [WStr l, WStr r, WInt g, WStr p, WStr b, WStr reason]"
| "data_values (LendingEvent (BookOverdue l p e b t due n)) = [WStr l, WStr p, WStr e, WStr b, WStr t, WDate (utc due), WInt n]"
| "data_values (LendingEvent (LoanExtended l p b old new)) = [WStr l, WStr p, WStr b, WDate (utc old), WDate (utc new)]"
| "data_values (PatronEvent (PatronRegistered p e n t)) = [WStr p, WStr e, WStr n, WStr t]"
| "data_values (PatronEvent (PatronSuspended p reason)) = [WStr p, WStr reason]"
| "data_values (PatronEvent (PatronReinstated p)) = [WStr p]"

definition data_dict :: "event_data \<Rightarrow> (string \<times> wire) list" where
  "data_dict d = zip (map fst (data_types (class_of d))) (data_values d)"

definition opt_str :: "string option \<Rightarrow> wire" where
  "opt_str v = (case v of None \<Rightarrow> WNull | Some s \<Rightarrow> WStr s)"

definition metadata_dict :: "domain_event \<Rightarrow> (string \<times> wire) list" where
  "metadata_dict ev = [(''event_id'', WStr (event_id ev)), (''occurred_at'', WDate (utc (occurred_at ev))),
     (''correlation_id'', opt_str (correlation_id ev)), (''causation_id'', opt_str (causation_id ev))]"

text \<open>
  The constructor of a class on its keyword arguments, whose values were coerced to the types
  of their fields.
\<close>

definition str_arg :: "(string \<times> wire) list \<Rightarrow> string \<Rightarrow> string" where
  "str_arg kw k = (case dget kw k of WStr s \<Rightarrow> s | _ \<Rightarrow> [])"

definition int_arg :: "(string \<times> wire) list \<Rightarrow> string \<Rightarrow> int" where
  "int_arg kw k = (case dget kw k of WInt i \<Rightarrow> i | _ \<Rightarrow> 0)"

definition bool_arg :: "(string \<times> wire) list \<Rightarrow> string \<Rightarrow> bool" where
  "bool_arg kw k = (case dget kw k of WBool b \<Rightarrow> b | _ \<Rightarrow> False)"

definition opt_str_arg :: "(string \<times> wire) list \<Rightarrow> string \<Rightarrow> string option" where
  "opt_str_arg kw k = (case dget kw k of WStr s \<Rightarrow> Some s | _ \<Rightarrow> None)"

definition date_arg :: "(string \<times> wire) list \<Rightarrow> string \<Rightarrow> datetime" where
  "date_arg kw k = (case dget kw k of WDate d \<Rightarrow> d | _ \<Rightarrow> utc 0)"

fun instant_of :: "datetime \<Rightarrow> instant" where
  "instant_of (Aware t _) = t"
| "instant_of (Naive t) = t"

definition instant_arg :: "(string \<times> wire) list \<Rightarrow> string \<Rightarrow> instant" where
  "instant_arg kw k = instant_of (date_arg kw k)"

fun build :: "event_class \<Rightarrow> (string \<times> wire) list \<Rightarrow> event_data" where
  "build BookAddedToCatalogC kw = CatalogEvent (BookAddedToCatalog
     (str_arg kw ''book_id'') (str_arg kw ''title'') (str_arg kw ''author''))"
| "build BookRemovedFromCatalogC kw = CatalogEvent (BookRemovedFromCatalog (str_arg kw ''book_id''))"
| "build CatalogBookReservedC kw = CatalogEvent (CatalogBookReserved
     (str_arg kw ''book_id'') (str_arg kw ''title'') (str_arg kw ''reservation_id'') (int_arg kw ''reservation_generation'')
     (str_arg kw ''patron_id'') (instant_arg kw ''reserved_at'') (str_arg kw ''borrower_email''))"
| "build CatalogBookBorrowedC kw = CatalogEvent (CatalogBookBorrowed
     (str_arg kw ''book_id'') (str_arg kw ''title'') (str_arg kw ''reservation_id'') (int_arg kw ''reservation_generation'')
     (str_arg kw ''patron_id'') (str_arg kw ''loan_id'') (instant_arg kw ''borrowed_at'')
     (instant_arg kw ''return_due_date'') (str_arg kw ''borrower_email''))"
| "build CatalogBookReleasedC kw = CatalogEvent (CatalogBookReleased
     (str_arg kw ''book_id'') (str_arg kw ''reservation_id'') (int_arg kw ''reservation_generation'')
     (str_arg kw ''patron_id'') (str_arg kw ''reason''))"
| "build CatalogBookReturnedC kw = CatalogEvent (CatalogBookReturned
     (str_arg kw ''book_id'') (str_arg kw ''loan_id'') (str_arg kw ''reservation_id'')
     (int_arg kw ''reservation_generation'') (str_arg kw ''patron_id''))"
| "build LoanCreatedC kw = LendingEvent (LoanCreated
     (str_arg kw ''loan_id'') (str_arg kw ''reservation_id'') (int_arg kw ''reservation_generation'')
     (str_arg kw ''patron_id'') (str_arg kw ''patron_email'') (str_arg kw ''book_id'') (str_arg kw ''book_title'')
     (date_arg kw ''borrowed_at'') (instant_arg kw ''due_date''))"
| "build LoanCompletedC kw = LendingEvent (LoanCompleted
     (str_arg kw ''loan_id'') (str_arg kw ''reservation_id'') (int_arg kw ''reservation_generation'')
     (str_arg kw ''patron_id'') (str_arg kw ''book_id'') (instant_arg kw ''returned_at'') (bool_arg kw ''was_overdue''))"
| "build LoanCancelledC kw = LendingEvent (LoanCancelled
     (str_arg kw ''loan_id'') (str_arg kw ''reservation_id'') (int_arg kw ''reservation_generation'')
     (str_arg kw ''patron_id'') (str_arg kw ''book_id'') (str_arg kw ''reason''))"
| "build BookOverdueC kw = LendingEvent (BookOverdue
     (str_arg kw ''loan_id'') (str_arg kw ''patron_id'') (str_arg kw ''patron_email'') (str_arg kw ''book_id'')
     (str_arg kw ''book_title'') (instant_arg kw ''due_date'') (int_arg kw ''days_overdue''))"
| "build LoanExtendedC kw = LendingEvent (LoanExtended
     (str_arg kw ''loan_id'') (str_arg kw ''patron_id'') (str_arg kw ''book_id'')
     (instant_arg kw ''old_due_date'') (instant_arg kw ''new_due_date''))"
| "build PatronRegisteredC kw = PatronEvent (PatronRegistered
     (str_arg kw ''patron_id'') (str_arg kw ''email'') (str_arg kw ''name'') (str_arg kw ''membership_tier''))"
| "build PatronSuspendedC kw = PatronEvent (PatronSuspended (str_arg kw ''patron_id'') (str_arg kw ''reason''))"
| "build PatronReinstatedC kw = PatronEvent (PatronReinstated (str_arg kw ''patron_id''))"

section \<open>Coercion of values\<close>

text \<open>\<open>_coerce_and_validate_value\<close>; \<open>astimezone\<close> overflows outside \<open>datetime\<close>'s range.\<close>

definition replace_z :: "string \<Rightarrow> string" where
  "replace_z s = (if s \<noteq> [] \<and> last s = CHR ''Z'' then butlast s @ ''+00:00'' else s)"

definition coerce_datetime :: "datetime \<Rightarrow> infra_exn + wire" where
  "coerce_datetime d = (case d of
     Naive _ \<Rightarrow> Inl (ValueError ''must include an explicit UTC offset'')
   | Aware t _ \<Rightarrow> (if in_range t then Inr (WDate (utc t)) else Inl OverflowError))"

fun coerce_value :: "(string \<Rightarrow> datetime option) \<Rightarrow> wire \<Rightarrow> field_type \<Rightarrow> infra_exn + wire" where
  "coerce_value from_iso v TDate =
     (case v of
        WDate d \<Rightarrow> coerce_datetime d
      | WStr s \<Rightarrow> (case from_iso (replace_z s) of
          None \<Rightarrow> Inl (ValueError ''must be an ISO-8601 datetime'') | Some d \<Rightarrow> coerce_datetime d)
      | _ \<Rightarrow> Inl (TypeError ''must be an ISO-8601 datetime''))"
| "coerce_value from_iso v TStr =
     (case v of WStr s \<Rightarrow> (if py_strip s = [] then Inl (TypeError ''must be a non-empty string'') else Inr v)
      | _ \<Rightarrow> Inl (TypeError ''must be a non-empty string''))"
| "coerce_value from_iso v TBool = (case v of WBool _ \<Rightarrow> Inr v | _ \<Rightarrow> Inl (TypeError ''must be a boolean''))"
| "coerce_value from_iso v TInt = (case v of WInt _ \<Rightarrow> Inr v | _ \<Rightarrow> Inl (TypeError ''must be an integer''))"
| "coerce_value from_iso v TOptStr =
     (case v of
        WNull \<Rightarrow> Inr WNull
      | WStr s \<Rightarrow> (if py_strip s = [] then Inl (TypeError ''does not match typing.Optional[str]'') else Inr v)
      | _ \<Rightarrow> Inl (TypeError ''does not match typing.Optional[str]''))"

section \<open>Semantic checks\<close>

text \<open>The checks of \<open>_validate_event_semantics\<close> in order: an optional value and a test.\<close>

definition check :: "wire \<Rightarrow> (wire \<Rightarrow> bool) \<Rightarrow> string \<Rightarrow> infra_exn + unit" where
  "check v p message = (if v \<noteq> WNull \<and> \<not> p v then Inl (ValueError message) else Inr ())"

fun str_test :: "(string \<Rightarrow> bool) \<Rightarrow> wire \<Rightarrow> bool" where
  "str_test p (WStr s) = p s"
| "str_test p _ = False"

fun int_test :: "(int \<Rightarrow> bool) \<Rightarrow> wire \<Rightarrow> bool" where
  "int_test p (WInt i) = p i"
| "int_test p _ = False"

definition safe_reference :: "string \<Rightarrow> bool" where
  "safe_reference s \<longleftrightarrow> length s \<le> 64 \<and> ident_match ref_extra s"

definition normalized_email :: "string \<Rightarrow> bool" where
  "normalized_email s \<longleftrightarrow> s = py_lower (py_strip s) \<and> length s \<le> 254 \<and> is_valid_email s"

definition bounded_text :: "nat \<Rightarrow> string \<Rightarrow> bool" where
  "bounded_text n s \<longleftrightarrow> py_strip s \<noteq> [] \<and> length s \<le> n"

fun date_le :: "wire \<Rightarrow> wire \<Rightarrow> bool" where
  "date_le (WDate a) (WDate b) = (instant_of a \<le> instant_of b)"
| "date_le _ _ = False"

fun all_checks :: "(infra_exn + unit) list \<Rightarrow> infra_exn + unit" where
  "all_checks [] = Inr ()"
| "all_checks (c # cs) = rbind c (\<lambda>_. all_checks cs)"

definition date_after :: "wire \<Rightarrow> wire \<Rightarrow> string \<Rightarrow> infra_exn + unit" where
  "date_after earlier later message =
     (if earlier \<noteq> WNull \<and> later \<noteq> WNull \<and> date_le later earlier then Inl (ValueError message) else Inr ())"

definition validate_event_semantics :: "(string \<times> wire) list \<Rightarrow> infra_exn + unit" where
  "validate_event_semantics kw = all_checks
     (map (\<lambda>f. check (dget kw f) (str_test safe_reference) (f @ '' must be a safe 1-64 character ID''))
        [''book_id'', ''loan_id'', ''patron_id'']
      @ [check (dget kw ''reservation_id'') (str_test uuid_shape) ''reservation_id must be a UUID'',
         check (dget kw ''reservation_generation'') (int_test (\<lambda>i. 1 \<le> i))
           ''reservation_generation must be a positive integer'']
      @ map (\<lambda>f. check (dget kw f) (str_test normalized_email) (f @ '' must be a normalized email address''))
        [''borrower_email'', ''patron_email'']
      @ map (\<lambda>f. date_after (dget kw ''borrowed_at'') (dget kw f) (f @ '' must be after borrowed_at''))
        [''due_date'', ''return_due_date'']
      @ [date_after (dget kw ''old_due_date'') (dget kw ''new_due_date'') ''new_due_date must be after old_due_date'',
         check (dget kw ''days_overdue'') (int_test (\<lambda>i. 1 \<le> i)) ''days_overdue must be a positive integer'']
      @ map (\<lambda>(f, n). check (dget kw f) (str_test (bounded_text n)) (f @ '' must be 1-'' @ show_nat n @ '' characters''))
        [(''title'', 100), (''book_title'', 100), (''reason'', 500), (''original_event_type'', 64),
         (''aggregate_type'', 32), (''aggregate_id'', 64)])"

section \<open>Reconstruction of an event\<close>

definition format_field_names :: "string list \<Rightarrow> string" where
  "format_field_names names = py_join '', '' (sort names)"

definition unexpected :: "(string \<times> wire) list \<Rightarrow> string list \<Rightarrow> string list" where
  "unexpected d allowed = filter (\<lambda>k. k \<notin> set allowed) (map fst d)"

definition invalid :: "event_contract \<Rightarrow> string option \<Rightarrow> string \<Rightarrow> infra_exn" where
  "invalid c eid message = InvalidEventEnvelopeError message eid (Some (qualified_name c)) (Some (ec_version c))"

definition blank_or_not_string :: "wire \<Rightarrow> bool" where
  "blank_or_not_string v = (case v of WStr s \<Rightarrow> py_strip s = [] | _ \<Rightarrow> True)"

text \<open>The loop over \<open>fields(contract.event_class)\<close>; metadata override data of the same name.\<close>

fun coerce_fields ::
  "(string \<Rightarrow> datetime option) \<Rightarrow> event_contract \<Rightarrow> string \<Rightarrow> (string \<times> field_type) list
     \<Rightarrow> (string \<times> wire) list \<Rightarrow> infra_exn + (string \<times> wire) list" where
  "coerce_fields from_iso c eid [] vals = Inr []"
| "coerce_fields from_iso c eid ((f, ty) # fs) vals =
     (case get vals f of
        None \<Rightarrow> coerce_fields from_iso c eid fs vals
      | Some v \<Rightarrow>
          (case coerce_value from_iso v ty of
             Inl e \<Rightarrow> Inl (if type_or_value_error e
                then invalid c (Some eid) (''Invalid value for '' @ f @ '': '' @ error_text e) else e)
           | Inr w \<Rightarrow> rbind (coerce_fields from_iso c eid fs vals) (\<lambda>kw. Inr ((f, w) # kw))))"

text \<open>\<open>contract.event_class(**kwargs)\<close>: a missing argument is a \<open>TypeError\<close>.\<close>

definition construct_class :: "event_class \<Rightarrow> (string \<times> wire) list \<Rightarrow> infra_exn + domain_event" where
  "construct_class k kw =
     (if \<not> set (map fst (data_types k)) \<subseteq> set (map fst kw)
      then Inl (TypeError ''missing required positional arguments'')
      else case domain_event_init (str_arg kw ''event_id'') (date_arg kw ''occurred_at'')
             (opt_str_arg kw ''correlation_id'') (opt_str_arg kw ''causation_id'') (build k kw) of
           Inl e \<Rightarrow> Inl (AppException e) | Inr ev \<Rightarrow> Inr ev)"

definition construct_event ::
  "(string \<Rightarrow> datetime option) \<Rightarrow> event_contract \<Rightarrow> (string \<times> wire) list \<Rightarrow> (string \<times> wire) list
     \<Rightarrow> infra_exn + domain_event" where
  "construct_event from_iso c metadata data =
     (if blank_or_not_string (dget metadata ''event_id'')
      then Inl (invalid c None ''Event metadata requires a non-empty event_id'')
      else
        (let eid = str_arg metadata ''event_id''
         in case dget metadata ''occurred_at'' of
              v \<Rightarrow>
                (if \<not> (case v of WStr _ \<Rightarrow> True | WDate _ \<Rightarrow> True | _ \<Rightarrow> False)
                 then Inl (invalid c (Some eid) ''Event metadata requires occurred_at'')
                 else case filter (\<lambda>n. dget metadata n \<noteq> WNull \<and> blank_or_not_string (dget metadata n))
                        [''correlation_id'', ''causation_id''] of
                   n # _ \<Rightarrow> Inl (invalid c (Some eid)
                      (''Event metadata '' @ n @ '' must be a non-empty string or null''))
                 | [] \<Rightarrow>
                     (case unexpected data (map fst (data_types (ec_class c))) of
                        u # us \<Rightarrow> Inl (invalid c (Some eid)
                          (''Unexpected '' @ qualified_name c @ '' data field(s): '' @ format_field_names (u # us)))
                      | [] \<Rightarrow>
                          rbind (coerce_fields from_iso c eid (class_fields (ec_class c)) (metadata @ data)) (\<lambda>kw.
                          case rbind (validate_event_semantics kw) (\<lambda>_. construct_class (ec_class c) kw) of
                            Inr ev \<Rightarrow> Inr ev
                          | Inl e \<Rightarrow> Inl (if type_or_value_error e
                              then invalid c (Some eid) (''Invalid '' @ qualified_name c @ '' v''
                                @ show_int (ec_version c) @ '' data: '' @ error_text e) else e))))))"

section \<open>The envelope\<close>

definition optional_string :: "wire \<Rightarrow> string option" where
  "optional_string v = (case v of
     WStr s \<Rightarrow> (if 1 \<le> length s \<and> length s \<le> 128 \<and> ident_match safe_extra s then Some s else None)
   | _ \<Rightarrow> None)"

text \<open>\<open>envelope_version == 1\<close> holds of 1, 1.0 and \<open>true\<close>.\<close>

definition equals_one :: "wire \<Rightarrow> bool" where
  "equals_one v \<longleftrightarrow> v = WInt 1 \<or> v = WFloat 1 \<or> v = WBool True"

definition wire_name :: "nat \<Rightarrow> (char \<Rightarrow> bool) \<Rightarrow> wire \<Rightarrow> string option" where
  "wire_name n p v = (case v of
     WStr (c # cs) \<Rightarrow> (if length (c # cs) \<le> n \<and> is_lower c \<and> list_all (\<lambda>d. is_lower d \<or> is_digit d \<or> p d) cs
       then Some (c # cs) else None)
   | _ \<Rightarrow> None)"

definition contract_name_of :: "(string \<times> wire) list \<Rightarrow> string option" where
  "contract_name_of raw =
     (case (wire_name 80 (\<lambda>d. d = CHR ''.'' \<or> d = CHR ''-'') (dget raw ''namespace''),
            wire_name 64 (\<lambda>d. d = CHR ''-'') (dget raw ''name'')) of
        (Some ns, Some n) \<Rightarrow> Some (ns @ ''.'' @ n)
      | _ \<Rightarrow> None)"

definition metadata_fields :: "string list" where
  "metadata_fields = map fst metadata_types"

definition read_envelope ::
  "(string \<times> wire) list \<Rightarrow> infra_exn + event_contract \<times> (string \<times> wire) list \<times> (string \<times> wire) list" where
  "read_envelope payload =
     (case unexpected payload [''envelope_version'', ''contract'', ''metadata'', ''data''] of
        u # us \<Rightarrow> Inl (InvalidEventEnvelopeError
          (''Unexpected event envelope field(s): '' @ format_field_names (u # us)) None None None)
      | [] \<Rightarrow>
     (if \<not> equals_one (dget payload ''envelope_version'')
      then Inl (UnsupportedEventContractError ''Unsupported event envelope version'' None None None)
      else
     (case dget payload ''contract'' of
        WObj raw \<Rightarrow>
          (case dget payload ''metadata'' of
             WObj metadata \<Rightarrow>
               (case dget payload ''data'' of
                  WObj data \<Rightarrow>
                    (let eid = optional_string (dget metadata ''event_id'');
                         missing = filter (\<lambda>k. k \<notin> set (map fst metadata)) metadata_fields
                     in if unexpected raw [''namespace'', ''name'', ''version''] \<noteq> []
                        then Inl (InvalidEventEnvelopeError (''Unexpected event contract field(s): ''
                          @ format_field_names (unexpected raw [''namespace'', ''name'', ''version''])) eid None None)
                        else if unexpected metadata metadata_fields \<noteq> []
                        then Inl (InvalidEventEnvelopeError (''Unexpected event metadata field(s): ''
                          @ format_field_names (unexpected metadata metadata_fields)) eid None None)
                        else if missing \<noteq> []
                        then Inl (InvalidEventEnvelopeError (''Missing event metadata field(s): ''
                          @ format_field_names missing) eid None None)
                        else
                          (case (contract_name_of raw, dget raw ''version'') of
                             (Some q, WInt v) \<Rightarrow>
                               (case contract_by_name q of
                                  None \<Rightarrow> Inl (UnsupportedEventContractError
                                    (''Unsupported event contract '' @ q @ '' v'' @ show_int v) eid (Some q) (Some v))
                                | Some c \<Rightarrow>
                                    (if v \<noteq> ec_version c
                                     then Inl (UnsupportedEventContractError
                                       (''Unsupported event contract '' @ q @ '' v'' @ show_int v) eid (Some q) (Some v))
                                     else Inr (c, metadata, data)))
                           | (q, _) \<Rightarrow> Inl (InvalidEventEnvelopeError
                               ''Event contract requires string namespace/name and integer version'' eid q None)))
                | _ \<Rightarrow> Inl (InvalidEventEnvelopeError ''Event data must be an object'' None None None))
           | _ \<Rightarrow> Inl (InvalidEventEnvelopeError ''Event metadata must be an object'' None None None))
      | _ \<Rightarrow> Inl (InvalidEventEnvelopeError ''Event contract must be an object'' None None None))))"

definition deserialize_event :: "(string \<Rightarrow> datetime option) \<Rightarrow> wire \<Rightarrow> infra_exn + domain_event" where
  "deserialize_event from_iso payload =
     (case payload of
        WObj d \<Rightarrow> rbind (read_envelope d) (\<lambda>(c, metadata, data). construct_event from_iso c metadata data)
      | _ \<Rightarrow> Inl (InvalidEventEnvelopeError ''Event payload must be a JSON object'' None None None))"

section \<open>Serialization\<close>

definition encode_value :: "wire \<Rightarrow> infra_exn + wire" where
  "encode_value v = (case v of
     WDate (Naive _) \<Rightarrow> Inl (TypeError ''Event datetimes must include an explicit UTC offset'')
   | WDate (Aware t _) \<Rightarrow> (if in_range t then Inr (WStr (isoformat t)) else Inl OverflowError)
   | _ \<Rightarrow> Inr v)"

fun encode_dict :: "(string \<times> wire) list \<Rightarrow> infra_exn + (string \<times> wire) list" where
  "encode_dict [] = Inr []"
| "encode_dict ((k, v) # d) = rbind (encode_value v) (\<lambda>w. rbind (encode_dict d) (\<lambda>e. Inr ((k, w) # e)))"

definition envelope :: "event_contract \<Rightarrow> (string \<times> wire) list \<Rightarrow> (string \<times> wire) list \<Rightarrow> wire" where
  "envelope c metadata data = WObj
     [(''envelope_version'', WInt 1),
      (''contract'', WObj [(''namespace'', WStr (ec_namespace c)), (''name'', WStr (ec_name c)),
         (''version'', WInt (ec_version c))]),
      (''metadata'', WObj metadata), (''data'', WObj data)]"

definition serialize_event :: "(string \<Rightarrow> datetime option) \<Rightarrow> domain_event \<Rightarrow> infra_exn + wire" where
  "serialize_event from_iso ev =
     rbind (contract_for_event ev) (\<lambda>c.
     rbind (construct_event from_iso c (metadata_dict ev) (data_dict (event_data ev))) (\<lambda>_.
     rbind (encode_dict (metadata_dict ev)) (\<lambda>metadata.
     rbind (encode_dict (data_dict (event_data ev))) (\<lambda>data.
       Inr (envelope c metadata data)))))"

end
