(* ===== verification/MessageConsumer.thy ===== *)
theory MessageConsumer
  imports EventRegistry
begin

text \<open>
  From a Kafka record to the dispatcher: the quarantine store
  (\<open>SqlAlchemyEventQuarantine\<close> in \<open>delivery_store.py\<close>), \<open>DomainEventConsumer._process_message\<close>
  (\<open>domain_event_consumer.py\<close>) and the retry, dead-letter and commit logic of \<open>KafkaClient\<close>
  (\<open>src/infrastructure/external/kafka_client.py\<close>).

  Parameters stand for SHA-256 (\<open>digest\<close>), canonical JSON printing (\<open>canonical\<close>), UTF-8/JSON
  decoding of a record's bytes (\<open>decode_json\<close>), base64, and the broker. The \<open>n\<close>-th attempt of a
  message may be cancelled off by the processing timeout, which leaves some state behind.
\<close>

section \<open>Quarantine\<close>

record quarantine_row =
  qr_id :: string
  qr_event_id :: "string option"
  qr_topic :: string
  qr_message_key :: "string option"
  qr_contract_name :: "string option"
  qr_contract_version :: "int option"
  qr_reason :: string
  qr_payload :: string
  qr_occurrence_count :: int
  qr_first_seen_at :: instant
  qr_last_seen_at :: instant

definition quarantine_schema :: "quarantine_row schema" where
  "quarantine_schema = \<lparr>
     column_types = (\<lambda>r. [(''id'', length (qr_id r) \<le> 64), (''event_id'', null_or (\<lambda>s. length s \<le> 128) (qr_event_id r)),
       (''topic'', length (qr_topic r) \<le> 249), (''contract_name'', null_or (\<lambda>s. length s \<le> 160) (qr_contract_name r)),
       (''contract_version'', null_or int4 (qr_contract_version r)), (''occurrence_count'', int4 (qr_occurrence_count r))]),
     constraints = (\<lambda>r. [(''ck_event_quarantine_occurrences'', 1 \<le> qr_occurrence_count r),
       (''ck_event_quarantine_id'', is_sha256 (qr_id r))]),
     unique_indexes = [(''event_quarantine_pkey'', \<lambda>r. Some [qr_id r])]\<rparr>"

record quarantine_request =
  qq_topic :: string
  qq_message_key :: wire
  qq_payload :: wire
  qq_reason :: string
  qq_event_id :: "string option"
  qq_contract_name :: "string option"
  qq_contract_version :: "int option"

record quarantine_attempt =
  qa_now :: instant
  qa_rival :: "quarantine_row option"

definition key_json :: "(wire \<Rightarrow> string) \<Rightarrow> wire \<Rightarrow> string option" where
  "key_json canonical k = (if k = WNull then None else Some (canonical k))"

definition quarantine_fingerprint :: "(string \<Rightarrow> string) \<Rightarrow> (wire \<Rightarrow> string) \<Rightarrow> quarantine_request \<Rightarrow> string" where
  "quarantine_fingerprint digest canonical q =
     digest (qq_topic q @ [char_of (0::nat)]
       @ (case key_json canonical (qq_message_key q) of None \<Rightarrow> ''None'' | Some k \<Rightarrow> k)
       @ [char_of (0::nat)] @ canonical (qq_payload q))"

text \<open>
  One attempt; \<open>Inr None\<close> lets the loop go on after an \<open>IntegrityError\<close>. As in the inbox, a row
  that another consumer commits after the read of a missing row makes the insertion fail.
\<close>

definition try_quarantine ::
  "(string \<Rightarrow> string) \<Rightarrow> (wire \<Rightarrow> string) \<Rightarrow> quarantine_request \<Rightarrow> quarantine_attempt \<Rightarrow> quarantine_row list
     \<Rightarrow> (infra_exn + string option) \<times> quarantine_row list" where
  "try_quarantine digest canonical q a t =
     (let fp = quarantine_fingerprint digest canonical q;
          row = \<lparr>qr_id = fp, qr_event_id = searchable_identity (qq_event_id q) 128, qr_topic = qq_topic q,
            qr_message_key = key_json canonical (qq_message_key q),
            qr_contract_name = searchable_identity (qq_contract_name q) 160,
            qr_contract_version = qq_contract_version q, qr_reason = qq_reason q,
            qr_payload = canonical (qq_payload q), qr_occurrence_count = 1,
            qr_first_seen_at = qa_now a, qr_last_seen_at = qa_now a\<rparr>;
          t1 = (case qa_rival a of None \<Rightarrow> t
                | Some r \<Rightarrow> (case insert_row quarantine_schema r t of Inl _ \<Rightarrow> t | Inr t' \<Rightarrow> t'));
          write = (if find (\<lambda>r. qr_id r = fp) t = None then insert_row quarantine_schema row t1
                   else rbind (update_where quarantine_schema (\<lambda>r. qr_id r = fp)
                     (\<lambda>r. r\<lparr>qr_occurrence_count := qr_occurrence_count r + 1, qr_last_seen_at := qa_now a,
                            qr_reason := qq_reason q\<rparr>) t) (\<lambda>(t', _). Inr t'))
      in case write of
           Inr t' \<Rightarrow> (Inr (Some fp), t')
         | Inl (IntegrityError n) \<Rightarrow> (Inr None, t1)
         | Inl (DataError n) \<Rightarrow> (Inl (SqlError (DataError n)), t))"

fun quarantine_loop ::
  "(string \<Rightarrow> string) \<Rightarrow> (wire \<Rightarrow> string) \<Rightarrow> quarantine_request \<Rightarrow> quarantine_attempt list \<Rightarrow> quarantine_row list
     \<Rightarrow> (infra_exn + string) \<times> quarantine_row list" where
  "quarantine_loop digest canonical q [] t =
     (Inl (RuntimeError (''Could not persist quarantined event '' @ quarantine_fingerprint digest canonical q)), t)"
| "quarantine_loop digest canonical q (a # as) t =
     (case try_quarantine digest canonical q a t of
        (Inl e, t') \<Rightarrow> (Inl e, t')
      | (Inr (Some fp), t') \<Rightarrow> (Inr fp, t')
      | (Inr None, t') \<Rightarrow> quarantine_loop digest canonical q as t')"

definition quarantine ::
  "(string \<Rightarrow> string) \<Rightarrow> (wire \<Rightarrow> string) \<Rightarrow> quarantine_request \<Rightarrow> quarantine_attempt \<times> quarantine_attempt
     \<Rightarrow> quarantine_row list \<Rightarrow> (infra_exn + string) \<times> quarantine_row list" where
  "quarantine digest canonical q env t =
     (if \<not> (1 \<le> length (qq_topic q) \<and> length (qq_topic q) \<le> 249)
      then (Inl (ValueError ''Kafka topic must be between 1 and 249 characters''), t)
      else quarantine_loop digest canonical q [fst env, snd env] t)"

section \<open>The consumer of domain events\<close>

definition durable_transition_events :: "event_class list" where
  "durable_transition_events = [CatalogBookReservedC, CatalogBookReleasedC, LoanCreatedC, LoanCompletedC]"

text \<open>What the consumer is given: the optional quarantine and the dispatcher, on a common state.\<close>

record 'st consumer =
  co_quarantine :: "(quarantine_request \<Rightarrow> 'st \<Rightarrow> (infra_exn + string) \<times> 'st) option"
  co_dispatch :: "domain_event \<Rightarrow> event_delivery_identity \<Rightarrow> 'st \<Rightarrow> (infra_exn + unit) \<times> 'st"

definition delivery_identity ::
  "(string \<Rightarrow> string) \<Rightarrow> (wire \<Rightarrow> string) \<Rightarrow> (string \<times> wire) list \<Rightarrow> infra_exn + event_delivery_identity" where
  "delivery_identity digest canonical d =
     (case dget d ''contract'' of
        WObj raw \<Rightarrow> Inr \<lparr>di_contract_name = str_arg raw ''namespace'' @ ''.'' @ str_arg raw ''name'',
          di_contract_version = int_arg raw ''version'', di_payload_hash = digest (canonical (WObj d))\<rparr>
      | _ \<Rightarrow> Inl (InvalidEventEnvelopeError ''Event contract must be an object'' None None None))"

fun contract_error_fields :: "infra_exn \<Rightarrow> string option \<times> string option \<times> int option" where
  "contract_error_fields (InvalidEventEnvelopeError _ i n v) = (i, n, v)"
| "contract_error_fields (UnsupportedEventContractError _ i n v) = (i, n, v)"
| "contract_error_fields _ = (None, None, None)"

definition process_message ::
  "(string \<Rightarrow> datetime option) \<Rightarrow> (string \<Rightarrow> string) \<Rightarrow> (wire \<Rightarrow> string) \<Rightarrow> 'st consumer \<Rightarrow> string \<Rightarrow> wire \<Rightarrow> wire
     \<Rightarrow> 'st \<Rightarrow> (infra_exn + unit) \<times> 'st" where
  "process_message from_iso digest canonical c topic key value st =
     (if value = WNull then (Inr (), st)
      else case deserialize_event from_iso value of
        Inl error \<Rightarrow>
          (if \<not> contract_error error then (Inl error, st)
           else case co_quarantine c of
             None \<Rightarrow> (Inl (UnrecoverableMessageException
               (''Unsupported domain event on '' @ topic @ '': '' @ error_text error) error), st)
           | Some store \<Rightarrow>
               (case contract_error_fields error of (eid, name, version) \<Rightarrow>
                 (case store \<lparr>qq_topic = topic, qq_message_key = key, qq_payload = value,
                     qq_reason = error_text error, qq_event_id = eid, qq_contract_name = name,
                     qq_contract_version = version\<rparr> st of
                    (Inl quarantine_error, st') \<Rightarrow> (Inl (DurableMessageHandlingException
                      (''Could not quarantine unsupported event from '' @ topic) quarantine_error), st')
                  | (Inr quarantine_id, st') \<Rightarrow> (Inl (UnrecoverableMessageException
                      (''Unsupported domain event quarantined as '' @ quarantine_id) error), st'))))
      | Inr ev \<Rightarrow>
          (case (case value of
                   WObj d \<Rightarrow>
                     (case delivery_identity digest canonical d of
                        Inl e \<Rightarrow> (Inl e, st) | Inr ident \<Rightarrow> co_dispatch c ev ident st)
                 | _ \<Rightarrow> (Inl (TypeError ''value is not a dictionary''), st)) of
             (Inl error, st') \<Rightarrow>
               (if class_of (event_data ev) \<in> set durable_transition_events
                then (Inl (DurableMessageHandlingException
                  (''State transition '' @ event_type ev @ '' has not converged'') error), st')
                else (Inl error, st'))
           | (Inr _, st') \<Rightarrow> (Inr (), st')))"

section \<open>Configuration of the Kafka client\<close>

definition max_message_processing_timeout_seconds :: real where
  "max_message_processing_timeout_seconds = 240"

definition dlq_park_timeout_seconds :: real where
  "dlq_park_timeout_seconds = 60"

record kafka_config =
  consumer_max_retries :: int
  retry_backoff_seconds :: real
  consumer_max_poll_interval_ms :: int
  message_processing_timeout_seconds :: real
  internal_topic_replication_factor :: int

definition backoff :: "kafka_config \<Rightarrow> nat \<Rightarrow> real" where
  "backoff cfg n = min (retry_backoff_seconds cfg * 2 ^ min n 10) 60"

definition retry_delay_budget :: "kafka_config \<Rightarrow> real" where
  "retry_delay_budget cfg = sum_list (map (\<lambda>attempt. min (retry_backoff_seconds cfg * 2 ^ min attempt 10) 60)
     [0..<nat (consumer_max_retries cfg)])"

definition poll_cycle_budget :: "kafka_config \<Rightarrow> real" where
  "poll_cycle_budget cfg = message_processing_timeout_seconds cfg * (consumer_max_retries cfg + 1)
     + retry_delay_budget cfg + dlq_park_timeout_seconds + 5"

text \<open>The checks of \<open>KafkaClient.__init__\<close>.\<close>

definition kafka_client :: "kafka_config \<Rightarrow> infra_exn + kafka_config" where
  "kafka_client cfg =
     (if consumer_max_retries cfg < 0 then Inl (ValueError ''consumer_max_retries must be non-negative'')
      else if retry_backoff_seconds cfg < 0 then Inl (ValueError ''retry_backoff_seconds must be non-negative'')
      else if consumer_max_poll_interval_ms cfg < 1000
      then Inl (ValueError ''consumer_max_poll_interval_ms must be at least 1000'')
      else if message_processing_timeout_seconds cfg \<le> 0
        \<or> max_message_processing_timeout_seconds < message_processing_timeout_seconds cfg
      then Inl (ValueError ''message_processing_timeout_seconds must be greater than zero and at most 240 to remain below the handler inbox lease'')
      else if \<not> (1 \<le> internal_topic_replication_factor cfg \<and> internal_topic_replication_factor cfg \<le> 32767)
      then Inl (ValueError ''internal_topic_replication_factor must be between 1 and 32767'')
      else if consumer_max_poll_interval_ms cfg \<le> poll_cycle_budget cfg * 1000
      then Inl (ValueError ''Kafka max poll interval must exceed the worst-case message processing and retry budget'')
      else Inr cfg)"

section \<open>Retry and dead-letter\<close>

fun unrecoverable :: "infra_exn \<Rightarrow> bool" where
  "unrecoverable (UnrecoverableMessageException _ _) = True"
| "unrecoverable _ = False"

fun durable :: "infra_exn \<Rightarrow> bool" where
  "durable (DurableMessageHandlingException _ _) = True"
| "durable _ = False"

datatype delivery = Handled | Parked | Uncommitted infra_exn

text \<open>
  \<open>_handle_with_retry\<close>: the attempts of one record, with the delays slept. \<open>handler\<close> is one
  attempt (decoding included), \<open>park\<close> is \<open>_park_on_dead_letter\<close>.
\<close>

function retry_loop ::
  "kafka_config \<Rightarrow> bool \<Rightarrow> bool \<Rightarrow> (nat \<Rightarrow> 'st \<Rightarrow> (infra_exn + unit) \<times> 'st)
     \<Rightarrow> (infra_exn \<Rightarrow> 'st \<Rightarrow> (infra_exn + unit) \<times> 'st) \<Rightarrow> nat \<Rightarrow> 'st \<Rightarrow> delivery \<times> real list \<times> 'st" where
  "retry_loop cfg retry_forever park_unrecoverable handler park n st =
     (case handler n st of
        (Inr _, st') \<Rightarrow> (Handled, [], st')
      | (Inl e, st') \<Rightarrow>
          (if unrecoverable e then
             (if \<not> park_unrecoverable then (Uncommitted e, [], st')
              else case park e st' of
                (Inl e', st'') \<Rightarrow> (Uncommitted e', [], st'') | (Inr _, st'') \<Rightarrow> (Parked, [], st''))
           else if int n < consumer_max_retries cfg then
             (case retry_loop cfg retry_forever park_unrecoverable handler park (Suc n) st' of
                (res, delays, st'') \<Rightarrow> (res, backoff cfg n # delays, st''))
           else if retry_forever \<or> durable e then (Uncommitted e, [], st')
           else (case park e st' of
                   (Inl e', st'') \<Rightarrow> (Uncommitted e', [], st'') | (Inr _, st'') \<Rightarrow> (Parked, [], st''))))"
  by pat_completeness auto

termination
  by (relation "measure (\<lambda>(cfg, _, _, _, _, n, _). nat (consumer_max_retries cfg - int n))") auto

declare retry_loop.simps [simp del]

definition handle_with_retry ::
  "kafka_config \<Rightarrow> bool \<Rightarrow> bool \<Rightarrow> (nat \<Rightarrow> 'st \<Rightarrow> (infra_exn + unit) \<times> 'st)
     \<Rightarrow> (infra_exn \<Rightarrow> 'st \<Rightarrow> (infra_exn + unit) \<times> 'st) \<Rightarrow> 'st \<Rightarrow> delivery \<times> real list \<times> 'st" where
  "handle_with_retry cfg retry_forever park_unrecoverable handler park st =
     retry_loop cfg retry_forever park_unrecoverable handler park 0 st"

text \<open>A record as the client yields it, and the fields of a dead-letter message.\<close>

record kafka_record =
  kr_topic :: string
  kr_partition :: int
  kr_offset :: int
  kr_key :: "string option"
  kr_value :: "string option"

definition decode_json_field :: "(string \<Rightarrow> wire option) \<Rightarrow> string option \<Rightarrow> string \<Rightarrow> infra_exn + wire" where
  "decode_json_field decode_json value field =
     (case value of
        None \<Rightarrow> Inr WNull
      | Some bytes \<Rightarrow>
          (case decode_json bytes of
             Some v \<Rightarrow> Inr v
           | None \<Rightarrow> Inl (UnrecoverableMessageException
               (''Malformed Kafka '' @ field @ '': expected UTF-8 JSON'') (ValueError ''malformed''))))"

definition encode_dead_letter_field :: "(string \<Rightarrow> string) \<Rightarrow> string option \<Rightarrow> wire" where
  "encode_dead_letter_field base64 value =
     (case value of None \<Rightarrow> WNull | Some bytes \<Rightarrow> WObj [(''__kafka_bytes_base64__'', WStr (base64 bytes))])"

text \<open>The bytes of a field and whether it held bytes; other values are given back as they are.\<close>

datatype dlq_value = Plain wire | Bytes string

definition decode_dead_letter_field :: "(string \<Rightarrow> string option) \<Rightarrow> wire \<Rightarrow> infra_exn + dlq_value \<times> bool" where
  "decode_dead_letter_field unbase64 value =
     (case value of
        WObj [(k, WStr s)] \<Rightarrow>
          (if k = ''__kafka_bytes_base64__'' then
             (case unbase64 s of
                None \<Rightarrow> Inl (ValueError ''DLQ record contains invalid base64 Kafka bytes'')
              | Some raw \<Rightarrow> Inr (Bytes raw, True))
           else Inr (Plain value, False))
      | _ \<Rightarrow> Inr (Plain value, False))"

record 'b broker =
  ensure_topic :: "string \<Rightarrow> 'b \<Rightarrow> (infra_exn + unit) \<times> 'b"
  send :: "string \<Rightarrow> wire \<Rightarrow> wire \<Rightarrow> 'b \<Rightarrow> bool \<times> 'b"

definition dead_letter_message :: "(string \<Rightarrow> string) \<Rightarrow> kafka_record \<Rightarrow> infra_exn \<Rightarrow> wire" where
  "dead_letter_message base64 r error = WObj
     [(''original_topic'', WStr (kr_topic r)), (''partition'', WInt (kr_partition r)), (''offset'', WInt (kr_offset r)),
      (''key'', encode_dead_letter_field base64 (kr_key r)), (''value'', encode_dead_letter_field base64 (kr_value r)),
      (''error'', WStr (error_text error))]"

definition send_to_dead_letter ::
  "(string \<Rightarrow> string) \<Rightarrow> 'b broker \<Rightarrow> kafka_record \<Rightarrow> infra_exn \<Rightarrow> 'b \<Rightarrow> (infra_exn + unit) \<times> 'b" where
  "send_to_dead_letter base64 br r error b =
     (case ensure_topic br (kr_topic r @ ''.dlq'') b of
        (Inl e, b') \<Rightarrow> (Inl e, b')
      | (Inr _, b') \<Rightarrow>
          (case send br (kr_topic r @ ''.dlq'') (dead_letter_message base64 r error)
                  (encode_dead_letter_field base64 (kr_key r)) b' of
             (delivered, b'') \<Rightarrow>
               (if delivered then (Inr (), b'')
                else (Inl (MessageBrokerException (''Failed to dead-letter message from '' @ kr_topic r
                  @ '' (offset '' @ show_int (kr_offset r) @ '')'') (Some error)), b''))))"

definition park_on_dead_letter ::
  "(string \<Rightarrow> string) \<Rightarrow> 'b broker \<Rightarrow> kafka_record \<Rightarrow> infra_exn \<Rightarrow> 'b \<Rightarrow> (infra_exn + unit) \<times> 'b" where
  "park_on_dead_letter base64 br r error b =
     (case send_to_dead_letter base64 br r error b of
        (Inl TimeoutError, b') \<Rightarrow> (Inl (MessageBrokerException (''Timed out parking message from '' @ kr_topic r
          @ '' (offset '' @ show_int (kr_offset r) @ '')'') (Some error)), b')
      | res \<Rightarrow> res)"

text \<open>
  One attempt at a record: decoding, then the handler under the processing timeout. \<open>cancelled n st\<close>
  is the state left behind when the \<open>n\<close>-th attempt is cancelled by the timeout.
\<close>

definition attempt_record ::
  "(string \<Rightarrow> wire option) \<Rightarrow> (nat \<Rightarrow> 'st \<Rightarrow> 'st option) \<Rightarrow> (string \<Rightarrow> wire \<Rightarrow> wire \<Rightarrow> 'st \<Rightarrow> (infra_exn + unit) \<times> 'st)
     \<Rightarrow> kafka_record \<Rightarrow> nat \<Rightarrow> 'st \<Rightarrow> (infra_exn + unit) \<times> 'st" where
  "attempt_record decode_json cancelled handler r n st =
     (case rbind (decode_json_field decode_json (kr_key r) ''key'') (\<lambda>k.
             rbind (decode_json_field decode_json (kr_value r) ''value'') (\<lambda>v. Inr (k, v))) of
        Inl e \<Rightarrow> (Inl e, st)
      | Inr (k, v) \<Rightarrow>
          (case cancelled n st of Some st' \<Rightarrow> (Inl TimeoutError, st') | None \<Rightarrow> handler (kr_topic r) k v st))"

text \<open>\<open>consume\<close>: the offsets committed while records arrive, up to the first one that raises.\<close>

fun consume ::
  "(kafka_record \<Rightarrow> 'st \<Rightarrow> delivery \<times> real list \<times> 'st) \<Rightarrow> kafka_record list \<Rightarrow> 'st
     \<Rightarrow> infra_exn option \<times> (string \<times> int \<times> int) list \<times> 'st" where
  "consume handle_record [] st = (None, [], st)"
| "consume handle_record (r # rs) st =
     (case handle_record r st of
        (Uncommitted e, _, st') \<Rightarrow> (Some e, [], st')
      | (_, _, st') \<Rightarrow>
          (case consume handle_record rs st' of
             (e, commits, st'') \<Rightarrow> (e, (kr_topic r, kr_partition r, kr_offset r + 1) # commits, st'')))"

definition partition_lag :: "int \<Rightarrow> int \<Rightarrow> int" where
  "partition_lag highwater position = max 0 (highwater - position)"

section \<open>The wiring of a consumer\<close>

text \<open>
  A consumer with its quarantine store and event dispatcher, as the composition root builds it;
  the state pairs the quarantine with the state of the dispatcher.
\<close>

definition event_consumer ::
  "'w subscriptions \<Rightarrow> 's inbox_protocol option \<Rightarrow> ambient
     \<Rightarrow> (quarantine_request \<Rightarrow> 'q \<Rightarrow> (infra_exn + string) \<times> 'q) \<Rightarrow> ('q \<times> 's \<times> 'w) consumer" where
  "event_consumer subs inbox amb store =
     \<lparr>co_quarantine = Some (\<lambda>q (qs, d). case store q qs of (res, qs') \<Rightarrow> (res, qs', d)),
      co_dispatch = (\<lambda>ev ident (qs, d). case dispatch subs inbox (Inr ident) amb ev d of (res, d') \<Rightarrow> (res, qs, d'))\<rparr>"

end
