(* ===== verification/RegistryProps.thy ===== *)
theory RegistryProps
  imports EventRegistry
begin

text \<open>
  What the wire contracts guarantee: an event that is serialized is read back as the same
  event, and an event that is read meets the checks that handlers rely on. At the end, the inputs
  whose failure is not reported as a contract error.
\<close>

section \<open>Encoding dictionaries\<close>

fun enc :: "wire \<Rightarrow> wire" where
  "enc (WDate (Aware t _)) = WStr (isoformat t)"
| "enc v = v"

fun dated :: "wire \<Rightarrow> bool" where
  "dated (WDate (Naive _)) = False"
| "dated (WDate (Aware t _)) = in_range t"
| "dated _ = True"

lemma encode_value_Inr: "encode_value v = Inr w \<longleftrightarrow> w = enc v \<and> dated v"
  by (cases v; simp add: encode_value_def; auto split: datetime.splits)

lemma encode_dict_Inr:
  "encode_dict d = Inr e \<Longrightarrow> e = map (\<lambda>(k, v). (k, enc v)) d"
  by (induction d arbitrary: e) (auto simp: result_simps encode_value_Inr)

lemma keys_enc [simp]: "map fst (map (\<lambda>(k, v). (k, f v)) d) = map fst d"
  by (induction d) auto

lemma get_enc: "map_of (map (\<lambda>(k, v). (k, f v)) d) k = map_option f (map_of d k)"
  by (induction d) auto

text \<open>Values of the type of their field.\<close>

fun wt :: "wire \<Rightarrow> field_type \<Rightarrow> bool" where
  "wt (WDate _) TDate = True"
| "wt (WStr _) TStr = True"
| "wt (WStr _) TOptStr = True"
| "wt WNull TOptStr = True"
| "wt (WInt _) TInt = True"
| "wt (WBool _) TBool = True"
| "wt _ _ = False"

fun utc_value :: "wire \<Rightarrow> wire" where
  "utc_value (WDate (Aware t _)) = WDate (utc t)"
| "utc_value v = v"

definition typed :: "(string \<times> field_type) list \<Rightarrow> (string \<times> wire) list \<Rightarrow> bool" where
  "typed fs vals \<longleftrightarrow> (\<forall>(f, ty)\<in>set fs. \<exists>v. get vals f = Some v \<and> wt v ty)"

lemma coerce_typed: "wt v ty \<Longrightarrow> coerce_value from_iso v ty = Inr w \<Longrightarrow> w = utc_value v"
  by (cases v; cases ty) (auto simp: coerce_datetime_def split: datetime.splits if_splits)

lemma replace_z_iso [simp]: "replace_z (isoformat t) = isoformat t"
  by (auto simp: replace_z_def isoformat_def wall_clock_text_def Let_def split: prod.splits)

definition reads_back :: "(string \<Rightarrow> datetime option) \<Rightarrow> wire \<Rightarrow> bool" where
  "reads_back from_iso v \<longleftrightarrow>
     (case v of WDate (Aware t _) \<Rightarrow> from_iso (isoformat t) = Some (utc t) | _ \<Rightarrow> True)"

lemma coerce_enc:
  assumes "wt v ty" and "reads_back from_iso v"
  shows "coerce_value from_iso (enc v) ty = coerce_value from_iso v ty"
proof (cases v)
  case (WDate d)
  then show ?thesis using assms
    by (cases d; cases ty) (auto simp: reads_back_def coerce_datetime_def)
qed (use assms in simp_all)

lemma coerce_fields_enc:
  assumes "typed fs vals" and "\<forall>(k, v)\<in>set vals. reads_back from_iso v"
  shows "coerce_fields from_iso c eid fs (map (\<lambda>(k, v). (k, enc v)) vals) = coerce_fields from_iso c eid fs vals"
  using assms(1)
proof (induction fs)
  case (Cons x fs)
  obtain f ty where x: "x = (f, ty)" by (cases x)
  with Cons.prems obtain v where v: "get vals f = Some v" "wt v ty" by (auto simp: typed_def)
  have "reads_back from_iso v" using assms(2) map_of_SomeD [OF v(1)] by blast
  with v x Cons show ?case by (simp add: get_enc coerce_enc typed_def split: sum.split)
qed simp

lemma coerce_fields_get:
  assumes "coerce_fields from_iso c eid fs vals = Inr kw" and "typed fs vals" and "distinct (map fst fs)"
  shows "map fst kw = map fst fs \<and> (\<forall>f\<in>set (map fst fs). get kw f = map_option utc_value (get vals f))"
  using assms
proof (induction fs arbitrary: kw)
  case (Cons x fs)
  obtain f ty where x: "x = (f, ty)" by (cases x)
  with Cons.prems(2) obtain v where v: "get vals f = Some v" "wt v ty" by (auto simp: typed_def)
  from Cons.prems(1) x v(1) obtain w kw' where w: "coerce_value from_iso v ty = Inr w"
    and r: "coerce_fields from_iso c eid fs vals = Inr kw'" and kw: "kw = (f, w) # kw'"
    by (auto simp: result_simps split: sum.splits)
  have "typed fs vals" using Cons.prems(2) by (simp add: typed_def)
  with Cons.IH [OF r] Cons.prems(3) x kw v coerce_typed [OF v(2) w] show ?case by auto
qed simp

section \<open>The dictionaries of an event are typed\<close>

lemma distinct_fields: "distinct (map fst (class_fields k))"
  by (cases k) (simp_all add: class_fields_def metadata_types_def)

lemma metadata_typed: "typed metadata_types (metadata_dict ev @ d)"
  by (cases "correlation_id ev"; cases "causation_id ev")
     (simp_all add: typed_def metadata_types_def metadata_dict_def opt_str_def)

lemma data_typed: "typed (data_types (class_of d)) (metadata_dict ev @ data_dict d)"
proof (cases d)
  case (CatalogEvent x)
  then show ?thesis by (cases x) (simp_all add: typed_def data_dict_def metadata_dict_def)
next
  case (LendingEvent x)
  then show ?thesis by (cases x) (simp_all add: typed_def data_dict_def metadata_dict_def)
next
  case (PatronEvent x)
  then show ?thesis by (cases x) (simp_all add: typed_def data_dict_def metadata_dict_def)
qed

lemma event_typed: "typed (class_fields (class_of (event_data ev))) (metadata_dict ev @ data_dict (event_data ev))"
  using metadata_typed [of ev "data_dict (event_data ev)"] data_typed [of "event_data ev" ev]
  by (auto simp: typed_def class_fields_def)

lemma data_keys: "map fst (data_dict d) = map fst (data_types (class_of d))"
proof (cases d)
  case (CatalogEvent x)
  then show ?thesis by (cases x) (simp_all add: data_dict_def)
next
  case (LendingEvent x)
  then show ?thesis by (cases x) (simp_all add: data_dict_def)
next
  case (PatronEvent x)
  then show ?thesis by (cases x) (simp_all add: data_dict_def)
qed

section \<open>Building an event from its own values\<close>

fun normal_data :: "event_data \<Rightarrow> event_data" where
  "normal_data (LendingEvent (LoanCreated l r g p e b t t1 due)) =
     LendingEvent (LoanCreated l r g p e b t (utc (instant_of t1)) due)"
| "normal_data d = d"

text \<open>The same event with its datetimes in UTC; in Python both compare as equal.\<close>

definition normal_event :: "domain_event \<Rightarrow> domain_event" where
  "normal_event ev = ev\<lparr>event_data := normal_data (event_data ev)\<rparr>"

lemmas args = str_arg_def int_arg_def bool_arg_def opt_str_arg_def date_arg_def instant_arg_def

lemma build_cong:
  "(\<And>f. f \<in> set (map fst (data_types k)) \<Longrightarrow> dget kw f = dget kw' f) \<Longrightarrow> build k kw = build k kw'"
  by (cases k) (simp_all add: args)

lemma class_build [simp]: "class_of (build k kw) = k"
  by (cases k) simp_all

abbreviation norms :: "(string \<times> wire) list \<Rightarrow> (string \<times> wire) list" where
  "norms d \<equiv> map (\<lambda>(k, v). (k, utc_value v)) d"

lemma dget_norms: "dget (norms d) f = (case map_of d f of None \<Rightarrow> WNull | Some v \<Rightarrow> utc_value v)"
  by (simp add: dget_def get_enc split: option.split)

lemma build_own:
  assumes "\<forall>(k, v)\<in>set (data_dict d). dated v"
  shows "build (class_of d) (norms (metadata_dict ev @ data_dict d)) = normal_data d"
proof (cases d)
  case (CatalogEvent x)
  then show ?thesis
    by (cases x) (simp_all add: args dget_def data_dict_def metadata_dict_def)
next
  case (LendingEvent x)
  then show ?thesis
  proof (cases x)
    case (LoanCreated l r g p e b t t1 due)
    then show ?thesis using LendingEvent assms
      by (cases t1) (simp_all add: args dget_def data_dict_def metadata_dict_def)
  qed (simp_all add: args dget_def data_dict_def metadata_dict_def)
next
  case (PatronEvent x)
  then show ?thesis
    by (cases x) (simp_all add: args dget_def data_dict_def metadata_dict_def)
qed

lemma coerced_event:
  assumes "coerce_fields from_iso c eid (class_fields (class_of (event_data ev)))
      (metadata_dict ev @ data_dict (event_data ev)) = Inr kw"
    and "\<forall>(k, v)\<in>set (data_dict (event_data ev)). dated v" and "event_ok ev"
  shows "construct_class (class_of (event_data ev)) kw = Inr (normal_event ev)"
proof -
  let ?k = "class_of (event_data ev)" and ?vals = "metadata_dict ev @ data_dict (event_data ev)"
  from coerce_fields_get [OF assms(1) event_typed distinct_fields]
  have keys: "map fst kw = map fst (class_fields ?k)"
    and get: "\<forall>f\<in>set (map fst (class_fields ?k)). get kw f = map_option utc_value (get ?vals f)" by simp_all
  have dget: "dget kw f = dget (norms ?vals) f" if "f \<in> set (map fst (class_fields ?k))" for f
  proof -
    have "get kw f = map_option utc_value (get ?vals f)" using get that by blast
    then show ?thesis by (simp only: dget_def get_enc)
  qed
  have "build ?k kw = build ?k (norms ?vals)"
    by (rule build_cong) (rule dget, simp add: class_fields_def)
  also have "\<dots> = normal_data (event_data ev)" using assms(2) by (rule build_own)
  finally have b: "build ?k kw = normal_data (event_data ev)" .
  have m: "dget kw f = dget (norms ?vals) f" if "f \<in> set (map fst metadata_types)" for f
    using that by (intro dget) (simp add: class_fields_def)
  have args: "str_arg kw ''event_id'' = event_id ev" "date_arg kw ''occurred_at'' = utc (occurred_at ev)"
    "opt_str_arg kw ''correlation_id'' = correlation_id ev" "opt_str_arg kw ''causation_id'' = causation_id ev"
    unfolding args(1,4,5)
    by (subst m; simp add: metadata_types_def dget_def metadata_dict_def opt_str_def split: option.split)+
  have "set (map fst (data_types ?k)) \<subseteq> set (map fst kw)" unfolding keys by (simp add: class_fields_def)
  moreover have "domain_event_init (event_id ev) (utc (occurred_at ev)) (correlation_id ev) (causation_id ev) d
      = Inr (ev\<lparr>event_data := d\<rparr>)" for d
    using assms(3) by (auto simp: domain_event_init_def event_ok_def event_identity_id split: option.splits)
  ultimately show ?thesis using args b by (simp add: construct_class_def normal_event_def)
qed

section \<open>The contract table\<close>

lemma contract_table:
  "list_all (\<lambda>c. contract_by_name (qualified_name c) = Some c \<and> ec_version c = 1
     \<and> wire_name 80 (\<lambda>d. d = CHR ''.'' \<or> d = CHR ''-'') (WStr (ec_namespace c)) = Some (ec_namespace c)
     \<and> wire_name 64 (\<lambda>d. d = CHR ''-'') (WStr (ec_name c)) = Some (ec_name c)) event_contracts"
  by code_simp

lemma contract_table_distinct: "distinct (map ec_class event_contracts)"
  by code_simp

lemma contract_for_eventD:
  assumes "contract_for_event ev = Inr c"
  shows "c \<in> set event_contracts" and "ec_class c = class_of (event_data ev)"
proof -
  from assms have "find (\<lambda>c. ec_class c = class_of (event_data ev)) event_contracts = Some c"
    by (auto simp: contract_for_event_def split: option.splits)
  then show "c \<in> set event_contracts" "ec_class c = class_of (event_data ev)"
    by (auto dest: find_SomeD)
qed

lemma metadata_keys: "map fst (metadata_dict ev) = metadata_fields"
  by (simp add: metadata_dict_def metadata_fields_def metadata_types_def)

lemma read_own_envelope:
  assumes "c \<in> set event_contracts" and "map fst metadata = metadata_fields"
  shows "\<exists>p. envelope c metadata data = WObj p \<and> read_envelope p = Inr (c, metadata, data)"
proof -
  from assms(1) contract_table have t: "contract_by_name (ec_namespace c @ ''.'' @ ec_name c) = Some c" "ec_version c = 1"
    "wire_name 80 (\<lambda>d. d = CHR ''.'' \<or> d = CHR ''-'') (WStr (ec_namespace c)) = Some (ec_namespace c)"
    "wire_name 64 (\<lambda>d. d = CHR ''-'') (WStr (ec_name c)) = Some (ec_name c)"
    by (simp_all add: list_all_iff qualified_name_def)
  have u: "unexpected metadata metadata_fields = []" "filter (\<lambda>k. k \<notin> set (map fst metadata)) metadata_fields = []"
    by (simp_all only: unexpected_def assms(2)) (simp_all add: filter_empty_conv)
  show ?thesis
    using t u by (simp add: envelope_def read_envelope_def unexpected_def [of "_ # _"] dget_def equals_one_def Let_def
        contract_name_of_def)
qed

section \<open>Round trip\<close>

lemma construct_enc:
  assumes "ec_class c = class_of (event_data ev)"
    and "\<forall>(k, v)\<in>set (metadata_dict ev @ data_dict (event_data ev)). reads_back from_iso v"
  shows "construct_event from_iso c (map (\<lambda>(k, v). (k, enc v)) (metadata_dict ev))
      (map (\<lambda>(k, v). (k, enc v)) (data_dict (event_data ev)))
    = construct_event from_iso c (metadata_dict ev) (data_dict (event_data ev))"
proof -
  let ?m = "metadata_dict ev" and ?d = "data_dict (event_data ev)"
  have f: "coerce_fields from_iso c eid (class_fields (ec_class c))
      (map (\<lambda>(k, v). (k, enc v)) ?m @ map (\<lambda>(k, v). (k, enc v)) ?d)
      = coerce_fields from_iso c eid (class_fields (ec_class c)) (?m @ ?d)" for eid
    using coerce_fields_enc [OF event_typed assms(2)] assms(1) by simp
  have u: "unexpected (map (\<lambda>(k, v). (k, enc v)) ?d) allowed = unexpected ?d allowed" for allowed
    by (simp only: unexpected_def keys_enc)
  have m: "dget (map (\<lambda>(k, v). (k, enc v)) ?m) ''event_id'' = WStr (event_id ev)"
    "dget (map (\<lambda>(k, v). (k, enc v)) ?m) ''occurred_at'' = WStr (isoformat (occurred_at ev))"
    "dget (map (\<lambda>(k, v). (k, enc v)) ?m) ''correlation_id'' = opt_str (correlation_id ev)"
    "dget (map (\<lambda>(k, v). (k, enc v)) ?m) ''causation_id'' = opt_str (causation_id ev)"
    "dget ?m ''event_id'' = WStr (event_id ev)" "dget ?m ''occurred_at'' = WDate (utc (occurred_at ev))"
    "dget ?m ''correlation_id'' = opt_str (correlation_id ev)" "dget ?m ''causation_id'' = opt_str (causation_id ev)"
    by (simp_all add: dget_def metadata_dict_def opt_str_def split: option.splits)
  show ?thesis
    unfolding construct_event_def Let_def f u str_arg_def filter.simps m by simp
qed

text \<open>The instants of an event, which the text of its envelope contains.\<close>

definition instants :: "domain_event \<Rightarrow> instant set" where
  "instants ev = {t. \<exists>k off. (k, WDate (Aware t off)) \<in> set (metadata_dict ev @ data_dict (event_data ev))}"

text \<open>
  C36: What is written to the outbox is what a consumer reads: an event that serializes is
  deserialized from its envelope as the same event, with every datetime in UTC, as long as the
  reader of ISO-8601 texts inverts \<open>isoformat\<close> on the instants of the event.
\<close>

theorem event_wire_roundtrip:
  assumes "serialize_event from_iso ev = Inr payload" and "event_ok ev"
    and "\<forall>t\<in>instants ev. from_iso (isoformat t) = Some (utc t)"
  shows "deserialize_event from_iso payload = Inr (normal_event ev)"
proof -
  let ?m = "metadata_dict ev" and ?d = "data_dict (event_data ev)"
  from assms(1) obtain c ev' em ed where c: "contract_for_event ev = Inr c"
    and ev': "construct_event from_iso c ?m ?d = Inr ev'"
    and em: "encode_dict ?m = Inr em" and ed: "encode_dict ?d = Inr ed" and p: "payload = envelope c em ed"
    by (auto simp: serialize_event_def result_simps)
  have em': "em = map (\<lambda>(k, v). (k, enc v)) ?m" using encode_dict_Inr [OF em] .
  have ed': "ed = map (\<lambda>(k, v). (k, enc v)) ?d" using encode_dict_Inr [OF ed] .
  have dated: "encode_dict d = Inr e \<Longrightarrow> \<forall>(k, v)\<in>set d. dated v" for d e
    by (induction d arbitrary: e) (auto simp: result_simps encode_value_Inr, fastforce)
  have rb: "\<forall>(k, v)\<in>set (?m @ ?d). reads_back from_iso v"
    using assms(3) by (fastforce simp: instants_def reads_back_def split: wire.splits datetime.splits)
  note c_facts = contract_for_eventD [OF c]
  obtain q where q: "payload = WObj q" "read_envelope q = Inr (c, em, ed)"
  proof -
    have "map fst em = metadata_fields" unfolding em' by (simp only: keys_enc metadata_keys)
    from read_own_envelope [OF c_facts(1) this, of ed] p that show thesis by blast
  qed
  have "construct_event from_iso c em ed = Inr ev'"
    unfolding em' ed' using construct_enc [OF c_facts(2) rb] ev' by simp
  moreover have "ev' = normal_event ev"
  proof -
    from ev' obtain kw eid where kw: "coerce_fields from_iso c eid (class_fields (ec_class c)) (?m @ ?d) = Inr kw"
      and k: "construct_class (ec_class c) kw = Inr ev'"
      by (auto simp: construct_event_def Let_def result_simps rbind_def split: if_splits list.splits sum.splits)
    from coerced_event [OF kw [unfolded c_facts(2)] dated [OF ed] assms(2)] k c_facts(2) show ?thesis by simp
  qed
  ultimately show ?thesis using q by (simp add: deserialize_event_def)
qed

definition sample_iso :: "string \<Rightarrow> datetime option" where
  "sample_iso s = (if s = isoformat 5 then Some (utc 5) else None)"

lemma digit_chars:
  "digit_char 0 = CHR ''0''" "digit_char 1 = CHR ''1''" "digit_char (Suc 0) = CHR ''1''"
  "digit_char 5 = CHR ''5''" "digit_char 7 = CHR ''7''" "digit_char 9 = CHR ''9''"
  by code_simp+

lemma replicate_5: "replicate 5 x = [x, x, x, x, x]"
  by (simp add: numeral_eq_Suc)

lemma isoformat_5: "isoformat 5 = ''1970-01-01T00:00:00.000005+00:00''"
  by (simp add: isoformat_def wall_clock_text_def min_instant_def year_month_day_def days_before_month_def pad_def Let_def
      show_nat.simps [of 1970] show_nat.simps [of 197] show_nat.simps [of 19] show_nat.simps [of 1]
      show_nat.simps [of "Suc 0"] show_nat.simps [of 0] show_nat.simps [of 5] digit_chars replicate_5)

lemma sample_added_ok: "event_ok sample_added"
  by (simp add: sample_added_def sample_event_def event_ok_def identity_ok_def str_eval)

lemma sample_serialize: "\<exists>payload. serialize_event sample_iso sample_added = Inr payload"
  by (simp add: serialize_event_def contract_for_event_def event_contracts_def mk_contract_def sample_added_def
      sample_event_def construct_event_def metadata_dict_def data_dict_def dget_def blank_or_not_string_def
      opt_str_def unexpected_def class_fields_def metadata_types_def coerce_datetime_def str_arg_def
      validate_event_semantics_def check_def date_after_def safe_reference_def bounded_text_def
      construct_class_def domain_event_init_def event_identity_def opt_str_arg_def date_arg_def
      encode_value_def Let_def str_eval)

theorem event_wire_roundtrip_witness:
  "\<exists>payload. serialize_event sample_iso sample_added = Inr payload
     \<and> deserialize_event sample_iso payload = Inr (normal_event sample_added)"
proof -
  obtain payload where p: "serialize_event sample_iso sample_added = Inr payload" using sample_serialize by blast
  have "instants sample_added = {5}"
    by (auto simp: instants_def sample_added_def sample_event_def metadata_dict_def data_dict_def opt_str_def)
  then have "\<forall>t\<in>instants sample_added. sample_iso (isoformat t) = Some (utc t)" by (simp add: sample_iso_def)
  from event_wire_roundtrip [OF p sample_added_ok this] p show ?thesis by blast
qed

section \<open>What a handler may rely on\<close>

abbreviation nonblank :: "string \<Rightarrow> bool" where
  "nonblank s \<equiv> py_strip s \<noteq> []"

definition reservation_ok :: "string \<Rightarrow> int \<Rightarrow> bool" where
  "reservation_ok r g \<longleftrightarrow> uuid_shape r \<and> 1 \<le> g"

fun event_data_ok :: "event_data \<Rightarrow> bool" where
  "event_data_ok (CatalogEvent (BookAddedToCatalog b t a)) \<longleftrightarrow> safe_reference b \<and> bounded_text 100 t \<and> nonblank a"
| "event_data_ok (CatalogEvent (BookRemovedFromCatalog b)) \<longleftrightarrow> safe_reference b"
| "event_data_ok (CatalogEvent (CatalogBookReserved b t r g p t1 e)) \<longleftrightarrow> safe_reference b \<and> bounded_text 100 t
     \<and> reservation_ok r g \<and> safe_reference p \<and> in_range t1 \<and> normalized_email e"
| "event_data_ok (CatalogEvent (CatalogBookBorrowed b t r g p l t1 due e)) \<longleftrightarrow> safe_reference b \<and> bounded_text 100 t
     \<and> reservation_ok r g \<and> safe_reference p \<and> safe_reference l \<and> in_range t1 \<and> in_range due \<and> t1 < due
     \<and> normalized_email e"
| "event_data_ok (CatalogEvent (CatalogBookReleased b r g p reason)) \<longleftrightarrow> safe_reference b \<and> reservation_ok r g
     \<and> safe_reference p \<and> bounded_text 500 reason"
| "event_data_ok (CatalogEvent (CatalogBookReturned b l r g p)) \<longleftrightarrow> safe_reference b \<and> safe_reference l
     \<and> reservation_ok r g \<and> safe_reference p"
| "event_data_ok (LendingEvent (LoanCreated l r g p e b t t1 due)) \<longleftrightarrow> safe_reference l \<and> reservation_ok r g
     \<and> safe_reference p \<and> normalized_email e \<and> safe_reference b \<and> bounded_text 100 t
     \<and> t1 = utc (instant_of t1) \<and> in_range (instant_of t1) \<and> in_range due \<and> instant_of t1 < due"
| "event_data_ok (LendingEvent (LoanCompleted l r g p b t1 late)) \<longleftrightarrow> safe_reference l \<and> reservation_ok r g
     \<and> safe_reference p \<and> safe_reference b \<and> in_range t1"
| "event_data_ok (LendingEvent (LoanCancelled l r g p b reason)) \<longleftrightarrow> safe_reference l \<and> reservation_ok r g
     \<and> safe_reference p \<and> safe_reference b \<and> bounded_text 500 reason"
| "event_data_ok (LendingEvent (BookOverdue l p e b t due n)) \<longleftrightarrow> safe_reference l \<and> safe_reference p
     \<and> normalized_email e \<and> safe_reference b \<and> bounded_text 100 t \<and> in_range due \<and> 1 \<le> n"
| "event_data_ok (LendingEvent (LoanExtended l p b old new)) \<longleftrightarrow> safe_reference l \<and> safe_reference p
     \<and> safe_reference b \<and> in_range old \<and> in_range new \<and> old < new"
| "event_data_ok (PatronEvent (PatronRegistered p e n t)) \<longleftrightarrow> safe_reference p \<and> nonblank e \<and> nonblank n \<and> nonblank t"
| "event_data_ok (PatronEvent (PatronSuspended p reason)) \<longleftrightarrow> safe_reference p \<and> bounded_text 500 reason"
| "event_data_ok (PatronEvent (PatronReinstated p)) \<longleftrightarrow> safe_reference p"

fun coerced :: "wire \<Rightarrow> field_type \<Rightarrow> bool" where
  "coerced (WStr s) TStr \<longleftrightarrow> nonblank s"
| "coerced (WStr s) TOptStr \<longleftrightarrow> nonblank s"
| "coerced WNull TOptStr \<longleftrightarrow> True"
| "coerced (WInt i) TInt \<longleftrightarrow> True"
| "coerced (WBool b) TBool \<longleftrightarrow> True"
| "coerced (WDate (Aware t off)) TDate \<longleftrightarrow> off = 0 \<and> in_range t"
| "coerced _ _ \<longleftrightarrow> False"

lemma coerce_datetime_coerced: "coerce_datetime d = Inr w \<Longrightarrow> coerced w TDate"
  by (auto simp: coerce_datetime_def split: datetime.splits if_splits)

lemma coerce_coerced: "coerce_value from_iso v ty = Inr w \<Longrightarrow> coerced w ty"
  by (cases ty; cases v) (auto split: if_splits option.splits dest: coerce_datetime_coerced)

lemma coerce_fields_coerced:
  assumes "coerce_fields from_iso c eid fs vals = Inr kw" and "distinct (map fst fs)"
  shows "set (map fst kw) \<subseteq> set (map fst fs) \<and> (\<forall>f ty v. (f, ty) \<in> set fs \<longrightarrow> get kw f = Some v \<longrightarrow> coerced v ty)"
  using assms
proof (induction fs arbitrary: kw)
  case (Cons x fs)
  obtain f ty where x: "x = (f, ty)" by (cases x)
  show ?case
  proof (cases "get vals f")
    case None
    with Cons.prems x have r: "coerce_fields from_iso c eid fs vals = Inr kw" by simp
    with Cons.IH [OF r] Cons.prems(2) x have i: "set (map fst kw) \<subseteq> set (map fst fs)"
      "\<forall>f ty v. (f, ty) \<in> set fs \<longrightarrow> get kw f = Some v \<longrightarrow> coerced v ty" by simp_all
    moreover have "get kw f = None" using i(1) Cons.prems(2) x by (auto simp: map_of_eq_None_iff)
    ultimately show ?thesis using x by auto
  next
    case (Some v)
    with Cons.prems(1) x obtain w kw' where w: "coerce_value from_iso v ty = Inr w"
      and r: "coerce_fields from_iso c eid fs vals = Inr kw'" and kw: "kw = (f, w) # kw'"
      by (auto simp: result_simps split: sum.splits)
    have fresh: "(f, ty') \<notin> set fs" for ty' using Cons.prems(2) x by force
    from Cons.IH [OF r] Cons.prems(2) x kw coerce_coerced [OF w] fresh show ?thesis by auto
  qed
qed simp

lemma all_checks_Inr [simp]: "all_checks cs = Inr () \<longleftrightarrow> (\<forall>c\<in>set cs. c = Inr ())"
  by (induction cs) (auto simp: result_simps)

lemma check_Inr: "check v p m = Inr () \<longleftrightarrow> v = WNull \<or> p v"
  by (auto simp: check_def)

lemma date_after_Inr: "date_after a b m = Inr () \<longleftrightarrow> a = WNull \<or> b = WNull \<or> \<not> date_le b a"
  by (auto simp: date_after_def)

lemma validate_iff:
  "validate_event_semantics kw = Inr () \<longleftrightarrow>
     (\<forall>f\<in>{''book_id'', ''loan_id'', ''patron_id''}. dget kw f = WNull \<or> str_test safe_reference (dget kw f))
   \<and> (dget kw ''reservation_id'' = WNull \<or> str_test uuid_shape (dget kw ''reservation_id''))
   \<and> (dget kw ''reservation_generation'' = WNull \<or> int_test (\<lambda>i. 1 \<le> i) (dget kw ''reservation_generation''))
   \<and> (\<forall>f\<in>{''borrower_email'', ''patron_email''}. dget kw f = WNull \<or> str_test normalized_email (dget kw f))
   \<and> (\<forall>f\<in>{''due_date'', ''return_due_date''}. dget kw ''borrowed_at'' = WNull \<or> dget kw f = WNull
        \<or> \<not> date_le (dget kw f) (dget kw ''borrowed_at''))
   \<and> (dget kw ''old_due_date'' = WNull \<or> dget kw ''new_due_date'' = WNull
        \<or> \<not> date_le (dget kw ''new_due_date'') (dget kw ''old_due_date''))
   \<and> (dget kw ''days_overdue'' = WNull \<or> int_test (\<lambda>i. 1 \<le> i) (dget kw ''days_overdue''))
   \<and> (\<forall>(f, n)\<in>{(''title'', 100), (''book_title'', 100), (''reason'', 500), (''original_event_type'', 64),
        (''aggregate_type'', 32), (''aggregate_id'', 64)}. dget kw f = WNull \<or> str_test (bounded_text n) (dget kw f))"
  unfolding validate_event_semantics_def all_checks_Inr set_append ball_Un set_map ball_simps
  by (simp add: check_Inr date_after_Inr)

lemma semantics:
  assumes "validate_event_semantics kw = Inr ()"
  shows "f \<in> {''book_id'', ''loan_id'', ''patron_id''} \<Longrightarrow> dget kw f = WStr s \<Longrightarrow> safe_reference s"
    and "dget kw ''reservation_id'' = WStr s \<Longrightarrow> uuid_shape s"
    and "dget kw ''reservation_generation'' = WInt i \<Longrightarrow> 1 \<le> i"
    and "f \<in> {''borrower_email'', ''patron_email''} \<Longrightarrow> dget kw f = WStr s \<Longrightarrow> normalized_email s"
    and "f \<in> {''due_date'', ''return_due_date''} \<Longrightarrow> dget kw ''borrowed_at'' = WDate d \<Longrightarrow> dget kw f = WDate e
      \<Longrightarrow> instant_of d < instant_of e"
    and "dget kw ''old_due_date'' = WDate d \<Longrightarrow> dget kw ''new_due_date'' = WDate e \<Longrightarrow> instant_of d < instant_of e"
    and "dget kw ''days_overdue'' = WInt i \<Longrightarrow> 1 \<le> i"
    and "f \<in> {''title'', ''book_title''} \<Longrightarrow> dget kw f = WStr s \<Longrightarrow> bounded_text 100 s"
    and "dget kw ''reason'' = WStr s \<Longrightarrow> bounded_text 500 s"
proof -
  note v = assms [unfolded validate_iff]
  from v [THEN conjunct1] show "f \<in> {''book_id'', ''loan_id'', ''patron_id''} \<Longrightarrow> dget kw f = WStr s \<Longrightarrow> safe_reference s"
    by (metis str_test.simps(1) wire.distinct(7))
  show "dget kw ''reservation_id'' = WStr s \<Longrightarrow> uuid_shape s"
    using v [THEN conjunct2, THEN conjunct1] by simp
  show "dget kw ''reservation_generation'' = WInt i \<Longrightarrow> 1 \<le> i"
    using v [THEN conjunct2, THEN conjunct2, THEN conjunct1] by simp
  note v2 = v [THEN conjunct2, THEN conjunct2, THEN conjunct2]
  show "f \<in> {''borrower_email'', ''patron_email''} \<Longrightarrow> dget kw f = WStr s \<Longrightarrow> normalized_email s"
    using v2 [THEN conjunct1] by (metis str_test.simps(1) wire.distinct(7))
  show "f \<in> {''due_date'', ''return_due_date''} \<Longrightarrow> dget kw ''borrowed_at'' = WDate d \<Longrightarrow> dget kw f = WDate e
      \<Longrightarrow> instant_of d < instant_of e"
  proof -
    assume f: "f \<in> {''due_date'', ''return_due_date''}" and d: "dget kw ''borrowed_at'' = WDate d" "dget kw f = WDate e"
    from bspec [OF v2 [THEN conjunct2, THEN conjunct1] f] d show ?thesis by simp
  qed
  note v3 = v2 [THEN conjunct2, THEN conjunct2]
  show "dget kw ''old_due_date'' = WDate d \<Longrightarrow> dget kw ''new_due_date'' = WDate e \<Longrightarrow> instant_of d < instant_of e"
    using v3 [THEN conjunct1] by simp
  show "dget kw ''days_overdue'' = WInt i \<Longrightarrow> 1 \<le> i"
    using v3 [THEN conjunct2, THEN conjunct1] by simp
  note v4 = v3 [THEN conjunct2, THEN conjunct2]
  show "f \<in> {''title'', ''book_title''} \<Longrightarrow> dget kw f = WStr s \<Longrightarrow> bounded_text 100 s"
    using bspec [OF v4, of "(f, 100)"] by auto
  show "dget kw ''reason'' = WStr s \<Longrightarrow> bounded_text 500 s"
    using bspec [OF v4, of "(''reason'', 500)"] by simp
qed

definition well_typed :: "event_class \<Rightarrow> (string \<times> wire) list \<Rightarrow> bool" where
  "well_typed k kw \<longleftrightarrow> (\<forall>(f, ty)\<in>set (data_types k). coerced (dget kw f) ty)"

lemma coerced_args:
  "coerced (dget kw f) TStr \<longleftrightarrow> dget kw f = WStr (str_arg kw f) \<and> nonblank (str_arg kw f)"
  "coerced (dget kw f) TInt \<longleftrightarrow> dget kw f = WInt (int_arg kw f)"
  "coerced (dget kw f) TBool \<longleftrightarrow> dget kw f = WBool (bool_arg kw f)"
  "coerced (dget kw f) TDate \<longleftrightarrow> dget kw f = WDate (date_arg kw f) \<and> date_arg kw f = utc (instant_arg kw f)
     \<and> in_range (instant_arg kw f)"
proof -
  show "coerced (dget kw f) TDate \<longleftrightarrow> dget kw f = WDate (date_arg kw f) \<and> date_arg kw f = utc (instant_arg kw f)
     \<and> in_range (instant_arg kw f)"
  proof (cases "dget kw f")
    case (WDate d)
    then show ?thesis by (cases d) (auto simp: instant_arg_def date_arg_def)
  qed (auto simp: date_arg_def)
qed (cases "dget kw f"; auto simp: str_arg_def int_arg_def bool_arg_def)+

lemma build_ok:
  assumes v: "validate_event_semantics kw = Inr ()" and t: "well_typed k kw"
  shows "event_data_ok (build k kw)"
proof -
  note sem = semantics [OF v]
  have c: "(f, ty) \<in> set (data_types k) \<Longrightarrow> coerced (dget kw f) ty" for f ty
    using t by (auto simp: well_typed_def)
  have S: "(f, TStr) \<in> set (data_types k) \<Longrightarrow> dget kw f = WStr (str_arg kw f) \<and> nonblank (str_arg kw f)" for f
    using c [of f TStr] coerced_args(1) by simp
  have I: "(f, TInt) \<in> set (data_types k) \<Longrightarrow> dget kw f = WInt (int_arg kw f)" for f
    using c [of f TInt] coerced_args(2) by simp
  have D: "(f, TDate) \<in> set (data_types k) \<Longrightarrow> dget kw f = WDate (date_arg kw f)
      \<and> date_arg kw f = utc (instant_arg kw f) \<and> in_range (instant_arg kw f)" for f
    using c [of f TDate] coerced_args(4) by simp
  have ref: "f \<in> {''book_id'', ''loan_id'', ''patron_id''} \<Longrightarrow> (f, TStr) \<in> set (data_types k) \<Longrightarrow> safe_reference (str_arg kw f)" for f
    using S [of f] by (intro sem(1)) blast+
  have email: "f \<in> {''borrower_email'', ''patron_email''} \<Longrightarrow> (f, TStr) \<in> set (data_types k) \<Longrightarrow> normalized_email (str_arg kw f)" for f
    using S [of f] by (intro sem(4)) blast+
  have title: "f \<in> {''title'', ''book_title''} \<Longrightarrow> (f, TStr) \<in> set (data_types k) \<Longrightarrow> bounded_text 100 (str_arg kw f)" for f
    using S [of f] by (intro sem(8)) blast+
  have reason: "(''reason'', TStr) \<in> set (data_types k) \<Longrightarrow> bounded_text 500 (str_arg kw ''reason'')"
    using S by (intro sem(9)) blast+
  have res: "(''reservation_id'', TStr) \<in> set (data_types k) \<Longrightarrow> (''reservation_generation'', TInt) \<in> set (data_types k)
      \<Longrightarrow> reservation_ok (str_arg kw ''reservation_id'') (int_arg kw ''reservation_generation'')"
    unfolding reservation_ok_def using S I by (intro conjI sem(2,3)) blast+
  have str: "(f, TStr) \<in> set (data_types k) \<Longrightarrow> nonblank (str_arg kw f)" for f using S by simp
  have days: "(''days_overdue'', TInt) \<in> set (data_types k) \<Longrightarrow> 1 \<le> int_arg kw ''days_overdue''"
    using I by (intro sem(7)) blast+
  have date: "(f, TDate) \<in> set (data_types k) \<Longrightarrow> date_arg kw f = utc (instant_arg kw f) \<and> in_range (instant_arg kw f)" for f
    using D by simp
  have due: "f \<in> {''due_date'', ''return_due_date''} \<Longrightarrow> (f, TDate) \<in> set (data_types k)
      \<Longrightarrow> (''borrowed_at'', TDate) \<in> set (data_types k) \<Longrightarrow> instant_arg kw ''borrowed_at'' < instant_arg kw f" for f
    unfolding instant_arg_def using D by (intro sem(5)) blast+
  have ext: "(''old_due_date'', TDate) \<in> set (data_types k) \<Longrightarrow> (''new_due_date'', TDate) \<in> set (data_types k)
      \<Longrightarrow> instant_arg kw ''old_due_date'' < instant_arg kw ''new_due_date''"
    unfolding instant_arg_def using D by (intro sem(6)) blast+
  show ?thesis
    by (cases k; simp add: ref email title reason res str days date due ext)
qed

lemma construct_event_Inr:
  assumes "construct_event from_iso c metadata data = Inr ev"
  obtains kw where "validate_event_semantics kw = Inr ()" "well_typed (ec_class c) kw"
    "construct_class (ec_class c) kw = Inr ev"
proof -
  from assms obtain kw eid where kw: "coerce_fields from_iso c eid (class_fields (ec_class c)) (metadata @ data) = Inr kw"
    and v: "validate_event_semantics kw = Inr ()" and k: "construct_class (ec_class c) kw = Inr ev"
    by (auto simp: construct_event_def Let_def result_simps rbind_def split: if_splits list.splits sum.splits)
  from k have keys: "set (map fst (data_types (ec_class c))) \<subseteq> set (map fst kw)"
    by (auto simp: construct_class_def split: if_splits)
  have "well_typed (ec_class c) kw"
    unfolding well_typed_def
  proof safe
    fix f ty assume f: "(f, ty) \<in> set (data_types (ec_class c))"
    then have "f \<in> set (map fst kw)" using keys by force
    then obtain v where "get kw f = Some v" by (metis map_of_eq_None_iff not_Some_eq set_map)
    with coerce_fields_coerced [OF kw distinct_fields] f show "coerced (dget kw f) ty"
      by (auto simp: dget_def class_fields_def)
  qed
  with v k that show thesis by blast
qed

lemma construct_event_ok:
  assumes "construct_event from_iso c metadata data = Inr ev"
  shows "event_ok ev \<and> event_data_ok (event_data ev) \<and> class_of (event_data ev) = ec_class c"
proof -
  from construct_event_Inr [OF assms] obtain kw where v: "validate_event_semantics kw = Inr ()"
    and t: "well_typed (ec_class c) kw" and k: "construct_class (ec_class c) kw = Inr ev" .
  from k have i: "domain_event_init (str_arg kw ''event_id'') (date_arg kw ''occurred_at'')
      (opt_str_arg kw ''correlation_id'') (opt_str_arg kw ''causation_id'') (build (ec_class c) kw) = Inr ev"
    by (auto simp: construct_class_def split: if_splits sum.splits)
  then have "event_data ev = build (ec_class c) kw" by (auto simp: domain_event_init_def result_simps)
  with build_ok [OF v t] domain_event_init_ok [OF i] show ?thesis by simp
qed

text \<open>
  C37: Whatever JSON arrives, an event that is handed to handlers is well-formed: its
  identities are safe, every reference is a safe identifier of at most 64 characters,
  reservation ids are UUIDs and generations positive, emails are normalised addresses, texts are
  non-blank and within their limits, and due dates lie after the dates they follow.
\<close>

theorem deserialized_event_is_well_formed:
  assumes "deserialize_event from_iso payload = Inr ev"
  shows "event_ok ev \<and> event_data_ok (event_data ev)"
proof -
  from assms obtain c m d where "construct_event from_iso c m d = Inr ev"
    by (auto simp: deserialize_event_def result_simps split: wire.splits prod.splits)
  from construct_event_ok [OF this] show ?thesis by blast
qed

definition removed_payload :: "string \<Rightarrow> wire" where
  "removed_payload eid = WObj
     [(''envelope_version'', WInt 1),
      (''contract'', WObj [(''namespace'', WStr ''library.catalog''), (''name'', WStr ''book-removed''),
         (''version'', WInt 1)]),
      (''metadata'', WObj [(''event_id'', WStr eid), (''occurred_at'', WStr ''now''),
         (''correlation_id'', WNull), (''causation_id'', WNull)]),
      (''data'', WObj [(''book_id'', WStr ''book-1'')])]"

definition always_five :: "string \<Rightarrow> datetime option" where
  "always_five s = Some (utc 5)"

theorem deserialized_event_is_well_formed_witness:
  "event_ok (sample_event (CatalogEvent (BookRemovedFromCatalog ''book-1'')))
   \<and> event_data_ok (event_data (sample_event (CatalogEvent (BookRemovedFromCatalog ''book-1''))))"
proof -
  have "deserialize_event always_five (removed_payload ''evt-1'')
      = Inr (sample_event (CatalogEvent (BookRemovedFromCatalog ''book-1'')))"
    by code_simp
  then show ?thesis by (rule deserialized_event_is_well_formed)
qed

section \<open>Failures that are not contract errors\<close>

text \<open>
  A malformed \<open>event_id\<close> (or correlation or causation id) passes the checks of the registry and is
  refused by the constructor of the event with a \<open>ValidationException\<close>, which is not a
  \<open>ValueError\<close>: the consumer does not see a contract error, so the message is not quarantined.
\<close>

lemma malformed_event_id_escapes:
  "deserialize_event always_five (removed_payload ''bad id!'')
     = Inl (AppException (Shared (ValidationException ''event_id must be 1-128 URL/log-safe characters'')))"
  by code_simp

lemma escaping_errors:
  assumes "deserialize_event from_iso payload = Inl e"
  shows "contract_error e \<or> e = OverflowError \<or> (\<exists>x. e = AppException x)"
proof -
  have construct_class: "construct_class k kw = Inl x \<Longrightarrow> type_or_value_error x \<or> (\<exists>y. x = AppException y)" for k kw x
    by (auto simp: construct_class_def split: if_splits sum.splits)
  have coerce: "coerce_value from_iso v ty = Inl x \<Longrightarrow> type_or_value_error x \<or> x = OverflowError" for v ty x
    by (cases ty; cases v) (auto simp: coerce_datetime_def split: if_splits option.splits datetime.splits)
  have fields: "coerce_fields from_iso c eid fs vals = Inl x \<Longrightarrow> contract_error x \<or> x = OverflowError" for c eid fs vals x
  proof (induction fs)
    case (Cons y fs)
    then show ?case
      by (cases y) (auto simp: result_simps invalid_def split: option.splits sum.splits if_splits dest: coerce)
  qed simp
  have ck: "check v p m = Inl x \<Longrightarrow> type_or_value_error x" "date_after v w m = Inl x \<Longrightarrow> type_or_value_error x" for v w p m x
    by (auto simp: check_def date_after_def split: if_splits)
  have all_checks: "all_checks cs = Inl x \<Longrightarrow> \<exists>c\<in>set cs. c = Inl x" for cs x
    by (induction cs) (auto simp: result_simps)
  have semantics: "type_or_value_error x" if h: "validate_event_semantics kw = Inl x" for kw x
    using all_checks [OF h [unfolded validate_event_semantics_def]] by (auto dest: ck [OF sym])
  have construct: "contract_error x \<or> x = OverflowError \<or> (\<exists>y. x = AppException y)"
    if h: "construct_event from_iso c m d = Inl x" for c m d x
  proof (cases "\<exists>eid. coerce_fields from_iso c eid (class_fields (ec_class c)) (m @ d) = Inl x")
    case True
    with fields show ?thesis by blast
  next
    case False
    with h have "contract_error x \<or> (\<exists>kw. \<not> type_or_value_error x
        \<and> (validate_event_semantics kw = Inl x \<or> construct_class (ec_class c) kw = Inl x))"
      by (auto simp: construct_event_def Let_def invalid_def rbind_def split: if_splits list.splits sum.splits)
    with semantics construct_class show ?thesis by blast
  qed
  have read: "read_envelope p = Inl x \<Longrightarrow> contract_error x" for p x
    by (auto simp: read_envelope_def Let_def split: list.splits if_splits wire.splits option.splits)
  from assms show ?thesis
    by (auto simp: deserialize_event_def result_simps split: wire.splits prod.splits dest: read construct)
qed

end
