(* ===== verification/ConsumerProps.thy ===== *)
theory ConsumerProps
  imports MessageConsumer RegistryProps
begin

text \<open>
  Bounds and safety of message consumption: the retry cycle of one message fits into the poll
  interval the client was configured with, and a consumer that retries for ever commits the offset
  of an event only after a dispatch in which every handler succeeded.
\<close>

section \<open>The delays of a retry cycle\<close>

lemma retry_delays:
  assumes "retry_loop cfg f p handler park n st = (res, delays, st')" and "int n \<le> consumer_max_retries cfg"
  shows "int n + int (length delays) \<le> consumer_max_retries cfg \<and> delays = map (backoff cfg) [n..<n + length delays]"
  using assms
proof (induction cfg f p handler park n st arbitrary: res delays st' rule: retry_loop.induct)
  case (1 cfg f p handler park n st)
  obtain r s where h: "handler n st = (r, s)" by (cases "handler n st")
  show ?case
  proof (cases "\<exists>e. r = Inl e \<and> \<not> unrecoverable e \<and> int n < consumer_max_retries cfg")
    case True
    then obtain e where e: "r = Inl e" "\<not> unrecoverable e" "int n < consumer_max_retries cfg" by blast
    obtain res' ds s' where rec: "retry_loop cfg f p handler park (Suc n) s = (res', ds, s')" by (rule prod_cases3)
    with "1.prems"(1) h e have d: "delays = backoff cfg n # ds" by (subst (asm) retry_loop.simps) simp
    from "1.IH" [OF h [symmetric] e(1) e(2,3) rec] e(3)
    have "int (Suc n) + int (length ds) \<le> consumer_max_retries cfg" "ds = map (backoff cfg) [Suc n..<Suc n + length ds]"
      by simp_all
    moreover have "[n..<n + length delays] = n # [Suc n..<Suc n + length ds]"
      using d by (simp add: upt_conv_Cons del: upt_Suc)
    ultimately show ?thesis using d by simp
  next
    case False
    with "1.prems" h have "delays = []"
      by (subst (asm) retry_loop.simps) (auto split: sum.splits if_splits prod.splits)
    with "1.prems"(2) show ?thesis by simp
  qed
qed

lemma backoff_nonneg: "0 \<le> retry_backoff_seconds cfg \<Longrightarrow> 0 \<le> backoff cfg n"
  by (simp add: backoff_def)

lemma delays_within_budget:
  assumes "0 \<le> retry_backoff_seconds cfg" and "int k \<le> consumer_max_retries cfg"
  shows "sum_list (map (backoff cfg) [0..<k]) \<le> retry_delay_budget cfg"
proof -
  have k: "k \<le> nat (consumer_max_retries cfg)" using assms(2) by simp
  have "sum_list (map (backoff cfg) [0..<nat (consumer_max_retries cfg)])
      = sum_list (map (backoff cfg) [0..<k]) + sum_list (map (backoff cfg) [k..<nat (consumer_max_retries cfg)])"
    using k by (metis le_add_diff_inverse map_append sum_list_append upt_add_eq_append zero_le)
  moreover have "0 \<le> sum_list (map (backoff cfg) [k..<nat (consumer_max_retries cfg)])"
    using assms(1) by (intro sum_list_nonneg) (auto simp: backoff_nonneg)
  moreover have "retry_delay_budget cfg = sum_list (map (backoff cfg) [0..<nat (consumer_max_retries cfg)])"
    by (simp add: retry_delay_budget_def backoff_def [abs_def])
  ultimately show ?thesis by simp
qed

text \<open>
  C38: With a configuration the client accepts, the longest possible retry cycle of a message
  (every attempt up to its processing timeout, all delays between attempts, a dead-letter
  publication up to its own timeout and five seconds of slack) ends before the poll interval
  after which the broker would give the partition to another consumer.
\<close>

theorem retry_cycle_fits_poll_interval:
  assumes "kafka_client cfg = Inr cfg'"
    and "handle_with_retry cfg' retry_forever park_unrecoverable handler park st = (res, delays, st')"
  shows "(message_processing_timeout_seconds cfg' * (real (length delays) + 1) + sum_list delays
      + dlq_park_timeout_seconds + 5) * 1000 < consumer_max_poll_interval_ms cfg'"
proof -
  from assms(1) have c: "cfg' = cfg" "0 \<le> consumer_max_retries cfg" "0 \<le> retry_backoff_seconds cfg"
    "0 < message_processing_timeout_seconds cfg" "poll_cycle_budget cfg * 1000 < consumer_max_poll_interval_ms cfg"
    by (auto simp: kafka_client_def split: if_splits)
  have d: "int (length delays) \<le> consumer_max_retries cfg" "delays = map (backoff cfg) [0..<length delays]"
    using retry_delays [OF assms(2) [unfolded handle_with_retry_def c(1)]] c(2) by simp_all
  have "sum_list delays \<le> retry_delay_budget cfg"
    using delays_within_budget [OF c(3) d(1)] d(2) by simp
  moreover have "message_processing_timeout_seconds cfg * (real (length delays) + 1)
      \<le> message_processing_timeout_seconds cfg * (consumer_max_retries cfg + 1)"
    using c(4) d(1) by (intro mult_left_mono) simp_all
  ultimately show ?thesis using c(1,5) by (simp add: poll_cycle_budget_def)
qed

definition sample_kafka :: kafka_config where
  "sample_kafka = \<lparr>consumer_max_retries = 1, retry_backoff_seconds = 1, consumer_max_poll_interval_ms = 900000,
     message_processing_timeout_seconds = 180, internal_topic_replication_factor = 3\<rparr>"

lemma sample_kafka_ok: "kafka_client sample_kafka = Inr sample_kafka"
  by (simp add: kafka_client_def sample_kafka_def max_message_processing_timeout_seconds_def poll_cycle_budget_def
      retry_delay_budget_def backoff_def dlq_park_timeout_seconds_def)

theorem retry_cycle_fits_poll_interval_witness:
  "(message_processing_timeout_seconds sample_kafka * (real (length [backoff sample_kafka 0]) + 1)
     + sum_list [backoff sample_kafka 0] + dlq_park_timeout_seconds + 5) * 1000
   < consumer_max_poll_interval_ms sample_kafka"
proof -
  have m: "consumer_max_retries sample_kafka = 1" by (simp add: sample_kafka_def)
  have "retry_loop sample_kafka True True (\<lambda>n s. (Inl TimeoutError, s + n)) (\<lambda>e s. (Inr (), s)) (Suc 0) (7::nat)
      = (Uncommitted TimeoutError, [], 8)"
    by (subst retry_loop.simps) (simp add: m)
  then have "handle_with_retry sample_kafka True True (\<lambda>n s. (Inl TimeoutError, s + n)) (\<lambda>e s. (Inr (), s)) (7::nat)
      = (Uncommitted TimeoutError, [backoff sample_kafka 0], 8)"
    unfolding handle_with_retry_def by (subst retry_loop.simps) (simp add: m)
  from retry_cycle_fits_poll_interval [OF sample_kafka_ok this] show ?thesis .
qed

section \<open>What a committed offset means\<close>

text \<open>How the loop ends when transient failures are retried for ever.\<close>

lemma retry_for_ever_outcome:
  assumes "retry_loop cfg True p handler park n st = (res, delays, st')"
  shows "res = Handled \<and> (\<exists>m s. handler m s = (Inr (), st'))
    \<or> res = Parked \<and> (\<exists>m s e s'. handler m s = (Inl e, s') \<and> unrecoverable e \<and> park e s' = (Inr (), st'))
    \<or> (\<exists>e. res = Uncommitted e)"
  using assms
proof (induction cfg "True" p handler park n st arbitrary: res delays st' rule: retry_loop.induct)
  case (1 cfg p handler park n st)
  obtain r s where h: "handler n st = (r, s)" by (cases "handler n st")
  show ?case
  proof (cases "\<exists>e. r = Inl e \<and> \<not> unrecoverable e \<and> int n < consumer_max_retries cfg")
    case True
    then obtain e where e: "r = Inl e" "\<not> unrecoverable e" "int n < consumer_max_retries cfg" by blast
    obtain res' ds s' where rec: "retry_loop cfg True p handler park (Suc n) s = (res', ds, s')" by (rule prod_cases3)
    with "1.prems" h e have "res = res'" "st' = s'" by (auto simp: retry_loop.simps [of cfg True p handler park n st])
    with "1.hyps" [OF h [symmetric] e(1) e(2,3) rec] show ?thesis by simp
  next
    case False
    show ?thesis
    proof (cases r)
      case (Inr u)
      with "1.prems" h show ?thesis by (auto simp: retry_loop.simps [of cfg True p handler park n st])
    next
      case (Inl e)
      with False have u: "unrecoverable e \<or> \<not> int n < consumer_max_retries cfg" by blast
      obtain q s'' where k: "park e s = (q, s'')" by (cases "park e s")
      with "1.prems" h Inl u show ?thesis
        by (cases q) (auto simp: retry_loop.simps [of cfg True p handler park n st] split: if_splits)
    qed
  qed
qed

lemma dispatch_errors:
  assumes "dispatch subs inbox ident amb ev st = (Inl e, st')"
  shows "\<not> unrecoverable e"
proof -
  have all: "deliver_all inbox ident amb ev rs fs s = (Inl e, s') \<Longrightarrow> \<not> unrecoverable e" for rs fs s s'
    by (induction rs arbitrary: fs s)
       (auto simp: resolve_handler_def split: sum.splits prod.splits registration.splits option.splits)
  show ?thesis using assms
    by (auto simp: dispatch_def dispatch_failed_def dest: all split: prod.splits sum.splits if_splits)
qed

lemma delivery_identity_error: "delivery_identity digest canonical d = Inl e \<Longrightarrow> \<not> unrecoverable e"
  by (auto simp: delivery_identity_def split: wire.splits)

text \<open>An attempt at a record that carries an event ends with the dispatch of this event.\<close>

lemma attempt_event:
  assumes "decode_json_field decode_json (kr_key r) ''key'' = Inr key"
    and "decode_json_field decode_json (kr_value r) ''value'' = Inr value"
    and "deserialize_event from_iso value = Inr ev"
    and "attempt_record decode_json cancelled
      (process_message from_iso digest canonical (event_consumer subs inbox amb store)) r n st = (res, st')"
  shows "(res = Inr () \<longrightarrow> (\<exists>ident d. dispatch subs inbox (Inr ident) amb ev d = (Inr (), snd st')))
    \<and> (\<forall>e. res = Inl e \<longrightarrow> \<not> unrecoverable e)"
proof -
  obtain d where val: "value = WObj d" using assms(3) by (auto simp: deserialize_event_def split: wire.splits)
  show ?thesis
  proof (cases "cancelled n st")
    case (Some s)
    with assms(1,2,4) show ?thesis by (auto simp: attempt_record_def)
  next
    case None
    obtain qs ib w where st: "st = (qs, ib, w)" by (cases st)
    show ?thesis
    proof (cases "delivery_identity digest canonical d")
      case (Inl e)
      with None assms st val show ?thesis
        by (auto simp: attempt_record_def process_message_def dest: delivery_identity_error split: if_splits)
    next
      case (Inr ident)
      obtain q ds' where disp: "dispatch subs inbox (Inr ident) amb ev (ib, w) = (q, ds')"
        by (cases "dispatch subs inbox (Inr ident) amb ev (ib, w)")
      with Inr None assms st val have r: "snd st' = ds'"
        "\<forall>e. res = Inl e \<longrightarrow> \<not> unrecoverable e" "res = Inr () \<longrightarrow> q = Inr ()"
        by (cases q; auto simp: attempt_record_def process_message_def event_consumer_def
            dest: dispatch_errors split: if_splits)+
      with disp show ?thesis by (metis (full_types))
    qed
  qed
qed

text \<open>
  C16: A consumer that retries transient failures for ever (the one that drives the borrow
  workflow) loses no event: when the offset of a record that carries an event is committed, the
  record was not parked, and an attempt at it ended with a dispatch of that event in which no
  handler failed.
\<close>

theorem committed_event_was_dispatched:
  assumes "decode_json_field decode_json (kr_key r) ''key'' = Inr key"
    and "decode_json_field decode_json (kr_value r) ''value'' = Inr value"
    and "deserialize_event from_iso value = Inr ev"
    and "handle_with_retry cfg True park_unrecoverable
      (attempt_record decode_json cancelled
        (process_message from_iso digest canonical (event_consumer subs inbox amb store)) r)
      park st = (res, delays, st')"
    and "res = Handled \<or> res = Parked"
  shows "res = Handled \<and> (\<exists>ident d. dispatch subs inbox (Inr ident) amb ev d = (Inr (), snd st'))"
  using retry_for_ever_outcome [OF assms(4) [unfolded handle_with_retry_def]]
proof (elim disjE conjE exE)
  fix m s assume "res = Handled"
    "attempt_record decode_json cancelled
      (process_message from_iso digest canonical (event_consumer subs inbox amb store)) r m s = (Inr (), st')"
  with attempt_event [OF assms(1-3)] show ?thesis by blast
next
  fix m s e s' assume "unrecoverable e"
    "attempt_record decode_json cancelled
      (process_message from_iso digest canonical (event_consumer subs inbox amb store)) r m s = (Inl e, s')"
  with attempt_event [OF assms(1-3)] show ?thesis by blast
next
  fix e assume "res = Uncommitted e"
  with assms(5) show ?thesis by simp
qed

definition sample_record :: kafka_record where
  "sample_record = \<lparr>kr_topic = ''catalog'', kr_partition = 0, kr_offset = 7, kr_key = None, kr_value = Some ''raw''\<rparr>"

definition counting_handler :: "nat event_handler" where
  "counting_handler = \<lparr>inbox_consumer_name = Some ''count'', type_path = ''Count'', handle = (\<lambda>amb ev n. (None, Suc n))\<rparr>"

definition counting_consumer :: "(unit \<times> unit \<times> nat) consumer" where
  "counting_consumer = event_consumer [(None, [HandlerInstance counting_handler])] None sample_ambient
     (\<lambda>q s. (Inr ''row'', s))"

definition sample_decode :: "string \<Rightarrow> wire option" where
  "sample_decode s = Some (removed_payload ''evt-1'')"

theorem committed_event_was_dispatched_witness:
  "\<exists>ident d. dispatch [(None, [HandlerInstance counting_handler])] (None :: unit inbox_protocol option) (Inr ident)
     sample_ambient (sample_event (CatalogEvent (BookRemovedFromCatalog ''book-1''))) d = (Inr (), ((), 1 :: nat))"
proof -
  let ?handler = "attempt_record sample_decode (\<lambda>n st. None)
    (process_message always_five (\<lambda>s. s) (\<lambda>v. ''json'') counting_consumer) sample_record"
  have "decode_json_field sample_decode (kr_key sample_record) ''key'' = Inr WNull"
    and "decode_json_field sample_decode (kr_value sample_record) ''value'' = Inr (removed_payload ''evt-1'')"
    by (simp_all add: decode_json_field_def sample_record_def sample_decode_def)
  moreover have "deserialize_event always_five (removed_payload ''evt-1'')
      = Inr (sample_event (CatalogEvent (BookRemovedFromCatalog ''book-1'')))" by code_simp
  moreover have "?handler 0 ((), (), 0) = (Inr (), (), (), 1)" by code_simp
  then have "handle_with_retry sample_kafka True True ?handler (\<lambda>e s. (Inr (), s)) ((), (), 0) = (Handled, [], (), (), 1)"
    unfolding handle_with_retry_def by (subst retry_loop.simps) simp
  ultimately show ?thesis
    using committed_event_was_dispatched [of sample_decode sample_record WNull "removed_payload ''evt-1''" always_five
      "sample_event (CatalogEvent (BookRemovedFromCatalog ''book-1''))" sample_kafka True "\<lambda>n st. None" "\<lambda>s. s"
      "\<lambda>v. ''json''" "[(None, [HandlerInstance counting_handler])]" None sample_ambient "\<lambda>q s. (Inr ''row'', s)"
      "\<lambda>e s. (Inr (), s)" "((), (), 0)" Handled "[]" "((), (), 1)"]
    by (simp add: counting_consumer_def)
qed

end
