(* ===== verification/Json.thy ===== *)
theory Json
  imports EventRegistry Fingerprint
begin

text \<open>
  The text of JSON values, as Python's \<open>json\<close> module prints and reads it: \<open>json_text\<close> is
  \<open>json.dumps\<close> with the separators \<open>,\<close> and \<open>:\<close> followed by \<open>sp\<close> (nothing, or a blank by default), the ASCII escapes and a \<open>default\<close> hook that prints
  datetimes with \<open>isoformat\<close>; \<open>json_dumps\<close> also sorts the keys; \<open>json_loads\<close> is \<open>json.loads\<close>.

  The strings of the model are Latin-1: a text with an escape beyond \<open>\u00ff\<close>, and the
  constants \<open>NaN\<close> and \<open>Infinity\<close> that Python also reads, are outside of it (\<open>None\<close>). The
  decimal text of a float is the parameter \<open>fr\<close>. The reader recurses on fuel; the length of the
  text is always enough (\<open>json_loads_text\<close> proves it for printed texts).
\<close>

section \<open>Printing\<close>

definition offset_text :: "int \<Rightarrow> string" where
  "offset_text off =
     (let u = nat \<bar>off\<bar>; s = u mod 60000000
      in (if off < 0 then ''-'' else ''+'') @ pad 2 (u div 3600000000) @ '':'' @ pad 2 (u div 60000000 mod 60)
         @ (if s = 0 then [] else '':'' @ pad 2 (s div 1000000)
              @ (if s mod 1000000 = 0 then [] else ''.'' @ pad 6 (s mod 1000000))))"

fun datetime_text :: "datetime \<Rightarrow> string" where
  "datetime_text (Naive t) = wall_clock_text t"
| "datetime_text (Aware t off) = wall_clock_text (t + off) @ offset_text off"

fun json_text :: "string \<Rightarrow> (rat \<Rightarrow> string) \<Rightarrow> wire \<Rightarrow> string"
  and json_items :: "string \<Rightarrow> (rat \<Rightarrow> string) \<Rightarrow> wire list \<Rightarrow> string"
  and json_members :: "string \<Rightarrow> (rat \<Rightarrow> string) \<Rightarrow> (string \<times> wire) list \<Rightarrow> string" where
  "json_text sp fr WNull = ''null''"
| "json_text sp fr (WBool b) = (if b then ''true'' else ''false'')"
| "json_text sp fr (WInt i) = show_int i"
| "json_text sp fr (WFloat r) = fr r"
| "json_text sp fr (WStr s) = json_string s"
| "json_text sp fr (WDate d) = json_string (datetime_text d)"
| "json_text sp fr (WArr ws) = ''['' @ json_items sp fr ws"
| "json_text sp fr (WObj fs) = ''{'' @ json_members sp fr fs"
| "json_items sp fr [] = '']''"
| "json_items sp fr (w # ws) = json_text sp fr w @ (if ws = [] then '']'' else '','' @ sp @ json_items sp fr ws)"
| "json_members sp fr [] = ''}''"
| "json_members sp fr ((k, w) # fs) =
     json_string k @ '':'' @ sp @ json_text sp fr w @ (if fs = [] then ''}'' else '','' @ sp @ json_members sp fr fs)"

text \<open>\<open>sort_keys=True\<close>.\<close>

fun sorted_keys :: "wire \<Rightarrow> wire" where
  "sorted_keys (WArr ws) = WArr (map sorted_keys ws)"
| "sorted_keys (WObj fs) = WObj (sort_key fst (map (\<lambda>(k, w). (k, sorted_keys w)) fs))"
| "sorted_keys w = w"

definition json_dumps :: "(rat \<Rightarrow> string) \<Rightarrow> wire \<Rightarrow> string" where
  "json_dumps fr w = json_text [] fr (sorted_keys w)"

section \<open>Reading\<close>

definition json_space :: "char \<Rightarrow> bool" where
  "json_space c \<longleftrightarrow> c = CHR '' '' \<or> c = CHR 0x09 \<or> c = CHR 0x0A \<or> c = CHR 0x0D"

definition skip_space :: "string \<Rightarrow> string" where
  "skip_space s = dropWhile json_space s"

definition unescape :: "char \<Rightarrow> char option" where
  "unescape c =
     (if c = CHR 0x22 \<or> c = CHR 0x5C \<or> c = CHR ''/'' then Some c
      else if c = CHR ''b'' then Some (CHR 0x08) else if c = CHR ''f'' then Some (CHR 0x0C)
      else if c = CHR ''n'' then Some (CHR 0x0A) else if c = CHR ''r'' then Some (CHR 0x0D)
      else if c = CHR ''t'' then Some (CHR 0x09) else None)"

text \<open>The code of \<open>\uXXXX\<close>; only Latin-1 codes are in the model.\<close>

definition latin1_escape :: "char \<Rightarrow> char \<Rightarrow> char \<Rightarrow> char \<Rightarrow> char option" where
  "latin1_escape a b c d =
     (case (hexval a, hexval b, hexval c, hexval d) of
        (Some 0, Some 0, Some h, Some l) \<Rightarrow> Some (char_of (h * 16 + l))
      | _ \<Rightarrow> None)"

text \<open>The rest of a string literal, after its opening quote.\<close>

fun read_string :: "string \<Rightarrow> (string \<times> string) option" where
  "read_string [] = None"
| "read_string (c # s) =
     (if c = CHR 0x22 then Some ([], s)
      else if c = CHR 0x5C then
        (case s of
           [] \<Rightarrow> None
         | e # s' \<Rightarrow>
             (if e = CHR ''u'' then
                (case s' of
                   h1 # h2 # h3 # h4 # s'' \<Rightarrow>
                     (case latin1_escape h1 h2 h3 h4 of
                        None \<Rightarrow> None
                      | Some d \<Rightarrow> map_option (\<lambda>(t, r). (d # t, r)) (read_string s''))
                 | _ \<Rightarrow> None)
              else case unescape e of
                     None \<Rightarrow> None
                   | Some d \<Rightarrow> map_option (\<lambda>(t, r). (d # t, r)) (read_string s')))
      else if code c < 32 then None
      else map_option (\<lambda>(t, r). (c # t, r)) (read_string s))"

definition digits_of :: "string \<Rightarrow> string \<times> string" where
  "digits_of s = (takeWhile is_digit s, dropWhile is_digit s)"

text \<open>\<open>-?(0|[1-9][0-9]*)(\.[0-9]+)?([eE][-+]?[0-9]+)?\<close>\<close>

definition read_fraction :: "string \<Rightarrow> (string \<times> string) option" where
  "read_fraction s =
     (case s of
        c # s' \<Rightarrow> (if c = CHR ''.'' \<and> fst (digits_of s') \<noteq> [] then Some (digits_of s') else None)
      | [] \<Rightarrow> None)"

definition read_exponent :: "string \<Rightarrow> (int \<times> string) option" where
  "read_exponent s =
     (case s of
        c # s' \<Rightarrow>
          (if c = CHR ''e'' \<or> c = CHR ''E'' then
             (let (neg, t) = (case s' of
                  g # u \<Rightarrow> (if g = CHR ''-'' then (True, u) else if g = CHR ''+'' then (False, u) else (False, s'))
                | [] \<Rightarrow> (False, s'));
                  (ds, r) = digits_of t
              in if ds = [] then None
                 else Some ((if neg then - int (digits_value 0 ds) else int (digits_value 0 ds)), r))
           else None)
      | [] \<Rightarrow> None)"

definition read_number :: "string \<Rightarrow> (wire \<times> string) option" where
  "read_number s =
     (let (neg, s1) = (case s of c # s' \<Rightarrow> (if c = CHR ''-'' then (True, s') else (False, s)) | [] \<Rightarrow> (False, s));
          (ds, s2) = (case s1 of
             c # s' \<Rightarrow> (if c = CHR ''0'' then ([c], s') else digits_of s1)
           | [] \<Rightarrow> ([], []))
      in if ds = [] then None
         else case (read_fraction s2, read_exponent (case read_fraction s2 of None \<Rightarrow> s2 | Some (_, r) \<Rightarrow> r)) of
           (None, None) \<Rightarrow>
             Some (WInt (if neg then - int (digits_value 0 ds) else int (digits_value 0 ds)), s2)
         | (fp, ep) \<Rightarrow>
             (let (fd, r1) = (case fp of None \<Rightarrow> ([], s2) | Some x \<Rightarrow> x);
                  (e, r2) = (case ep of None \<Rightarrow> (0, r1) | Some x \<Rightarrow> x);
                  m = of_nat (digits_value 0 (ds @ fd)) / (10 :: rat) ^ length fd;
                  v = (if 0 \<le> e then m * 10 ^ nat e else m / 10 ^ nat (- e))
              in Some (WFloat (if neg then - v else v), r2)))"

definition literal :: "string \<Rightarrow> wire \<Rightarrow> string \<Rightarrow> (wire \<times> string) option" where
  "literal name w s = (if take (length name) s = name then Some (w, drop (length name) s) else None)"

text \<open>An object keeps the last value of a repeated key, at the place of the first.\<close>

definition put_member :: "string \<Rightarrow> wire \<Rightarrow> (string \<times> wire) list \<Rightarrow> (string \<times> wire) list" where
  "put_member k w fs =
     (if k \<in> fst ` set fs then map (\<lambda>(j, v). (j, if j = k then w else v)) fs else fs @ [(k, w)])"

fun read_value :: "nat \<Rightarrow> string \<Rightarrow> (wire \<times> string) option"
  and read_items :: "nat \<Rightarrow> wire list \<Rightarrow> string \<Rightarrow> (wire \<times> string) option"
  and read_members :: "nat \<Rightarrow> (string \<times> wire) list \<Rightarrow> string \<Rightarrow> (wire \<times> string) option" where
  "read_value 0 s = None"
| "read_value (Suc n) s =
     (case s of
        [] \<Rightarrow> None
      | c # s' \<Rightarrow>
          (if c = CHR 0x22 then map_option (\<lambda>(t, r). (WStr t, r)) (read_string s')
           else if c = CHR ''['' then
             (case skip_space s' of
                [] \<Rightarrow> None
              | d # r \<Rightarrow> (if d = CHR '']'' then Some (WArr [], r) else read_items n [] (d # r)))
           else if c = CHR ''{'' then
             (case skip_space s' of
                [] \<Rightarrow> None
              | d # r \<Rightarrow> (if d = CHR ''}'' then Some (WObj [], r) else read_members n [] (d # r)))
           else if c = CHR ''n'' then literal ''null'' WNull s
           else if c = CHR ''t'' then literal ''true'' (WBool True) s
           else if c = CHR ''f'' then literal ''false'' (WBool False) s
           else read_number s))"
| "read_items 0 acc s = None"
| "read_items (Suc n) acc s =
     (case read_value n s of
        None \<Rightarrow> None
      | Some (w, r) \<Rightarrow>
          (case skip_space r of
             [] \<Rightarrow> None
           | d # r' \<Rightarrow>
               (if d = CHR '']'' then Some (WArr (acc @ [w]), r')
                else if d = CHR '','' then read_items n (acc @ [w]) (skip_space r')
                else None)))"
| "read_members 0 acc s = None"
| "read_members (Suc n) acc s =
     (case s of
        [] \<Rightarrow> None
      | q # s' \<Rightarrow>
          (if q \<noteq> CHR 0x22 then None
           else case read_string s' of
             None \<Rightarrow> None
           | Some (k, r) \<Rightarrow>
               (case skip_space r of
                  [] \<Rightarrow> None
                | d # r' \<Rightarrow>
                    (if d \<noteq> CHR '':'' then None
                     else case read_value n (skip_space r') of
                       None \<Rightarrow> None
                     | Some (w, r'') \<Rightarrow>
                         (case skip_space r'' of
                            [] \<Rightarrow> None
                          | e # t \<Rightarrow>
                              (if e = CHR ''}'' then Some (WObj (put_member k w acc), t)
                               else if e = CHR '','' then read_members n (put_member k w acc) (skip_space t)
                               else None))))))"

definition json_loads :: "string \<Rightarrow> wire option" where
  "json_loads s =
     (case read_value (2 * length s + 2) (skip_space s) of
        Some (w, r) \<Rightarrow> (if skip_space r = [] then Some w else None)
      | None \<Rightarrow> None)"

section \<open>Reading a printed text\<close>

text \<open>Values without floats and datetimes, whose objects have distinct keys.\<close>

fun plain :: "wire \<Rightarrow> bool" where
  "plain (WFloat r) = False"
| "plain (WDate d) = False"
| "plain (WArr ws) = list_all plain ws"
| "plain (WObj fs) \<longleftrightarrow> distinct (map fst fs) \<and> list_all (\<lambda>(k, w). plain w) fs"
| "plain w = True"

lemma unescape_short: "short_escape c = Some d \<Longrightarrow> unescape d = Some c \<and> d \<noteq> CHR ''u''"
  by (auto simp: short_escape_def unescape_def code_def split: if_splits
      intro!: code_inject [THEN iffD1] simp: code_letters [unfolded code_def])

lemma latin1_hex:
  assumes "to_hex 2 (code c) = [h, l]"
  shows "latin1_escape CHR ''0'' CHR ''0'' h l = Some c"
proof -
  have b: "code c < 256" by (rule code_less_256)
  have "[h, l] = [hexchar (code c div 16 mod 16), hexchar (code c mod 16)]"
    unfolding assms [symmetric] by (simp add: numeral_2_eq_2)
  then have "hexval h = Some (code c div 16)" "hexval l = Some (code c mod 16)"
    using b by (simp_all add: hexval_hexchar)
  moreover have "hexval CHR ''0'' = Some 0" by (simp add: hexval_def is_digit_def code_def)
  moreover have "char_of (code c div 16 * 16 + code c mod 16) = c" by (simp add: code_def)
  ultimately show ?thesis by (simp add: latin1_escape_def)
qed

lemma read_json_char:
  "read_string (json_char c @ s) = map_option (\<lambda>(t, r). (c # t, r)) (read_string s)"
proof (cases rule: json_char_kind [of c])
  case (short d)
  with unescape_short [of c d] show ?thesis by simp
next
  case plain
  then have "32 \<le> code c" by (auto simp: json_char_def split: option.splits if_splits)
  with plain show ?thesis by simp
next
  case hex
  obtain h l where hl: "to_hex 2 (code c) = [h, l]"
    using length_to_hex [of 2 "code c"] by (auto simp: numeral_2_eq_2 length_Suc_conv)
  with hex latin1_hex [OF hl] show ?thesis by simp
qed

lemma read_json_string: "read_string (concat (map json_char s) @ CHR 0x22 # r) = Some (s, r)"
  by (induction s) (simp_all add: read_json_char)

lemma json_string_cons: "json_string s @ r = CHR 0x22 # concat (map json_char s) @ CHR 0x22 # r"
  by (simp add: json_string_def)

text \<open>What may follow a number.\<close>

definition number_end :: "string \<Rightarrow> bool" where
  "number_end r \<longleftrightarrow> (case r of [] \<Rightarrow> True
     | c # _ \<Rightarrow> \<not> is_digit c \<and> c \<noteq> CHR ''.'' \<and> c \<noteq> CHR ''e'' \<and> c \<noteq> CHR ''E'')"

lemma digits_then:
  assumes "\<forall>c\<in>set ds. is_digit c" and "number_end r"
  shows "digits_of (ds @ r) = (ds, r)"
  using assms by (induction ds) (auto simp: digits_of_def number_end_def split: list.splits)

lemma no_fraction: "number_end r \<Longrightarrow> read_fraction r = None \<and> read_exponent r = None"
  by (auto simp: number_end_def read_fraction_def read_exponent_def split: list.splits)

lemma show_nat_zero: "show_nat n = CHR ''0'' # ds \<Longrightarrow> n = 0 \<and> ds = []"
proof (induction n arbitrary: ds rule: show_nat.induct)
  case (1 n)
  show ?case
  proof (cases "n < 10")
    case True
    with "1.prems" have "digit_char n = CHR ''0''" "ds = []" by (subst (asm) show_nat.simps; simp)+
    then have "code (digit_char n) = 48" by (simp add: code_def)
    with True code_digit_char [of n] \<open>ds = []\<close> show ?thesis by simp
  next
    case False
    with "1.prems" have e: "show_nat (n div 10) @ [digit_char (n mod 10)] = CHR ''0'' # ds"
      by (subst (asm) show_nat.simps) simp
    then obtain ds' where "show_nat (n div 10) = CHR ''0'' # ds'"
      using show_nat_nonempty [of "n div 10"] by (cases "show_nat (n div 10)") auto
    with "1.IH" [OF False] False show ?thesis by auto
  qed
qed

lemma read_nat:
  assumes "number_end r"
  obtains c ds where "show_nat n = c # ds" "is_digit c"
    "(if c = CHR ''0'' then ([c], ds @ r) else digits_of (c # ds @ r)) = (show_nat n, r)"
proof -
  have d: "\<forall>c\<in>set (show_nat n). is_digit c" using show_nat_digits by blast
  obtain c ds where n: "show_nat n = c # ds" using show_nat_nonempty [of n] by (cases "show_nat n") auto
  show thesis
  proof (rule that [OF n])
    show "is_digit c" using d n by simp
    show "(if c = CHR ''0'' then ([c], ds @ r) else digits_of (c # ds @ r)) = (show_nat n, r)"
    proof (cases "c = CHR ''0''")
      case True
      with show_nat_zero [of n ds] n show ?thesis by simp
    next
      case False
      with digits_then [OF d assms] n show ?thesis by simp
    qed
  qed
qed

lemma digit_not_minus: "is_digit c \<Longrightarrow> c \<noteq> CHR ''-''"
  by (auto simp: is_digit_def code_def)

lemma read_show_int:
  assumes "number_end r"
  shows "read_number (show_int i @ r) = Some (WInt i, r)"
proof (cases "i < 0")
  case True
  obtain c ds where n: "show_nat (nat (- i)) = c # ds" "is_digit c"
    "(if c = CHR ''0'' then ([c], ds @ r) else digits_of (c # ds @ r)) = (show_nat (nat (- i)), r)"
    by (rule read_nat [OF assms])
  have "show_int i @ r = CHR ''-'' # c # ds @ r" using True n by (simp add: show_int_def)
  with n show_nat_nonempty [of "nat (- i)"] no_fraction [OF assms] True show ?thesis
    using show_nat_value [of "nat (- i)"] by (simp add: read_number_def)
next
  case False
  obtain c ds where n: "show_nat (nat i) = c # ds" "is_digit c"
    "(if c = CHR ''0'' then ([c], ds @ r) else digits_of (c # ds @ r)) = (show_nat (nat i), r)"
    by (rule read_nat [OF assms])
  have "show_int i @ r = c # ds @ r" using False n by (simp add: show_int_def)
  with n show_nat_nonempty [of "nat i"] no_fraction [OF assms] False digit_not_minus [OF n(2)] show ?thesis
    using show_nat_value [of "nat i"] by (simp add: read_number_def)
qed

text \<open>The first character of a printed value decides how it is read.\<close>

lemma json_text_start:
  assumes "plain w"
  obtains c s where "json_text sp fr w = c # s" "\<not> json_space c" "c \<noteq> CHR '']''" "c \<noteq> CHR ''}''"
proof (cases w)
  case (WInt i)
  obtain c s where cs: "show_int i = c # s" using show_int_nonempty [of i] by (cases "show_int i") auto
  with show_int_chars [of c i] have "is_digit c \<or> c = CHR ''-''" by simp
  then have "\<not> json_space c" "c \<noteq> CHR '']''" "c \<noteq> CHR ''}''"
    by (auto simp: json_space_def is_digit_def code_def)
  with that cs WInt show thesis by simp
next
  case (WBool b)
  with that show thesis by (cases b) (auto simp: json_space_def)
qed (use assms that in \<open>auto simp: json_space_def json_string_def split: if_splits\<close>)

lemma skip_blank: "list_all json_space sp \<Longrightarrow> skip_space (sp @ s) = skip_space s"
  by (induction sp) (auto simp: skip_space_def)

lemma skip_text: "plain w \<Longrightarrow> skip_space (json_text sp fr w @ r) = json_text sp fr w @ r"
  by (rule json_text_start [of w sp fr]) (auto simp: skip_space_def)

lemma items_end: "number_end (if ws = [] then CHR '']'' # r else CHR '','' # s)"
  and members_end: "number_end (if fs = [] then CHR ''}'' # r else CHR '','' # s)"
  by (simp_all add: number_end_def is_digit_def code_def)

lemma read_value_number:
  assumes "number_end r"
  shows "read_value (Suc n) (show_int i @ r) = Some (WInt i, r)"
proof -
  obtain c s where cs: "show_int i = c # s" using show_int_nonempty [of i] by (cases "show_int i") auto
  with show_int_chars [of c i] have "is_digit c \<or> c = CHR ''-''" by simp
  then have "c \<noteq> CHR 0x22" "c \<noteq> CHR ''[''" "c \<noteq> CHR ''{''" "c \<noteq> CHR ''n''" "c \<noteq> CHR ''t''" "c \<noteq> CHR ''f''"
    by (auto simp: is_digit_def code_def)
  with cs read_show_int [OF assms, of i] show ?thesis by simp
qed

lemma put_new: "k \<notin> fst ` set fs \<Longrightarrow> put_member k w fs = fs @ [(k, w)]"
  by (simp add: put_member_def)

lemma space_facts: "\<not> json_space CHR '',''" "\<not> json_space CHR '']''" "\<not> json_space CHR ''}''"
  "\<not> json_space CHR '':''" "\<not> json_space CHR 0x22" "\<not> json_space CHR ''[''" "\<not> json_space CHR ''{''"
  by (simp_all add: json_space_def)

lemma read_printed:
  "plain w \<Longrightarrow> number_end r \<Longrightarrow> 2 * length (json_text sp fr w) \<le> n \<Longrightarrow> list_all json_space sp
     \<Longrightarrow> read_value n (json_text sp fr w @ r) = Some (w, r)"
  "ws \<noteq> [] \<Longrightarrow> list_all plain ws \<Longrightarrow> 2 * length (json_items sp fr ws) \<le> n \<Longrightarrow> list_all json_space sp
     \<Longrightarrow> read_items n us (json_items sp fr ws @ r) = Some (WArr (us @ ws), r)"
  "fs \<noteq> [] \<Longrightarrow> list_all (\<lambda>(k, w). plain w) fs \<Longrightarrow> distinct (map fst (gs @ fs))
     \<Longrightarrow> 2 * length (json_members sp fr fs) \<le> n \<Longrightarrow> list_all json_space sp
     \<Longrightarrow> read_members n gs (json_members sp fr fs @ r) = Some (WObj (gs @ fs), r)"
proof (induction sp fr w and sp fr ws and sp fr fs arbitrary: n r and n us r and n gs r
    rule: json_text_json_items_json_members.induct)
  case (1 sp fr)
  then show ?case by (cases n) (simp_all add: literal_def)
next
  case (2 sp fr b)
  then show ?case by (cases n; cases b) (simp_all add: literal_def)
next
  case (3 sp fr i)
  then obtain m where "n = Suc m" using show_int_nonempty [of i] by (cases n) auto
  with 3 show ?case by (simp only: json_text.simps read_value_number)
next
  case (5 sp fr s)
  then show ?case by (cases n) (simp_all add: json_string_def read_json_string)
next
  case (7 sp fr ws)
  from "7.prems"(3) obtain m where n: "n = Suc m" by (cases n) auto
  show ?case
  proof (cases ws)
    case Nil
    with n show ?thesis by (simp add: skip_space_def space_facts)
  next
    case (Cons v vs)
    with "7.prems"(1) obtain c s where c: "json_text sp fr v = c # s" "\<not> json_space c" "c \<noteq> CHR '']''"
      by (auto elim: json_text_start [of v sp fr])
    have "read_items m [] (json_items sp fr ws @ r) = Some (WArr ([] @ ws), r)"
      using "7.prems"(1,3,4) n by (intro "7.IH") (simp_all add: Cons del: json_items.simps)
    with Cons n c show ?thesis by (simp add: skip_space_def)
  qed
next
  case (8 sp fr fs)
  from "8.prems"(3) obtain m where n: "n = Suc m" by (cases n) auto
  show ?case
  proof (cases fs)
    case Nil
    with n show ?thesis by (simp add: skip_space_def space_facts)
  next
    case (Cons f gs)
    have "read_members m [] (json_members sp fr fs @ r) = Some (WObj ([] @ fs), r)"
      using "8.prems"(1,3,4) n by (intro "8.IH") (simp_all add: Cons del: json_members.simps)
    with Cons n show ?thesis by (cases f) (simp add: skip_space_def json_string_def space_facts)
  qed
next
  case (10 sp fr w ws)
  from "10.prems"(3) obtain m where n: "n = Suc m" by (cases n) (auto split: if_splits)
  let ?tail = "if ws = [] then CHR '']'' # r else CHR '','' # sp @ json_items sp fr ws @ r"
  have form: "json_items sp fr (w # ws) @ r = json_text sp fr w @ ?tail" by simp
  have w: "read_value m (json_text sp fr w @ ?tail) = Some (w, ?tail)"
    using "10.prems"(2,3,4) n by (intro "10.IH"(1) items_end) (auto split: if_splits)
  show ?case
  proof (cases "ws = []")
    case True
    with w n show ?thesis unfolding form by (simp add: skip_space_def space_facts)
  next
    case False
    then obtain v vs where "ws = v # vs" by (cases ws) auto
    with "10.prems"(2) obtain c s where c: "json_items sp fr ws = c # s" "\<not> json_space c"
      by (auto elim!: json_text_start [of v sp fr])
    have "read_items m (us @ [w]) (json_items sp fr ws @ r) = Some (WArr ((us @ [w]) @ ws), r)"
      using False "10.prems"(2,3,4) n by (intro "10.IH"(2)) simp_all
    with w n c False skip_blank [OF "10.prems"(4)] show ?thesis
      unfolding form by (simp add: skip_space_def space_facts)
  qed
next
  case (12 sp fr k w fs)
  from "12.prems"(4) obtain m where n: "n = Suc m" by (cases n) (auto split: if_splits)
  let ?tail = "if fs = [] then CHR ''}'' # r else CHR '','' # sp @ json_members sp fr fs @ r"
  have form: "json_members sp fr ((k, w) # fs) @ r
      = CHR 0x22 # concat (map json_char k) @ CHR 0x22 # CHR '':'' # sp @ json_text sp fr w @ ?tail"
    by (simp add: json_string_def)
  have w: "read_value m (json_text sp fr w @ ?tail) = Some (w, ?tail)"
    using "12.prems"(2,4,5) n by (intro "12.IH"(1) members_end) (auto split: if_splits)
  have pw: "skip_space (sp @ json_text sp fr w @ ?tail) = json_text sp fr w @ ?tail"
    using "12.prems"(2,5) by (simp add: skip_blank skip_text)
  have new: "put_member k w gs = gs @ [(k, w)]" using "12.prems"(3) by (intro put_new) simp
  show ?case
  proof (cases "fs = []")
    case True
    with w n new pw show ?thesis unfolding form n by (simp add: read_json_string skip_space_def space_facts)
  next
    case False
    then obtain j v vs where "fs = (j, v) # vs" by (cases fs) auto
    then obtain s where c: "json_members sp fr fs = CHR 0x22 # s" by (simp add: json_string_def)
    have "read_members m (gs @ [(k, w)]) (json_members sp fr fs @ r) = Some (WObj ((gs @ [(k, w)]) @ fs), r)"
      using False "12.prems"(2,3,4,5) n by (intro "12.IH"(2)) simp_all
    with w n new pw c False skip_blank [OF "12.prems"(5)] show ?thesis unfolding form n
      by (simp add: read_json_string skip_space_def space_facts)
  qed
qed simp_all

lemma json_loads_text: "plain w \<Longrightarrow> list_all json_space sp \<Longrightarrow> json_loads (json_text sp fr w) = Some w"
  using read_printed(1) [of w "[]" sp fr "2 * length (json_text sp fr w) + 2"] skip_text [of w sp fr "[]"]
  by (simp add: json_loads_def number_end_def skip_space_def)

end
