(* ===== verification/Cursor.thy ===== *)
theory Cursor
  imports Json
begin

text \<open>
  Bounded pagination and keyset cursors (\<open>src/application/query_handlers/pagination.py\<close>):
  \<open>validate_pagination\<close>, the fingerprint of a query, and the opaque cursor, which is the
  URL-safe base64 text of a JSON envelope.

  Base64 is that of the standard library: the decoder skips characters outside of the alphabet,
  accepts both alphabets, and stops at a complete padding. Bytes are characters; UTF-8
  sequences beyond Latin-1 are outside of the model. SHA-256 is the parameter \<open>sha\<close>.
\<close>

section \<open>Errors of the query side\<close>

datatype query_exn =
    InvalidPaginationError string
  | SearchEngineException string
  | CircuitBreakerOpenException
  | NotFound exn
  | QValueError string
  | QTypeError
  | QKeyError string
  | QOverflowError

section \<open>Bounds\<close>

definition max_page_size :: int where "max_page_size = 1000"
definition max_result_window :: int where "max_result_window = 10000"
definition max_cursor_length :: nat where "max_cursor_length = 1024"

definition validate_pagination :: "int \<Rightarrow> int \<Rightarrow> string option \<Rightarrow> query_exn + unit" where
  "validate_pagination limit offset cursor =
     (if limit < 1 \<or> max_page_size < limit then Inl (InvalidPaginationError ''limit must be between 1 and 1000'')
      else if offset < 0 then Inl (InvalidPaginationError ''offset must be non-negative'')
      else if cursor \<noteq> None \<and> offset \<noteq> 0
      then Inl (InvalidPaginationError ''cursor and non-zero offset are mutually exclusive'')
      else if (case cursor of None \<Rightarrow> False | Some c \<Rightarrow> c = [] \<or> max_cursor_length < length c)
      then Inl (InvalidPaginationError ''invalid cursor'')
      else if cursor = None \<and> max_result_window < offset + limit
      then Inl (InvalidPaginationError ''offset + limit must not exceed 10000; use a cursor'')
      else Inr ())"

definition cursor_scope :: "(string \<Rightarrow> string) \<Rightarrow> string \<Rightarrow> (string \<times> wire) list \<Rightarrow> string" where
  "cursor_scope sha name filters =
     take 24 (sha (json_dumps (\<lambda>_. []) (WObj [(''name'', WStr name), (''filters'', WObj filters)])))"

section \<open>Base64\<close>

definition b64_char :: "nat \<Rightarrow> char" where
  "b64_char v = (if v < 26 then char_of (65 + v) else if v < 52 then char_of (71 + v)
     else if v < 62 then char_of (v - 4) else if v = 62 then CHR ''-'' else CHR ''_'')"

fun b64_text :: "string \<Rightarrow> string" where
  "b64_text [] = []"
| "b64_text [a] = [b64_char (code a div 4), b64_char (code a mod 4 * 16)]"
| "b64_text [a, b] = [b64_char (code a div 4), b64_char (code a mod 4 * 16 + code b div 16),
     b64_char (code b mod 16 * 4)]"
| "b64_text (a # b # c # s) = b64_char (code a div 4) # b64_char (code a mod 4 * 16 + code b div 16)
     # b64_char (code b mod 16 * 4 + code c div 64) # b64_char (code c mod 64) # b64_text s"

text \<open>\<open>urlsafe_b64encode\<close> and \<open>rstrip(b"=")\<close>.\<close>

definition urlsafe_b64encode :: "string \<Rightarrow> string" where
  "urlsafe_b64encode s = b64_text s @ replicate ((3 - length s mod 3) mod 3) CHR ''=''"

definition strip_padding :: "string \<Rightarrow> string" where
  "strip_padding s = rev (dropWhile (\<lambda>c. c = CHR ''='') (rev s))"

definition b64_value :: "char \<Rightarrow> nat option" where
  "b64_value c = (if is_upper c then Some (code c - 65) else if is_lower c then Some (code c - 71)
     else if is_digit c then Some (code c + 4)
     else if c = CHR ''-'' \<or> c = CHR ''+'' then Some 62
     else if c = CHR ''_'' \<or> c = CHR ''/'' then Some 63 else None)"

text \<open>\<open>binascii.a2b_base64\<close>: the position in the group, the padding seen, the bits left over.\<close>

fun a2b_base64 :: "nat \<Rightarrow> nat \<Rightarrow> nat \<Rightarrow> string \<Rightarrow> string option" where
  "a2b_base64 quad pads left [] = (if quad = 0 then Some [] else None)"
| "a2b_base64 quad pads left (c # s) =
     (if c = CHR ''='' then
        (if 2 \<le> quad \<and> 4 \<le> quad + pads + 1 then Some []
         else a2b_base64 quad (if 2 \<le> quad then pads + 1 else pads) left s)
      else case b64_value c of
        None \<Rightarrow> a2b_base64 quad pads left s
      | Some v \<Rightarrow>
          (if quad = 0 then a2b_base64 1 0 v s
           else if quad = 1 then map_option (Cons (char_of (left * 4 + v div 16))) (a2b_base64 2 0 (v mod 16) s)
           else if quad = 2 then map_option (Cons (char_of (left * 16 + v div 4))) (a2b_base64 3 0 (v mod 4) s)
           else map_option (Cons (char_of (left * 64 + v))) (a2b_base64 0 0 0 s)))"

definition urlsafe_b64decode :: "string \<Rightarrow> string option" where
  "urlsafe_b64decode s = (if list_all (\<lambda>c. code c < 128) s then a2b_base64 0 0 0 s else None)"

fun utf8_decode :: "string \<Rightarrow> string option" where
  "utf8_decode [] = Some []"
| "utf8_decode (a # s) =
     (if code a < 128 then map_option (Cons a) (utf8_decode s)
      else if code a = 194 \<or> code a = 195 then
        (case s of
           b # s' \<Rightarrow> (if 128 \<le> code b \<and> code b < 192
                     then map_option (Cons (char_of ((code a - 192) * 64 + (code b - 128)))) (utf8_decode s') else None)
         | [] \<Rightarrow> None)
      else None)"

section \<open>Cursors\<close>

definition cursor_backends :: "string list" where
  "cursor_backends = [''elasticsearch'', ''postgresql'']"

definition encode_cursor ::
  "(rat \<Rightarrow> string) \<Rightarrow> string \<Rightarrow> wire list \<Rightarrow> string option \<Rightarrow> query_exn + string" where
  "encode_cursor fr sc sort_values backend =
     (case backend of
        Some b \<Rightarrow>
          (if b \<notin> set cursor_backends then Inl (QValueError ''unsupported cursor backend'')
           else Inr (strip_padding (urlsafe_b64encode (json_dumps fr (WObj [(''v'', WInt 1), (''scope'', WStr sc),
                  (''sort'', WArr sort_values), (''backend'', WStr b)])))))
      | None \<Rightarrow> Inr (strip_padding (urlsafe_b64encode (json_dumps fr (WObj [(''v'', WInt 1),
                  (''scope'', WStr sc), (''sort'', WArr sort_values)])))))"

text \<open>\<open>backend not in CURSOR_BACKENDS\<close> hashes the value: a list or an object raises \<open>TypeError\<close>.\<close>

definition check_backend :: "wire \<Rightarrow> query_exn + string option" where
  "check_backend b =
     (case b of
        WNull \<Rightarrow> Inr None
      | WStr s \<Rightarrow> (if s \<in> set cursor_backends then Inr (Some s)
                  else Inl (InvalidPaginationError ''cursor has an unsupported backend''))
      | WArr _ \<Rightarrow> Inl QTypeError
      | WObj _ \<Rightarrow> Inl QTypeError
      | _ \<Rightarrow> Inl (InvalidPaginationError ''cursor has an unsupported backend''))"

definition decode_cursor_with_backend ::
  "string \<Rightarrow> string \<Rightarrow> nat \<Rightarrow> query_exn + wire list \<times> string option" where
  "decode_cursor_with_backend cursor expected_scope expected_values =
     (if cursor = [] \<or> max_cursor_length < length cursor then Inl (InvalidPaginationError ''invalid cursor'')
      else case Option.bind (urlsafe_b64decode (cursor @ replicate ((4 - length cursor mod 4) mod 4) CHR ''=''))
                  (\<lambda>bytes. Option.bind (utf8_decode bytes) json_loads) of
        None \<Rightarrow> Inl (InvalidPaginationError ''invalid cursor'')
      | Some (WObj payload) \<Rightarrow>
          (if \<not> set (map fst payload) \<subseteq> {''v'', ''scope'', ''sort'', ''backend''}
             \<or> \<not> equals_one (dget payload ''v'') \<or> dget payload ''scope'' \<noteq> WStr expected_scope
           then Inl (InvalidPaginationError ''cursor does not match this query'')
           else case dget payload ''sort'' of
             WArr sort_values \<Rightarrow>
               (if length sort_values \<noteq> expected_values
                then Inl (InvalidPaginationError ''cursor does not match this query'')
                else rbind (check_backend (dget payload ''backend'')) (\<lambda>b. Inr (sort_values, b)))
           | _ \<Rightarrow> Inl (InvalidPaginationError ''cursor does not match this query''))
      | _ \<Rightarrow> Inl (InvalidPaginationError ''cursor does not match this query''))"

definition decode_cursor :: "string \<Rightarrow> string \<Rightarrow> nat \<Rightarrow> query_exn + wire list" where
  "decode_cursor cursor expected_scope expected_values =
     rbind (decode_cursor_with_backend cursor expected_scope expected_values) (\<lambda>(values, _). Inr values)"

definition cursor_string :: "wire \<Rightarrow> string \<Rightarrow> nat \<Rightarrow> (string \<Rightarrow> bool) option \<Rightarrow> query_exn + string" where
  "cursor_string v field max_length pattern =
     (case v of
        WStr s \<Rightarrow>
          (if s = [] \<or> max_length < length s \<or> (case pattern of None \<Rightarrow> False | Some p \<Rightarrow> \<not> p s)
           then Inl (InvalidPaginationError (''cursor contains an invalid '' @ field)) else Inr s)
      | _ \<Rightarrow> Inl (InvalidPaginationError (''cursor contains an invalid '' @ field)))"

section \<open>An issued cursor is read back\<close>

lemma b64_char_value: "v < 64 \<Longrightarrow> b64_value (b64_char v) = Some v \<and> b64_char v \<noteq> CHR ''='' \<and> code (b64_char v) < 128"
proof -
  have c: "code CHR ''-'' = 45" "code CHR ''_'' = 95" "code CHR ''='' = 61"
    "code CHR ''+'' = 43" "code CHR ''/'' = 47" by (simp_all add: code_def)
  assume "v < 64"
  then show ?thesis
    by (auto simp: b64_char_def b64_value_def char_defs code_char_of c code_inject [symmetric])
qed

lemma a2b_char:
  assumes "v < 64"
  shows "a2b_base64 0 p l (b64_char v # s) = a2b_base64 (Suc 0) 0 v s"
    and "a2b_base64 (Suc 0) p l (b64_char v # s) = map_option (Cons (char_of (l * 4 + v div 16))) (a2b_base64 2 0 (v mod 16) s)"
    and "a2b_base64 2 p l (b64_char v # s) = map_option (Cons (char_of (l * 16 + v div 4))) (a2b_base64 3 0 (v mod 4) s)"
    and "a2b_base64 3 p l (b64_char v # s) = map_option (Cons (char_of (l * 64 + v))) (a2b_base64 0 0 0 s)"
  using b64_char_value [OF assms] by simp_all

lemma char_of_bits:
  "char_of (code a div 4 * 4 + (code a mod 4 * 16 + code b div 16) div 16) = a"
  "char_of (code a div 4 * 4 + code a mod 4 * 16 div 16) = a"
  "char_of ((code a mod 4 * 16 + code b div 16) mod 16 * 16 + (code b mod 16 * 4 + code c div 64) div 4) = b"
  "char_of ((code a mod 4 * 16 + code b div 16) mod 16 * 16 + code b mod 16 * 4 div 4) = b"
  "char_of ((code b mod 16 * 4 + code c div 64) mod 4 * 64 + code c mod 64) = c"
proof -
  have lt: "code x div 16 < 16" "code x div 64 < 4" for x using code_less_256 [of x] by simp_all
  have id: "char_of (code x) = x" for x by (simp add: code_def)
  have "code a div 4 * 4 + (code a mod 4 * 16 + code b div 16) div 16 = code a" using lt by simp
  then show "char_of (code a div 4 * 4 + (code a mod 4 * 16 + code b div 16) div 16) = a" by (simp only: id)
  have "code a div 4 * 4 + code a mod 4 * 16 div 16 = code a" by simp
  then show "char_of (code a div 4 * 4 + code a mod 4 * 16 div 16) = a" by (simp only: id)
  have m: "(code a mod 4 * 16 + code b div 16) mod 16 = code b div 16" using lt by (simp add: mod_add_eq)
  have "code b div 16 * 16 + (code b mod 16 * 4 + code c div 64) div 4 = code b" using lt by simp
  then show "char_of ((code a mod 4 * 16 + code b div 16) mod 16 * 16 + (code b mod 16 * 4 + code c div 64) div 4) = b"
    by (simp only: id m)
  have "code b div 16 * 16 + code b mod 16 * 4 div 4 = code b" by simp
  then show "char_of ((code a mod 4 * 16 + code b div 16) mod 16 * 16 + code b mod 16 * 4 div 4) = b"
    by (simp only: id m)
  have "(code b mod 16 * 4 + code c div 64) mod 4 = code c div 64" using lt by (simp add: mod_add_eq)
  moreover have "code c div 64 * 64 + code c mod 64 = code c" by simp
  ultimately show "char_of ((code b mod 16 * 4 + code c div 64) mod 4 * 64 + code c mod 64) = c" by (simp only: id)
qed

lemma sextets: "code a div 4 < 64" "code a mod 4 * 16 + code b div 16 < 64" "code b mod 16 * 4 + code c div 64 < 64"
  "code c mod 64 < 64" "code a mod 4 * 16 < 64" "code b mod 16 * 4 < 64"
proof -
  have "code a mod 4 \<le> 3" "code b div 16 \<le> 15" "code b mod 16 \<le> 15" "code c div 64 \<le> 3"
    using code_less_256 [of b] code_less_256 [of c] by simp_all
  then show "code a mod 4 * 16 + code b div 16 < 64" "code b mod 16 * 4 + code c div 64 < 64"
    "code a mod 4 * 16 < 64" "code b mod 16 * 4 < 64" by linarith+
  show "code a div 4 < 64" "code c mod 64 < 64" using code_less_256 [of a] by simp_all
qed

lemma padding_step: "(4 - Suc (Suc (Suc (Suc n))) mod 4) mod 4 = (4 - n mod 4) mod (4::nat)"
  by (simp add: mod_Suc)

lemma a2b_end: "a2b_base64 2 0 l (replicate (Suc (Suc 0)) CHR ''='') = Some []"
  "a2b_base64 3 0 l (replicate (Suc 0) CHR ''='') = Some []"
  by simp_all

lemma padding_count: "(4 - Suc (Suc 0) mod 4) mod 4 = Suc (Suc 0)" "(4 - Suc (Suc (Suc 0)) mod 4) mod 4 = Suc 0"
  by simp_all

lemma base64_roundtrip:
  "a2b_base64 0 p l (b64_text s @ replicate ((4 - length (b64_text s) mod 4) mod 4) CHR ''='') = Some s"
proof (induction s arbitrary: p l rule: b64_text.induct)
  case (2 a)
  show ?case
    by (simp only: b64_text.simps append.simps a2b_char sextets char_of_bits list.size padding_count
        add_Suc_right add_0_right a2b_end option.map)
next
  case (3 a b)
  show ?case
    by (simp only: b64_text.simps append.simps a2b_char sextets char_of_bits list.size padding_count
        add_Suc_right add_0_right a2b_end option.map)
next
  case (4 a b c s)
  then show ?case
    by (simp only: b64_text.simps append.simps a2b_char sextets char_of_bits length_Cons padding_step option.map)
qed simp

lemma b64_text_chars: "c \<in> set (b64_text s) \<Longrightarrow> c \<noteq> CHR ''='' \<and> code c < 128"
  by (induction s rule: b64_text.induct) (auto simp: b64_char_value sextets)

lemma strip_b64: "strip_padding (urlsafe_b64encode s) = b64_text s"
proof -
  have "dropWhile (\<lambda>c. c = CHR ''='') (rev (b64_text s)) = rev (b64_text s)"
    using b64_text_chars [of _ s] by (intro dropWhile_fixed) (auto simp: hd_rev)
  then show ?thesis by (simp add: strip_padding_def urlsafe_b64encode_def dropWhile_append)
qed

lemma length_b64: "3 * length (b64_text s) \<le> 4 * length s + 2"
  by (induction s rule: b64_text.induct) simp_all

lemma b64_decode_text:
  "urlsafe_b64decode (b64_text s @ replicate ((4 - length (b64_text s) mod 4) mod 4) CHR ''='') = Some s"
proof -
  have "code CHR ''='' < 128" by (simp add: code_def)
  then show ?thesis using b64_text_chars [of _ s] base64_roundtrip [of 0 0 s]
    by (auto simp: urlsafe_b64decode_def list_all_iff)
qed

lemma utf8_ascii: "list_all (\<lambda>c. code c < 128) s \<Longrightarrow> utf8_decode s = Some s"
  by (induction s) auto

definition ascii :: "string \<Rightarrow> bool" where
  "ascii s \<longleftrightarrow> list_all (\<lambda>c. code c < 128) s"

lemma ascii_simps: "ascii []" "ascii (c # s) \<longleftrightarrow> code c < 128 \<and> ascii s" "ascii (s @ t) \<longleftrightarrow> ascii s \<and> ascii t"
  by (simp_all add: ascii_def)

lemma short_escape_ascii: "short_escape c = Some d \<Longrightarrow> code d < 128"
  by (auto simp: short_escape_def code_letters split: if_splits)

lemma hex_ascii: "is_hex c \<Longrightarrow> code c < 128"
  by (auto simp: is_hex_def is_digit_def)

lemma json_char_ascii: "ascii (json_char c)"
proof (cases rule: json_char_kind [of c])
  case (short d)
  then show ?thesis using short_escape_ascii by (simp add: ascii_simps code_letters)
next
  case plain
  then have "code c < 128" by (auto simp: json_char_def split: option.splits if_splits)
  with plain show ?thesis by (simp add: ascii_simps)
next
  case hex
  have "ascii (to_hex 2 (code c))" using to_hex_is_hex hex_ascii by (auto simp: ascii_def list_all_iff)
  moreover have "code CHR ''0'' < 128" "code CHR ''u'' < 128" "code CHR 0x5C < 128" by (simp_all add: code_def)
  ultimately show ?thesis using hex by (simp add: ascii_simps)
qed

lemma json_string_ascii: "ascii (json_string s)"
  using json_char_ascii by (induction s) (auto simp: json_string_def ascii_simps code_letters)

lemma sorted_strings [simp]: "sorted_keys \<circ> WStr = WStr"
  by (simp add: fun_eq_iff)

lemma cursor_envelope:
  "sorted_keys (WObj [(''v'', WInt 1), (''scope'', WStr sc), (''sort'', WArr (map WStr vs)), (''backend'', WStr b)])
    = WObj [(''backend'', WStr b), (''scope'', WStr sc), (''sort'', WArr (map WStr vs)), (''v'', WInt 1)]"
  by (simp add: less_char_def comp_def)

lemma json_items_strings: "ascii (json_items [] fr (map WStr vs))"
  by (induction vs) (simp_all add: ascii_simps json_string_ascii code_def)

text \<open>
  A cursor of string values is read back, with its backend, by the query it was issued for,
  as long as it is short enough.
\<close>

lemma cursor_roundtrip:
  assumes "encode_cursor fr sc (map WStr vs) (Some b) = Inr c" and "length c \<le> max_cursor_length"
  shows "decode_cursor_with_backend c sc (length vs) = Inr (map WStr vs, Some b)"
proof -
  let ?w = "WObj [(''backend'', WStr b), (''scope'', WStr sc), (''sort'', WArr (map WStr vs)), (''v'', WInt 1)]"
  from assms(1) have b: "b \<in> set cursor_backends" and c: "c = b64_text (json_text [] fr ?w)"
    by (auto simp: encode_cursor_def json_dumps_def cursor_envelope strip_b64 split: if_splits)
  have a: "ascii (json_text [] fr ?w)"
    by (simp add: ascii_simps json_string_ascii json_items_strings) (simp add: code_def show_int_def show_nat.simps digit_char_def ascii_def)
  have p: "plain ?w" by (simp add: list_all_iff)
  have ne: "c \<noteq> []" unfolding c by (cases "json_text [] fr ?w" rule: b64_text.cases) simp_all
  have "Option.bind (urlsafe_b64decode (c @ replicate ((4 - length c mod 4) mod 4) CHR ''=''))
      (\<lambda>bytes. Option.bind (utf8_decode bytes) json_loads) = Some ?w"
    unfolding c b64_decode_text using a p by (simp add: utf8_ascii [folded ascii_def] json_loads_text del: json_text.simps)
  then show ?thesis using assms(2) ne b
    by (simp add: decode_cursor_with_backend_def dget_def equals_one_def check_backend_def)
qed

end
