(* ===== verification/ReadModels.thy ===== *)
theory ReadModels
  imports Cursor
begin

text \<open>
  The read models of the query side (\<open>src/application/query_handlers/read_models.py\<close>): their
  hydration from JSON (\<open>from_mapping\<close>, for Elasticsearch documents and cache entries) and from
  database rows, and the values a decoded cursor may hold.

  What the program takes from its platform is the record \<open>platform\<close>: SHA-256, the texts of
  floats and of other values, \<open>datetime.fromisoformat\<close>, and the collation of the database
  (a text is compared by its collation key) with its \<open>lower\<close>.
\<close>

record platform =
  pl_sha :: "string \<Rightarrow> string"
  pl_float :: "rat \<Rightarrow> string"
  pl_repr :: "wire \<Rightarrow> string"
  pl_from_iso :: "string \<Rightarrow> datetime option"
  pl_collate :: "string \<Rightarrow> string"
  pl_lower :: "string \<Rightarrow> string"

section \<open>Values\<close>

text \<open>\<open>str(value)\<close> and \<open>bool(value)\<close>.\<close>

fun py_str :: "platform \<Rightarrow> wire \<Rightarrow> string" where
  "py_str pl WNull = ''None''"
| "py_str pl (WBool b) = (if b then ''True'' else ''False'')"
| "py_str pl (WInt i) = show_int i"
| "py_str pl (WStr s) = s"
| "py_str pl (WFloat r) = pl_float pl r"
| "py_str pl w = pl_repr pl w"

fun py_truth :: "wire \<Rightarrow> bool" where
  "py_truth WNull = False"
| "py_truth (WBool b) = b"
| "py_truth (WInt i) = (i \<noteq> 0)"
| "py_truth (WFloat r) = (r \<noteq> 0)"
| "py_truth (WStr s) = (s \<noteq> [])"
| "py_truth (WDate d) = True"
| "py_truth (WArr ws) = (ws \<noteq> [])"
| "py_truth (WObj fs) = (fs \<noteq> [])"

text \<open>\<open>dict.get\<close> with a default, and \<open>dict[key]\<close>.\<close>

definition dget_or :: "(string \<times> wire) list \<Rightarrow> string \<Rightarrow> wire \<Rightarrow> wire" where
  "dget_or d k v = (case map_of d k of None \<Rightarrow> v | Some w \<Rightarrow> w)"

definition ditem :: "(string \<times> wire) list \<Rightarrow> string \<Rightarrow> query_exn + wire" where
  "ditem d k = (case map_of d k of None \<Rightarrow> Inl (QKeyError k) | Some w \<Rightarrow> Inr w)"

definition spell_z :: "string \<Rightarrow> string" where
  "spell_z s = concat (map (\<lambda>c. if c = CHR ''Z'' then ''+00:00'' else [c]) s)"

definition optional_datetime :: "platform \<Rightarrow> wire \<Rightarrow> string \<Rightarrow> query_exn + datetime option" where
  "optional_datetime pl v field =
     (case v of
        WNull \<Rightarrow> Inr None
      | WDate d \<Rightarrow> Inr (Some d)
      | WStr s \<Rightarrow> (case pl_from_iso pl (spell_z s) of
          Some d \<Rightarrow> Inr (Some d) | None \<Rightarrow> Inl (QValueError (field @ '' is not an ISO-8601 datetime'')))
      | _ \<Rightarrow> Inl (QValueError (field @ '' must be a datetime or ISO-8601 string'')))"

definition required_datetime :: "platform \<Rightarrow> wire \<Rightarrow> string \<Rightarrow> query_exn + datetime" where
  "required_datetime pl v field =
     rbind (optional_datetime pl v field) (\<lambda>r.
       case r of None \<Rightarrow> Inl (QValueError (field @ '' must be a datetime'')) | Some d \<Rightarrow> Inr d)"

section \<open>Books\<close>

record book_read_model =
  bm_id :: string
  bm_title :: string
  bm_author :: string
  bm_is_borrowed :: bool
  bm_status :: string
  bm_borrowed_at :: "datetime option"
  bm_return_due_date :: "datetime option"

definition book_from_mapping :: "platform \<Rightarrow> (string \<times> wire) list \<Rightarrow> query_exn + book_read_model" where
  "book_from_mapping pl d =
     (let st = py_str pl (dget_or d ''status'' (WStr ''available''))
      in rbind (ditem d ''id'') (\<lambda>i.
         rbind (optional_datetime pl (dget d ''borrowed_at'') ''borrowed_at'') (\<lambda>b.
         rbind (optional_datetime pl (dget d ''return_due_date'') ''return_due_date'') (\<lambda>r.
           Inr \<lparr>bm_id = py_str pl i, bm_title = py_str pl (dget_or d ''title'' (WStr [])),
             bm_author = py_str pl (dget_or d ''author'' (WStr [])), bm_is_borrowed = (st = ''borrowed''),
             bm_status = st, bm_borrowed_at = b, bm_return_due_date = r\<rparr>))))"

definition book_model_of_row :: "book_row \<Rightarrow> book_read_model" where
  "book_model_of_row r = \<lparr>bm_id = br_id r, bm_title = br_title r, bm_author = br_author r,
     bm_is_borrowed = (br_status r = ''borrowed''), bm_status = br_status r,
     bm_borrowed_at = map_option utc (br_borrowed_at r), bm_return_due_date = map_option utc (br_return_due_date r)\<rparr>"

section \<open>Patrons\<close>

record patron_read_model =
  pm_id :: string
  pm_name :: string
  pm_first_name :: string
  pm_last_name :: string
  pm_email :: string
  pm_membership_tier :: string
  pm_is_suspended :: bool
  pm_suspended_reason :: wire
  pm_registered_at :: datetime

definition patron_from_mapping :: "platform \<Rightarrow> (string \<times> wire) list \<Rightarrow> query_exn + patron_read_model" where
  "patron_from_mapping pl d =
     rbind (ditem d ''id'') (\<lambda>i.
     rbind (required_datetime pl (dget d ''registered_at'') ''registered_at'') (\<lambda>r.
       Inr \<lparr>pm_id = py_str pl i,
         pm_name = py_str pl (dget_or d ''name'' (dget_or d ''full_name'' (WStr []))),
         pm_first_name = py_str pl (dget_or d ''first_name'' (WStr [])),
         pm_last_name = py_str pl (dget_or d ''last_name'' (WStr [])),
         pm_email = py_str pl (dget_or d ''email'' (WStr [])),
         pm_membership_tier = py_str pl (dget_or d ''membership_tier'' (WStr ''regular'')),
         pm_is_suspended = py_truth (dget_or d ''is_suspended'' (WBool False)),
         pm_suspended_reason = dget d ''suspended_reason'', pm_registered_at = r\<rparr>))"

definition patron_model_of_row :: "patron_row \<Rightarrow> patron_read_model" where
  "patron_model_of_row r = \<lparr>pm_id = pr_id r, pm_name = pr_first_name r @ '' '' @ pr_last_name r,
     pm_first_name = pr_first_name r, pm_last_name = pr_last_name r, pm_email = pr_email r,
     pm_membership_tier = pr_membership_tier r, pm_is_suspended = pr_is_suspended r,
     pm_suspended_reason = opt_str (pr_suspended_reason r), pm_registered_at = utc (pr_registered_at r)\<rparr>"

section \<open>Loans\<close>

record loan_read_model =
  lm_id :: string
  lm_patron_id :: string
  lm_patron_email :: string
  lm_catalog_book_id :: string
  lm_book_title :: string
  lm_borrowed_at :: datetime
  lm_due_date :: datetime
  lm_returned_at :: "datetime option"
  lm_status :: string

definition loan_from_mapping :: "platform \<Rightarrow> (string \<times> wire) list \<Rightarrow> query_exn + loan_read_model" where
  "loan_from_mapping pl d =
     rbind (ditem d ''id'') (\<lambda>i.
     rbind (required_datetime pl (dget d ''borrowed_at'') ''borrowed_at'') (\<lambda>b.
     rbind (required_datetime pl (dget d ''due_date'') ''due_date'') (\<lambda>due.
     rbind (optional_datetime pl (dget d ''returned_at'') ''returned_at'') (\<lambda>r.
       Inr \<lparr>lm_id = py_str pl i, lm_patron_id = py_str pl (dget_or d ''patron_id'' (WStr [])),
         lm_patron_email = py_str pl (dget_or d ''patron_email'' (WStr [])),
         lm_catalog_book_id = py_str pl (dget_or d ''catalog_book_id'' (WStr [])),
         lm_book_title = py_str pl (dget_or d ''book_title'' (WStr [])),
         lm_borrowed_at = b, lm_due_date = due, lm_returned_at = r,
         lm_status = py_str pl (dget_or d ''status'' (WStr []))\<rparr>))))"

definition loan_model_of_row :: "loan_row \<Rightarrow> loan_read_model" where
  "loan_model_of_row r = \<lparr>lm_id = lr_id r, lm_patron_id = lr_patron_id r, lm_patron_email = lr_patron_email r,
     lm_catalog_book_id = lr_catalog_book_id r, lm_book_title = lr_book_title r,
     lm_borrowed_at = utc (lr_borrowed_at r), lm_due_date = utc (lr_due_date r),
     lm_returned_at = map_option utc (lr_returned_at r), lm_status = lr_status r\<rparr>"

section \<open>The values of a cursor\<close>

text \<open>
  \<open>_cursor_datetime\<close>: texts and epoch milliseconds, always as UTC. \<open>astimezone\<close> may leave the
  range of datetimes, which raises \<open>OverflowError\<close>.
\<close>

definition cursor_datetime :: "platform \<Rightarrow> wire \<Rightarrow> query_exn + instant" where
  "cursor_datetime pl v =
     (case v of
        WDate (Aware t _) \<Rightarrow> Inr t
      | WStr s \<Rightarrow>
          (case pl_from_iso pl (spell_z s) of
             None \<Rightarrow> Inl (InvalidPaginationError ''cursor contains an invalid datetime'')
           | Some (Naive t) \<Rightarrow> Inr t
           | Some (Aware t _) \<Rightarrow> (if in_range t then Inr t else Inl QOverflowError))
      | WInt ms \<Rightarrow> (if in_range (ms * 1000) then Inr (ms * 1000)
                   else Inl (InvalidPaginationError ''cursor contains an invalid datetime''))
      | WFloat ms \<Rightarrow> (if in_range (round (ms * 1000)) then Inr (round (ms * 1000))
                   else Inl (InvalidPaginationError ''cursor contains an invalid datetime''))
      | _ \<Rightarrow> Inl (InvalidPaginationError ''cursor contains an invalid datetime''))"

definition cursor_id :: "wire \<Rightarrow> string \<Rightarrow> query_exn + string" where
  "cursor_id v field = cursor_string v field 64 (Some (ident_match ref_extra))"

end
