(* ===== verification/QueryRepos.thy ===== *)
theory QueryRepos
  imports ReadModels "HOL-Library.Product_Lexorder"
begin

text \<open>
  The query repositories (\<open>book_query_repository.py\<close>, \<open>patron_query_repository.py\<close> and
  \<open>loan_query_repository.py\<close> under \<open>src/infrastructure/adapters\<close>): searches on Elasticsearch
  behind the circuit breaker, with the fallback to PostgreSQL, and the keyset pages of the
  database.

  \<open>sql_select\<close> is \<open>SELECT ... WHERE ... ORDER BY ... LIMIT ... OFFSET ...\<close> on a table. The
  answer of the breaker-protected search is a function of the request; whether the projection
  is fresh enough for a search is an argument.
\<close>

section \<open>Statements\<close>

definition sql_select :: "('r \<Rightarrow> bool) \<Rightarrow> ('r \<Rightarrow> 'k::linorder) \<Rightarrow> int \<Rightarrow> int \<Rightarrow> 'r list \<Rightarrow> 'r list" where
  "sql_select pred order_by limit offset rows =
     take (nat limit) (drop (nat offset) (sort_key order_by (filter pred rows)))"

text \<open>\<open>LIKE pattern ESCAPE '\'\<close>.\<close>

function like :: "string \<Rightarrow> string \<Rightarrow> bool" where
  "like [] s = (s = [])"
| "like (p # ps) s =
     (if p = CHR ''%'' then like ps s \<or> (case s of [] \<Rightarrow> False | _ # s' \<Rightarrow> like (p # ps) s')
      else if p = CHR ''_'' then (case s of [] \<Rightarrow> False | _ # s' \<Rightarrow> like ps s')
      else if p = CHR 0x5C then
        (case ps of [] \<Rightarrow> False | q # ps' \<Rightarrow> (case s of [] \<Rightarrow> False | c # s' \<Rightarrow> c = q \<and> like ps' s'))
      else (case s of [] \<Rightarrow> False | c # s' \<Rightarrow> c = p \<and> like ps s'))"
  by pat_completeness auto

termination
  by (relation "measure (\<lambda>(ps, s). length ps + length s)") auto

declare like.simps [simp del]

definition ilike :: "platform \<Rightarrow> string \<Rightarrow> string \<Rightarrow> bool" where
  "ilike pl pattern s = like (pl_lower pl pattern) (pl_lower pl s)"

definition contains_pattern :: "string \<Rightarrow> string" where
  "contains_pattern v = ''%'' @ concat (map (\<lambda>c.
     if c = CHR 0x5C \<or> c = CHR ''%'' \<or> c = CHR ''_'' then [CHR 0x5C, c] else [c]) v) @ ''%''"

section \<open>Searches\<close>

record search_request =
  sr_index :: string
  sr_query :: wire
  sr_size :: int
  sr_from :: int
  sr_sort :: wire
  sr_search_after :: "string list option"

record es_hit =
  hit_id :: string
  hit_score :: wire
  hit_sort :: "wire list"
  hit_source :: "(string \<times> wire) list"

record es_result =
  er_total :: int
  er_hits :: "es_hit list"

record 'i query_page =
  pg_items :: "'i list"
  pg_next_cursor :: "string option"
  pg_total :: "int option"

record search_env =
  fresh :: bool
  search :: "search_request \<Rightarrow> query_exn + es_result"
  count_docs :: "string \<Rightarrow> wire \<Rightarrow> query_exn + int"

text \<open>The dictionary of a hit: the fields of the source override \<open>id\<close>, \<open>score\<close> and \<open>_sort\<close>.\<close>

definition hit_fields :: "es_hit \<Rightarrow> (string \<times> wire) list" where
  "hit_fields h = foldl (\<lambda>d (k, v). put_member k v d)
     [(''id'', WStr (hit_id h)), (''score'', hit_score h), (''_sort'', WArr (hit_sort h))] (hit_source h)"

fun rmap_all :: "('a \<Rightarrow> 'e + 'b) \<Rightarrow> 'a list \<Rightarrow> 'e + 'b list" where
  "rmap_all f [] = Inr []"
| "rmap_all f (x # xs) = rbind (f x) (\<lambda>y. rbind (rmap_all f xs) (\<lambda>ys. Inr (y # ys)))"

fun search_failure :: "query_exn \<Rightarrow> bool" where
  "search_failure (SearchEngineException _) = True"
| "search_failure CircuitBreakerOpenException = True"
| "search_failure _ = False"

text \<open>\<open>except (KeyError, TypeError, ValueError)\<close>; \<open>InvalidPaginationError\<close> is a \<open>ValueError\<close>.\<close>

fun document_failure :: "query_exn \<Rightarrow> bool" where
  "document_failure (QKeyError _) = True"
| "document_failure QTypeError = True"
| "document_failure (QValueError _) = True"
| "document_failure (InvalidPaginationError _) = True"
| "document_failure _ = False"

text \<open>
  The common end of the three \<open>find_page\<close> methods: a page from the index, or from the database
  when the index is stale, fails, or holds an invalid document, unless the cursor is pinned
  to it. \<open>last_sort\<close> gives the sort values of an item for a hit without any.
\<close>

definition search_or_database ::
  "platform \<Rightarrow> string \<Rightarrow> search_env \<Rightarrow> string option \<Rightarrow> search_request \<Rightarrow> ((string \<times> wire) list \<Rightarrow> query_exn + 'i)
     \<Rightarrow> ('i \<Rightarrow> wire list) \<Rightarrow> (query_exn + 'i query_page) \<Rightarrow> query_exn + 'i query_page" where
  "search_or_database pl sc env backend request to_item last_sort from_db =
     (let pinned = (backend = Some ''elasticsearch'')
      in if \<not> fresh env \<or> backend = Some ''postgresql''
         then (if pinned then Inl (SearchEngineException
                 ''This page cursor is pinned to Elasticsearch, which is disabled or lagging'')
               else from_db)
         else case search env request of
           Inl e \<Rightarrow> (if \<not> search_failure e \<or> pinned then Inl e else from_db)
         | Inr result \<Rightarrow>
             (case rmap_all to_item (map hit_fields (er_hits result)) of
                Inl e \<Rightarrow>
                  (if \<not> document_failure e then Inl e
                   else if pinned then Inl (SearchEngineException
                     ''Elasticsearch returned an invalid document for a pinned cursor'')
                   else from_db)
              | Inr items \<Rightarrow>
                  (if int (length (er_hits result)) = sr_size request \<and> er_hits result \<noteq> []
                   then rbind (encode_cursor (pl_float pl) sc
                          (case dget (hit_fields (last (er_hits result))) ''_sort'' of
                             WArr (v # vs) \<Rightarrow> v # vs | _ \<Rightarrow> last_sort (last items)) (Some ''elasticsearch''))
                        (\<lambda>c. Inr \<lparr>pg_items = items, pg_next_cursor = Some c, pg_total = Some (er_total result)\<rparr>)
                   else Inr \<lparr>pg_items = items, pg_next_cursor = None, pg_total = Some (er_total result)\<rparr>)))"

text \<open>The end of the database pages: a full page carries a cursor for the next one.\<close>

definition database_page ::
  "platform \<Rightarrow> string \<Rightarrow> int \<Rightarrow> ('i \<Rightarrow> wire list) \<Rightarrow> 'i list \<Rightarrow> query_exn + 'i query_page" where
  "database_page pl sc limit last_sort items =
     (if int (length items) = limit \<and> items \<noteq> []
      then rbind (encode_cursor (pl_float pl) sc (last_sort (last items)) (Some ''postgresql''))
             (\<lambda>c. Inr \<lparr>pg_items = items, pg_next_cursor = Some c, pg_total = None\<rparr>)
      else Inr \<lparr>pg_items = items, pg_next_cursor = None, pg_total = None\<rparr>)"

text \<open>The reading of a cursor, in the three \<open>find_page\<close> methods.\<close>

definition read_cursor ::
  "string \<Rightarrow> string option \<Rightarrow> (wire \<Rightarrow> wire \<Rightarrow> query_exn + 'c) \<Rightarrow> query_exn + 'c option \<times> string option" where
  "read_cursor sc cursor accept =
     (case cursor of
        None \<Rightarrow> Inr (None, None)
      | Some c \<Rightarrow>
          rbind (decode_cursor_with_backend c sc 2) (\<lambda>(values, backend).
            rbind (accept (values ! 0) (values ! 1)) (\<lambda>after. Inr (Some after, backend))))"

definition sort_clause :: "(string \<times> string \<times> string option) list \<Rightarrow> wire" where
  "sort_clause fs = WArr (map (\<lambda>(f, order, fmt). WObj [(f, WObj ([(''order'', WStr order), (''missing'', WStr ''_last'')]
     @ (case fmt of None \<Rightarrow> [] | Some x \<Rightarrow> [(''format'', WStr x)])))]) fs @ [WObj [(''id'', WObj [(''order'', WStr ''asc'')])]])"

definition term_clause :: "string \<Rightarrow> wire \<Rightarrow> wire" where
  "term_clause f v = WObj [(''term'', WObj [(f, v)])]"

definition search_position :: "(string \<times> string) option \<Rightarrow> string list option" where
  "search_position after = map_option (\<lambda>(t, i). [t, i]) after"

section \<open>Books\<close>

record book_filters =
  bf_only_available :: bool
  bf_only_borrowed :: bool
  bf_author_contains :: "string option"
  bf_title_contains :: "string option"

definition opt_set :: "string option \<Rightarrow> bool" where
  "opt_set v = (case v of None \<Rightarrow> False | Some s \<Rightarrow> s \<noteq> [])"

definition book_scope :: "platform \<Rightarrow> book_filters \<Rightarrow> string" where
  "book_scope pl f = cursor_scope (pl_sha pl) ''books''
     [(''only_available'', WBool (bf_only_available f)), (''only_borrowed'', WBool (bf_only_borrowed f)),
      (''author_contains'', opt_str (bf_author_contains f)), (''title_contains'', opt_str (bf_title_contains f))]"

definition book_where :: "platform \<Rightarrow> book_filters \<Rightarrow> book_row \<Rightarrow> bool" where
  "book_where pl f r \<longleftrightarrow>
     (opt_set (bf_title_contains f) \<longrightarrow> ilike pl (contains_pattern (the (bf_title_contains f))) (br_title r))
     \<and> (opt_set (bf_author_contains f) \<longrightarrow> ilike pl (contains_pattern (the (bf_author_contains f))) (br_author r))
     \<and> (if bf_only_available f then br_status r = ''available''
        else if bf_only_borrowed f then br_status r = ''borrowed'' else True)"

definition book_after :: "platform \<Rightarrow> (string \<times> string) option \<Rightarrow> book_row \<Rightarrow> bool" where
  "book_after pl after r =
     (case after of
        None \<Rightarrow> True
      | Some (t, i) \<Rightarrow> pl_collate pl t < pl_collate pl (pl_lower pl (br_title r))
          \<or> (pl_lower pl (br_title r) = t \<and> pl_collate pl i < pl_collate pl (br_id r)))"

definition book_order :: "platform \<Rightarrow> book_row \<Rightarrow> string \<times> string" where
  "book_order pl r = (pl_collate pl (pl_lower pl (br_title r)), pl_collate pl (br_id r))"

definition book_sort_values :: "book_read_model \<Rightarrow> wire list" where
  "book_sort_values m = map WStr [py_lower (bm_title m), bm_id m]"

definition find_books_in_db ::
  "platform \<Rightarrow> book_filters \<Rightarrow> int \<Rightarrow> int \<Rightarrow> (string \<times> string) option \<Rightarrow> string \<Rightarrow> book_row list
     \<Rightarrow> query_exn + book_read_model query_page" where
  "find_books_in_db pl f limit offset after sc rows =
     database_page pl sc limit book_sort_values
       (map book_model_of_row
         (sql_select (\<lambda>r. book_where pl f r \<and> book_after pl after r) (book_order pl) limit offset rows))"

definition match_clause :: "string \<Rightarrow> string \<Rightarrow> wire" where
  "match_clause f v = WObj [(''match'', WObj [(f, WObj [(''query'', WStr v), (''fuzziness'', WStr ''AUTO'')])])]"

definition book_es_query :: "book_filters \<Rightarrow> wire" where
  "book_es_query f =
     (let must = (if opt_set (bf_title_contains f) then [match_clause ''title'' (the (bf_title_contains f))] else [])
            @ (if opt_set (bf_author_contains f) then [match_clause ''author'' (the (bf_author_contains f))] else []);
          filter_clauses = (if bf_only_available f then [term_clause ''status'' (WStr ''available'')]
            else if bf_only_borrowed f then [term_clause ''status'' (WStr ''borrowed'')] else [])
      in if must \<noteq> [] \<or> filter_clauses \<noteq> []
         then WObj [(''bool'', WObj [(''must'', WArr (if must \<noteq> [] then must else [WObj [(''match_all'', WObj [])]])),
                (''filter'', WArr filter_clauses)])]
         else WObj [(''match_all'', WObj [])])"

definition check_book_cursor :: "wire \<Rightarrow> wire \<Rightarrow> query_exn + string \<times> string" where
  "check_book_cursor t i =
     rbind (cursor_string t ''title sort value'' 100 None) (\<lambda>t'. rbind (cursor_id i ''book id'') (\<lambda>i'. Inr (t', i')))"

definition book_of_hit :: "platform \<Rightarrow> (string \<times> wire) list \<Rightarrow> query_exn + book_read_model" where
  "book_of_hit pl hit = book_from_mapping pl (put_member ''status'' (dget_or hit ''status'' (WStr ''available'')) hit)"

definition find_books ::
  "platform \<Rightarrow> search_env \<Rightarrow> book_filters \<Rightarrow> int \<Rightarrow> int \<Rightarrow> string option \<Rightarrow> book_row list
     \<Rightarrow> query_exn + book_read_model query_page" where
  "find_books pl env f limit offset cursor rows =
     rbind (validate_pagination limit offset cursor) (\<lambda>_.
     rbind (read_cursor (book_scope pl f) cursor check_book_cursor) (\<lambda>(after, backend).
       search_or_database pl (book_scope pl f) env backend
         \<lparr>sr_index = ''books'', sr_query = book_es_query f, sr_size = limit, sr_from = offset,
          sr_sort = sort_clause [(''title.sort'', ''asc'', None)],
          sr_search_after = search_position after\<rparr>
         (book_of_hit pl) book_sort_values
         (find_books_in_db pl f limit offset after (book_scope pl f) rows)))"

definition find_book_by_id :: "string \<Rightarrow> book_row list \<Rightarrow> book_read_model option" where
  "find_book_by_id i rows = map_option book_model_of_row (find (\<lambda>r. br_id r = i) rows)"

definition count_or_database :: "search_env \<Rightarrow> string \<Rightarrow> wire \<Rightarrow> int \<Rightarrow> query_exn + int" where
  "count_or_database env index query from_db =
     (if \<not> fresh env then Inr from_db
      else case count_docs env index query of
        Inr n \<Rightarrow> Inr n
      | Inl e \<Rightarrow> (if search_failure e then Inr from_db else Inl e))"

definition count_books :: "search_env \<Rightarrow> bool \<Rightarrow> bool \<Rightarrow> book_row list \<Rightarrow> query_exn + int" where
  "count_books env only_available only_borrowed rows =
     count_or_database env ''books''
       (book_es_query \<lparr>bf_only_available = only_available, bf_only_borrowed = only_borrowed,
          bf_author_contains = None, bf_title_contains = None\<rparr>)
       (int (length (filter (\<lambda>r. if only_available then br_status r = ''available''
          else if only_borrowed then br_status r = ''borrowed'' else True) rows)))"

section \<open>Patrons\<close>

record patron_filters =
  pf_only_suspended :: bool
  pf_membership_tier :: "string option"

definition patron_scope :: "platform \<Rightarrow> patron_filters \<Rightarrow> string" where
  "patron_scope pl f = cursor_scope (pl_sha pl) ''patrons''
     [(''only_suspended'', WBool (pf_only_suspended f)), (''membership_tier'', opt_str (pf_membership_tier f))]"

definition patron_where :: "patron_filters \<Rightarrow> patron_row \<Rightarrow> bool" where
  "patron_where f r \<longleftrightarrow> (pf_only_suspended f \<longrightarrow> pr_is_suspended r)
     \<and> (opt_set (pf_membership_tier f) \<longrightarrow> Some (pr_membership_tier r) = pf_membership_tier f)"

definition patron_after :: "platform \<Rightarrow> (instant \<times> string) option \<Rightarrow> patron_row \<Rightarrow> bool" where
  "patron_after pl after r =
     (case after of
        None \<Rightarrow> True
      | Some (t, i) \<Rightarrow> t < pr_registered_at r
          \<or> (pr_registered_at r = t \<and> pl_collate pl i < pl_collate pl (pr_id r)))"

definition patron_order :: "platform \<Rightarrow> patron_row \<Rightarrow> instant \<times> string" where
  "patron_order pl r = (pr_registered_at r, pl_collate pl (pr_id r))"

definition patron_sort_values :: "patron_read_model \<Rightarrow> wire list" where
  "patron_sort_values m = [WDate (pm_registered_at m), WStr (pm_id m)]"

text \<open>The instant of a cursor was printed for the search; the statement reads it again.\<close>

definition dated_position :: "platform \<Rightarrow> (string \<times> string) option \<Rightarrow> query_exn + (instant \<times> string) option" where
  "dated_position pl after =
     (case after of
        None \<Rightarrow> Inr None
      | Some (t, i) \<Rightarrow> rbind (cursor_datetime pl (WStr t)) (\<lambda>t'. Inr (Some (t', i))))"

definition find_patrons_in_db ::
  "platform \<Rightarrow> patron_filters \<Rightarrow> int \<Rightarrow> int \<Rightarrow> (string \<times> string) option \<Rightarrow> string \<Rightarrow> patron_row list
     \<Rightarrow> query_exn + patron_read_model query_page" where
  "find_patrons_in_db pl f limit offset after sc rows =
     rbind (dated_position pl after) (\<lambda>pos.
       database_page pl sc limit patron_sort_values
         (map patron_model_of_row
           (sql_select (\<lambda>r. patron_where f r \<and> patron_after pl pos r) (patron_order pl) limit offset rows)))"

definition patron_es_query :: "patron_filters \<Rightarrow> wire" where
  "patron_es_query f =
     (let filter_clauses =
            (if pf_only_suspended f then [term_clause ''is_suspended'' (WBool True)] else [])
            @ (if opt_set (pf_membership_tier f)
               then [term_clause ''membership_tier'' (opt_str (pf_membership_tier f))] else [])
      in if filter_clauses \<noteq> [] then WObj [(''bool'', WObj [(''filter'', WArr filter_clauses)])]
         else WObj [(''match_all'', WObj [])])"

definition check_dated_cursor :: "platform \<Rightarrow> string \<Rightarrow> wire \<Rightarrow> wire \<Rightarrow> query_exn + string \<times> string" where
  "check_dated_cursor pl field t i =
     rbind (cursor_datetime pl t) (\<lambda>t'. rbind (cursor_id i field) (\<lambda>i'. Inr (isoformat t', i')))"

definition find_patrons ::
  "platform \<Rightarrow> search_env \<Rightarrow> patron_filters \<Rightarrow> int \<Rightarrow> int \<Rightarrow> string option \<Rightarrow> patron_row list
     \<Rightarrow> query_exn + patron_read_model query_page" where
  "find_patrons pl env f limit offset cursor rows =
     rbind (validate_pagination limit offset cursor) (\<lambda>_.
     rbind (read_cursor (patron_scope pl f) cursor (check_dated_cursor pl ''patron id'')) (\<lambda>(after, backend).
       search_or_database pl (patron_scope pl f) env backend
         \<lparr>sr_index = ''patrons'', sr_query = patron_es_query f, sr_size = limit, sr_from = offset,
          sr_sort = sort_clause [(''registered_at'', ''asc'', Some ''strict_date_time_nanos'')],
          sr_search_after = search_position after\<rparr>
         (patron_from_mapping pl) patron_sort_values
         (find_patrons_in_db pl f limit offset after (patron_scope pl f) rows)))"

definition find_patron_by_id :: "string \<Rightarrow> patron_row list \<Rightarrow> patron_read_model option" where
  "find_patron_by_id i rows = map_option patron_model_of_row (find (\<lambda>r. pr_id r = i) rows)"

definition find_patron_by_email :: "string \<Rightarrow> patron_row list \<Rightarrow> patron_read_model option" where
  "find_patron_by_email e rows = map_option patron_model_of_row (find (\<lambda>r. pr_email r = e) rows)"

definition count_patrons :: "search_env \<Rightarrow> bool \<Rightarrow> patron_row list \<Rightarrow> query_exn + int" where
  "count_patrons env only_suspended rows =
     count_or_database env ''patrons''
       (patron_es_query \<lparr>pf_only_suspended = only_suspended, pf_membership_tier = None\<rparr>)
       (int (length (filter (\<lambda>r. only_suspended \<longrightarrow> pr_is_suspended r) rows)))"

section \<open>Loans\<close>

definition terminal_statuses :: "string list" where
  "terminal_statuses = [''returned'', ''cancelled'']"

definition loan_scope :: "platform \<Rightarrow> string \<Rightarrow> bool \<Rightarrow> string" where
  "loan_scope pl patron only_active = cursor_scope (pl_sha pl) ''patron-loans''
     [(''patron_id'', WStr patron), (''only_active'', WBool only_active)]"

definition loan_where :: "string \<Rightarrow> bool \<Rightarrow> loan_row \<Rightarrow> bool" where
  "loan_where patron only_active r \<longleftrightarrow> lr_patron_id r = patron
     \<and> (only_active \<longrightarrow> lr_status r \<notin> set terminal_statuses)"

definition loan_after :: "platform \<Rightarrow> (instant \<times> string) option \<Rightarrow> loan_row \<Rightarrow> bool" where
  "loan_after pl after r =
     (case after of
        None \<Rightarrow> True
      | Some (t, i) \<Rightarrow> lr_borrowed_at r < t
          \<or> (lr_borrowed_at r = t \<and> pl_collate pl i < pl_collate pl (lr_id r)))"

text \<open>\<open>ORDER BY borrowed_at DESC, id\<close>\<close>

definition loan_order :: "platform \<Rightarrow> loan_row \<Rightarrow> instant \<times> string" where
  "loan_order pl r = (- lr_borrowed_at r, pl_collate pl (lr_id r))"

definition loan_sort_values :: "loan_read_model \<Rightarrow> wire list" where
  "loan_sort_values m = [WDate (lm_borrowed_at m), WStr (lm_id m)]"

definition find_loans_in_db ::
  "platform \<Rightarrow> string \<Rightarrow> bool \<Rightarrow> int \<Rightarrow> int \<Rightarrow> (string \<times> string) option \<Rightarrow> string \<Rightarrow> loan_row list
     \<Rightarrow> query_exn + loan_read_model query_page" where
  "find_loans_in_db pl patron only_active limit offset after sc rows =
     rbind (dated_position pl after) (\<lambda>pos.
       database_page pl sc limit loan_sort_values
         (map loan_model_of_row
           (sql_select (\<lambda>r. loan_where patron only_active r \<and> loan_after pl pos r) (loan_order pl) limit offset rows)))"

definition not_terminal_clause :: "(string \<times> wire) list" where
  "not_terminal_clause =
     [(''must_not'', WArr [WObj [(''terms'', WObj [(''status'', WArr (map WStr terminal_statuses))])]])]"

definition loan_es_query :: "string \<Rightarrow> bool \<Rightarrow> wire" where
  "loan_es_query patron only_active =
     (let filter_clauses = (if patron \<noteq> [] then [term_clause ''patron_id'' (WStr patron)] else [])
      in if filter_clauses \<noteq> [] \<or> only_active
         then WObj [(''bool'', WObj ((''filter'', WArr filter_clauses) # (if only_active then not_terminal_clause else [])))]
         else WObj [(''match_all'', WObj [])])"

definition find_loans_by_patron ::
  "platform \<Rightarrow> search_env \<Rightarrow> string \<Rightarrow> bool \<Rightarrow> int \<Rightarrow> int \<Rightarrow> string option \<Rightarrow> loan_row list
     \<Rightarrow> query_exn + loan_read_model query_page" where
  "find_loans_by_patron pl env patron only_active limit offset cursor rows =
     rbind (validate_pagination limit offset cursor) (\<lambda>_.
     rbind (read_cursor (loan_scope pl patron only_active) cursor (check_dated_cursor pl ''loan id'')) (\<lambda>(after, backend).
       search_or_database pl (loan_scope pl patron only_active) env backend
         \<lparr>sr_index = ''loans'', sr_query = loan_es_query patron only_active, sr_size = limit, sr_from = offset,
          sr_sort = sort_clause [(''borrowed_at'', ''desc'', Some ''strict_date_time_nanos'')],
          sr_search_after = search_position after\<rparr>
         (loan_from_mapping pl) loan_sort_values
         (find_loans_in_db pl patron only_active limit offset after (loan_scope pl patron only_active) rows)))"

definition find_loan_by_id :: "string \<Rightarrow> loan_row list \<Rightarrow> loan_read_model option" where
  "find_loan_by_id i rows = map_option loan_model_of_row (find (\<lambda>r. lr_id r = i) rows)"

definition overdue_where :: "instant \<Rightarrow> loan_row \<Rightarrow> bool" where
  "overdue_where now r \<longleftrightarrow> lr_status r \<notin> set terminal_statuses \<and> lr_due_date r < now"

definition overdue_in_db :: "platform \<Rightarrow> instant \<Rightarrow> int \<Rightarrow> loan_row list \<Rightarrow> loan_read_model list" where
  "overdue_in_db pl now limit rows =
     map loan_model_of_row
       (sql_select (overdue_where now) (\<lambda>r. (lr_due_date r, pl_collate pl (lr_id r))) limit 0 rows)"

definition overdue_es_query :: "instant \<Rightarrow> wire" where
  "overdue_es_query now = WObj [(''bool'', WObj ((''filter'', WArr [WObj [(''range'', WObj [(''due_date'',
     WObj [(''lt'', WStr (isoformat now))])])]]) # not_terminal_clause))]"

text \<open>\<open>now\<close> is the clock of the process, \<open>db_now\<close> that of the database.\<close>

definition find_overdue ::
  "platform \<Rightarrow> search_env \<Rightarrow> instant \<Rightarrow> instant \<Rightarrow> int \<Rightarrow> loan_row list \<Rightarrow> query_exn + loan_read_model list" where
  "find_overdue pl env now db_now limit rows =
     rbind (validate_pagination limit 0 None) (\<lambda>_.
       (if \<not> fresh env then Inr (overdue_in_db pl db_now limit rows)
        else case search env \<lparr>sr_index = ''loans'', sr_query = overdue_es_query now, sr_size = limit, sr_from = 0,
               sr_sort = sort_clause [(''due_date'', ''asc'', Some ''strict_date_time_nanos'')], sr_search_after = None\<rparr> of
          Inl e \<Rightarrow> (if search_failure e then Inr (overdue_in_db pl db_now limit rows) else Inl e)
        | Inr result \<Rightarrow>
            (case rmap_all (loan_from_mapping pl) (map hit_fields (er_hits result)) of
               Inr items \<Rightarrow> Inr items
             | Inl e \<Rightarrow> (if document_failure e then Inr (overdue_in_db pl db_now limit rows) else Inl e))))"

end
