(* ===== verification/Paging.thy ===== *)
theory Paging
  imports QueryRepos
begin

text \<open>
  Following the cursors of a paged query: \<open>follow\<close> is the client that asks for the next page
  with the cursor of the last one, the state of the server being another one at each request.

  The locale \<open>keyset\<close> states what such a query promises of a single page; its lemmas say what
  a client gets that follows the cursors: with a table that does not change, the whole
  result in order after finitely many requests; with a table that changes in between, every
  row that is there all the time exactly once.
\<close>

fun follow ::
  "(string option \<Rightarrow> 's \<Rightarrow> 'e + 'i query_page) \<Rightarrow> string option \<Rightarrow> 's list \<Rightarrow> 'e + 'i list \<times> bool" where
  "follow get_page c [] = Inr ([], False)"
| "follow get_page c (s # ss) =
     rbind (get_page c s) (\<lambda>p.
       case pg_next_cursor p of
         None \<Rightarrow> Inr (pg_items p, True)
       | Some c' \<Rightarrow> rbind (follow get_page (Some c') ss) (\<lambda>(is, complete). Inr (pg_items p @ is, complete)))"

section \<open>Sorted selections\<close>

definition beyond :: "'k::linorder option \<Rightarrow> 'k \<Rightarrow> bool" where
  "beyond a k = (case a of None \<Rightarrow> True | Some b \<Rightarrow> b < k)"

lemma beyond_trans: "beyond a k \<Longrightarrow> k \<le> l \<Longrightarrow> beyond a l"
  by (auto simp: beyond_def split: option.splits)

lemma sorted_strict:
  assumes "inj_on f (set xs)" and "distinct xs"
  shows "sorted_wrt (<) (map f (sort_key f xs))"
proof -
  have "distinct (map f (sort_key f xs))" using assms by (simp add: distinct_map)
  then show ?thesis by (simp add: strict_sorted_iff)
qed

lemma sort_key_restrict:
  "sort_key f (filter (\<lambda>r. p r \<and> q (f r)) xs) = filter (\<lambda>r. q (f r)) (sort_key f (filter p xs))"
  by (simp add: filter_sort conj_commute)

text \<open>The part of a strictly sorted list beyond the last of its first elements is the rest of it.\<close>

lemma beyond_last:
  fixes f :: "'r \<Rightarrow> 'k::linorder"
  assumes "sorted_wrt (<) (map f (xs @ ys))" and "xs \<noteq> []"
  shows "filter (\<lambda>r. f (last xs) < f r) (xs @ ys) = ys"
proof -
  have "f x \<le> f (last xs)" if x: "x \<in> set xs" for x
  proof -
    have s: "sorted (map f xs)" using assms(1) by (simp add: sorted_wrt_append strict_sorted_imp_sorted)
    obtain us vs where "xs = us @ x # vs" using split_list [OF x] by blast
    with s show ?thesis by (cases "vs = []") (auto simp: sorted_append)
  qed
  then have "filter (\<lambda>r. f (last xs) < f r) xs = []" by (auto simp: filter_empty_conv not_less)
  moreover have "filter (\<lambda>r. f (last xs) < f r) ys = ys"
    using assms by (intro filter_True) (auto simp: sorted_wrt_append)
  ultimately show ?thesis by simp
qed

section \<open>What a page promises\<close>

text \<open>
  \<open>order\<close> is the sort key, \<open>sel\<close> the filter, \<open>rows s\<close> the table in the state \<open>s\<close>;
  \<open>means c a\<close> says that the cursor \<open>c\<close> stands for the position after the key \<open>a\<close>.
\<close>

definition page_rows :: "('r \<Rightarrow> 'k::linorder) \<Rightarrow> ('r \<Rightarrow> bool) \<Rightarrow> nat \<Rightarrow> 'k option \<Rightarrow> 'r list \<Rightarrow> 'r list" where
  "page_rows order sel limit a rs = take limit (sort_key order (filter (\<lambda>r. sel r \<and> beyond a (order r)) rs))"

locale keyset =
  fixes order :: "'r \<Rightarrow> 'k::linorder" and sel :: "'r \<Rightarrow> bool" and model :: "'r \<Rightarrow> 'i" and limit :: nat
    and rows :: "'s \<Rightarrow> 'r list" and ok :: "'s \<Rightarrow> bool" and first :: "'s \<Rightarrow> bool"
    and get_page :: "string option \<Rightarrow> 's \<Rightarrow> 'e + 'i query_page" and means :: "string option \<Rightarrow> 'k option \<Rightarrow> bool"
  assumes limit_pos: "0 < limit"
    and keys: "ok s \<Longrightarrow> distinct (rows s) \<and> inj_on order (set (rows s))"
    and start: "means None None"
    and page: "ok s \<Longrightarrow> means c a \<Longrightarrow> (c = None \<Longrightarrow> first s) \<Longrightarrow> \<exists>p. get_page c s = Inr p
      \<and> pg_items p = map model (page_rows order sel limit a (rows s))
      \<and> (if length (page_rows order sel limit a (rows s)) = limit
         then \<exists>c'. pg_next_cursor p = Some c' \<and> means (Some c') (Some (order (last (page_rows order sel limit a (rows s)))))
         else pg_next_cursor p = None)"
begin

abbreviation page_of :: "'k option \<Rightarrow> 's \<Rightarrow> 'r list" where
  "page_of a s \<equiv> page_rows order sel limit a (rows s)"

abbreviation selected :: "'k option \<Rightarrow> 's \<Rightarrow> 'r list" where
  "selected a s \<equiv> sort_key order (filter (\<lambda>r. sel r \<and> beyond a (order r)) (rows s))"

lemma selected_strict: "ok s \<Longrightarrow> sorted_wrt (<) (map order (selected a s))"
  by (intro sorted_strict) (auto dest!: keys intro: inj_on_subset)

lemma page_strict: "ok s \<Longrightarrow> sorted_wrt (<) (map order (page_of a s))"
  using selected_strict [of s a] unfolding page_rows_def
  by (metis append_take_drop_id map_append sorted_wrt_append)

lemma page_beyond: "r \<in> set (page_of a s) \<Longrightarrow> r \<in> set (rows s) \<and> sel r \<and> beyond a (order r)"
  by (auto simp: page_rows_def dest!: in_set_takeD)

text \<open>A key that is on the table is on the page or beyond it.\<close>

lemma page_covers:
  assumes "ok s" and "k \<in> order ` {r \<in> set (rows s). sel r}" and "beyond a k"
  shows "k \<in> order ` set (page_of a s)
    \<or> (length (page_of a s) = limit \<and> order (last (page_of a s)) < k)"
proof -
  let ?l = "selected a s"
  obtain r where r: "r \<in> set ?l" "order r = k" using assms(2,3) by auto
  consider "r \<in> set (take limit ?l)" | "r \<in> set (drop limit ?l)"
    using r(1) by (metis append_take_drop_id Un_iff set_append)
  then show ?thesis
  proof cases
    case 1
    with r show ?thesis by (auto simp: page_rows_def)
  next
    case 2
    then have "limit < length ?l" by (cases "limit < length ?l") auto
    then have n: "length (take limit ?l) = limit" by simp
    then have ne: "take limit ?l \<noteq> []" using limit_pos by (metis list.size(3) nat_less_le)
    have "sorted_wrt (<) (map order (take limit ?l @ drop limit ?l))" using selected_strict [OF assms(1)] by simp
    then have "order (last (take limit ?l)) < order r"
      using 2 ne by (simp only: map_append sorted_wrt_append) auto
    with n ne r show ?thesis by (auto simp: page_rows_def)
  qed
qed

text \<open>The rest of the selection after a full page.\<close>

lemma selected_next:
  assumes "ok s" and "length (page_of a s) = limit"
  shows "selected a s = page_of a s @ selected (Some (order (last (page_of a s)))) s"
proof -
  let ?l = "selected a s" and ?p = "page_of a s"
  have split: "?l = ?p @ drop limit ?l" by (simp add: page_rows_def)
  have ne: "?p \<noteq> []" using assms(2) limit_pos by auto
  have "beyond a (order (last ?p))" using page_beyond [OF last_in_set [OF ne]] by blast
  then have "beyond a (order r)" if "order (last ?p) < order r" for r
    using that beyond_trans less_imp_le by blast
  then have "selected (Some (order (last ?p))) s = filter (\<lambda>r. order (last ?p) < order r) ?l"
    by (simp add: filter_sort beyond_def) (rule arg_cong [where f = "sort_key order"], rule filter_cong, auto)
  also have "\<dots> = drop limit ?l"
    using beyond_last [of order ?p "drop limit ?l"] selected_strict [OF assms(1), of a] ne
    unfolding split [symmetric] by blast
  finally show ?thesis using split by simp
qed

text \<open>A table that does not change is listed completely, in order, after finitely many requests.\<close>

lemma follow_constant:
  assumes "ok s" and "means c a" and "c = None \<Longrightarrow> first s" and "length (selected a s) < n * limit"
  shows "follow get_page c (replicate n s) = Inr (map model (selected a s), True)"
  using assms
proof (induction n arbitrary: c a)
  case (Suc n)
  from page [OF Suc.prems(1,2,3)] obtain p where p: "get_page c s = Inr p"
    "pg_items p = map model (page_of a s)"
    "if length (page_of a s) = limit
     then \<exists>c'. pg_next_cursor p = Some c' \<and> means (Some c') (Some (order (last (page_of a s))))
     else pg_next_cursor p = None" by blast
  show ?case
  proof (cases "length (page_of a s) = limit")
    case True
    with p obtain c' where c': "pg_next_cursor p = Some c'" "means (Some c') (Some (order (last (page_of a s))))"
      by auto
    have n: "selected a s = page_of a s @ selected (Some (order (last (page_of a s)))) s"
      by (rule selected_next [OF Suc.prems(1) True])
    have "length (selected (Some (order (last (page_of a s)))) s) < n * limit"
      using Suc.prems(4) arg_cong [OF n, of length] True by simp
    with Suc.IH [OF Suc.prems(1) c'(2)] have
      "follow get_page (Some c') (replicate n s) = Inr (map model (selected (Some (order (last (page_of a s)))) s), True)"
      by simp
    then show ?thesis using p c' by (subst n) simp
  next
    case False
    then have "page_of a s = selected a s" by (simp add: page_rows_def)
    with p False show ?thesis by simp
  qed
qed simp

text \<open>
  A table that changes between the requests: the keys of what is listed ascend strictly (no
  row is repeated), and a walk that comes to its end has met every key that was there all the time.
\<close>

lemma follow_changing:
  assumes "\<forall>s\<in>set ss. ok s" and "means c a" and "c = None \<Longrightarrow> ss = [] \<or> first (hd ss)"
  shows "\<exists>rs complete. follow get_page c ss = Inr (map model rs, complete) \<and> sorted_wrt (<) (map order rs)
    \<and> (\<forall>r\<in>set rs. sel r \<and> beyond a (order r) \<and> (\<exists>s\<in>set ss. r \<in> set (rows s)))
    \<and> (complete \<longrightarrow> (\<forall>k. beyond a k \<and> (\<forall>s\<in>set ss. k \<in> order ` {r \<in> set (rows s). sel r}) \<longrightarrow> k \<in> order ` set rs))"
  using assms
proof (induction ss arbitrary: c a)
  case Nil
  show ?case by (intro exI [of _ "[]"] exI [of _ False]) simp
next
  case (Cons s ss)
  have s: "ok s" "\<forall>s\<in>set ss. ok s" using Cons.prems(1) by simp_all
  from page [OF s(1) Cons.prems(2)] Cons.prems(3) obtain p where p: "get_page c s = Inr p"
    "pg_items p = map model (page_of a s)"
    "if length (page_of a s) = limit
     then \<exists>c'. pg_next_cursor p = Some c' \<and> means (Some c') (Some (order (last (page_of a s))))
     else pg_next_cursor p = None" by auto
  show ?case
  proof (cases "length (page_of a s) = limit")
    case False
    have "k \<in> order ` set (page_of a s)" if "beyond a k" "k \<in> order ` {r \<in> set (rows s). sel r}" for k
      using page_covers [OF s(1) that(2,1)] False by simp
    then show ?thesis using p False page_strict [OF s(1), of a] page_beyond [of _ a s]
      by (intro exI [of _ "page_of a s"] exI [of _ True]) auto
  next
    case True
    let ?b = "order (last (page_of a s))"
    from True p obtain c' where c': "pg_next_cursor p = Some c'" "means (Some c') (Some ?b)" by auto
    from Cons.IH [OF s(2) c'(2)] obtain rs complete where f: "follow get_page (Some c') ss = Inr (map model rs, complete)"
      "sorted_wrt (<) (map order rs)"
      "\<forall>r\<in>set rs. sel r \<and> beyond (Some ?b) (order r) \<and> (\<exists>s\<in>set ss. r \<in> set (rows s))"
      "complete \<longrightarrow> (\<forall>k. beyond (Some ?b) k \<and> (\<forall>s\<in>set ss. k \<in> order ` {r \<in> set (rows s). sel r}) \<longrightarrow> k \<in> order ` set rs)"
      by auto
    have ne: "page_of a s \<noteq> []" using True limit_pos by auto
    have le: "order r \<le> ?b" if r: "r \<in> set (page_of a s)" for r
    proof -
      obtain us vs where "page_of a s = us @ r # vs" using split_list [OF r] by blast
      with page_strict [OF s(1), of a] show ?thesis by (cases "vs = []") (auto simp: sorted_wrt_append intro: less_imp_le)
    qed
    have ab: "beyond a ?b" using page_beyond [OF last_in_set [OF ne]] by blast
    have "sorted_wrt (<) (map order (page_of a s @ rs))"
      using page_strict [OF s(1), of a] f(2,3) le by (fastforce simp: sorted_wrt_append beyond_def)
    moreover have "\<forall>r\<in>set (page_of a s @ rs). sel r \<and> beyond a (order r) \<and> (\<exists>s'\<in>set (s # ss). r \<in> set (rows s'))"
      using page_beyond [of _ a s] f(3) ab by (auto simp: beyond_def split: option.splits)
    moreover have "k \<in> order ` set (page_of a s @ rs)"
      if "complete" "beyond a k" "\<forall>s'\<in>set (s # ss). k \<in> order ` {r \<in> set (rows s'). sel r}" for k
      using page_covers [OF s(1) _ that(2)] that f(4) by (auto simp: beyond_def)
    ultimately show ?thesis using p c' f(1)
      by (intro exI [of _ "page_of a s @ rs"] exI [of _ complete]) auto
  qed
qed

end

end
