(* ===== verification/PagingProps.thy ===== *)
theory PagingProps
  imports Paging DatabaseProps
begin

text \<open>
  The pages of the three query repositories keep the contract \<open>keyset\<close>: the statement of a
  page is the selection beyond the cursor, the cursor of a full page is read back and stands
  for its last row. The platform is what is documented of it: SHA-256 gives 64 hexadecimal
  digits, and two texts with the same collation key are equal (a deterministic collation).
\<close>

definition platform_ok :: "platform \<Rightarrow> bool" where
  "platform_ok pl \<longleftrightarrow> inj (pl_collate pl) \<and> (\<forall>x. is_sha256 (pl_sha pl x))"

section \<open>Cursors are short enough\<close>

lemma length_json_char: "length (json_char c) \<le> 6"
  by (rule json_char_kind [of c]) simp_all

lemma length_json_string: "length (json_string s) \<le> 6 * length s + 2"
proof -
  have "length (concat (map json_char s)) \<le> 6 * length s"
    using length_json_char by (induction s) (auto intro: add_mono)
  then show ?thesis by (simp add: json_string_def)
qed

lemma ident_json_char: "is_alnum c \<or> ref_extra c \<Longrightarrow> length (json_char c) = 1"
  by (auto simp: json_char_def short_escape_def ref_extra_def char_defs code_def)

lemma hex_json_char: "is_digit c \<or> (97 \<le> code c \<and> code c \<le> 102) \<Longrightarrow> length (json_char c) = 1"
  by (auto simp: json_char_def short_escape_def char_defs)

lemma length_plain_string: "\<forall>c\<in>set s. length (json_char c) = 1 \<Longrightarrow> length (json_string s) = length s + 2"
  by (induction s) (auto simp: json_string_def)

lemma ident_length: "ident_match ref_extra s \<Longrightarrow> length (json_string s) = length s + 2"
  using ident_match_chars [of ref_extra s] ident_json_char by (intro length_plain_string) blast

lemma scope_length:
  assumes "platform_ok pl"
  shows "length (json_string (cursor_scope (pl_sha pl) n fs)) \<le> 26"
proof -
  let ?s = "cursor_scope (pl_sha pl) n fs"
  have "is_sha256 (pl_sha pl x)" for x using assms by (simp add: platform_ok_def)
  then have "\<forall>c\<in>set ?s. is_digit c \<or> (97 \<le> code c \<and> code c \<le> 102)"
    by (auto simp: cursor_scope_def is_sha256_def list_all_iff dest!: in_set_takeD)
  then have "length (json_string ?s) = length ?s + 2" using hex_json_char by (intro length_plain_string) blast
  then show ?thesis by (simp add: cursor_scope_def)
qed

text \<open>The cursor of two texts, an identifier of the second kind included, that a page of the database carries.\<close>

lemma cursor_issued:
  assumes "platform_ok pl" and "length t \<le> 100" and "length i \<le> 64" and "ident_match ref_extra i"
  shows "\<exists>c. encode_cursor (pl_float pl) (cursor_scope (pl_sha pl) n fs) (map WStr [t, i]) (Some ''postgresql'') = Inr c
    \<and> c \<noteq> [] \<and> length c \<le> max_cursor_length
    \<and> decode_cursor_with_backend c (cursor_scope (pl_sha pl) n fs) 2 = Inr (map WStr [t, i], Some ''postgresql'')"
proof -
  let ?sc = "cursor_scope (pl_sha pl) n fs"
  let ?w = "WObj [(''backend'', WStr ''postgresql''), (''scope'', WStr ?sc), (''sort'', WArr (map WStr [t, i])), (''v'', WInt 1)]"
  let ?c = "b64_text (json_text [] (pl_float pl) ?w)"
  have e: "encode_cursor (pl_float pl) ?sc (map WStr [t, i]) (Some ''postgresql'') = Inr ?c"
    using cursor_envelope [of ?sc "[t, i]" "''postgresql''"]
    by (simp add: encode_cursor_def cursor_backends_def json_dumps_def strip_b64)
  have short: "length (json_string k) = length k + 2"
    if "k \<in> {''backend'', ''postgresql'', ''scope'', ''sort'', ''v''}" for k
    using that by (intro ident_length) (auto simp: str_eval)
  have "length (json_text [] (pl_float pl) ?w) \<le> 744"
    using length_json_string [of t] ident_length [OF assms(4)] scope_length [OF assms(1), of n fs] assms(2,3)
    by (simp add: short show_int_def show_nat.simps)
  then have len: "length ?c \<le> max_cursor_length"
    using length_b64 [of "json_text [] (pl_float pl) ?w"] by (simp add: max_cursor_length_def del: json_text.simps)
  have "json_text [] (pl_float pl) ?w \<noteq> []" by simp
  then have ne: "?c \<noteq> []" by (cases "json_text [] (pl_float pl) ?w" rule: b64_text.cases) auto
  have "decode_cursor_with_backend ?c ?sc (length [t, i]) = Inr (map WStr [t, i], Some ''postgresql'')"
    by (rule cursor_roundtrip [OF e len])
  with e len ne show ?thesis by (simp add: numeral_2_eq_2)
qed

lemma cursor_id_ok: "length i \<le> 64 \<Longrightarrow> ident_match ref_extra i \<Longrightarrow> cursor_id (WStr i) f = Inr i"
  using ident_match_nonempty [of ref_extra i] by (simp add: cursor_id_def cursor_string_def)

lemma validate_first: "n < 1000 \<Longrightarrow> validate_pagination (int (Suc n)) 0 None = Inr ()"
  by (simp add: validate_pagination_def max_page_size_def max_result_window_def)

lemma validate_next: "n < 1000 \<Longrightarrow> c \<noteq> [] \<Longrightarrow> length c \<le> max_cursor_length
    \<Longrightarrow> validate_pagination (int (Suc n)) 0 (Some c) = Inr ()"
  by (simp add: validate_pagination_def max_page_size_def)

section \<open>Books\<close>

text \<open>A stored row satisfies each column type and each constraint of its table.\<close>

lemma row_condition:
  assumes "row_error sch r = None" and "(n, b) \<in> set (column_types sch r) \<or> (n, b) \<in> set (constraints sch r)"
  shows b
  using assms unfolding row_error_None first_violation_None by auto

lemma book_columns:
  assumes "db_ok d" and "r \<in> set (books d)"
  shows "length (br_title r) \<le> 100" "br_title r \<noteq> []" "length (br_id r) \<le> 64" "ident_match ref_extra (br_id r)"
proof -
  have r: "row_error book_schema r = None" using assms by (simp add: db_ok_def table_ok_def)
  have "between 1 100 (length (pg_trim (br_title r)))"
    by (rule row_condition [OF r, of "''ck_books_title''"]) (simp add: book_schema_def book_checks_def)
  then show "br_title r \<noteq> []" by (auto simp: between_def pg_trim_def)
  show "length (br_title r) \<le> 100"
    by (rule row_condition [OF r, of "''title''"]) (simp add: book_schema_def book_types_def)
  show "length (br_id r) \<le> 64"
    by (rule row_condition [OF r, of "''id''"]) (simp add: book_schema_def book_types_def)
  have "sql_ident (br_id r)"
    by (rule row_condition [OF r, of "''ck_books_id''"]) (simp add: book_schema_def book_checks_def)
  then show "ident_match ref_extra (br_id r)" by (simp add: sql_ident_def)
qed

lemma key_inj: "distinct (map f xs) \<Longrightarrow> inj g \<Longrightarrow> distinct xs \<and> inj_on (\<lambda>r. (h r, g (f r))) (set xs)"
  by (auto simp: distinct_map inj_on_def dest: injD)

definition book_position :: "platform \<Rightarrow> book_filters \<Rightarrow> nat \<Rightarrow> string option \<Rightarrow> (string \<times> string) option \<Rightarrow> bool" where
  "book_position pl f n c a \<longleftrightarrow>
     (case c of
        None \<Rightarrow> a = None
      | Some c' \<Rightarrow> \<exists>t i. a = Some (pl_collate pl t, pl_collate pl i)
          \<and> validate_pagination (int (Suc n)) 0 c = Inr ()
          \<and> read_cursor (book_scope pl f) c check_book_cursor = Inr (Some (t, i), Some ''postgresql''))"

definition books_ok :: "platform \<Rightarrow> nat \<Rightarrow> search_env \<times> db \<Rightarrow> bool" where
  "books_ok pl n s \<longleftrightarrow> platform_ok pl \<and> n < 1000 \<and> db_ok (snd s)
     \<and> (\<forall>r\<in>set (books (snd s)). pl_lower pl (br_title r) = py_lower (br_title r))"

lemma pair_less: "(a, b) < (c, d) \<longleftrightarrow> a < c \<or> (c = a \<and> b < d)" for a c :: "'a::linorder" and b d :: "'b::linorder"
  by (auto simp: less_prod_simp)

lemma book_after_beyond:
  assumes "inj (pl_collate pl)"
  shows "book_after pl None r = beyond None (book_order pl r)"
    "book_after pl (Some (t, i)) r = beyond (Some (pl_collate pl t, pl_collate pl i)) (book_order pl r)"
proof -
  show "book_after pl (Some (t, i)) r = beyond (Some (pl_collate pl t, pl_collate pl i)) (book_order pl r)"
    by (simp only: book_after_def beyond_def book_order_def pair_less inj_eq [OF assms] option.case prod.case)
qed (simp add: book_after_def beyond_def)

lemma sql_select_page:
  "sql_select (\<lambda>r. p r \<and> q r) order (int (Suc n)) 0 rs = take (Suc n) (sort_key order (filter (\<lambda>r. p r \<and> q r) rs))"
  by (simp add: sql_select_def nat_add_distrib)

text \<open>The promise of one page, for the database page of a repository.\<close>

lemma database_page_promise:
  assumes "items = map model rs"
    and "rs \<noteq> [] \<Longrightarrow> encode_cursor (pl_float pl) sc (last_sort (model (last rs))) (Some ''postgresql'') = Inr c"
  shows "\<exists>p. database_page pl sc (int (Suc n)) last_sort items = Inr p \<and> pg_items p = map model rs
    \<and> pg_next_cursor p = (if length rs = Suc n then Some c else None)"
proof -
  have "rs \<noteq> []" if "length rs = Suc n" using that by auto
  then show ?thesis using assms by (auto simp: database_page_def last_map)
qed

text \<open>A search that is answered by the database: stale, failing, or with an invalid document.\<close>

definition index_unusable :: "search_env \<Rightarrow> search_request \<Rightarrow> ((string \<times> wire) list \<Rightarrow> query_exn + 'i) \<Rightarrow> bool" where
  "index_unusable env rq to_item \<longleftrightarrow> \<not> fresh env \<or>
     (case search env rq of
        Inl e \<Rightarrow> search_failure e
      | Inr result \<Rightarrow> (case rmap_all to_item (map hit_fields (er_hits result)) of Inl e \<Rightarrow> document_failure e | Inr is \<Rightarrow> False))"

definition first_book_request :: "book_filters \<Rightarrow> nat \<Rightarrow> search_request" where
  "first_book_request f k = \<lparr>sr_index = ''books'', sr_query = book_es_query f, sr_size = int k, sr_from = 0,
     sr_sort = sort_clause [(''title.sort'', ''asc'', None)], sr_search_after = None\<rparr>"

lemma pinned_page:
  assumes "index_unusable env rq to_item \<and> backend \<noteq> Some ''elasticsearch'' \<or> backend = Some ''postgresql''"
  shows "search_or_database pl sc env backend rq to_item last_sort from_db = from_db"
  using assms by (auto simp: search_or_database_def index_unusable_def split: sum.splits)

lemma page_row:
  assumes "page_rows order sel k a rs \<noteq> []"
  shows "last (page_rows order sel k a rs) \<in> set rs"
proof -
  have "set (page_rows order sel k a rs) \<subseteq> set rs" by (auto simp: page_rows_def dest: in_set_takeD)
  with last_in_set [OF assms] show ?thesis by blast
qed

lemma find_books_page:
  assumes "books_ok pl n (env, d)" and "book_position pl f n c a" and "c = None \<Longrightarrow> index_unusable env (first_book_request f (Suc n)) (book_of_hit pl)"
  shows "\<exists>p. find_books pl env f (int (Suc n)) 0 c (books d) = Inr p
    \<and> pg_items p = map book_model_of_row (page_rows (book_order pl) (book_where pl f) (Suc n) a (books d))
    \<and> (if length (page_rows (book_order pl) (book_where pl f) (Suc n) a (books d)) = Suc n
       then \<exists>c'. pg_next_cursor p = Some c' \<and> book_position pl f n (Some c')
              (Some (book_order pl (last (page_rows (book_order pl) (book_where pl f) (Suc n) a (books d)))))
       else pg_next_cursor p = None)"
proof -
  let ?rs = "page_rows (book_order pl) (book_where pl f) (Suc n) a (books d)"
  let ?r = "last ?rs"
  from assms(1) have pl: "platform_ok pl" "inj (pl_collate pl)" and n: "n < 1000" and d: "db_ok d"
    and lower: "\<forall>r\<in>set (books d). pl_lower pl (br_title r) = py_lower (br_title r)"
    by (simp_all add: books_ok_def platform_ok_def)
  let ?rq = "\<lambda>after. first_book_request f (Suc n)\<lparr>sr_search_after := search_position after\<rparr>"
  obtain after backend where read: "validate_pagination (int (Suc n)) 0 c = Inr ()"
    "read_cursor (book_scope pl f) c check_book_cursor = Inr (after, backend)"
    "book_after pl after = (\<lambda>r. beyond a (book_order pl r))"
    "index_unusable env (?rq after) (book_of_hit pl) \<and> backend \<noteq> Some ''elasticsearch'' \<or> backend = Some ''postgresql''"
  proof (cases c)
    case None
    with assms(2,3) n that [of None None] validate_first [OF n] book_after_beyond(1) [OF pl(2)] show thesis
      by (simp add: book_position_def read_cursor_def fun_eq_iff search_position_def first_book_request_def)
  next
    case (Some c')
    with assms(2) obtain t i where "a = Some (pl_collate pl t, pl_collate pl i)"
      "validate_pagination (int (Suc n)) 0 c = Inr ()"
      "read_cursor (book_scope pl f) c check_book_cursor = Inr (Some (t, i), Some ''postgresql'')"
      by (auto simp: book_position_def)
    with that book_after_beyond(2) [OF pl(2)] show thesis by (simp add: fun_eq_iff)
  qed
  have page: "find_books pl env f (int (Suc n)) 0 c (books d)
      = database_page pl (book_scope pl f) (int (Suc n)) book_sort_values (map book_model_of_row ?rs)"
    by (simp add: find_books_def read(1,2) pinned_page [OF read(4), unfolded first_book_request_def search_request.simps] find_books_in_db_def sql_select_page read(3)
        page_rows_def del: of_nat_Suc)
  show ?thesis
  proof (cases "?rs = []")
    case True
    with page show ?thesis by (simp add: database_page_def)
  next
    case False
    then have r: "?r \<in> set (books d)" by (rule page_row)
    note col = book_columns [OF d r]
    have "\<exists>c. encode_cursor (pl_float pl) (book_scope pl f) (map WStr [py_lower (br_title ?r), br_id ?r]) (Some ''postgresql'')
        = Inr c \<and> c \<noteq> [] \<and> length c \<le> max_cursor_length
      \<and> decode_cursor_with_backend c (book_scope pl f) 2
        = Inr (map WStr [py_lower (br_title ?r), br_id ?r], Some ''postgresql'')"
      unfolding book_scope_def using col pl(1) by (intro cursor_issued) simp_all
    then obtain c' where c': "encode_cursor (pl_float pl) (book_scope pl f) (book_sort_values (book_model_of_row ?r))
        (Some ''postgresql'') = Inr c'" "c' \<noteq> []" "length c' \<le> max_cursor_length"
      "decode_cursor_with_backend c' (book_scope pl f) 2 = Inr (map WStr [py_lower (br_title ?r), br_id ?r], Some ''postgresql'')"
      by (auto simp: book_sort_values_def book_model_of_row_def)
    have "book_position pl f n (Some c') (Some (book_order pl ?r))"
      using validate_next [OF n c'(2,3)] c'(4) col lower r cursor_id_ok [OF col(3,4)]
      by (simp add: book_position_def book_order_def read_cursor_def check_book_cursor_def cursor_string_def py_lower_def)
    with database_page_promise [of "map book_model_of_row ?rs" book_model_of_row ?rs pl "book_scope pl f" book_sort_values c' n]
      page c'(1) show ?thesis by auto
  qed
qed

interpretation book_pages: keyset "book_order pl" "book_where pl f" book_model_of_row "Suc n" "\<lambda>s. books (snd s)"
  "books_ok pl n" "\<lambda>s. index_unusable (fst s) (first_book_request f (Suc n)) (book_of_hit pl)" "\<lambda>c s. find_books pl (fst s) f (int (Suc n)) 0 c (books (snd s))"
  "book_position pl f n"
proof unfold_locales
  fix s assume "books_ok pl n s"
  then have "distinct (map br_id (books (snd s)))" "inj (pl_collate pl)"
    by (simp_all add: books_ok_def platform_ok_def books_key)
  from key_inj [OF this, of "\<lambda>r. pl_collate pl (pl_lower pl (br_title r))"]
  show "distinct (books (snd s)) \<and> inj_on (book_order pl) (set (books (snd s)))"
    by (simp add: book_order_def [abs_def])
next
  fix s c a assume "books_ok pl n s" "book_position pl f n c a" "c = None \<Longrightarrow> index_unusable (fst s) (first_book_request f (Suc n)) (book_of_hit pl)"
  then show "\<exists>p. find_books pl (fst s) f (int (Suc n)) 0 c (books (snd s)) = Inr p
    \<and> pg_items p = map book_model_of_row (page_rows (book_order pl) (book_where pl f) (Suc n) a (books (snd s)))
    \<and> (if length (page_rows (book_order pl) (book_where pl f) (Suc n) a (books (snd s))) = Suc n
       then \<exists>c'. pg_next_cursor p = Some c' \<and> book_position pl f n (Some c')
              (Some (book_order pl (last (page_rows (book_order pl) (book_where pl f) (Suc n) a (books (snd s))))))
       else pg_next_cursor p = None)"
    using find_books_page [of pl n "fst s" "snd s" f c a] by simp
qed (simp_all add: book_position_def)

end
