(* ===== verification/DatedPaging.thy ===== *)
theory DatedPaging
  imports PagingProps
begin

text \<open>
  The pages of patrons and of loans, which are sorted by an instant and an identifier: the
  instant goes through the cursor as its ISO-8601 text and is read twice on the way back. One
  lemma covers the database page of both; two interpretations of \<open>keyset\<close> follow.
\<close>

section \<open>The text of an instant\<close>

lemma offset_zero: "offset_text 0 = ''+00:00''"
proof -
  have "char_of (48 :: nat) = CHR ''0''" by code_simp
  then show ?thesis by (simp add: offset_text_def pad_def show_nat.simps digit_char_def numeral_2_eq_2)
qed

lemma datetime_utc: "datetime_text (utc t) = isoformat t"
  by (simp add: isoformat_def offset_zero)

lemma encode_dated:
  "encode_cursor fr sc [WDate (utc t), WStr i] b = encode_cursor fr sc (map WStr [isoformat t, i]) b"
proof -
  have "json_dumps fr (WObj ((''v'', WInt 1) # (''scope'', WStr sc) # (''sort'', WArr [WDate (utc t), WStr i]) # fs))
      = json_dumps fr (WObj ((''v'', WInt 1) # (''scope'', WStr sc) # (''sort'', WArr (map WStr [isoformat t, i])) # fs))"
    if "fs = [] \<or> (\<exists>x. fs = [(''backend'', WStr x)])" for fs
    using that by (auto simp: json_dumps_def datetime_utc less_char_def simp del: datetime_text.simps)
  then show ?thesis by (cases b) (simp_all add: encode_cursor_def)
qed

lemma length_pad: "n < 10 ^ Suc k \<Longrightarrow> length (pad m n) \<le> m + Suc k"
  using length_show_nat [of n k] by (simp add: pad_def)

lemma day_number:
  assumes "in_range t"
  shows "nat (t - min_instant) div 86400000000 < 3652059"
proof (rule less_mult_imp_div_less)
  have "t - min_instant < 315537897600000000" using assms by (simp add: in_range_def min_instant_def max_instant_def)
  then show "nat (t - min_instant) < 3652059 * 86400000000" by simp
qed

lemma date_bounds:
  assumes "year_month_day n = (y, m, d)" and "n < 3652059"
  shows "y < 1000000 \<and> m < 1000000 \<and> d < 1000000"
proof -
  obtain A B C D N M where parts: "A = n div 146097" "B = n mod 146097 div 36524"
    "C = n mod 146097 mod 36524 div 1461" "D = n mod 146097 mod 36524 mod 1461 div 365"
    "N = n mod 146097 mod 36524 mod 1461 mod 365" "M = (N + 50) div 32" by blast
  have "A < 25" unfolding parts using assms(2) by (intro less_mult_imp_div_less) simp
  moreover have "B < 5" unfolding parts by (intro less_mult_imp_div_less) (simp add: less_le_trans [OF mod_less_divisor])
  moreover have "C < 25" unfolding parts by (intro less_mult_imp_div_less) (simp add: less_le_trans [OF mod_less_divisor])
  moreover have "D < 5" unfolding parts by (intro less_mult_imp_div_less) (simp add: less_le_trans [OF mod_less_divisor])
  moreover have N: "N < 365" unfolding parts by simp
  moreover have "M < 14" unfolding parts(6) using N by (intro less_mult_imp_div_less) simp
  moreover have "(if D = 4 \<or> B = 4 then (A * 400 + 1 + B * 100 + C * 4 + D - 1, 12, 31)
      else (let leap = (D = 3 \<and> (C \<noteq> 24 \<or> B = 3));
                before = (\<lambda>m. days_before_month m + (if 2 < m \<and> leap then 1 else 0));
                month = (if N < before M then M - 1 else M)
            in (A * 400 + 1 + B * 100 + C * 4 + D, month, N - before month + 1))) = (y, m, d)"
    using assms(1) unfolding year_month_day_def Let_def parts .
  ultimately show ?thesis by (auto simp: Let_def split: if_splits)
qed

text \<open>The fields of a printed instant are small numbers.\<close>

lemma printed_fields:
  assumes "in_range t"
  obtains y m d h mi s us where "wall_clock_text t = pad 4 y @ ''-'' @ pad 2 m @ ''-'' @ pad 2 d @ ''T'' @ pad 2 h
      @ '':'' @ pad 2 mi @ '':'' @ pad 2 s @ (if us = 0 then [] else ''.'' @ pad 6 us)"
    and "\<forall>k\<in>{y, m, d, h, mi, s, us}. k < 1000000"
proof -
  let ?u = "nat (t - min_instant)"
  obtain y m d where ymd: "year_month_day (?u div 86400000000) = (y, m, d)" by (rule prod_cases3)
  have b: "?u mod 86400000000 div 3600000000 < 24" by (intro less_mult_imp_div_less) simp
  have c: "?u mod 86400000000 div 60000000 mod 60 < 60" "?u mod 86400000000 div 1000000 mod 60 < 60"
    "?u mod 86400000000 mod 1000000 < 1000000" by (rule mod_less_divisor, simp)+
  show thesis
  proof (rule that)
    show "wall_clock_text t = pad 4 y @ ''-'' @ pad 2 m @ ''-'' @ pad 2 d @ ''T''
        @ pad 2 (?u mod 86400000000 div 3600000000) @ '':'' @ pad 2 (?u mod 86400000000 div 60000000 mod 60) @ '':''
        @ pad 2 (?u mod 86400000000 div 1000000 mod 60)
        @ (if ?u mod 86400000000 mod 1000000 = 0 then [] else ''.'' @ pad 6 (?u mod 86400000000 mod 1000000))"
      unfolding wall_clock_text_def Let_def ymd prod.case ..
    show "\<forall>k\<in>{y, m, d, ?u mod 86400000000 div 3600000000, ?u mod 86400000000 div 60000000 mod 60,
        ?u mod 86400000000 div 1000000 mod 60, ?u mod 86400000000 mod 1000000}. k < 1000000"
      using date_bounds [OF ymd day_number [OF assms]] less_trans [OF b] less_trans [OF c(1)] less_trans [OF c(2)] c(3)
      by (simp only: ball_simps)
  qed
qed

lemma length_isoformat:
  assumes "in_range t"
  shows "length (isoformat t) \<le> 80"
proof -
  obtain y m d h mi s us where w: "wall_clock_text t = pad 4 y @ ''-'' @ pad 2 m @ ''-'' @ pad 2 d @ ''T'' @ pad 2 h
      @ '':'' @ pad 2 mi @ '':'' @ pad 2 s @ (if us = 0 then [] else ''.'' @ pad 6 us)"
    and b: "\<forall>k\<in>{y, m, d, h, mi, s, us}. k < 1000000"
    by (rule printed_fields [OF assms])
  have "length (pad j k) \<le> j + 6" if "k \<in> {y, m, d, h, mi, s, us}" for j k
    using length_pad [of k 5 j] b that by auto
  note p = this [of y 4] this [of m 2] this [of d 2] this [of h 2] this [of mi 2] this [of s 2] this [of us 6]
  show ?thesis using p by (simp add: isoformat_def w)
qed

lemma spell_z_id: "CHR ''Z'' \<notin> set s \<Longrightarrow> spell_z s = s"
  by (induction s) (auto simp: spell_z_def)

lemma pad_digits: "CHR ''Z'' \<notin> set (pad k n)"
  using show_nat_digits [of "CHR ''Z''" n] by (auto simp: pad_def is_digit_def code_def)

lemma spell_isoformat: "spell_z (isoformat t) = isoformat t"
  by (rule spell_z_id) (auto simp: isoformat_def wall_clock_text_def Let_def pad_digits split: prod.splits if_splits)

text \<open>\<open>datetime.fromisoformat\<close> reads what \<open>isoformat\<close> prints of the instants in question.\<close>

definition instant_ok :: "platform \<Rightarrow> instant \<Rightarrow> bool" where
  "instant_ok pl t \<longleftrightarrow> in_range t \<and> pl_from_iso pl (isoformat t) = Some (utc t)"

lemma read_instant: "instant_ok pl t \<Longrightarrow> cursor_datetime pl (WStr (isoformat t)) = Inr t"
  by (simp add: cursor_datetime_def spell_isoformat instant_ok_def)

section \<open>A page in the order of an instant\<close>

definition dated_cursor ::
  "platform \<Rightarrow> string \<Rightarrow> string \<Rightarrow> nat \<Rightarrow> string option \<Rightarrow> (instant \<times> string) option \<Rightarrow> bool" where
  "dated_cursor pl sc field n c pos \<longleftrightarrow>
     (case c of
        None \<Rightarrow> pos = None
      | Some c' \<Rightarrow> \<exists>t i. pos = Some (t, i) \<and> instant_ok pl t \<and> validate_pagination (int (Suc n)) 0 c = Inr ()
          \<and> read_cursor sc c (check_dated_cursor pl field) = Inr (Some (isoformat t, i), Some ''postgresql''))"

lemma dated_cursor_issued:
  assumes "platform_ok pl" and "n < 1000" and "instant_ok pl t" and "length i \<le> 64" and "ident_match ref_extra i"
  shows "\<exists>c. encode_cursor (pl_float pl) (cursor_scope (pl_sha pl) nm fs) [WDate (utc t), WStr i] (Some ''postgresql'') = Inr c
    \<and> dated_cursor pl (cursor_scope (pl_sha pl) nm fs) field n (Some c) (Some (t, i))"
proof -
  have "length (isoformat t) \<le> 100" using length_isoformat assms(3) by (fastforce simp: instant_ok_def)
  from cursor_issued [OF assms(1) this assms(4,5), of nm fs] obtain c where
    c: "encode_cursor (pl_float pl) (cursor_scope (pl_sha pl) nm fs) (map WStr [isoformat t, i]) (Some ''postgresql'') = Inr c"
      "c \<noteq> []" "length c \<le> max_cursor_length"
      "decode_cursor_with_backend c (cursor_scope (pl_sha pl) nm fs) 2 = Inr (map WStr [isoformat t, i], Some ''postgresql'')"
    by blast
  with validate_next [OF assms(2) c(2,3)] read_instant [OF assms(3)] cursor_id_ok [OF assms(4,5)] assms(3)
  show ?thesis by (auto simp: encode_dated dated_cursor_def read_cursor_def check_dated_cursor_def)
qed

text \<open>\<open>key\<close> gives the sort key of an instant and an identifier, \<open>aft\<close> is the condition of the statement.\<close>

lemma dated_page:
  assumes "platform_ok pl" and "n < 1000"
    and "\<forall>r\<in>set rs. instant_ok pl (stamp r) \<and> length (ident r) \<le> 64 \<and> ident_match ref_extra (ident r)"
    and "\<And>r. order r = key (stamp r, ident r)" and "\<And>pos r. aft pos r = beyond (map_option key pos) (order r)"
    and "\<And>r. sort_values (model r) = [WDate (utc (stamp r)), WStr (ident r)]"
    and "sc = cursor_scope (pl_sha pl) nm fs" and "dated_cursor pl sc field n c pos" and "c = None \<longrightarrow> index_unusable env (rq None) to_item"
  shows "\<exists>p. rbind (validate_pagination (int (Suc n)) 0 c) (\<lambda>_.
      rbind (read_cursor sc c (check_dated_cursor pl field)) (\<lambda>(after, backend).
        search_or_database pl sc env backend (rq after) to_item sort_values
          (rbind (dated_position pl after) (\<lambda>pos. database_page pl sc (int (Suc n)) sort_values
            (map model (sql_select (\<lambda>r. w r \<and> aft pos r) order (int (Suc n)) 0 rs)))))) = Inr p
    \<and> pg_items p = map model (page_rows order w (Suc n) (map_option key pos) rs)
    \<and> (if length (page_rows order w (Suc n) (map_option key pos) rs) = Suc n
       then \<exists>c'. pg_next_cursor p = Some c' \<and> (\<exists>pos'. dated_cursor pl sc field n (Some c') pos'
              \<and> map_option key pos' = Some (order (last (page_rows order w (Suc n) (map_option key pos) rs))))
       else pg_next_cursor p = None)"
proof -
  let ?rs = "page_rows order w (Suc n) (map_option key pos) rs"
  let ?r = "last ?rs"
  obtain after backend where read: "validate_pagination (int (Suc n)) 0 c = Inr ()"
    "read_cursor sc c (check_dated_cursor pl field) = Inr (after, backend)"
    "dated_position pl after = Inr pos"
    "index_unusable env (rq after) to_item \<and> backend \<noteq> Some ''elasticsearch'' \<or> backend = Some ''postgresql''"
  proof (cases c)
    case None
    with assms(8,9) that [of None None] validate_first [OF assms(2)] show thesis
      by (simp add: dated_cursor_def read_cursor_def dated_position_def)
  next
    case (Some c')
    with assms(8) obtain t i where "pos = Some (t, i)" "instant_ok pl t" "validate_pagination (int (Suc n)) 0 c = Inr ()"
      "read_cursor sc c (check_dated_cursor pl field) = Inr (Some (isoformat t, i), Some ''postgresql'')"
      by (auto simp: dated_cursor_def)
    with that read_instant show thesis by (simp add: dated_position_def)
  qed
  have page: "rbind (validate_pagination (int (Suc n)) 0 c) (\<lambda>_.
      rbind (read_cursor sc c (check_dated_cursor pl field)) (\<lambda>(after, backend).
        search_or_database pl sc env backend (rq after) to_item sort_values
          (rbind (dated_position pl after) (\<lambda>pos. database_page pl sc (int (Suc n)) sort_values
            (map model (sql_select (\<lambda>r. w r \<and> aft pos r) order (int (Suc n)) 0 rs))))))
      = database_page pl sc (int (Suc n)) sort_values (map model ?rs)"
    by (simp add: read(1,2,3) pinned_page [OF read(4)] sql_select_page assms(5) page_rows_def del: of_nat_Suc)
  show ?thesis
  proof (cases "?rs = []")
    case True
    with page show ?thesis by (simp add: database_page_def)
  next
    case False
    note r = bspec [OF assms(3) page_row [OF False]]
    obtain c' where c': "encode_cursor (pl_float pl) sc (sort_values (model ?r)) (Some ''postgresql'') = Inr c'"
      "dated_cursor pl sc field n (Some c') (Some (stamp ?r, ident ?r))"
      using dated_cursor_issued [OF assms(1,2), of "stamp ?r" "ident ?r" nm fs field] r assms(6,7) by auto
    have k: "map_option key (Some (stamp ?r, ident ?r)) = Some (order ?r)" by (simp add: assms(4))
    obtain p where p: "database_page pl sc (int (Suc n)) sort_values (map model ?rs) = Inr p" "pg_items p = map model ?rs"
      "pg_next_cursor p = (if length ?rs = Suc n then Some c' else None)"
      using database_page_promise [of "map model ?rs" model ?rs pl sc sort_values c' n] c'(1) by blast
    show ?thesis unfolding page
    proof (intro exI [of _ p] conjI)
      show "if length ?rs = Suc n
        then \<exists>c'. pg_next_cursor p = Some c' \<and> (\<exists>pos'. dated_cursor pl sc field n (Some c') pos'
          \<and> map_option key pos' = Some (order ?r)) else pg_next_cursor p = None"
        using p(3) c'(2) k by metis
    qed (rule p)+
  qed
qed

section \<open>Patrons\<close>

definition patron_position :: "platform \<Rightarrow> patron_filters \<Rightarrow> nat \<Rightarrow> string option \<Rightarrow> (instant \<times> string) option \<Rightarrow> bool" where
  "patron_position pl f n c a \<longleftrightarrow> (\<exists>pos. dated_cursor pl (patron_scope pl f) ''patron id'' n c pos
     \<and> map_option (\<lambda>(t, i). (t, pl_collate pl i)) pos = a)"

definition patrons_ok :: "platform \<Rightarrow> nat \<Rightarrow> search_env \<times> db \<Rightarrow> bool" where
  "patrons_ok pl n s \<longleftrightarrow> platform_ok pl \<and> n < 1000 \<and> db_ok (snd s)
     \<and> (\<forall>r\<in>set (patrons (snd s)). instant_ok pl (pr_registered_at r))"

lemma patron_columns:
  assumes "db_ok d" and "r \<in> set (patrons d)"
  shows "length (pr_id r) \<le> 64" "ident_match ref_extra (pr_id r)"
proof -
  have r: "row_error patron_schema r = None" using assms by (simp add: db_ok_def table_ok_def)
  show "length (pr_id r) \<le> 64"
    by (rule row_condition [OF r, of "''id''"]) (simp add: patron_schema_def patron_types_def)
  have "sql_ident (pr_id r)"
    by (rule row_condition [OF r, of "''ck_patrons_id''"]) (simp add: patron_schema_def patron_checks_def)
  then show "ident_match ref_extra (pr_id r)" by (simp add: sql_ident_def)
qed

lemma find_patrons_page:
  assumes "patrons_ok pl n (env, d)" and "patron_position pl f n c a" and "c = None \<Longrightarrow> \<not> fresh env"
  shows "\<exists>p. find_patrons pl env f (int (Suc n)) 0 c (patrons d) = Inr p
    \<and> pg_items p = map patron_model_of_row (page_rows (patron_order pl) (patron_where f) (Suc n) a (patrons d))
    \<and> (if length (page_rows (patron_order pl) (patron_where f) (Suc n) a (patrons d)) = Suc n
       then \<exists>c'. pg_next_cursor p = Some c' \<and> patron_position pl f n (Some c')
              (Some (patron_order pl (last (page_rows (patron_order pl) (patron_where f) (Suc n) a (patrons d)))))
       else pg_next_cursor p = None)"
proof -
  from assms(1) have pl: "platform_ok pl" "n < 1000" "inj (pl_collate pl)" and d: "db_ok d"
    "\<forall>r\<in>set (patrons d). instant_ok pl (pr_registered_at r)"
    by (simp_all add: patrons_ok_def platform_ok_def)
  obtain pos where pos: "dated_cursor pl (patron_scope pl f) ''patron id'' n c pos"
    "map_option (\<lambda>(t, i). (t, pl_collate pl i)) pos = a" using assms(2) by (auto simp: patron_position_def)
  have aft: "patron_after pl pos r = beyond (map_option (\<lambda>(t, i). (t, pl_collate pl i)) pos) (patron_order pl r)" for pos r
    by (cases pos) (auto simp: patron_after_def beyond_def patron_order_def pair_less)
  have ids: "\<forall>r\<in>set (patrons d). instant_ok pl (pr_registered_at r) \<and> length (pr_id r) \<le> 64 \<and> ident_match ref_extra (pr_id r)"
    using d(2) patron_columns [OF d(1)] by blast
  have env: "c = None \<longrightarrow> index_unusable env rq (patron_from_mapping pl)" for rq using assms(3) by (auto simp: index_unusable_def)
  note page = dated_page [where rs = "patrons d" and order = "patron_order pl" and aft = "patron_after pl"
    and key = "\<lambda>(t, i). (t, pl_collate pl i)" and stamp = pr_registered_at and ident = pr_id
    and sort_values = patron_sort_values and model = patron_model_of_row and w = "patron_where f"
    and to_item = "patron_from_mapping pl" and env = env
    and rq = "\<lambda>after. \<lparr>sr_index = ''patrons'', sr_query = patron_es_query f, sr_size = int (Suc n), sr_from = 0,
      sr_sort = sort_clause [(''registered_at'', ''asc'', Some ''strict_date_time_nanos'')],
      sr_search_after = search_position after\<rparr>", OF pl(1,2) ids _ aft _ patron_scope_def pos(1) env]
  have sc: "patron_order pl r = (case (pr_registered_at r, pr_id r) of (t, i) \<Rightarrow> (t, pl_collate pl i))"
    "patron_sort_values (patron_model_of_row r) = [WDate (utc (pr_registered_at r)), WStr (pr_id r)]" for r
    by (simp_all add: patron_order_def patron_sort_values_def patron_model_of_row_def)
  show ?thesis unfolding find_patrons_def find_patrons_in_db_def pos(2) [symmetric] patron_position_def
    using page [OF sc] .
qed

interpretation patron_pages: keyset "patron_order pl" "patron_where f" patron_model_of_row "Suc n" "\<lambda>s. patrons (snd s)"
  "patrons_ok pl n" "\<lambda>s. \<not> fresh (fst s)" "\<lambda>c s. find_patrons pl (fst s) f (int (Suc n)) 0 c (patrons (snd s))" "patron_position pl f n"
proof unfold_locales
  fix s assume "patrons_ok pl n s"
  then have "distinct (map pr_id (patrons (snd s)))" "inj (pl_collate pl)"
    by (simp_all add: patrons_ok_def platform_ok_def patrons_key)
  from key_inj [OF this, of "pr_registered_at"]
  show "distinct (patrons (snd s)) \<and> inj_on (patron_order pl) (set (patrons (snd s)))"
    by (simp add: patron_order_def [abs_def])
next
  fix s c a assume "patrons_ok pl n s" "patron_position pl f n c a" "c = None \<Longrightarrow> \<not> fresh (fst s)"
  then show "\<exists>p. find_patrons pl (fst s) f (int (Suc n)) 0 c (patrons (snd s)) = Inr p
    \<and> pg_items p = map patron_model_of_row (page_rows (patron_order pl) (patron_where f) (Suc n) a (patrons (snd s)))
    \<and> (if length (page_rows (patron_order pl) (patron_where f) (Suc n) a (patrons (snd s))) = Suc n
       then \<exists>c'. pg_next_cursor p = Some c' \<and> patron_position pl f n (Some c')
              (Some (patron_order pl (last (page_rows (patron_order pl) (patron_where f) (Suc n) a (patrons (snd s))))))
       else pg_next_cursor p = None)"
    by (rule find_patrons_page [of pl n "fst s" "snd s" f c a, unfolded prod.collapse])
qed (simp_all add: patron_position_def dated_cursor_def)

section \<open>Loans\<close>

definition loan_position :: "platform \<Rightarrow> string \<Rightarrow> bool \<Rightarrow> nat \<Rightarrow> string option \<Rightarrow> (instant \<times> string) option \<Rightarrow> bool" where
  "loan_position pl patron only_active n c a \<longleftrightarrow> (\<exists>pos. dated_cursor pl (loan_scope pl patron only_active) ''loan id'' n c pos
     \<and> map_option (\<lambda>(t, i). (- t, pl_collate pl i)) pos = a)"

definition loans_ok :: "platform \<Rightarrow> nat \<Rightarrow> search_env \<times> db \<Rightarrow> bool" where
  "loans_ok pl n s \<longleftrightarrow> platform_ok pl \<and> n < 1000 \<and> db_ok (snd s)
     \<and> (\<forall>r\<in>set (loans (snd s)). instant_ok pl (lr_borrowed_at r))"

lemma loan_columns:
  assumes "db_ok d" and "r \<in> set (loans d)"
  shows "length (lr_id r) \<le> 64" "ident_match ref_extra (lr_id r)"
proof -
  have r: "row_error loan_schema r = None" using assms by (simp add: db_ok_def table_ok_def)
  show "length (lr_id r) \<le> 64"
    by (rule row_condition [OF r, of "''id''"]) (simp add: loan_schema_def loan_types_def)
  have "sql_ident (lr_id r)"
    by (rule row_condition [OF r, of "''ck_loans_id''"]) (simp add: loan_schema_def loan_checks_def)
  then show "ident_match ref_extra (lr_id r)" by (simp add: sql_ident_def)
qed

definition first_loan_request :: "string \<Rightarrow> bool \<Rightarrow> nat \<Rightarrow> search_request" where
  "first_loan_request patron only_active k = \<lparr>sr_index = ''loans'', sr_query = loan_es_query patron only_active,
     sr_size = int k, sr_from = 0, sr_sort = sort_clause [(''borrowed_at'', ''desc'', Some ''strict_date_time_nanos'')],
     sr_search_after = None\<rparr>"

lemma find_loans_page:
  assumes "loans_ok pl n (env, d)" and "loan_position pl patron only_active n c a" and "c = None \<Longrightarrow> index_unusable env (first_loan_request patron only_active (Suc n)) (loan_from_mapping pl)"
  shows "\<exists>p. find_loans_by_patron pl env patron only_active (int (Suc n)) 0 c (loans d) = Inr p
    \<and> pg_items p = map loan_model_of_row (page_rows (loan_order pl) (loan_where patron only_active) (Suc n) a (loans d))
    \<and> (if length (page_rows (loan_order pl) (loan_where patron only_active) (Suc n) a (loans d)) = Suc n
       then \<exists>c'. pg_next_cursor p = Some c' \<and> loan_position pl patron only_active n (Some c')
              (Some (loan_order pl (last (page_rows (loan_order pl) (loan_where patron only_active) (Suc n) a (loans d)))))
       else pg_next_cursor p = None)"
proof -
  from assms(1) have pl: "platform_ok pl" "n < 1000" "inj (pl_collate pl)" and d: "db_ok d"
    "\<forall>r\<in>set (loans d). instant_ok pl (lr_borrowed_at r)"
    by (simp_all add: loans_ok_def platform_ok_def)
  obtain pos where pos: "dated_cursor pl (loan_scope pl patron only_active) ''loan id'' n c pos"
    "map_option (\<lambda>(t, i). (- t, pl_collate pl i)) pos = a" using assms(2) by (auto simp: loan_position_def)
  have aft: "loan_after pl pos r = beyond (map_option (\<lambda>(t, i). (- t, pl_collate pl i)) pos) (loan_order pl r)" for pos r
    by (cases pos) (auto simp: loan_after_def beyond_def loan_order_def pair_less)
  have ids: "\<forall>r\<in>set (loans d). instant_ok pl (lr_borrowed_at r) \<and> length (lr_id r) \<le> 64 \<and> ident_match ref_extra (lr_id r)"
    using d(2) loan_columns [OF d(1)] by blast
  let ?rq = "\<lambda>after. \<lparr>sr_index = ''loans'', sr_query = loan_es_query patron only_active, sr_size = int (Suc n), sr_from = 0,
      sr_sort = sort_clause [(''borrowed_at'', ''desc'', Some ''strict_date_time_nanos'')],
      sr_search_after = search_position after\<rparr>"
  have env: "c = None \<longrightarrow> index_unusable env (?rq None) (loan_from_mapping pl)"
    using assms(3) by (simp add: first_loan_request_def search_position_def)
  note page = dated_page [where rs = "loans d" and order = "loan_order pl" and aft = "loan_after pl"
    and key = "\<lambda>(t, i). (- t, pl_collate pl i)" and stamp = lr_borrowed_at and ident = lr_id
    and sort_values = loan_sort_values and model = loan_model_of_row and w = "loan_where patron only_active"
    and to_item = "loan_from_mapping pl" and env = env
    and rq = ?rq, OF pl(1,2) ids _ aft _ loan_scope_def pos(1) env]
  have sc: "loan_order pl r = (case (lr_borrowed_at r, lr_id r) of (t, i) \<Rightarrow> (- t, pl_collate pl i))"
    "loan_sort_values (loan_model_of_row r) = [WDate (utc (lr_borrowed_at r)), WStr (lr_id r)]" for r
    by (simp_all add: loan_order_def loan_sort_values_def loan_model_of_row_def)
  show ?thesis unfolding find_loans_by_patron_def find_loans_in_db_def pos(2) [symmetric] loan_position_def
    using page [OF sc] .
qed

interpretation loan_pages: keyset "loan_order pl" "loan_where patron only_active" loan_model_of_row "Suc n" "\<lambda>s. loans (snd s)"
  "loans_ok pl n" "\<lambda>s. index_unusable (fst s) (first_loan_request patron only_active (Suc n)) (loan_from_mapping pl)" "\<lambda>c s. find_loans_by_patron pl (fst s) patron only_active (int (Suc n)) 0 c (loans (snd s))" "loan_position pl patron only_active n"
proof unfold_locales
  fix s assume "loans_ok pl n s"
  then have "distinct (map lr_id (loans (snd s)))" "inj (pl_collate pl)"
    by (simp_all add: loans_ok_def platform_ok_def loans_key)
  from key_inj [OF this, of "\<lambda>r. - lr_borrowed_at r"]
  show "distinct (loans (snd s)) \<and> inj_on (loan_order pl) (set (loans (snd s)))"
    by (simp add: loan_order_def [abs_def])
next
  fix s c a assume "loans_ok pl n s" "loan_position pl patron only_active n c a" "c = None \<Longrightarrow> index_unusable (fst s) (first_loan_request patron only_active (Suc n)) (loan_from_mapping pl)"
  then show "\<exists>p. find_loans_by_patron pl (fst s) patron only_active (int (Suc n)) 0 c (loans (snd s)) = Inr p
    \<and> pg_items p = map loan_model_of_row (page_rows (loan_order pl) (loan_where patron only_active) (Suc n) a (loans (snd s)))
    \<and> (if length (page_rows (loan_order pl) (loan_where patron only_active) (Suc n) a (loans (snd s))) = Suc n
       then \<exists>c'. pg_next_cursor p = Some c' \<and> loan_position pl patron only_active n (Some c')
              (Some (loan_order pl (last (page_rows (loan_order pl) (loan_where patron only_active) (Suc n) a (loans (snd s))))))
       else pg_next_cursor p = None)"
    by (rule find_loans_page [of pl n "fst s" "snd s" patron only_active c a, unfolded prod.collapse])
qed (simp_all add: loan_position_def dated_cursor_def)

end
