(* ===== verification/PagingTheorems.thy ===== *)
theory PagingTheorems
  imports DatedPaging
begin

text \<open>
  What the paged queries promise to their clients, and the literal meaning of the search
  texts; a crafted cursor that escapes the error contract.
\<close>

section \<open>Search texts are taken literally\<close>

abbreviation special :: "char \<Rightarrow> bool" where
  "special c \<equiv> c = CHR 0x5C \<or> c = CHR ''%'' \<or> c = CHR ''_''"

definition escaped :: "string \<Rightarrow> string" where
  "escaped v = concat (map (\<lambda>c. if special c then [CHR 0x5C, c] else [c]) v)"

lemma contains_escaped: "contains_pattern v = CHR ''%'' # escaped v @ ''%''"
  by (simp add: contains_pattern_def escaped_def)

lemma like_any: "like ''%'' s"
  by (induction s) (simp_all add: like.simps)

lemma like_prefix: "like (escaped v @ ''%'') s \<longleftrightarrow> prefix v s"
proof (induction v arbitrary: s)
  case Nil
  then show ?case by (simp add: escaped_def like_any)
next
  case (Cons c v)
  then show ?case
    by (cases s) (auto simp: escaped_def like.simps(2) [of "CHR 0x5C"] like.simps(2) [of c])
qed

lemma like_percent: "like (CHR ''%'' # p) s \<longleftrightarrow> (\<exists>t. suffix t s \<and> like p t)"
proof (induction s)
  case Nil
  then show ?case by (simp add: like.simps(2) [of "CHR ''%''" p])
next
  case (Cons c s)
  then show ?case by (subst like.simps) (auto simp: suffix_Cons)
qed

lemma like_contains: "like (contains_pattern v) s \<longleftrightarrow> sublist v s"
  by (auto simp: contains_escaped like_percent like_prefix sublist_def prefix_def suffix_def)

lemma lower_special: "special (lower_char c) \<longleftrightarrow> special c" "special c \<Longrightarrow> lower_char c = c"
proof -
  have s: "special d \<longleftrightarrow> code d = 92 \<or> code d = 37 \<or> code d = 95" for d
    by (simp add: code_inject [symmetric]) (simp add: code_def)
  show "special (lower_char c) \<longleftrightarrow> special c" unfolding s by (auto simp: code_lower_char is_upper_def)
  show "lower_char c = c" if "special c"
    using that unfolding s by (simp add: code_inject [symmetric] code_lower_char is_upper_def) auto
qed

lemma lower_contains: "py_lower (contains_pattern v) = contains_pattern (py_lower v)"
proof -
  have "map lower_char (escaped v) = escaped (map lower_char v)"
    by (induction v) (auto simp: escaped_def lower_special)
  moreover have "lower_char CHR ''%'' = CHR ''%''" by (rule lower_special(2)) simp
  ultimately show ?thesis by (simp add: contains_escaped py_lower_def)
qed

lemma search_is_literal:
  assumes "pl_lower pl = py_lower"
  shows "ilike pl (contains_pattern v) s \<longleftrightarrow> sublist (py_lower v) (py_lower s)"
  by (simp add: ilike_def assms lower_contains like_contains)

section \<open>Following the cursors\<close>

definition find_book_pages ::
  "platform \<Rightarrow> book_filters \<Rightarrow> nat \<Rightarrow> string option \<Rightarrow> search_env \<times> db \<Rightarrow> query_exn + book_read_model query_page" where
  "find_book_pages pl f k c s = find_books pl (fst s) f (int k) 0 c (books (snd s))"

definition find_loan_pages ::
  "platform \<Rightarrow> string \<Rightarrow> bool \<Rightarrow> nat \<Rightarrow> string option \<Rightarrow> search_env \<times> db \<Rightarrow> query_exn + loan_read_model query_page" where
  "find_loan_pages pl patron only_active k c s =
     find_loans_by_patron pl (fst s) patron only_active (int k) 0 c (loans (snd s))"

text \<open>
  C14: A listing of books that PostgreSQL serves ends and is complete. When the first page falls back
  to the database (the index is disabled or lagging, the search fails or its circuit is open, or it
  holds an invalid document), and the catalog does not change, a client that follows the cursors gets
  every matching book exactly once, in the order of title and identifier, and is told the end: as soon
  as the requests are more than the matching books divided by the page size. The cursors are pinned to
  PostgreSQL, and each is accepted when it comes back. Nothing is said of a listing that Elasticsearch
  serves. The lower case of the database is taken to agree with that of the program on the stored
  titles, and titles have characters up to U+00FF only: the JSON text of such a title has at most 6
  characters for each of its 100, so that the cursor stays below 1024 characters. A character beyond
  U+FFFF takes 12, and the cursor after a long title of such characters is refused, which is outside
  of the model.
\<close>

theorem book_pages_list_everything:
  assumes "platform_ok pl" and "db_ok d" and "0 < k" and "k \<le> 1000" 
    and "index_unusable env (first_book_request f k) (book_of_hit pl)"
    and "\<forall>r\<in>set (books d). pl_lower pl (br_title r) = py_lower (br_title r)"
    and "length (filter (book_where pl f) (books d)) < requests * k"
  shows "follow (find_book_pages pl f k) None (replicate requests (env, d))
    = Inr (map book_model_of_row (sort_key (book_order pl) (filter (book_where pl f) (books d))), True)"
proof -
  obtain n where n: "k = Suc n" "n < 1000" using assms(3,4) by (cases k) auto
  have ok: "books_ok pl n (env, d)" using assms n by (simp add: books_ok_def)
  have "book_position pl f n None None" by (simp add: book_position_def)
  from book_pages.follow_constant [OF ok this, of requests] assms(5,7) n(1) show ?thesis
    by (simp add: beyond_def find_book_pages_def [abs_def])
qed

text \<open>
  C13: A listing of loans that PostgreSQL serves misses nothing while they change. When the first page
  falls back to the database (the index is disabled or lagging, the search fails or its circuit is
  open, or it holds an invalid document), a client follows the cursors of a patron's loans, the
  database and the index being in another state at each request: the cursors are pinned to PostgreSQL
  and none of them is refused, no loan is listed twice, every loan listed was stored and matching at
  one of the requests, and when the end is reached every loan that was there all the time is listed.
  (A listing whose first page Elasticsearch serves is pinned to Elasticsearch, and its cursors are
  refused while the index lags; nothing is said of it.)
\<close>

theorem loan_pages_miss_nothing:
  assumes "platform_ok pl" and "0 < k" and "k \<le> 1000"
    and "\<forall>s\<in>set ss. db_ok (snd s) \<and> (\<forall>r\<in>set (loans (snd s)). instant_ok pl (lr_borrowed_at r))"
    and "ss = [] \<or> index_unusable (fst (hd ss)) (first_loan_request patron only_active k) (loan_from_mapping pl)"
  shows "\<exists>rs complete. follow (find_loan_pages pl patron only_active k) None ss = Inr (map loan_model_of_row rs, complete)
    \<and> sorted_wrt (<) (map (loan_order pl) rs)
    \<and> (\<forall>r\<in>set rs. loan_where patron only_active r \<and> (\<exists>s\<in>set ss. r \<in> set (loans (snd s))))
    \<and> (complete \<longrightarrow> (\<forall>i t. (\<forall>s\<in>set ss. \<exists>r\<in>set (loans (snd s)). lr_id r = i \<and> lr_borrowed_at r = t
         \<and> loan_where patron only_active r) \<longrightarrow> (\<exists>r\<in>set rs. lr_id r = i)))"
proof -
  obtain n where n: "k = Suc n" "n < 1000" using assms(2,3) by (cases k) auto
  have ok: "\<forall>s\<in>set ss. loans_ok pl n s" using assms(1,4) n by (simp add: loans_ok_def)
  have "loan_position pl patron only_active n None None" by (auto simp: loan_position_def dated_cursor_def)
  from loan_pages.follow_changing [OF ok this] assms(5) obtain rs complete where
    w: "follow (find_loan_pages pl patron only_active k) None ss = Inr (map loan_model_of_row rs, complete)"
      "sorted_wrt (<) (map (loan_order pl) rs)"
      "\<forall>r\<in>set rs. loan_where patron only_active r \<and> (\<exists>s\<in>set ss. r \<in> set (loans (snd s)))"
      "complete \<longrightarrow> (\<forall>k. (\<forall>s\<in>set ss. k \<in> loan_order pl ` {r \<in> set (loans (snd s)). loan_where patron only_active r})
         \<longrightarrow> k \<in> loan_order pl ` set rs)"
    by (auto simp: find_loan_pages_def [abs_def] n(1) beyond_def)
  have "\<exists>r\<in>set rs. lr_id r = i" if "complete"
    "\<forall>s\<in>set ss. \<exists>r\<in>set (loans (snd s)). lr_id r = i \<and> lr_borrowed_at r = t \<and> loan_where patron only_active r" for i t
  proof -
    have "\<forall>s\<in>set ss. (- t, pl_collate pl i) \<in> loan_order pl ` {r \<in> set (loans (snd s)). loan_where patron only_active r}"
      using that(2) by (fastforce simp: loan_order_def)
    with w(4) that(1) obtain r where "r \<in> set rs" "loan_order pl r = (- t, pl_collate pl i)" by fastforce
    with assms(1) show ?thesis by (auto simp: loan_order_def platform_ok_def dest: injD)
  qed
  with w(1,2,3) show ?thesis by blast
qed

definition sample_platform :: platform where
  "sample_platform = \<lparr>pl_sha = (\<lambda>s. replicate 64 CHR ''0''), pl_float = (\<lambda>r. []), pl_repr = (\<lambda>w. []),
     pl_from_iso = (\<lambda>s. Some (utc (lr_borrowed_at (loan_from_entity sample_loan)))), pl_collate = (\<lambda>s. s),
     pl_lower = py_lower\<rparr>"

definition stale_index :: search_env where
  "stale_index = \<lparr>fresh = False, search = (\<lambda>r. Inl CircuitBreakerOpenException),
     count_docs = (\<lambda>i q. Inl CircuitBreakerOpenException)\<rparr>"

lemma sample_platform_ok: "platform_ok sample_platform"
  by (simp add: platform_ok_def sample_platform_def inj_on_def is_sha256_def list_all_iff is_digit_def code_def)

definition any_book :: book_filters where
  "any_book = \<lparr>bf_only_available = False, bf_only_borrowed = False, bf_author_contains = None, bf_title_contains = None\<rparr>"

theorem book_pages_list_everything_witness:
  "follow (find_book_pages sample_platform any_book 1) None (replicate 2 (stale_index, sample_db))
   = Inr (map book_model_of_row (sort_key (book_order sample_platform)
       (filter (book_where sample_platform any_book) (books sample_db))), True)"
  by (rule book_pages_list_everything [OF sample_platform_ok sample_db_ok])
    (simp_all add: stale_index_def sample_platform_def sample_db_def index_unusable_def)

theorem loan_pages_miss_nothing_witness:
  "\<exists>rs complete. follow (find_loan_pages sample_platform ''patron-1'' True 1) None
       (replicate 2 (stale_index, sample_db\<lparr>loans := [loan_from_entity sample_loan]\<rparr>)) = Inr (map loan_model_of_row rs, complete)"
proof -
  have "instant_ok sample_platform (lr_borrowed_at (loan_from_entity sample_loan))"
    by (simp add: instant_ok_def sample_platform_def loan_from_entity_def sample_loan_def)
  with loan_pages_miss_nothing [OF sample_platform_ok, of 1
      "replicate 2 (stale_index, sample_db\<lparr>loans := [loan_from_entity sample_loan]\<rparr>)" "''patron-1''" True] sample_loan_db_ok
  show ?thesis by (fastforce simp: stale_index_def index_unusable_def)
qed

end
