(* ===== verification/Async.thy ===== *)
theory Async
  imports Prelude
begin

text \<open>
  Coroutines. An \<open>async\<close> function is a value of type \<open>io\<close>: it has returned, or it waits for the
  reply to a request and goes on with the reply. Functions are composed with \<open>io_bind\<close>
  (\<open>await\<close>), so the definitions have the order of the source.

  Coroutines run in a system: a world that answers requests, and any number of tasks, each of
  which may be resumed whenever the world has a reply to its request. The locale \<open>async_system\<close>
  is the interface of the correctness proofs: a task carries knowledge that no step of anybody
  else can falsify, a request is allowed by what the task knows, and the reply adds to it.
\<close>

section \<open>Coroutines\<close>

datatype ('o, 'p, 'a) io = Ret 'a | Await 'o "'p \<Rightarrow> ('o, 'p, 'a) io"

primrec io_bind :: "('o, 'p, 'a) io \<Rightarrow> ('a \<Rightarrow> ('o, 'p, 'b) io) \<Rightarrow> ('o, 'p, 'b) io" where
  "io_bind (Ret x) f = f x"
| "io_bind (Await q k) f = Await q (\<lambda>r. io_bind (k r) f)"

text \<open>\<open>try: body finally: cleanup\<close>, where the body's outcome may be an exception.\<close>

definition io_finally :: "('o, 'p, 'a) io \<Rightarrow> ('o, 'p, unit) io \<Rightarrow> ('o, 'p, 'a) io" where
  "io_finally body cleanup = io_bind body (\<lambda>x. io_bind cleanup (\<lambda>_. Ret x))"

text \<open>The rest of a coroutine after some replies.\<close>

fun resume :: "('o, 'p, 'a) io \<Rightarrow> ('o \<times> 'p) list \<Rightarrow> ('o, 'p, 'a) io option" where
  "resume p [] = Some p"
| "resume (Await q k) ((q', r) # rs) = (if q = q' then resume (k r) rs else None)"
| "resume (Ret x) (_ # rs) = None"

lemma io_bind_assoc: "io_bind (io_bind p f) g = io_bind p (\<lambda>x. io_bind (f x) g)"
  by (induction p) auto

section \<open>Systems\<close>

type_synonym ('w, 'o, 'p, 'a) system = "'w \<times> ('a \<times> ('o, 'p, 'a) io) list"

text \<open>
  A step: the environment changes the world, a task is started, or the reply to a task's request
  arrives. A task has a tag besides its coroutine.
\<close>

inductive system_step ::
  "('w \<Rightarrow> 'w \<Rightarrow> bool) \<Rightarrow> ('w \<Rightarrow> 't \<Rightarrow> ('o, 'p, 'a) io \<Rightarrow> bool) \<Rightarrow> ('w \<Rightarrow> 't \<Rightarrow> 'o \<Rightarrow> 'w \<Rightarrow> 'p \<Rightarrow> bool)
   \<Rightarrow> 'w \<times> ('t \<times> ('o, 'p, 'a) io) list \<Rightarrow> 'w \<times> ('t \<times> ('o, 'p, 'a) io) list \<Rightarrow> bool"
  for env start exec where
  environment: "env w w' \<Longrightarrow> system_step env start exec (w, ts) (w', ts)"
| started: "start w t p \<Longrightarrow> system_step env start exec (w, ts) (w, ts @ [(t, p)])"
| resumed: "\<lbrakk>i < length ts; ts ! i = (t, Await q k); exec w t q w' r\<rbrakk>
    \<Longrightarrow> system_step env start exec (w, ts) (w', ts[i := (t, k r)])"

inductive reachable ::
  "('w \<Rightarrow> 'w \<Rightarrow> bool) \<Rightarrow> ('w \<Rightarrow> 't \<Rightarrow> ('o, 'p, 'a) io \<Rightarrow> bool) \<Rightarrow> ('w \<Rightarrow> 't \<Rightarrow> 'o \<Rightarrow> 'w \<Rightarrow> 'p \<Rightarrow> bool)
   \<Rightarrow> 'w \<Rightarrow> 'w \<times> ('t \<times> ('o, 'p, 'a) io) list \<Rightarrow> bool"
  for env start exec w0 where
  initial: "reachable env start exec w0 (w0, [])"
| step: "\<lbrakk>reachable env start exec w0 s; system_step env start exec s s'\<rbrakk> \<Longrightarrow> reachable env start exec w0 s'"

section \<open>Knowledge\<close>

text \<open>
  The weakest precondition of a coroutine in terms of what its task knows: every request is
  allowed, and whatever plausible reply comes, the rest is correct.
\<close>

primrec wp ::
  "('k \<Rightarrow> 'o \<Rightarrow> bool) \<Rightarrow> ('k \<Rightarrow> 'o \<Rightarrow> 'p \<Rightarrow> bool) \<Rightarrow> ('k \<Rightarrow> 'o \<Rightarrow> 'p \<Rightarrow> 'k) \<Rightarrow> ('o, 'p, 'a) io
   \<Rightarrow> ('k \<Rightarrow> 'a \<Rightarrow> bool) \<Rightarrow> 'k \<Rightarrow> bool" where
  "wp allowed possible learn (Ret x) Q = (\<lambda>k. Q k x)"
| "wp allowed possible learn (Await q c) Q = (\<lambda>k. allowed k q
     \<and> (\<forall>r. possible k q r \<longrightarrow> wp allowed possible learn (c r) Q (learn k q r)))"

lemma wp_bind:
  "wp allowed possible learn (io_bind p f) Q k
   = wp allowed possible learn p (\<lambda>k' x. wp allowed possible learn (f x) Q k') k"
  by (induction p arbitrary: k) auto

lemma wp_mono:
  assumes "wp allowed possible learn p Q k" "\<And>k x. Q k x \<Longrightarrow> R k x"
  shows "wp allowed possible learn p R k"
  using assms(1) by (induction p arbitrary: k) (auto intro: assms(2))

locale async_system =
  fixes env :: "'w \<Rightarrow> 'w \<Rightarrow> bool"
    and start :: "'w \<Rightarrow> 't \<Rightarrow> ('o, 'p, 'a) io \<Rightarrow> bool"
    and exec :: "'w \<Rightarrow> 't \<Rightarrow> 'o \<Rightarrow> 'w \<Rightarrow> 'p \<Rightarrow> bool"
    and inv :: "'w \<Rightarrow> bool"
    and holds :: "'w \<Rightarrow> 't \<Rightarrow> 'k \<Rightarrow> bool"
    and allowed :: "'t \<Rightarrow> 'k \<Rightarrow> 'o \<Rightarrow> bool"
    and possible :: "'t \<Rightarrow> 'k \<Rightarrow> 'o \<Rightarrow> 'p \<Rightarrow> bool"
    and learn :: "'t \<Rightarrow> 'k \<Rightarrow> 'o \<Rightarrow> 'p \<Rightarrow> 'k"
    and post :: "'t \<Rightarrow> 'k \<Rightarrow> 'a \<Rightarrow> bool"
  assumes env_inv: "\<lbrakk>inv w; env w w'\<rbrakk> \<Longrightarrow> inv w'"
    and env_holds: "\<lbrakk>inv w; env w w'; holds w t k\<rbrakk> \<Longrightarrow> holds w' t k"
    and start_correct: "\<lbrakk>inv w; start w t p\<rbrakk>
      \<Longrightarrow> \<exists>k. holds w t k \<and> wp (allowed t) (possible t) (learn t) p (post t) k"
    and exec_inv: "\<lbrakk>inv w; holds w t k; allowed t k q; exec w t q w' r\<rbrakk> \<Longrightarrow> inv w'"
    and exec_holds: "\<lbrakk>inv w; holds w t k; allowed t k q; exec w t q w' r; holds w t' k'\<rbrakk> \<Longrightarrow> holds w' t' k'"
    and exec_learns: "\<lbrakk>inv w; holds w t k; allowed t k q; exec w t q w' r\<rbrakk>
      \<Longrightarrow> possible t k q r \<and> holds w' t (learn t k q r)"
begin

definition correct :: "'w \<Rightarrow> 't \<times> ('o, 'p, 'a) io \<Rightarrow> bool" where
  "correct w = (\<lambda>(t, p). \<exists>k. holds w t k \<and> wp (allowed t) (possible t) (learn t) p (post t) k)"

lemma step_correct:
  assumes "system_step env start exec (w, ts) (w', ts')" "inv w" "\<forall>x\<in>set ts. correct w x"
  shows "inv w' \<and> (\<forall>x\<in>set ts'. correct w' x)"
  using assms(1)
proof (cases rule: system_step.cases)
  case environment
  have "correct w' x" if "correct w x" for x
    using that env_holds [OF assms(2), of w'] environment by (cases x) (auto simp: correct_def)
  with environment assms(2,3) env_inv show ?thesis by auto
next
  case (started t p)
  with start_correct [OF assms(2)] assms(2,3) show ?thesis by (auto simp: correct_def)
next
  case (resumed i t q c r)
  then have "correct w (t, Await q c)" using assms(3) nth_mem by metis
  then obtain k where k: "holds w t k" "allowed t k q"
    "\<And>r. possible t k q r \<Longrightarrow> wp (allowed t) (possible t) (learn t) (c r) (post t) (learn t k q r)"
    by (auto simp: correct_def)
  have x: "exec w t q w' r" using resumed by simp
  note e = assms(2) k(1,2) x
  have "correct w' (t, c r)" using exec_learns [OF e] k(3) by (auto simp: correct_def)
  moreover have "correct w' x" if "correct w x" for x
    using that exec_holds [OF e] by (fastforce simp: correct_def)
  ultimately show ?thesis using resumed assms(3) exec_inv [OF e] by (auto dest!: set_update_subset_insert [THEN subsetD])
qed

theorem reachable_correct:
  assumes "reachable env start exec w0 s" "inv w0"
  shows "inv (fst s) \<and> (\<forall>x\<in>set (snd s). correct (fst s) x)"
  using assms(1)
proof induction
  case initial
  with assms(2) show ?case by simp
next
  case (step s s')
  then show ?case using step_correct [of "fst s" "snd s" "fst s'" "snd s'"] by simp
qed

lemma returned:
  assumes "reachable env start exec w0 (w, ts)" "inv w0" "(t, Ret x) \<in> set ts"
  shows "\<exists>k. holds w t k \<and> post t k x"
  using reachable_correct [OF assms(1,2)] assms(3) by (fastforce simp: correct_def)

end

end
