(* ===== verification/RedisClient.thy ===== *)
theory RedisClient
  imports Async ReadModels
begin

text \<open>
  The Redis client (\<open>src/infrastructure/external/redis_client.py\<close>): every method as a coroutine
  whose requests are Redis commands. The server is not part of the program: it is the parameter
  of \<open>Cache\<close>, and here a command is only a request with a reply, \<open>Failed\<close> being a \<open>RedisError\<close>.

  A Python value is a \<open>wire\<close>, \<open>None\<close> being \<open>WNull\<close>. The drivers' connection is set up lazily and
  without I/O, so a client is connected if caching is enabled. Random numbers are requests too,
  and the arithmetic of lifetimes is on rationals instead of floats.
\<close>

section \<open>Requests\<close>

datatype redis_command =
    GET string
  | SETEX string int string
  | SET_NX string string int
  | INCR string
  | DEL string
  | UNLINK "string list"
  | SCAN string
  | RELEASE string string
  | PING

text \<open>\<open>RELEASE key token\<close> is the script that deletes the key if it holds the token.\<close>

datatype cache_op =
    Redis redis_command
  | Random rat
  | Token
  | Clock
  | Sleep rat
  | Source string
  | Operation
  | IsUnsafe string
  | MarkUnsafe string
  | ClearUnsafe string
  | StartRecovery string
  | EndRecovery string
  | LockFlight string
  | UnlockFlight string
  | LockRecovery string
  | UnlockRecovery string

datatype reply =
    Failed
  | Bulk "string option"
  | Number int
  | Names "string list"
  | Granted bool
  | Sample rat
  | Fresh string
  | Instant rat
  | Loaded "query_exn + wire"
  | Committed "exn + wire" nat
  | Flag bool
  | Ready

type_synonym 'a task = "(cache_op, reply, 'a) io"

section \<open>Values\<close>

definition datetime_type_key :: string where "datetime_type_key = ''__clean_architecture_type__''"

text \<open>\<open>_json_default\<close> at every datetime of a value, and \<open>_json_object_hook\<close> at every object.\<close>

fun json_default :: "wire \<Rightarrow> wire" where
  "json_default (WDate d) = WObj [(datetime_type_key, WStr ''datetime''), (''value'', WStr (datetime_text d))]"
| "json_default (WArr ws) = WArr (map json_default ws)"
| "json_default (WObj fs) = WObj (map (\<lambda>(k, w). (k, json_default w)) fs)"
| "json_default w = w"

definition object_hook :: "platform \<Rightarrow> (string \<times> wire) list \<Rightarrow> wire" where
  "object_hook pl fs =
     (if dget fs datetime_type_key = WStr ''datetime'' \<and> set (map fst fs) = {datetime_type_key, ''value''}
      then case pl_from_iso pl (spell_z (py_str pl (dget fs ''value''))) of Some d \<Rightarrow> WDate d | None \<Rightarrow> WObj fs
      else WObj fs)"

fun json_object_hook :: "platform \<Rightarrow> wire \<Rightarrow> wire" where
  "json_object_hook pl (WArr ws) = WArr (map (json_object_hook pl) ws)"
| "json_object_hook pl (WObj fs) = object_hook pl (map (\<lambda>(k, w). (k, json_object_hook pl w)) fs)"
| "json_object_hook pl w = w"

definition serialized :: "platform \<Rightarrow> wire \<Rightarrow> string" where
  "serialized pl w = json_text '' '' (pl_float pl) (json_default w)"

definition deserialized :: "platform \<Rightarrow> string \<Rightarrow> wire option" where
  "deserialized pl s = map_option (json_object_hook pl) (json_loads s)"

text \<open>\<open>int\<close> of a text: blanks around it, a sign, single underscores between digits.\<close>

fun underscored :: "string \<Rightarrow> bool" where
  "underscored [] = False"
| "underscored [c] = is_digit c"
| "underscored (c # d # s) = (is_digit c \<and> (if d = CHR ''_'' then underscored s else underscored (d # s)))"

definition py_int10 :: "string \<Rightarrow> int option" where
  "py_int10 s =
     (let t = py_strip s;
          signed = (t \<noteq> [] \<and> (hd t = CHR ''-'' \<or> hd t = CHR ''+''));
          u = (if signed then tl t else t);
          n = int (digits_value 0 (filter is_digit u))
      in if underscored u then Some (if signed \<and> hd t = CHR ''-'' then - n else n) else None)"

text \<open>\<open>round\<close>: to the nearest integer, and to the even one of two.\<close>

definition py_round :: "rat \<Rightarrow> int" where
  "py_round r =
     (let f = \<lfloor>r\<rfloor>; d = r - of_int f
      in if d < 1 / 2 \<or> d = 1 / 2 \<and> even f then f else f + 1)"

section \<open>The client\<close>

record redis_client =
  default_ttl :: int
  enabled :: bool
  jitter_ratio :: rat

definition redis_client :: "int \<Rightarrow> bool \<Rightarrow> rat \<Rightarrow> redis_client" where
  "redis_client ttl en ratio = \<lparr>default_ttl = ttl, enabled = en, jitter_ratio = min (max ratio 0) (1 / 2)\<rparr>"

definition redis_get :: "platform \<Rightarrow> redis_client \<Rightarrow> string \<Rightarrow> wire task" where
  "redis_get pl cl key =
     (if \<not> enabled cl then Ret WNull
      else Await (Redis (GET key)) (\<lambda>r. case r of
          Bulk (Some s) \<Rightarrow> Ret (if s = [] then WNull else case deserialized pl s of Some w \<Rightarrow> w | None \<Rightarrow> WNull)
        | _ \<Rightarrow> Ret WNull))"

text \<open>A lifetime below one second raises \<open>ValueError\<close>, which \<open>set\<close> does not catch.\<close>

definition effective_ttl :: "redis_client \<Rightarrow> int \<Rightarrow> (query_exn + int) task" where
  "effective_ttl cl ttl =
     (if ttl < 1 then Ret (Inl (QValueError ''cache TTL must be positive''))
      else Await (Random (of_int ttl * jitter_ratio cl)) (\<lambda>r. case r of
          Sample x \<Rightarrow> Ret (Inr (max 1 (py_round (of_int ttl + x))))
        | _ \<Rightarrow> Ret (Inr (max 1 ttl))))"

definition redis_set :: "platform \<Rightarrow> redis_client \<Rightarrow> string \<Rightarrow> wire \<Rightarrow> int option \<Rightarrow> (query_exn + bool) task" where
  "redis_set pl cl key v ttl =
     (if \<not> enabled cl then Ret (Inr False)
      else io_bind (effective_ttl cl (case ttl of None \<Rightarrow> default_ttl cl | Some t \<Rightarrow> t)) (\<lambda>t. case t of
          Inl e \<Rightarrow> Ret (Inl e)
        | Inr seconds \<Rightarrow> Await (Redis (SETEX key seconds (serialized pl v)))
            (\<lambda>r. Ret (Inr (r \<noteq> Failed)))))"

definition redis_delete :: "redis_client \<Rightarrow> string \<Rightarrow> bool task" where
  "redis_delete cl key =
     (if \<not> enabled cl then Ret False
      else Await (Redis (DEL key)) (\<lambda>r. Ret (r \<noteq> Failed)))"

text \<open>The keys are deleted in batches of 500; the first failure ends the deletion with 0.\<close>

fun unlink_batches :: "nat \<Rightarrow> string list \<Rightarrow> int \<Rightarrow> int task" where
  "unlink_batches n [] deleted = Ret deleted"
| "unlink_batches 0 (key # names) deleted = Ret deleted"
| "unlink_batches (Suc n) (key # names) deleted =
     Await (Redis (UNLINK (take 500 (key # names)))) (\<lambda>r. case r of
         Number d \<Rightarrow> unlink_batches n (drop 500 (key # names)) (deleted + d)
       | _ \<Rightarrow> Ret 0)"

definition redis_delete_pattern :: "redis_client \<Rightarrow> string \<Rightarrow> int task" where
  "redis_delete_pattern cl pattern =
     (if \<not> enabled cl then Ret 0
      else Await (Redis (SCAN pattern)) (\<lambda>r. case r of
          Names names \<Rightarrow> unlink_batches (length names) names 0
        | _ \<Rightarrow> Ret 0))"

definition generation_key :: "string \<Rightarrow> string" where
  "generation_key namespace = ''cache-generation:v1:'' @ namespace"

definition get_namespace_generation :: "redis_client \<Rightarrow> string \<Rightarrow> int option task" where
  "get_namespace_generation cl namespace =
     (if \<not> enabled cl then Ret (Some 0)
      else Await (Redis (GET (generation_key namespace))) (\<lambda>r. case r of
          Bulk None \<Rightarrow> Ret (Some 0)
        | Bulk (Some raw) \<Rightarrow> Ret (py_int10 raw)
        | _ \<Rightarrow> Ret None))"

definition bump_namespace_generation :: "redis_client \<Rightarrow> string \<Rightarrow> int option task" where
  "bump_namespace_generation cl namespace =
     (if \<not> enabled cl then Ret None
      else Await (Redis (INCR (generation_key namespace))) (\<lambda>r. case r of
          Number n \<Rightarrow> Ret (Some n)
        | _ \<Rightarrow> Ret None))"

text \<open>\<open>try_acquire_lock\<close>: a token, \<open>False\<close> on contention, or \<open>None\<close>.\<close>

datatype lock_outcome = Held string | Contended | Unavailable

definition try_acquire_lock :: "redis_client \<Rightarrow> string \<Rightarrow> rat \<Rightarrow> lock_outcome task" where
  "try_acquire_lock cl key ttl_seconds =
     (if \<not> enabled cl then Ret Unavailable
      else Await Token (\<lambda>t. case t of
          Fresh token \<Rightarrow> Await (Redis (SET_NX key token (max 1 \<lfloor>ttl_seconds * 1000\<rfloor>))) (\<lambda>r. case r of
              Granted g \<Rightarrow> Ret (if g then Held token else Contended)
            | _ \<Rightarrow> Ret Unavailable)
        | _ \<Rightarrow> Ret Unavailable))"

definition release_lock :: "redis_client \<Rightarrow> string \<Rightarrow> string \<Rightarrow> unit task" where
  "release_lock cl key token =
     (if \<not> enabled cl then Ret ()
      else Await (Redis (RELEASE key token)) (\<lambda>_. Ret ()))"

text \<open>\<open>RedisClient.invalidate_entity\<close> and \<open>invalidate_all\<close>, which know no generations; the adapter has its own.\<close>

definition redis_invalidate_entity :: "redis_client \<Rightarrow> string \<Rightarrow> string \<Rightarrow> unit task" where
  "redis_invalidate_entity cl entity entity_id =
     io_bind (redis_delete cl (entity @ '':'' @ entity_id)) (\<lambda>_.
     io_bind (redis_delete_pattern cl (entity @ '':list:*'')) (\<lambda>_.
     io_bind (redis_delete_pattern cl (entity @ '':count:*'')) (\<lambda>_. Ret ())))"

definition redis_invalidate_all :: "redis_client \<Rightarrow> string \<Rightarrow> unit task" where
  "redis_invalidate_all cl entity = io_bind (redis_delete_pattern cl (entity @ '':*'')) (\<lambda>_. Ret ())"

definition redis_ping :: "redis_client \<Rightarrow> bool task" where
  "redis_ping cl =
     (if \<not> enabled cl then Ret False else Await (Redis PING) (\<lambda>r. Ret (r \<noteq> Failed)))"

section \<open>What is stored is what is read\<close>

text \<open>
  Values the cache keeps: no floats, distinct keys, datetimes that the platform reads as they are
  printed, and no object that looks like an encoded datetime.
\<close>

fun storable :: "platform \<Rightarrow> wire \<Rightarrow> bool" where
  "storable pl (WFloat r) = False"
| "storable pl (WDate d) \<longleftrightarrow> pl_from_iso pl (spell_z (datetime_text d)) = Some d"
| "storable pl (WArr ws) = list_all (storable pl) ws"
| "storable pl (WObj fs) \<longleftrightarrow> distinct (map fst fs) \<and> datetime_type_key \<notin> set (map fst fs)
     \<and> list_all (\<lambda>(k, w). storable pl w) fs"
| "storable pl w = True"

lemma storable_plain: "storable pl w \<Longrightarrow> plain (json_default w)"
proof (induction w rule: json_default.induct)
  case (2 ws)
  then show ?case by (auto simp: list_all_iff)
next
  case (3 fs)
  then show ?case by (fastforce simp: list_all_iff comp_def case_prod_unfold)
qed (simp_all add: datetime_type_key_def)

lemma hook_untagged: "datetime_type_key \<notin> set (map fst fs) \<Longrightarrow> object_hook pl fs = WObj fs"
  by (auto simp: object_hook_def)

lemma hook_default: "storable pl w \<Longrightarrow> json_object_hook pl (json_default w) = w"
proof (induction w rule: json_default.induct)
  case (1 d)
  then show ?case by (simp add: object_hook_def dget_def datetime_type_key_def)
next
  case (2 ws)
  then show ?case by (auto simp: list_all_iff intro: map_idI)
next
  case (3 fs)
  have "map (\<lambda>(k, w). (k, json_object_hook pl (json_default w))) fs = fs"
    using 3 by (intro map_idI) (auto simp: list_all_iff)
  with 3 show ?case by (simp add: comp_def case_prod_unfold hook_untagged)
qed simp_all

lemma deserialized_serialized: "storable pl w \<Longrightarrow> deserialized pl (serialized pl w) = Some w"
  by (simp add: deserialized_def serialized_def json_loads_text storable_plain hook_default json_space_def)

lemma serialized_nonempty: "storable pl w \<Longrightarrow> serialized pl w \<noteq> []"
  unfolding serialized_def by (metis storable_plain json_text_start list.distinct(1))

text \<open>The text of a counter is read as its value.\<close>

lemma underscored_digits: "s \<noteq> [] \<Longrightarrow> list_all is_digit s \<Longrightarrow> underscored s"
  by (induction s rule: underscored.induct) (auto simp: is_digit_def code_def)

lemma py_int10_show_nat: "py_int10 (show_nat n) = Some (int n)"
proof -
  have d: "list_all is_digit (show_nat n)" using show_nat_digits by (simp add: list_all_iff)
  obtain c s where cs: "show_nat n = c # s" using show_nat_nonempty [of n] by (cases "show_nat n") auto
  with d have c: "c \<noteq> CHR ''-''" "c \<noteq> CHR ''+''" by (auto simp: is_digit_def code_def)
  have "\<not> py_space x" if "is_digit x" for x
    using that by (auto simp: is_digit_def py_space_def code_def)
  with d have "py_strip (show_nat n) = show_nat n"
    by (intro py_strip_fixed) (auto simp: list_all_iff)
  moreover have "underscored (show_nat n)" using d show_nat_nonempty by (rule underscored_digits [rotated])
  moreover have "filter is_digit (show_nat n) = show_nat n" using d by (simp add: list_all_iff filter_id_conv)
  moreover have "hd (show_nat n) \<noteq> CHR ''-''" "hd (show_nat n) \<noteq> CHR ''+''" using cs c by simp_all
  ultimately show ?thesis by (simp add: py_int10_def show_nat_value)
qed

text \<open>Lifetimes stay positive, and within the jitter.\<close>

lemma py_round_bounds: "r - 1 / 2 \<le> of_int (py_round r)" "of_int (py_round r) \<le> r + 1 / 2"
proof -
  have "of_int \<lfloor>r\<rfloor> \<le> r" "r < of_int \<lfloor>r\<rfloor> + 1" by linarith+
  then show "r - 1 / 2 \<le> of_int (py_round r)" "of_int (py_round r) \<le> r + 1 / 2"
    unfolding py_round_def Let_def by (split if_split, linarith)+
qed

end
