(* ===== verification/SearchIndex.thy ===== *)
theory SearchIndex
  imports RedisClient
begin

text \<open>
  The search client (\<open>src/infrastructure/external/elasticsearch_client.py\<close>): every method that
  reads or writes an index, as a coroutine whose requests are commands of the search engine. The
  engine is not part of the program: it is the parameter of \<open>SearchWorld\<close>.

  A document is a Python dict. \<open>Conflict\<close> and \<open>NotFound\<close> are the exceptions \<open>ConflictError\<close> and \<open>NotFoundError\<close>
  where the method handles them; \<open>EsFailed\<close> is any other exception, of connecting included. \<open>Cancelled\<close> is the
  cancellation of the task at any \<open>await\<close>. The field
  \<open>_reindex_targets\<close>, the clock and the database are reached by requests of their own, so that
  tasks interleave at each of them.
\<close>

section \<open>Requests\<close>

type_synonym document = "(string \<times> wire) list"

datatype alias_action = AddAlias string string | RemoveAlias string string bool

text \<open>\<open>AddAlias index alias\<close>, and \<open>RemoveAlias index alias must_exist\<close>.\<close>

datatype es_command =
    IndexDoc string wire document "int option"
  | GetDoc string wire
  | DeleteDoc string wire "int option"
  | SearchDocs string wire int "int option" "wire list" "wire list option"
  | CountDocs string wire
  | IndexExists string
  | CreateIndex string wire
  | DeleteIndex string
  | AliasExists string
  | GetAlias string
  | UpdateAliases "alias_action list"
  | Bulk "(string \<times> wire \<times> int option \<times> document) list"
  | Refresh string

record search_hit =
  hit_id :: wire
  hit_score :: wire
  hit_sort :: "wire list"
  hit_source :: document

datatype es_reply =
    EsFailed
  | Conflict
  | NotFound
  | Acknowledged
  | Boolean bool
  | Source document
  | Indices "string list"
  | Items "string option list"
  | Counted int
  | Hits int "search_hit list"

text \<open>Each item of a bulk reply has the type of its error, if any.\<close>

datatype search_op =
    Es es_command
  | MonotonicClock
  | CachedTargets string
  | CacheTargets string rat "string list"
  | DropTargets string
  | Schedule nat
  | EvictCached string string
  | SelectRows "wire option" nat
  | IndexStamp
  | Deadline rat
  | WaitUntil rat
  | TryAdvisoryLock
  | AdvisoryUnlock

datatype search_reply =
    Cancelled
  | Outcome es_reply
  | At rat
  | Known "(rat \<times> string list) option"
  | Order "nat list"
  | Rows "document list"
  | Stamp string
  | Lock bool
  | DatabaseDown
  | Continue

datatype search_exn =
    SearchEngineException string
  | UnrecoverableRecord string
  | AttributeError
  | UntypedValue
  | TimestampError
  | ReindexError string
  | ReindexAlreadyRunningError
  | ReindexLockOwnershipError
  | DatabaseError
  | Interrupted

type_synonym 'a search_task = "(search_op, search_reply, search_exn + 'a) io"

definition and_then :: "'a search_task \<Rightarrow> ('a \<Rightarrow> 'b search_task) \<Rightarrow> 'b search_task" where
  "and_then p f = io_bind p (\<lambda>x. case x of Inl e \<Rightarrow> Ret (Inl e) | Inr y \<Rightarrow> f y)"

definition es_call :: "string \<Rightarrow> es_command \<Rightarrow> es_reply search_task" where
  "es_call operation c = Await (Es c) (\<lambda>r. case r of
       Outcome EsFailed \<Rightarrow> Ret (Inl (SearchEngineException operation))
     | Outcome x \<Rightarrow> Ret (Inr x)
     | _ \<Rightarrow> Ret (Inl Interrupted))"

text \<open>
  \<open>asyncio.gather\<close>: the calls run in any order, all of them, and the first exception is raised. In Python
  it is raised at once, while the other calls go on in the background; here the caller gets it when they have
  ended, and what a call left behind does later is what another delivery of the change may do.
\<close>

fun gather_in :: "nat list \<Rightarrow> 'a search_task list \<Rightarrow> search_exn option \<Rightarrow> unit search_task" where
  "gather_in [] ps err = Ret (case err of None \<Rightarrow> Inr () | Some e \<Rightarrow> Inl e)"
| "gather_in (i # is) ps err = io_bind (ps ! i) (\<lambda>x. gather_in is ps (case x of
       Inl e \<Rightarrow> (if err = None then Some e else err)
     | Inr _ \<Rightarrow> err))"

definition gather :: "'a search_task list \<Rightarrow> unit search_task" where
  "gather ps = Await (Schedule (length ps)) (\<lambda>r. case r of
       Order is \<Rightarrow> gather_in is ps None
     | _ \<Rightarrow> Ret (Inl Interrupted))"

section \<open>Documents\<close>

text \<open>\<open>int(raw)\<close>; \<open>None\<close> stands for \<open>TypeError\<close> and \<open>ValueError\<close>.\<close>

fun py_int :: "wire \<Rightarrow> int option" where
  "py_int (WBool b) = Some (if b then 1 else 0)"
| "py_int (WInt i) = Some i"
| "py_int (WFloat r) = Some (if 0 \<le> r then \<lfloor>r\<rfloor> else \<lceil>r\<rceil>)"
| "py_int (WStr s) = py_int10 s"
| "py_int w = None"

definition document_external_version :: "document \<Rightarrow> int option" where
  "document_external_version d =
     (case dget d ''version'' of
        WNull \<Rightarrow> None
      | raw \<Rightarrow> (case py_int raw of
            None \<Rightarrow> None
          | Some version \<Rightarrow> (if 0 \<le> version then Some (version + 1) else None)))"

definition es_index :: "string \<Rightarrow> wire \<Rightarrow> document \<Rightarrow> int option \<Rightarrow> bool search_task" where
  "es_index index doc_id d version =
     and_then (es_call ''index'' (IndexDoc index doc_id d version)) (\<lambda>_. Ret (Inr True))"

definition es_get :: "string \<Rightarrow> wire \<Rightarrow> document option search_task" where
  "es_get index doc_id =
     and_then (es_call ''get'' (GetDoc index doc_id)) (\<lambda>x. case x of
         Source d \<Rightarrow> Ret (Inr (Some d))
       | NotFound \<Rightarrow> Ret (Inr None)
       | _ \<Rightarrow> Ret (Inl (SearchEngineException ''get'')))"

definition es_delete :: "string \<Rightarrow> wire \<Rightarrow> int option \<Rightarrow> bool search_task" where
  "es_delete index doc_id version =
     and_then (es_call ''delete'' (DeleteDoc index doc_id version)) (\<lambda>_. Ret (Inr True))"

text \<open>The members of a document's source replace those of the hit.\<close>

definition hit_document :: "search_hit \<Rightarrow> document" where
  "hit_document h = fold (\<lambda>(k, v). put_member k v) (hit_source h)
     [(''id'', hit_id h), (''score'', hit_score h), (''_sort'', WArr (hit_sort h))]"

definition es_search ::
  "string \<Rightarrow> wire \<Rightarrow> int \<Rightarrow> int \<Rightarrow> wire list \<Rightarrow> wire list option \<Rightarrow> (int \<times> document list) search_task" where
  "es_search index query page_size offset order search_after =
     and_then (es_call ''search'' (SearchDocs index query page_size
         (if search_after = None then Some offset else None) order search_after)) (\<lambda>x. case x of
         Hits n hits \<Rightarrow> Ret (Inr (n, map hit_document hits))
       | _ \<Rightarrow> Ret (Inl (SearchEngineException ''search'')))"

definition es_count :: "string \<Rightarrow> wire \<Rightarrow> int search_task" where
  "es_count index query =
     and_then (es_call ''count'' (CountDocs index query)) (\<lambda>x. case x of
         Counted n \<Rightarrow> Ret (Inr n)
       | _ \<Rightarrow> Ret (Inl (SearchEngineException ''count'')))"

definition search_text ::
  "string \<Rightarrow> string \<Rightarrow> string list \<Rightarrow> int \<Rightarrow> int \<Rightarrow> wire list \<Rightarrow> wire list option \<Rightarrow> (int \<times> document list) search_task" where
  "search_text index query_text text_fields =
     es_search index (WObj [(''multi_match'', WObj [(''query'', WStr query_text), (''fields'', WArr (map WStr text_fields)),
         (''type'', WStr ''best_fields''), (''fuzziness'', WStr ''AUTO'')])])"

section \<open>Aliases\<close>

definition get_alias_indices :: "string \<Rightarrow> string list search_task" where
  "get_alias_indices name =
     and_then (es_call ''get_alias_indices'' (AliasExists name)) (\<lambda>x. case x of
         Boolean True \<Rightarrow>
           and_then (es_call ''get_alias_indices'' (GetAlias name)) (\<lambda>y. case y of
               Indices names \<Rightarrow> Ret (Inr names)
             | _ \<Rightarrow> Ret (Inl (SearchEngineException ''get_alias_indices'')))
       | Boolean False \<Rightarrow> Ret (Inr [])
       | _ \<Rightarrow> Ret (Inl (SearchEngineException ''get_alias_indices'')))"

definition target_alias :: "string \<Rightarrow> string" where
  "target_alias logical_index = logical_index @ ''__reindex_target''"

definition target_cache_seconds :: rat where "target_cache_seconds = 1"

text \<open>\<open>list(dict.fromkeys(xs))\<close>: the first of each name.\<close>

definition unique_names :: "string list \<Rightarrow> string list" where
  "unique_names xs = rev (remdups (rev xs))"

definition discover_targets :: "string \<Rightarrow> rat \<Rightarrow> string list search_task" where
  "discover_targets logical_index now =
     and_then (get_alias_indices (target_alias logical_index)) (\<lambda>names.
       let targets = unique_names (logical_index # names)
       in Await (CacheTargets logical_index (now + target_cache_seconds) targets) (\<lambda>_. Ret (Inr targets)))"

definition get_read_model_write_targets :: "string \<Rightarrow> string list search_task" where
  "get_read_model_write_targets logical_index =
     Await MonotonicClock (\<lambda>r. case r of
         At now \<Rightarrow> Await (CachedTargets logical_index) (\<lambda>c. case c of
             Known (Some (until, targets)) \<Rightarrow>
               (if now < until then Ret (Inr targets) else discover_targets logical_index now)
           | _ \<Rightarrow> discover_targets logical_index now)
       | _ \<Rightarrow> Ret (Inl Interrupted))"

definition index_read_model :: "string \<Rightarrow> wire \<Rightarrow> document \<Rightarrow> bool search_task" where
  "index_read_model logical_index doc_id d =
     and_then (get_read_model_write_targets logical_index) (\<lambda>targets.
     and_then (gather (map (\<lambda>target. es_index target doc_id d (document_external_version d)) targets)) (\<lambda>_.
     Ret (Inr True)))"

text \<open>A delete takes the version after that of the row it removes.\<close>

definition delete_read_model :: "string \<Rightarrow> wire \<Rightarrow> document option \<Rightarrow> bool search_task" where
  "delete_read_model logical_index doc_id source =
     and_then (get_read_model_write_targets logical_index) (\<lambda>targets.
     and_then (gather (map (\<lambda>target. es_delete target doc_id
         (map_option (\<lambda>v. v + 1) (document_external_version (case source of None \<Rightarrow> [] | Some d \<Rightarrow> d)))) targets)) (\<lambda>_.
     Ret (Inr True)))"

definition set_reindex_target :: "string \<Rightarrow> string \<Rightarrow> unit search_task" where
  "set_reindex_target logical_index target =
     and_then (get_alias_indices (target_alias logical_index)) (\<lambda>olds.
     and_then (es_call ''set_reindex_target'' (UpdateAliases
         (map (\<lambda>old. RemoveAlias old (target_alias logical_index) False) olds
          @ [AddAlias target (target_alias logical_index)]))) (\<lambda>_.
     Await (DropTargets logical_index) (\<lambda>_. Ret (Inr ()))))"

definition clear_reindex_target :: "string \<Rightarrow> string option \<Rightarrow> unit search_task" where
  "clear_reindex_target logical_index expected_target =
     and_then (case expected_target of
         Some target \<Rightarrow> Ret (Inr [target])
       | None \<Rightarrow> get_alias_indices (target_alias logical_index)) (\<lambda>targets.
     and_then (if targets = [] then Ret (Inr Acknowledged)
         else es_call ''clear_reindex_target'' (UpdateAliases
           (map (\<lambda>target. RemoveAlias target (target_alias logical_index) (expected_target \<noteq> None)) targets))) (\<lambda>_.
     Await (DropTargets logical_index) (\<lambda>_. Ret (Inr ()))))"

definition swap_alias :: "string \<Rightarrow> string \<Rightarrow> bool search_task" where
  "swap_alias name new_index =
     and_then (get_alias_indices name) (\<lambda>olds.
     and_then (es_call ''swap_alias'' (UpdateAliases
         (map (\<lambda>old. RemoveAlias old name False) olds @ [AddAlias new_index name]))) (\<lambda>_.
     Ret (Inr True)))"

section \<open>Indices\<close>

definition create_index :: "string \<Rightarrow> wire \<Rightarrow> bool search_task" where
  "create_index index body =
     and_then (es_call ''create_index'' (IndexExists index)) (\<lambda>x.
     and_then (if x = Boolean True then Ret (Inr Acknowledged) else es_call ''create_index'' (CreateIndex index body)) (\<lambda>_.
     Ret (Inr True)))"

definition delete_index :: "string \<Rightarrow> bool search_task" where
  "delete_index index =
     and_then (es_call ''delete_index'' (IndexExists index)) (\<lambda>x.
     and_then (if x = Boolean True then es_call ''delete_index'' (DeleteIndex index) else Ret (Inr Acknowledged)) (\<lambda>_.
     Ret (Inr True)))"

definition es_refresh :: "string \<Rightarrow> unit search_task" where
  "es_refresh index = and_then (es_call ''refresh'' (Refresh index)) (\<lambda>_. Ret (Inr ()))"

text \<open>
  \<open>bulk_index\<close>: the numbers of successes and errors. A document whose identity is empty or missing
  is an error; a version conflict is not, as the index then holds a newer version.
\<close>

definition bulk_items :: "string \<Rightarrow> document list \<Rightarrow> (string \<times> wire \<times> int option \<times> document) list" where
  "bulk_items index documents =
     map (\<lambda>d. (index, dget d ''id'', document_external_version d, d)) (filter (\<lambda>d. py_truth (dget d ''id'')) documents)"

definition bulk_index :: "string \<Rightarrow> document list \<Rightarrow> (int \<times> int) search_task" where
  "bulk_index index documents =
     (let items = bulk_items index documents;
          missing_ids = int (length documents) - int (length items)
      in if items = [] then Ret (Inr (0, missing_ids))
         else and_then (es_call ''bulk_index'' (Bulk items)) (\<lambda>x. case x of
             Items results \<Rightarrow>
               (let errors = int (length (filter (\<lambda>e. e \<noteq> None \<and> e \<noteq> Some ''version_conflict_engine_exception'') results)) + missing_ids
                in Ret (Inr (int (length documents) - errors, errors)))
           | _ \<Rightarrow> Ret (Inl (SearchEngineException ''bulk_index''))))"

end
