(* ===== verification/SearchSync.thy ===== *)
theory SearchSync
  imports SearchIndex
begin

text \<open>
  What writes the search indexes: the consumer of change records
  (\<open>src/infrastructure/adapters/cdc/elasticsearch_sync.py\<close>), the job that rebuilds an index from the
  database (\<open>scripts/reindex_read_models.py\<close>) under its advisory lock (\<open>reindex_lock.py\<close>), and the
  gate that keeps queries away from a lagging index (\<open>kafka_projection_freshness.py\<close>).

  A change record is what Debezium publishes of a row: \<open>before\<close>, \<open>after\<close> and \<open>op\<close>. The division of a
  timestamp by a million is exact here.
\<close>

section \<open>Transforming rows\<close>

definition parse_timestamp :: "wire \<Rightarrow> search_exn + wire" where
  "parse_timestamp v =
     (let instant = (\<lambda>i. if in_range i then Inr (WStr (wall_clock_text i @ ''Z'')) else Inl TimestampError)
      in case v of
           WInt i \<Rightarrow> instant i
         | WBool b \<Rightarrow> instant (if b then 1 else 0)
         | WStr s \<Rightarrow> Inr (WStr s)
         | _ \<Rightarrow> Inr WNull)"

definition transform_book :: "document \<Rightarrow> search_exn + document" where
  "transform_book d =
     (let st = dget_or d ''status'' (WStr ''available'')
      in rbind (parse_timestamp (dget d ''reserved_at'')) (\<lambda>reserved.
         rbind (parse_timestamp (dget d ''borrowed_at'')) (\<lambda>borrowed.
         rbind (parse_timestamp (dget d ''return_due_date'')) (\<lambda>due.
         Inr [(''id'', dget d ''id''), (''title'', dget d ''title''), (''author'', dget d ''author''), (''status'', st),
              (''is_borrowed'', WBool (st = WStr ''borrowed'')), (''reserved_at'', reserved),
              (''borrowed_at'', borrowed), (''return_due_date'', due),
              (''version'', dget_or d ''version'' (WInt 0))]))))"

definition transform_patron :: "platform \<Rightarrow> document \<Rightarrow> search_exn + document" where
  "transform_patron pl d =
     (let first = dget_or d ''first_name'' (WStr ''''); last = dget_or d ''last_name'' (WStr '''')
      in rbind (parse_timestamp (dget d ''registered_at'')) (\<lambda>registered.
         Inr [(''id'', dget d ''id''), (''first_name'', first), (''last_name'', last),
              (''full_name'', WStr (py_strip (py_str pl first @ '' '' @ py_str pl last))),
              (''email'', dget d ''email''), (''membership_tier'', dget d ''membership_tier''),
              (''is_suspended'', dget_or d ''is_suspended'' (WBool False)),
              (''suspended_reason'', dget d ''suspended_reason''), (''registered_at'', registered),
              (''current_loan_count'', dget_or d ''current_loan_count'' (WInt 0)),
              (''version'', dget_or d ''version'' (WInt 0))]))"

definition transform_loan :: "document \<Rightarrow> search_exn + document" where
  "transform_loan d =
     rbind (parse_timestamp (dget d ''due_date'')) (\<lambda>due.
     rbind (parse_timestamp (dget d ''borrowed_at'')) (\<lambda>borrowed.
     rbind (parse_timestamp (dget d ''returned_at'')) (\<lambda>returned.
     Inr [(''id'', dget d ''id''), (''patron_id'', dget d ''patron_id''), (''patron_email'', dget d ''patron_email''),
          (''catalog_book_id'', dget d ''catalog_book_id''), (''book_title'', dget d ''book_title''),
          (''borrowed_at'', borrowed), (''due_date'', due), (''returned_at'', returned),
          (''status'', dget d ''status''), (''version'', dget_or d ''version'' (WInt 0))])))"

definition transform :: "platform \<Rightarrow> string \<Rightarrow> document \<Rightarrow> search_exn + document" where
  "transform pl index d =
     (if index = ''books'' then transform_book d
      else if index = ''patrons'' then transform_patron pl d
      else if index = ''loans'' then transform_loan d
      else Inr d)"

section \<open>The consumer\<close>

text \<open>\<open>''id'' in value\<close> and \<open>value[''id'']\<close> for a value that is true.\<close>

fun has_id :: "wire \<Rightarrow> search_exn + bool" where
  "has_id (WObj d) = Inr (map_of d ''id'' \<noteq> None)"
| "has_id (WArr ws) = Inr (WStr ''id'' \<in> set ws)"
| "has_id (WStr s) = Inr (sublist ''id'' s)"
| "has_id w = Inl UntypedValue"

fun item_id :: "wire \<Rightarrow> search_exn + wire" where
  "item_id (WObj d) = Inr (dget d ''id'')"
| "item_id w = Inl UntypedValue"

definition true_with_id :: "wire \<Rightarrow> search_exn + bool" where
  "true_with_id w = (if py_truth w then has_id w else Inr False)"

definition invalidate_cache :: "platform \<Rightarrow> bool \<Rightarrow> string \<Rightarrow> wire \<Rightarrow> unit search_task" where
  "invalidate_cache pl cached index doc_id =
     (if cached \<and> index \<in> {''books'', ''patrons'', ''loans''}
      then Await (EvictCached (butlast index) (py_str pl doc_id)) (\<lambda>r. Ret (if r = Continue then Inr () else Inl Interrupted))
      else Ret (Inr ()))"

definition remove_document :: "platform \<Rightarrow> bool \<Rightarrow> string \<Rightarrow> wire \<Rightarrow> document option \<Rightarrow> unit search_task" where
  "remove_document pl cached index doc_id source =
     and_then (delete_read_model index doc_id source) (\<lambda>_. invalidate_cache pl cached index doc_id)"

definition process_tombstone :: "platform \<Rightarrow> bool \<Rightarrow> string \<Rightarrow> string \<Rightarrow> wire \<Rightarrow> unit search_task" where
  "process_tombstone pl cached topic index key =
     (case true_with_id key of
        Inl e \<Rightarrow> Ret (Inl e)
      | Inr True \<Rightarrow> (case item_id key of Inl e \<Rightarrow> Ret (Inl e) | Inr i \<Rightarrow> remove_document pl cached index i None)
      | Inr False \<Rightarrow> Ret (Inl (UnrecoverableRecord (''CDC tombstone on '' @ topic @ '' has no document id''))))"

definition process_delete :: "platform \<Rightarrow> bool \<Rightarrow> string \<Rightarrow> string \<Rightarrow> wire \<Rightarrow> unit search_task" where
  "process_delete pl cached topic index before =
     (case true_with_id before of
        Inl e \<Rightarrow> Ret (Inl e)
      | Inr True \<Rightarrow>
          (case before of
             WObj d \<Rightarrow> remove_document pl cached index (dget d ''id'') (Some d)
           | _ \<Rightarrow> Ret (Inl UntypedValue))
      | Inr False \<Rightarrow> Ret (Inl (UnrecoverableRecord (''CDC delete on '' @ topic @ '' has no before document id''))))"

definition process_upsert :: "platform \<Rightarrow> bool \<Rightarrow> string \<Rightarrow> string \<Rightarrow> string \<Rightarrow> wire \<Rightarrow> unit search_task" where
  "process_upsert pl cached topic index op after =
     (if \<not> py_truth after
      then Ret (Inl (UnrecoverableRecord (''CDC '' @ op @ '' record on '' @ topic @ '' has no after document'')))
      else case after of
             WObj d \<Rightarrow>
               (if \<not> py_truth (dget d ''id'')
                then Ret (Inl (UnrecoverableRecord (''CDC '' @ op @ '' record on '' @ topic @ '' has no document id'')))
                else case transform pl index d of
                       Inl e \<Rightarrow> Ret (Inl e)
                     | Inr doc \<Rightarrow>
                         and_then (index_read_model index (dget d ''id'') doc) (\<lambda>_.
                           invalidate_cache pl cached index (dget d ''id'')))
           | _ \<Rightarrow> Ret (Inl AttributeError))"

definition process_record ::
  "platform \<Rightarrow> bool \<Rightarrow> (string \<times> string) list \<Rightarrow> string \<Rightarrow> wire \<Rightarrow> wire \<Rightarrow> unit search_task" where
  "process_record pl cached topic_to_index topic key v =
     (case map_of topic_to_index topic of
        None \<Rightarrow> Ret (Inl (UnrecoverableRecord (''No Elasticsearch projection is registered for CDC topic '' @ topic)))
      | Some index \<Rightarrow>
          (if index = [] then Ret (Inl (UnrecoverableRecord (''No Elasticsearch projection is registered for CDC topic '' @ topic)))
           else case v of
                  WNull \<Rightarrow> process_tombstone pl cached topic index key
                | WObj d \<Rightarrow>
                    (case dget d ''op'' of
                       WStr op \<Rightarrow>
                         (if op = ''d'' then process_delete pl cached topic index (dget d ''before'')
                          else if op \<in> {''c'', ''u'', ''r''} then process_upsert pl cached topic index op (dget d ''after'')
                          else Ret (Inl (UnrecoverableRecord (''Unsupported CDC operation on '' @ topic))))
                     | _ \<Rightarrow> Ret (Inl (UnrecoverableRecord (''Unsupported CDC operation on '' @ topic))))
                | _ \<Rightarrow> Ret (Inl AttributeError)))"

section \<open>The rebuild job\<close>

definition row_to_dict :: "document \<Rightarrow> document" where
  "row_to_dict columns = map (\<lambda>(k, v). (k, case v of WDate d \<Rightarrow> WStr (datetime_text d) | _ \<Rightarrow> v)) columns"

definition batch_size :: nat where "batch_size = 500"

fun transform_all :: "platform \<Rightarrow> string \<Rightarrow> document list \<Rightarrow> search_exn + document list" where
  "transform_all pl index [] = Inr []"
| "transform_all pl index (d # ds) =
     rbind (transform pl index d) (\<lambda>d'. rbind (transform_all pl index ds) (\<lambda>ds'. Inr (d' # ds')))"

text \<open>
  The keyset scan. The number of batches is bounded by \<open>rounds\<close>; a scan that has used them up ends
  as one that is interrupted there.
\<close>

fun scan_rows :: "platform \<Rightarrow> string \<Rightarrow> string \<Rightarrow> nat \<Rightarrow> wire option \<Rightarrow> unit search_task" where
  "scan_rows pl name new_index 0 last_id = Ret (Inl Interrupted)"
| "scan_rows pl name new_index (Suc rounds) last_id =
     Await (SelectRows last_id batch_size) (\<lambda>r. case r of
         Rows rows \<Rightarrow>
           (let row_data = map row_to_dict rows
            in if row_data = [] then Ret (Inr ())
               else case transform_all pl name row_data of
                      Inl e \<Rightarrow> Ret (Inl e)
                    | Inr documents \<Rightarrow>
                        and_then (bulk_index new_index documents) (\<lambda>(success, errors).
                          if errors \<noteq> 0 then Ret (Inl (ReindexError ''documents failed to index; aborting before alias swap''))
                          else scan_rows pl name new_index rounds (Some (dget (last row_data) ''id''))))
       | DatabaseDown \<Rightarrow> Ret (Inl DatabaseError)
       | _ \<Rightarrow> Ret (Inl Interrupted))"

definition pause :: "rat \<Rightarrow> unit search_task" where
  "pause seconds =
     Await (Deadline seconds) (\<lambda>r. case r of
         At t \<Rightarrow> Await (WaitUntil t) (\<lambda>r. Ret (if r = Continue then Inr () else Inl Interrupted))
       | _ \<Rightarrow> Ret (Inl Interrupted))"

definition rebuild_index :: "platform \<Rightarrow> string \<Rightarrow> string \<Rightarrow> wire \<Rightarrow> rat \<Rightarrow> nat \<Rightarrow> unit search_task" where
  "rebuild_index pl name new_index body grace rounds =
     and_then (create_index new_index body) (\<lambda>_.
     and_then (set_reindex_target name new_index) (\<lambda>_.
     and_then (pause grace) (\<lambda>_.
     and_then (scan_rows pl name new_index rounds None) (\<lambda>_.
     and_then (es_refresh new_index) (\<lambda>_.
     and_then (swap_alias name new_index) (\<lambda>_.
     clear_reindex_target name (Some new_index)))))))"

text \<open>The clean-up after a failure; its own failure is only a note on the error.\<close>

definition clean_up :: "string \<Rightarrow> string \<Rightarrow> unit search_task" where
  "clean_up name new_index =
     and_then (get_alias_indices (target_alias name)) (\<lambda>targets.
     and_then (if new_index \<in> set targets then clear_reindex_target name (Some new_index) else Ret (Inr ())) (\<lambda>_.
     and_then (get_alias_indices name) (\<lambda>serving.
     if new_index \<in> set serving then Ret (Inr ())
     else and_then (delete_index new_index) (\<lambda>_. Ret (Inr ())))))"

fun delete_old :: "string \<Rightarrow> string list \<Rightarrow> unit search_task" where
  "delete_old new_index [] = Ret (Inr ())"
| "delete_old new_index (old # olds) =
     and_then (if old \<noteq> new_index then delete_index old else Ret (Inr True)) (\<lambda>_. delete_old new_index olds)"

definition reindex_alias :: "platform \<Rightarrow> string \<Rightarrow> wire \<Rightarrow> bool \<Rightarrow> rat \<Rightarrow> nat \<Rightarrow> unit search_task" where
  "reindex_alias pl name body keep_old grace rounds =
     and_then (get_alias_indices name) (\<lambda>old_indices.
     Await IndexStamp (\<lambda>r. case r of
         Stamp stamp \<Rightarrow>
           (let new_index = name @ ''-'' @ stamp
            in io_bind (rebuild_index pl name new_index body grace rounds) (\<lambda>x. case x of
                 Inl e \<Rightarrow> io_bind (clean_up name new_index) (\<lambda>_. Ret (Inl e))
               | Inr _ \<Rightarrow> (if keep_old then Ret (Inr ()) else delete_old new_index old_indices)))
       | _ \<Rightarrow> Ret (Inl Interrupted)))"

definition lock_call :: "search_op \<Rightarrow> bool search_task" where
  "lock_call q = Await q (\<lambda>r. case r of
       Lock b \<Rightarrow> Ret (Inr b)
     | DatabaseDown \<Rightarrow> Ret (Inl DatabaseError)
     | _ \<Rightarrow> Ret (Inl Interrupted))"

definition read_model_reindex_lock :: "unit search_task \<Rightarrow> unit search_task" where
  "read_model_reindex_lock body =
     and_then (lock_call TryAdvisoryLock) (\<lambda>acquired.
       if \<not> acquired then Ret (Inl ReindexAlreadyRunningError)
       else io_bind body (\<lambda>result. io_bind (lock_call AdvisoryUnlock) (\<lambda>released. Ret (case result of
           Inl e \<Rightarrow> Inl e
         | Inr _ \<Rightarrow> (case released of
               Inl e \<Rightarrow> Inl e
             | Inr b \<Rightarrow> (if b then Inr () else Inl ReindexLockOwnershipError))))))"

text \<open>\<open>main\<close> refuses a grace below the lifetime of the target cache.\<close>

definition grace_accepted :: "rat \<Rightarrow> bool" where
  "grace_accepted grace \<longleftrightarrow> target_cache_seconds \<le> grace"

fun reindex_all :: "platform \<Rightarrow> (string \<times> wire) list \<Rightarrow> bool \<Rightarrow> rat \<Rightarrow> nat \<Rightarrow> unit search_task" where
  "reindex_all pl [] keep_old grace rounds = Ret (Inr ())"
| "reindex_all pl ((name, body) # names) keep_old grace rounds =
     and_then (reindex_alias pl name body keep_old grace rounds) (\<lambda>_. reindex_all pl names keep_old grace rounds)"

definition reindex_job :: "platform \<Rightarrow> (string \<times> wire) list \<Rightarrow> bool \<Rightarrow> rat \<Rightarrow> nat \<Rightarrow> unit search_task" where
  "reindex_job pl names keep_old grace rounds = read_model_reindex_lock (reindex_all pl names keep_old grace rounds)"

section \<open>The freshness gate\<close>

record projection_freshness =
  pf_topics :: "string list"
  cache_seconds :: rat
  cached_until :: rat
  cached_fresh :: bool

definition kafka_projection_freshness ::
  "string \<Rightarrow> string \<Rightarrow> string list \<Rightarrow> rat \<Rightarrow> infra_exn + projection_freshness" where
  "kafka_projection_freshness bootstrap_servers group_id topics seconds =
     (if py_strip bootstrap_servers = [] \<or> py_strip group_id = [] \<or> topics = []
      then Inl (ValueError ''projection freshness requires Kafka/group/topics'')
      else if \<not> (0 \<le> seconds \<and> seconds \<le> 30) then Inl (ValueError ''cache_seconds must be between 0 and 30'')
      else Inr \<lparr>pf_topics = sorted_list_of_set (set topics), cache_seconds = seconds, cached_until = 0, cached_fresh = False\<rparr>)"

text \<open>What Kafka answers: the partitions of a topic, committed offsets and end offsets.\<close>

record kafka_offsets =
  partitions_for_topic :: "string \<Rightarrow> nat list option"
  committed :: "string \<times> nat \<Rightarrow> int option"
  end_offsets :: "string \<times> nat \<Rightarrow> int"

definition fully_committed :: "kafka_offsets \<Rightarrow> string list \<Rightarrow> bool" where
  "fully_committed k topics \<longleftrightarrow>
     list_all (\<lambda>topic. case partitions_for_topic k topic of
         None \<Rightarrow> False
       | Some ids \<Rightarrow> list_all (\<lambda>i. end_offsets k (topic, i) = 0
           \<or> (case committed k (topic, i) of None \<Rightarrow> False | Some offset \<Rightarrow> end_offsets k (topic, i) \<le> offset)) ids) topics"

text \<open>\<open>is_fresh\<close>; the answer of Kafka is \<open>None\<close> when asking it raised an exception.\<close>

definition is_fresh :: "rat \<Rightarrow> kafka_offsets option \<Rightarrow> projection_freshness \<Rightarrow> bool \<times> projection_freshness" where
  "is_fresh now answer f =
     (if now < cached_until f then (cached_fresh f, f)
      else let fresh = (case answer of None \<Rightarrow> False | Some k \<Rightarrow> fully_committed k (pf_topics f))
           in (fresh, f\<lparr>cached_fresh := fresh, cached_until := now + cache_seconds f\<rparr>))"

end
