(* ===== verification/SharedSystem.thy ===== *)
theory SharedSystem
  imports Async
begin

text \<open>
  A second rule for systems of coroutines, for tasks that exclude each other: the invariant is
  about the world and the knowledge of all tasks together, so that a task may rely on being
  the only one with a certain knowledge (the owner of a lock). \<open>async_system\<close> is the case in which
  each task's knowledge stands for itself.
\<close>

locale shared_system =
  fixes env :: "'w \<Rightarrow> 'w \<Rightarrow> bool"
    and start :: "'w \<Rightarrow> 't \<Rightarrow> ('o, 'p, 'a) io \<Rightarrow> bool"
    and exec :: "'w \<Rightarrow> 't \<Rightarrow> 'o \<Rightarrow> 'w \<Rightarrow> 'p \<Rightarrow> bool"
    and inv :: "'w \<Rightarrow> ('t \<times> 'k) list \<Rightarrow> bool"
    and allowed :: "'t \<Rightarrow> 'k \<Rightarrow> 'o \<Rightarrow> bool"
    and possible :: "'t \<Rightarrow> 'k \<Rightarrow> 'o \<Rightarrow> 'p \<Rightarrow> bool"
    and learn :: "'t \<Rightarrow> 'k \<Rightarrow> 'o \<Rightarrow> 'p \<Rightarrow> 'k"
    and post :: "'t \<Rightarrow> 'k \<Rightarrow> 'a \<Rightarrow> bool"
  assumes env_keeps: "\<lbrakk>inv w ks; env w w'\<rbrakk> \<Longrightarrow> inv w' ks"
    and start_keeps: "\<lbrakk>inv w ks; start w t p\<rbrakk>
      \<Longrightarrow> \<exists>k. inv w (ks @ [(t, k)]) \<and> wp (allowed t) (possible t) (learn t) p (post t) k"
    and exec_keeps: "\<lbrakk>inv w ks; i < length ks; ks ! i = (t, k); allowed t k q; exec w t q w' r\<rbrakk>
      \<Longrightarrow> possible t k q r \<and> inv w' (ks[i := (t, learn t k q r)])"
begin

text \<open>The tasks have knowledge with which each of them is correct.\<close>

definition informed :: "('t \<times> ('o, 'p, 'a) io) list \<Rightarrow> ('t \<times> 'k) list \<Rightarrow> bool" where
  "informed ts ks \<longleftrightarrow> list_all2 (\<lambda>(t, p) (t', k). t' = t \<and> wp (allowed t) (possible t) (learn t) p (post t) k) ts ks"

lemma informed_nth: "\<lbrakk>informed ts ks; i < length ts; ts ! i = (t, p)\<rbrakk>
    \<Longrightarrow> i < length ks \<and> (\<exists>k. ks ! i = (t, k) \<and> wp (allowed t) (possible t) (learn t) p (post t) k)"
  by (frule (1) list_all2_nthD [OF informed_def [THEN iffD1]])
    (auto simp: informed_def dest: list_all2_lengthD split: prod.splits)

lemma step_informed:
  assumes "system_step env start exec (w, ts) (w', ts')" "inv w ks" "informed ts ks"
  shows "\<exists>ks'. inv w' ks' \<and> informed ts' ks'"
  using assms(1)
proof (cases rule: system_step.cases)
  case environment
  with assms(2,3) env_keeps show ?thesis by blast
next
  case (started t p)
  with start_keeps [OF assms(2)] obtain k where
    "inv w (ks @ [(t, k)])" "wp (allowed t) (possible t) (learn t) p (post t) k" by blast
  with started assms(3) show ?thesis
    by (intro exI [of _ "ks @ [(t, k)]"]) (auto simp: informed_def intro: list_all2_appendI)
next
  case (resumed i t q c r)
  with informed_nth [OF assms(3)] obtain k where k: "i < length ks" "ks ! i = (t, k)"
    "wp (allowed t) (possible t) (learn t) (Await q c) (post t) k" by blast
  then have a: "allowed t k q" by simp
  from exec_keeps [OF assms(2) k(1,2) a] resumed k(3)
  have "inv w' (ks[i := (t, learn t k q r)])" "wp (allowed t) (possible t) (learn t) (c r) (post t) (learn t k q r)" by auto
  with resumed assms(3) show ?thesis
    by (intro exI [of _ "ks[i := (t, learn t k q r)]"]) (auto simp: informed_def intro!: list_all2_update_cong)
qed

theorem reachable_informed:
  assumes "reachable env start exec w0 s" "inv w0 []"
  shows "\<exists>ks. inv (fst s) ks \<and> informed (snd s) ks"
  using assms(1)
proof induction
  case initial
  with assms(2) show ?case by (intro exI [of _ "[]"]) (simp add: informed_def)
next
  case (step s s')
  then show ?case using step_informed [of "fst s" "snd s" "fst s'" "snd s'"] by auto
qed

lemma returned_informed:
  assumes "reachable env start exec w0 (w, ts)" "inv w0 []" "i < length ts" "ts ! i = (t, Ret x)"
  shows "\<exists>ks k. inv w ks \<and> i < length ks \<and> ks ! i = (t, k) \<and> post t k x"
proof -
  obtain ks where "inv w ks" "informed ts ks" using reachable_informed [OF assms(1,2)] by auto
  with informed_nth [OF this(2) assms(3,4)] show ?thesis by auto
qed

end

sublocale async_system \<subseteq> shared: shared_system env start exec
    "\<lambda>w ks. inv w \<and> (\<forall>(t, k)\<in>set ks. holds w t k)" allowed possible learn post
proof (unfold_locales, goal_cases)
  case (1 w ks w')
  then show ?case using env_inv env_holds by fast
next
  case (2 w ks t p)
  then show ?case using start_correct [of w t p] by fastforce
next
  case (3 w ks i t k q w' r)
  then have "holds w t k" using nth_mem by (metis case_prodD)
  note e = conjunct1 [OF 3(1)] this 3(4,5)
  have "holds w' t' k'" if "(t', k') \<in> set ks" for t' k' using exec_holds [OF e] 3(1) that by blast
  with exec_inv [OF e] exec_learns [OF e] show ?case
    by (auto dest!: set_update_subset_insert [THEN subsetD])
qed

end
