(* ===== verification/SearchWorld.thy ===== *)
theory SearchWorld
  imports SearchSync SharedSystem
begin

text \<open>
  The search indexes in their surroundings, for one read model: a table whose rows are inserted,
  updated and deleted; the log of its changes, any of which may be delivered to any consumer process at
  any later time, any number of times; rebuild jobs; and one search engine.

  The engine is a parameter. \<open>es_documented\<close> states what the program relies on: a write with
  \<open>external_gte\<close> is refused if a newer version is stored, \<open>_aliases\<close> is atomic, a write to an alias goes to
  its index and creates a missing one, a failed command has been executed (a bulk in part) or not
  when its failure is reported, and the versions of deleted documents may be forgotten.

  A job owns the advisory lock through its session. A session ends with its process
  (\<open>killed\<close>): the database frees the lock, and the process does nothing any more.
  \<open>registered\<close> is a history variable: when an index became the target of a rebuild.
\<close>

section \<open>The engine\<close>

record es_view =
  documents :: "string \<Rightarrow> wire \<Rightarrow> (int \<times> document option) option"
  aliases :: "string \<Rightarrow> string list"
  existing :: "string \<Rightarrow> bool"

text \<open>Of each document identity: the version, and the document unless it has been deleted.\<close>

definition resolve :: "es_view \<Rightarrow> string \<Rightarrow> string option" where
  "resolve v name = (case aliases v name of [] \<Rightarrow> Some name | [index] \<Rightarrow> Some index | _ \<Rightarrow> None)"

definition put_doc :: "string \<Rightarrow> wire \<Rightarrow> int \<Rightarrow> document option \<Rightarrow> es_view \<Rightarrow> es_view" where
  "put_doc index i n c v = v\<lparr>documents := (documents v)(index := (documents v index)(i \<mapsto> (n, c))),
     existing := (existing v)(index := True)\<rparr>"

fun written_version :: "int option \<Rightarrow> (int \<times> document option) option \<Rightarrow> int option" where
  "written_version (Some m) (Some (n, c)) = (if m < n then None else Some m)"
| "written_version (Some m) None = Some m"
| "written_version None (Some (n, c)) = Some (n + 1)"
| "written_version None None = Some 1"

definition write_doc :: "string \<Rightarrow> wire \<Rightarrow> int option \<Rightarrow> document option \<Rightarrow> es_view \<Rightarrow> es_view \<times> es_reply" where
  "write_doc name i version c v =
     (case resolve v name of
        None \<Rightarrow> (v, EsFailed)
      | Some index \<Rightarrow>
          (case written_version version (documents v index i) of
             None \<Rightarrow> (v, Conflict)
           | Some n \<Rightarrow> (put_doc index i n c v, Acknowledged)))"

fun act_alias :: "alias_action \<Rightarrow> es_view \<Rightarrow> es_view option" where
  "act_alias (AddAlias index name) v =
     (if existing v index \<and> \<not> existing v name
      then Some (v\<lparr>aliases := (aliases v)(name := List.insert index (aliases v name))\<rparr>) else None)"
| "act_alias (RemoveAlias index name must_exist) v =
     (if must_exist \<and> index \<notin> set (aliases v name) then None
      else Some (v\<lparr>aliases := (aliases v)(name := removeAll index (aliases v name))\<rparr>))"

fun act_aliases :: "alias_action list \<Rightarrow> es_view \<Rightarrow> es_view option" where
  "act_aliases [] v = Some v"
| "act_aliases (a # as) v = (case act_alias a v of None \<Rightarrow> None | Some v' \<Rightarrow> act_aliases as v')"

definition drop_index :: "string \<Rightarrow> es_view \<Rightarrow> es_view" where
  "drop_index index v = v\<lparr>documents := (documents v)(index := (\<lambda>_. None)),
     aliases := (\<lambda>a. removeAll index (aliases v a)), existing := (existing v)(index := False)\<rparr>"

text \<open>The items of a bulk are executed one after the other; each may fail.\<close>

fun bulk_answers ::
  "(string \<times> wire \<times> int option \<times> document) list \<Rightarrow> es_view \<Rightarrow> es_view \<Rightarrow> string option list \<Rightarrow> bool" where
  "bulk_answers [] v v' es \<longleftrightarrow> es = [] \<and> v' = v"
| "bulk_answers ((name, i, version, d) # items) v v' es \<longleftrightarrow>
     (case es of
        [] \<Rightarrow> False
      | e # es' \<Rightarrow>
          (case write_doc name i version (Some d) v of
             (v1, Acknowledged) \<Rightarrow> (e = None \<and> bulk_answers items v1 v' es')
               \<or> (e \<noteq> None \<and> e \<noteq> Some ''version_conflict_engine_exception'' \<and> bulk_answers items v v' es')
           | (v1, Conflict) \<Rightarrow> e \<noteq> None \<and> bulk_answers items v v' es'
           | _ \<Rightarrow> e \<noteq> None \<and> e \<noteq> Some ''version_conflict_engine_exception'' \<and> bulk_answers items v v' es'))"

text \<open>What a command does and answers when the engine executes it.\<close>

fun es_effect :: "es_command \<Rightarrow> es_view \<Rightarrow> es_view \<Rightarrow> es_reply \<Rightarrow> bool" where
  "es_effect (IndexDoc name i d version) v v' r \<longleftrightarrow> (v', r) = write_doc name i version (Some d) v"
| "es_effect (DeleteDoc name i version) v v' r \<longleftrightarrow>
     v' = fst (write_doc name i version None v) \<and> (r = snd (write_doc name i version None v) \<or> r = NotFound)"
| "es_effect (Bulk items) v v' r \<longleftrightarrow> (\<exists>es. r = Items es \<and> bulk_answers items v v' es)"
| "es_effect (IndexExists name) v v' r \<longleftrightarrow> v' = v \<and> r = Boolean (existing v name \<or> aliases v name \<noteq> [])"
| "es_effect (CreateIndex index body) v v' r \<longleftrightarrow>
     \<not> existing v index \<and> v' = v\<lparr>existing := (existing v)(index := True)\<rparr> \<and> r = Acknowledged"
| "es_effect (DeleteIndex index) v v' r \<longleftrightarrow> aliases v index = [] \<and> v' = drop_index index v \<and> r = Acknowledged"
| "es_effect (AliasExists name) v v' r \<longleftrightarrow> v' = v \<and> r = Boolean (aliases v name \<noteq> [])"
| "es_effect (GetAlias name) v v' r \<longleftrightarrow> v' = v \<and> r = (if aliases v name = [] then NotFound else Indices (aliases v name))"
| "es_effect (UpdateAliases as) v v' r \<longleftrightarrow> act_aliases as v = Some v' \<and> r = Acknowledged"
| "es_effect c v v' r \<longleftrightarrow> v' = v"

record 's search_engine =
  es_view :: "'s \<Rightarrow> es_view"
  es_exec :: "'s \<Rightarrow> es_command \<Rightarrow> 's \<Rightarrow> es_reply \<Rightarrow> bool"
  es_forget :: "'s \<Rightarrow> 's \<Rightarrow> bool"

text \<open>Versions of deleted documents may be forgotten.\<close>

definition forgot :: "es_view \<Rightarrow> es_view \<Rightarrow> bool" where
  "forgot v v' \<longleftrightarrow> aliases v' = aliases v \<and> existing v' = existing v
     \<and> (\<forall>index i. documents v' index i = documents v index i
          \<or> (\<exists>n. documents v index i = Some (n, None)) \<and> documents v' index i = None)"

definition es_documented :: "'s search_engine \<Rightarrow> bool" where
  "es_documented srv \<longleftrightarrow>
     (\<forall>s c s' r. es_exec srv s c s' r \<longrightarrow>
        (r = EsFailed \<and> (es_view srv s' = es_view srv s \<or> (\<exists>r'. es_effect c (es_view srv s) (es_view srv s') r')))
        \<or> es_effect c (es_view srv s) (es_view srv s') r)
     \<and> (\<forall>s s'. es_forget srv s s' \<longrightarrow> forgot (es_view srv s) (es_view srv s'))"

section \<open>The world\<close>

text \<open>
  The setting: the engine, the name of the read model, how the change log and a \<open>SELECT\<close> show a version of a row,
  and how far the monotonic clock of a process is from the time of the world.
\<close>

record 's search_setting =
  engine_of :: "'s search_engine"
  platform_of :: platform
  logical :: string
  cdc_row :: "string \<Rightarrow> int \<Rightarrow> document"
  sql_row :: "string \<Rightarrow> int \<Rightarrow> document"
  skew :: "nat \<Rightarrow> rat"

record 's search_world =
  engine :: 's
  time :: rat
  table :: "(string \<times> int) list"
  changes :: "(string \<times> int \<times> rat) list"
  target_caches :: "nat \<Rightarrow> (rat \<times> string list) option"
  registered :: "string \<Rightarrow> rat option"
  index_names :: "string set"
  lock :: "nat option"
  sessions :: "nat set"
  dead :: "nat set"

text \<open>The table has the current version of each row; the log the versions with the times of their commits.\<close>

datatype search_activity = Upsert nat string int rat | Removal nat string | Rebuild nat nat

fun process_at :: "search_activity \<Rightarrow> nat" where
  "process_at (Upsert p i v t) = p"
| "process_at (Removal p i) = p"
| "process_at (Rebuild p s) = p"

fun alive :: "'s search_world \<Rightarrow> search_activity \<Rightarrow> bool" where
  "alive w (Rebuild p s) \<longleftrightarrow> s \<notin> dead w"
| "alive w t \<longleftrightarrow> True"

definition view :: "'s search_setting \<Rightarrow> 's search_world \<Rightarrow> es_view" where
  "view c w = es_view (engine_of c) (engine w)"

definition targets :: "'s search_setting \<Rightarrow> 's search_world \<Rightarrow> string set" where
  "targets c w = set (aliases (view c w) (target_alias (logical c)))"

definition with_engine :: "'s search_setting \<Rightarrow> 's \<Rightarrow> 's search_world \<Rightarrow> 's search_world" where
  "with_engine c s' w =
     (let w' = w\<lparr>engine := s'\<rparr>
      in w'\<lparr>registered := (\<lambda>n. if n \<in> targets c w' \<and> n \<notin> targets c w then Some (time w) else registered w n)\<rparr>)"

text \<open>A batch of the keyset scan.\<close>

fun beyond_id :: "platform \<Rightarrow> wire option \<Rightarrow> string \<Rightarrow> bool" where
  "beyond_id pl None i \<longleftrightarrow> True"
| "beyond_id pl (Some (WStr last_id)) i \<longleftrightarrow> pl_collate pl last_id < pl_collate pl i"
| "beyond_id pl (Some _) i \<longleftrightarrow> False"

definition scan_page :: "platform \<Rightarrow> wire option \<Rightarrow> nat \<Rightarrow> (string \<times> int) list \<Rightarrow> (string \<times> int) list" where
  "scan_page pl last_id limit rows =
     take limit (sort_key (\<lambda>(i, v). pl_collate pl i) (filter (\<lambda>(i, v). beyond_id pl last_id i) rows))"

section \<open>Steps\<close>

inductive search_env :: "'s search_setting \<Rightarrow> 's search_world \<Rightarrow> 's search_world \<Rightarrow> bool" for c where
  inserted: "\<lbrakk>i \<noteq> []; i \<notin> fst ` set (changes w)\<rbrakk>
    \<Longrightarrow> search_env c w (w\<lparr>table := table w @ [(i, 0)], changes := changes w @ [(i, 0, time w)]\<rparr>)"
| updated: "(i, v) \<in> set (table w)
    \<Longrightarrow> search_env c w (w\<lparr>table := map (\<lambda>(j, u). (j, if j = i then v + 1 else u)) (table w),
          changes := changes w @ [(i, v + 1, time w)]\<rparr>)"
| deleted: "search_env c w (w\<lparr>table := filter (\<lambda>(j, u). j \<noteq> i) (table w)\<rparr>)"
| passes: "time w \<le> t \<Longrightarrow> search_env c w (w\<lparr>time := t\<rparr>)"
| forgets: "es_forget (engine_of c) (engine w) s' \<Longrightarrow> search_env c w (w\<lparr>engine := s'\<rparr>)"
| restarted: "search_env c w (w\<lparr>target_caches := (target_caches w)(p := None)\<rparr>)"
| killed: "search_env c w (w\<lparr>lock := (if lock w = Some s then None else lock w), dead := insert s (dead w)\<rparr>)"

definition upsert_record :: "'s search_setting \<Rightarrow> string \<Rightarrow> string \<Rightarrow> int \<Rightarrow> wire \<Rightarrow> wire" where
  "upsert_record c op i v before =
     WObj [(''before'', before), (''after'', WObj (cdc_row c i v)), (''op'', WStr op)]"

definition delete_record :: "'s search_setting \<Rightarrow> string \<Rightarrow> int \<Rightarrow> wire" where
  "delete_record c i v = WObj [(''before'', WObj (cdc_row c i v)), (''after'', WNull), (''op'', WStr ''d'')]"

inductive search_start ::
  "'s search_setting \<Rightarrow> 's search_world \<Rightarrow> search_activity \<Rightarrow> unit search_task \<Rightarrow> bool" for c where
  upsert: "\<lbrakk>(i, v, t) \<in> set (changes w); map_of topics topic = Some (logical c); op \<in> {''c'', ''u'', ''r''}\<rbrakk>
    \<Longrightarrow> search_start c w (Upsert p i v t)
      (process_record (platform_of c) cached topics topic key (upsert_record c op i v before))"
| removal: "\<lbrakk>i \<in> fst ` set (changes w); i \<notin> fst ` set (table w); map_of topics topic = Some (logical c)\<rbrakk>
    \<Longrightarrow> search_start c w (Removal p i) (process_record (platform_of c) cached topics topic key (delete_record c i v))"
| tombstone: "\<lbrakk>i \<in> fst ` set (changes w); i \<notin> fst ` set (table w); map_of topics topic = Some (logical c)\<rbrakk>
    \<Longrightarrow> search_start c w (Removal p i)
      (process_record (platform_of c) cached topics topic (WObj [(''id'', WStr i)]) WNull)"
| rebuild: "grace_accepted grace
    \<Longrightarrow> search_start c w (Rebuild p s) (reindex_job (platform_of c) [(logical c, body)] keep_old grace rounds)"

inductive search_exec ::
  "'s search_setting \<Rightarrow> 's search_world \<Rightarrow> search_activity \<Rightarrow> search_op \<Rightarrow> 's search_world \<Rightarrow> search_reply \<Rightarrow> bool"
  for c where
  command: "\<lbrakk>alive w t; es_exec (engine_of c) (engine w) q s' r\<rbrakk>
    \<Longrightarrow> search_exec c w t (Es q) (with_engine c s' w) (Outcome r)"
| command_cancelled: "\<lbrakk>alive w t; es_exec (engine_of c) (engine w) q s' r\<rbrakk>
    \<Longrightarrow> search_exec c w t (Es q) (with_engine c s' w) Cancelled"
| cancelled: "alive w t \<Longrightarrow> search_exec c w t q w Cancelled"
| clock: "alive w t \<Longrightarrow> search_exec c w t MonotonicClock w (At (time w + skew c (process_at t)))"
| cached: "\<lbrakk>alive w t; name = logical c\<rbrakk>
    \<Longrightarrow> search_exec c w t (CachedTargets name) w (Known (target_caches w (process_at t)))"
| caches: "\<lbrakk>alive w t; name = logical c\<rbrakk> \<Longrightarrow> search_exec c w t (CacheTargets name until names)
    (w\<lparr>target_caches := (target_caches w)(process_at t \<mapsto> (until, names))\<rparr>) Continue"
| drops: "\<lbrakk>alive w t; name = logical c\<rbrakk> \<Longrightarrow> search_exec c w t (DropTargets name)
    (w\<lparr>target_caches := (target_caches w)(process_at t := None)\<rparr>) Continue"
| scheduled: "\<lbrakk>alive w t; distinct is; set is = {0..<n}\<rbrakk> \<Longrightarrow> search_exec c w t (Schedule n) w (Order is)"
| evicted: "alive w t \<Longrightarrow> search_exec c w t (EvictCached entity i) w Continue"
| selected: "alive w t \<Longrightarrow> search_exec c w t (SelectRows last_id limit) w
    (Rows (map (\<lambda>(i, v). sql_row c i v) (scan_page (platform_of c) last_id limit (table w))))"
| database_down: "alive w t \<Longrightarrow> search_exec c w t (SelectRows last_id limit) w DatabaseDown"
| stamped: "\<lbrakk>alive w t; n = logical c @ ''-'' @ stamp; n \<notin> index_names w\<rbrakk>
    \<Longrightarrow> search_exec c w t IndexStamp (w\<lparr>index_names := insert n (index_names w)\<rparr>) (Stamp stamp)"
| deadline: "alive w t \<Longrightarrow> search_exec c w t (Deadline d) w (At (time w + d))"
| awake: "\<lbrakk>alive w t; x \<le> time w\<rbrakk> \<Longrightarrow> search_exec c w t (WaitUntil x) w Continue"
| locked: "\<lbrakk>alive w (Rebuild p s); s \<notin> sessions w; lock w = None\<rbrakk>
    \<Longrightarrow> search_exec c w (Rebuild p s) TryAdvisoryLock (w\<lparr>lock := Some s, sessions := insert s (sessions w)\<rparr>) (Lock True)"
| lock_busy: "\<lbrakk>alive w t; lock w \<noteq> None\<rbrakk> \<Longrightarrow> search_exec c w t TryAdvisoryLock w (Lock False)"
| lock_fails: "alive w t \<Longrightarrow> search_exec c w t TryAdvisoryLock w DatabaseDown"
| unlocked: "\<lbrakk>alive w (Rebuild p s); lock w = Some s\<rbrakk>
    \<Longrightarrow> search_exec c w (Rebuild p s) AdvisoryUnlock (w\<lparr>lock := None\<rparr>) r"
| not_owner: "\<lbrakk>alive w (Rebuild p s); lock w \<noteq> Some s\<rbrakk> \<Longrightarrow> search_exec c w (Rebuild p s) AdvisoryUnlock w (Lock False)"

abbreviation search_reachable where
  "search_reachable c \<equiv> reachable (search_env c) (search_start c) (search_exec c)"

text \<open>An empty table, and an alias of an empty index.\<close>

definition search_initial :: "'s search_setting \<Rightarrow> 's search_world \<Rightarrow> bool" where
  "search_initial c w \<longleftrightarrow> table w = [] \<and> changes w = [] \<and> lock w = None
     \<and> (\<forall>p. target_caches w p = None) \<and> (\<forall>n. registered w n = None)
     \<and> (\<forall>index i. documents (view c w) index i = None)
     \<and> (\<exists>first \<in> index_names w. first \<noteq> logical c \<and> first \<noteq> target_alias (logical c) \<and> aliases (view c w) = (\<lambda>a. if a = logical c then [first] else []))"

end
