(* ===== verification/SearchKnowledge.thy ===== *)
theory SearchKnowledge
  imports SearchWorld
begin

text \<open>
  What the tasks around the search index know, and that each of them is correct in terms of it.
  A consumer knows the indexes it has to write to, of which it may miss only those that became
  the target of a rebuild after its change was committed, and those it has written to. A job knows
  that it owns the lock, its new index, and how far its scan is.
\<close>

section \<open>Knowledge\<close>

record search_knowledge =
  asked :: "rat option"
  listed :: "string list option"
  found :: "string list option"
  wrote :: "string set"
  owner :: bool
  fresh_index :: "string option"
  tried :: bool
  is_target :: bool
  due :: "rat option"
  ready :: bool
  batch :: "document list"
  scanned :: "wire option"
  complete :: bool
  reading :: "string list option"

definition nothing_known :: search_knowledge where
  "nothing_known = \<lparr>asked = None, listed = None, found = None, wrote = {}, owner = False, fresh_index = None,
     tried = False, is_target = False, due = None, ready = False, batch = [], scanned = None, complete = False,
     reading = None\<rparr>"

abbreviation target_name :: "'s search_setting \<Rightarrow> string" where
  "target_name c \<equiv> target_alias (logical c)"

definition accepted :: "string option list \<Rightarrow> bool" where
  "accepted es \<longleftrightarrow> list_all (\<lambda>e. e = None \<or> e = Some ''version_conflict_engine_exception'') es"

definition last_id_of :: "document list \<Rightarrow> wire option" where
  "last_id_of rows = Some (dget (last (map row_to_dict rows)) ''id'')"

text \<open>The aliases of the read model, or the targets of a rebuild, have been read.\<close>

definition know_alias :: "'s search_setting \<Rightarrow> string \<Rightarrow> string list \<Rightarrow> search_knowledge \<Rightarrow> search_knowledge" where
  "know_alias c a names k =
     (if a = logical c then k\<lparr>reading := Some names\<rparr>
      else if a = target_name c
      then k\<lparr>listed := Some (unique_names (logical c # names)), found := Some (unique_names (logical c # names)), wrote := {}\<rparr>
      else k)"

definition know_update :: "'s search_setting \<Rightarrow> alias_action list \<Rightarrow> bool \<Rightarrow> search_knowledge \<Rightarrow> search_knowledge" where
  "know_update c as ok k =
     (case last as of
        AddAlias n a \<Rightarrow>
          (if a = logical c then k\<lparr>reading := (if ok then Some [n] else None)\<rparr>
           else k\<lparr>tried := True, is_target := ok, due := None, ready := False, batch := [], scanned := None, complete := False\<rparr>)
      | RemoveAlias n a m \<Rightarrow> k\<lparr>is_target := False\<rparr>)"

definition learn_command :: "'s search_setting \<Rightarrow> search_knowledge \<Rightarrow> es_command \<Rightarrow> search_reply \<Rightarrow> search_knowledge" where
  "learn_command c k q r =
     (case q of
        GetAlias a \<Rightarrow> (case r of Outcome (Indices names) \<Rightarrow> know_alias c a names k | _ \<Rightarrow> k)
      | AliasExists a \<Rightarrow> (if r = Outcome (Boolean False) then know_alias c a [] k else k)
      | IndexDoc name i d version \<Rightarrow>
          (if r = Outcome Acknowledged \<or> r = Outcome Conflict then k\<lparr>wrote := insert name (wrote k)\<rparr> else k)
      | UpdateAliases as \<Rightarrow> know_update c as (r = Outcome Acknowledged) k
      | Bulk items \<Rightarrow>
          (case r of
             Outcome (Items es) \<Rightarrow> (if accepted es then k\<lparr>scanned := last_id_of (batch k), batch := []\<rparr> else k)
           | _ \<Rightarrow> k)
      | DeleteIndex index \<Rightarrow> k\<lparr>is_target := False\<rparr>
      | _ \<Rightarrow> k)"

definition know_cached :: "(rat \<times> string list) option \<Rightarrow> search_knowledge \<Rightarrow> search_knowledge" where
  "know_cached entry k =
     (case (entry, asked k) of
        (Some (until, names), Some x) \<Rightarrow> (if x < until then k\<lparr>found := Some names, wrote := {}\<rparr> else k)
      | _ \<Rightarrow> k)"

definition search_learn ::
  "'s search_setting \<Rightarrow> search_activity \<Rightarrow> search_knowledge \<Rightarrow> search_op \<Rightarrow> search_reply \<Rightarrow> search_knowledge" where
  "search_learn c t k q r =
     (case q of
        Es command \<Rightarrow> learn_command c k command r
      | MonotonicClock \<Rightarrow> (case r of At x \<Rightarrow> k\<lparr>asked := Some x, listed := None\<rparr> | _ \<Rightarrow> k)
      | CachedTargets name \<Rightarrow> (case r of Known entry \<Rightarrow> know_cached entry k | _ \<Rightarrow> k)
      | TryAdvisoryLock \<Rightarrow> (if r = Lock True then nothing_known\<lparr>owner := True\<rparr> else k)
      | AdvisoryUnlock \<Rightarrow> k\<lparr>owner := False\<rparr>
      | IndexStamp \<Rightarrow>
          (case r of
             Stamp s \<Rightarrow> k\<lparr>fresh_index := Some (logical c @ ''-'' @ s), tried := False, is_target := False\<rparr>
           | _ \<Rightarrow> k)
      | Deadline d \<Rightarrow> (case r of At x \<Rightarrow> k\<lparr>due := (if 1 \<le> d then Some x else None)\<rparr> | _ \<Rightarrow> k)
      | WaitUntil x \<Rightarrow> (if r = Continue then k\<lparr>ready := ready k \<or> due k = Some x\<rparr> else k)
      | SelectRows last_id limit \<Rightarrow>
          (case r of Rows rows \<Rightarrow> k\<lparr>batch := rows, complete := complete k \<or> rows = []\<rparr> | _ \<Rightarrow> k)
      | _ \<Rightarrow> k)"

text \<open>What a task may do, given what it knows.\<close>

definition renders :: "'s search_setting \<Rightarrow> string \<Rightarrow> int \<Rightarrow> document \<Rightarrow> bool" where
  "renders c i v d \<longleftrightarrow> transform (platform_of c) (logical c) (cdc_row c i v) = Inr d
     \<or> transform (platform_of c) (logical c) (row_to_dict (sql_row c i v)) = Inr d"

definition update_allowed :: "'s search_setting \<Rightarrow> search_knowledge \<Rightarrow> alias_action list \<Rightarrow> bool" where
  "update_allowed c k as \<longleftrightarrow> (\<exists>n. fresh_index k = Some n
     \<and> ((\<exists>olds. as = map (\<lambda>old. RemoveAlias old (target_name c) False) olds @ [AddAlias n (target_name c)] \<and> \<not> tried k)
        \<or> (\<exists>olds. as = map (\<lambda>old. RemoveAlias old (logical c) False) olds @ [AddAlias n (logical c)]
             \<and> reading k = Some olds \<and> is_target k \<and> complete k)
        \<or> as = [RemoveAlias n (target_name c) True]))"

definition rebuild_command :: "'s search_setting \<Rightarrow> search_knowledge \<Rightarrow> es_command \<Rightarrow> bool" where
  "rebuild_command c k q \<longleftrightarrow>
     (case q of
        UpdateAliases as \<Rightarrow> update_allowed c k as
      | DeleteIndex index \<Rightarrow> (\<exists>names. reading k = Some names \<and> index \<notin> set names)
      | Bulk items \<Rightarrow> is_target k \<and> ready k \<and> batch k \<noteq> []
          \<and> (\<exists>n ds. fresh_index k = Some n \<and> items = bulk_items n ds
               \<and> transform_all (platform_of c) (logical c) (map row_to_dict (batch k)) = Inr ds)
      | IndexDoc name i d version \<Rightarrow> False
      | DeleteDoc name i version \<Rightarrow> False
      | _ \<Rightarrow> True)"

definition rebuild_allowed :: "'s search_setting \<Rightarrow> search_knowledge \<Rightarrow> search_op \<Rightarrow> bool" where
  "rebuild_allowed c k q \<longleftrightarrow>
     (case q of
        Es command \<Rightarrow> rebuild_command c k command
      | SelectRows last_id limit \<Rightarrow> is_target k \<and> ready k \<and> last_id = scanned k \<and> 0 < limit
      | DropTargets name \<Rightarrow> True
      | IndexStamp \<Rightarrow> True
      | Deadline d \<Rightarrow> True
      | WaitUntil x \<Rightarrow> True
      | AdvisoryUnlock \<Rightarrow> True
      | _ \<Rightarrow> False)"

text \<open>What an upsert and a removal may do besides their writes.\<close>

definition consumer_allowed :: "'s search_setting \<Rightarrow> search_knowledge \<Rightarrow> search_op \<Rightarrow> bool" where
  "consumer_allowed c k q \<longleftrightarrow>
     (case q of
        CacheTargets name until names \<Rightarrow>
          (\<exists>x. asked k = Some x \<and> until = x + target_cache_seconds \<and> listed k = Some names)
      | CachedTargets name \<Rightarrow> asked k \<noteq> None
      | Es (AliasExists a) \<Rightarrow> a = target_name c \<and> asked k \<noteq> None
      | Es (GetAlias a) \<Rightarrow> a = target_name c \<and> asked k \<noteq> None
      | MonotonicClock \<Rightarrow> True
      | Schedule n \<Rightarrow> True
      | EvictCached entity i \<Rightarrow> True
      | _ \<Rightarrow> False)"

definition upsert_allowed :: "'s search_setting \<Rightarrow> string \<Rightarrow> int \<Rightarrow> search_knowledge \<Rightarrow> search_op \<Rightarrow> bool" where
  "upsert_allowed c i v k q \<longleftrightarrow>
     (case q of
        Es (IndexDoc name j d version) \<Rightarrow>
          j = WStr i \<and> version = Some (v + 1) \<and> renders c i v d \<and> (\<exists>names. found k = Some names \<and> name \<in> set names)
      | _ \<Rightarrow> consumer_allowed c k q)"

definition removal_allowed :: "'s search_setting \<Rightarrow> string \<Rightarrow> search_knowledge \<Rightarrow> search_op \<Rightarrow> bool" where
  "removal_allowed c i k q \<longleftrightarrow>
     (case q of
        Es (DeleteDoc name j version) \<Rightarrow> j = WStr i
      | _ \<Rightarrow> consumer_allowed c k q)"

fun search_allowed :: "'s search_setting \<Rightarrow> search_activity \<Rightarrow> search_knowledge \<Rightarrow> search_op \<Rightarrow> bool" where
  "search_allowed c (Upsert p i v t) k q \<longleftrightarrow> upsert_allowed c i v k q"
| "search_allowed c (Removal p i) k q \<longleftrightarrow> removal_allowed c i k q"
| "search_allowed c (Rebuild p s) k q \<longleftrightarrow> (if owner k then rebuild_allowed c k q else q = TryAdvisoryLock)"

definition search_possible :: "search_activity \<Rightarrow> search_knowledge \<Rightarrow> search_op \<Rightarrow> search_reply \<Rightarrow> bool" where
  "search_possible t k q r \<longleftrightarrow>
     (case q of
        Schedule n \<Rightarrow> (\<forall>is. r = Order is \<longrightarrow> distinct is \<and> set is = {0..<n})
      | Es (IndexDoc name i d version) \<Rightarrow> (\<forall>x. r = Outcome x \<longrightarrow> x = EsFailed \<or> x = Acknowledged \<or> x = Conflict)
      | Es (UpdateAliases as) \<Rightarrow> (\<forall>x. r = Outcome x \<longrightarrow> x = EsFailed \<or> x = Acknowledged)
      | _ \<Rightarrow> True)"

text \<open>A consumer that returns has written its change to all indexes it found.\<close>

fun search_post :: "search_activity \<Rightarrow> search_knowledge \<Rightarrow> search_exn + unit \<Rightarrow> bool" where
  "search_post (Upsert p i v t) k (Inr x) \<longleftrightarrow> (\<exists>names. found k = Some names \<and> set names \<subseteq> wrote k)"
| "search_post t k x \<longleftrightarrow> True"

section \<open>Rules\<close>

abbreviation wps ::
  "'s search_setting \<Rightarrow> search_activity \<Rightarrow> 'a search_task \<Rightarrow> (search_knowledge \<Rightarrow> search_exn + 'a \<Rightarrow> bool)
     \<Rightarrow> search_knowledge \<Rightarrow> bool" where
  "wps c t \<equiv> wp (search_allowed c t) (search_possible t) (search_learn c t)"

lemma wps_then: "wps c t (and_then p f) Q k = wps c t p (\<lambda>k' x. case x of Inl e \<Rightarrow> Q k' (Inl e) | Inr y \<Rightarrow> wps c t (f y) Q k') k"
  unfolding and_then_def wp_bind by (intro arg_cong [where f = "\<lambda>Q. wps c t p Q k"]) (auto split: sum.split)

lemma wps_es_call:
  assumes "search_allowed c t k (Es q)" "\<And>r x. Q (learn_command c k q r) (Inl x)"
    and "\<And>x. \<lbrakk>x \<noteq> EsFailed; search_possible t k (Es q) (Outcome x)\<rbrakk> \<Longrightarrow> Q (learn_command c k q (Outcome x)) (Inr x)"
  shows "wps c t (es_call operation q) Q k"
  using assms by (auto simp: es_call_def search_learn_def split: search_reply.split es_reply.split)

end
