(* ===== verification/SearchTasks.thy ===== *)
theory SearchTasks
  imports SearchKnowledge
begin

text \<open>Each task around the search index is correct in terms of its knowledge.\<close>

declare search_allowed.simps [simp del]

lemmas consumer_defs = consumer_allowed_def upsert_allowed_def removal_allowed_def
lemmas learn_defs = search_learn_def learn_command_def know_cached_def know_alias_def

lemma learn_simps:
  "search_learn c t k (SelectRows a l) r = (case r of Rows rows \<Rightarrow> k\<lparr>batch := rows, complete := complete k \<or> rows = []\<rparr> | _ \<Rightarrow> k)"
  "search_learn c t k (Deadline d) r = (case r of At x \<Rightarrow> k\<lparr>due := (if 1 \<le> d then Some x else None)\<rparr> | _ \<Rightarrow> k)"
  "search_learn c t k (WaitUntil y) r = (if r = Continue then k\<lparr>ready := ready k \<or> due k = Some y\<rparr> else k)"
  "search_learn c t k (DropTargets name) r = k" "search_learn c t k (EvictCached name i) r = k"
  "search_learn c t k (Es q) r = learn_command c k q r"
  by (simp_all add: search_learn_def)

section \<open>Consumers\<close>

fun consumer :: "search_activity \<Rightarrow> bool" where
  "consumer (Rebuild p s) \<longleftrightarrow> False"
| "consumer t \<longleftrightarrow> True"

lemma consumer_may: "\<lbrakk>consumer t; consumer_allowed c k q\<rbrakk> \<Longrightarrow> search_allowed c t k q"
  by (cases t) (auto simp: consumer_defs search_allowed.simps split: search_op.splits es_command.splits)

lemma target_not_logical: "target_name c \<noteq> logical c"
  by (simp add: target_alias_def)

lemma wps_discover:
  assumes "consumer t" "asked k = Some x" "\<And>k' e. Q k' (Inl e)"
    and "\<And>k' names. found k' = Some names \<Longrightarrow> wrote k' = {} \<Longrightarrow> Q k' (Inr names)"
  shows "wps c t (discover_targets (logical c) x) Q k"
proof -
  have step: "wps c t (let names' = unique_names (logical c # names)
      in Await (CacheTargets (logical c) (x + target_cache_seconds) names') (\<lambda>_. Ret (Inr names'))) Q
      (know_alias c (target_name c) names k)" for names
    using assms target_not_logical [of c] by (auto simp: Let_def know_alias_def search_learn_def consumer_defs intro!: consumer_may)
  show ?thesis unfolding discover_targets_def get_alias_indices_def wps_then
    apply (rule wps_es_call)
    subgoal using assms by (auto simp: consumer_defs intro!: consumer_may)
    subgoal using assms(3) by simp
    subgoal for r
      using step [of "[]"] step assms(1-3)
      by (auto simp: wps_then learn_defs consumer_defs split: es_reply.splits bool.splits intro!: wps_es_call consumer_may)
    done
qed

lemma wps_write_targets:
  assumes "consumer t" "\<And>k' e. Q k' (Inl e)"
    and "\<And>k' names. found k' = Some names \<Longrightarrow> wrote k' = {} \<Longrightarrow> Q k' (Inr names)"
  shows "wps c t (get_read_model_write_targets (logical c)) Q k"
  using assms by (auto simp: get_read_model_write_targets_def learn_defs consumer_defs
      split: search_reply.splits option.splits intro!: consumer_may wps_discover)

lemma wps_es_index:
  assumes "search_allowed c t k (Es (IndexDoc name i d version))"
    and "\<And>r e. Q (learn_command c k (IndexDoc name i d version) r) (Inl e)" "Q (k\<lparr>wrote := insert name (wrote k)\<rparr>) (Inr True)"
  shows "wps c t (es_index name i d version) Q k"
  unfolding es_index_def wps_then using assms
  by (intro wps_es_call) (auto simp: search_possible_def learn_command_def)

text \<open>Writing to all targets: what has been written are the targets that are not left.\<close>

lemma wps_gather_index:
  assumes "renders c i v d" "found k = Some names" "set is \<subseteq> {0..<length names}"
    and "err = None \<longrightarrow> {names ! j | j. j < length names \<and> j \<notin> set is} \<subseteq> wrote k"
    and "\<And>k' e. Q k' (Inl e)" "\<And>k'. found k' = Some names \<Longrightarrow> set names \<subseteq> wrote k' \<Longrightarrow> Q k' (Inr ())"
  shows "wps c (Upsert p i v t) (gather_in is (map (\<lambda>target. es_index target (WStr i) d (Some (v + 1))) names) err) Q k"
  using assms(2-4)
proof (induction "is" arbitrary: k err)
  case Nil
  have "set names \<subseteq> {names ! j | j. j < length names}" by (auto simp: in_set_conv_nth)
  with Nil assms(5,6) show ?case by (auto split: option.splits)
next
  case (Cons j js)
  then have j: "j < length names" and js: "set js \<subseteq> {0..<length names}" by auto
  have err: "wps c (Upsert p i v t) (gather_in js (map (\<lambda>target. es_index target (WStr i) d (Some (v + 1))) names) (Some e)) Q k'"
    if "found k' = Some names" for k' e
    by (rule Cons.IH [OF that js]) simp
  have ok: "wps c (Upsert p i v t) (gather_in js (map (\<lambda>target. es_index target (WStr i) d (Some (v + 1))) names) err) Q
      (k\<lparr>wrote := insert (names ! j) (wrote k)\<rparr>)"
    using Cons.prems js by (intro Cons.IH) auto
  have allowed: "search_allowed c (Upsert p i v t) k (Es (IndexDoc (names ! j) (WStr i) d (Some (v + 1))))"
    using assms(1) Cons.prems(1) j by (simp add: upsert_allowed_def search_allowed.simps)
  have keeps: "found (learn_command c k (IndexDoc (names ! j) (WStr i) d (Some (v + 1))) r) = Some names" for r
    using Cons.prems(1) by (simp add: learn_command_def)
  show ?case unfolding gather_in.simps wp_bind nth_map [OF j]
    by (cases err; rule wps_es_index [OF allowed]) (use ok err keeps in simp_all)
qed

lemma wps_gather:
  assumes "\<And>k' e. Q k' (Inl e)" "\<And>is. \<lbrakk>distinct is; set is = {0..<length ps}\<rbrakk> \<Longrightarrow> wps c t (gather_in is ps None) Q k"
    and "consumer t"
  shows "wps c t (gather ps) Q k"
  using assms by (auto simp: gather_def search_learn_def search_possible_def consumer_defs split: search_reply.split intro!: consumer_may)

lemma wps_invalidate:
  assumes "consumer t" "\<And>e. Q k (Inl e)" "Q k (Inr ())"
  shows "wps c t (invalidate_cache pl cached index i) Q k"
  using assms by (auto simp: invalidate_cache_def search_learn_def consumer_defs intro!: consumer_may)

lemma dget_or_WInt: "dget d k = WInt v \<Longrightarrow> dget_or d k w = WInt v"
  by (auto simp: dget_def dget_or_def split: option.splits)

lemma dget_Cons: "dget ((k', w) # d) k = (if k = k' then w else dget d k)"
  by (simp add: dget_def)

lemma transform_book_keeps: "transform_book d = Inr d' \<Longrightarrow> dget d' ''id'' = dget d ''id'' \<and> dget d' ''version'' = dget_or d ''version'' (WInt 0)"
  unfolding transform_book_def Let_def by (elim rbindE) (hypsubst | simp add: dget_Cons | drule Inr_inject)+

lemma transform_patron_keeps: "transform_patron pl d = Inr d' \<Longrightarrow> dget d' ''id'' = dget d ''id'' \<and> dget d' ''version'' = dget_or d ''version'' (WInt 0)"
  unfolding transform_patron_def Let_def by (elim rbindE) (hypsubst | simp add: dget_Cons | drule Inr_inject)+

lemma transform_loan_keeps: "transform_loan d = Inr d' \<Longrightarrow> dget d' ''id'' = dget d ''id'' \<and> dget d' ''version'' = dget_or d ''version'' (WInt 0)"
  unfolding transform_loan_def Let_def by (elim rbindE) (hypsubst | simp add: dget_Cons | drule Inr_inject)+

lemma transform_keeps:
  assumes "transform pl index d = Inr d'"
  shows "dget d' ''id'' = dget d ''id''" "dget d ''version'' = WInt v \<Longrightarrow> dget d' ''version'' = WInt v"
  using assms transform_book_keeps transform_patron_keeps transform_loan_keeps dget_or_WInt
  by (auto simp: transform_def split: if_splits)

definition row_ok :: "document \<Rightarrow> string \<Rightarrow> int \<Rightarrow> bool" where
  "row_ok d i v \<longleftrightarrow> dget d ''id'' = WStr i \<and> dget d ''version'' = WInt v"

lemma transform_row:
  assumes "transform pl index d = Inr d'" "row_ok d i v" "0 \<le> v"
  shows "dget d' ''id'' = WStr i" "document_external_version d' = Some (v + 1)"
  using transform_keeps [OF assms(1)] assms(2,3) by (simp_all add: row_ok_def document_external_version_def)

text \<open>What the setting has to be.\<close>

definition search_setting_ok :: "'s search_setting \<Rightarrow> bool" where
  "search_setting_ok c \<longleftrightarrow> es_documented (engine_of c) \<and> inj (pl_collate (platform_of c)) \<and> logical c \<noteq> []
     \<and> (\<forall>i v. row_ok (cdc_row c i v) i v \<and> row_ok (row_to_dict (sql_row c i v)) i v)"

lemma upsert_correct:
  assumes "search_setting_ok c" "map_of topics topic = Some (logical c)" "op \<in> {''c'', ''u'', ''r''}" "i \<noteq> []" "0 \<le> v"
  shows "wps c (Upsert p i v t) (process_record (platform_of c) cached topics topic key (upsert_record c op i v before))
    (search_post (Upsert p i v t)) k"
proof -
  let ?d = "cdc_row c i v"
  have d: "row_ok ?d i v" "logical c \<noteq> []" using assms(1) by (simp_all add: search_setting_ok_def)
  then have i: "dget ?d ''id'' = WStr i" "?d \<noteq> []" by (auto simp: row_ok_def dget_def)
  have run: "wps c (Upsert p i v t) (and_then (index_read_model (logical c) (WStr i) doc)
      (\<lambda>_. invalidate_cache (platform_of c) cached (logical c) (WStr i))) (search_post (Upsert p i v t)) k"
    if doc: "transform (platform_of c) (logical c) ?d = Inr doc" for doc
  proof -
    have v: "document_external_version doc = Some (v + 1)" by (rule transform_row [OF doc d(1) assms(5)])
    have "renders c i v doc" using doc by (simp add: renders_def)
    then show ?thesis unfolding index_read_model_def wps_then v
      by (intro wps_write_targets) (auto intro!: wps_gather wps_gather_index wps_invalidate)
  qed
  show ?thesis
    using assms(2-4) d i run by (auto simp: process_record_def upsert_record_def process_upsert_def dget_def split: sum.split)
qed

lemma wps_gather_delete:
  assumes "\<And>k x. Q k x" "set is \<subseteq> {0..<length names}"
  shows "wps c (Removal p i) (gather_in is (map (\<lambda>target. es_delete target (WStr i) version) names) err) Q k"
  using assms(2)
proof (induction "is" arbitrary: k err)
  case (Cons j js)
  then have j: "j < length names" by simp
  have "search_allowed c (Removal p i) k (Es (DeleteDoc (names ! j) (WStr i) version))"
    by (simp add: search_allowed.simps removal_allowed_def)
  with Cons show ?case unfolding gather_in.simps wp_bind nth_map [OF j] es_delete_def wps_then
    by (intro wps_es_call) auto
qed (simp add: assms(1))

lemma remove_correct:
  "wps c (Removal p i) (remove_document pl cached (logical c) (WStr i) source) (search_post (Removal p i)) k"
  unfolding remove_document_def delete_read_model_def wps_then
  by (intro wps_write_targets) (auto intro!: wps_gather wps_gather_delete wps_invalidate split: sum.split)

lemma removal_correct:
  assumes "search_setting_ok c" "map_of topics topic = Some (logical c)"
  shows "wps c (Removal p i) (process_record (platform_of c) cached topics topic key (delete_record c i v))
      (search_post (Removal p i)) k"
    "wps c (Removal p i) (process_record (platform_of c) cached topics topic (WObj [(''id'', WStr i)]) WNull)
      (search_post (Removal p i)) k"
proof -
  let ?d = "cdc_row c i v"
  have d: "dget ?d ''id'' = WStr i" "logical c \<noteq> []" using assms(1) by (simp_all add: search_setting_ok_def row_ok_def)
  then have i: "\<exists>x. map_of ?d ''id'' = Some x" "?d \<noteq> []" by (auto simp: dget_def split: option.splits)
  show "wps c (Removal p i) (process_record (platform_of c) cached topics topic key (delete_record c i v))
      (search_post (Removal p i)) k"
    using assms(2) d i remove_correct [of c p i _ cached "Some ?d"]
    by (auto simp: process_record_def delete_record_def process_delete_def true_with_id_def dget_def [of "[_, _, _]"] dget_def [of "[_, _]"])
  show "wps c (Removal p i) (process_record (platform_of c) cached topics topic (WObj [(''id'', WStr i)]) WNull)
      (search_post (Removal p i)) k"
    using assms(2) d remove_correct [of c p i _ cached None]
    by (auto simp: process_record_def process_tombstone_def true_with_id_def dget_def)
qed

section \<open>Rebuild jobs\<close>

definition works_on :: "string \<Rightarrow> search_knowledge \<Rightarrow> bool" where
  "works_on n k \<longleftrightarrow> owner k \<and> fresh_index k = Some n"

lemma owner_may: "\<lbrakk>owner k; rebuild_allowed c k q\<rbrakk> \<Longrightarrow> search_allowed c (Rebuild p s) k q"
  by (simp add: search_allowed.simps)

lemma know_alias_keeps [simp]:
  "owner (know_alias c a names k) = owner k" "fresh_index (know_alias c a names k) = fresh_index k"
  "tried (know_alias c a names k) = tried k" "is_target (know_alias c a names k) = is_target k"
  "complete (know_alias c a names k) = complete k"
  "reading (know_alias c (logical c) names k) = Some names"
  by (simp_all add: know_alias_def)

lemma wps_get_alias:
  assumes "owner k" "\<And>k' e. owner k' \<Longrightarrow> fresh_index k' = fresh_index k \<Longrightarrow> Q k' (Inl e)"
    and "\<And>names. Q (know_alias c a names k) (Inr names)"
  shows "wps c (Rebuild p s) (get_alias_indices a) Q k"
proof -
  have get: "wps c (Rebuild p s) (es_call ''get_alias_indices'' (GetAlias a)) (\<lambda>k' x. case x of Inl e \<Rightarrow> Q k' (Inl e)
      | Inr y \<Rightarrow> wps c (Rebuild p s) (case y of Indices names \<Rightarrow> Ret (Inr names)
          | _ \<Rightarrow> Ret (Inl (SearchEngineException ''get_alias_indices''))) Q k') k"
    using assms by (intro wps_es_call) (auto simp: learn_command_def rebuild_allowed_def rebuild_command_def
        intro!: owner_may split: es_reply.split search_reply.split)
  show ?thesis unfolding get_alias_indices_def wps_then
    using assms get by (intro wps_es_call) (auto simp: learn_command_def rebuild_allowed_def rebuild_command_def wps_then
        intro!: owner_may split: es_reply.split)
qed

lemma wps_create:
  assumes "owner k" "\<And>x. Q k x"
  shows "wps c (Rebuild p s) (create_index index body) Q k"
  using assms by (auto simp: create_index_def wps_then learn_command_def rebuild_allowed_def rebuild_command_def
      intro!: wps_es_call owner_may)

lemma wps_refresh:
  assumes "owner k" "\<And>x. Q k x"
  shows "wps c (Rebuild p s) (es_refresh index) Q k"
  using assms by (auto simp: es_refresh_def wps_then learn_command_def rebuild_allowed_def rebuild_command_def
      intro!: wps_es_call owner_may)

lemma wps_delete_index:
  assumes "owner k" "reading k = Some names" "index \<notin> set names" "\<And>x. Q k x" "\<And>x. Q (k\<lparr>is_target := False\<rparr>) x"
  shows "wps c (Rebuild p s) (delete_index index) Q k"
  using assms by (auto simp: delete_index_def wps_then learn_command_def rebuild_allowed_def rebuild_command_def
      intro!: wps_es_call owner_may)

lemma wps_set_target:
  assumes "works_on n k" "\<not> tried k" "\<And>k' e. works_on n k' \<Longrightarrow> Q k' (Inl e)"
    and "\<And>k'. works_on n k' \<Longrightarrow> is_target k' \<Longrightarrow> scanned k' = None \<Longrightarrow> Q k' (Inr ())"
  shows "wps c (Rebuild p s) (set_reindex_target (logical c) n) Q k"
  unfolding set_reindex_target_def wps_then
proof (rule wps_get_alias, goal_cases)
  case (3 olds)
  let ?k = "know_alias c (target_name c) olds k"
  have a: "search_allowed c (Rebuild p s) ?k (Es (UpdateAliases (map (\<lambda>old. RemoveAlias old (target_name c) False) olds
      @ [AddAlias n (target_name c)])))"
    using assms(1,2) by (intro owner_may) (auto simp: works_on_def rebuild_allowed_def rebuild_command_def update_allowed_def)
  show ?case using assms a
    by (auto simp: wps_then learn_command_def know_update_def works_on_def rebuild_allowed_def search_possible_def learn_simps
        target_alias_def intro!: wps_es_call owner_may)
qed (use assms in \<open>auto simp: works_on_def\<close>)

lemma wps_pause:
  assumes "works_on n k" "1 \<le> grace" "\<And>k' e. works_on n k' \<Longrightarrow> Q k' (Inl e)"
    and "\<And>k'. works_on n k' \<Longrightarrow> is_target k' = is_target k \<Longrightarrow> scanned k' = scanned k \<Longrightarrow> ready k' \<Longrightarrow> Q k' (Inr ())"
  shows "wps c (Rebuild p s) (pause grace) Q k"
  using assms by (auto simp: pause_def learn_simps works_on_def rebuild_allowed_def split: search_reply.split intro!: owner_may)

lemma wps_swap:
  assumes "works_on n k" "is_target k" "complete k" "\<And>k' e. works_on n k' \<Longrightarrow> Q k' (Inl e)"
    and "\<And>k'. works_on n k' \<Longrightarrow> reading k' = Some [n] \<Longrightarrow> Q k' (Inr True)"
  shows "wps c (Rebuild p s) (swap_alias (logical c) n) Q k"
  unfolding swap_alias_def wps_then
proof (rule wps_get_alias, goal_cases)
  case (3 olds)
  let ?k = "know_alias c (logical c) olds k"
  have a: "search_allowed c (Rebuild p s) ?k (Es (UpdateAliases (map (\<lambda>old. RemoveAlias old (logical c) False) olds
      @ [AddAlias n (logical c)])))"
    using assms(1-3) by (intro owner_may) (auto simp: works_on_def rebuild_allowed_def rebuild_command_def update_allowed_def)
  show ?case using assms a
    by (auto simp: wps_then learn_command_def know_update_def works_on_def search_possible_def intro!: wps_es_call)
qed (use assms in \<open>auto simp: works_on_def\<close>)

lemma wps_clear:
  assumes "works_on n k" "\<And>k' x. works_on n k' \<Longrightarrow> reading k' = reading k \<Longrightarrow> Q k' x"
  shows "wps c (Rebuild p s) (clear_reindex_target (logical c) (Some n)) Q k"
proof -
  have a: "search_allowed c (Rebuild p s) k (Es (UpdateAliases [RemoveAlias n (target_name c) True]))"
    using assms(1) by (intro owner_may) (auto simp: works_on_def rebuild_allowed_def rebuild_command_def update_allowed_def)
  then show ?thesis using assms
    by (auto simp: clear_reindex_target_def wps_then learn_command_def know_update_def works_on_def learn_simps
        rebuild_allowed_def intro!: wps_es_call owner_may)
qed

text \<open>A bulk without errors has been accepted item by item.\<close>

lemma bulk_accepted:
  "int (length (filter (\<lambda>e. e \<noteq> None \<and> e \<noteq> Some ''version_conflict_engine_exception'') es))
     + (int (length ds) - int (length (bulk_items n ds))) = 0 \<longleftrightarrow> accepted es \<and> length (bulk_items n ds) = length ds"
proof -
  have "length (bulk_items n ds) \<le> length ds" by (simp add: bulk_items_def)
  moreover have "accepted es \<longleftrightarrow> length (filter (\<lambda>e. e \<noteq> None \<and> e \<noteq> Some ''version_conflict_engine_exception'') es) = 0"
    by (auto simp: accepted_def filter_empty_conv list_all_iff)
  ultimately show ?thesis by linarith
qed

lemma wps_bulk:
  assumes "works_on n k" "is_target k" "ready k" "batch k \<noteq> []"
    and "transform_all (platform_of c) (logical c) (map row_to_dict (batch k)) = Inr ds"
    and "\<And>k' e. works_on n k' \<Longrightarrow> Q k' (Inl e)" "\<And>k' x. works_on n k' \<Longrightarrow> snd x \<noteq> 0 \<Longrightarrow> Q k' (Inr x)"
    and "\<And>x. Q (k\<lparr>scanned := last_id_of (batch k), batch := []\<rparr>) (Inr x)"
  shows "wps c (Rebuild p s) (bulk_index n ds) Q k"
proof (cases "bulk_items n ds = []")
  case True
  have "ds \<noteq> []" using assms(4,5) by (cases "batch k") (auto elim!: rbindE)
  with True assms(1,7) show ?thesis by (simp add: bulk_index_def)
next
  case False
  have a: "search_allowed c (Rebuild p s) k (Es (Bulk (bulk_items n ds)))"
    using assms(1-5) by (intro owner_may) (auto simp: works_on_def rebuild_allowed_def rebuild_command_def)
  have fails: "Q k (Inl e)" "snd x \<noteq> 0 \<Longrightarrow> Q k (Inr x)" for e x using assms(1,6,7) by blast+
  have learn: "works_on n (learn_command c k (Bulk (bulk_items n ds)) r)" for r
    using assms(1) by (auto simp: learn_command_def works_on_def split: search_reply.split es_reply.split)
  have items: "Q (learn_command c k (Bulk (bulk_items n ds)) (Outcome (Items es))) (Inr (m, e))"
    if "e = int (length (filter (\<lambda>e. e \<noteq> None \<and> e \<noteq> Some ''version_conflict_engine_exception'') es))
     + (int (length ds) - int (length (bulk_items n ds)))" for es m e
    using bulk_accepted [of es ds n] that assms(8) fails(2) [of "(m, e)"] by (auto simp: learn_command_def)
  show ?thesis unfolding bulk_index_def wps_then Let_def if_not_P [OF False]
  proof (rule wps_es_call [OF a], goal_cases)
    case (1 r x)
    show ?case using assms(6) learn by simp
  next
    case (2 x)
    show ?case using fails(1) items by (cases x) (simp_all add: learn_command_def)
  qed
qed

lemma wps_scan:
  assumes "works_on n k" "is_target k" "ready k" "scanned k = last_id" "\<And>k' e. works_on n k' \<Longrightarrow> Q k' (Inl e)"
    and "\<And>k'. works_on n k' \<Longrightarrow> is_target k' \<Longrightarrow> complete k' \<Longrightarrow> Q k' (Inr ())"
  shows "wps c (Rebuild p s) (scan_rows (platform_of c) (logical c) n rounds last_id) Q k"
  using assms(1-4)
proof (induction rounds arbitrary: last_id k)
  case (Suc rounds)
  let ?k = "\<lambda>rows. k\<lparr>batch := rows, complete := complete k \<or> rows = []\<rparr>"
  have bulk: "wps c (Rebuild p s) (and_then (bulk_index n ds) (\<lambda>(success, errors).
      if errors \<noteq> 0 then Ret (Inl (ReindexError ''documents failed to index; aborting before alias swap''))
      else scan_rows (platform_of c) (logical c) n rounds (Some (dget (last (map row_to_dict rows)) ''id'')))) Q (?k rows)"
    if "rows \<noteq> []" "transform_all (platform_of c) (logical c) (map row_to_dict rows) = Inr ds" for rows ds
    unfolding wps_then using Suc.prems that assms(5)
    by (intro wps_bulk) (auto simp: works_on_def last_id_of_def intro!: Suc.IH)
  show ?case using Suc.prems assms(5,6) bulk
    by (auto simp: learn_simps rebuild_allowed_def batch_size_def works_on_def Let_def
        split: search_reply.split sum.split intro!: owner_may)
qed (use assms(5) in simp)

lemma wps_rebuild:
  assumes "works_on n k" "\<not> tried k" "1 \<le> grace" "\<And>k' e. works_on n k' \<Longrightarrow> Q k' (Inl e)"
    and "\<And>k'. works_on n k' \<Longrightarrow> reading k' = Some [n] \<Longrightarrow> Q k' (Inr ())"
  shows "wps c (Rebuild p s) (rebuild_index (platform_of c) (logical c) n body grace rounds) Q k"
proof -
  note own = works_on_def [THEN iffD1, THEN conjunct1]
  have clear: "wps c (Rebuild p s) (clear_reindex_target (logical c) (Some n)) Q k'"
    if "works_on n k'" "reading k' = Some [n]" for k'
  proof (rule wps_clear [OF that(1)])
    fix k'' and x :: "search_exn + unit"
    assume "works_on n k''" "reading k'' = reading k'"
    with that assms(4,5) show "Q k'' x" by (cases x) auto
  qed
  have scan: "wps c (Rebuild p s) (and_then (scan_rows (platform_of c) (logical c) n rounds None) (\<lambda>_.
      and_then (es_refresh n) (\<lambda>_. and_then (swap_alias (logical c) n) (\<lambda>_.
      clear_reindex_target (logical c) (Some n))))) Q k'"
    if "works_on n k'" "is_target k'" "ready k'" "scanned k' = None" for k'
    unfolding wps_then using that assms(4) clear
    by (intro wps_scan) (auto intro!: wps_refresh wps_swap own split: sum.split)
  show ?thesis unfolding rebuild_index_def wps_then [of c _ "create_index _ _"] wps_then [of c _ "set_reindex_target _ _"]
      wps_then [of c _ "pause _"] using assms(1-4) scan
    by (intro wps_create) (auto intro!: wps_set_target wps_pause own split: sum.split)
qed

lemma wps_clean_up:
  assumes "works_on n k" "\<And>k' x. works_on n k' \<Longrightarrow> Q k' x"
  shows "wps c (Rebuild p s) (clean_up (logical c) n) Q k"
proof -
  have delete: "wps c (Rebuild p s) (and_then (delete_index n) (\<lambda>_. Ret (Inr ()))) Q k'"
    if "works_on n k'" "reading k' = Some names" "n \<notin> set names" for k' names
    unfolding wps_then using that assms(2)
    by (intro wps_delete_index) (auto simp: works_on_def split: sum.split)
  have serving: "wps c (Rebuild p s) (and_then (get_alias_indices (logical c)) (\<lambda>serving.
      if n \<in> set serving then Ret (Inr ()) else and_then (delete_index n) (\<lambda>_. Ret (Inr ())))) Q k'"
    if "works_on n k'" for k'
    unfolding wps_then [of c _ "get_alias_indices _"] using that assms(2)
    by (intro wps_get_alias) (auto simp: works_on_def intro!: delete)
  show ?thesis unfolding clean_up_def wps_then [of c _ "get_alias_indices (target_alias _)"]
    using assms serving
    by (intro wps_get_alias)
      (auto simp: works_on_def wps_then [of c _ "clear_reindex_target _ _"] wps_then [of c _ "Ret _"] intro!: wps_clear split: sum.split)
qed

lemma wps_delete_old:
  assumes "works_on n k" "reading k = Some [n]" "\<And>k' x. works_on n k' \<Longrightarrow> Q k' x"
  shows "wps c (Rebuild p s) (delete_old n olds) Q k"
  using assms(1,2)
proof (induction olds arbitrary: k)
  case (Cons old olds)
  then show ?case using assms(3)
    by (auto simp: wps_then works_on_def split: sum.split intro!: wps_delete_index Cons.IH)
qed (use assms(3) in simp)

lemma wps_reindex_alias:
  assumes "owner k" "grace_accepted grace" "\<And>k' x. owner k' \<Longrightarrow> Q k' x"
  shows "wps c (Rebuild p s) (reindex_alias (platform_of c) (logical c) body keep_old grace rounds) Q k"
proof -
  note own = works_on_def [THEN iffD1, THEN conjunct1]
  have grace: "1 \<le> grace" using assms(2) by (simp add: grace_accepted_def target_cache_seconds_def)
  have main: "wps c (Rebuild p s) (let n = logical c @ ''-'' @ stamp
      in io_bind (rebuild_index (platform_of c) (logical c) n body grace rounds) (\<lambda>x. case x of
           Inl e \<Rightarrow> io_bind (clean_up (logical c) n) (\<lambda>_. Ret (Inl e))
         | Inr _ \<Rightarrow> (if keep_old then Ret (Inr ()) else delete_old n olds))) Q k'"
    if "works_on (logical c @ ''-'' @ stamp) k'" "\<not> tried k'" for stamp olds k'
    unfolding Let_def wp_bind using that grace assms(3)
    by (intro wps_rebuild) (auto simp: wp_bind intro!: wps_clean_up wps_delete_old own)
  show ?thesis unfolding reindex_alias_def wps_then
    using assms(1,3) main
    by (intro wps_get_alias) (auto simp: rebuild_allowed_def search_learn_def works_on_def split: search_reply.split intro!: owner_may)
qed

lemma rebuild_correct:
  assumes "grace_accepted grace" "\<not> owner k"
  shows "wps c (Rebuild p s) (reindex_job (platform_of c) [(logical c, body)] keep_old grace rounds) (search_post (Rebuild p s)) k"
proof -
  have unlock: "wps c (Rebuild p s) (lock_call AdvisoryUnlock) Q k'" if "owner k'" "\<And>k' x. Q k' x" for Q k'
    using that by (auto simp: lock_call_def rebuild_allowed_def split: search_reply.split intro!: owner_may)
  have job: "wps c (Rebuild p s) (reindex_all (platform_of c) [(logical c, body)] keep_old grace rounds) Q k'"
    if "owner k'" "\<And>k' x. owner k' \<Longrightarrow> Q k' x" for Q k'
    unfolding reindex_all.simps wps_then using that assms(1)
    by (intro wps_reindex_alias) (auto split: sum.split)
  have body: "wps c (Rebuild p s) (io_bind (reindex_all (platform_of c) [(logical c, body)] keep_old grace rounds) (\<lambda>result.
      io_bind (lock_call AdvisoryUnlock) (\<lambda>released. Ret (F result released)))) (search_post (Rebuild p s)) k'"
    if "owner k'" for F k'
    unfolding wp_bind using that by (intro job) (auto intro!: unlock simp: wp_bind)
  show ?thesis unfolding reindex_job_def read_model_reindex_lock_def wps_then
    using assms(2) body
    by (auto simp: lock_call_def search_allowed.simps search_learn_def split: search_reply.split)
qed

end
