(* ===== verification/SearchProps.thy ===== *)
theory SearchProps
  imports SearchTasks
begin

text \<open>
  What is true of the world around the search index, what the knowledge of a task means in it,
  and that the steps of others do not falsify it.
\<close>

section \<open>The world\<close>

definition plain_name :: "'s search_setting \<Rightarrow> string \<Rightarrow> bool" where
  "plain_name c n \<longleftrightarrow> n \<noteq> logical c \<and> n \<noteq> target_name c"

text \<open>The index that the read model's alias serves.\<close>

definition live :: "'s search_setting \<Rightarrow> 's search_world \<Rightarrow> string" where
  "live c w = hd (aliases (view c w) (logical c))"

definition in_table :: "'s search_world \<Rightarrow> string \<Rightarrow> bool" where
  "in_table w i \<longleftrightarrow> i \<in> fst ` set (table w)"

definition logged :: "'s search_world \<Rightarrow> string \<Rightarrow> bool" where
  "logged w i \<longleftrightarrow> i \<in> fst ` set (changes w)"

definition has_version :: "es_view \<Rightarrow> string \<Rightarrow> wire \<Rightarrow> int \<Rightarrow> bool" where
  "has_version v index i n \<longleftrightarrow> (\<exists>m x. documents v index i = Some (m, x) \<and> n \<le> m)"

definition atleast :: "'s search_setting \<Rightarrow> 's search_world \<Rightarrow> string \<Rightarrow> string \<Rightarrow> int \<Rightarrow> bool" where
  "atleast c w index i v \<longleftrightarrow> has_version (view c w) index (WStr i) (v + 1)"

text \<open>An indexed document is a version of its row, unless the row has gone.\<close>

definition entry_fits :: "'s search_setting \<Rightarrow> 's search_world \<Rightarrow> string \<Rightarrow> int \<Rightarrow> document option \<Rightarrow> bool" where
  "entry_fits c w i n x \<longleftrightarrow> logged w i
     \<and> (in_table w i \<longrightarrow> (\<exists>v d t. (i, v, t) \<in> set (changes w) \<and> n = v + 1 \<and> x = Some d \<and> renders c i v d))"

definition docs_fit :: "'s search_setting \<Rightarrow> 's search_world \<Rightarrow> es_view \<Rightarrow> bool" where
  "docs_fit c w v \<longleftrightarrow> (\<forall>index i n x. documents v index (WStr i) = Some (n, x) \<longrightarrow> entry_fits c w i n x)"

definition rows_fit :: "'s search_world \<Rightarrow> bool" where
  "rows_fit w \<longleftrightarrow> distinct (map fst (table w)) \<and> (\<forall>(i, v) \<in> set (table w). \<exists>t. (i, v, t) \<in> set (changes w))
     \<and> (\<forall>(i, u, t) \<in> set (changes w). t \<le> time w \<and> i \<noteq> [] \<and> 0 \<le> u \<and> (\<forall>v. (i, v) \<in> set (table w) \<longrightarrow> u \<le> v))"

definition aliases_fit :: "'s search_setting \<Rightarrow> 's search_world \<Rightarrow> bool" where
  "aliases_fit c w \<longleftrightarrow> (\<exists>n. aliases (view c w) (logical c) = [n] \<and> plain_name c n)
     \<and> (\<forall>a. plain_name c a \<longrightarrow> aliases (view c w) a = [])
     \<and> (\<forall>n \<in> targets c w. plain_name c n \<and> registered w n \<noteq> None)
     \<and> (\<forall>n r. registered w n = Some r \<longrightarrow> r \<le> time w \<and> n \<in> index_names w)"

definition names_fit :: "'s search_setting \<Rightarrow> 's search_world \<Rightarrow> string list \<Rightarrow> bool" where
  "names_fit c w names \<longleftrightarrow> logical c \<in> set names
     \<and> (\<forall>n \<in> set names. n = logical c \<or> plain_name c n \<and> registered w n \<noteq> None)"

text \<open>The targets that a list may miss were registered at \<open>x\<close> or later.\<close>

definition misses_since :: "'s search_setting \<Rightarrow> 's search_world \<Rightarrow> rat \<Rightarrow> string list \<Rightarrow> bool" where
  "misses_since c w x names \<longleftrightarrow> (\<forall>n \<in> targets c w. n \<in> set names \<or> (\<exists>r. registered w n = Some r \<and> x \<le> r))"

definition caches_fit :: "'s search_setting \<Rightarrow> 's search_world \<Rightarrow> bool" where
  "caches_fit c w \<longleftrightarrow> (\<forall>p until names. target_caches w p = Some (until, names) \<longrightarrow>
     until - skew c p - 1 \<le> time w \<and> names_fit c w names \<and> misses_since c w (until - skew c p - 1) names)"

definition lock_fits :: "'s search_world \<Rightarrow> bool" where
  "lock_fits w \<longleftrightarrow> (\<forall>s. lock w = Some s \<longrightarrow> s \<notin> dead w \<and> s \<in> sessions w)"

definition search_world_ok :: "'s search_setting \<Rightarrow> 's search_world \<Rightarrow> bool" where
  "search_world_ok c w \<longleftrightarrow> rows_fit w \<and> aliases_fit c w \<and> docs_fit c w (view c w) \<and> caches_fit c w \<and> lock_fits w"

section \<open>The meaning of knowledge\<close>

definition consumer_facts :: "'s search_setting \<Rightarrow> 's search_world \<Rightarrow> nat \<Rightarrow> search_knowledge \<Rightarrow> bool" where
  "consumer_facts c w p k \<longleftrightarrow> (\<forall>x. asked k = Some x \<longrightarrow> x - skew c p \<le> time w)
     \<and> (\<forall>names. listed k = Some names \<longrightarrow>
          (\<exists>x. asked k = Some x \<and> names_fit c w names \<and> misses_since c w (x - skew c p) names))"

definition write_facts :: "'s search_setting \<Rightarrow> 's search_world \<Rightarrow> string \<Rightarrow> int \<Rightarrow> string list \<Rightarrow> search_knowledge \<Rightarrow> bool" where
  "write_facts c w i v names k \<longleftrightarrow>
     (\<forall>n \<in> wrote k. n \<noteq> logical c \<longrightarrow> n \<in> targets c w \<or> n = live c w \<longrightarrow> atleast c w n i v)
     \<and> (logical c \<in> wrote k \<longrightarrow> atleast c w (live c w) i v \<or> live c w \<in> set names - wrote k)"

text \<open>A target that was missed became one after the change, less than the lifetime of a cached list after it.\<close>

definition missed_after :: "'s search_setting \<Rightarrow> 's search_world \<Rightarrow> rat \<Rightarrow> string list \<Rightarrow> bool" where
  "missed_after c w t names \<longleftrightarrow> (\<forall>n \<in> targets c w. n \<in> set names \<or> (\<exists>r. registered w n = Some r \<and> t < r + 1))"

definition upsert_facts ::
  "'s search_setting \<Rightarrow> 's search_world \<Rightarrow> nat \<Rightarrow> string \<Rightarrow> int \<Rightarrow> rat \<Rightarrow> search_knowledge \<Rightarrow> bool" where
  "upsert_facts c w p i v t k \<longleftrightarrow> consumer_facts c w p k \<and> (i, v, t) \<in> set (changes w)
     \<and> (\<forall>x. asked k = Some x \<longrightarrow> t \<le> x - skew c p)
     \<and> (\<forall>names. found k = Some names \<longrightarrow> names_fit c w names \<and> wrote k \<subseteq> set names
          \<and> missed_after c w t names \<and> (in_table w i \<longrightarrow> write_facts c w i v names k))"

text \<open>The versions committed before \<open>x\<close> of the rows that \<open>P\<close> selects are in the index.\<close>

definition indexed :: "'s search_setting \<Rightarrow> 's search_world \<Rightarrow> string \<Rightarrow> rat \<Rightarrow> (string \<Rightarrow> bool) \<Rightarrow> bool" where
  "indexed c w n x P \<longleftrightarrow> (\<forall>(j, u, t) \<in> set (changes w). in_table w j \<longrightarrow> t < x \<longrightarrow> P j \<longrightarrow> atleast c w n j u)"

abbreviation not_beyond :: "'s search_setting \<Rightarrow> wire option \<Rightarrow> string \<Rightarrow> bool" where
  "not_beyond c last_id j \<equiv> \<not> beyond_id (platform_of c) last_id j"

definition batch_facts :: "'s search_setting \<Rightarrow> 's search_world \<Rightarrow> string \<Rightarrow> rat \<Rightarrow> document list \<Rightarrow> bool" where
  "batch_facts c w n x rows \<longleftrightarrow> (\<exists>xs. rows = map (\<lambda>(i, v). sql_row c i v) xs
     \<and> (\<forall>(i, v) \<in> set xs. \<exists>t. (i, v, t) \<in> set (changes w))
     \<and> (xs \<noteq> [] \<longrightarrow> (\<forall>(j, u, t) \<in> set (changes w). in_table w j \<longrightarrow> t < x \<longrightarrow> not_beyond c (last_id_of rows) j
          \<longrightarrow> atleast c w n j u \<or> (\<exists>v. u \<le> v \<and> (j, v) \<in> set xs))))"

definition scan_facts :: "'s search_setting \<Rightarrow> 's search_world \<Rightarrow> string \<Rightarrow> rat \<Rightarrow> search_knowledge \<Rightarrow> bool" where
  "scan_facts c w n x k \<longleftrightarrow> indexed c w n x (not_beyond c (scanned k)) \<and> batch_facts c w n x (batch k)
     \<and> (complete k \<longrightarrow> indexed c w n x (\<lambda>_. True))"

definition target_facts :: "'s search_setting \<Rightarrow> 's search_world \<Rightarrow> string \<Rightarrow> rat \<Rightarrow> search_knowledge \<Rightarrow> bool" where
  "target_facts c w n r k \<longleftrightarrow> n \<in> targets c w \<and> registered w n = Some r
     \<and> (\<forall>d. due k = Some d \<longrightarrow> r + 1 \<le> d)
     \<and> (if ready k then r + 1 \<le> time w \<and> scan_facts c w n (r + 1) k
        else scanned k = None \<and> batch k = [] \<and> \<not> complete k)"

definition owner_facts :: "'s search_setting \<Rightarrow> 's search_world \<Rightarrow> search_knowledge \<Rightarrow> bool" where
  "owner_facts c w k \<longleftrightarrow>
     (\<forall>n. fresh_index k = Some n \<longrightarrow> n \<in> index_names w \<and> plain_name c n \<and> (\<not> tried k \<longrightarrow> registered w n = None))
     \<and> (is_target k \<longrightarrow> (\<exists>n r. fresh_index k = Some n \<and> target_facts c w n r k))
     \<and> (\<forall>names. reading k = Some names \<longrightarrow> aliases (view c w) (logical c) = names)"

fun task_facts :: "'s search_setting \<Rightarrow> 's search_world \<Rightarrow> search_activity \<Rightarrow> search_knowledge \<Rightarrow> bool" where
  "task_facts c w (Upsert p i v t) k \<longleftrightarrow> upsert_facts c w p i v t k"
| "task_facts c w (Removal p i) k \<longleftrightarrow> consumer_facts c w p k \<and> logged w i \<and> \<not> in_table w i"
| "task_facts c w (Rebuild p s) k \<longleftrightarrow> (owner k \<longrightarrow> s \<in> sessions w \<and> (s \<notin> dead w \<longrightarrow> lock w = Some s \<and> owner_facts c w k))"

fun session_of :: "search_activity \<times> search_knowledge \<Rightarrow> nat option" where
  "session_of (Rebuild p s, k) = (if owner k then Some s else None)"
| "session_of _ = None"

definition owners_differ :: "(search_activity \<times> search_knowledge) list \<Rightarrow> bool" where
  "owners_differ ks \<longleftrightarrow> (\<forall>i < length ks. \<forall>j < length ks. i \<noteq> j \<longrightarrow> session_of (ks ! i) \<noteq> None
     \<longrightarrow> session_of (ks ! i) \<noteq> session_of (ks ! j))"

definition search_inv :: "'s search_setting \<Rightarrow> 's search_world \<Rightarrow> (search_activity \<times> search_knowledge) list \<Rightarrow> bool" where
  "search_inv c w ks \<longleftrightarrow> search_setting_ok c \<and> search_world_ok c w \<and> (\<forall>(t, k) \<in> set ks. task_facts c w t k) \<and> owners_differ ks"

section \<open>Steps of others\<close>

text \<open>How the rows and the history go on, and what may happen to the indexes.\<close>

definition later :: "'s search_world \<Rightarrow> 's search_world \<Rightarrow> bool" where
  "later w w' \<longleftrightarrow> time w \<le> time w' \<and> index_names w \<subseteq> index_names w' \<and> set (changes w) \<subseteq> set (changes w')
     \<and> (\<forall>(i, v, t) \<in> set (changes w') - set (changes w). time w \<le> t)
     \<and> (\<forall>i. in_table w' i \<longrightarrow> logged w i \<longrightarrow> in_table w i)"

definition quiet_step :: "'s search_setting \<Rightarrow> 's search_world \<Rightarrow> 's search_world \<Rightarrow> bool" where
  "quiet_step c w w' \<longleftrightarrow> later w w' \<and> aliases (view c w') = aliases (view c w) \<and> registered w' = registered w
     \<and> (\<forall>index i n. in_table w' i \<longrightarrow> logged w i \<longrightarrow> has_version (view c w) index (WStr i) n \<longrightarrow> has_version (view c w') index (WStr i) n)"

definition evolves :: "'s search_setting \<Rightarrow> 's search_world \<Rightarrow> 's search_world \<Rightarrow> bool" where
  "evolves c w w' \<longleftrightarrow> later w w' \<and> (\<forall>n r. registered w n = Some r \<longrightarrow> registered w' n = Some r)
     \<and> (\<forall>n \<in> targets c w'. n \<in> targets c w \<or> (registered w n = None \<and> (\<exists>r. registered w' n = Some r \<and> time w \<le> r)))
     \<and> (live c w' = live c w \<or> (live c w' \<in> targets c w
          \<and> (\<exists>r. registered w (live c w') = Some r \<and> indexed c w (live c w') (r + 1) (\<lambda>_. True))))
     \<and> (\<forall>index i v. in_table w' i \<longrightarrow> logged w i \<longrightarrow> index \<in> targets c w' \<or> index = live c w'
          \<longrightarrow> atleast c w index i v \<longrightarrow> atleast c w' index i v)"

lemma quiet_evolves: "quiet_step c w w' \<Longrightarrow> evolves c w w'"
  by (auto simp: quiet_step_def evolves_def targets_def live_def atleast_def)

lemma logged_change: "(i, v, t) \<in> set (changes w) \<Longrightarrow> logged w i"
  by (force simp: logged_def)

lemma names_fit_evolves: "\<lbrakk>names_fit c w names; evolves c w w'\<rbrakk> \<Longrightarrow> names_fit c w' names"
  by (fastforce simp: names_fit_def evolves_def)

lemma misses_evolves:
  assumes "misses_since c w x names" "evolves c w w'" "x \<le> time w"
  shows "misses_since c w' x names"
  using assms unfolding misses_since_def evolves_def by (meson order_trans)

lemma missed_evolves:
  assumes "missed_after c w t names" "evolves c w w'" "t \<le> time w"
  shows "missed_after c w' t names"
proof -
  have "time w \<le> r \<Longrightarrow> t < r + 1" for r using assms(3) by simp
  with assms(1,2) show ?thesis unfolding missed_after_def evolves_def by meson
qed

lemma consumer_evolves:
  assumes "consumer_facts c w p k" "evolves c w w'"
  shows "consumer_facts c w' p k"
proof -
  have "time w \<le> time w'" using assms(2) by (simp add: evolves_def later_def)
  with assms names_fit_evolves misses_evolves show ?thesis unfolding consumer_facts_def by (metis order_trans)
qed

lemma write_evolves:
  assumes "write_facts c w i v names k" "evolves c w w'" "in_table w' i" "(i, v, t) \<in> set (changes w)"
    and "names_fit c w names" "wrote k \<subseteq> set names" "missed_after c w t names" "aliases_fit c w"
  shows "write_facts c w' i v names k"
proof -
  have "logged w i" by (rule logged_change [OF assms(4)])
  with assms(2,3) have l: "logged w i" "in_table w i" by (auto simp: evolves_def later_def)
  have kept: "atleast c w' n i v" if "atleast c w n i v" "n \<in> targets c w' \<or> n = live c w'" for n
    using assms(2,3) l(1) that by (auto simp: evolves_def)
  have wrote: "atleast c w' n i v" if n: "n \<in> wrote k" "n \<noteq> logical c" "n \<in> targets c w' \<or> n = live c w'" for n
  proof -
    have "registered w n \<noteq> None" using assms(5,6) n by (auto simp: names_fit_def)
    with n(3) assms(2) have "n \<in> targets c w \<or> n = live c w" by (auto simp: evolves_def)
    with assms(1) n kept show ?thesis by (auto simp: write_facts_def)
  qed
  moreover have "atleast c w' (live c w') i v \<or> live c w' \<in> set names - wrote k" if L: "logical c \<in> wrote k"
  proof (cases "live c w' = live c w")
    case True
    with assms(1) L kept show ?thesis by (auto simp: write_facts_def)
  next
    case False
    let ?n = "live c w'"
    from False assms(2) obtain r where r: "?n \<in> targets c w" "registered w ?n = Some r" "indexed c w ?n (r + 1) (\<lambda>_. True)"
      by (auto simp: evolves_def)
    show ?thesis
    proof (cases "?n \<in> set names")
      case True
      have "?n \<noteq> logical c" using r(1) assms(8) by (auto simp: aliases_fit_def plain_name_def)
      with True wrote [of ?n] show ?thesis by auto
    next
      case False
      with assms(7) r(1,2) have "t < r + 1" by (auto simp: missed_after_def)
      with r(3) assms(4) l(2) have "atleast c w ?n i v" by (auto simp: indexed_def)
      with kept show ?thesis by blast
    qed
  qed
  ultimately show ?thesis by (auto simp: write_facts_def)
qed

lemma upsert_evolves:
  assumes "upsert_facts c w p i v t k" "evolves c w w'" "search_world_ok c w"
  shows "upsert_facts c w' p i v t k"
proof -
  have i: "(i, v, t) \<in> set (changes w)" "t \<le> time w" "aliases_fit c w"
    using assms(1,3) by (auto simp: upsert_facts_def search_world_ok_def rows_fit_def)
  moreover have "set (changes w) \<subseteq> set (changes w')" "\<And>i. in_table w' i \<Longrightarrow> logged w i \<Longrightarrow> in_table w i"
    using assms(2) by (auto simp: evolves_def later_def)
  moreover have "logged w i" by (rule logged_change [OF i(1)])
  ultimately show ?thesis
    using assms(1,2) write_evolves [OF _ assms(2) _ i(1) _ _ _ i(3)] consumer_evolves [OF _ assms(2)]
      names_fit_evolves [OF _ assms(2)] missed_evolves [OF _ assms(2) i(2)]
    unfolding upsert_facts_def by (metis subsetD)
qed

lemma removal_evolves:
  assumes "logged w i \<and> \<not> in_table w i" "later w w'"
  shows "logged w' i \<and> \<not> in_table w' i"
  using assms by (auto simp: later_def logged_def)

lemma old_change:
  assumes "(j, u, t) \<in> set (changes w')" "later w w'" "t < x" "x \<le> time w"
  shows "(j, u, t) \<in> set (changes w)"
proof (rule ccontr)
  assume "\<not> ?thesis"
  with assms(1,2) have "time w \<le> t" unfolding later_def by blast
  with assms(3,4) show False by simp
qed

lemma indexed_quiet:
  assumes "indexed c w n x P" "quiet_step c w w'" "x \<le> time w"
  shows "indexed c w' n x P"
  unfolding indexed_def
proof (clarify)
  fix j u t
  assume j: "(j, u, t) \<in> set (changes w')" "in_table w' j" "t < x" "P j"
  have l: "later w w'" using assms(2) by (simp add: quiet_step_def)
  have c: "(j, u, t) \<in> set (changes w)" by (rule old_change [OF j(1) l j(3) assms(3)])
  then have "logged w j" by (rule logged_change)
  moreover from this l j(2) have "in_table w j" by (auto simp: later_def)
  ultimately show "atleast c w' n j u" using assms(1,2) c j by (auto simp: indexed_def quiet_step_def atleast_def)
qed

lemma batch_quiet:
  assumes "batch_facts c w n x rows" "quiet_step c w w'" "x \<le> time w"
  shows "batch_facts c w' n x rows"
proof -
  obtain xs where xs: "rows = map (\<lambda>(i, v). sql_row c i v) xs" "\<forall>(i, v) \<in> set xs. \<exists>t. (i, v, t) \<in> set (changes w)"
    "\<And>j u t. \<lbrakk>xs \<noteq> []; (j, u, t) \<in> set (changes w); in_table w j; t < x; not_beyond c (last_id_of rows) j\<rbrakk>
        \<Longrightarrow> atleast c w n j u \<or> (\<exists>v. u \<le> v \<and> (j, v) \<in> set xs)"
    using assms(1) unfolding batch_facts_def by fast
  have l: "later w w'" using assms(2) by (simp add: quiet_step_def)
  have "atleast c w' n j u \<or> (\<exists>v. u \<le> v \<and> (j, v) \<in> set xs)"
    if j: "(j, u, t) \<in> set (changes w')" "in_table w' j" "t < x" "not_beyond c (last_id_of rows) j" "xs \<noteq> []" for j u t
  proof -
    have c: "(j, u, t) \<in> set (changes w)" by (rule old_change [OF j(1) l j(3) assms(3)])
    then have "logged w j" by (rule logged_change)
    moreover from this l j(2) have "in_table w j" by (auto simp: later_def)
    ultimately show ?thesis using xs(3) [OF j(5) c] assms(2) j by (auto simp: quiet_step_def atleast_def)
  qed
  moreover have "set (changes w) \<subseteq> set (changes w')" using l by (simp add: later_def)
  ultimately show ?thesis using xs(1,2) unfolding batch_facts_def by (intro exI [of _ xs]) fastforce
qed

lemma owner_quiet:
  assumes "owner_facts c w k" "quiet_step c w w'"
  shows "owner_facts c w' k"
proof -
  have q: "index_names w \<subseteq> index_names w'" "time w \<le> time w'" "registered w' = registered w"
    "aliases (view c w') = aliases (view c w)" "targets c w' = targets c w"
    using assms(2) by (auto simp: quiet_step_def later_def targets_def)
  have "target_facts c w' n r k" if "target_facts c w n r k" for n r
    using that q indexed_quiet [OF _ assms(2)] batch_quiet [OF _ assms(2)]
    by (auto simp: target_facts_def scan_facts_def split: if_splits)
  with assms(1) q show ?thesis unfolding owner_facts_def by (metis subsetD)
qed

lemma task_quiet:
  assumes "task_facts c w t k" "quiet_step c w w'" "search_world_ok c w" "sessions w \<subseteq> sessions w'" "dead w \<subseteq> dead w'"
    and "\<And>s. lock w = Some s \<Longrightarrow> s \<notin> dead w' \<Longrightarrow> lock w' = Some s"
  shows "task_facts c w' t k"
proof (cases t)
  case (Upsert p i v x)
  with assms(1-3) upsert_evolves quiet_evolves show ?thesis by fastforce
next
  case (Removal p i)
  have "consumer_facts c w' p k" using consumer_evolves [OF _ quiet_evolves [OF assms(2)]] assms(1) Removal by simp
  moreover have "logged w' i \<and> \<not> in_table w' i"
    by (rule removal_evolves [of w]) (use assms(1,2) Removal in \<open>simp_all add: quiet_step_def\<close>)
  ultimately show ?thesis using Removal by simp
next
  case (Rebuild p s)
  have "owner_facts c w k \<Longrightarrow> owner_facts c w' k" by (rule owner_quiet [OF _ assms(2)])
  with Rebuild assms(1,4-6) show ?thesis by (auto 0 3)
qed

lemma task_evolves:
  assumes "task_facts c w t k" "evolves c w w'" "search_world_ok c w" "sessions w' = sessions w" "dead w' = dead w"
    and "session_of (t, k) = None \<or> session_of (t, k) \<noteq> lock w"
  shows "task_facts c w' t k"
proof (cases t)
  case (Upsert p i v x)
  with assms(1-3) upsert_evolves show ?thesis by fastforce
next
  case (Removal p i)
  have "consumer_facts c w' p k" using consumer_evolves [OF _ assms(2)] assms(1) Removal by simp
  moreover have "logged w' i \<and> \<not> in_table w' i"
    by (rule removal_evolves [of w]) (use assms(1,2) Removal in \<open>simp_all add: evolves_def\<close>)
  ultimately show ?thesis using Removal by simp
next
  case (Rebuild p s)
  have "s \<in> sessions w \<and> s \<in> dead w" if "owner k"
    using assms(1,6) that unfolding Rebuild by auto
  with assms(4,5) show ?thesis unfolding Rebuild by simp
qed

section \<open>Keeping the invariant\<close>

lemma owners_unique:
  "\<lbrakk>owners_differ ks; i < length ks; j < length ks; session_of (ks ! i) = Some s; session_of (ks ! j) = Some s\<rbrakk> \<Longrightarrow> i = j"
  unfolding owners_differ_def by (metis option.distinct(1))

lemma owners_update:
  assumes "owners_differ ks" "i < length ks" "session_of x = None \<or> session_of x = session_of (ks ! i)"
  shows "owners_differ (ks[i := x])"
proof (cases "session_of x")
  case None
  with assms(1,2) show ?thesis by (auto simp: owners_differ_def nth_list_update)
next
  case (Some s)
  with assms(3) have "session_of (ks ! i) = Some s" by simp
  with Some assms(1,2) show ?thesis
    unfolding owners_differ_def [of "ks[i := x]"] by (auto simp: nth_list_update dest: owners_unique)
qed

lemma inv_task: "\<lbrakk>search_inv c w ks; i < length ks; ks ! i = (t, k)\<rbrakk> \<Longrightarrow> task_facts c w t k"
  unfolding search_inv_def using nth_mem by fastforce

lemma inv_quiet:
  assumes "search_inv c w ks" "i < length ks" "ks ! i = (t, k)" "quiet_step c w w'" "search_world_ok c w'"
    and "sessions w \<subseteq> sessions w'" "dead w \<subseteq> dead w'" "\<And>s. lock w = Some s \<Longrightarrow> s \<notin> dead w' \<Longrightarrow> lock w' = Some s"
    and "task_facts c w' t k'" "session_of (t, k') = None \<or> session_of (t, k') = session_of (t, k)"
  shows "search_inv c w' (ks[i := (t, k')])"
proof -
  have "task_facts c w' t' x" if "(t', x) \<in> set ks" for t' x
    using assms(1,4-8) that by (intro task_quiet [of c w t' x w']) (auto simp: search_inv_def)
  with assms(1-3,5,9,10) show ?thesis
    unfolding search_inv_def using owners_update [of ks i "(t, k')"] set_update_subset_insert [of ks i "(t, k')"]
    by (metis (no_types, lifting) case_prodI2 case_prod_conv insertE subsetD)
qed

lemma inv_same:
  assumes "search_inv c w ks" "i < length ks" "ks ! i = (t, k)" "task_facts c w t k'"
    and "session_of (t, k') = None \<or> session_of (t, k') = session_of (t, k)"
  shows "search_inv c w (ks[i := (t, k')])"
  using assms by (intro inv_quiet [OF assms(1-3)]) (auto simp: quiet_step_def later_def search_inv_def)

lemma inv_alone:
  assumes "search_inv c w ks" "i < length ks" "ks ! i = (Rebuild p s, k)" "owner k" "s \<notin> dead w"
    and "evolves c w w'" "search_world_ok c w'" "sessions w' = sessions w" "dead w' = dead w"
    and "task_facts c w' (Rebuild p s) k'"
  shows "search_inv c w' (ks[i := (Rebuild p s, k')])"
proof -
  have lock: "lock w = Some s" using inv_task [OF assms(1-3)] assms(4,5) by simp
  have "task_facts c w' t' x" if j: "j < length ks" "j \<noteq> i" "ks ! j = (t', x)" for j t' x
  proof (rule task_evolves [OF inv_task [OF assms(1) j(1,3)] assms(6)])
    show "session_of (t', x) = None \<or> session_of (t', x) \<noteq> lock w"
      using owners_unique [of ks i j s] assms(1-4) j lock by (auto simp: search_inv_def)
  qed (use assms in \<open>auto simp: search_inv_def\<close>)
  then have "\<forall>(t', x) \<in> set (ks[i := (Rebuild p s, k')]). task_facts c w' t' x"
    using assms(2,10) by (auto simp: in_set_conv_nth nth_list_update split: if_splits)
  moreover have "owners_differ (ks[i := (Rebuild p s, k')])"
    using assms(1-4) by (intro owners_update) (auto simp: search_inv_def)
  ultimately show ?thesis using assms(1,7) by (simp add: search_inv_def)
qed

end
