(* ===== verification/SearchSteps.thy ===== *)
theory SearchSteps
  imports SearchProps
begin

text \<open>Every step around the search index keeps the invariant, and a reply teaches what \<open>search_learn\<close> says.\<close>

section \<open>Commands of the engine\<close>

lemma with_engine_fields [simp]:
  "time (with_engine c s' w) = time w" "table (with_engine c s' w) = table w" "changes (with_engine c s' w) = changes w"
  "target_caches (with_engine c s' w) = target_caches w" "index_names (with_engine c s' w) = index_names w"
  "lock (with_engine c s' w) = lock w" "sessions (with_engine c s' w) = sessions w" "dead (with_engine c s' w) = dead w"
  "view c (with_engine c s' w) = es_view (engine_of c) s'"
  by (simp_all add: with_engine_def view_def Let_def)

lemma with_engine_targets: "targets c (with_engine c s' w) = set (aliases (es_view (engine_of c) s') (target_name c))"
  by (simp add: targets_def)

lemma with_engine_registered:
  "registered (with_engine c s' w) n
   = (if n \<in> targets c (with_engine c s' w) \<and> n \<notin> targets c w then Some (time w) else registered w n)"
  by (simp add: with_engine_def view_def Let_def targets_def)

lemma es_step:
  assumes "search_setting_ok c" "es_exec (engine_of c) (engine w) q s' r"
  shows "(r = EsFailed \<and> view c (with_engine c s' w) = view c w)
    \<or> (\<exists>r'. es_effect q (view c w) (view c (with_engine c s' w)) r' \<and> (r = r' \<or> r = EsFailed))"
  using assms unfolding search_setting_ok_def es_documented_def view_def [of c w] with_engine_fields by blast

text \<open>A command that leaves the aliases alone and loses no version.\<close>

definition doc_step :: "es_view \<Rightarrow> es_view \<Rightarrow> bool" where
  "doc_step v v' \<longleftrightarrow> aliases v' = aliases v
     \<and> (\<forall>index i n. has_version v index i n \<longrightarrow> has_version v' index i n)"

lemma doc_step_same: "doc_step v v"
  by (simp add: doc_step_def)

lemma doc_step_trans: "doc_step v v1 \<Longrightarrow> doc_step v1 v2 \<Longrightarrow> doc_step v v2"
  by (simp add: doc_step_def)

lemma written_above:
  assumes "written_version version stored = Some n" "stored = Some (m, x)"
  shows "m \<le> n"
  using assms by (cases version) (auto split: if_splits)

lemma write_doc_step: "doc_step v (fst (write_doc name i version x v))"
  by (auto simp: doc_step_def write_doc_def put_doc_def has_version_def dest!: written_above split: option.splits)

lemma write_doc_fits:
  assumes "docs_fit c w v" "\<And>j n. \<lbrakk>i = WStr j; version = None \<or> version = Some n\<rbrakk> \<Longrightarrow> entry_fits c w j n x"
  shows "docs_fit c w (fst (write_doc name i version x v))"
proof -
  have "entry_fits c w j n x" if "i = WStr j" "written_version version stored = Some n" for j n stored
    using assms(2) [OF that(1)] that(2) by (cases version; cases stored) (auto split: if_splits)
  with assms(1) show ?thesis
    by (auto simp: docs_fit_def write_doc_def put_doc_def split: option.splits if_splits)
qed

lemma write_doc_has:
  assumes "write_doc name i (Some n) x v = (v', r)" "r = Acknowledged \<or> r = Conflict"
  shows "\<exists>index. resolve v name = Some index \<and> has_version v' index i n"
  using assms by (cases "documents v (the (resolve v name)) i")
    (auto simp: write_doc_def put_doc_def has_version_def split: option.splits if_splits)

lemma bulk_step:
  assumes "bulk_answers items v v' es" "docs_fit c w v" "\<And>a. plain_name c a \<Longrightarrow> aliases v a = []"
    and "\<forall>(name, i, version, d) \<in> set items. plain_name c name
      \<and> (\<exists>j u. i = WStr j \<and> version = Some (u + 1) \<and> entry_fits c w j (u + 1) (Some d))"
  shows "doc_step v v' \<and> docs_fit c w v' \<and> (accepted es \<longrightarrow>
    (\<forall>(name, i, version, d) \<in> set items. \<forall>n. version = Some n \<longrightarrow> has_version v' name i n))"
  using assms
proof (induction items arbitrary: v es)
  case Nil
  then show ?case by (simp add: doc_step_same)
next
  case (Cons item items)
  obtain name i version d where item: "item = (name, i, version, d)" by (cases item)
  obtain j u where j: "i = WStr j" "version = Some (u + 1)" "entry_fits c w j (u + 1) (Some d)" "plain_name c name"
    using Cons.prems(4) item by auto
  obtain e es' where es: "es = e # es'" using Cons.prems(1) item by (cases es) auto
  obtain v1 r where v1: "write_doc name i version (Some d) v = (v1, r)" by (cases "write_doc name i version (Some d) v")
  have rest: "\<forall>(name, i, version, d) \<in> set items. plain_name c name
      \<and> (\<exists>j u. i = WStr j \<and> version = Some (u + 1) \<and> entry_fits c w j (u + 1) (Some d))" using Cons.prems(4) by simp
  have step: "doc_step v v1" using write_doc_step [of v name i version "Some d"] v1 by simp
  have "docs_fit c w (fst (write_doc name i version (Some d) v))"
    by (rule write_doc_fits [OF Cons.prems(2)]) (use j(1-3) in auto)
  with v1 have fits: "docs_fit c w v1" by simp
  have plain: "\<And>a. plain_name c a \<Longrightarrow> aliases v1 a = []" using step Cons.prems(3) by (simp add: doc_step_def)
  have has: "has_version v1 name i (u + 1)" if "r = Acknowledged \<or> r = Conflict"
    using write_doc_has [of name i "u + 1" "Some d" v v1 r] v1 j(2,4) that Cons.prems(3) by (auto simp: resolve_def)
  have same: "r = Conflict \<Longrightarrow> v1 = v" using v1 by (auto simp: write_doc_def split: option.splits)
  consider (written) "r = Acknowledged" "e = None" "bulk_answers items v1 v' es'"
    | (conflict) "r = Conflict" "e \<noteq> None" "bulk_answers items v v' es'"
    | (refused) "e \<noteq> None" "e \<noteq> Some ''version_conflict_engine_exception''" "bulk_answers items v v' es'"
    using Cons.prems(1) v1 by (auto simp: item es split: es_reply.splits)
  then show ?case
  proof cases
    case written
    from Cons.IH [OF written(3) fits plain rest] step has written(1) j(2) show ?thesis
      by (auto simp: item es accepted_def doc_step_def)
  next
    case conflict
    from Cons.IH [OF conflict(3) Cons.prems(2,3) rest] has same conflict(1) j(2) show ?thesis
      by (auto simp: item es accepted_def doc_step_def)
  next
    case refused
    from Cons.IH [OF refused(3) Cons.prems(2,3) rest] refused(1,2) show ?thesis
      by (auto simp: es accepted_def)
  qed
qed

section \<open>Document steps\<close>

lemma with_engine_same:
  assumes "aliases (view c (with_engine c s' w)) = aliases (view c w)"
  shows "targets c (with_engine c s' w) = targets c w" "registered (with_engine c s' w) = registered w"
  using assms by (auto simp: targets_def with_engine_registered fun_eq_iff)

lemma later_same: "\<lbrakk>time w \<le> time w'; index_names w \<subseteq> index_names w'; changes w' = changes w; table w' = table w\<rbrakk> \<Longrightarrow> later w w'"
  by (simp add: later_def in_table_def)

lemma quiet_docs:
  assumes "doc_step (view c w) (view c (with_engine c s' w))"
  shows "quiet_step c w (with_engine c s' w)"
  using assms with_engine_same [of c s' w] by (auto simp: quiet_step_def doc_step_def intro: later_same)

lemma entry_fits_same: "\<lbrakk>changes w' = changes w; table w' = table w\<rbrakk> \<Longrightarrow> entry_fits c w' = entry_fits c w"
  by (simp add: entry_fits_def fun_eq_iff logged_def in_table_def)

lemma world_docs:
  assumes "search_world_ok c w" "doc_step (view c w) (view c (with_engine c s' w))" "docs_fit c w (view c (with_engine c s' w))"
  shows "search_world_ok c (with_engine c s' w)"
proof -
  have a: "aliases (view c (with_engine c s' w)) = aliases (view c w)" using assms(2) by (simp add: doc_step_def)
  note same = with_engine_same [OF a]
  have "docs_fit c (with_engine c s' w) (view c (with_engine c s' w))"
    using assms(3) by (simp add: docs_fit_def entry_fits_same [of "with_engine c s' w" w])
  with assms(1) same a show ?thesis
    by (simp add: search_world_ok_def rows_fit_def aliases_fit_def caches_fit_def names_fit_def misses_since_def lock_fits_def)
qed

lemma inv_docs:
  assumes "search_inv c w ks" "i < length ks" "ks ! i = (t, k)" "doc_step (view c w) (view c (with_engine c s' w))"
    and "docs_fit c w (view c (with_engine c s' w))" "session_of (t, k') = None \<or> session_of (t, k') = session_of (t, k)"
    and "task_facts c (with_engine c s' w) t k \<Longrightarrow> task_facts c (with_engine c s' w) t k'"
  shows "search_inv c (with_engine c s' w) (ks[i := (t, k')])"
proof -
  have ok: "search_world_ok c w" "task_facts c w t k" using assms(1) inv_task [OF assms(1-3)] by (simp_all add: search_inv_def)
  have "task_facts c (with_engine c s' w) t k"
    by (rule task_quiet [OF ok(2) quiet_docs [OF assms(4)] ok(1)]) simp_all
  with assms(7) have "task_facts c (with_engine c s' w) t k'" by simp
  then show ?thesis
    by (intro inv_quiet [OF assms(1-3) quiet_docs [OF assms(4)] world_docs [OF ok(1) assms(4,5)] _ _ _ _ assms(6)]) simp_all
qed

section \<open>Reading and writing\<close>

text \<open>The reply to a command, which may have been executed without it.\<close>

definition answers :: "es_command \<Rightarrow> es_view \<Rightarrow> es_view \<Rightarrow> search_reply \<Rightarrow> bool" where
  "answers q v v' r \<longleftrightarrow> (v' = v \<and> (r = Outcome EsFailed \<or> r = Cancelled))
     \<or> (\<exists>r'. es_effect q v v' r' \<and> (r = Outcome r' \<or> r = Outcome EsFailed \<or> r = Cancelled))"

lemma exec_answers:
  assumes "search_setting_ok c" "es_exec (engine_of c) (engine w) q s' r"
  shows "answers q (view c w) (view c (with_engine c s' w)) (Outcome r)" "answers q (view c w) (view c (with_engine c s' w)) Cancelled"
  using es_step [OF assms] by (auto simp: answers_def)

lemma unique_names_set: "set (unique_names xs) = set xs"
  by (simp add: unique_names_def)

lemma target_facts_know [simp]: "target_facts c w n r (know_alias c a names k) = target_facts c w n r k"
  by (simp add: target_facts_def scan_facts_def know_alias_def)

lemma know_alias_facts:
  assumes "search_world_ok c w" "task_facts c w t k" "aliases (view c w) a = names" "consumer t \<Longrightarrow> a = target_name c \<and> asked k \<noteq> None"
  shows "task_facts c w t (know_alias c a names k)"
proof -
  have targets: "set names = targets c w" if "a = target_name c" using assms(3) that by (auto simp: targets_def)
  have fits: "names_fit c w (unique_names (logical c # names))" if "a = target_name c"
    using assms(1) targets [OF that] by (auto simp: names_fit_def unique_names_set search_world_ok_def aliases_fit_def)
  have misses: "misses_since c w x (unique_names (logical c # names))" "missed_after c w x (unique_names (logical c # names))"
    if "a = target_name c" for x
    using targets [OF that] by (auto simp: misses_since_def missed_after_def unique_names_set)
  show ?thesis
  proof (cases t)
    case (Upsert p i v x)
    with assms(2,4) fits misses target_not_logical [of c] show ?thesis
      by (auto simp: know_alias_def upsert_facts_def consumer_facts_def write_facts_def)
  next
    case (Removal p i)
    with assms(2,4) fits misses target_not_logical [of c] show ?thesis
      by (auto simp: know_alias_def consumer_facts_def)
  next
    case (Rebuild p s)
    have "owner_facts c w k \<Longrightarrow> owner_facts c w (know_alias c a names k)"
      using assms(3) target_not_logical [of c] unfolding owner_facts_def target_facts_know by (auto simp: know_alias_def)
    with Rebuild assms(2) show ?thesis by auto
  qed
qed

lemma wrote_facts:
  assumes "upsert_facts c w p i v t k" "found k = Some names" "name \<in> set names" "search_world_ok c w"
    and "in_table w i \<Longrightarrow> \<exists>index. resolve (view c w) name = Some index \<and> atleast c w index i v"
  shows "upsert_facts c w p i v t (k\<lparr>wrote := insert name (wrote k)\<rparr>)"
proof -
  have a: "resolve (view c w) (logical c) = Some (live c w)" "\<And>n. plain_name c n \<Longrightarrow> resolve (view c w) n = Some n"
    using assms(4) by (auto simp: search_world_ok_def aliases_fit_def resolve_def live_def)
  have "write_facts c w i v names (k\<lparr>wrote := insert name (wrote k)\<rparr>)" if i: "in_table w i"
  proof -
    have "write_facts c w i v names k" using assms(1,2) i by (simp add: upsert_facts_def)
    moreover have "name = logical c \<or> plain_name c name" using assms(1-3) by (auto simp: upsert_facts_def names_fit_def)
    ultimately show ?thesis using assms(5) [OF i] a by (auto simp: write_facts_def)
  qed
  with assms(1-3) show ?thesis by (auto simp: upsert_facts_def consumer_facts_def)
qed

lemma exec_index:
  assumes "search_inv c w ks" "j < length ks" "ks ! j = (Upsert p i v t, k)"
    and "renders c i v d" "found k = Some names" "name \<in> set names"
    and "answers (IndexDoc name (WStr i) d (Some (v + 1))) (view c w) (view c (with_engine c s' w)) r"
  shows "search_inv c (with_engine c s' w) (ks[j := (Upsert p i v t, learn_command c k (IndexDoc name (WStr i) d (Some (v + 1))) r)])"
proof -
  let ?w = "with_engine c s' w" and ?k = "learn_command c k (IndexDoc name (WStr i) d (Some (v + 1))) r"
  have ok: "search_world_ok c w" "upsert_facts c w p i v t k"
    using assms(1) inv_task [OF assms(1-3)] by (simp_all add: search_inv_def)
  have i: "(i, v, t) \<in> set (changes w)" using ok(2) by (simp add: upsert_facts_def)
  have fits: "entry_fits c w i (v + 1) (Some d)"
    using logged_change [OF i] i assms(4) by (auto simp: entry_fits_def)
  consider "view c ?w = view c w" "r = Outcome EsFailed \<or> r = Cancelled"
    | r' where "(view c ?w, r') = write_doc name (WStr i) (Some (v + 1)) (Some d) (view c w)"
        "r = Outcome r' \<or> r = Outcome EsFailed \<or> r = Cancelled"
    using assms(7) by (auto simp: answers_def)
  then show ?thesis
  proof cases
    case 1
    then have "?k = k" by (auto simp: learn_command_def)
    with 1(1) ok(1) show ?thesis by (intro inv_docs [OF assms(1-3)]) (auto simp: search_world_ok_def doc_step_same)
  next
    case 2
    have step: "doc_step (view c w) (view c ?w)"
      using write_doc_step [of "view c w" name "WStr i" "Some (v + 1)" "Some d"] 2(1) by (metis fst_conv)
    have "docs_fit c w (fst (write_doc name (WStr i) (Some (v + 1)) (Some d) (view c w)))"
      by (rule write_doc_fits) (use ok(1) fits in \<open>auto simp: search_world_ok_def\<close>)
    with 2(1) have docs: "docs_fit c w (view c ?w)" by (metis fst_conv)
    have has: "\<exists>index. resolve (view c ?w) name = Some index \<and> atleast c ?w index i v" if "r' = Acknowledged \<or> r' = Conflict"
    proof -
      have "resolve (view c ?w) name = resolve (view c w) name" using step by (simp add: resolve_def doc_step_def)
      with write_doc_has [OF 2(1) [symmetric] that] show ?thesis by (auto simp: atleast_def)
    qed
    have "task_facts c ?w (Upsert p i v t) ?k" if "task_facts c ?w (Upsert p i v t) k"
      using that 2(2) wrote_facts [OF _ assms(5,6) world_docs [OF ok(1) step docs] has]
      by (auto simp: learn_command_def split: if_splits)
    then show ?thesis by (intro inv_docs [OF assms(1-3) step docs]) auto
  qed
qed

lemma exec_delete_doc:
  assumes "search_inv c w ks" "j < length ks" "ks ! j = (Removal p i, k)"
    and "answers (DeleteDoc name (WStr i) version) (view c w) (view c (with_engine c s' w)) r"
  shows "search_inv c (with_engine c s' w) (ks[j := (Removal p i, k)])"
proof -
  let ?w = "with_engine c s' w"
  have ok: "search_world_ok c w" "logged w i" "\<not> in_table w i"
    using assms(1) inv_task [OF assms(1-3)] by (simp_all add: search_inv_def)
  let ?d = "fst (write_doc name (WStr i) version None (view c w))"
  have "view c ?w = view c w \<or> view c ?w = ?d" using assms(4) by (auto simp: answers_def)
  moreover have "docs_fit c w ?d"
    by (rule write_doc_fits) (use ok in \<open>auto simp: search_world_ok_def entry_fits_def\<close>)
  moreover have "doc_step (view c w) ?d" by (rule write_doc_step)
  ultimately have "doc_step (view c w) (view c ?w)" "docs_fit c w (view c ?w)"
    using ok(1) by (auto simp: search_world_ok_def doc_step_same)
  then show ?thesis by (intro inv_docs [OF assms(1-3)]) auto
qed

lemma learn_command_owner [simp]: "owner (learn_command c k q r) = owner k"
  by (cases q) (auto simp: learn_command_def know_alias_def know_update_def split: search_reply.split es_reply.split alias_action.split)

text \<open>Commands that change no document and no alias.\<close>

fun neutral :: "es_command \<Rightarrow> bool" where
  "neutral (IndexExists name) \<longleftrightarrow> True"
| "neutral (CreateIndex name body) \<longleftrightarrow> True"
| "neutral (AliasExists a) \<longleftrightarrow> True"
| "neutral (GetAlias a) \<longleftrightarrow> True"
| "neutral (Refresh name) \<longleftrightarrow> True"
| "neutral (GetDoc name i) \<longleftrightarrow> True"
| "neutral (SearchDocs name query n offset order after) \<longleftrightarrow> True"
| "neutral (CountDocs name query) \<longleftrightarrow> True"
| "neutral q \<longleftrightarrow> False"

lemma neutral_learns:
  assumes "neutral q" "answers q v v' r"
  shows "learn_command c k q r = k \<or> (\<exists>a. (q = AliasExists a \<or> q = GetAlias a) \<and> learn_command c k q r = know_alias c a (aliases v a) k)"
proof -
  consider "\<forall>a. q \<noteq> AliasExists a \<and> q \<noteq> GetAlias a" | a where "q = AliasExists a" | a where "q = GetAlias a" by blast
  then show ?thesis
  proof cases
    case 1
    with assms(1) show ?thesis by (cases q) (simp_all add: learn_command_def)
  next
    case (2 a)
    with assms(2) show ?thesis by (auto simp: learn_command_def answers_def)
  next
    case (3 a)
    with assms(2) show ?thesis by (auto simp: learn_command_def answers_def)
  qed
qed

lemma exec_neutral:
  assumes "search_inv c w ks" "j < length ks" "ks ! j = (t, k)" "neutral q"
    and "\<And>a. q = AliasExists a \<or> q = GetAlias a \<Longrightarrow> consumer t \<Longrightarrow> a = target_name c \<and> asked k \<noteq> None"
    and "answers q (view c w) (view c (with_engine c s' w)) r"
  shows "search_inv c (with_engine c s' w) (ks[j := (t, learn_command c k q r)])"
proof -
  let ?w = "with_engine c s' w"
  have ok: "search_world_ok c w" using assms(1) by (simp add: search_inv_def)
  have same: "documents (view c ?w) = documents (view c w)" "aliases (view c ?w) = aliases (view c w)"
    using assms(4,6) by (cases q; auto simp: answers_def)+
  then have step: "doc_step (view c w) (view c ?w)" by (simp add: doc_step_def has_version_def)
  have docs: "docs_fit c w (view c ?w)" using ok same by (simp add: search_world_ok_def docs_fit_def)
  note ok' = world_docs [OF ok step docs]
  have facts: "task_facts c ?w t (learn_command c k q r)" if f: "task_facts c ?w t k"
  proof -
    consider "learn_command c k q r = k" | a names where "q = AliasExists a \<or> q = GetAlias a"
      "aliases (view c w) a = names" "learn_command c k q r = know_alias c a names k"
      using assms(6) neutral_learns [OF assms(4)] by blast
    then show ?thesis
    proof cases
      case 2
      show ?thesis unfolding 2(3) by (rule know_alias_facts [OF ok' f]) (use 2(1,2) assms(5) same in auto)
    qed (use f in simp)
  qed
  have "session_of (t, learn_command c k q r) = session_of (t, k)"
    by (cases t) simp_all
  with facts show ?thesis by (intro inv_docs [OF assms(1-3) step docs]) auto
qed

end
