(* ===== verification/SearchRebuild.thy ===== *)
theory SearchRebuild
  imports SearchSteps
begin

text \<open>The steps of a rebuild job: the scan, and the changes of aliases that only the owner of the lock makes.\<close>

section \<open>The scan\<close>

lemma scan_page_table: "set (scan_page pl last_id limit rows) \<subseteq> set rows"
  by (auto simp: scan_page_def dest!: in_set_takeD)

lemma scan_page_empty:
  assumes "scan_page pl last_id limit rows = []" "0 < limit" "(i, v) \<in> set rows"
  shows "\<not> beyond_id pl last_id i"
proof
  assume "beyond_id pl last_id i"
  with assms(3) have "(i, v) \<in> set (sort_key (\<lambda>(i, v). pl_collate pl i) (filter (\<lambda>(i, v). beyond_id pl last_id i) rows))" by simp
  with assms(1,2) show False by (auto simp: scan_page_def)
qed

text \<open>A row that sorts no later than the last row of a batch is in it, or is not beyond the previous batch.\<close>

lemma scan_page_covers:
  assumes "scan_page pl last_id limit rows = xs" "xs \<noteq> []" "(i, v) \<in> set rows" "beyond_id pl last_id i"
    and "\<not> pl_collate pl (fst (last xs)) < pl_collate pl i" "inj (pl_collate pl)" "distinct (map fst rows)"
  shows "(i, v) \<in> set xs"
proof -
  let ?key = "\<lambda>(i, v). pl_collate pl i" and ?f = "filter (\<lambda>(i, v). beyond_id pl last_id i) rows"
  let ?s = "sort_key ?key ?f"
  have xs: "xs = take limit ?s" using assms(1) by (simp add: scan_page_def)
  have mem: "(i, v) \<in> set ?s" using assms(3,4) by simp
  show ?thesis
  proof (rule ccontr)
    assume no: "(i, v) \<notin> set xs"
    have "set ?s = set (take limit ?s) \<union> set (drop limit ?s)" by (metis append_take_drop_id set_append)
    with mem no xs have d: "(i, v) \<in> set (drop limit ?s)" by blast
    have "sorted (map ?key (take limit ?s @ drop limit ?s))" by simp
    then have "\<forall>x \<in> set (take limit ?s). \<forall>y \<in> set (drop limit ?s). ?key x \<le> ?key y"
      by (simp only: map_append sorted_append set_map ball_simps) blast
    moreover have l: "last xs \<in> set (take limit ?s)" using assms(2) xs by simp
    ultimately have "?key (last xs) \<le> pl_collate pl i" using d by fastforce
    with assms(5) have "pl_collate pl (fst (last xs)) = pl_collate pl i" by (simp add: case_prod_unfold)
    with assms(6) have same: "fst (last xs) = i" by (simp add: inj_eq)
    have "last xs \<in> set rows" using l by (auto dest: in_set_takeD)
    with same assms(3,7) have "last xs = (i, v)" using eq_key_imp_eq_value [of rows i] by (metis prod.collapse)
    with no assms(2) show False by (metis last_in_set)
  qed
qed

lemma last_id_rows:
  assumes "search_setting_ok c" "xs \<noteq> []"
  shows "last_id_of (map (\<lambda>(i, v). sql_row c i v) xs) = Some (WStr (fst (last xs)))"
  using assms by (cases "last xs") (auto simp: last_id_of_def last_map search_setting_ok_def row_ok_def)

lemma select_facts:
  assumes "search_setting_ok c" "search_world_ok c w" "target_facts c w n r k" "ready k" "0 < limit"
    and "rows = map (\<lambda>(i, v). sql_row c i v) (scan_page (platform_of c) (scanned k) limit (table w))"
  shows "target_facts c w n r (k\<lparr>batch := rows, complete := complete k \<or> rows = []\<rparr>)"
proof -
  let ?xs = "scan_page (platform_of c) (scanned k) limit (table w)"
  have fits: "rows_fit w" "inj (pl_collate (platform_of c))" using assms(1,2) by (simp_all add: search_world_ok_def search_setting_ok_def)
  have scan: "indexed c w n (r + 1) (not_beyond c (scanned k))" "complete k \<Longrightarrow> indexed c w n (r + 1) (\<lambda>_. True)" "r + 1 \<le> time w"
    using assms(3,4) by (auto simp: target_facts_def scan_facts_def)
  have row: "\<exists>v. (j, v) \<in> set (table w) \<and> u \<le> v" if "(j, u, t) \<in> set (changes w)" "in_table w j" for j u t
    using that fits(1) by (fastforce simp: in_table_def rows_fit_def)
  have all: "indexed c w n (r + 1) (\<lambda>_. True)" if "?xs = []"
    unfolding indexed_def
  proof (clarify)
    fix j u t
    assume j: "(j, u, t) \<in> set (changes w)" "in_table w j" "t < r + 1"
    from row [OF j(1,2)] scan_page_empty [OF that assms(5)] have "not_beyond c (scanned k) j" by blast
    with scan(1) j show "atleast c w n j u" by (auto simp: indexed_def)
  qed
  have "batch_facts c w n (r + 1) rows" unfolding batch_facts_def
  proof (intro exI [of _ ?xs] conjI impI)
    show "\<forall>(i, v) \<in> set ?xs. \<exists>t. (i, v, t) \<in> set (changes w)"
      using scan_page_table [of "platform_of c" "scanned k" limit "table w"] fits(1) unfolding rows_fit_def by blast
    assume ne: "?xs \<noteq> []"
    show "\<forall>(j, u, t) \<in> set (changes w). in_table w j \<longrightarrow> t < r + 1 \<longrightarrow> not_beyond c (last_id_of rows) j
        \<longrightarrow> atleast c w n j u \<or> (\<exists>v. u \<le> v \<and> (j, v) \<in> set ?xs)"
    proof (clarify)
      fix j u t
      assume j: "(j, u, t) \<in> set (changes w)" "in_table w j" "t < r + 1" "not_beyond c (last_id_of rows) j"
        "\<not> (\<exists>v. u \<le> v \<and> (j, v) \<in> set ?xs)"
      from row [OF j(1,2)] obtain v where v: "(j, v) \<in> set (table w)" "u \<le> v" by blast
      have "\<not> pl_collate (platform_of c) (fst (last ?xs)) < pl_collate (platform_of c) j"
        using j(4) last_id_rows [OF assms(1) ne] assms(6) by simp
      then have "\<not> beyond_id (platform_of c) (scanned k) j"
        using scan_page_covers [OF refl ne v(1) _ _ fits(2)] j(5) v(2) fits(1) by (auto simp: rows_fit_def)
      with scan(1) j show "atleast c w n j u" by (auto simp: indexed_def)
    qed
  qed (use assms(6) in auto)
  with assms(3,4,6) all show ?thesis by (auto simp: target_facts_def scan_facts_def)
qed

text \<open>An accepted bulk has brought the index up to the rows of its batch.\<close>

lemma transform_all_rows:
  assumes "transform_all pl index (map row_to_dict (map f xs)) = Inr ds" "x \<in> set xs"
  shows "\<exists>d \<in> set ds. transform pl index (row_to_dict (f x)) = Inr d"
  using assms by (induction xs arbitrary: ds) (auto elim!: rbindE)

lemma transform_all_docs:
  assumes "transform_all pl index (map row_to_dict (map f xs)) = Inr ds" "d \<in> set ds"
  shows "\<exists>x \<in> set xs. transform pl index (row_to_dict (f x)) = Inr d"
  using assms by (induction xs arbitrary: ds) (auto elim!: rbindE)

lemma exec_bulk:
  assumes "search_inv c w ks" "j < length ks" "ks ! j = (Rebuild p s, k)" "owner k" "s \<notin> dead w"
    and "is_target k" "ready k" "batch k \<noteq> []" "fresh_index k = Some n"
    and "transform_all (platform_of c) (logical c) (map row_to_dict (batch k)) = Inr ds"
    and "answers (Bulk (bulk_items n ds)) (view c w) (view c (with_engine c s' w)) r"
  shows "search_inv c (with_engine c s' w) (ks[j := (Rebuild p s, learn_command c k (Bulk (bulk_items n ds)) r)])"
proof -
  let ?w = "with_engine c s' w" and ?k = "learn_command c k (Bulk (bulk_items n ds)) r"
  have ok: "search_setting_ok c" "search_world_ok c w" "owner_facts c w k"
    using assms(1,4,5) inv_task [OF assms(1-3)] by (simp_all add: search_inv_def)
  then obtain x where x: "target_facts c w n x k" "plain_name c n" using assms(6,9) by (auto simp: owner_facts_def)
  obtain xs where xs: "batch k = map (\<lambda>(i, v). sql_row c i v) xs" "\<forall>(i, v) \<in> set xs. \<exists>t. (i, v, t) \<in> set (changes w)"
    "\<And>i u t. \<lbrakk>xs \<noteq> []; (i, u, t) \<in> set (changes w); in_table w i; t < x + 1; not_beyond c (last_id_of (batch k)) i\<rbrakk>
        \<Longrightarrow> atleast c w n i u \<or> (\<exists>v. u \<le> v \<and> (i, v) \<in> set xs)"
    using x(1) assms(7) unfolding target_facts_def scan_facts_def batch_facts_def by fastforce
  have row: "dget d ''id'' = WStr i" "document_external_version d = Some (v + 1)" "i \<noteq> []" "entry_fits c w i (v + 1) (Some d)"
    if iv: "(i, v) \<in> set xs" and d: "transform (platform_of c) (logical c) (row_to_dict (sql_row c i v)) = Inr d" for i v d
  proof -
    obtain t where t: "(i, v, t) \<in> set (changes w)" using xs(2) iv by blast
    with ok(2) have v: "0 \<le> v" "i \<noteq> []" by (auto simp: search_world_ok_def rows_fit_def)
    have r: "row_ok (row_to_dict (sql_row c i v)) i v" using ok(1) by (simp add: search_setting_ok_def)
    show "dget d ''id'' = WStr i" "document_external_version d = Some (v + 1)" by (rule transform_row [OF d r v(1)])+
    show "i \<noteq> []" by (rule v)
    show "entry_fits c w i (v + 1) (Some d)" using logged_change [OF t] t d by (auto simp: entry_fits_def renders_def)
  qed
  have docs: "\<exists>i v. (i, v) \<in> set xs \<and> transform (platform_of c) (logical c) (row_to_dict (sql_row c i v)) = Inr d" if "d \<in> set ds" for d
    using transform_all_docs [of "platform_of c" "logical c" "\<lambda>(i, v). sql_row c i v" xs ds d] assms(10) xs(1) that by auto
  have items: "\<forall>(name, i, version, d) \<in> set (bulk_items n ds). plain_name c name
      \<and> (\<exists>j u. i = WStr j \<and> version = Some (u + 1) \<and> entry_fits c w j (u + 1) (Some d))"
    using docs row x(2) by (fastforce simp: bulk_items_def)
  have plain: "\<And>a. plain_name c a \<Longrightarrow> aliases (view c w) a = []" "docs_fit c w (view c w)"
    using ok(2) by (simp_all add: search_world_ok_def aliases_fit_def)
  have step: "doc_step (view c w) (view c ?w) \<and> docs_fit c w (view c ?w)"
    using assms(11) bulk_step [OF _ plain(2,1) items] plain(2) by (auto simp: answers_def doc_step_same)
  have facts: "owner_facts c ?w ?k" if f: "owner_facts c ?w k"
  proof (cases "?k = k")
    case False
    then obtain es where es: "r = Outcome (Items es)" "accepted es" "?k = k\<lparr>scanned := last_id_of (batch k), batch := []\<rparr>"
      by (auto simp: learn_command_def split: search_reply.splits es_reply.splits if_splits)
    with assms(11) have "bulk_answers (bulk_items n ds) (view c w) (view c ?w) es" by (auto simp: answers_def)
    from bulk_step [OF this plain(2,1) items] es(2)
    have has: "\<forall>(name, i, version, d) \<in> set (bulk_items n ds). \<forall>m. version = Some m \<longrightarrow> has_version (view c ?w) name i m" by blast
    have new: "atleast c ?w n i v" if iv: "(i, v) \<in> set xs" for i v
    proof -
      obtain d where d: "d \<in> set ds" "transform (platform_of c) (logical c) (row_to_dict (sql_row c i v)) = Inr d"
        using transform_all_rows [of "platform_of c" "logical c" "\<lambda>(i, v). sql_row c i v" xs ds "(i, v)"] assms(10) xs(1) iv by auto
      note r = row [OF iv d(2)]
      then have "(n, WStr i, Some (v + 1), d) \<in> set (bulk_items n ds)"
        using d(1) by (force simp: bulk_items_def)
      with has show ?thesis by (fastforce simp: atleast_def)
    qed
    have same: "changes ?w = changes w" "in_table ?w = in_table w" by (simp_all add: in_table_def fun_eq_iff)
    have xs0: "xs \<noteq> []" using assms(8) xs(1) by auto
    have mono: "atleast c w i j u \<Longrightarrow> atleast c ?w i j u" for i j u using step by (auto simp: atleast_def doc_step_def)
    have below: "atleast c ?w i j v \<Longrightarrow> u \<le> v \<Longrightarrow> atleast c ?w i j u" for i j u v
      unfolding atleast_def has_version_def by (meson add_le_cancel_right order_trans)
    have "indexed c ?w n (x + 1) (not_beyond c (last_id_of (batch k)))"
      unfolding indexed_def same using xs(3) [OF xs0] mono new below by blast
    moreover obtain y where y: "target_facts c ?w n y k" using f assms(6,9) by (auto simp: owner_facts_def)
    moreover have "y = x"
      using y x(1) with_engine_same(2) [of c s' w] step by (auto simp: target_facts_def doc_step_def)
    ultimately have "target_facts c ?w n x ?k"
      using assms(7) unfolding es(3) by (auto simp: target_facts_def scan_facts_def batch_facts_def)
    with f assms(9) es(3) show ?thesis by (auto simp: owner_facts_def)
  qed (use f in simp)
  then show ?thesis using step by (intro inv_docs [OF assms(1-3)]) auto
qed

end
