(* ===== verification/SearchOwner.thy ===== *)
theory SearchOwner
  imports SearchRebuild
begin

text \<open>
  What only the owner of the lock does: it makes its index a target, swaps the alias, clears the
  target and deletes indices. Then the invariant is kept by every step.
\<close>

section \<open>Aliases\<close>

lemma act_removes:
  "act_aliases (map (\<lambda>old. RemoveAlias old a False) olds @ rest) v
   = act_aliases rest (v\<lparr>aliases := (aliases v)(a := filter (\<lambda>n. n \<notin> set olds) (aliases v a))\<rparr>)"
proof (induction olds arbitrary: v)
  case (Cons old olds)
  have "filter (\<lambda>n. n \<notin> set olds) (removeAll old xs) = filter (\<lambda>n. n \<notin> set (old # olds)) xs" for xs
    by (auto simp: removeAll_filter_not_eq intro: filter_cong)
  with Cons show ?case by (simp add: fun_upd_def cong: if_cong)
qed simp

lemma world_evolves:
  assumes "search_world_ok c w" "evolves c w (with_engine c s' w)" "docs_fit c w (view c (with_engine c s' w))"
    and "aliases_fit c (with_engine c s' w)"
  shows "search_world_ok c (with_engine c s' w)"
proof -
  let ?w = "with_engine c s' w"
  have "docs_fit c ?w (view c ?w)" using assms(3) by (simp add: docs_fit_def entry_fits_same [of ?w w])
  moreover have "caches_fit c ?w"
    using assms(1) names_fit_evolves [OF _ assms(2)] misses_evolves [OF _ assms(2)]
    unfolding search_world_ok_def caches_fit_def with_engine_fields by blast
  ultimately show ?thesis using assms(1,4) by (simp add: search_world_ok_def rows_fit_def lock_fits_def)
qed

lemma in_table_engine: "in_table (with_engine c s' w) = in_table w" "logged (with_engine c s' w) = logged w"
  by (simp_all add: in_table_def logged_def fun_eq_iff)

lemma later_engine: "later w (with_engine c s' w)"
  by (rule later_same) simp_all

lemma evolves_engine:
  assumes "\<And>n. n \<in> targets c (with_engine c s' w) \<Longrightarrow> n \<in> targets c w \<or> registered w n = None"
    and "live c (with_engine c s' w) = live c w \<or> (live c (with_engine c s' w) \<in> targets c w
        \<and> (\<exists>r. registered w (live c (with_engine c s' w)) = Some r \<and> indexed c w (live c (with_engine c s' w)) (r + 1) (\<lambda>_. True)))"
    and "\<And>index i v. \<lbrakk>in_table w i; index \<in> targets c (with_engine c s' w) \<or> index = live c (with_engine c s' w); atleast c w index i v\<rbrakk>
        \<Longrightarrow> atleast c (with_engine c s' w) index i v"
  shows "evolves c w (with_engine c s' w)"
proof -
  have "registered (with_engine c s' w) n = Some r" if "registered w n = Some r" for n r
    using that assms(1) [of n] by (auto simp: with_engine_registered)
  moreover have "n \<in> targets c w \<or> (registered w n = None \<and> (\<exists>r. registered (with_engine c s' w) n = Some r \<and> time w \<le> r))"
    if "n \<in> targets c (with_engine c s' w)" for n
    using that assms(1) [of n] by (auto simp: with_engine_registered)
  ultimately show ?thesis
    using assms(2,3) later_engine [of w c s'] unfolding evolves_def in_table_engine by blast
qed

text \<open>A weaker knowledge holds where the view has not changed.\<close>

lemma inv_view:
  assumes "search_inv c w ks" "j < length ks" "ks ! j = (Rebuild p s, k)" "view c (with_engine c s' w) = view c w"
    and "owner k' = owner k" "owner_facts c (with_engine c s' w) k \<Longrightarrow> owner_facts c (with_engine c s' w) k'"
  shows "search_inv c (with_engine c s' w) (ks[j := (Rebuild p s, k')])"
proof (rule inv_docs [OF assms(1-3)])
  show "docs_fit c w (view c (with_engine c s' w))" using assms(1,4) by (simp add: search_inv_def search_world_ok_def)
qed (use assms(4-6) doc_step_same in auto)

lemma inv_owner:
  assumes "search_inv c w ks" "j < length ks" "ks ! j = (Rebuild p s, k)" "owner k" "s \<notin> dead w"
    and "evolves c w (with_engine c s' w)" "documents (view c (with_engine c s' w)) = documents (view c w)
      \<or> docs_fit c w (view c (with_engine c s' w))" "aliases_fit c (with_engine c s' w)"
    and "owner k'" "owner_facts c (with_engine c s' w) k'"
  shows "search_inv c (with_engine c s' w) (ks[j := (Rebuild p s, k')])"
proof -
  have ok: "search_world_ok c w" "s \<in> sessions w" "lock w = Some s"
    using assms(1,4,5) inv_task [OF assms(1-3)] by (simp_all add: search_inv_def)
  have docs: "docs_fit c w (view c (with_engine c s' w))"
    using ok(1) assms(7) by (auto simp: search_world_ok_def docs_fit_def)
  show ?thesis
    by (rule inv_alone [OF assms(1-6) world_evolves [OF ok(1) assms(6) docs assms(8)]]) (use ok assms(9,10) in simp_all)
qed

lemma own_alias_facts:
  assumes "search_inv c w ks" "j < length ks" "ks ! j = (Rebuild p s, k)" "owner k" "s \<notin> dead w"
  shows "search_world_ok c w" "owner_facts c w k" "aliases_fit c w" "aliases (view c w) (logical c) = [live c w]"
    "n \<in> targets c w \<Longrightarrow> n \<noteq> logical c \<and> registered w n \<noteq> None" "target_name c \<noteq> logical c"
proof -
  show ok: "search_world_ok c w" "owner_facts c w k"
    using assms(1,4,5) inv_task [OF assms(1-3)] by (simp_all add: search_inv_def)
  then show a: "aliases_fit c w" by (simp add: search_world_ok_def)
  then show "aliases (view c w) (logical c) = [live c w]" by (auto simp: aliases_fit_def live_def)
  show "n \<in> targets c w \<Longrightarrow> n \<noteq> logical c \<and> registered w n \<noteq> None" using a by (simp add: aliases_fit_def plain_name_def)
  show "target_name c \<noteq> logical c" by (rule target_not_logical)
qed

lemma exec_target:
  assumes "search_inv c w ks" "j < length ks" "ks ! j = (Rebuild p s, k)" "owner k" "s \<notin> dead w"
    and "fresh_index k = Some n" "\<not> tried k"
    and "view c (with_engine c s' w) = view c w\<lparr>aliases := (aliases (view c w))(target_name c := List.insert n
          (filter (\<lambda>n. n \<notin> set olds) (aliases (view c w) (target_name c))))\<rparr>"
  shows "search_inv c (with_engine c s' w) (ks[j := (Rebuild p s,
    know_update c (map (\<lambda>old. RemoveAlias old (target_name c) False) olds @ [AddAlias n (target_name c)]) ok k)])"
proof -
  let ?w = "with_engine c s' w"
  note own = own_alias_facts [OF assms(1-5)]
  have n: "plain_name c n" "registered w n = None" "n \<in> index_names w" using own(2) assms(6,7) by (auto simp: owner_facts_def)
  have fields: "documents (view c ?w) = documents (view c w)" "aliases (view c ?w) (logical c) = aliases (view c w) (logical c)"
    "live c ?w = live c w" "\<And>a. plain_name c a \<Longrightarrow> aliases (view c ?w) a = aliases (view c w) a"
    using assms(8) own(6) by (auto simp: live_def plain_name_def)
  have targets: "targets c ?w = insert n {m \<in> targets c w. m \<notin> set olds}"
    using assms(8) by (auto simp: targets_def)
  have nt: "n \<notin> targets c w" using own(5) n(2) by blast
  have reg: "registered ?w m = (if m = n then Some (time w) else registered w m)" for m
    using targets nt by (auto simp: with_engine_registered)
  have ev: "evolves c w ?w"
    by (rule evolves_engine) (use targets n(2) fields in \<open>auto simp: atleast_def has_version_def\<close>)
  have "aliases_fit c ?w"
    using own(3) fields n targets reg unfolding aliases_fit_def by (auto split: if_splits)
  moreover have "owner_facts c ?w (know_update c (map (\<lambda>old. RemoveAlias old (target_name c) False) olds
      @ [AddAlias n (target_name c)]) ok k)"
    using own(2,6) assms(6) targets reg fields by (auto simp: know_update_def owner_facts_def target_facts_def)
  ultimately show ?thesis using own(6) assms(4) fields(1)
    by (intro inv_owner [OF assms(1-5) ev]) (auto simp: know_update_def)
qed

lemma exec_swap:
  assumes "search_inv c w ks" "j < length ks" "ks ! j = (Rebuild p s, k)" "owner k" "s \<notin> dead w"
    and "fresh_index k = Some n" "is_target k" "complete k" "reading k = Some olds"
    and "view c (with_engine c s' w) = view c w\<lparr>aliases := (aliases (view c w))(logical c := List.insert n
          (filter (\<lambda>n. n \<notin> set olds) (aliases (view c w) (logical c))))\<rparr>"
  shows "search_inv c (with_engine c s' w) (ks[j := (Rebuild p s,
    know_update c (map (\<lambda>old. RemoveAlias old (logical c) False) olds @ [AddAlias n (logical c)]) ok k)])"
proof -
  let ?w = "with_engine c s' w"
  note own = own_alias_facts [OF assms(1-5)]
  obtain r where r: "target_facts c w n r k" "plain_name c n" using own(2) assms(6,7) by (auto simp: owner_facts_def)
  have "ready k" using r(1) assms(8) by (auto simp: target_facts_def split: if_splits)
  with r(1) assms(8) have t: "n \<in> targets c w" "registered w n = Some r" "indexed c w n (r + 1) (\<lambda>_. True)"
    by (auto simp: target_facts_def scan_facts_def)
  have "aliases (view c w) (logical c) = olds" using own(2) assms(9) by (simp add: owner_facts_def)
  then have fields: "documents (view c ?w) = documents (view c w)" "aliases (view c ?w) (logical c) = [n]"
    "live c ?w = n" "\<And>a. plain_name c a \<Longrightarrow> aliases (view c ?w) a = aliases (view c w) a" "targets c ?w = targets c w"
    using assms(10) own(6) by (auto simp: live_def plain_name_def targets_def)
  have reg: "registered ?w = registered w" using fields(5) by (auto simp: with_engine_registered fun_eq_iff)
  have ev: "evolves c w ?w"
    by (rule evolves_engine) (use t fields in \<open>auto simp: atleast_def has_version_def\<close>)
  have "aliases_fit c ?w"
    using own(3) fields r(2) reg unfolding aliases_fit_def by auto
  moreover have "target_facts c ?w m x k' = target_facts c w m x k" if "know_update c (map (\<lambda>old. RemoveAlias old (logical c) False) olds
      @ [AddAlias n (logical c)]) ok k = k'" for m x k'
    using fields reg that by (auto simp: know_update_def target_facts_def scan_facts_def indexed_def batch_facts_def atleast_def
        has_version_def in_table_engine)
  then have "owner_facts c ?w (know_update c (map (\<lambda>old. RemoveAlias old (logical c) False) olds @ [AddAlias n (logical c)]) ok k)"
    using own(2) fields reg unfolding owner_facts_def by (auto simp: know_update_def)
  ultimately show ?thesis using assms(4) fields(1)
    by (intro inv_owner [OF assms(1-5) ev]) (auto simp: know_update_def)
qed

lemma exec_clear:
  assumes "search_inv c w ks" "j < length ks" "ks ! j = (Rebuild p s, k)" "owner k" "s \<notin> dead w"
    and "view c (with_engine c s' w) = view c w\<lparr>aliases := (aliases (view c w))(target_name c := removeAll n (aliases (view c w) (target_name c)))\<rparr>"
  shows "search_inv c (with_engine c s' w) (ks[j := (Rebuild p s, know_update c [RemoveAlias n (target_name c) True] ok k)])"
proof -
  let ?w = "with_engine c s' w"
  note own = own_alias_facts [OF assms(1-5)]
  have fields: "documents (view c ?w) = documents (view c w)" "aliases (view c ?w) (logical c) = aliases (view c w) (logical c)"
    "live c ?w = live c w" "\<And>a. plain_name c a \<Longrightarrow> aliases (view c ?w) a = aliases (view c w) a"
    using assms(6) own(6) by (auto simp: live_def plain_name_def)
  have targets: "targets c ?w \<subseteq> targets c w" using assms(6) by (auto simp: targets_def)
  then have reg: "registered ?w = registered w" by (auto simp: with_engine_registered fun_eq_iff)
  have ev: "evolves c w ?w"
    by (rule evolves_engine) (use targets fields in \<open>auto simp: atleast_def has_version_def\<close>)
  have "aliases_fit c ?w" using own(3) fields targets reg unfolding aliases_fit_def by auto
  moreover have "owner_facts c ?w (know_update c [RemoveAlias n (target_name c) True] ok k)"
    using own(2) reg fields by (auto simp: know_update_def owner_facts_def)
  ultimately show ?thesis using assms(4) fields(1)
    by (intro inv_owner [OF assms(1-5) ev]) (auto simp: know_update_def)
qed

lemma exec_delete_index:
  assumes "search_inv c w ks" "j < length ks" "ks ! j = (Rebuild p s, k)" "owner k" "s \<notin> dead w"
    and "reading k = Some names" "index \<notin> set names" "view c (with_engine c s' w) = drop_index index (view c w)"
  shows "search_inv c (with_engine c s' w) (ks[j := (Rebuild p s, k\<lparr>is_target := False\<rparr>)])"
proof -
  let ?w = "with_engine c s' w"
  note own = own_alias_facts [OF assms(1-5)]
  have names: "aliases (view c w) (logical c) = names" using own(2) assms(6) by (simp add: owner_facts_def)
  have live: "names = [live c w]" "live c w \<noteq> index" using names own(4) assms(7) by auto
  have al: "aliases (view c ?w) a = removeAll index (aliases (view c w) a)" for a using assms(8) by (simp add: drop_index_def)
  have "aliases (view c ?w) (logical c) = [live c w]" using al [of "logical c"] own(4) live(2) by simp
  then have fields: "aliases (view c ?w) (logical c) = names" "live c ?w = live c w"
    using live(1) by (simp_all add: live_def [of c ?w])
  have plain: "\<And>a. plain_name c a \<Longrightarrow> aliases (view c ?w) a = []" using al own(3) by (simp add: aliases_fit_def)
  have targets: "targets c ?w = targets c w - {index}" using assms(8) by (auto simp: targets_def drop_index_def)
  then have reg: "registered ?w = registered w" by (auto simp: with_engine_registered fun_eq_iff)
  have ev: "evolves c w ?w"
    by (rule evolves_engine) (use targets fields live(2) assms(8) in \<open>auto simp: atleast_def has_version_def drop_index_def\<close>)
  have "docs_fit c w (view c ?w)"
    using own(1) assms(8) by (auto simp: search_world_ok_def docs_fit_def drop_index_def)
  moreover have "aliases_fit c ?w" using own(3) fields(1) names plain targets reg unfolding aliases_fit_def by auto
  moreover have "owner_facts c ?w (k\<lparr>is_target := False\<rparr>)"
    using own(2) reg fields names by (auto simp: owner_facts_def)
  ultimately show ?thesis using assms(4)
    by (intro inv_owner [OF assms(1-5) ev]) auto
qed

lemma target_facts_reading [simp]: "target_facts c w n r (k\<lparr>reading := x\<rparr>) = target_facts c w n r k"
  by (simp add: target_facts_def scan_facts_def)

lemma know_less:
  assumes "owner_facts c w k"
  shows "owner_facts c w (know_update c as False k)"
proof (cases "last as")
  case (AddAlias n a)
  with assms show ?thesis by (cases "a = logical c") (simp_all add: know_update_def owner_facts_def)
next
  case (RemoveAlias n a m)
  with assms show ?thesis by (simp add: know_update_def owner_facts_def)
qed

lemma exec_update:
  assumes "search_inv c w ks" "j < length ks" "ks ! j = (Rebuild p s, k)" "owner k" "s \<notin> dead w"
    and "update_allowed c k as" "answers (UpdateAliases as) (view c w) (view c (with_engine c s' w)) r"
  shows "search_inv c (with_engine c s' w) (ks[j := (Rebuild p s, learn_command c k (UpdateAliases as) r)])"
proof -
  let ?w = "with_engine c s' w" and ?k = "\<lambda>ok. know_update c as ok k"
  obtain n where n: "fresh_index k = Some n" and forms:
    "(\<exists>olds. as = map (\<lambda>old. RemoveAlias old (target_name c) False) olds @ [AddAlias n (target_name c)] \<and> \<not> tried k)
     \<or> (\<exists>olds. as = map (\<lambda>old. RemoveAlias old (logical c) False) olds @ [AddAlias n (logical c)]
             \<and> reading k = Some olds \<and> is_target k \<and> complete k)
     \<or> as = [RemoveAlias n (target_name c) True]"
    using assms(6) by (auto simp: update_allowed_def)
  have learn: "learn_command c k (UpdateAliases as) r = ?k (r = Outcome Acknowledged)" by (simp add: learn_command_def)
  have TL: "target_name c \<noteq> logical c" by (rule target_not_logical)
  consider (unchanged) "view c ?w = view c w" "r \<noteq> Outcome Acknowledged" | (effect) "act_aliases as (view c w) = Some (view c ?w)"
    using assms(7) by (auto simp: answers_def)
  then show ?thesis
  proof cases
    case unchanged
    have "owner_facts c ?w (?k False)" if "owner_facts c ?w k" by (rule know_less [OF that])
    moreover have "owner (?k False) = owner k" by (auto simp: know_update_def split: alias_action.split)
    moreover have "learn_command c k (UpdateAliases as) r = ?k False" using learn unchanged(2) by simp
    ultimately show ?thesis using unchanged(1) by (intro inv_view [OF assms(1-3)]) simp_all
  next
    case effect
    from forms consider (target) olds where "as = map (\<lambda>old. RemoveAlias old (target_name c) False) olds @ [AddAlias n (target_name c)]" "\<not> tried k"
      | (swap) olds where "as = map (\<lambda>old. RemoveAlias old (logical c) False) olds @ [AddAlias n (logical c)]"
          "reading k = Some olds" "is_target k" "complete k"
      | (clear) "as = [RemoveAlias n (target_name c) True]" by blast
    then show ?thesis
    proof cases
      case target
      with effect have "view c ?w = view c w\<lparr>aliases := (aliases (view c w))(target_name c := List.insert n
          (filter (\<lambda>n. n \<notin> set olds) (aliases (view c w) (target_name c))))\<rparr>"
        by (auto simp: act_removes split: if_splits)
      from exec_target [OF assms(1-5) n target(2) this] show ?thesis unfolding learn by (simp only: target(1))
    next
      case swap
      with effect have "view c ?w = view c w\<lparr>aliases := (aliases (view c w))(logical c := List.insert n
          (filter (\<lambda>n. n \<notin> set olds) (aliases (view c w) (logical c))))\<rparr>"
        by (auto simp: act_removes split: if_splits)
      from exec_swap [OF assms(1-5) n swap(3,4,2) this] show ?thesis unfolding learn by (simp only: swap(1))
    next
      case clear
      with effect have "view c ?w = view c w\<lparr>aliases := (aliases (view c w))(target_name c := removeAll n (aliases (view c w) (target_name c)))\<rparr>"
        by (auto split: if_splits)
      from exec_clear [OF assms(1-5) this] show ?thesis unfolding learn by (simp only: clear)
    qed
  qed
qed

end
