(* ===== verification/SearchExec.thy ===== *)
theory SearchExec
  imports SearchOwner
begin

text \<open>Every request of a task around the search index keeps the invariant, and teaches what it should.\<close>

section \<open>Commands\<close>

lemma with_engine_id: "with_engine c (engine w) w = w"
proof -
  have "registered (with_engine c (engine w) w) = registered w"
    by (rule with_engine_same) (simp add: view_def [of c w])
  then show ?thesis by (simp add: with_engine_def Let_def)
qed

lemma answers_possible: "answers q v v' r \<Longrightarrow> search_possible t k (Es q) r"
  by (cases q) (auto simp: answers_def search_possible_def write_doc_def split: option.splits)

lemma exec_es:
  assumes "search_inv c w ks" "j < length ks" "ks ! j = (t, k)" "alive w t" "search_allowed c t k (Es q)"
    and "answers q (view c w) (view c (with_engine c s' w)) r"
  shows "search_inv c (with_engine c s' w) (ks[j := (t, search_learn c t k (Es q) r)])"
proof -
  have learn: "search_learn c t k (Es q) r = learn_command c k q r" by (simp add: search_learn_def)
  have reads: ?thesis if "consumer t" "consumer_allowed c k (Es q)"
    using that assms(6) unfolding learn
    by (intro exec_neutral [OF assms(1-3)]) (cases q; simp add: consumer_allowed_def)+
  show ?thesis
  proof (cases t)
    case (Upsert p i v x)
    consider (wr) name d names where "q = IndexDoc name (WStr i) d (Some (v + 1))" "renders c i v d"
        "found k = Some names" "name \<in> set names" | (rd) "consumer_allowed c k (Es q)"
      using assms(5) unfolding Upsert search_allowed.simps upsert_allowed_def by (cases q) auto
    then show ?thesis
    proof cases
      case wr
      show ?thesis using exec_index [OF assms(1,2) _ wr(2-4)] assms(3,6) unfolding learn unfolding wr(1) Upsert by blast
    qed (use reads Upsert in simp)
  next
    case (Removal p i)
    consider (wr) name version where "q = DeleteDoc name (WStr i) version" | (rd) "consumer_allowed c k (Es q)"
      using assms(5) unfolding Removal search_allowed.simps removal_allowed_def by (cases q) auto
    then show ?thesis
    proof cases
      case wr
      have "learn_command c k q r = k" by (simp add: wr learn_command_def)
      then show ?thesis using exec_delete_doc [OF assms(1,2)] assms(3,6) unfolding learn unfolding wr Removal by simp
    qed (use reads Removal in simp)
  next
    case (Rebuild p s)
    have own: "owner k" "rebuild_command c k q" "s \<notin> dead w"
      using assms(4,5) Rebuild by (auto simp: search_allowed.simps rebuild_allowed_def split: if_splits)
    note pre = assms(1,2) assms(3) [unfolded Rebuild] own(1,3)
    have other: ?thesis if "neutral q"
      unfolding learn by (rule exec_neutral [OF assms(1-3) that _ assms(6)]) (use Rebuild in simp)
    show ?thesis
    proof (cases q)
      case (UpdateAliases as)
      show ?thesis using exec_update [OF pre] own(2) assms(6) unfolding learn unfolding Rebuild UpdateAliases
        by (simp add: rebuild_command_def)
    next
      case (DeleteIndex index)
      then obtain names where n: "reading k = Some names" "index \<notin> set names" using own(2) by (auto simp: rebuild_command_def)
      have k: "learn_command c k q r = k\<lparr>is_target := False\<rparr>" by (simp add: DeleteIndex learn_command_def)
      have "view c (with_engine c s' w) = view c w \<or> view c (with_engine c s' w) = drop_index index (view c w)"
        using assms(6) DeleteIndex by (auto simp: answers_def)
      then show ?thesis
      proof
        assume "view c (with_engine c s' w) = view c w"
        then show ?thesis unfolding learn unfolding k Rebuild
          by (intro inv_view [OF pre(1-3)]) (auto simp: owner_facts_def)
      next
        assume "view c (with_engine c s' w) = drop_index index (view c w)"
        from exec_delete_index [OF pre n this] show ?thesis unfolding learn unfolding k Rebuild .
      qed
    next
      case (Bulk items)
      then obtain n ds where b: "fresh_index k = Some n" "items = bulk_items n ds" "is_target k" "ready k" "batch k \<noteq> []"
        "transform_all (platform_of c) (logical c) (map row_to_dict (batch k)) = Inr ds"
        using own(2) by (auto simp: rebuild_command_def)
      from exec_bulk [OF pre b(3,4,5,1,6)] assms(6) show ?thesis unfolding learn unfolding Rebuild Bulk b(2) by blast
    next
      case (IndexDoc name i d version)
      with own(2) show ?thesis by (simp add: rebuild_command_def)
    next
      case (DeleteDoc name i version)
      with own(2) show ?thesis by (simp add: rebuild_command_def)
    qed (use other in simp_all)
  qed
qed

section \<open>Other requests\<close>

lemma inv_consumer:
  assumes "search_inv c w ks" "j < length ks" "ks ! j = (t, k)" "consumer t" "task_facts c w t k'"
  shows "search_inv c w (ks[j := (t, k')])"
  using assms by (intro inv_same [OF assms(1-3)]) (cases t; simp)+

lemma inv_owned:
  assumes "search_inv c w ks" "j < length ks" "ks ! j = (Rebuild p s, k)" "owner k'  = owner k"
    and "s \<notin> dead w \<Longrightarrow> owner_facts c w k \<Longrightarrow> owner_facts c w k'"
  shows "search_inv c w (ks[j := (Rebuild p s, k')])"
  using assms inv_task [OF assms(1-3)] by (intro inv_same [OF assms(1-3)]) auto

lemma exec_clock:
  assumes "search_inv c w ks" "j < length ks" "ks ! j = (t, k)" "consumer t"
  shows "search_inv c w (ks[j := (t, k\<lparr>asked := Some (time w + skew c (process_at t)), listed := None\<rparr>)])"
proof (rule inv_consumer [OF assms])
  note f = inv_task [OF assms(1-3)]
  have "search_world_ok c w" using assms(1) by (simp add: search_inv_def)
  then have past: "(i, v, x) \<in> set (changes w) \<Longrightarrow> x \<le> time w" for i v x by (auto simp: search_world_ok_def rows_fit_def)
  show "task_facts c w t (k\<lparr>asked := Some (time w + skew c (process_at t)), listed := None\<rparr>)"
    using f assms(4) past by (cases t) (auto simp: upsert_facts_def consumer_facts_def write_facts_def)
qed

lemma exec_cached:
  assumes "search_inv c w ks" "j < length ks" "ks ! j = (t, k)" "consumer t"
  shows "search_inv c w (ks[j := (t, know_cached (target_caches w (process_at t)) k)])"
proof (cases "know_cached (target_caches w (process_at t)) k = k")
  case False
  then obtain until names x where e: "target_caches w (process_at t) = Some (until, names)" "asked k = Some x" "x < until"
    "know_cached (target_caches w (process_at t)) k = k\<lparr>found := Some names, wrote := {}\<rparr>"
    by (auto simp: know_cached_def split: option.splits if_splits)
  note f = inv_task [OF assms(1-3)]
  have "caches_fit c w" using assms(1) by (simp add: search_inv_def search_world_ok_def)
  with e(1) have c: "names_fit c w names" "misses_since c w (until - skew c (process_at t) - 1) names" by (auto simp: caches_fit_def)
  have "missed_after c w y names" if "y \<le> x - skew c (process_at t)" for y
    using c(2) e(3) that unfolding missed_after_def misses_since_def by fastforce
  with c(1) f e(2) assms(4) have "task_facts c w t (k\<lparr>found := Some names, wrote := {}\<rparr>)"
    by (cases t) (auto simp: upsert_facts_def consumer_facts_def write_facts_def)
  then show ?thesis unfolding e(4) by (rule inv_consumer [OF assms])
next
  case True
  have "ks[j := (t, k)] = ks" using assms(3) list_update_id [of ks j] by simp
  with True assms(1) show ?thesis by simp
qed

lemma quiet_caches: "quiet_step c w (w\<lparr>target_caches := m\<rparr>)"
  by (auto simp: quiet_step_def view_def in_table_def intro: later_same)

lemma world_caches:
  assumes "search_world_ok c w" "\<And>until names. x = Some (until, names) \<Longrightarrow> until - skew c p - 1 \<le> time w
      \<and> names_fit c w names \<and> misses_since c w (until - skew c p - 1) names"
  shows "search_world_ok c (w\<lparr>target_caches := (target_caches w)(p := x)\<rparr>)"
proof -
  let ?w = "w\<lparr>target_caches := (target_caches w)(p := x)\<rparr>"
  have "view c ?w = view c w" "targets c ?w = targets c w" "names_fit c ?w = names_fit c w" "misses_since c ?w = misses_since c w"
    "entry_fits c ?w = entry_fits c w"
    by (simp_all add: view_def targets_def fun_eq_iff names_fit_def misses_since_def entry_fits_def logged_def in_table_def)
  with assms show ?thesis
    by (simp add: search_world_ok_def rows_fit_def aliases_fit_def docs_fit_def lock_fits_def caches_fit_def)
qed

lemma exec_caches:
  assumes "search_inv c w ks" "j < length ks" "ks ! j = (t, k)"
    and "\<And>until names. x = Some (until, names) \<Longrightarrow> consumer t \<and> consumer_allowed c k (CacheTargets (logical c) until names)"
  shows "search_inv c (w\<lparr>target_caches := (target_caches w)(process_at t := x)\<rparr>) (ks[j := (t, k)])"
proof -
  have ok: "search_world_ok c w" "task_facts c w t k" using assms(1) inv_task [OF assms(1-3)] by (simp_all add: search_inv_def)
  have "until - skew c (process_at t) - 1 \<le> time w \<and> names_fit c w names \<and> misses_since c w (until - skew c (process_at t) - 1) names"
    if x: "x = Some (until, names)" for until names
  proof -
    have "consumer_facts c w (process_at t) k" using ok(2) assms(4) [OF x] by (cases t) (auto simp: upsert_facts_def)
    with assms(4) [OF x] show ?thesis
      by (fastforce simp: consumer_allowed_def consumer_facts_def target_cache_seconds_def algebra_simps)
  qed
  from world_caches [OF ok(1) this] show ?thesis
    using task_quiet [OF ok(2) quiet_caches ok(1)]
    by (intro inv_quiet [OF assms(1-3) quiet_caches]) simp_all
qed

lemma exec_select:
  assumes "search_inv c w ks" "j < length ks" "ks ! j = (Rebuild p s, k)" "ready k" "0 < limit"
    and "rows = map (\<lambda>(i, v). sql_row c i v) (scan_page (platform_of c) (scanned k) limit (table w))"
  shows "search_inv c w (ks[j := (Rebuild p s, k\<lparr>batch := rows, complete := complete k \<or> rows = []\<rparr>)])"
proof (rule inv_owned [OF assms(1-3)])
  assume f: "owner_facts c w k"
  have ok: "search_setting_ok c" "search_world_ok c w" using assms(1) by (simp_all add: search_inv_def)
  from f select_facts [OF ok _ assms(4-6)] show "owner_facts c w (k\<lparr>batch := rows, complete := complete k \<or> rows = []\<rparr>)"
    unfolding owner_facts_def by auto
qed simp

lemma exec_time:
  assumes "search_inv c w ks" "j < length ks" "ks ! j = (Rebuild p s, k)"
  shows "search_inv c w (ks[j := (Rebuild p s, k\<lparr>due := (if 1 \<le> d then Some (time w + d) else None)\<rparr>)])"
    and "x \<le> time w \<Longrightarrow> search_inv c w (ks[j := (Rebuild p s, k\<lparr>ready := ready k \<or> due k = Some x\<rparr>)])"
proof -
  have ok: "search_world_ok c w" using assms(1) by (simp add: search_inv_def)
  have reg: "registered w n = Some r \<Longrightarrow> r \<le> time w" for n r using ok by (auto simp: search_world_ok_def aliases_fit_def)
  have due: "target_facts c w n r (k\<lparr>due := (if 1 \<le> d then Some (time w + d) else None)\<rparr>)" if "target_facts c w n r k" for n r
    using that reg [of n r] by (auto simp: target_facts_def scan_facts_def)
  then show "search_inv c w (ks[j := (Rebuild p s, k\<lparr>due := (if 1 \<le> d then Some (time w + d) else None)\<rparr>)])"
    by (cases "1 \<le> d"; intro inv_owned [OF assms]) (auto simp: owner_facts_def)
  have scan: "scan_facts c w n y k" if "scanned k = None" "batch k = []" "\<not> complete k" for n y
    using that by (simp add: scan_facts_def indexed_def batch_facts_def)
  have same: "scan_facts c w n y (k\<lparr>ready := b\<rparr>) = scan_facts c w n y k" for n y b by (simp add: scan_facts_def)
  have "target_facts c w n r (k\<lparr>ready := ready k \<or> due k = Some x\<rparr>)" if "target_facts c w n r k" "x \<le> time w" for n r
    using that scan unfolding target_facts_def same by (auto split: if_splits)
  then show "search_inv c w (ks[j := (Rebuild p s, k\<lparr>ready := ready k \<or> due k = Some x\<rparr>)])" if "x \<le> time w"
    using that by (intro inv_owned [OF assms]) (auto simp: owner_facts_def)
qed

lemma exec_stamp:
  assumes "search_inv c w ks" "j < length ks" "ks ! j = (Rebuild p s, k)" "n = logical c @ ''-'' @ stamp" "n \<notin> index_names w"
  shows "search_inv c (w\<lparr>index_names := insert n (index_names w)\<rparr>)
    (ks[j := (Rebuild p s, k\<lparr>fresh_index := Some n, tried := False, is_target := False\<rparr>)])"
proof -
  let ?w = "w\<lparr>index_names := insert n (index_names w)\<rparr>"
  let ?k = "k\<lparr>fresh_index := Some n, tried := False, is_target := False\<rparr>"
  have ok: "search_world_ok c w" "task_facts c w (Rebuild p s) k" using assms(1) inv_task [OF assms(1-3)] by (simp_all add: search_inv_def)
  have same: "view c ?w = view c w" "targets c ?w = targets c w" "names_fit c ?w = names_fit c w" "misses_since c ?w = misses_since c w"
    "entry_fits c ?w = entry_fits c w"
    by (simp_all add: view_def targets_def fun_eq_iff names_fit_def misses_since_def entry_fits_def logged_def in_table_def)
  have quiet: "quiet_step c w ?w" using same(1) by (auto simp: quiet_step_def in_table_def intro: later_same)
  have world: "search_world_ok c ?w"
    using ok(1) same by (simp add: search_world_ok_def rows_fit_def aliases_fit_def docs_fit_def lock_fits_def caches_fit_def)
  have "\<forall>m r. registered w m = Some r \<longrightarrow> m \<in> index_names w" using ok(1) by (simp add: search_world_ok_def aliases_fit_def)
  with assms(5) have n2: "registered w n = None" by (cases "registered w n") auto
  have n: "plain_name c n" unfolding assms(4) by (simp add: plain_name_def target_alias_def)
  have "owner_facts c ?w ?k" if "owner_facts c w k"
    using that n n2 same(1) by (auto simp: owner_facts_def)
  with ok(2) have "task_facts c ?w (Rebuild p s) ?k" by auto
  with world show ?thesis by (intro inv_quiet [OF assms(1-3) quiet]) simp_all
qed

lemma world_lock:
  assumes "search_world_ok c w" "\<And>s. x = Some s \<Longrightarrow> s \<notin> d \<and> s \<in> y"
  shows "search_world_ok c (w\<lparr>lock := x, sessions := y, dead := d\<rparr>)"
proof -
  let ?w = "w\<lparr>lock := x, sessions := y, dead := d\<rparr>"
  have "view c ?w = view c w" "targets c ?w = targets c w" "names_fit c ?w = names_fit c w" "misses_since c ?w = misses_since c w"
    "entry_fits c ?w = entry_fits c w"
    by (simp_all add: view_def targets_def fun_eq_iff names_fit_def misses_since_def entry_fits_def logged_def in_table_def)
  with assms show ?thesis
    by (simp add: search_world_ok_def rows_fit_def aliases_fit_def docs_fit_def lock_fits_def caches_fit_def)
qed

lemma quiet_lock: "quiet_step c w (w\<lparr>lock := x, sessions := y, dead := d\<rparr>)"
  by (auto simp: quiet_step_def view_def in_table_def intro: later_same)

lemma exec_lock:
  assumes "search_inv c w ks" "j < length ks" "ks ! j = (Rebuild p s, k)" "s \<notin> dead w" "s \<notin> sessions w" "lock w = None"
  shows "search_inv c (w\<lparr>lock := Some s, sessions := insert s (sessions w)\<rparr>) (ks[j := (Rebuild p s, nothing_known\<lparr>owner := True\<rparr>)])"
proof -
  let ?w = "w\<lparr>lock := Some s, sessions := insert s (sessions w), dead := dead w\<rparr>"
  have ok: "search_world_ok c w" using assms(1) by (simp add: search_inv_def)
  have world: "search_world_ok c ?w" by (rule world_lock [OF ok]) (use assms(4) in simp)
  have "task_facts c ?w t k'" if "i < length ks" "ks ! i = (t, k')" for i t k'
    by (rule task_quiet [OF inv_task [OF assms(1) that] quiet_lock ok]) (use assms(6) in auto)
  moreover have "task_facts c ?w (Rebuild p s) (nothing_known\<lparr>owner := True\<rparr>)"
    using assms(4) by (simp add: owner_facts_def nothing_known_def)
  ultimately have facts: "\<forall>(t, k') \<in> set (ks[j := (Rebuild p s, nothing_known\<lparr>owner := True\<rparr>)]). task_facts c ?w t k'"
    using assms(2) by (auto simp: in_set_conv_nth nth_list_update split: if_splits)
  have new: "session_of (ks ! i) \<noteq> Some s" if i: "i < length ks" for i
  proof
    obtain t k' where tk: "ks ! i = (t, k')" by fastforce
    assume "session_of (ks ! i) = Some s"
    then have "\<exists>q. t = Rebuild q s \<and> owner k'" using tk by (cases t) (auto split: if_splits)
    with inv_task [OF assms(1) i tk] assms(5) show False by auto
  qed
  have "owners_differ ks" using assms(1) by (simp add: search_inv_def)
  then have "owners_differ (ks[j := (Rebuild p s, nothing_known\<lparr>owner := True\<rparr>)])"
    using new assms(2) unfolding owners_differ_def by (auto simp: nth_list_update) metis
  with facts world assms(1) show ?thesis by (simp add: search_inv_def)
qed

lemma exec_unlock:
  assumes "search_inv c w ks" "j < length ks" "ks ! j = (Rebuild p s, k)" "owner k" "s \<notin> dead w"
  shows "search_inv c (w\<lparr>lock := None\<rparr>) (ks[j := (Rebuild p s, k\<lparr>owner := False\<rparr>)])"
proof -
  let ?w = "w\<lparr>lock := None, sessions := sessions w, dead := dead w\<rparr>"
  have ok: "search_world_ok c w" using assms(1) by (simp add: search_inv_def)
  have "search_inv c ?w (ks[j := (Rebuild p s, k\<lparr>owner := False\<rparr>)])"
    by (rule inv_alone [OF assms quiet_evolves [OF quiet_lock] world_lock [OF ok]]) simp_all
  then show ?thesis by simp
qed

section \<open>All requests\<close>

lemma inv_stays: "\<lbrakk>search_inv c w ks; j < length ks; ks ! j = (t, k)\<rbrakk> \<Longrightarrow> search_inv c w (ks[j := (t, k)])"
  using list_update_id [of ks j] by simp

lemma exec_released:
  assumes "search_inv c w ks" "j < length ks" "ks ! j = (t, k)"
  shows "search_inv c w (ks[j := (t, k\<lparr>owner := False\<rparr>)])"
proof (rule inv_same [OF assms])
  show "task_facts c w t (k\<lparr>owner := False\<rparr>)"
    using inv_task [OF assms] by (cases t) (auto simp: upsert_facts_def consumer_facts_def write_facts_def)
  show "session_of (t, k\<lparr>owner := False\<rparr>) = None \<or> session_of (t, k\<lparr>owner := False\<rparr>) = session_of (t, k)"
    by (cases t) simp_all
qed

lemma allowed_cases:
  assumes "search_allowed c t k q" "\<nexists>command. q = Es command"
  obtains (consumer) "consumer t" "consumer_allowed c k q"
  | (owner) p s where "t = Rebuild p s" "owner k" "rebuild_allowed c k q"
  | (idle) p s where "t = Rebuild p s" "\<not> owner k" "q = TryAdvisoryLock"
  using assms by (cases t; cases q) (auto simp: search_allowed.simps upsert_allowed_def removal_allowed_def split: if_splits)

lemma search_exec_keeps:
  assumes "search_inv c w ks" "j < length ks" "ks ! j = (t, k)" "search_allowed c t k q" "search_exec c w t q w' r"
  shows "search_possible t k q r \<and> search_inv c w' (ks[j := (t, search_learn c t k q r)])"
proof -
  note pre = assms(1-3)
  have setting: "search_setting_ok c" using assms(1) by (simp add: search_inv_def)
  note stays = inv_stays [OF pre]
  show ?thesis using assms(5)
  proof (cases rule: search_exec.cases)
    case (command command s' x)
    note a = exec_answers(1) [OF setting command(5)]
    show ?thesis using exec_es [OF pre _ _ a] answers_possible [OF a] command assms(4) by simp
  next
    case (command_cancelled command s' x)
    note a = exec_answers(2) [OF setting command_cancelled(5)]
    show ?thesis using exec_es [OF pre _ _ a] answers_possible [OF a] command_cancelled assms(4) by simp
  next
    case cancelled
    show ?thesis
    proof (cases "\<exists>command. q = Es command")
      case True
      then obtain command where q: "q = Es command" by blast
      have a: "answers command (view c w) (view c (with_engine c (engine w) w)) Cancelled"
        by (simp add: answers_def with_engine_id)
      show ?thesis using exec_es [OF pre _ _ a] answers_possible [OF a] cancelled assms(4) q by (simp add: with_engine_id)
    next
      case False
      then have "search_learn c t k q Cancelled = (if q = AdvisoryUnlock then k\<lparr>owner := False\<rparr> else k)"
        by (cases q) (simp_all add: search_learn_def)
      moreover have "search_possible t k q Cancelled" using False by (cases q) (simp_all add: search_possible_def)
      ultimately show ?thesis using cancelled stays exec_released [OF pre] by simp
    qed
  next
    case clock
    have "consumer t" using assms(4) clock(1) by (auto elim!: allowed_cases simp: rebuild_allowed_def)
    with exec_clock [OF pre] clock show ?thesis by (simp add: search_learn_def search_possible_def)
  next
    case (cached name)
    have "consumer t" using assms(4) cached(1) by (auto elim!: allowed_cases simp: rebuild_allowed_def)
    with exec_cached [OF pre] cached show ?thesis by (simp add: search_learn_def search_possible_def)
  next
    case (caches name until names)
    have "consumer t \<and> consumer_allowed c k q" using assms(4) caches(1) by (auto elim!: allowed_cases simp: rebuild_allowed_def)
    with exec_caches [OF pre, of "Some (until, names)"] caches show ?thesis by (simp add: search_learn_def search_possible_def)
  next
    case (drops name)
    with exec_caches [OF pre, of None] show ?thesis by (simp add: search_learn_def search_possible_def)
  next
    case (scheduled "is" n)
    with stays show ?thesis by (simp add: search_learn_def search_possible_def)
  next
    case (evicted entity i)
    with stays show ?thesis by (simp add: search_learn_def search_possible_def)
  next
    case (selected last_id limit)
    obtain p s where o: "t = Rebuild p s" "owner k" "rebuild_allowed c k q"
      using assms(4) selected(1) by (auto elim!: allowed_cases simp: consumer_allowed_def)
    with selected exec_select [OF assms(1,2) assms(3) [unfolded o(1)]] show ?thesis
      by (simp add: search_learn_def search_possible_def rebuild_allowed_def)
  next
    case (database_down last_id limit)
    with stays show ?thesis by (simp add: search_learn_def search_possible_def)
  next
    case (stamped n stamp)
    obtain p s where o: "t = Rebuild p s" using assms(4) stamped(1) by (auto elim!: allowed_cases simp: consumer_allowed_def)
    with stamped exec_stamp [OF assms(1,2) assms(3) [unfolded o(1)]] show ?thesis
      by (simp add: search_learn_def search_possible_def)
  next
    case (deadline d)
    obtain p s where o: "t = Rebuild p s" using assms(4) deadline(1) by (auto elim!: allowed_cases simp: consumer_allowed_def)
    with deadline exec_time(1) [OF assms(1,2) assms(3) [unfolded o(1)]] show ?thesis
      by (simp add: search_learn_def search_possible_def)
  next
    case (awake x)
    obtain p s where o: "t = Rebuild p s" using assms(4) awake(1) by (auto elim!: allowed_cases simp: consumer_allowed_def)
    with awake exec_time(2) [OF assms(1,2) assms(3) [unfolded o(1)]] show ?thesis
      by (simp add: search_learn_def search_possible_def)
  next
    case (locked p s)
    with exec_lock [OF assms(1,2)] assms(3) show ?thesis by (simp add: search_learn_def search_possible_def)
  next
    case lock_busy
    with stays show ?thesis by (simp add: search_learn_def search_possible_def)
  next
    case lock_fails
    with stays show ?thesis by (simp add: search_learn_def search_possible_def)
  next
    case (unlocked p s)
    have "owner k" using assms(4) unlocked(1,2) by (auto elim!: allowed_cases simp: consumer_allowed_def)
    with unlocked exec_unlock [OF assms(1,2)] assms(3) show ?thesis by (simp add: search_learn_def search_possible_def)
  next
    case (not_owner p s)
    with exec_released [OF pre] show ?thesis by (simp add: search_learn_def search_possible_def)
  qed
qed

end
