(* ===== verification/SearchTheorems.thy ===== *)
theory SearchTheorems
  imports SearchExec
begin

text \<open>
  The programs around the search index as a shared system, and what it serves: a change of a row
  that a consumer has processed is in the index behind the alias from then on, in that or a
  later version, through rebuilds, crashes of jobs, redeliveries and failed commands.
\<close>

section \<open>The environment\<close>

lemma has_version_forgot:
  assumes "forgot v v'" "docs_fit c w v" "in_table w i" "has_version v index (WStr i) n"
  shows "has_version v' index (WStr i) n"
proof -
  obtain m x where m: "documents v index (WStr i) = Some (m, x)" "n \<le> m" using assms(4) by (auto simp: has_version_def)
  with assms(2,3) have "x \<noteq> None" by (fastforce simp: docs_fit_def entry_fits_def)
  with m have "\<nexists>n. documents v index (WStr i) = Some (n, None)" by simp
  with assms(1) have "documents v' index (WStr i) = documents v index (WStr i)" unfolding forgot_def by blast
  with assms(4) show ?thesis by (simp add: has_version_def)
qed

lemma inv_env:
  assumes "search_inv c w ks" "quiet_step c w w'" "search_world_ok c w'" "sessions w \<subseteq> sessions w'" "dead w \<subseteq> dead w'"
    and "\<And>s. lock w = Some s \<Longrightarrow> s \<notin> dead w' \<Longrightarrow> lock w' = Some s"
  shows "search_inv c w' ks"
  using assms task_quiet [OF _ assms(2)] by (auto simp: search_inv_def)

lemma entry_fits_later:
  assumes "entry_fits c w i n x" "later w w'"
  shows "entry_fits c w' i n x"
proof -
  have "set (changes w) \<subseteq> set (changes w')" "in_table w' i \<Longrightarrow> logged w i \<Longrightarrow> in_table w i" using assms(2) by (auto simp: later_def)
  with assms(1) show ?thesis unfolding entry_fits_def logged_def by blast
qed

lemma world_rows:
  assumes "search_world_ok c w" "later w w'" "rows_fit w'" "w' = w\<lparr>table := a, changes := b, time := x\<rparr>"
  shows "search_world_ok c w' \<and> quiet_step c w w'"
proof -
  have same: "view c w' = view c w" "targets c w' = targets c w" "names_fit c w' = names_fit c w" "misses_since c w' = misses_since c w"
    "registered w' = registered w" "index_names w' = index_names w" "target_caches w' = target_caches w"
    "lock w' = lock w" "sessions w' = sessions w" "dead w' = dead w"
    using assms(4) by (simp_all add: view_def targets_def fun_eq_iff names_fit_def misses_since_def)
  have t: "time w \<le> time w'" using assms(2) by (simp add: later_def)
  have "docs_fit c w' (view c w)"
    using assms(1) entry_fits_later [OF _ assms(2)] unfolding search_world_ok_def docs_fit_def by blast
  moreover have "aliases_fit c w'" "caches_fit c w'"
    using assms(1) same t unfolding search_world_ok_def aliases_fit_def caches_fit_def by (simp, blast intro: order_trans)+
  ultimately show ?thesis
    using assms(1-3) same by (auto simp: search_world_ok_def lock_fits_def quiet_step_def)
qed

lemma rows_fitD:
  assumes "rows_fit w"
  shows "distinct (map fst (table w))" "(i, v) \<in> set (table w) \<Longrightarrow> \<exists>t. (i, v, t) \<in> set (changes w)"
    "(i, u, t) \<in> set (changes w) \<Longrightarrow> t \<le> time w \<and> i \<noteq> [] \<and> 0 \<le> u"
    "(i, u, t) \<in> set (changes w) \<Longrightarrow> (i, v) \<in> set (table w) \<Longrightarrow> u \<le> v"
  using assms unfolding rows_fit_def by blast+

lemma rows_fitI:
  assumes "distinct (map fst (table w))" "\<And>i v. (i, v) \<in> set (table w) \<Longrightarrow> \<exists>t. (i, v, t) \<in> set (changes w)"
    and "\<And>i u t. (i, u, t) \<in> set (changes w) \<Longrightarrow> t \<le> time w \<and> i \<noteq> [] \<and> 0 \<le> u"
    and "\<And>i u t v. (i, u, t) \<in> set (changes w) \<Longrightarrow> (i, v) \<in> set (table w) \<Longrightarrow> u \<le> v"
  shows "rows_fit w"
  using assms unfolding rows_fit_def by blast

lemma row_inserted:
  assumes "rows_fit w" "i \<noteq> []" "i \<notin> fst ` set (changes w)"
  shows "rows_fit (w\<lparr>table := table w @ [(i, 0)], changes := changes w @ [(i, 0, time w)]\<rparr>)"
proof -
  note r = rows_fitD [OF assms(1)]
  have new: "(i, u, t) \<notin> set (changes w)" for u t using assms(3) by force
  have gone: "(i, v) \<notin> set (table w)" for v using r(2) new by blast
  then have "i \<notin> fst ` set (table w)" by force
  then show ?thesis using r(1) r(2) new gone r(3) assms(2) r(4)
    by (intro rows_fitI) (simp; fastforce)+
qed

lemma row_updated:
  assumes "rows_fit w" "(i, v) \<in> set (table w)"
  shows "rows_fit (w\<lparr>table := map (\<lambda>(j, u). (j, if j = i then v + 1 else u)) (table w), changes := changes w @ [(i, v + 1, time w)]\<rparr>)"
proof -
  note r = rows_fitD [OF assms(1)]
  obtain t where t: "(i, v, t) \<in> set (changes w)" using r(2) [OF assms(2)] by blast
  have same: "fst \<circ> (\<lambda>(j, u). (j, if j = i then v + 1 else u)) = fst" by auto
  have old: "u \<le> v" if "(i, u, x) \<in> set (changes w)" for u x using r(4) [OF that assms(2)] .
  show ?thesis
  proof (rule rows_fitI, goal_cases)
    case 1
    show ?case using r(1) by (simp add: same)
  next
    case (2 j u)
    then show ?case using r(2) by (auto split: if_splits)
  next
    case (3 j u x)
    then show ?case using r(3) r(3) [OF t] by auto
  next
    case (4 j u x y)
    then show ?case using r(4) old by (fastforce split: if_splits)
  qed
qed

lemma row_deleted:
  assumes "rows_fit w"
  shows "rows_fit (w\<lparr>table := filter (\<lambda>(j, u). j \<noteq> i) (table w)\<rparr>)"
  using rows_fitD [OF assms] by (intro rows_fitI) (auto simp: distinct_map_filter)

lemma search_env_keeps:
  assumes "search_inv c w ks" "search_env c w w'"
  shows "search_inv c w' ks"
proof -
  have ok: "search_setting_ok c" "search_world_ok c w" "rows_fit w" using assms(1) by (simp_all add: search_inv_def search_world_ok_def)
  note r = rows_fitD [OF ok(3)]
  have rows: "search_inv c w' ks" if "later w w'" "rows_fit w'" "w' = w\<lparr>table := table w', changes := changes w', time := time w'\<rparr>"
  proof -
    from world_rows [OF ok(2) that] have "search_world_ok c w'" "quiet_step c w w'" by simp_all
    moreover have "sessions w' = sessions w" "dead w' = dead w" "lock w' = lock w" by (subst that(3), simp)+
    ultimately show ?thesis by (intro inv_env [OF assms(1)]) simp_all
  qed
  show ?thesis using assms(2)
  proof (cases rule: search_env.cases)
    case (inserted i)
    have "later w w'" unfolding inserted(1) using inserted(3) by (auto simp: later_def in_table_def logged_def)
    then show ?thesis using row_inserted [OF ok(3) inserted(2,3)]
      by (intro rows) (simp_all add: inserted(1))
  next
    case (updated i v)
    have "fst ` set (map (\<lambda>(j, u). (j, if j = i then v + 1 else u)) (table w)) = fst ` set (table w)" by force
    then have "later w w'" unfolding updated(1) by (simp add: later_def in_table_def) fastforce
    then show ?thesis using row_updated [OF ok(3) updated(2)]
      by (intro rows) (simp_all add: updated(1))
  next
    case (deleted i)
    have "later w w'" unfolding deleted by (auto simp: later_def in_table_def)
    then show ?thesis using row_deleted [OF ok(3)]
      by (intro rows) (simp_all add: deleted)
  next
    case (passes t)
    have "later w w'" unfolding passes(1) using passes(2) by (auto simp: later_def in_table_def)
    moreover have "rows_fit w'"
    proof -
      have "x \<le> t \<and> i \<noteq> [] \<and> 0 \<le> u" if "(i, u, x) \<in> set (changes w)" for i u x
        using r(3) [OF that] passes(2) by simp
      with r(1,2,4) show ?thesis unfolding passes(1) by (intro rows_fitI) simp_all
    qed
    ultimately show ?thesis by (intro rows) (simp_all add: passes(1))
  next
    case (forgets s')
    have v: "forgot (view c w) (view c w')" using ok(1) forgets
      by (simp add: search_setting_ok_def es_documented_def view_def)
    have same: "aliases (view c w') = aliases (view c w)" "targets c w' = targets c w" "names_fit c w' = names_fit c w"
        "misses_since c w' = misses_since c w" "entry_fits c w' = entry_fits c w"
      using v forgets(1) by (simp_all add: forgot_def targets_def fun_eq_iff names_fit_def misses_since_def entry_fits_def logged_def in_table_def)
    have docs: "docs_fit c w (view c w)" using ok(2) by (simp add: search_world_ok_def)
    have "docs_fit c w (view c w')" using docs v unfolding docs_fit_def forgot_def by (metis option.distinct(1))
    then have "search_world_ok c w'"
      using ok(2) same forgets(1) by (simp add: search_world_ok_def rows_fit_def aliases_fit_def caches_fit_def lock_fits_def docs_fit_def)
    moreover have "quiet_step c w w'"
      using same has_version_forgot [OF v docs] forgets(1) unfolding quiet_step_def
      by (auto simp: in_table_def intro: later_same)
    ultimately show ?thesis using forgets(1) by (intro inv_env [OF assms(1)]) simp_all
  next
    case (restarted p)
    then show ?thesis using world_caches [OF ok(2), of None p] quiet_caches
      by (intro inv_env [OF assms(1)]) simp_all
  next
    case (killed s)
    let ?w = "w\<lparr>lock := (if lock w = Some s then None else lock w), sessions := sessions w, dead := insert s (dead w)\<rparr>"
    have "lock_fits w" using ok(2) by (simp add: search_world_ok_def)
    then have "search_world_ok c ?w" by (intro world_lock [OF ok(2)]) (auto simp: lock_fits_def split: if_splits)
    then have "search_inv c ?w ks" by (rule inv_env [OF assms(1) quiet_lock]) auto
    then show ?thesis using killed by simp
  qed
qed


section \<open>Starts\<close>

lemma inv_joined:
  assumes "search_inv c w ks" "task_facts c w t nothing_known"
  shows "search_inv c w (ks @ [(t, nothing_known)])"
proof -
  have "session_of (t, nothing_known) = None" by (cases t) (simp_all add: nothing_known_def)
  then have "owners_differ (ks @ [(t, nothing_known)])"
    using assms(1) by (auto simp: search_inv_def owners_differ_def nth_append less_Suc_eq)
  with assms show ?thesis by (simp add: search_inv_def)
qed

lemma consumer_knows_nothing: "consumer_facts c w p nothing_known"
  by (simp add: consumer_facts_def nothing_known_def)

lemma search_start_keeps:
  assumes "search_inv c w ks" "search_start c w t p"
  shows "\<exists>k. search_inv c w (ks @ [(t, k)]) \<and> wps c t p (search_post t) k"
proof -
  have ok: "search_setting_ok c" "rows_fit w" using assms(1) by (simp_all add: search_inv_def search_world_ok_def)
  have "task_facts c w t nothing_known \<and> wps c t p (search_post t) nothing_known" using assms(2)
  proof (cases rule: search_start.cases)
    case (upsert i v x topics topic op q cached key before)
    from rows_fitD(3) [OF ok(2) upsert(3)] have "i \<noteq> []" "0 \<le> v" by simp_all
    with upsert ok(1) show ?thesis
      by (simp add: upsert_correct upsert_facts_def consumer_knows_nothing) (simp add: nothing_known_def)
  next
    case (removal i topics topic q cached key v)
    with ok(1) show ?thesis by (simp add: removal_correct consumer_knows_nothing logged_def in_table_def)
  next
    case (tombstone i topics topic q cached)
    with ok(1) show ?thesis by (simp add: removal_correct consumer_knows_nothing logged_def in_table_def)
  next
    case (rebuild grace q s body keep_old rounds)
    moreover have "\<not> owner nothing_known" by (simp add: nothing_known_def)
    ultimately show ?thesis by (simp add: rebuild_correct)
  qed
  with inv_joined [OF assms(1)] show ?thesis by blast
qed

lemma search_inv_initial:
  assumes "search_setting_ok c" "search_initial c w"
  shows "search_inv c w []"
  using assms
  by (auto simp: search_initial_def search_inv_def search_world_ok_def owners_differ_def rows_fit_def aliases_fit_def
      docs_fit_def caches_fit_def lock_fits_def targets_def plain_name_def target_alias_def)

section \<open>The system\<close>

interpretation search: shared_system "search_env c" "search_start c" "search_exec c" "search_inv c" "search_allowed c"
    search_possible "search_learn c" search_post
  by unfold_locales (fact search_env_keeps search_start_keeps search_exec_keeps)+

lemma consumed_is_served:
  assumes "search_world_ok c w" "task_facts c w (Upsert p i v t) k" "search_post (Upsert p i v t) k (Inr x)" "(i, u) \<in> set (table w)"
  shows "\<exists>index v' d. aliases (view c w) (logical c) = [index] \<and> documents (view c w) index (WStr i) = Some (v' + 1, Some d)
    \<and> v \<le> v' \<and> v' \<le> u \<and> renders c i v' d"
proof -
  have i: "in_table w i" using assms(4) by (force simp: in_table_def)
  obtain n where n: "aliases (view c w) (logical c) = [n]" using assms(1) by (auto simp: search_world_ok_def aliases_fit_def)
  then have live: "live c w = n" by (simp add: live_def)
  obtain names where names: "names_fit c w names" "set names \<subseteq> wrote k" "write_facts c w i v names k"
    using assms(2,3) i by (auto simp: upsert_facts_def)
  then have "logical c \<in> wrote k" by (auto simp: names_fit_def)
  with names have "atleast c w n i v" by (auto simp: write_facts_def live)
  then obtain m y where m: "documents (view c w) n (WStr i) = Some (m, y)" "v + 1 \<le> m"
    by (auto simp: atleast_def has_version_def)
  then have "entry_fits c w i m y" using assms(1) by (auto simp: search_world_ok_def docs_fit_def)
  with i obtain v' d x where v: "(i, v', x) \<in> set (changes w)" "m = v' + 1" "y = Some d" "renders c i v' d"
    by (auto simp: entry_fits_def)
  moreover have "v' \<le> u" using rows_fitD(4) [OF _ v(1) assms(4)] assms(1) by (simp add: search_world_ok_def)
  ultimately show ?thesis using n m by auto
qed

lemma served_at:
  assumes "search_setting_ok c" "search_initial c w0" "search_reachable c w0 (w, ts)"
    and "(Upsert p i v t, Ret (Inr ())) \<in> set ts" "(i, u) \<in> set (table w)"
  shows "\<exists>index v' d. aliases (view c w) (logical c) = [index] \<and> documents (view c w) index (WStr i) = Some (v' + 1, Some d)
    \<and> v \<le> v' \<and> v' \<le> u \<and> renders c i v' d"
proof -
  obtain j where j: "j < length ts" "ts ! j = (Upsert p i v t, Ret (Inr ()))" using assms(4) by (auto simp: in_set_conv_nth)
  from search.returned_informed [OF assms(3) search_inv_initial [OF assms(1,2)] j]
  obtain ks k where k: "search_inv c w ks" "j < length ks" "ks ! j = (Upsert p i v t, k)" "search_post (Upsert p i v t) k (Inr ())"
    by auto
  then show ?thesis using inv_task [OF k(1-3)] assms(5) by (intro consumed_is_served) (auto simp: search_inv_def)
qed

section \<open>Properties\<close>

text \<open>
  C3: A change of a row that a consumer has processed is in the index behind the read model's alias from then on, in
  that version or a later one that has been committed, as long as the row exists: through rebuilds of the index
  and swaps of the alias, in whatever order the tasks interleave, with deliveries repeated and
  out of order, commands of the engine that fail or take effect although they are reported to have failed, tasks
  cancelled and rebuild jobs killed at any request.
\<close>

theorem processed_changes_are_served:
  assumes "search_setting_ok c" "search_initial c w0" "search_reachable c w0 (w, ts)"
    and "(Upsert p i v t, Ret (Inr ())) \<in> set ts" "(i, u) \<in> set (table w)"
  shows "\<exists>index v' d. aliases (view c w) (logical c) = [index] \<and> documents (view c w) index (WStr i) = Some (v' + 1, Some d)
    \<and> v \<le> v' \<and> v' \<le> u \<and> renders c i v' d"
  using assms by (rule served_at)

text \<open>
  C12: When the consumers have processed the current version of every row, the index behind the alias holds the
  current version of every row, whatever else has been delivered and whichever rebuilds have run.
\<close>

theorem consumed_index_is_current:
  assumes "search_setting_ok c" "search_initial c w0" "search_reachable c w0 (w, ts)"
    and "\<forall>(i, u) \<in> set (table w). \<exists>p t. (Upsert p i u t, Ret (Inr ())) \<in> set ts"
  shows "\<exists>index. aliases (view c w) (logical c) = [index]
    \<and> (\<forall>(i, u) \<in> set (table w). \<exists>d. documents (view c w) index (WStr i) = Some (u + 1, Some d) \<and> renders c i u d)"
proof -
  have ok: "\<exists>index. aliases (view c w) (logical c) = [index]"
    using search.reachable_informed [OF assms(3) search_inv_initial [OF assms(1,2)]]
    by (auto simp: search_inv_def search_world_ok_def aliases_fit_def)
  have "\<exists>index d. aliases (view c w) (logical c) = [index] \<and> documents (view c w) index (WStr i) = Some (u + 1, Some d) \<and> renders c i u d"
    if "(i, u) \<in> set (table w)" for i u
  proof -
    obtain p t where "(Upsert p i u t, Ret (Inr ())) \<in> set ts" using assms(4) \<open>(i, u) \<in> set (table w)\<close> by blast
    from served_at [OF assms(1-3) this \<open>(i, u) \<in> set (table w)\<close>] obtain index v' d where
      "aliases (view c w) (logical c) = [index]" "documents (view c w) index (WStr i) = Some (v' + 1, Some d)"
      "u \<le> v'" "v' \<le> u" "renders c i v' d" by blast
    then show ?thesis by (metis order_antisym)
  qed
  with ok show ?thesis by fastforce
qed

end
