(* ===== verification/CacheAdapter.thy ===== *)
theory CacheAdapter
  imports RedisClient
begin

text \<open>
  The cache of the application layer (\<open>src/infrastructure/adapters/cache/cache_adapter.py\<close>) and the
  decorator that invalidates it after a command (\<open>src/application/cache_invalidation.py\<close>), as
  coroutines in the order of the source.

  Every access to the fields of the adapter is a request of its own, so tasks of a process
  interleave at least as freely as in \<open>asyncio\<close>. A name space is fenced by a counter in Redis, its
  generation, which is part of the key of every entry.
\<close>

section \<open>Keys\<close>

definition cache_namespace :: "string \<Rightarrow> query_exn + string" where
  "cache_namespace v =
     (if v \<noteq> [] \<and> is_lower (hd v) \<and> length v \<le> 32
         \<and> list_all (\<lambda>c. is_lower c \<or> is_digit c \<or> c = CHR ''_'' \<or> c = CHR ''-'') v
      then Inr v else Inl (QValueError ''invalid cache namespace''))"

definition hashed_key :: "platform \<Rightarrow> string \<Rightarrow> string \<Rightarrow> wire \<Rightarrow> string" where
  "hashed_key pl namespace kind v =
     namespace @ '':'' @ kind @ '':v1:'' @ pl_sha pl (json_dumps (pl_float pl) v)"

definition build_key :: "platform \<Rightarrow> string \<Rightarrow> string list \<Rightarrow> query_exn + string" where
  "build_key pl entity parts =
     rbind (cache_namespace entity) (\<lambda>ns. Inr (hashed_key pl ns ''item'' (WArr (map WStr parts))))"

definition build_list_key :: "platform \<Rightarrow> string \<Rightarrow> (string \<times> wire) list \<Rightarrow> query_exn + string" where
  "build_list_key pl entity filters =
     rbind (cache_namespace entity) (\<lambda>ns. Inr (hashed_key pl ns ''list'' (WObj filters)))"

definition build_count_key :: "platform \<Rightarrow> string \<Rightarrow> (string \<times> wire) list \<Rightarrow> query_exn + string" where
  "build_count_key pl entity filters =
     rbind (cache_namespace entity) (\<lambda>ns. Inr (hashed_key pl ns ''count'' (WObj filters)))"

definition lock_key :: "platform \<Rightarrow> string \<Rightarrow> string" where
  "lock_key pl key = ''cache-lock:v1:'' @ pl_sha pl key"

definition key_namespace :: "string \<Rightarrow> query_exn + string" where
  "key_namespace key =
     (if CHR '':'' \<in> set key then cache_namespace (takeWhile (\<lambda>c. c \<noteq> CHR '':'') key)
      else Inl (QValueError ''cache key must start with a namespace''))"

definition versioned :: "string \<Rightarrow> int \<Rightarrow> string" where
  "versioned key generation = key @ '':g'' @ show_int generation"

section \<open>The fence\<close>

record adapter =
  unsafe :: "string set"
  recovering :: "string set"
  flights :: "string set"
  recovery_locks :: "string set"

definition is_unsafe :: "string \<Rightarrow> bool task" where
  "is_unsafe namespace = Await (IsUnsafe namespace) (\<lambda>r. Ret (r = Flag True))"

definition recover_namespace_once :: "redis_client \<Rightarrow> string \<Rightarrow> bool task" where
  "recover_namespace_once cl namespace =
     io_bind (is_unsafe namespace) (\<lambda>u.
       if \<not> u then Ret True
       else Await (LockRecovery namespace) (\<lambda>_. io_finally
         (io_bind (is_unsafe namespace) (\<lambda>u.
            if \<not> u then Ret True
            else io_bind (bump_namespace_generation cl namespace) (\<lambda>g.
              case g of None \<Rightarrow> Ret False | Some _ \<Rightarrow> Await (ClearUnsafe namespace) (\<lambda>_. Ret True))))
         (Await (UnlockRecovery namespace) (\<lambda>_. Ret ()))))"

text \<open>The background task; \<open>rounds\<close> bounds the rounds it lives.\<close>

fun recover_namespace :: "redis_client \<Rightarrow> string \<Rightarrow> nat \<Rightarrow> rat \<Rightarrow> unit task" where
  "recover_namespace cl namespace 0 delay = Ret ()"
| "recover_namespace cl namespace (Suc rounds) delay =
     io_bind (is_unsafe namespace) (\<lambda>u.
       if \<not> u then Await (EndRecovery namespace) (\<lambda>_. Ret ())
       else Await (Sleep delay) (\<lambda>_. io_bind (recover_namespace_once cl namespace) (\<lambda>recovered.
         if recovered then Await (EndRecovery namespace) (\<lambda>_. Ret ())
         else recover_namespace cl namespace rounds (min (delay * 2) 5))))"

definition advance_generation :: "redis_client \<Rightarrow> string \<Rightarrow> bool task" where
  "advance_generation cl namespace =
     io_bind (bump_namespace_generation cl namespace) (\<lambda>g.
       if g \<noteq> None \<or> \<not> enabled cl then Await (ClearUnsafe namespace) (\<lambda>_. Ret True)
       else Await (MarkUnsafe namespace) (\<lambda>_. Await (StartRecovery namespace) (\<lambda>_. Ret False)))"

definition invalidate_entity :: "platform \<Rightarrow> redis_client \<Rightarrow> string \<Rightarrow> string \<Rightarrow> (query_exn + bool) task" where
  "invalidate_entity pl cl entity entity_id =
     (case cache_namespace entity of
        Inl e \<Rightarrow> Ret (Inl e)
      | Inr namespace \<Rightarrow>
          io_bind (advance_generation cl namespace) (\<lambda>fenced.
          io_bind (redis_delete cl (hashed_key pl namespace ''item'' (WArr [WStr entity_id]))) (\<lambda>_.
          io_bind (redis_delete_pattern cl (namespace @ '':list:v1:*'')) (\<lambda>_.
          io_bind (redis_delete_pattern cl (namespace @ '':count:v1:*'')) (\<lambda>_. Ret (Inr fenced))))))"

definition invalidate_all :: "redis_client \<Rightarrow> string \<Rightarrow> (query_exn + bool) task" where
  "invalidate_all cl entity =
     (case cache_namespace entity of
        Inl e \<Rightarrow> Ret (Inl e)
      | Inr namespace \<Rightarrow>
          io_bind (advance_generation cl namespace) (\<lambda>fenced.
          io_bind (redis_delete_pattern cl (namespace @ '':*:v1:*'')) (\<lambda>_. Ret (Inr fenced))))"

section \<open>Reading through the cache\<close>

text \<open>
  Waiting for the holder of the lease: at most two seconds, in sleeps of 25, 50, 100, 200, 200, ...
  milliseconds. Thirteen sleeps last longer than the wait (\<open>peer_polls_enough\<close>), so the fourteen
  rounds of \<open>wait_for_peer\<close> are never used up by a clock that counts the sleeps.
\<close>

fun peer_rounds :: "platform \<Rightarrow> redis_client \<Rightarrow> string \<Rightarrow> nat \<Rightarrow> rat \<Rightarrow> rat \<Rightarrow> wire task" where
  "peer_rounds pl cl key 0 deadline delay = Ret WNull"
| "peer_rounds pl cl key (Suc n) deadline delay =
     Await Clock (\<lambda>r. case r of
         Instant t \<Rightarrow>
           (if t < deadline
            then Await (Sleep delay) (\<lambda>_. io_bind (redis_get pl cl key) (\<lambda>cached.
                   if cached \<noteq> WNull then Ret cached
                   else peer_rounds pl cl key n deadline (min (delay * 2) (1 / 5))))
            else Ret WNull)
       | _ \<Rightarrow> Ret WNull)"

definition wait_for_peer :: "platform \<Rightarrow> redis_client \<Rightarrow> string \<Rightarrow> wire task" where
  "wait_for_peer pl cl key =
     Await Clock (\<lambda>r. case r of
         Instant t \<Rightarrow> peer_rounds pl cl key 14 (t + 2) (1 / 40)
       | _ \<Rightarrow> Ret WNull)"

definition store_loaded ::
  "platform \<Rightarrow> redis_client \<Rightarrow> string \<Rightarrow> int option \<Rightarrow> int \<Rightarrow> query_exn + wire \<Rightarrow> (query_exn + wire) task" where
  "store_loaded pl cl key ttl generation loaded =
     (case loaded of
        Inl e \<Rightarrow> Ret (Inl e)
      | Inr result \<Rightarrow>
          (if result = WNull then Ret (Inr result)
           else io_bind (redis_set pl cl (versioned key generation) result ttl) (\<lambda>stored.
             case stored of Inl e \<Rightarrow> Ret (Inl e) | Inr _ \<Rightarrow> Ret (Inr result))))"

definition load_and_store ::
  "platform \<Rightarrow> redis_client \<Rightarrow> string \<Rightarrow> (query_exn + wire) task \<Rightarrow> int option \<Rightarrow> string \<Rightarrow> int \<Rightarrow> (query_exn + wire) task" where
  "load_and_store pl cl key factory ttl namespace generation =
     io_bind factory (\<lambda>loaded. case loaded of
         Inl e \<Rightarrow> Ret (Inl e)
       | Inr result \<Rightarrow>
           io_bind (get_namespace_generation cl namespace) (\<lambda>current. case current of
               None \<Rightarrow> Ret (Inr result)
             | Some now \<Rightarrow>
                 io_bind (if now \<noteq> generation then factory else Ret (Inr result))
                   (store_loaded pl cl key ttl now)))"

text \<open>The lease of the miss: \<open>Inl\<close> is a value that appeared while waiting for it.\<close>

definition take_lease :: "platform \<Rightarrow> redis_client \<Rightarrow> string \<Rightarrow> string \<Rightarrow> (wire + lock_outcome) task" where
  "take_lease pl cl versioned_key lock =
     io_bind (try_acquire_lock cl lock 60) (\<lambda>token.
       if token \<noteq> Contended then Ret (Inr token)
       else io_bind (wait_for_peer pl cl versioned_key) (\<lambda>cached.
         if cached \<noteq> WNull then Ret (Inl cached)
         else io_bind (try_acquire_lock cl lock 60) (\<lambda>token. Ret (Inr token))))"

definition in_flight ::
  "platform \<Rightarrow> redis_client \<Rightarrow> string \<Rightarrow> (query_exn + wire) task \<Rightarrow> int option \<Rightarrow> string \<Rightarrow> (query_exn + wire) task" where
  "in_flight pl cl key factory ttl namespace =
     io_bind (get_namespace_generation cl namespace) (\<lambda>g. case g of
         None \<Rightarrow> factory
       | Some generation \<Rightarrow>
           io_bind (redis_get pl cl (versioned key generation)) (\<lambda>cached.
             if cached \<noteq> WNull then Ret (Inr cached)
             else io_bind (take_lease pl cl (versioned key generation) (lock_key pl (versioned key generation)))
               (\<lambda>lease. case lease of
                   Inl cached \<Rightarrow> Ret (Inr cached)
                 | Inr token \<Rightarrow> io_finally (load_and_store pl cl key factory ttl namespace generation)
                     (case token of
                        Held t \<Rightarrow> release_lock cl (lock_key pl (versioned key generation)) t
                      | _ \<Rightarrow> Ret ()))))"

definition get_or_set ::
  "platform \<Rightarrow> redis_client \<Rightarrow> string \<Rightarrow> (query_exn + wire) task \<Rightarrow> int option \<Rightarrow> (query_exn + wire) task" where
  "get_or_set pl cl key factory ttl =
     (case key_namespace key of
        Inl e \<Rightarrow> Ret (Inl e)
      | Inr namespace \<Rightarrow>
          io_bind (is_unsafe namespace) (\<lambda>u.
          io_bind (if u then recover_namespace_once cl namespace else Ret True) (\<lambda>safe.
            if \<not> safe then factory
            else io_bind (get_namespace_generation cl namespace) (\<lambda>g. case g of
                None \<Rightarrow> factory
              | Some generation \<Rightarrow>
                  io_bind (redis_get pl cl (versioned key generation)) (\<lambda>cached.
                    if cached \<noteq> WNull then Ret (Inr cached)
                    else Await (LockFlight (versioned key generation)) (\<lambda>_. io_finally
                      (in_flight pl cl key factory ttl namespace)
                      (Await (UnlockFlight (versioned key generation)) (\<lambda>_. Ret ()))))))))"

section \<open>Invalidation after a command\<close>

definition cache_namespaces :: "string list" where "cache_namespaces = [''book'', ''patron'', ''loan'']"

text \<open>
  \<open>InvalidateCacheAfterCommand.handle\<close>. Besides the result of the operation the coroutine returns
  what is only logged: whether the fence was persisted (\<open>None\<close>: the invalidation raised), and
  the position the world gave to the commit.
\<close>

definition handle_invalidating :: "redis_client \<Rightarrow> string \<Rightarrow> ((exn + wire) \<times> bool option \<times> nat) task" where
  "handle_invalidating cl namespace =
     Await Operation (\<lambda>r. case r of
         Committed (Inr result) i \<Rightarrow>
           io_bind (invalidate_all cl namespace) (\<lambda>f. case f of
               Inl _ \<Rightarrow> Ret (Inr result, None, i)
             | Inr fenced \<Rightarrow> Ret (Inr result, Some fenced, i))
       | Committed (Inl e) i \<Rightarrow> Ret (Inl e, None, i)
       | _ \<Rightarrow> Ret (Inr WNull, None, 0))"

lemma peer_polls_enough:
  "(2::rat) \<le> sum_list (map (\<lambda>i. min (2 ^ i / 40) (1 / 5)) [0..<13])"
  by (simp add: upt_rec)

end
