(* ===== verification/Cache.thy ===== *)
theory Cache
  imports CacheAdapter
begin

text \<open>
  The cache in its surroundings: several processes with an adapter each, any number of queries,
  commands, projections and recovery tasks, one Redis server, and the data the queries read.

  The server is a parameter. \<open>redis_documented\<close> states what the program relies on: the documented
  effect of each command; a command answered with an error may have been executed, not at all, or
  be executed later; entries may expire or be evicted at any time, but not the generation
  counters, which have no expiry. The data a query reads is a history of states, to which
  commands, projections and others append; \<open>load\<close> gives the answer to a query (by its cache key)
  in a state. A query reads one state, some time during its run, or fails.

  \<open>fence\<close> is a history variable: the position of the newest state when the counter of a name
  space reached a generation.
\<close>

section \<open>The server\<close>

record 'r redis_server =
  srv_get :: "'r \<Rightarrow> string \<Rightarrow> string option"
  srv_exec :: "'r \<Rightarrow> redis_command \<Rightarrow> 'r \<Rightarrow> reply \<Rightarrow> bool"
  srv_expire :: "'r \<Rightarrow> 'r \<Rightarrow> bool"

definition counter :: "(string \<Rightarrow> string option) \<Rightarrow> string \<Rightarrow> int option" where
  "counter m k = (case m k of None \<Rightarrow> Some 0 | Some s \<Rightarrow> py_int10 s)"

fun glob :: "string \<Rightarrow> string \<Rightarrow> bool" where
  "glob [] s = (s = [])"
| "glob (c # p) [] = (c = CHR ''*'' \<and> glob p [])"
| "glob (c # p) (d # s) =
     (if c = CHR ''*'' then glob p (d # s) \<or> glob (c # p) s else c = d \<and> glob p s)"

fun redis_effect :: "redis_command \<Rightarrow> (string \<Rightarrow> string option) \<Rightarrow> string \<Rightarrow> string option" where
  "redis_effect (SETEX k seconds v) m = m(k \<mapsto> v)"
| "redis_effect (SET_NX k v ms) m = (if m k = None then m(k \<mapsto> v) else m)"
| "redis_effect (INCR k) m = (case counter m k of Some n \<Rightarrow> m(k \<mapsto> show_int (n + 1)) | None \<Rightarrow> m)"
| "redis_effect (DEL k) m = m(k := None)"
| "redis_effect (UNLINK ks) m = (\<lambda>k. if k \<in> set ks then None else m k)"
| "redis_effect (RELEASE k v) m = (if m k = Some v then m(k := None) else m)"
| "redis_effect c m = m"

fun redis_reply :: "redis_command \<Rightarrow> (string \<Rightarrow> string option) \<Rightarrow> reply \<Rightarrow> bool" where
  "redis_reply (GET k) m r = (r = Bulk (m k))"
| "redis_reply (SETEX k seconds v) m r = (r = Ready)"
| "redis_reply (SET_NX k v ms) m r = (r = Granted (m k = None))"
| "redis_reply (INCR k) m r = (\<exists>n. counter m k = Some n \<and> r = Number (n + 1))"
| "redis_reply (SCAN p) m r = (\<exists>ks. r = Names ks \<and> (\<forall>k\<in>set ks. glob p k))"
| "redis_reply PING m r = (r = Ready)"
| "redis_reply c m r = (\<exists>n. r = Number n)"

definition is_generation_key :: "string \<Rightarrow> bool" where
  "is_generation_key k \<longleftrightarrow> prefix ''cache-generation:v1:'' k"

text \<open>Keys may have gone from a store, but no generation counter.\<close>

definition expired :: "(string \<Rightarrow> string option) \<Rightarrow> (string \<Rightarrow> string option) \<Rightarrow> bool" where
  "expired m m' \<longleftrightarrow> (\<forall>k. m' k = m k \<or> m' k = None \<and> \<not> is_generation_key k)"

definition redis_documented :: "'r redis_server \<Rightarrow> bool" where
  "redis_documented srv \<longleftrightarrow>
     (\<forall>s c s' r. srv_exec srv s c s' r \<longrightarrow>
        (r = Failed \<and> expired (srv_get srv s) (srv_get srv s'))
        \<or> (r = Failed \<or> redis_reply c (srv_get srv s) r)
          \<and> expired (redis_effect c (srv_get srv s)) (srv_get srv s'))
     \<and> (\<forall>s s'. srv_expire srv s s' \<longrightarrow> expired (srv_get srv s) (srv_get srv s'))"

section \<open>The world\<close>

record ('r, 'd) cache_world =
  server :: 'r
  late :: "redis_command list"
  history :: "'d list"
  adapters :: "nat \<Rightarrow> adapter"
  fence :: "string \<Rightarrow> int \<Rightarrow> nat"

definition generation_at :: "'r redis_server \<Rightarrow> 'r \<Rightarrow> string \<Rightarrow> int" where
  "generation_at srv s ns = (case counter (srv_get srv s) (generation_key ns) of Some n \<Rightarrow> n | None \<Rightarrow> 0)"

definition served :: "'r redis_server \<Rightarrow> 'r \<Rightarrow> ('r, 'd) cache_world \<Rightarrow> ('r, 'd) cache_world" where
  "served srv s' w =
     w\<lparr>server := s',
       fence := (\<lambda>ns n. if generation_at srv s' ns = n \<and> generation_at srv (server w) ns < n
                        then length (history w) - 1 else fence w ns n)\<rparr>"

text \<open>
  The activities of the system. \<open>Query p key since\<close> runs in process \<open>p\<close>; \<open>since\<close> records the fence
  of its name space when it was started.
\<close>

datatype activity = Query nat string nat | Command nat string | Projection nat string | Recovery nat string

datatype outcome = Answer "query_exn + wire" | Executed "exn + wire" "bool option" nat | Done

fun process_of :: "activity \<Rightarrow> nat" where
  "process_of (Query p key since) = p"
| "process_of (Command p ns) = p"
| "process_of (Projection p ns) = p"
| "process_of (Recovery p ns) = p"

definition cache_key :: "string \<Rightarrow> bool" where
  "cache_key key \<longleftrightarrow> list_ex (\<lambda>ns. prefix (ns @ '':'') key) cache_namespaces"

definition space_of :: "string \<Rightarrow> string" where
  "space_of key = takeWhile (\<lambda>c. c \<noteq> CHR '':'') key"

definition source :: "string \<Rightarrow> (query_exn + wire) task" where
  "source key = Await (Source key) (\<lambda>r. case r of Loaded x \<Rightarrow> Ret x | _ \<Rightarrow> Ret (Inl QTypeError))"

definition query_task :: "platform \<Rightarrow> redis_client \<Rightarrow> string \<Rightarrow> int option \<Rightarrow> outcome task" where
  "query_task pl cl key ttl = io_bind (get_or_set pl cl key (source key) ttl) (\<lambda>x. Ret (Answer x))"

definition command_task :: "redis_client \<Rightarrow> string \<Rightarrow> outcome task" where
  "command_task cl ns = io_bind (handle_invalidating cl ns) (\<lambda>(x, fenced, i). Ret (Executed x fenced i))"

text \<open>A projection updates the index and then invalidates an entity (\<open>_invalidate_cache\<close>).\<close>

definition projection_task :: "platform \<Rightarrow> redis_client \<Rightarrow> string \<Rightarrow> string \<Rightarrow> outcome task" where
  "projection_task pl cl ns entity_id =
     Await Operation (\<lambda>r. case r of
         Committed (Inr result) i \<Rightarrow>
           io_bind (invalidate_entity pl cl ns entity_id) (\<lambda>f. case f of
               Inl _ \<Rightarrow> Ret (Executed (Inr result) None i)
             | Inr fenced \<Rightarrow> Ret (Executed (Inr result) (Some fenced) i))
       | Committed (Inl e) i \<Rightarrow> Ret (Executed (Inl e) None i)
       | _ \<Rightarrow> Ret Done)"

definition recovery_task :: "redis_client \<Rightarrow> string \<Rightarrow> nat \<Rightarrow> outcome task" where
  "recovery_task cl ns rounds = io_bind (recover_namespace cl ns rounds (1 / 10)) (\<lambda>_. Ret Done)"

definition set_adapter :: "nat \<Rightarrow> (adapter \<Rightarrow> adapter) \<Rightarrow> ('r, 'd) cache_world \<Rightarrow> ('r, 'd) cache_world" where
  "set_adapter p f w = w\<lparr>adapters := (adapters w)(p := f (adapters w p))\<rparr>"

inductive cache_start ::
  "'r redis_server \<Rightarrow> platform \<Rightarrow> redis_client \<Rightarrow> ('r, 'd) cache_world \<Rightarrow> activity \<Rightarrow> outcome task \<Rightarrow> bool"
  for srv pl cl where
  query: "cache_key key \<Longrightarrow> cache_start srv pl cl w
    (Query p key (fence w (space_of key) (generation_at srv (server w) (space_of key)))) (query_task pl cl key ttl)"
| command: "ns \<in> set cache_namespaces \<Longrightarrow> cache_start srv pl cl w (Command p ns) (command_task cl ns)"
| projection: "ns \<in> set cache_namespaces \<Longrightarrow> cache_start srv pl cl w (Projection p ns) (projection_task pl cl ns i)"
| recovery: "\<lbrakk>ns \<in> set cache_namespaces; ns \<in> recovering (adapters w p)\<rbrakk>
    \<Longrightarrow> cache_start srv pl cl w (Recovery p ns) (recovery_task cl ns rounds)"

inductive cache_env :: "'r redis_server \<Rightarrow> ('r, 'd) cache_world \<Rightarrow> ('r, 'd) cache_world \<Rightarrow> bool" for srv where
  changed: "cache_env srv w (w\<lparr>history := history w @ [d]\<rparr>)"
| expiry: "srv_expire srv (server w) s' \<Longrightarrow> cache_env srv w (w\<lparr>server := s'\<rparr>)"
| delayed: "\<lbrakk>c \<in> set (late w); srv_exec srv (server w) c s' r\<rbrakk> \<Longrightarrow> cache_env srv w (served srv s' w)"

inductive cache_exec ::
  "'r redis_server \<Rightarrow> ('d \<Rightarrow> string \<Rightarrow> query_exn + wire)
   \<Rightarrow> ('r, 'd) cache_world \<Rightarrow> activity \<Rightarrow> cache_op \<Rightarrow> ('r, 'd) cache_world \<Rightarrow> reply \<Rightarrow> bool"
  for srv load where
  redis: "srv_exec srv (server w) c s' r \<Longrightarrow> cache_exec srv load w t (Redis c)
    ((served srv s' w)\<lparr>late := if r = Failed then c # late w else late w\<rparr>) r"
| random: "\<bar>x\<bar> \<le> spread \<Longrightarrow> cache_exec srv load w t (Random spread) w (Sample x)"
| token: "cache_exec srv load w t Token w (Fresh s)"
| clock: "cache_exec srv load w t Clock w (Instant x)"
| sleep: "cache_exec srv load w t (Sleep x) w Ready"
| source: "cache_exec srv load w t (Source key) w (Loaded (load (last (history w)) key))"
| source_fails: "cache_exec srv load w t (Source key) w (Loaded (Inl e))"
| commits: "cache_exec srv load w t Operation (w\<lparr>history := history w @ [d]\<rparr>) (Committed x (length (history w)))"
| refuses: "i < length (history w) \<Longrightarrow> cache_exec srv load w t Operation w (Committed (Inl e) i)"
| is_unsafe: "cache_exec srv load w t (IsUnsafe ns) w (Flag (ns \<in> unsafe (adapters w (process_of t))))"
| mark_unsafe: "cache_exec srv load w t (MarkUnsafe ns)
    (set_adapter (process_of t) (\<lambda>a. a\<lparr>unsafe := insert ns (unsafe a)\<rparr>) w) Ready"
| clear_unsafe: "cache_exec srv load w t (ClearUnsafe ns)
    (set_adapter (process_of t) (\<lambda>a. a\<lparr>unsafe := unsafe a - {ns}\<rparr>) w) Ready"
| start_recovery: "cache_exec srv load w t (StartRecovery ns)
    (set_adapter (process_of t) (\<lambda>a. a\<lparr>recovering := insert ns (recovering a)\<rparr>) w) Ready"
| end_recovery: "cache_exec srv load w t (EndRecovery ns)
    (set_adapter (process_of t) (\<lambda>a. a\<lparr>recovering := recovering a - {ns}\<rparr>) w) Ready"
| lock_flight: "k \<notin> flights (adapters w (process_of t)) \<Longrightarrow> cache_exec srv load w t (LockFlight k)
    (set_adapter (process_of t) (\<lambda>a. a\<lparr>flights := insert k (flights a)\<rparr>) w) Ready"
| unlock_flight: "cache_exec srv load w t (UnlockFlight k)
    (set_adapter (process_of t) (\<lambda>a. a\<lparr>flights := flights a - {k}\<rparr>) w) Ready"
| lock_recovery: "ns \<notin> recovery_locks (adapters w (process_of t)) \<Longrightarrow> cache_exec srv load w t (LockRecovery ns)
    (set_adapter (process_of t) (\<lambda>a. a\<lparr>recovery_locks := insert ns (recovery_locks a)\<rparr>) w) Ready"
| unlock_recovery: "cache_exec srv load w t (UnlockRecovery ns)
    (set_adapter (process_of t) (\<lambda>a. a\<lparr>recovery_locks := recovery_locks a - {ns}\<rparr>) w) Ready"

abbreviation cache_step where
  "cache_step srv pl cl load \<equiv> system_step (cache_env srv) (cache_start srv pl cl) (cache_exec srv load)"

text \<open>An empty Redis, one state of the data, fresh processes.\<close>

definition cache_initial :: "'r redis_server \<Rightarrow> ('r, 'd) cache_world \<Rightarrow> bool" where
  "cache_initial srv w \<longleftrightarrow> (\<forall>k. srv_get srv (server w) k = None) \<and> late w = [] \<and> length (history w) = 1
     \<and> (\<forall>ns n. fence w ns n = 0)"

abbreviation cache_reachable where
  "cache_reachable srv pl cl load \<equiv>
     reachable (cache_env srv) (cache_start srv pl cl) (cache_exec srv load)"

end
