(* ===== verification/CacheKnowledge.thy ===== *)
theory CacheKnowledge
  imports Cache
begin

text \<open>
  What a task of the cache knows, and rules for the coroutines of \<open>CacheAdapter\<close> in terms of it.
  A task knows a lower bound \<open>low\<close> of its name space's generation, and values \<open>got\<close>: a pair
  \<open>(n, v)\<close> means that \<open>v\<close> answers the query in some state no older than the fence of generation
  \<open>n\<close>. No step of another task falsifies either.
\<close>

section \<open>Knowledge\<close>

record knowledge =
  base :: int
  low :: int
  got :: "(int \<times> wire) set"
  done_at :: "nat option"
  acked :: bool

fun space :: "activity \<Rightarrow> string" where
  "space (Query p key since) = space_of key"
| "space (Command p ns) = ns"
| "space (Projection p ns) = ns"
| "space (Recovery p ns) = ns"

fun key_of :: "activity \<Rightarrow> string option" where
  "key_of (Query p key since) = Some key"
| "key_of _ = None"

definition is_lock_key :: "string \<Rightarrow> bool" where
  "is_lock_key k \<longleftrightarrow> prefix ''cache-lock:'' k"

fun allowed_command :: "platform \<Rightarrow> activity \<Rightarrow> knowledge \<Rightarrow> redis_command \<Rightarrow> bool" where
  "allowed_command pl t k (SETEX e seconds s) = (\<exists>key n v. key_of t = Some key \<and> cache_key key
     \<and> e = versioned key n \<and> n \<le> low k \<and> (n, v) \<in> got k \<and> storable pl v \<and> s = serialized pl v)"
| "allowed_command pl t k (SET_NX e v ms) = is_lock_key e"
| "allowed_command pl t k (INCR e) = (e = generation_key (space t))"
| "allowed_command pl t k (DEL e) = (\<not> is_generation_key e)"
| "allowed_command pl t k (UNLINK es) = (\<forall>e\<in>set es. \<not> is_generation_key e)"
| "allowed_command pl t k (RELEASE e v) = is_lock_key e"
| "allowed_command pl t k _ = True"

fun allowed :: "platform \<Rightarrow> activity \<Rightarrow> knowledge \<Rightarrow> cache_op \<Rightarrow> bool" where
  "allowed pl t k (Redis c) = allowed_command pl t k c"
| "allowed pl t k (Source key) = (key_of t = Some key)"
| "allowed pl t k _ = True"

fun possible :: "platform \<Rightarrow> activity \<Rightarrow> knowledge \<Rightarrow> cache_op \<Rightarrow> reply \<Rightarrow> bool" where
  "possible pl t k (Redis (GET e)) r =
     (r = Failed \<or> (\<exists>b. r = Bulk b
        \<and> (e = generation_key (space t) \<longrightarrow> b = None \<and> low k \<le> 0 \<or> (\<exists>n. b = Some (show_nat n) \<and> low k \<le> int n))
        \<and> (\<forall>key n s. key_of t = Some key \<longrightarrow> e = versioned key n \<longrightarrow> b = Some s
             \<longrightarrow> (\<exists>v. storable pl v \<and> s = serialized pl v))))"
| "possible pl t k (Redis (SCAN p)) r = (r = Failed \<or> (\<exists>es. r = Names es \<and> (\<forall>e\<in>set es. glob p e)))"
| "possible pl t k (Source key) r = (\<exists>x. r = Loaded x \<and> (\<forall>v. x = Inr v \<longrightarrow> storable pl v))"
| "possible pl t k q r = True"

definition learn :: "platform \<Rightarrow> activity \<Rightarrow> knowledge \<Rightarrow> cache_op \<Rightarrow> reply \<Rightarrow> knowledge" where
  "learn pl t k q r = k\<lparr>
     low := (case r of Bulk (Some s) \<Rightarrow>
               (if q = Redis (GET (generation_key (space t))) then max (low k) (the (py_int10 s)) else low k)
             | _ \<Rightarrow> low k),
     got := got k \<union> {(n, v). n \<le> low k \<and> (\<exists>key. q = Source key \<and> r = Loaded (Inr v))}
       \<union> {(n, v). n \<le> low k \<and> (\<exists>key s. key_of t = Some key \<and> q = Redis (GET (versioned key n))
            \<and> r = Bulk (Some s) \<and> deserialized pl s = Some v)},
     done_at := (if q = Operation then case r of Committed x i \<Rightarrow> Some i | _ \<Rightarrow> None else done_at k),
     acked := (if q = Operation then False else if \<exists>e. q = Redis (INCR e) \<and> r \<noteq> Failed then True else acked k)\<rparr>"

fun post :: "activity \<Rightarrow> knowledge \<Rightarrow> outcome \<Rightarrow> bool" where
  "post (Query p key since) k x = (\<forall>v. x = Answer (Inr v) \<longrightarrow> (\<exists>n\<ge>base k. (n, v) \<in> got k))"
| "post t k x = (\<forall>v i. x = Executed (Inr v) (Some True) i \<longrightarrow> done_at k = Some i \<and> acked k)"

abbreviation wpc where
  "wpc pl t \<equiv> wp (allowed pl t) (possible pl t) (learn pl t)"

text \<open>Knowledge grows. A task without commands to the server that counts keeps \<open>acked\<close>.\<close>

definition grows :: "knowledge \<Rightarrow> knowledge \<Rightarrow> bool" where
  "grows k k' \<longleftrightarrow> base k' = base k \<and> low k \<le> low k' \<and> got k \<subseteq> got k' \<and> done_at k' = done_at k \<and> (acked k \<longrightarrow> acked k')"

lemma grows_refl [simp, intro]: "grows k k"
  by (simp add: grows_def)

lemma grows_trans: "grows k k' \<Longrightarrow> grows k' k'' \<Longrightarrow> grows k k''"
  by (auto simp: grows_def)

lemma grows_learn [simp]: "q \<noteq> Operation \<Longrightarrow> grows k (learn pl t k q r)"
  by (cases r) (auto simp: grows_def learn_def split: option.splits)

lemma grows_low: "grows k k' \<Longrightarrow> low k \<le> low k'"
  and grows_got: "grows k k' \<Longrightarrow> x \<in> got k \<Longrightarrow> x \<in> got k'"
  and grows_base: "grows k k' \<Longrightarrow> base k' = base k"
  by (auto simp: grows_def)

section \<open>Rules\<close>

text \<open>
  Each rule says what a task may know more when the coroutine returns; what it knew is kept. The
  keys of the caches and those of the server's counters are told apart by their prefixes.
\<close>

lemma versioned_inject: "versioned a m = versioned b n \<longleftrightarrow> a = b \<and> m = n"
proof
  let ?P = "\<lambda>c. is_digit c \<or> c = CHR ''-''"
  have last: "takeWhile ?P (rev (versioned a m)) = rev (show_int m)" for a m
  proof -
    have "takeWhile ?P (rev (show_int m) @ CHR ''g'' # CHR '':'' # rev a) = rev (show_int m)"
      using show_int_chars [of _ m] by (subst takeWhile_append2) (auto simp: is_digit_def code_def)
    then show ?thesis by (simp add: versioned_def)
  qed
  assume e: "versioned a m = versioned b n"
  with last [of a m] last [of b n] have "show_int m = show_int n" by simp
  moreover from this e have "a = b" by (simp add: versioned_def)
  ultimately show "a = b \<and> m = n" using show_int_inj by (simp add: inj_eq)
qed simp

lemma cache_key_prefix:
  assumes "cache_key key"
  shows "space_of key \<in> set cache_namespaces" "key_namespace key = Inr (space_of key)"
    "\<not> is_generation_key (versioned key n)" "\<not> is_lock_key (versioned key n)"
    "versioned key n \<noteq> generation_key ms"
proof -
  obtain ns r where k: "ns \<in> set cache_namespaces" "key = ns @ '':'' @ r"
    using assms by (auto simp: cache_key_def list_ex_iff prefix_def)
  then have "takeWhile (\<lambda>c. c \<noteq> CHR '':'') key = ns" by (auto simp: cache_namespaces_def)
  then have s: "space_of key = ns" by (simp add: space_of_def)
  with k(1) show "space_of key \<in> set cache_namespaces" by simp
  show "key_namespace key = Inr (space_of key)"
    using k s by (auto simp: key_namespace_def space_of_def cache_namespaces_def cache_namespace_def is_lower_def is_digit_def code_def)
  show g: "\<not> is_generation_key (versioned key n)" and "\<not> is_lock_key (versioned key n)"
    using k by (auto simp: cache_namespaces_def versioned_def is_generation_key_def is_lock_key_def)
  show "versioned key n \<noteq> generation_key ms" using g by (auto simp: is_generation_key_def generation_key_def prefix_def)
qed

lemma lock_key_kind: "is_lock_key (lock_key pl key)"
  by (simp add: is_lock_key_def lock_key_def prefix_def)

lemma generation_key_kind: "is_generation_key (generation_key ns)"
  by (simp add: is_generation_key_def generation_key_def prefix_def)

lemma wpc_bind: "wpc pl t (io_bind p f) Q k = wpc pl t p (\<lambda>k' x. wpc pl t (f x) Q k') k"
  by (rule wp_bind)

lemma wpc_finally:
  assumes "wpc pl t p (\<lambda>k' x. wpc pl t c (\<lambda>k'' _. Q k'' x) k') k"
  shows "wpc pl t (io_finally p c) Q k"
  using assms by (simp add: io_finally_def wpc_bind)

lemma wpc_awaitI:
  assumes "allowed pl t k q" "\<And>r. possible pl t k q r \<Longrightarrow> wpc pl t (c r) Q (learn pl t k q r)"
  shows "wpc pl t (Await q c) Q k"
  using assms by simp

text \<open>Rules for coroutines after which only the growth since \<open>k\<^sub>0\<close> counts.\<close>

lemma wpc_await:
  assumes "allowed pl t k q" "q \<noteq> Operation" "grows k\<^sub>0 k"
    and "\<And>k' r. grows k\<^sub>0 k' \<Longrightarrow> wpc pl t (c r) Q k'"
  shows "wpc pl t (Await q c) Q k"
  using assms grows_trans grows_learn by fastforce

lemma wpc_is_unsafe:
  assumes "grows k\<^sub>0 k" "\<And>k' u. grows k\<^sub>0 k' \<Longrightarrow> Q k' u"
  shows "wpc pl t (is_unsafe ns) Q k"
  unfolding is_unsafe_def by (rule wpc_await) (auto intro: assms)

lemma wpc_bump:
  assumes "grows k\<^sub>0 k" "\<And>k' g. grows k\<^sub>0 k' \<Longrightarrow> (g \<noteq> None \<longrightarrow> acked k') \<Longrightarrow> Q k' g"
  shows "wpc pl t (bump_namespace_generation cl (space t)) Q k"
proof (cases "enabled cl")
  case True
  have g: "grows k\<^sub>0 (learn pl t k q r)" if "q \<noteq> Operation" for q r
    using assms(1) grows_learn [OF that] by (rule grows_trans)
  have "Q (learn pl t k q r) (Some n)" if "q = Redis (INCR (generation_key (space t)))" "r = Number n" for q r n
    using that by (intro assms(2) g) (simp_all add: learn_def)
  with True g show ?thesis unfolding bump_namespace_generation_def
    by (auto split: reply.split intro!: assms(2))
qed (use assms in \<open>simp add: bump_namespace_generation_def\<close>)

lemma wpc_recover_once:
  assumes "grows k\<^sub>0 k" "\<And>k' b. grows k\<^sub>0 k' \<Longrightarrow> Q k' b"
  shows "wpc pl t (recover_namespace_once cl (space t)) Q k"
  unfolding recover_namespace_once_def wpc_bind
proof (rule wpc_is_unsafe [OF assms(1)])
  fix k1 u assume 1: "grows k\<^sub>0 k1"
  have body: "wpc pl t (io_bind (is_unsafe (space t)) (\<lambda>u. if \<not> u then Ret True
         else io_bind (bump_namespace_generation cl (space t)) (\<lambda>g.
           case g of None \<Rightarrow> Ret False | Some _ \<Rightarrow> Await (ClearUnsafe (space t)) (\<lambda>_. Ret True)))) R k2"
    if "grows k\<^sub>0 k2" "\<And>k' b. grows k\<^sub>0 k' \<Longrightarrow> R k' b" for R k2
    unfolding wpc_bind
  proof (rule wpc_is_unsafe [OF that(1)])
    fix k3 u assume 3: "grows k\<^sub>0 k3"
    have "wpc pl t (Await (ClearUnsafe (space t)) (\<lambda>_. Ret True)) R k'" if "grows k\<^sub>0 k'" for k'
      using that by (rule wpc_await [rotated 2]) (simp_all add: \<open>\<And>k' b. grows k\<^sub>0 k' \<Longrightarrow> R k' b\<close>)
    with 3 that(2) show "wpc pl t (if \<not> u then Ret True
         else io_bind (bump_namespace_generation cl (space t)) (\<lambda>g.
           case g of None \<Rightarrow> Ret False | Some _ \<Rightarrow> Await (ClearUnsafe (space t)) (\<lambda>_. Ret True))) R k3"
      by (auto simp: wpc_bind split: option.split intro!: wpc_bump [OF 3] simp del: wp.simps(2))
  qed
  show "wpc pl t (if \<not> u then Ret True else Await (LockRecovery (space t)) (\<lambda>_. io_finally
      (io_bind (is_unsafe (space t)) (\<lambda>u. if \<not> u then Ret True
         else io_bind (bump_namespace_generation cl (space t)) (\<lambda>g.
           case g of None \<Rightarrow> Ret False | Some _ \<Rightarrow> Await (ClearUnsafe (space t)) (\<lambda>_. Ret True))))
      (Await (UnlockRecovery (space t)) (\<lambda>_. Ret ())))) Q k1"
    using 1 assms(2)
    by (auto simp del: wp.simps(2) intro!: wpc_await [OF _ _ 1] wpc_finally body wpc_await [where k\<^sub>0=k\<^sub>0])
qed

section \<open>Reading\<close>

text \<open>What a read of an entry, of the generation, and of the data adds.\<close>

lemma wpc_get_entry:
  assumes "grows k\<^sub>0 k" "key_of t = Some key" "cache_key key" "n \<le> low k"
    and "\<And>k' v. grows k\<^sub>0 k' \<Longrightarrow> low k' = low k \<Longrightarrow> v \<noteq> WNull \<longrightarrow> (n, v) \<in> got k' \<Longrightarrow> Q k' v"
  shows "wpc pl t (redis_get pl cl (versioned key n)) Q k"
proof (cases "enabled cl")
  case True
  let ?q = "Redis (GET (versioned key n))"
  have g: "grows k\<^sub>0 (learn pl t k ?q r)" for r using assms(1) grows_learn by (rule grows_trans) simp
  have l: "low (learn pl t k ?q r) = low k" for r
    using cache_key_prefix(5) [OF assms(3)] by (auto simp: learn_def split: reply.split option.split)
  have "wpc pl t (case r of Bulk (Some s) \<Rightarrow> Ret (if s = [] then WNull else case deserialized pl s of Some w \<Rightarrow> w | None \<Rightarrow> WNull)
      | _ \<Rightarrow> Ret WNull) Q (learn pl t k ?q r)" if p: "possible pl t k ?q r" for r
  proof (cases "\<exists>s. r = Bulk (Some s)")
    case True
    then obtain s v where s: "r = Bulk (Some s)" "storable pl v" "s = serialized pl v" using p assms(2) by auto
    then have d: "deserialized pl s = Some v" "s \<noteq> []" by (auto simp: deserialized_serialized serialized_nonempty)
    with assms(2,4) s(1) have "(n, v) \<in> got (learn pl t k ?q r)" by (auto simp: learn_def)
    with assms(5) [OF g l] s(1) d show ?thesis by simp
  next
    case False
    then show ?thesis by (auto split: reply.split option.split intro!: assms(5) g l)
  qed
  from wpc_awaitI [OF _ this] True show ?thesis by (simp add: redis_get_def del: wp.simps(2) possible.simps)
qed (use assms in \<open>simp add: redis_get_def\<close>)

lemma wpc_generation:
  assumes "grows k\<^sub>0 k" "0 \<le> low k"
    and "\<And>k' g. grows k\<^sub>0 k' \<Longrightarrow> grows k k' \<Longrightarrow> \<forall>n. g = Some n \<longrightarrow> enabled cl \<longrightarrow> low k' = n \<Longrightarrow> Q k' g"
  shows "wpc pl t (get_namespace_generation cl (space t)) Q k"
proof (cases "enabled cl")
  case True
  let ?q = "Redis (GET (generation_key (space t)))"
  have g: "grows k\<^sub>0 (learn pl t k ?q r)" "grows k (learn pl t k ?q r)" for r
    using assms(1) grows_trans by (fastforce, simp)
  have "wpc pl t (case r of Bulk None \<Rightarrow> Ret (Some 0) | Bulk (Some raw) \<Rightarrow> Ret (py_int10 raw) | _ \<Rightarrow> Ret None) Q
      (learn pl t k ?q r)" if p: "possible pl t k ?q r" for r
  proof (cases r)
    case (Bulk b)
    with p assms(2) consider "b = None" "low k = 0" | n where "b = Some (show_nat n)" "low k \<le> int n" by auto
    then show ?thesis
    proof cases
      case 1
      then have "low (learn pl t k ?q r) = 0" using Bulk by (simp add: learn_def)
      with assms(3) [OF g, where g="Some 0"] Bulk 1 show ?thesis by simp
    next
      case (2 n)
      then have "low (learn pl t k ?q r) = int n" using Bulk by (simp add: learn_def py_int10_show_nat)
      with assms(3) [OF g, where g="Some (int n)"] Bulk 2 show ?thesis by (simp add: py_int10_show_nat)
    qed
  qed (use assms(3) [OF g, where g=None] p in \<open>auto split: reply.split\<close>)
  from wpc_awaitI [OF _ this] True show ?thesis
    by (simp add: get_namespace_generation_def del: wp.simps(2) possible.simps)
qed (use assms in \<open>simp add: get_namespace_generation_def\<close>)

lemma wpc_source:
  assumes "grows k\<^sub>0 k" "key_of t = Some key"
    and "\<And>k' x. grows k\<^sub>0 k' \<Longrightarrow> low k' = low k \<Longrightarrow> \<forall>v. x = Inr v \<longrightarrow> storable pl v \<and> (\<forall>n\<le>low k. (n, v) \<in> got k') \<Longrightarrow> Q k' x"
  shows "wpc pl t (source key) Q k"
proof -
  have "Q (learn pl t k (Source key) (Loaded x)) x" if "\<forall>v. x = Inr v \<longrightarrow> storable pl v" for x
    using that by (intro assms(3) grows_trans [OF assms(1) grows_learn]) (auto simp: learn_def)
  with assms(2) show ?thesis by (auto simp: source_def)
qed

section \<open>Locks and writes\<close>

lemma wpc_set:
  assumes "grows k\<^sub>0 k" "key_of t = Some key" "cache_key key" "n \<le> low k" "(n, v) \<in> got k" "storable pl v"
    and "\<And>k' x. grows k\<^sub>0 k' \<Longrightarrow> Q k' x"
  shows "wpc pl t (redis_set pl cl (versioned key n) v ttl) Q k"
proof -
  have a: "allowed pl t k' (Redis (SETEX (versioned key n) s (serialized pl v)))" if "grows k k'" for k' s
    using assms(2-6) grows_low [OF that] grows_got [OF that] by fastforce
  have g: "grows k\<^sub>0 (learn pl t k' q r)" "grows k (learn pl t k q r)" if "q \<noteq> Operation" "grows k k'" for k' q r
    using that assms(1) grows_trans grows_learn by blast+
  show ?thesis
    using assms(1,7) a g
    by (auto simp: redis_set_def effective_ttl_def wpc_bind split: reply.split option.split simp del: allowed.simps(1))
qed

lemma wpc_lock:
  assumes "grows k\<^sub>0 k" "is_lock_key e" "\<And>k' x. grows k\<^sub>0 k' \<Longrightarrow> Q k' x"
  shows "wpc pl t (try_acquire_lock cl e ttl) Q k"
  using assms unfolding try_acquire_lock_def
  by (auto split: reply.split simp del: wp.simps(2) intro!: wpc_await [where k\<^sub>0=k\<^sub>0])

lemma wpc_unlock:
  assumes "grows k\<^sub>0 k" "is_lock_key e" "\<And>k' x. grows k\<^sub>0 k' \<Longrightarrow> Q k' x"
  shows "wpc pl t (release_lock cl e token) Q k"
  using assms unfolding release_lock_def
  by (auto simp del: wp.simps(2) intro!: wpc_await [where k\<^sub>0=k\<^sub>0])

lemma wpc_peer:
  assumes "grows k\<^sub>0 k" "key_of t = Some key" "cache_key key" "n \<le> low k"
    and "\<And>k' v. grows k\<^sub>0 k' \<Longrightarrow> v \<noteq> WNull \<longrightarrow> (n, v) \<in> got k' \<Longrightarrow> Q k' v"
  shows "wpc pl t (wait_for_peer pl cl (versioned key n)) Q k"
proof -
  have rounds: "wpc pl t (peer_rounds pl cl (versioned key n) m deadline delay) Q k'"
    if "grows k\<^sub>0 k'" "n \<le> low k'" for m deadline delay k'
    using that
  proof (induction m arbitrary: delay k')
    case (Suc m)
    have "wpc pl t (redis_get pl cl (versioned key n)) (\<lambda>k3 x. wpc pl t (if x \<noteq> WNull then Ret x
        else peer_rounds pl cl (versioned key n) m deadline (min (delay * 2) (1 / 5))) Q k3) k2" if "grows k' k2" for k2
      using grows_trans [OF Suc.prems(1) that] assms(2,3) Suc.prems(2) grows_low [OF that]
      by (intro wpc_get_entry [where k\<^sub>0=k\<^sub>0]) (auto intro: Suc.IH assms(5))
    then have get: "wpc pl t (io_bind (redis_get pl cl (versioned key n)) (\<lambda>x. if x \<noteq> WNull then Ret x
        else peer_rounds pl cl (versioned key n) m deadline (min (delay * 2) (1 / 5)))) Q k2" if "grows k' k2" for k2
      using that by (simp only: wpc_bind)
    have gr: "grows k\<^sub>0 k2" if "grows k' k2" for k2 using grows_trans [OF Suc.prems(1) that] .
    show ?case
      by (auto simp del: wp.simps(2) split: reply.split intro!: wpc_await [where k\<^sub>0=k'] get assms(5) gr)
  qed (auto intro: assms(5))
  have gr: "grows k\<^sub>0 k2" if "grows k k2" for k2 using grows_trans [OF assms(1) that] .
  show ?thesis unfolding wait_for_peer_def using assms(4)
    by (auto simp del: wp.simps(2) split: reply.split dest: grows_low intro!: wpc_await [where k\<^sub>0=k] rounds assms(5) gr)
      (meson grows_low order_trans)+
qed

section \<open>The whole read\<close>

text \<open>
  \<open>answered\<close>: the value answers the query in a state no older than the fence of the generation
  that was current when the task was started.
\<close>

definition answered :: "knowledge \<Rightarrow> query_exn + wire \<Rightarrow> bool" where
  "answered k x \<longleftrightarrow> (\<forall>v. x = Inr v \<longrightarrow> (\<exists>n\<ge>base k. (n, v) \<in> got k))"

lemma answered_grows: "answered k x \<Longrightarrow> grows k k' \<Longrightarrow> answered k' x"
  by (fastforce simp: answered_def grows_def)

lemma answeredI: "(n, v) \<in> got k \<Longrightarrow> base k \<le> n \<Longrightarrow> answered k (Inr v)"
  by (auto simp: answered_def)

text \<open>A task that only has to grow and stay in bounds.\<close>

definition sane :: "knowledge \<Rightarrow> knowledge \<Rightarrow> bool" where
  "sane k\<^sub>0 k \<longleftrightarrow> grows k\<^sub>0 k \<and> base k \<le> low k \<and> 0 \<le> low k"

lemma sane_grows: "sane k\<^sub>0 k \<Longrightarrow> grows k k' \<Longrightarrow> sane k\<^sub>0 k'"
  unfolding sane_def using grows_low [of k k'] grows_base [of k k'] by (auto intro: grows_trans)

lemma sane_self: "sane k\<^sub>0 k \<Longrightarrow> sane k k"
  by (simp add: sane_def)

lemma wpc_answer:
  assumes "sane k\<^sub>0 k" "key_of t = Some key"
    and "\<And>k' x. sane k\<^sub>0 k' \<Longrightarrow> answered k' x \<Longrightarrow> Q k' x"
  shows "wpc pl t (source key) Q k"
proof (rule wpc_source [of k, OF grows_refl assms(2)])
  fix k' and x :: "query_exn + wire" assume g: "grows k k'" and "\<forall>v. x = Inr v \<longrightarrow> storable pl v \<and> (\<forall>n\<le>low k. (n, v) \<in> got k')"
  moreover have "base k' \<le> low k" using assms(1) grows_base [OF g] by (simp add: sane_def)
  ultimately have "answered k' x" by (auto simp: answered_def)
  with assms(3) [OF sane_grows [OF assms(1) g]] show "Q k' x" by blast
qed

lemma wpc_store_loaded:
  assumes "sane k\<^sub>0 k" "key_of t = Some key" "cache_key key" "n \<le> low k" "base k \<le> n"
    and "\<forall>v. x = Inr v \<longrightarrow> storable pl v \<and> (n, v) \<in> got k"
    and Q: "\<And>k' x. sane k\<^sub>0 k' \<Longrightarrow> answered k' x \<Longrightarrow> Q k' x"
  shows "wpc pl t (store_loaded pl cl key ttl n x) Q k"
proof (cases x)
  case (Inl e)
  with Q [OF assms(1)] show ?thesis by (simp add: store_loaded_def answered_def)
next
  case (Inr v)
  with assms(6) have v: "storable pl v" "(n, v) \<in> got k" by auto
  have a: "answered k' (Inr v)" if "grows k k'" for k'
    using answeredI [OF v(2) assms(5)] that by (rule answered_grows)
  have "wpc pl t (redis_set pl cl (versioned key n) v ttl) (\<lambda>k' stored. wpc pl t
      (case stored of Inl e \<Rightarrow> Ret (Inl e) | Inr _ \<Rightarrow> Ret (Inr v)) Q k') k"
    using sane_grows [OF assms(1)] a
    by (intro wpc_set [OF grows_refl assms(2-4) v(2,1)]) (auto split: sum.split intro!: Q simp: answered_def [of _ "Inl _"])
  with Inr Q [OF assms(1) a [OF grows_refl]] show ?thesis by (auto simp: store_loaded_def wpc_bind)
qed

lemma wpc_load_and_store:
  assumes "sane k\<^sub>0 k" "key_of t = Some key" "cache_key key" "enabled cl" "n \<le> low k" "base k \<le> n"
    and Q: "\<And>k' x. sane k\<^sub>0 k' \<Longrightarrow> answered k' x \<Longrightarrow> Q k' x"
  shows "wpc pl t (load_and_store pl cl key (source key) ttl (space t) n) Q k"
proof -
  have after: "wpc pl t (get_namespace_generation cl (space t)) (\<lambda>k2 current. wpc pl t
      (case current of None \<Rightarrow> Ret (Inr v)
       | Some now \<Rightarrow> io_bind (if now \<noteq> n then source key else Ret (Inr v)) (store_loaded pl cl key ttl now)) Q k2) k1"
    if 1: "grows k k1" and v: "storable pl v" "(n, v) \<in> got k1" for k1 v
  proof (rule wpc_generation [of k1, OF grows_refl])
    note s1 = sane_grows [OF assms(1) 1]
    then show "0 \<le> low k1" by (simp add: sane_def)
    fix k2 g assume 2: "grows k1 k2" "\<forall>m. g = Some m \<longrightarrow> enabled cl \<longrightarrow> low k2 = m"
    note s2 = sane_grows [OF s1 2(1)]
    have b: "base k2 = base k" using grows_base [OF 1] grows_base [OF 2(1)] by simp
    have v2: "(n, v) \<in> got k2" using grows_got [OF 2(1) v(2)] .
    have again: "wpc pl t (source key) (\<lambda>k3 x. wpc pl t (store_loaded pl cl key ttl (low k2) x) Q k3) k2"
    proof (rule wpc_source [of k2, OF grows_refl assms(2)])
      fix k3 and y :: "query_exn + wire" assume 3: "grows k2 k3" "low k3 = low k2" "\<forall>v. y = Inr v \<longrightarrow> storable pl v \<and> (\<forall>m\<le>low k2. (m, v) \<in> got k3)"
      note s3 = sane_grows [OF s2 3(1)]
      show "wpc pl t (store_loaded pl cl key ttl (low k2) y) Q k3"
        using 3(2,3) s3 by (intro wpc_store_loaded [OF s3 assms(2,3)] Q) (auto simp: sane_def)
    qed
    have same: "wpc pl t (store_loaded pl cl key ttl n (Inr v)) Q k2" if "low k2 = n"
      using that v(1) v2 assms(6) b by (intro wpc_store_loaded [OF s2 assms(2,3)] Q) auto
    have "Q k2 (Inr v)" using answeredI [OF v2] assms(6) b by (intro Q [OF s2]) simp
    then show "wpc pl t (case g of None \<Rightarrow> Ret (Inr v)
       | Some now \<Rightarrow> io_bind (if now \<noteq> n then source key else Ret (Inr v)) (store_loaded pl cl key ttl now)) Q k2"
      using 2(2) assms(4) again same by (cases g) (auto simp: wpc_bind)
  qed
  show ?thesis unfolding load_and_store_def wpc_bind
  proof (rule wpc_source [of k, OF grows_refl assms(2)])
    fix k1 and x :: "query_exn + wire" assume 1: "grows k k1" "\<forall>v. x = Inr v \<longrightarrow> storable pl v \<and> (\<forall>m\<le>low k. (m, v) \<in> got k1)"
    show "wpc pl t (case x of Inl e \<Rightarrow> Ret (Inl e) | Inr result \<Rightarrow>
        io_bind (get_namespace_generation cl (space t)) (\<lambda>current. case current of None \<Rightarrow> Ret (Inr result)
          | Some now \<Rightarrow> io_bind (if now \<noteq> n then source key else Ret (Inr result)) (store_loaded pl cl key ttl now))) Q k1"
      using Q [OF sane_grows [OF assms(1) 1(1)]] after [OF 1(1)] 1(2) assms(5)
      by (cases x) (simp_all add: answered_def wpc_bind)
  qed
qed

lemma wpc_take_lease:
  assumes "grows k\<^sub>0 k" "key_of t = Some key" "cache_key key" "n \<le> low k" "is_lock_key e"
    and Q: "\<And>k' x. grows k\<^sub>0 k' \<Longrightarrow> \<forall>v. x = Inl v \<longrightarrow> (n, v) \<in> got k' \<Longrightarrow> Q k' x"
  shows "wpc pl t (take_lease pl cl (versioned key n) e) Q k"
proof -
  have waited: "wpc pl t (if v \<noteq> WNull then Ret (Inl v) else io_bind (try_acquire_lock cl e 60) (\<lambda>token. Ret (Inr token))) Q k2"
    if "grows k\<^sub>0 k2" "v \<noteq> WNull \<longrightarrow> (n, v) \<in> got k2" for k2 v
  proof -
    have "wpc pl t (try_acquire_lock cl e 60) (\<lambda>k' x. wpc pl t (Ret (Inr x)) Q k') k2"
      by (rule wpc_lock [OF that(1) assms(5)]) (simp add: Q)
    with that Q show ?thesis by (simp add: wpc_bind)
  qed
  show ?thesis unfolding take_lease_def wpc_bind
  proof (rule wpc_lock [of k, OF grows_refl assms(5)])
    fix k1 x assume 1: "grows k k1"
    have g: "grows k\<^sub>0 k2" if "grows k k2" for k2 using grows_trans [OF assms(1) that] .
    have "wpc pl t (wait_for_peer pl cl (versioned key n)) (\<lambda>k' v. wpc pl t
        (if v \<noteq> WNull then Ret (Inl v) else io_bind (try_acquire_lock cl e 60) (\<lambda>token. Ret (Inr token))) Q k') k1"
      using g [OF 1] assms(2,3) assms(4) grows_low [OF 1] waited by (intro wpc_peer [where k\<^sub>0=k\<^sub>0]) auto
    then show "wpc pl t (if x \<noteq> Contended then Ret (Inr x) else io_bind (wait_for_peer pl cl (versioned key n))
        (\<lambda>v. if v \<noteq> WNull then Ret (Inl v) else io_bind (try_acquire_lock cl e 60) (\<lambda>token. Ret (Inr token)))) Q k1"
      using Q [OF g [OF 1]] by (simp add: wpc_bind)
  qed
qed

lemma wpc_in_flight:
  assumes "sane k\<^sub>0 k" "key_of t = Some key" "cache_key key" "enabled cl"
    and Q: "\<And>k' x. sane k\<^sub>0 k' \<Longrightarrow> answered k' x \<Longrightarrow> Q k' x"
  shows "wpc pl t (in_flight pl cl key (source key) ttl (space t)) Q k"
  unfolding in_flight_def wpc_bind
proof (rule wpc_generation [of k, OF grows_refl])
  show "0 \<le> low k" using assms(1) by (simp add: sane_def)
  fix k1 g assume 1: "grows k k1" "\<forall>n. g = Some n \<longrightarrow> enabled cl \<longrightarrow> low k1 = n"
  note s1 = sane_grows [OF assms(1) 1(1)]
  let ?n = "low k1"
  let ?lock = "lock_key pl (versioned key ?n)"
  have final: "wpc pl t (case token of Held s \<Rightarrow> release_lock cl ?lock s | _ \<Rightarrow> Ret ()) (\<lambda>k' _. Q k' x) k3"
    if "sane k\<^sub>0 k3" "answered k3 x" for k3 x token
    using that Q sane_grows answered_grows
    by (auto split: lock_outcome.split intro!: wpc_unlock [of k3, OF grows_refl lock_key_kind])
  have leased: "wpc pl t (case lease of Inl cached \<Rightarrow> Ret (Inr cached) | Inr token \<Rightarrow>
      io_finally (load_and_store pl cl key (source key) ttl (space t) ?n)
        (case token of Held s \<Rightarrow> release_lock cl ?lock s | _ \<Rightarrow> Ret ())) Q k2"
    if "grows k1 k2" "\<forall>v. lease = Inl v \<longrightarrow> (?n, v) \<in> got k2" for k2 and lease :: "wire + lock_outcome"
  proof (cases lease)
    case (Inl v)
    with that have "answered k2 (Inr v)"
      using s1 grows_base [OF that(1)] by (intro answeredI) (auto simp: sane_def)
    with Inl Q [OF sane_grows [OF s1 that(1)]] show ?thesis by simp
  next
    case (Inr token)
    note s2 = sane_grows [OF s1 that(1)]
    have "wpc pl t (load_and_store pl cl key (source key) ttl (space t) ?n)
        (\<lambda>k3 x. wpc pl t (case token of Held s \<Rightarrow> release_lock cl ?lock s | _ \<Rightarrow> Ret ()) (\<lambda>k' _. Q k' x) k3) k2"
      using s1 s2 grows_low [OF that(1)] grows_base [OF that(1)] final
      by (intro wpc_load_and_store [OF s2 assms(2-4)]) (auto simp: sane_def)
    with Inr show ?thesis by (simp add: wpc_finally)
  qed
  have miss: "wpc pl t (if v \<noteq> WNull then Ret (Inr v) else io_bind (take_lease pl cl (versioned key ?n) ?lock)
      (\<lambda>lease. case lease of Inl cached \<Rightarrow> Ret (Inr cached) | Inr token \<Rightarrow>
        io_finally (load_and_store pl cl key (source key) ttl (space t) ?n)
          (case token of Held s \<Rightarrow> release_lock cl ?lock s | _ \<Rightarrow> Ret ()))) Q k2"
    if 2: "grows k1 k2" "v \<noteq> WNull \<longrightarrow> (?n, v) \<in> got k2" for k2 v
  proof (cases "v = WNull")
    case True
    have "wpc pl t (take_lease pl cl (versioned key ?n) ?lock) (\<lambda>k' lease. wpc pl t
        (case lease of Inl cached \<Rightarrow> Ret (Inr cached) | Inr token \<Rightarrow>
          io_finally (load_and_store pl cl key (source key) ttl (space t) ?n)
            (case token of Held s \<Rightarrow> release_lock cl ?lock s | _ \<Rightarrow> Ret ())) Q k') k2"
      using grows_low [OF 2(1)] leased by (intro wpc_take_lease [OF 2(1) assms(2,3) _ lock_key_kind]) auto
    with True show ?thesis by (simp add: wpc_bind)
  next
    case False
    with 2 have "answered k2 (Inr v)"
      using s1 grows_base [OF 2(1)] by (intro answeredI) (auto simp: sane_def)
    with False Q [OF sane_grows [OF s1 2(1)]] show ?thesis by simp
  qed
  have "wpc pl t (redis_get pl cl (versioned key ?n)) (\<lambda>k2 v. wpc pl t (if v \<noteq> WNull then Ret (Inr v)
      else io_bind (take_lease pl cl (versioned key ?n) ?lock)
      (\<lambda>lease. case lease of Inl cached \<Rightarrow> Ret (Inr cached) | Inr token \<Rightarrow>
        io_finally (load_and_store pl cl key (source key) ttl (space t) ?n)
          (case token of Held s \<Rightarrow> release_lock cl ?lock s | _ \<Rightarrow> Ret ()))) Q k2) k1"
    using miss by (intro wpc_get_entry [of k1, OF grows_refl assms(2,3)]) auto
  moreover have "wpc pl t (source key) Q k1" by (rule wpc_answer [OF s1 assms(2) Q])
  ultimately show "wpc pl t (case g of None \<Rightarrow> source key | Some generation \<Rightarrow>
      io_bind (redis_get pl cl (versioned key generation)) (\<lambda>cached. if cached \<noteq> WNull then Ret (Inr cached)
        else io_bind (take_lease pl cl (versioned key generation) (lock_key pl (versioned key generation)))
          (\<lambda>lease. case lease of Inl cached \<Rightarrow> Ret (Inr cached) | Inr token \<Rightarrow>
            io_finally (load_and_store pl cl key (source key) ttl (space t) generation)
              (case token of Held t \<Rightarrow> release_lock cl (lock_key pl (versioned key generation)) t | _ \<Rightarrow> Ret ())))) Q k1"
    using 1(2) assms(4) by (cases g) (auto simp only: wpc_bind option.case)
qed

lemma wpc_get_or_set:
  assumes "sane k\<^sub>0 k" "key_of t = Some key" "cache_key key" "enabled cl" "space t = space_of key"
    and Q: "\<And>k' x. sane k\<^sub>0 k' \<Longrightarrow> answered k' x \<Longrightarrow> Q k' x"
  shows "wpc pl t (get_or_set pl cl key (source key) ttl) Q k"
proof -
  let ?flight = "\<lambda>n. Await (LockFlight (versioned key n)) (\<lambda>_. io_finally
      (in_flight pl cl key (source key) ttl (space t)) (Await (UnlockFlight (versioned key n)) (\<lambda>_. Ret ())))"
  have direct: "wpc pl t (source key) Q k1" if "grows k k1" for k1
    by (rule wpc_answer [OF sane_grows [OF assms(1) that] assms(2) Q])
  have flight: "wpc pl t (?flight n) Q k1" if "grows k k1" for n k1
  proof (rule wpc_await [OF _ _ that])
    fix k2 assume "grows k k2"
    note s2 = sane_grows [OF assms(1) this]
    have "wpc pl t (Await (UnlockFlight (versioned key n)) (\<lambda>_. Ret ())) (\<lambda>k' _. Q k' x) k3"
      if "sane k\<^sub>0 k3" "answered k3 x" for k3 x
      using that Q sane_grows answered_grows by (auto intro!: wpc_await [of _ _ _ _ k3] simp del: wp.simps(2))
    then show "wpc pl t (io_finally (in_flight pl cl key (source key) ttl (space t))
        (Await (UnlockFlight (versioned key n)) (\<lambda>_. Ret ()))) Q k2"
      by (intro wpc_finally wpc_in_flight [OF s2 assms(2-4)])
  qed simp_all
  have looked: "wpc pl t (if v \<noteq> WNull then Ret (Inr v) else ?flight n) Q k3"
    if "grows k k2" "grows k2 k3" "v \<noteq> WNull \<longrightarrow> (low k2, v) \<in> got k3" for k2 k3 v n
  proof (cases "v = WNull")
    case True
    with flight [OF grows_trans [OF that(1,2)]] show ?thesis by simp
  next
    case False
    note s2 = sane_grows [OF assms(1) that(1)]
    have "answered k3 (Inr v)" using False that(3) s2 grows_base [OF that(2)]
      by (intro answeredI) (auto simp: sane_def)
    with False Q [OF sane_grows [OF s2 that(2)]] show ?thesis by simp
  qed
  have read: "wpc pl t (io_bind (get_namespace_generation cl (space t)) (\<lambda>g. case g of
        None \<Rightarrow> source key
      | Some n \<Rightarrow> io_bind (redis_get pl cl (versioned key n)) (\<lambda>v. if v \<noteq> WNull then Ret (Inr v) else ?flight n))) Q k1"
    if "grows k k1" for k1
    unfolding wpc_bind
  proof (rule wpc_generation [of k1, OF grows_refl])
    show "0 \<le> low k1" using sane_grows [OF assms(1) that] by (simp add: sane_def)
    fix k2 g assume 2: "grows k1 k2" "\<forall>n. g = Some n \<longrightarrow> enabled cl \<longrightarrow> low k2 = n"
    note g2 = grows_trans [OF that 2(1)]
    have "wpc pl t (redis_get pl cl (versioned key (low k2)))
        (\<lambda>k3 v. wpc pl t (if v \<noteq> WNull then Ret (Inr v) else ?flight (low k2)) Q k3) k2"
      by (intro wpc_get_entry [of k2, OF grows_refl assms(2,3)] looked [OF g2]) auto
    with direct [OF g2] 2(2) assms(4) show "wpc pl t (case g of None \<Rightarrow> source key
      | Some n \<Rightarrow> io_bind (redis_get pl cl (versioned key n)) (\<lambda>v. if v \<noteq> WNull then Ret (Inr v) else ?flight n)) Q k2"
      by (cases g) (auto simp only: wpc_bind option.case)
  qed
  have go: "wpc pl t (if \<not> safe then source key else io_bind (get_namespace_generation cl (space t)) (\<lambda>g. case g of
        None \<Rightarrow> source key
      | Some n \<Rightarrow> io_bind (redis_get pl cl (versioned key n)) (\<lambda>v. if v \<noteq> WNull then Ret (Inr v) else ?flight n))) Q k1"
    if "grows k k1" for k1 safe
    using direct [OF that] read [OF that] by simp
  have "wpc pl t (if u then recover_namespace_once cl (space t) else Ret True) (\<lambda>k2 safe. wpc pl t
      (if \<not> safe then source key else io_bind (get_namespace_generation cl (space t)) (\<lambda>g. case g of
        None \<Rightarrow> source key
      | Some n \<Rightarrow> io_bind (redis_get pl cl (versioned key n)) (\<lambda>v. if v \<noteq> WNull then Ret (Inr v) else ?flight n))) Q k2) k1"
    if "grows k k1" for k1 u
  proof (cases u)
    case True
    then show ?thesis by (simp only: if_True) (rule wpc_recover_once [OF that go])
  next
    case False
    then show ?thesis by (simp only: if_False wp.simps(1)) (rule go [OF that])
  qed
  then show ?thesis
    unfolding get_or_set_def cache_key_prefix(2) [OF assms(3)] assms(5) [symmetric] sum.case wpc_bind
    by (intro wpc_is_unsafe [of k, OF grows_refl])
qed

end
