(* ===== verification/CacheTasks.thy ===== *)
theory CacheTasks
  imports CacheKnowledge
begin

text \<open>
  The activities of the cache are correct in terms of their knowledge: a query returns an
  \<open>answered\<close> value, a command or projection that reports its fence has incremented the generation
  after its commit.
\<close>

section \<open>Deletions\<close>

lemma glob_literal: "list_all (\<lambda>c. c \<noteq> CHR ''*'') p \<Longrightarrow> glob (p @ q) s \<Longrightarrow> prefix p s"
proof (induction p arbitrary: s)
  case (Cons c p)
  then show ?case by (cases s) auto
qed simp

lemma namespace_pattern:
  assumes "ns \<in> set cache_namespaces" "glob (ns @ p) e"
  shows "\<not> is_generation_key e"
proof -
  have "prefix ns e" using assms by (intro glob_literal [of ns p]) (auto simp: cache_namespaces_def)
  with assms(1) show ?thesis by (auto simp: cache_namespaces_def is_generation_key_def prefix_def)
qed

lemma wpc_unlink:
  assumes "grows k\<^sub>0 k" "\<forall>e\<in>set es. \<not> is_generation_key e" "\<And>k' x. grows k\<^sub>0 k' \<Longrightarrow> Q k' x"
  shows "wpc pl t (unlink_batches n es d) Q k"
  using assms(1,2)
proof (induction n es d arbitrary: k rule: unlink_batches.induct)
  case (3 n e es d)
  have a: "allowed pl t k (Redis (UNLINK (take 500 (e # es))))" using "3.prems"(2) by (auto dest: in_set_takeD)
  have d: "\<forall>x\<in>set (drop 500 (e # es)). \<not> is_generation_key x" using "3.prems"(2) by (meson in_set_dropD)
  show ?case unfolding unlink_batches.simps
    using "3.IH" [OF _ d] assms(3)
    by (intro wpc_await [OF a _ "3.prems"(1)]) (auto split: reply.split)
qed (auto intro: assms(3))

lemma wpc_delete_pattern:
  assumes "grows k\<^sub>0 k" "ns \<in> set cache_namespaces" "\<And>k' x. grows k\<^sub>0 k' \<Longrightarrow> Q k' x"
  shows "wpc pl t (redis_delete_pattern cl (ns @ p)) Q k"
proof -
  have g: "grows k\<^sub>0 (learn pl t k (Redis (SCAN q)) r)" for q r
    using assms(1) by (rule grows_trans) simp
  have names: "\<forall>e\<in>set es. \<not> is_generation_key e" if "\<forall>e\<in>set es. glob (ns @ p) e" for es
    using that namespace_pattern [OF assms(2)] by blast
  show ?thesis unfolding redis_delete_pattern_def
    using assms(1,3) g
    by (auto split: reply.split intro!: wpc_awaitI wpc_unlink [where k\<^sub>0=k\<^sub>0, OF _ names] simp del: wp.simps(2))
qed

lemma wpc_delete:
  assumes "grows k\<^sub>0 k" "\<not> is_generation_key e" "\<And>k' x. grows k\<^sub>0 k' \<Longrightarrow> Q k' x"
  shows "wpc pl t (redis_delete cl e) Q k"
  using assms unfolding redis_delete_def
  by (auto simp del: wp.simps(2) intro!: wpc_await [where k\<^sub>0=k\<^sub>0])

lemma item_key: "ns \<in> set cache_namespaces \<Longrightarrow> \<not> is_generation_key (hashed_key pl ns kind v)"
  by (auto simp: cache_namespaces_def hashed_key_def is_generation_key_def prefix_def)

lemma namespace_valid: "ns \<in> set cache_namespaces \<Longrightarrow> cache_namespace ns = Inr ns"
  by (auto simp: cache_namespaces_def cache_namespace_def is_lower_def is_digit_def code_def)

section \<open>Invalidation\<close>

lemma wpc_advance:
  assumes "enabled cl" "\<And>k' b. grows k k' \<Longrightarrow> (b \<longrightarrow> acked k') \<Longrightarrow> Q k' b"
  shows "wpc pl t (advance_generation cl (space t)) Q k"
  unfolding advance_generation_def wpc_bind
proof (rule wpc_bump [of k, OF grows_refl])
  fix k1 g assume 1: "grows k k1" "g \<noteq> None \<longrightarrow> acked k1"
  have g: "grows k k'" if "grows k1 k'" for k' using grows_trans [OF 1(1) that] .
  have a: "acked k'" if "acked k1" "grows k1 k'" for k' using that by (simp add: grows_def)
  show "wpc pl t (if g \<noteq> None \<or> \<not> enabled cl then Await (ClearUnsafe (space t)) (\<lambda>_. Ret True)
      else Await (MarkUnsafe (space t)) (\<lambda>_. Await (StartRecovery (space t)) (\<lambda>_. Ret False))) Q k1"
    using 1 assms g a by (auto simp del: wp.simps(2) intro!: wpc_await [of _ _ _ _ k1])
qed

definition fenced_outcome :: "knowledge \<Rightarrow> query_exn + bool \<Rightarrow> bool" where
  "fenced_outcome k x \<longleftrightarrow> (x = Inr True \<longrightarrow> acked k)"

lemma wpc_invalidate_all:
  assumes "enabled cl" "space t \<in> set cache_namespaces"
    and "\<And>k' x. grows k k' \<Longrightarrow> fenced_outcome k' x \<Longrightarrow> Q k' x"
  shows "wpc pl t (invalidate_all cl (space t)) Q k"
  unfolding invalidate_all_def namespace_valid [OF assms(2)] sum.case wpc_bind
proof (rule wpc_advance [OF assms(1)])
  fix k1 b assume 1: "grows k k1" "b \<longrightarrow> acked k1"
  have "Q k' (Inr b)" if "grows k1 k'" for k'
    using that 1(2) by (intro assms(3) grows_trans [OF 1(1)]) (auto simp: fenced_outcome_def grows_def)
  then show "wpc pl t (redis_delete_pattern cl (space t @ '':*:v1:*'')) (\<lambda>k' _. wpc pl t (Ret (Inr b)) Q k') k1"
    by (intro wpc_delete_pattern [OF grows_refl assms(2)]) simp
qed

lemma wpc_invalidate_entity:
  assumes "enabled cl" "space t \<in> set cache_namespaces"
    and "\<And>k' x. grows k k' \<Longrightarrow> fenced_outcome k' x \<Longrightarrow> Q k' x"
  shows "wpc pl t (invalidate_entity pl cl (space t) i) Q k"
  unfolding invalidate_entity_def namespace_valid [OF assms(2)] sum.case wpc_bind
proof (rule wpc_advance [OF assms(1)])
  fix k1 b assume 1: "grows k k1" "b \<longrightarrow> acked k1"
  have "Q k' (Inr b)" if "grows k1 k'" for k'
    using that 1(2) by (intro assms(3) grows_trans [OF 1(1)]) (auto simp: fenced_outcome_def grows_def)
  then show "wpc pl t (redis_delete cl (hashed_key pl (space t) ''item'' (WArr [WStr i]))) (\<lambda>k' _.
      wpc pl t (redis_delete_pattern cl (space t @ '':list:v1:*'')) (\<lambda>k' _.
      wpc pl t (redis_delete_pattern cl (space t @ '':count:v1:*'')) (\<lambda>k' _. wpc pl t (Ret (Inr b)) Q k') k') k') k1"
    by (intro wpc_delete [OF grows_refl item_key [OF assms(2)]] wpc_delete_pattern [OF _ assms(2), of k1]) simp_all
qed

section \<open>The activities\<close>

lemma learn_commit: "learn pl t k Operation (Committed x i) = k\<lparr>done_at := Some i, acked := False\<rparr>"
  by (simp add: learn_def)

lemma query_correct:
  assumes "enabled cl" "cache_key key" "base k \<le> low k" "0 \<le> low k"
  shows "wpc pl (Query p key since) (query_task pl cl key ttl) (post (Query p key since)) k"
  unfolding query_task_def wpc_bind
  using assms by (intro wpc_get_or_set [of k k]) (auto simp: sane_def answered_def)

lemma command_correct:
  assumes "enabled cl" "ns \<in> set cache_namespaces"
  shows "wpc pl (Command p ns) (command_task cl ns) (post (Command p ns)) k"
proof -
  have "wpc pl (Command p ns) (invalidate_all cl (space (Command p ns))) (\<lambda>k' f. wpc pl (Command p ns)
      (case f of Inl _ \<Rightarrow> Ret (Inr v, None, i) | Inr fenced \<Rightarrow> Ret (Inr v, Some fenced, i))
      (\<lambda>k' x. wpc pl (Command p ns) (case x of (x, fenced, i) \<Rightarrow> Ret (Executed x fenced i)) (post (Command p ns)) k') k')
      (k\<lparr>done_at := Some i, acked := False\<rparr>)" for v i
    using assms by (intro wpc_invalidate_all) (auto simp: fenced_outcome_def grows_def split: sum.split)
  then show ?thesis
    by (auto simp: command_task_def handle_invalidating_def wpc_bind learn_commit split: reply.split sum.split)
qed

lemma projection_correct:
  assumes "enabled cl" "ns \<in> set cache_namespaces"
  shows "wpc pl (Projection p ns) (projection_task pl cl ns entity) (post (Projection p ns)) k"
proof -
  have "wpc pl (Projection p ns) (invalidate_entity pl cl (space (Projection p ns)) entity) (\<lambda>k' f. wpc pl (Projection p ns)
      (case f of Inl _ \<Rightarrow> Ret (Executed (Inr v) None i) | Inr fenced \<Rightarrow> Ret (Executed (Inr v) (Some fenced) i))
      (post (Projection p ns)) k') (k\<lparr>done_at := Some i, acked := False\<rparr>)" for v i
    using assms by (intro wpc_invalidate_entity) (auto simp: fenced_outcome_def grows_def split: sum.split)
  then show ?thesis
    by (auto simp: projection_task_def wpc_bind learn_commit split: reply.split sum.split)
qed

lemma recovery_correct: "wpc pl (Recovery p ns) (recovery_task cl ns rounds) (post (Recovery p ns)) k"
proof -
  have "wpc pl (Recovery p ns) (recover_namespace cl ns rounds delay) (\<lambda>k' _. post (Recovery p ns) k' Done) k" for delay
  proof (induction rounds arbitrary: delay k)
    case (Suc rounds delay k)
    have once: "wpc pl (Recovery p ns) (recover_namespace_once cl ns) (\<lambda>k' r. wpc pl (Recovery p ns)
        (if r then Await (EndRecovery ns) (\<lambda>_. Ret ()) else recover_namespace cl ns rounds (min (delay * 2) 5))
        (\<lambda>k' _. post (Recovery p ns) k' Done) k') k'" for k'
      using Suc.IH by (intro wpc_recover_once [of k' k' _ pl "Recovery p ns", unfolded space.simps]) auto
    show ?case unfolding recover_namespace.simps wpc_bind
      using once by (intro wpc_is_unsafe [of k, OF grows_refl]) (auto simp: wpc_bind)
  qed simp
  then show ?thesis by (simp add: recovery_task_def wpc_bind)
qed

end
