(* ===== verification/CacheProps.thy ===== *)
theory CacheProps
  imports CacheTasks
begin

text \<open>
  The cache serves what was committed: the invariant of the cache world, the interpretation of
  \<open>async_system\<close> by the activities of the program, and the property that a query started after a
  fenced command sees its commit.
\<close>

section \<open>Invariant\<close>

abbreviation gen :: "'r redis_server \<Rightarrow> ('r, 'd) cache_world \<Rightarrow> string \<Rightarrow> int" where
  "gen srv w \<equiv> generation_at srv (server w)"

text \<open>An answer to the query in some state no older than the fence of generation \<open>n\<close>.\<close>

definition known :: "('d \<Rightarrow> string \<Rightarrow> query_exn + wire) \<Rightarrow> ('r, 'd) cache_world \<Rightarrow> string \<Rightarrow> int \<Rightarrow> wire \<Rightarrow> bool" where
  "known load w key n v \<longleftrightarrow>
     (\<exists>m. fence w (space_of key) n \<le> m \<and> m < length (history w) \<and> load (history w ! m) key = Inr v)"

definition entry_ok ::
  "'r redis_server \<Rightarrow> platform \<Rightarrow> ('d \<Rightarrow> string \<Rightarrow> query_exn + wire) \<Rightarrow> ('r, 'd) cache_world \<Rightarrow> string \<Rightarrow> int \<Rightarrow> string \<Rightarrow> bool" where
  "entry_ok srv pl load w key n s \<longleftrightarrow> n \<le> gen srv w (space_of key)
     \<and> (\<exists>v. storable pl v \<and> s = serialized pl v \<and> known load w key n v)"

fun permitted ::
  "'r redis_server \<Rightarrow> platform \<Rightarrow> ('d \<Rightarrow> string \<Rightarrow> query_exn + wire) \<Rightarrow> ('r, 'd) cache_world \<Rightarrow> redis_command \<Rightarrow> bool" where
  "permitted srv pl load w (SETEX e seconds s) = (\<exists>key n. cache_key key \<and> e = versioned key n \<and> entry_ok srv pl load w key n s)"
| "permitted srv pl load w (SET_NX e v ms) = is_lock_key e"
| "permitted srv pl load w (INCR e) = (\<exists>ns. e = generation_key ns)"
| "permitted srv pl load w (DEL e) = (\<not> is_generation_key e)"
| "permitted srv pl load w (UNLINK es) = (\<forall>e\<in>set es. \<not> is_generation_key e)"
| "permitted srv pl load w (RELEASE e v) = is_lock_key e"
| "permitted srv pl load w _ = True"

definition counters_ok :: "(string \<Rightarrow> string option) \<Rightarrow> bool" where
  "counters_ok m \<longleftrightarrow> (\<forall>ns. m (generation_key ns) = None \<or> (\<exists>n. m (generation_key ns) = Some (show_nat n)))"

definition cache_inv ::
  "'r redis_server \<Rightarrow> platform \<Rightarrow> ('d \<Rightarrow> string \<Rightarrow> query_exn + wire) \<Rightarrow> ('r, 'd) cache_world \<Rightarrow> bool" where
  "cache_inv srv pl load w \<longleftrightarrow> history w \<noteq> [] \<and> counters_ok (srv_get srv (server w))
     \<and> (\<forall>ns a b. a \<le> b \<longrightarrow> b \<le> gen srv w ns \<longrightarrow> fence w ns a \<le> fence w ns b)
     \<and> (\<forall>ns. fence w ns (gen srv w ns) < length (history w))
     \<and> (\<forall>key n s. cache_key key \<longrightarrow> srv_get srv (server w) (versioned key n) = Some s \<longrightarrow> entry_ok srv pl load w key n s)
     \<and> (\<forall>c\<in>set (late w). permitted srv pl load w c)"

text \<open>Worlds only move forward.\<close>

definition forward :: "'r redis_server \<Rightarrow> ('r, 'd) cache_world \<Rightarrow> ('r, 'd) cache_world \<Rightarrow> bool" where
  "forward srv w w' \<longleftrightarrow> prefix (history w) (history w')
     \<and> (\<forall>ns. gen srv w ns \<le> gen srv w' ns) \<and> (\<forall>ns n. n \<le> gen srv w ns \<longrightarrow> fence w' ns n = fence w ns n)"

lemma forward_known:
  assumes "forward srv w w'" "n \<le> gen srv w (space_of key)" "known load w key n v"
  shows "known load w' key n v"
proof -
  from assms(1) obtain ds where "history w' = history w @ ds" by (auto simp: forward_def prefix_def)
  moreover have "fence w' (space_of key) n = fence w (space_of key) n" using assms(1,2) by (simp add: forward_def)
  moreover obtain m where "fence w (space_of key) n \<le> m" "m < length (history w)" "load (history w ! m) key = Inr v"
    using assms(3) by (auto simp: known_def)
  ultimately show ?thesis by (auto simp: known_def nth_append intro: exI [of _ m])
qed

lemma forward_gen: "forward srv w w' \<Longrightarrow> n \<le> gen srv w ns \<Longrightarrow> n \<le> gen srv w' ns"
  by (meson forward_def order_trans)

lemma forward_entry: "forward srv w w' \<Longrightarrow> entry_ok srv pl load w key n s \<Longrightarrow> entry_ok srv pl load w' key n s"
  unfolding entry_ok_def using forward_known forward_gen by blast

lemma forward_permitted: "forward srv w w' \<Longrightarrow> permitted srv pl load w c \<Longrightarrow> permitted srv pl load w' c"
  by (cases c) (auto intro: forward_entry)

section \<open>Commands\<close>

lemma generation_key_inject: "generation_key a = generation_key b \<longleftrightarrow> a = b"
  by (simp add: generation_key_def)

lemma lock_not_generation: "is_lock_key e \<Longrightarrow> \<not> is_generation_key e"
  by (auto simp: is_lock_key_def is_generation_key_def prefix_def)

lemma counter_value:
  assumes "counters_ok m"
  shows "\<exists>n. counter m (generation_key ns) = Some (int n)"
proof (cases "m (generation_key ns)")
  case None
  then show ?thesis by (auto simp: counter_def intro: exI [of _ 0])
next
  case (Some s)
  with assms obtain n where "s = show_nat n" unfolding counters_ok_def by (metis option.distinct(1) option.inject)
  with Some show ?thesis by (simp add: counter_def py_int10_show_nat)
qed

lemma show_int_nat: "show_int (int n) = show_nat n"
  by (simp add: show_int_def)

text \<open>A permitted command increments at most counters, and stores at most good entries.\<close>

lemma effect_counter:
  assumes "counters_ok m" "permitted srv pl load w c"
  shows "redis_effect c m (generation_key ns) = m (generation_key ns)
    \<or> (\<exists>n. counter m (generation_key ns) = Some (int n) \<and> redis_effect c m (generation_key ns) = Some (show_nat (Suc n)))"
proof (cases c)
  case (INCR e)
  obtain n where "counter m (generation_key ns) = Some (int n)" using counter_value [OF assms(1)] by blast
  then show ?thesis using INCR show_int_nat [of "Suc n"] by (auto split: option.split simp: ac_simps)
next
  case (SETEX e seconds s)
  with assms(2) obtain key n where "cache_key key" "e = versioned key n" by auto
  with cache_key_prefix(5) [of key n ns] SETEX show ?thesis by auto
qed (use assms(2) generation_key_kind [of ns] lock_not_generation in auto)

lemma effect_entry:
  assumes "permitted srv pl load w c" "cache_key key" "redis_effect c m (versioned key n) = Some s"
  shows "m (versioned key n) = Some s \<or> entry_ok srv pl load w key n s"
proof (cases c)
  case (INCR e)
  with assms cache_key_prefix(5) [OF assms(2)] show ?thesis by (auto split: option.splits if_splits)
next
  case (SET_NX e v ms)
  with assms cache_key_prefix(4) [OF assms(2)] show ?thesis by (auto split: if_splits)
qed (use assms in \<open>auto simp: versioned_inject split: if_splits\<close>)

lemma expired_Some: "expired m m' \<Longrightarrow> m' k = Some s \<Longrightarrow> m k = Some s"
  by (metis expired_def option.distinct(1))

lemma served_ok:
  assumes doc: "redis_documented srv" and inv: "cache_inv srv pl load w"
    and c: "permitted srv pl load w c" "srv_exec srv (server w) c s' r"
  shows "forward srv w (served srv s' w)" "cache_inv srv pl load (served srv s' w)"
    "r = Failed \<or> redis_reply c (srv_get srv (server w)) r"
    "\<And>e. c = INCR e \<Longrightarrow> r \<noteq> Failed \<Longrightarrow> e = generation_key ns \<Longrightarrow> gen srv w ns < generation_at srv s' ns"
proof -
  let ?m = "srv_get srv (server w)" and ?m' = "srv_get srv s'"
  from doc c(2) consider (failed) "r = Failed" "expired ?m ?m'"
    | (run) "r = Failed \<or> redis_reply c ?m r" "expired (redis_effect c ?m) ?m'"
    by (auto simp: redis_documented_def)
  note cases = this
  then show "r = Failed \<or> redis_reply c ?m r" by cases auto
  have ok: "counters_ok ?m" using inv by (simp add: cache_inv_def)
  have kept: "m' (generation_key ns) = m (generation_key ns)" if "expired m m'" for m m' ns
    using that generation_key_kind by (auto simp: expired_def)
  have step: "?m' (generation_key ns) = ?m (generation_key ns) \<or> (\<exists>n. counter ?m (generation_key ns) = Some (int n)
      \<and> ?m' (generation_key ns) = Some (show_nat (Suc n)))" for ns
    using cases effect_counter [OF ok c(1)] by cases (auto simp: kept)
  then have ok': "counters_ok ?m'" using ok unfolding counters_ok_def by metis
  have up: "generation_at srv s' ns = gen srv w ns \<or> generation_at srv s' ns = gen srv w ns + 1" for ns
    using step [of ns] by (auto simp: generation_at_def counter_def py_int10_show_nat)
  show fw: "forward srv w (served srv s' w)"
  proof -
    have "gen srv w ns \<le> generation_at srv s' ns" for ns using up [of ns] by linarith
    then show ?thesis by (auto simp: forward_def served_def)
  qed
  have fresh: "fence (served srv s' w) ns n = (if generation_at srv s' ns = n \<and> gen srv w ns < n
      then length (history w) - 1 else fence w ns n)" for ns n by (simp add: served_def)
  have mono: "fence (served srv s' w) ns a \<le> fence (served srv s' w) ns b"
    if ab: "a \<le> b" "b \<le> generation_at srv s' ns" for ns a b
  proof (cases "b \<le> gen srv w ns")
    case True
    then have "fence w ns a \<le> fence w ns b" using ab(1) inv unfolding cache_inv_def by blast
    with True ab(1) show ?thesis by (simp add: fresh)
  next
    case False
    with up [of ns] ab(2) have b: "b = generation_at srv s' ns" "generation_at srv s' ns = gen srv w ns + 1" by linarith+
    show ?thesis
    proof (cases "a = b")
      case False
      with b ab(1) have a: "a \<le> gen srv w ns" by linarith
      with inv have "fence w ns a \<le> fence w ns (gen srv w ns)" "fence w ns (gen srv w ns) < length (history w)"
        unfolding cache_inv_def by blast+
      with a b show ?thesis by (simp add: fresh)
    qed simp
  qed
  have top: "fence (served srv s' w) ns (generation_at srv s' ns) < length (history w)" for ns
  proof (cases "generation_at srv s' ns = gen srv w ns")
    case True
    with inv show ?thesis by (simp add: fresh cache_inv_def)
  next
    case False
    with up [of ns] inv show ?thesis by (auto simp: fresh cache_inv_def)
  qed
  have stored: "entry_ok srv pl load (served srv s' w) key n s" if "cache_key key" "?m' (versioned key n) = Some s" for key n s
  proof -
    have "?m (versioned key n) = Some s \<or> entry_ok srv pl load w key n s"
      using cases
    proof cases
      case failed
      with that expired_Some show ?thesis by blast
    next
      case run
      with that expired_Some have "redis_effect c ?m (versioned key n) = Some s" by blast
      from effect_entry [OF c(1) that(1) this] show ?thesis .
    qed
    with inv that(1) have "entry_ok srv pl load w key n s" by (auto simp: cache_inv_def)
    with fw show ?thesis by (rule forward_entry)
  qed
  have "\<forall>c\<in>set (late w). permitted srv pl load (served srv s' w) c"
    using inv forward_permitted [OF fw] by (auto simp: cache_inv_def)
  with mono top stored ok' inv show "cache_inv srv pl load (served srv s' w)"
    by (simp add: cache_inv_def served_def)
  show "gen srv w ns < generation_at srv s' ns" if "c = INCR e" "r \<noteq> Failed" "e = generation_key ns" for e
  proof -
    obtain n where n: "counter ?m (generation_key ns) = Some (int n)" using counter_value [OF ok] by blast
    have "expired (redis_effect c ?m) ?m'" using cases that(2) by cases auto
    from kept [OF this, of ns] have "?m' (generation_key ns) = Some (show_nat (Suc n))"
      using n that show_int_nat [of "Suc n"] by (simp add: ac_simps)
    with n show ?thesis by (simp add: generation_at_def counter_def py_int10_show_nat)
  qed
qed

section \<open>What tasks know is true\<close>

definition holds ::
  "'r redis_server \<Rightarrow> platform \<Rightarrow> ('d \<Rightarrow> string \<Rightarrow> query_exn + wire) \<Rightarrow> ('r, 'd) cache_world \<Rightarrow> activity \<Rightarrow> knowledge \<Rightarrow> bool" where
  "holds srv pl load w t k \<longleftrightarrow> 0 \<le> base k \<and> base k \<le> low k \<and> low k \<le> gen srv w (space t)
     \<and> (\<forall>p key since. t = Query p key since \<longrightarrow> cache_key key \<and> since \<le> fence w (space_of key) (base k)
          \<and> (\<forall>n v. (n, v) \<in> got k \<longrightarrow> n \<le> low k \<and> known load w key n v))
     \<and> (\<forall>i. done_at k = Some i \<longrightarrow> i < length (history w)
          \<and> (acked k \<longrightarrow> i \<le> fence w (space t) (gen srv w (space t))))"

lemma holds_query:
  "holds srv pl load w (Query p key since) k \<longleftrightarrow> 0 \<le> base k \<and> base k \<le> low k \<and> low k \<le> gen srv w (space_of key)
     \<and> cache_key key \<and> since \<le> fence w (space_of key) (base k)
     \<and> (\<forall>n v. (n, v) \<in> got k \<longrightarrow> n \<le> low k \<and> known load w key n v)
     \<and> (\<forall>i. done_at k = Some i \<longrightarrow> i < length (history w)
          \<and> (acked k \<longrightarrow> i \<le> fence w (space_of key) (gen srv w (space_of key))))"
  by (auto simp: holds_def)

lemma forward_fence:
  assumes "forward srv w w'" "cache_inv srv pl load w'"
  shows "fence w ns (gen srv w ns) \<le> fence w' ns (gen srv w' ns)"
proof -
  have "fence w' ns (gen srv w ns) \<le> fence w' ns (gen srv w' ns)"
    using assms unfolding cache_inv_def forward_def by blast
  with assms(1) show ?thesis by (simp add: forward_def)
qed

lemma forward_length: "forward srv w w' \<Longrightarrow> length (history w) \<le> length (history w')"
  by (auto simp: forward_def dest: prefix_length_le)

lemma forward_holds:
  assumes f: "forward srv w w'" and i: "cache_inv srv pl load w'" and h: "holds srv pl load w t k"
  shows "holds srv pl load w' t k"
  unfolding holds_def
proof (intro conjI allI impI)
  show "0 \<le> base k" "base k \<le> low k" using h by (simp_all add: holds_def)
  show "low k \<le> gen srv w' (space t)" using h forward_gen [OF f] by (auto simp: holds_def)
next
  fix p key since assume t: "t = Query p key since"
  with h have b: "base k \<le> gen srv w (space_of key)" "low k \<le> gen srv w (space_of key)"
    by (auto simp: holds_query)
  with t h f show "cache_key key" "since \<le> fence w' (space_of key) (base k)"
    by (simp_all add: holds_query forward_def)
  fix n v assume "(n, v) \<in> got k"
  with t h b show "n \<le> low k" "known load w' key n v"
    by (force simp: holds_query intro!: forward_known [OF f])+
next
  fix j assume "done_at k = Some j"
  with h forward_length [OF f] forward_fence [OF f i, of "space t"]
  show "j < length (history w')" "acked k \<Longrightarrow> j \<le> fence w' (space t) (gen srv w' (space t))"
    by (auto simp: holds_def)
qed

section \<open>Steps\<close>

lemma allowed_permitted:
  assumes "holds srv pl load w t k" "allowed pl t k (Redis c)"
  shows "permitted srv pl load w c"
proof (cases c)
  case (SETEX e seconds s)
  with assms obtain p key since n v where "t = Query p key since" "cache_key key" "e = versioned key n" "n \<le> low k"
    "(n, v) \<in> got k" "storable pl v" "s = serialized pl v" by (cases t) auto
  moreover from this assms(1) have "n \<le> gen srv w (space_of key)" "known load w key n v"
    by (auto simp: holds_query intro: order_trans)
  ultimately show ?thesis using SETEX by (auto simp: entry_ok_def)
qed (use assms in auto)

lemma moved_forward:
  assumes "server w' = server w" "fence w' = fence w" "prefix (history w) (history w')"
  shows "forward srv w w'"
  using assms by (simp add: forward_def)

lemma moved_inv:
  assumes "cache_inv srv pl load w" "server w' = server w" "fence w' = fence w"
    "\<forall>c\<in>set (late w'). permitted srv pl load w c" "prefix (history w) (history w')"
  shows "cache_inv srv pl load w'"
proof -
  have f: "forward srv w w'" using assms by (intro moved_forward) simp_all
  have "prefix (history w) (history w')" by (rule assms(5))
  then have "length (history w) \<le> length (history w')" "history w \<noteq> [] \<Longrightarrow> history w' \<noteq> []"
    by (auto dest: prefix_length_le)
  with assms forward_entry [OF f] forward_permitted [OF f] show ?thesis
    unfolding cache_inv_def by (auto intro: order_less_le_trans)
qed

lemma late_permitted: "cache_inv srv pl load w \<Longrightarrow> c \<in> set (late w) \<Longrightarrow> permitted srv pl load w c"
  by (simp add: cache_inv_def)

lemma cache_exec_ok:
  assumes doc: "redis_documented srv" and i: "cache_inv srv pl load w" and h: "holds srv pl load w t k"
    and a: "allowed pl t k q" and e: "cache_exec srv load w t q w' r"
  shows "forward srv w w' \<and> cache_inv srv pl load w'"
  using e
proof cases
  case (redis c s')
  note p = allowed_permitted [OF h a [unfolded redis]]
  note s = served_ok [OF doc i p redis(3)]
  have f: "forward srv w w'" using s(1) redis by (simp add: forward_def)
  have "\<forall>c\<in>set (late w'). permitted srv pl load (served srv s' w) c"
    using redis i forward_permitted [OF s(1)] p by (auto simp: cache_inv_def split: if_splits)
  with redis have "cache_inv srv pl load w'" by (intro moved_inv [OF s(2)]) simp_all
  with f show ?thesis by simp
qed (use i late_permitted [OF i] in \<open>auto intro!: moved_inv [OF i] moved_forward simp: set_adapter_def\<close>)

lemma env_ok:
  assumes doc: "redis_documented srv" and i: "cache_inv srv pl load w" and e: "cache_env srv w w'"
  shows "forward srv w w' \<and> cache_inv srv pl load w'"
  using e
proof cases
  case (expiry s')
  from doc expiry(2) have x: "expired (srv_get srv (server w)) (srv_get srv s')" by (simp add: redis_documented_def)
  have m: "srv_get srv s' (generation_key ns) = srv_get srv (server w) (generation_key ns)" for ns
    using x generation_key_kind by (auto simp: expired_def)
  then have g: "gen srv w' ns = gen srv w ns" for ns using expiry by (simp add: generation_at_def counter_def)
  have f: "forward srv w w'" using expiry g by (simp add: forward_def)
  have "entry_ok srv pl load w' key n s" if "cache_key key" "srv_get srv (server w') (versioned key n) = Some s" for key n s
    using that expiry expired_Some [OF x] i by (intro forward_entry [OF f]) (auto simp: cache_inv_def)
  moreover have "\<forall>c\<in>set (late w'). permitted srv pl load w' c"
    using i expiry forward_permitted [OF f] by (auto simp: cache_inv_def)
  moreover have "counters_ok (srv_get srv (server w'))"
    using i expiry m by (simp add: cache_inv_def counters_ok_def)
  ultimately have "cache_inv srv pl load w'" using i expiry g unfolding cache_inv_def by simp
  with f show ?thesis by simp
next
  case (delayed c s' r)
  then have "permitted srv pl load w c" using i by (simp add: cache_inv_def)
  from served_ok [OF doc i this delayed(3)] delayed show ?thesis by simp
qed (use i late_permitted [OF i] in \<open>auto intro!: moved_inv [OF i] moved_forward\<close>)

section \<open>Replies\<close>

lemma generation_read:
  assumes "cache_inv srv pl load w"
  shows "srv_get srv (server w) (generation_key ns) = None \<and> gen srv w ns = 0
    \<or> (\<exists>n. srv_get srv (server w) (generation_key ns) = Some (show_nat n) \<and> gen srv w ns = int n)"
proof -
  have "counters_ok (srv_get srv (server w))" using assms by (simp add: cache_inv_def)
  then have "srv_get srv (server w) (generation_key ns) = None
    \<or> (\<exists>n. srv_get srv (server w) (generation_key ns) = Some (show_nat n))" by (simp only: counters_ok_def)
  then show ?thesis
    by (elim disjE exE) (simp_all add: generation_at_def counter_def py_int10_show_nat)
qed

lemma entry_stored:
  "cache_inv srv pl load w \<Longrightarrow> cache_key key \<Longrightarrow> srv_get srv (server w) (versioned key n) = Some s
   \<Longrightarrow> entry_ok srv pl load w key n s"
  by (simp add: cache_inv_def)

lemma reply_possible:
  assumes st: "\<forall>d key v. load d key = Inr v \<longrightarrow> storable pl v"
    and doc: "redis_documented srv" and i: "cache_inv srv pl load w" and h: "holds srv pl load w t k"
    and a: "allowed pl t k q" and e: "cache_exec srv load w t q w' r"
  shows "possible pl t k q r"
  using e
proof cases
  case (redis c s')
  note s = served_ok(3) [OF doc i allowed_permitted [OF h a [unfolded redis]] redis(3)]
  show ?thesis
  proof (cases c)
    case (GET g)
    have "\<exists>v. storable pl v \<and> x = serialized pl v"
      if "key_of t = Some key" "srv_get srv (server w) (versioned key n) = Some x" for key n x
    proof -
      from that(1) obtain p since where "t = Query p key since" by (cases t) auto
      with h have "cache_key key" by (simp add: holds_query)
      from entry_stored [OF i this that(2)] show ?thesis unfolding entry_ok_def by blast
    qed
    with s GET redis generation_read [OF i, of "space t"] h show ?thesis by (auto simp: holds_def)
  qed (use s redis in auto)
qed (use st a in auto)

lemma read_learns:
  assumes "redis_documented srv" "cache_inv srv pl load w" "holds srv pl load w t k" "allowed pl t k q"
    "cache_exec srv load w t q w' r"
  shows "low (learn pl t k q r) \<le> gen srv w' (space t)"
proof (cases "\<exists>s. q = Redis (GET (generation_key (space t))) \<and> r = Bulk (Some s)")
  case False
  then have "low (learn pl t k q r) = low k" by (auto simp: learn_def split: reply.split option.split)
  moreover have "low k \<le> gen srv w' (space t)"
    using cache_exec_ok [OF assms] assms(3) forward_gen by (fastforce simp: holds_def)
  ultimately show ?thesis by simp
next
  case True
  then obtain s where q: "q = Redis (GET (generation_key (space t)))" "r = Bulk (Some s)" by blast
  with assms(5) obtain s' where "srv_exec srv (server w) (GET (generation_key (space t))) s' r" by (auto elim: cache_exec.cases)
  from served_ok(3) [OF assms(1,2) _ this] q have "srv_get srv (server w) (generation_key (space t)) = Some s" by simp
  with generation_read [OF assms(2), of "space t"] obtain n where "s = show_nat n" "gen srv w (space t) = int n" by auto
  with q have "low (learn pl t k q r) = max (low k) (gen srv w (space t))" by (simp add: learn_def py_int10_show_nat)
  also have "\<dots> = gen srv w (space t)" using assms(3) by (simp add: holds_def)
  also have "\<dots> \<le> gen srv w' (space t)" using cache_exec_ok [OF assms] by (simp add: forward_def)
  finally show ?thesis .
qed

lemma value_learns:
  assumes "redis_documented srv" "cache_inv srv pl load w" "holds srv pl load w (Query p key since) k"
    "allowed pl (Query p key since) k q" "cache_exec srv load w (Query p key since) q w' r"
    and new: "(n, v) \<in> got (learn pl (Query p key since) k q r)" "(n, v) \<notin> got k"
  shows "n \<le> low k \<and> known load w key n v"
proof -
  have n: "n \<le> low k" "n \<le> gen srv w (space_of key)" using new assms(3) by (auto simp: learn_def holds_query)
  from new consider (src) "q = Source key" "r = Loaded (Inr v)"
    | (cached) s where "q = Redis (GET (versioned key n))" "r = Bulk (Some s)" "deserialized pl s = Some v"
    using assms(4) by (auto simp: learn_def)
  then have "known load w key n v"
  proof cases
    case src
    with assms(5) have v: "load (last (history w)) key = Inr v" by (auto elim: cache_exec.cases)
    have "fence w (space_of key) n \<le> fence w (space_of key) (gen srv w (space_of key))"
      using n(2) assms(2) unfolding cache_inv_def by blast
    moreover have "fence w (space_of key) (gen srv w (space_of key)) < length (history w)" "history w \<noteq> []"
      using assms(2) by (simp_all add: cache_inv_def)
    ultimately show ?thesis using v
      by (auto simp: known_def last_conv_nth intro!: exI [of _ "length (history w) - 1"])
  next
    case cached
    with assms(5) obtain s' where "srv_exec srv (server w) (GET (versioned key n)) s' r" by (auto elim: cache_exec.cases)
    from served_ok(3) [OF assms(1,2) _ this] cached have "srv_get srv (server w) (versioned key n) = Some s" by simp
    with assms(2,3) have "entry_ok srv pl load w key n s" by (simp add: cache_inv_def holds_query)
    with cached(3) show ?thesis by (auto simp: entry_ok_def deserialized_serialized)
  qed
  with n(1) show ?thesis by simp
qed

lemma commit_learns:
  assumes "redis_documented srv" "cache_inv srv pl load w" "holds srv pl load w t k" "allowed pl t k q"
    "cache_exec srv load w t q w' r" "done_at (learn pl t k q r) = Some j"
  shows "j < length (history w') \<and> (acked (learn pl t k q r) \<longrightarrow> j \<le> fence w' (space t) (gen srv w' (space t)))"
proof (cases "q = Operation")
  case True
  with assms(5,6) show ?thesis by (auto simp: learn_def elim: cache_exec.cases)
next
  case False
  then have d: "done_at k = Some j" using assms(6) by (simp add: learn_def)
  note x = cache_exec_ok [OF assms(1-5)]
  with forward_holds [of srv w w' pl load t k] assms(3) d
  have old: "j < length (history w')" "acked k \<longrightarrow> j \<le> fence w' (space t) (gen srv w' (space t))" by (auto simp: holds_def)
  have "j \<le> fence w' (space t) (gen srv w' (space t))" if "q = Redis (INCR e)" "r \<noteq> Failed" for e
  proof -
    from that assms(5) obtain s' where s: "srv_exec srv (server w) (INCR e) s' r" "w' = (served srv s' w)\<lparr>late := late w\<rparr>"
      by (auto elim: cache_exec.cases)
    have e: "e = generation_key (space t)" using that assms(4) by simp
    have "gen srv w (space t) < generation_at srv s' (space t)"
      using served_ok(4) [OF assms(1,2) allowed_permitted [OF assms(3) assms(4) [unfolded that]] s(1) refl that(2) e] .
    then have "fence w' (space t) (gen srv w' (space t)) = length (history w) - 1" using s(2) by (simp add: served_def)
    moreover have "j < length (history w)" using assms(3) d by (simp add: holds_def)
    ultimately show ?thesis by simp
  qed
  with old False show ?thesis by (auto simp: learn_def split: if_splits)
qed

lemma reply_learns:
  assumes "redis_documented srv" "cache_inv srv pl load w" "holds srv pl load w t k" "allowed pl t k q"
    "cache_exec srv load w t q w' r"
  shows "holds srv pl load w' t (learn pl t k q r)"
  unfolding holds_def
proof (intro conjI allI impI)
  note x = cache_exec_ok [OF assms]
  have h: "holds srv pl load w' t k" using x assms(3) by (auto intro: forward_holds)
  show "0 \<le> base (learn pl t k q r)" using assms(3) by (simp add: holds_def learn_def)
  have l: "low k \<le> low (learn pl t k q r)" by (auto simp: learn_def split: reply.split option.split)
  with assms(3) show "base (learn pl t k q r) \<le> low (learn pl t k q r)" by (simp add: holds_def learn_def)
  show "low (learn pl t k q r) \<le> gen srv w' (space t)" by (rule read_learns [OF assms])
  fix p key since assume t: "t = Query p key since"
  with h show "cache_key key" "since \<le> fence w' (space_of key) (base (learn pl t k q r))"
    by (simp_all add: holds_query learn_def)
  fix n v assume g: "(n, v) \<in> got (learn pl t k q r)"
  have "n \<le> low k \<and> known load w key n v"
  proof (cases "(n, v) \<in> got k")
    case True
    with assms(3) t show ?thesis by (simp add: holds_query)
  next
    case False
    with value_learns [of srv pl load w p key since k q w' r n v] assms t g show ?thesis by simp
  qed
  with l x assms(3) t forward_known [of srv w w' n key load v]
  show "n \<le> low (learn pl t k q r)" "known load w' key n v" by (auto simp: holds_query)
qed (use commit_learns [OF assms] in auto)

end
