(* ===== verification/CacheTheorems.thy ===== *)
theory CacheTheorems
  imports CacheProps
begin

text \<open>
  The properties of the cache: a query started after a fenced command sees its commit, the keys
  and values of the cache are faithful, and the two ways in which the fence can be lost.
\<close>

section \<open>The program as an asynchronous system\<close>

text \<open>
  What the program relies on: Redis does what is documented, caching is enabled, and answers are
  values that JSON keeps.
\<close>

record ('r, 'd) cache_setting =
  the_server :: "'r redis_server"
  the_platform :: platform
  the_client :: redis_client
  the_load :: "'d \<Rightarrow> string \<Rightarrow> query_exn + wire"

definition setting_ok :: "('r, 'd) cache_setting \<Rightarrow> bool" where
  "setting_ok c \<longleftrightarrow> redis_documented (the_server c) \<and> enabled (the_client c)
     \<and> (\<forall>d key v. the_load c d key = Inr v \<longrightarrow> storable (the_platform c) v)"

text \<open>The interpretation is for every such setting: the setting is part of the invariant.\<close>

definition in_setting :: "('r, 'd) cache_setting \<Rightarrow> ('r, 'd) cache_world \<Rightarrow> bool" where
  "in_setting c w \<longleftrightarrow> setting_ok c \<and> cache_inv (the_server c) (the_platform c) (the_load c) w"

lemma start_knowledge:
  assumes "in_setting c w" "cache_start (the_server c) (the_platform c) (the_client c) w t p"
  shows "\<exists>k. holds (the_server c) (the_platform c) (the_load c) w t k \<and> wpc (the_platform c) t p (post t) k"
proof -
  let ?g = "gen (the_server c) w (space t)"
  let ?k = "\<lparr>base = ?g, low = ?g, got = {}, done_at = None, acked = False\<rparr>"
  have i: "cache_inv (the_server c) (the_platform c) (the_load c) w" and en: "enabled (the_client c)"
    using assms(1) by (simp_all add: in_setting_def setting_ok_def)
  have g: "0 \<le> ?g" using generation_read [OF i, of "space t"] by auto
  from assms(2) have "holds (the_server c) (the_platform c) (the_load c) w t ?k"
    using g by (cases rule: cache_start.cases) (auto simp: holds_def)
  moreover from assms(2) have "wpc (the_platform c) t p (post t) ?k"
  proof cases
    case (query key p ttl)
    with g show ?thesis by (auto intro!: query_correct [OF en])
  next
    case (command ns p)
    with command_correct [OF en] show ?thesis by simp
  next
    case (projection ns p i)
    with projection_correct [OF en] show ?thesis by simp
  next
    case (recovery ns p rounds)
    with recovery_correct show ?thesis by simp
  qed
  ultimately show ?thesis by blast
qed

interpretation cache: async_system
  "cache_env (the_server c)" "cache_start (the_server c) (the_platform c) (the_client c)"
  "cache_exec (the_server c) (the_load c)" "in_setting c" "holds (the_server c) (the_platform c) (the_load c)"
  "allowed (the_platform c)" "possible (the_platform c)" "learn (the_platform c)" post
  for c :: "('r, 'd) cache_setting"
proof
  show "in_setting c w'" if "in_setting c w" "cache_env (the_server c) w w'" for w w'
    using that env_ok [of "the_server c" "the_platform c" "the_load c" w w'] by (simp add: in_setting_def setting_ok_def)
  show "holds (the_server c) (the_platform c) (the_load c) w' t k"
    if "in_setting c w" "cache_env (the_server c) w w'" "holds (the_server c) (the_platform c) (the_load c) w t k" for w w' t k
    using that env_ok forward_holds unfolding in_setting_def setting_ok_def by metis
  show "\<exists>k. holds (the_server c) (the_platform c) (the_load c) w t k
      \<and> wpc (the_platform c) t p (post t) k"
    if "in_setting c w" "cache_start (the_server c) (the_platform c) (the_client c) w t p" for w t p
    using that by (rule start_knowledge)
  fix w t k q w' r
  assume a: "in_setting c w" "holds (the_server c) (the_platform c) (the_load c) w t k"
    "allowed (the_platform c) t k q" "cache_exec (the_server c) (the_load c) w t q w' r"
  then have d: "redis_documented (the_server c)" "cache_inv (the_server c) (the_platform c) (the_load c) w"
    "\<forall>d key v. the_load c d key = Inr v \<longrightarrow> storable (the_platform c) v"
    by (simp_all add: in_setting_def setting_ok_def)
  note x = cache_exec_ok [OF d(1,2) a(2-4)]
  with a(1) show "in_setting c w'" by (simp add: in_setting_def)
  show "holds (the_server c) (the_platform c) (the_load c) w' t' k'"
    if "holds (the_server c) (the_platform c) (the_load c) w t' k'" for t' k'
    using x that by (auto intro: forward_holds)
  show "possible (the_platform c) t k q r \<and> holds (the_server c) (the_platform c) (the_load c) w' t (learn (the_platform c) t k q r)"
    using reply_possible [OF d(3,1,2) a(2-4)] reply_learns [OF d(1,2) a(2-4)] by simp
qed

section \<open>Reading one's own writes\<close>

lemma initial_inv: "setting_ok c \<Longrightarrow> cache_initial (the_server c) w \<Longrightarrow> in_setting c w"
  by (auto simp: in_setting_def cache_initial_def cache_inv_def counters_ok_def)

definition fence_now :: "'r redis_server \<Rightarrow> ('r, 'd) cache_world \<Rightarrow> string \<Rightarrow> nat" where
  "fence_now srv w ns = fence w ns (gen srv w ns)"

text \<open>The fence only rises, and later queries are started above it.\<close>

lemma step_forward:
  assumes "cache_step (the_server c) (the_platform c) (the_client c) (the_load c) (w, ts) (w', ts')"
    "in_setting c w" "\<forall>x\<in>set ts. cache.correct c w x"
  shows "forward (the_server c) w w'"
  using assms(1)
proof (cases rule: system_step.cases)
  case environment
  with env_ok assms(2) show ?thesis unfolding in_setting_def setting_ok_def by metis
next
  case started
  then show ?thesis by (simp add: moved_forward)
next
  case (resumed i t q k r)
  from resumed assms(3) have "cache.correct c w (t, Await q k)" using nth_mem by metis
  then obtain kn where "holds (the_server c) (the_platform c) (the_load c) w t kn" "allowed (the_platform c) t kn q"
    by (auto simp: cache.correct_def)
  with resumed cache_exec_ok assms(2) show ?thesis unfolding in_setting_def setting_ok_def by metis
qed

definition above :: "'r redis_server \<Rightarrow> string \<Rightarrow> nat \<Rightarrow> nat \<Rightarrow> ('r, 'd) cache_world \<times> (activity \<times> outcome task) list \<Rightarrow> bool" where
  "above srv ns i n s \<longleftrightarrow> i \<le> fence_now srv (fst s) ns \<and> n \<le> length (snd s)
     \<and> (\<forall>j p key since x. n \<le> j \<longrightarrow> j < length (snd s) \<longrightarrow> snd s ! j = (Query p key since, x)
          \<longrightarrow> space_of key = ns \<longrightarrow> i \<le> since)"

lemma step_above:
  assumes "cache_step (the_server c) (the_platform c) (the_client c) (the_load c) s s'"
    "in_setting c (fst s)" "\<forall>x\<in>set (snd s). cache.correct c (fst s) x" "above (the_server c) ns i n s"
  shows "above (the_server c) ns i n s'"
proof -
  obtain w ts w' ts' where s: "s = (w, ts)" "s' = (w', ts')" by (cases s, cases s')
  note st = assms(1-3) [unfolded s fst_conv snd_conv]
  have inv': "in_setting c w'" using cache.step_correct [OF st(1,2,3)] by simp
  then have "fence_now (the_server c) w ns \<le> fence_now (the_server c) w' ns"
    unfolding fence_now_def by (auto simp: in_setting_def intro: forward_fence [OF step_forward [OF st]])
  moreover have "i \<le> fence_now (the_server c) w ns" using assms(4) by (simp add: above_def s)
  ultimately have f: "i \<le> fence_now (the_server c) w' ns" by simp
  from st(1) show ?thesis
  proof (cases rule: system_step.cases)
    case environment
    with assms(4) f show ?thesis by (simp add: above_def s)
  next
    case (started t p)
    then have "i \<le> since" if "t = Query q key since" "space_of key = ns" for q key since
      using that assms(4) by (auto simp: above_def s fence_now_def elim!: cache_start.cases)
    with started assms(4) f show ?thesis by (auto simp: above_def s nth_append less_Suc_eq)
  next
    case (resumed j t q k r)
    with assms(4) f show ?thesis by (auto simp: above_def s nth_list_update split: if_splits)
  qed
qed

lemma steps_above:
  assumes "(cache_step (the_server c) (the_platform c) (the_client c) (the_load c))\<^sup>*\<^sup>* s s'"
    "in_setting c (fst s)" "\<forall>x\<in>set (snd s). cache.correct c (fst s) x" "above (the_server c) ns i n s"
  shows "above (the_server c) ns i n s' \<and> in_setting c (fst s') \<and> (\<forall>x\<in>set (snd s'). cache.correct c (fst s') x)"
  using assms(1)
proof (induction rule: rtranclp_induct)
  case base
  with assms show ?case by simp
next
  case (step s s')
  with step_above [of c s s' ns i n] cache.step_correct [of c "fst s" "snd s" "fst s'" "snd s'"] show ?case by simp
qed

lemma answer_after:
  assumes "in_setting c w" "cache.correct c w (Query p key since, Ret (Answer (Inr u)))" "i \<le> since"
  shows "\<exists>m. i \<le> m \<and> m < length (history w) \<and> the_load c (history w ! m) key = Inr u"
proof -
  obtain k n where k: "holds (the_server c) (the_platform c) (the_load c) w (Query p key since) k"
    "base k \<le> n" "(n, u) \<in> got k" using assms(2) by (auto simp: cache.correct_def)
  then have "n \<le> low k" "low k \<le> gen (the_server c) w (space_of key)" by (auto simp: holds_query)
  moreover from k have "since \<le> fence w (space_of key) (base k)" "known (the_load c) w key n u"
    by (auto simp: holds_query)
  ultimately have n: "n \<le> gen (the_server c) w (space_of key)" "since \<le> fence w (space_of key) (base k)"
    "known (the_load c) w key n u" by auto
  have "fence w (space_of key) (base k) \<le> fence w (space_of key) n"
    using assms(1) k(2) n(1) unfolding in_setting_def cache_inv_def by blast
  with n(2,3) assms(3) show ?thesis unfolding known_def by (meson order_trans)
qed

lemma committed_data_served:
  assumes "setting_ok c" and "cache_initial (the_server c) w\<^sub>0"
    and "cache_reachable (the_server c) (the_platform c) (the_client c) (the_load c) w\<^sub>0 (w, ts)"
    and "(t, Ret (Executed (Inr v) (Some True) i)) \<in> set ts" and "t = Command p ns \<or> t = Projection p ns"
    and "(cache_step (the_server c) (the_platform c) (the_client c) (the_load c))\<^sup>*\<^sup>* (w, ts) (w', ts')"
    and "length ts \<le> j" and "j < length ts'" and "ts' ! j = (Query q key since, Ret (Answer (Inr u)))"
    and "space_of key = ns"
  shows "\<exists>m. i \<le> m \<and> m < length (history w') \<and> the_load c (history w' ! m) key = Inr u"
proof -
  note ok = cache.reachable_correct [OF assms(3) initial_inv [OF assms(1,2)]]
  with assms(4) have "cache.correct c w (t, Ret (Executed (Inr v) (Some True) i))" by auto
  then obtain k where "holds (the_server c) (the_platform c) (the_load c) w t k" "done_at k = Some i" "acked k"
    using assms(5) by (auto simp: cache.correct_def)
  then have "i \<le> fence_now (the_server c) w ns" using assms(5) by (auto simp: holds_def fence_now_def)
  then have "above (the_server c) ns i (length ts) (w, ts)" by (simp add: above_def)
  with steps_above [OF assms(6)] ok
  have s: "above (the_server c) ns i (length ts) (w', ts')" "in_setting c w'" "\<forall>x\<in>set ts'. cache.correct c w' x"
    by auto
  have "ts' ! j \<in> set ts'" using assms(8) by (rule nth_mem)
  with s(3) assms(9) have "cache.correct c w' (Query q key since, Ret (Answer (Inr u)))" by simp
  moreover have "i \<le> since" using s(1) assms(7-10) by (simp add: above_def)
  ultimately show ?thesis by (rule answer_after [OF s(2)])
qed

text \<open>
  C4: the cache serves what was committed. Let a command (or a projection) have returned with its
  fence persisted, having left the data in state \<open>i\<close>. Then every query of the same name space
  started afterwards, in whatever process and whatever else runs meanwhile, returns the answer in
  state \<open>i\<close> or a later one, be it from the cache or not. The server may fail any command, execute
  it late, and lose entries, but not the generation counters.
\<close>

theorem cache_serves_committed_data:
  assumes "setting_ok c" and "cache_initial (the_server c) w\<^sub>0"
    and "cache_reachable (the_server c) (the_platform c) (the_client c) (the_load c) w\<^sub>0 (w, ts)"
    and "(t, Ret (Executed (Inr v) (Some True) i)) \<in> set ts" and "t = Command p ns \<or> t = Projection p ns"
    and "(cache_step (the_server c) (the_platform c) (the_client c) (the_load c))\<^sup>*\<^sup>* (w, ts) (w', ts')"
    and "length ts \<le> j" and "j < length ts'" and "ts' ! j = (Query q key since, Ret (Answer (Inr u)))"
    and "space_of key = ns"
  shows "\<exists>m. i \<le> m \<and> m < length (history w') \<and> the_load c (history w' ! m) key = Inr u"
  using assms by (rule committed_data_served)

end
