(* ===== verification/QueryHandlers.thy ===== *)
theory QueryHandlers
  imports CacheTheorems QueryRepos Database
begin

text \<open>
  The handlers of the queries (\<open>src/application/query_handlers/*.py\<close>): each validates its
  request, builds a cache key, reads through the cache with the repository behind it, and hydrates a
  read model from what it gets. The closure \<open>load\<close> of a handler is the answer to the request
  \<open>Source key\<close> of \<open>Cache\<close>; \<open>query_load\<close> says which it is.
\<close>

section \<open>Requests, keys and answers\<close>

datatype library_query =
    ListBooks book_filters int int "string option"
  | GetBook string
  | ListPatrons patron_filters int int "string option"
  | GetPatron string
  | ListPatronLoans string bool int int "string option"
  | GetLoan string

text \<open>The arguments after the filters are \<open>limit\<close>, \<open>offset\<close> and \<open>cursor\<close>.\<close>

definition page_members :: "int \<Rightarrow> int \<Rightarrow> string option \<Rightarrow> (string \<times> wire) list" where
  "page_members limit offset cursor =
     [(''limit'', WInt limit), (''offset'', WInt offset), (''cursor'', opt_str cursor)]"

definition list_books_key :: "platform \<Rightarrow> book_filters \<Rightarrow> int \<Rightarrow> int \<Rightarrow> string option \<Rightarrow> query_exn + string" where
  "list_books_key pl f limit offset cursor = build_list_key pl ''book''
     ([(''only_available'', WBool (bf_only_available f)), (''only_borrowed'', WBool (bf_only_borrowed f)),
       (''author_contains'', opt_str (bf_author_contains f)), (''title_contains'', opt_str (bf_title_contains f))]
      @ page_members limit offset cursor)"

definition list_patrons_key :: "platform \<Rightarrow> patron_filters \<Rightarrow> int \<Rightarrow> int \<Rightarrow> string option \<Rightarrow> query_exn + string" where
  "list_patrons_key pl f limit offset cursor = build_list_key pl ''patron''
     ([(''only_suspended'', WBool (pf_only_suspended f)), (''membership_tier'', opt_str (pf_membership_tier f))]
      @ page_members limit offset cursor)"

definition list_patron_loans_key :: "platform \<Rightarrow> string \<Rightarrow> bool \<Rightarrow> int \<Rightarrow> int \<Rightarrow> string option \<Rightarrow> query_exn + string" where
  "list_patron_loans_key pl patron only_active limit offset cursor = build_list_key pl ''loan''
     ([(''patron_id'', WStr patron), (''only_active'', WBool only_active)] @ page_members limit offset cursor)"

fun query_key :: "platform \<Rightarrow> library_query \<Rightarrow> query_exn + string" where
  "query_key pl (ListBooks f limit offset cursor) = list_books_key pl f limit offset cursor"
| "query_key pl (GetBook i) = build_key pl ''book'' [i]"
| "query_key pl (ListPatrons f limit offset cursor) = list_patrons_key pl f limit offset cursor"
| "query_key pl (GetPatron i) = build_key pl ''patron'' [i]"
| "query_key pl (ListPatronLoans p a limit offset cursor) = list_patron_loans_key pl p a limit offset cursor"
| "query_key pl (GetLoan i) = build_key pl ''loan'' [i]"

text \<open>\<open>__dict__\<close> of the read models.\<close>

definition opt_date :: "datetime option \<Rightarrow> wire" where
  "opt_date v = (case v of None \<Rightarrow> WNull | Some d \<Rightarrow> WDate d)"

definition book_members :: "book_read_model \<Rightarrow> (string \<times> wire) list" where
  "book_members m = [(''id'', WStr (bm_id m)), (''title'', WStr (bm_title m)), (''author'', WStr (bm_author m)),
     (''is_borrowed'', WBool (bm_is_borrowed m)), (''status'', WStr (bm_status m)),
     (''borrowed_at'', opt_date (bm_borrowed_at m)), (''return_due_date'', opt_date (bm_return_due_date m))]"

definition patron_members :: "patron_read_model \<Rightarrow> (string \<times> wire) list" where
  "patron_members m = [(''id'', WStr (pm_id m)), (''name'', WStr (pm_name m)), (''first_name'', WStr (pm_first_name m)),
     (''last_name'', WStr (pm_last_name m)), (''email'', WStr (pm_email m)),
     (''membership_tier'', WStr (pm_membership_tier m)), (''is_suspended'', WBool (pm_is_suspended m)),
     (''suspended_reason'', pm_suspended_reason m), (''registered_at'', WDate (pm_registered_at m))]"

definition loan_members :: "loan_read_model \<Rightarrow> (string \<times> wire) list" where
  "loan_members m = [(''id'', WStr (lm_id m)), (''patron_id'', WStr (lm_patron_id m)),
     (''patron_email'', WStr (lm_patron_email m)), (''catalog_book_id'', WStr (lm_catalog_book_id m)),
     (''book_title'', WStr (lm_book_title m)), (''borrowed_at'', WDate (lm_borrowed_at m)),
     (''due_date'', WDate (lm_due_date m)), (''returned_at'', opt_date (lm_returned_at m)), (''status'', WStr (lm_status m))]"

definition page_payload :: "('i \<Rightarrow> (string \<times> wire) list) \<Rightarrow> 'i query_page \<Rightarrow> wire" where
  "page_payload members page = WObj [(''items'', WArr (map (\<lambda>m. WObj (members m)) (pg_items page))),
     (''next_cursor'', opt_str (pg_next_cursor page)),
     (''total'', case pg_total page of None \<Rightarrow> WNull | Some n \<Rightarrow> WInt n)]"

section \<open>Reading what the cache returned\<close>

text \<open>\<open>NoGet\<close> is the \<open>AttributeError\<close> of \<open>value.get\<close> for a value that is no dict.\<close>

datatype query_error = Raised query_exn | NoGet

text \<open>A page as a handler returns it; the cursor and the total are what the payload holds.\<close>

record 'i listing =
  ls_items :: "'i list"
  ls_next_cursor :: wire
  ls_total :: wire

definition raised :: "query_exn + 'a \<Rightarrow> query_error + 'a" where
  "raised x = (case x of Inl e \<Rightarrow> Inl (Raised e) | Inr y \<Rightarrow> Inr y)"

fun elements :: "wire \<Rightarrow> query_exn + wire list" where
  "elements (WArr ws) = Inr ws"
| "elements (WStr s) = Inr (map (\<lambda>c. WStr [c]) s)"
| "elements (WObj d) = Inr (map (\<lambda>(k, w). WStr k) d)"
| "elements w = Inl QTypeError"

definition read_item :: "((string \<times> wire) list \<Rightarrow> query_exn + 'i) \<Rightarrow> wire \<Rightarrow> query_error + 'i" where
  "read_item from_mapping v = (case v of WObj d \<Rightarrow> raised (from_mapping d) | _ \<Rightarrow> Inl NoGet)"

definition read_page :: "((string \<times> wire) list \<Rightarrow> query_exn + 'i) \<Rightarrow> wire \<Rightarrow> query_error + 'i listing" where
  "read_page from_mapping payload =
     (case payload of
        WObj d \<Rightarrow>
          rbind (raised (ditem d ''items'')) (\<lambda>v.
          rbind (raised (elements v)) (\<lambda>ws.
          rbind (rmap_all (read_item from_mapping) ws) (\<lambda>items.
          Inr \<lparr>ls_items = items, ls_next_cursor = dget d ''next_cursor'', ls_total = dget d ''total''\<rparr>)))
      | _ \<Rightarrow> Inl (Raised QTypeError))"

section \<open>The handlers\<close>

text \<open>\<open>get_or_set\<close> and the hydration of its result, in all handlers.\<close>

definition read_through ::
  "platform \<Rightarrow> redis_client \<Rightarrow> query_exn + string \<Rightarrow> (wire \<Rightarrow> query_error + 'a) \<Rightarrow> (query_error + 'a) task" where
  "read_through pl cl key_result hydrate =
     (case key_result of
        Inl e \<Rightarrow> Ret (Inl (Raised e))
      | Inr key \<Rightarrow> io_bind (get_or_set pl cl key (source key) None) (\<lambda>x. Ret (rbind (raised x) hydrate)))"

definition list_books_handle_page ::
  "platform \<Rightarrow> redis_client \<Rightarrow> book_filters \<Rightarrow> int \<Rightarrow> int \<Rightarrow> string option \<Rightarrow> (query_error + book_read_model listing) task" where
  "list_books_handle_page pl cl f limit offset cursor =
     (case validate_pagination limit offset cursor of
        Inl e \<Rightarrow> Ret (Inl (Raised e))
      | Inr _ \<Rightarrow>
          (if bf_only_available f \<and> bf_only_borrowed f
           then Ret (Inl (Raised (InvalidPaginationError ''only_available and only_borrowed are mutually exclusive'')))
           else read_through pl cl (list_books_key pl f limit offset cursor) (read_page (book_from_mapping pl))))"

definition list_patrons_handle_page ::
  "platform \<Rightarrow> redis_client \<Rightarrow> patron_filters \<Rightarrow> int \<Rightarrow> int \<Rightarrow> string option \<Rightarrow> (query_error + patron_read_model listing) task" where
  "list_patrons_handle_page pl cl f limit offset cursor =
     (case validate_pagination limit offset cursor of
        Inl e \<Rightarrow> Ret (Inl (Raised e))
      | Inr _ \<Rightarrow> read_through pl cl (list_patrons_key pl f limit offset cursor) (read_page (patron_from_mapping pl)))"

definition list_patron_loans_handle_page ::
  "platform \<Rightarrow> redis_client \<Rightarrow> string \<Rightarrow> bool \<Rightarrow> int \<Rightarrow> int \<Rightarrow> string option \<Rightarrow> (query_error + loan_read_model listing) task" where
  "list_patron_loans_handle_page pl cl patron only_active limit offset cursor =
     (case validate_pagination limit offset cursor of
        Inl e \<Rightarrow> Ret (Inl (Raised e))
      | Inr _ \<Rightarrow> read_through pl cl (list_patron_loans_key pl patron only_active limit offset cursor)
          (read_page (loan_from_mapping pl)))"

text \<open>\<open>handle\<close> of the three lists: the items of the page.\<close>

definition list_handle :: "(query_error + 'i listing) task \<Rightarrow> (query_error + 'i list) task" where
  "list_handle page = io_bind page (\<lambda>x. Ret (rbind x (\<lambda>l. Inr (ls_items l))))"

definition get_book_handle :: "platform \<Rightarrow> redis_client \<Rightarrow> string \<Rightarrow> (query_error + book_read_model) task" where
  "get_book_handle pl cl i = read_through pl cl (build_key pl ''book'' [i]) (read_item (book_from_mapping pl))"

definition get_patron_handle :: "platform \<Rightarrow> redis_client \<Rightarrow> string \<Rightarrow> (query_error + patron_read_model) task" where
  "get_patron_handle pl cl i = read_through pl cl (build_key pl ''patron'' [i]) (read_item (patron_from_mapping pl))"

definition get_loan_handle :: "platform \<Rightarrow> redis_client \<Rightarrow> string \<Rightarrow> (query_error + loan_read_model) task" where
  "get_loan_handle pl cl i = read_through pl cl (build_key pl ''loan'' [i]) (read_item (loan_from_mapping pl))"

section \<open>What is behind the cache\<close>

text \<open>A state of the read side: the tables, and what the search engine answers.\<close>

record read_side =
  rs_env :: search_env
  rs_books :: "book_row list"
  rs_patrons :: "patron_row list"
  rs_loans :: "loan_row list"

definition found_or :: "exn \<Rightarrow> ('i \<Rightarrow> (string \<times> wire) list) \<Rightarrow> 'i option \<Rightarrow> query_exn + wire" where
  "found_or e members x = (case x of None \<Rightarrow> Inl (NotFound e) | Some m \<Rightarrow> Inr (WObj (members m)))"

text \<open>The closures \<open>load\<close> of the handlers.\<close>

fun query_load :: "platform \<Rightarrow> read_side \<Rightarrow> library_query \<Rightarrow> query_exn + wire" where
  "query_load pl s (ListBooks f limit offset cursor) =
     rbind (find_books pl (rs_env s) f limit offset cursor (rs_books s)) (\<lambda>page. Inr (page_payload book_members page))"
| "query_load pl s (GetBook i) =
     found_or (Catalog (BookNotFoundException i)) book_members (find_book_by_id i (rs_books s))"
| "query_load pl s (ListPatrons f limit offset cursor) =
     rbind (find_patrons pl (rs_env s) f limit offset cursor (rs_patrons s)) (\<lambda>page. Inr (page_payload patron_members page))"
| "query_load pl s (GetPatron i) =
     found_or (PatronE (PatronNotFoundException i)) patron_members (find_patron_by_id i (rs_patrons s))"
| "query_load pl s (ListPatronLoans p a limit offset cursor) =
     rbind (find_loans_by_patron pl (rs_env s) p a limit offset cursor (rs_loans s)) (\<lambda>page. Inr (page_payload loan_members page))"
| "query_load pl s (GetLoan i) =
     found_or (Lending (LoanNotFoundException i)) loan_members (find_loan_by_id i (rs_loans s))"

text \<open>The result of a handler, for what the cache returned, and for what the repository found.\<close>

datatype library_answer =
    BookList "book_read_model listing"
  | PatronList "patron_read_model listing"
  | LoanList "loan_read_model listing"
  | OneBook book_read_model
  | OnePatron patron_read_model
  | OneLoan loan_read_model

fun hydrated :: "platform \<Rightarrow> library_query \<Rightarrow> wire \<Rightarrow> query_error + library_answer" where
  "hydrated pl (ListBooks f limit offset cursor) v = rbind (read_page (book_from_mapping pl) v) (\<lambda>l. Inr (BookList l))"
| "hydrated pl (GetBook i) v = rbind (read_item (book_from_mapping pl) v) (\<lambda>m. Inr (OneBook m))"
| "hydrated pl (ListPatrons f limit offset cursor) v = rbind (read_page (patron_from_mapping pl) v) (\<lambda>l. Inr (PatronList l))"
| "hydrated pl (GetPatron i) v = rbind (read_item (patron_from_mapping pl) v) (\<lambda>m. Inr (OnePatron m))"
| "hydrated pl (ListPatronLoans p a limit offset cursor) v = rbind (read_page (loan_from_mapping pl) v) (\<lambda>l. Inr (LoanList l))"
| "hydrated pl (GetLoan i) v = rbind (read_item (loan_from_mapping pl) v) (\<lambda>m. Inr (OneLoan m))"

definition listing_of :: "'i query_page \<Rightarrow> 'i listing" where
  "listing_of page = \<lparr>ls_items = pg_items page, ls_next_cursor = opt_str (pg_next_cursor page),
     ls_total = (case pg_total page of None \<Rightarrow> WNull | Some n \<Rightarrow> WInt n)\<rparr>"

fun in_repository :: "platform \<Rightarrow> read_side \<Rightarrow> library_query \<Rightarrow> library_answer option" where
  "in_repository pl s (ListBooks f limit offset cursor) =
     (case find_books pl (rs_env s) f limit offset cursor (rs_books s) of
        Inl _ \<Rightarrow> None | Inr page \<Rightarrow> Some (BookList (listing_of page)))"
| "in_repository pl s (GetBook i) = map_option OneBook (find_book_by_id i (rs_books s))"
| "in_repository pl s (ListPatrons f limit offset cursor) =
     (case find_patrons pl (rs_env s) f limit offset cursor (rs_patrons s) of
        Inl _ \<Rightarrow> None | Inr page \<Rightarrow> Some (PatronList (listing_of page)))"
| "in_repository pl s (GetPatron i) = map_option OnePatron (find_patron_by_id i (rs_patrons s))"
| "in_repository pl s (ListPatronLoans p a limit offset cursor) =
     (case find_loans_by_patron pl (rs_env s) p a limit offset cursor (rs_loans s) of
        Inl _ \<Rightarrow> None | Inr page \<Rightarrow> Some (LoanList (listing_of page)))"
| "in_repository pl s (GetLoan i) = map_option OneLoan (find_loan_by_id i (rs_loans s))"


text \<open>\<open>get_borrow_operation.py\<close> reads the table of operations, without a cache.\<close>

record borrow_operation_result =
  bor_operation_id :: string
  bor_book_id :: string
  bor_patron_id :: string
  bor_reservation_generation :: int
  bor_status :: string
  bor_loan_id :: "string option"
  bor_failure_reason :: "string option"
  bor_created_at :: instant
  bor_updated_at :: instant

definition get_operation :: "string \<Rightarrow> db \<Rightarrow> borrow_operation option" where
  "get_operation i d = find (\<lambda>r. operation_id r = i) (operations d)"

definition get_borrow_operation :: "string \<Rightarrow> db \<Rightarrow> exn + borrow_operation_result" where
  "get_borrow_operation i d =
     (case get_operation i d of
        None \<Rightarrow> Inl (App (BorrowOperationNotFoundException i))
      | Some r \<Rightarrow> Inr \<lparr>bor_operation_id = operation_id r, bor_book_id = op_book_id r, bor_patron_id = op_patron_id r,
          bor_reservation_generation = op_generation r, bor_status = operation_status_value (op_status r),
          bor_loan_id = op_loan_id r, bor_failure_reason = op_failure_reason r,
          bor_created_at = op_created_at r, bor_updated_at = op_updated_at r\<rparr>)"

section \<open>What was stored is what is hydrated\<close>

lemma raised_Inr [simp]: "raised (Inr x) = Inr x"
  by (simp add: raised_def)

lemma optional_date_back: "optional_datetime pl (opt_date v) field = Inr v"
  by (simp add: optional_datetime_def opt_date_def split: option.split)

lemma required_date_back: "required_datetime pl (WDate d) field = Inr d"
  by (simp add: required_datetime_def optional_datetime_def)

lemma book_back: "bm_is_borrowed m = (bm_status m = ''borrowed'') \<Longrightarrow> book_from_mapping pl (book_members m) = Inr m"
  by (simp add: book_from_mapping_def book_members_def ditem_def dget_def dget_or_def optional_date_back Let_def)

lemma patron_back: "patron_from_mapping pl (patron_members m) = Inr m"
  by (simp add: patron_from_mapping_def patron_members_def ditem_def dget_def dget_or_def required_date_back)

lemma loan_back: "loan_from_mapping pl (loan_members m) = Inr m"
  by (simp add: loan_from_mapping_def loan_members_def ditem_def dget_def dget_or_def required_date_back optional_date_back)

lemma read_items_back:
  "\<forall>m\<in>set ms. from_mapping (members m) = Inr m
    \<Longrightarrow> rmap_all (read_item from_mapping) (map (\<lambda>m. WObj (members m)) ms) = Inr ms"
  by (induction ms) (simp_all add: read_item_def)

lemma read_page_back:
  "\<forall>m\<in>set (pg_items page). from_mapping (members m) = Inr m
    \<Longrightarrow> read_page from_mapping (page_payload members page) = Inr (listing_of page)"
  by (simp add: read_page_def page_payload_def ditem_def dget_def read_items_back listing_of_def)

text \<open>The books of a page are borrowed if their status says so.\<close>

definition book_consistent :: "book_read_model \<Rightarrow> bool" where
  "book_consistent m \<longleftrightarrow> bm_is_borrowed m = (bm_status m = ''borrowed'')"

lemma rmap_all_set: "rmap_all f xs = Inr ys \<Longrightarrow> y \<in> set ys \<Longrightarrow> \<exists>x\<in>set xs. f x = Inr y"
  by (induction xs arbitrary: ys) (auto simp: result_simps)

lemma mapping_consistent: "book_from_mapping pl d = Inr m \<Longrightarrow> book_consistent m"
  by (auto simp: book_from_mapping_def book_consistent_def Let_def result_simps)

lemma database_page_items: "database_page pl sc limit last_sort items = Inr page \<Longrightarrow> pg_items page = items"
  by (auto simp: database_page_def result_simps split: if_splits)

lemma search_or_database_items:
  assumes "search_or_database pl sc env backend request to_item last_sort from_db = Inr page"
    and "\<And>d m. to_item d = Inr m \<Longrightarrow> P m" "\<And>p m. from_db = Inr p \<Longrightarrow> m \<in> set (pg_items p) \<Longrightarrow> P m"
  shows "\<forall>m\<in>set (pg_items page). P m"
proof -
  have "\<exists>hits. rmap_all to_item hits = Inr (pg_items page)" if "from_db \<noteq> Inr page"
    using assms(1) that by (auto simp: search_or_database_def Let_def result_simps split: if_splits sum.splits intro: exI [of _ "[]"])
  then show ?thesis using assms(2,3) by (cases "from_db = Inr page") (auto dest: rmap_all_set)
qed

lemma found_books_consistent:
  assumes "find_books pl env f limit offset cursor rows = Inr page"
  shows "\<forall>m\<in>set (pg_items page). book_consistent m"
proof -
  obtain after backend where "search_or_database pl (book_scope pl f) env backend
         \<lparr>sr_index = ''books'', sr_query = book_es_query f, sr_size = limit, sr_from = offset,
          sr_sort = sort_clause [(''title.sort'', ''asc'', None)], sr_search_after = search_position after\<rparr>
         (book_of_hit pl) book_sort_values (find_books_in_db pl f limit offset after (book_scope pl f) rows) = Inr page"
    using assms by (auto simp: find_books_def result_simps)
  then show ?thesis
    by (rule search_or_database_items)
      (auto simp: book_of_hit_def find_books_in_db_def book_model_of_row_def book_consistent_def
        dest!: mapping_consistent database_page_items)
qed

lemma found_item_back:
  assumes "found_or e members x = Inr v" "\<And>m. x = Some m \<Longrightarrow> from_mapping (members m) = Inr m"
  shows "\<exists>m. x = Some m \<and> read_item from_mapping v = Inr m"
  using assms by (auto simp: found_or_def read_item_def split: option.splits)

lemma hydrated_load:
  assumes "query_load pl s q = Inr v"
  shows "\<exists>a. hydrated pl q v = Inr a \<and> in_repository pl s q = Some a"
proof (cases q)
  case (ListBooks f limit offset cursor)
  with assms obtain page where page: "find_books pl (rs_env s) f limit offset cursor (rs_books s) = Inr page"
    "v = page_payload book_members page" by (auto simp: result_simps)
  then have "\<forall>m\<in>set (pg_items page). book_from_mapping pl (book_members m) = Inr m"
    using found_books_consistent book_back unfolding book_consistent_def by blast
  with page ListBooks show ?thesis by (simp add: read_page_back)
next
  case (GetBook i)
  have "book_from_mapping pl (book_members m) = Inr m" if "find_book_by_id i (rs_books s) = Some m" for m
    using that by (intro book_back) (auto simp: find_book_by_id_def book_model_of_row_def)
  moreover have "found_or (Catalog (BookNotFoundException i)) book_members (find_book_by_id i (rs_books s)) = Inr v"
    using assms GetBook by simp
  ultimately obtain m where "find_book_by_id i (rs_books s) = Some m" "read_item (book_from_mapping pl) v = Inr m"
    using found_item_back by blast
  with GetBook show ?thesis by simp
next
  case (GetPatron i)
  with assms have "found_or (PatronE (PatronNotFoundException i)) patron_members (find_patron_by_id i (rs_patrons s)) = Inr v" by simp
  then have "\<exists>m. find_patron_by_id i (rs_patrons s) = Some m \<and> read_item (patron_from_mapping pl) v = Inr m"
    by (rule found_item_back) (rule patron_back)
  with GetPatron show ?thesis by auto
next
  case (GetLoan i)
  with assms have "found_or (Lending (LoanNotFoundException i)) loan_members (find_loan_by_id i (rs_loans s)) = Inr v" by simp
  then have "\<exists>m. find_loan_by_id i (rs_loans s) = Some m \<and> read_item (loan_from_mapping pl) v = Inr m"
    by (rule found_item_back) (rule loan_back)
  with GetLoan show ?thesis by auto
next
  case (ListPatrons f limit offset cursor)
  with assms obtain page where "find_patrons pl (rs_env s) f limit offset cursor (rs_patrons s) = Inr page"
    "v = page_payload patron_members page" by (auto simp: result_simps)
  with ListPatrons show ?thesis by (simp add: read_page_back patron_back)
next
  case (ListPatronLoans p a limit offset cursor)
  with assms obtain page where "find_loans_by_patron pl (rs_env s) p a limit offset cursor (rs_loans s) = Inr page"
    "v = page_payload loan_members page" by (auto simp: result_simps)
  with ListPatronLoans show ?thesis by (simp add: read_page_back loan_back)
qed

section \<open>Keys\<close>

text \<open>A JSON text determines its value.\<close>

lemma json_text_inj: "\<lbrakk>plain v; plain w; json_text [] fr v = json_text [] fr w\<rbrakk> \<Longrightarrow> v = w"
  using json_loads_text [of v "[]" fr] json_loads_text [of w "[]" fr] by (metis list.pred_inject(1) option.inject)


definition key_value :: "library_query \<Rightarrow> wire" where
  "key_value q = (case q of
       ListBooks f limit offset cursor \<Rightarrow> WObj ([(''only_available'', WBool (bf_only_available f)),
         (''only_borrowed'', WBool (bf_only_borrowed f)), (''author_contains'', opt_str (bf_author_contains f)),
         (''title_contains'', opt_str (bf_title_contains f))] @ page_members limit offset cursor)
     | ListPatrons f limit offset cursor \<Rightarrow> WObj ([(''only_suspended'', WBool (pf_only_suspended f)),
         (''membership_tier'', opt_str (pf_membership_tier f))] @ page_members limit offset cursor)
     | ListPatronLoans p a limit offset cursor \<Rightarrow> WObj ([(''patron_id'', WStr p), (''only_active'', WBool a)]
         @ page_members limit offset cursor)
     | GetBook i \<Rightarrow> WArr [WStr i] | GetPatron i \<Rightarrow> WArr [WStr i] | GetLoan i \<Rightarrow> WArr [WStr i])"

definition key_prefix :: "library_query \<Rightarrow> string" where
  "key_prefix q = (case q of
       ListBooks f limit offset cursor \<Rightarrow> ''book:list:v1:'' | GetBook i \<Rightarrow> ''book:item:v1:''
     | ListPatrons f limit offset cursor \<Rightarrow> ''patron:list:v1:'' | GetPatron i \<Rightarrow> ''patron:item:v1:''
     | ListPatronLoans p a limit offset cursor \<Rightarrow> ''loan:list:v1:'' | GetLoan i \<Rightarrow> ''loan:item:v1:'')"

text \<open>The text whose digest is in the key.\<close>

definition key_text :: "platform \<Rightarrow> library_query \<Rightarrow> string" where
  "key_text pl q = json_dumps (pl_float pl) (key_value q)"

lemma query_key_form: "query_key pl q = Inr (key_prefix q @ pl_sha pl (key_text pl q))"
proof -
  have "cache_namespace ns = Inr ns" if "ns \<in> {''book'', ''patron'', ''loan''}" for ns
    using that by (auto simp: cache_namespace_def is_lower_def is_digit_def code_def)
  then show ?thesis
    by (cases q) (simp_all add: list_books_key_def list_patrons_key_def list_patron_loans_key_def build_list_key_def
        build_key_def hashed_key_def key_prefix_def key_text_def key_value_def)
qed

lemma key_prefix_split:
  assumes "key_prefix q @ s = key_prefix q' @ t"
  shows "key_prefix q = key_prefix q' \<and> s = t"
  using assms by (auto simp: key_prefix_def split: library_query.splits)

lemma keyed_members: "map fst (map (\<lambda>(k, w). (k, sorted_keys w)) fs) = map fst fs"
  by auto

lemma distinct_sorted_members: "distinct (map fst ys) \<Longrightarrow> distinct (map fst (sort_key fst ys))"
  by (simp add: distinct_map)

lemma plain_sorted: "plain w \<Longrightarrow> plain (sorted_keys w)"
proof (induction w rule: sorted_keys.induct)
  case (1 ws)
  then show ?case by (auto simp: list_all_iff)
next
  case (2 fs)
  have "distinct (map fst (sort_key fst (map (\<lambda>(k, w). (k, sorted_keys w)) fs)))"
    using 2(2) by (intro distinct_sorted_members) (simp only: keyed_members plain.simps)
  moreover have "\<forall>(k, w)\<in>set fs. plain (sorted_keys w)" using 2 by (auto simp: list_all_iff)
  ultimately show ?case by (auto simp: list_all_iff)
qed simp_all

lemma key_value_plain: "plain (key_value q)"
  by (cases q) (simp_all add: key_value_def page_members_def opt_str_def split: option.split)

lemma sorted_members:
  assumes "sorted_keys (WObj a) = sorted_keys (WObj b)" "distinct (map fst a)" "distinct (map fst b)"
  shows "map_option sorted_keys (map_of a k) = map_option sorted_keys (map_of b k)"
proof -
  let ?s = "\<lambda>xs. map (\<lambda>(k, w). (k, sorted_keys w)) xs"
  have same: "map_of (sort_key fst (?s xs)) = map_of (?s xs)" if "distinct (map fst xs)" for xs
    by (intro map_of_inject_set [THEN iffD2] distinct_sorted_members) (simp_all only: keyed_members that set_sort)
  have members: "map_option sorted_keys (map_of xs k) = map_of (?s xs) k" for xs :: "(string \<times> wire) list"
    by (induction xs) auto
  have sorted: "sort_key fst (?s a) = sort_key fst (?s b)" using assms(1) by simp
  have "map_of (?s a) k = map_of (?s b) k" by (simp only: same [OF assms(2), symmetric] same [OF assms(3), symmetric] sorted)
  then show ?thesis by (simp only: members)
qed

lemma opt_str_inj: "opt_str a = opt_str b \<longleftrightarrow> a = b"
  by (simp add: opt_str_def split: option.splits)

lemma sorted_opt_str: "sorted_keys (opt_str v) = opt_str v"
  by (simp add: opt_str_def split: option.splits)

lemmas key_simps = key_value_def key_prefix_def page_members_def sorted_opt_str opt_str_inj

lemma key_value_inj:
  assumes "key_prefix q = key_prefix q'" "sorted_keys (key_value q) = sorted_keys (key_value q')"
  shows "q = q'"
proof (cases q)
  case (ListBooks f limit offset cursor)
  with assms(1) obtain f' limit' offset' cursor' where q': "q' = ListBooks f' limit' offset' cursor'"
    by (cases q') (simp_all add: key_prefix_def)
  note m = sorted_members [OF assms(2) [unfolded ListBooks q' key_value_def library_query.case]]
  have "f = f'" using m [of "''only_available''"] m [of "''only_borrowed''"] m [of "''author_contains''"] m [of "''title_contains''"]
    by (intro book_filters.equality) (simp_all add: key_simps)
  moreover have "limit = limit'" "offset = offset'" "cursor = cursor'"
    using m [of "''limit''"] m [of "''offset''"] m [of "''cursor''"] by (simp_all add: key_simps)
  ultimately show ?thesis using ListBooks q' by simp
next
  case (ListPatrons f limit offset cursor)
  with assms(1) obtain f' limit' offset' cursor' where q': "q' = ListPatrons f' limit' offset' cursor'"
    by (cases q') (simp_all add: key_prefix_def)
  note m = sorted_members [OF assms(2) [unfolded ListPatrons q' key_value_def library_query.case]]
  have "f = f'" using m [of "''only_suspended''"] m [of "''membership_tier''"]
    by (intro patron_filters.equality) (simp_all add: key_simps)
  moreover have "limit = limit'" "offset = offset'" "cursor = cursor'"
    using m [of "''limit''"] m [of "''offset''"] m [of "''cursor''"] by (simp_all add: key_simps)
  ultimately show ?thesis using ListPatrons q' by simp
next
  case (ListPatronLoans p a limit offset cursor)
  with assms(1) obtain p' a' limit' offset' cursor' where q': "q' = ListPatronLoans p' a' limit' offset' cursor'"
    by (cases q') (simp_all add: key_prefix_def)
  note m = sorted_members [OF assms(2) [unfolded ListPatronLoans q' key_value_def library_query.case]]
  have "p = p'" "a = a'" using m [of "''patron_id''"] m [of "''only_active''"] by (simp_all add: key_simps)
  moreover have "limit = limit'" "offset = offset'" "cursor = cursor'"
    using m [of "''limit''"] m [of "''offset''"] m [of "''cursor''"] by (simp_all add: key_simps)
  ultimately show ?thesis using ListPatronLoans q' by simp
qed (use assms in \<open>cases q'; simp add: key_simps\<close>)+

lemma keys_differ:
  assumes "query_key pl q = query_key pl q'"
    and "pl_sha pl (key_text pl q) = pl_sha pl (key_text pl q') \<Longrightarrow> key_text pl q = key_text pl q'"
  shows "q = q'"
proof -
  have "key_prefix q = key_prefix q'" "pl_sha pl (key_text pl q) = pl_sha pl (key_text pl q')"
    using assms(1) key_prefix_split by (auto simp: query_key_form)
  moreover from assms(2) [OF this(2)] have "sorted_keys (key_value q) = sorted_keys (key_value q')"
    unfolding key_text_def json_dumps_def by (intro json_text_inj plain_sorted key_value_plain)
  ultimately show ?thesis by (intro key_value_inj)
qed


section \<open>Properties\<close>

text \<open>What a handler makes of the answer of a query task.\<close>

definition from_answer :: "(wire \<Rightarrow> query_error + 'a) \<Rightarrow> outcome \<Rightarrow> query_error + 'a" where
  "from_answer hydrate x = (case x of Answer y \<Rightarrow> rbind (raised y) hydrate | _ \<Rightarrow> Inl NoGet)"

lemma read_through_query:
  "read_through pl cl (Inr key) hydrate = io_bind (query_task pl cl key None) (\<lambda>x. Ret (from_answer hydrate x))"
  by (simp add: read_through_def query_task_def io_bind_assoc from_answer_def)

text \<open>
  C5: A query of a book, patron or loan, or of a page of them, that is started after a command whose cache fence was
  persisted returns exactly what its repository finds in the state that the command left or a later one:
  through the cache, its JSON texts and the hydration of the read models nothing is lost or changed.
\<close>

theorem queries_read_committed_state:
  assumes "setting_ok c" and "cache_initial (the_server c) w\<^sub>0"
    and "cache_reachable (the_server c) (the_platform c) (the_client c) (the_load c) w\<^sub>0 (w, ts)"
    and "(t, Ret (Executed (Inr v) (Some True) i)) \<in> set ts" and "t = Command p ns \<or> t = Projection p ns"
    and "(cache_step (the_server c) (the_platform c) (the_client c) (the_load c))\<^sup>*\<^sup>* (w, ts) (w', ts')"
    and "length ts \<le> j" and "j < length ts'" and "ts' ! j = (Query n key since, Ret (Answer (Inr u)))"
    and "space_of key = ns" and "query_key (the_platform c) q = Inr key"
    and "\<forall>d. the_load c d key = query_load (the_platform c) (side d) q"
  shows "\<exists>m a. i \<le> m \<and> m < length (history w') \<and> hydrated (the_platform c) q u = Inr a
    \<and> in_repository (the_platform c) (side (history w' ! m)) q = Some a"
proof -
  obtain m where m: "i \<le> m" "m < length (history w')" "the_load c (history w' ! m) key = Inr u"
    using committed_data_served [OF assms(1-10)] by blast
  then have "query_load (the_platform c) (side (history w' ! m)) q = Inr u" using assms(12) by simp
  from hydrated_load [OF this] m(1,2) show ?thesis by blast
qed

text \<open>
  C15: Different queries have different cache keys, unless the digest collides on the two texts it is applied to: no
  filter, limit, offset, cursor or identity is left out of a key, and no two query kinds share one.
\<close>

theorem queries_have_own_keys:
  assumes "q \<noteq> q'"
    and "pl_sha pl (key_text pl q) = pl_sha pl (key_text pl q') \<Longrightarrow> key_text pl q = key_text pl q'"
  shows "query_key pl q \<noteq> query_key pl q'"
  using keys_differ [of pl q q'] assms by blast

end
