(* ===== verification/CacheScenarios.thy ===== *)
theory CacheScenarios
  imports QueryHandlers
begin

text \<open>
  Concrete runs of the cache: an executable scheduler for a sample server, sound for the step
  relation, and on it the witness of the main property and two runs that lose the fence.
\<close>

section \<open>A sample server and a scheduler\<close>

type_synonym sample_world = "(string \<Rightarrow> string option, nat) cache_world"

text \<open>
  The server is a map; a command may fail without effect. With \<open>lossy\<close> any key may be evicted, as
  under the \<open>allkeys-lru\<close> policy of the repository's \<open>docker-compose.yaml\<close>.
\<close>

definition sample_server :: "bool \<Rightarrow> (string \<Rightarrow> string option) redis_server" where
  "sample_server lossy = \<lparr>srv_get = (\<lambda>m. m),
     srv_exec = (\<lambda>m c m' r. r = Failed \<and> m' = m \<or> redis_reply c m r \<and> m' = redis_effect c m),
     srv_expire = (\<lambda>m m'. lossy \<and> (\<exists>k. m' = m(k := None)))\<rparr>"

text \<open>The part of it that the scheduler evaluates.\<close>

definition reader :: "(string \<Rightarrow> string option) redis_server" where
  "reader = \<lparr>srv_get = (\<lambda>m. m), srv_exec = (\<lambda>m c m' r. False), srv_expire = (\<lambda>m m'. False)\<rparr>"

definition sample_client :: redis_client where
  "sample_client = redis_client 120 True (1 / 10)"

definition plain_platform :: platform where
  "plain_platform = \<lparr>pl_sha = (\<lambda>s. s), pl_float = (\<lambda>r. []), pl_repr = (\<lambda>w. []), pl_from_iso = (\<lambda>s. None),
     pl_collate = (\<lambda>s. s), pl_lower = py_lower\<rparr>"

text \<open>
  The data is a number: the version of the one book, which is there from version 0 and reserved
  from version 1 on. The query of that book reads it; the query with any other key reads the number.
\<close>

definition shelf :: "nat \<Rightarrow> read_side" where
  "shelf d = \<lparr>rs_env = \<lparr>fresh = False, search = (\<lambda>r. Inl CircuitBreakerOpenException), count_docs = (\<lambda>n q. Inl CircuitBreakerOpenException)\<rparr>,
     rs_books = [\<lparr>br_id = ''b1'', br_title = ''Dune'', br_author = ''Herbert'', br_status = (if d = 0 then ''available'' else ''reserved''),
       br_reserved_at = (if d = 0 then None else Some 10), br_borrowed_at = None, br_return_due_date = None,
       br_reservation_id = None, br_reservation_generation = int d, br_reserved_patron_id = None, br_reserved_patron_email = None,
       br_current_loan_id = None, br_last_completed_loan_id = None, br_version = int d\<rparr>],
     rs_patrons = [], rs_loans = []\<rparr>"

definition dune_key :: string where
  "dune_key = ''book:item:v1:[\"b1\"]''"

definition sample_load :: "nat \<Rightarrow> string \<Rightarrow> query_exn + wire" where
  "sample_load d key = (if key = dune_key then query_load plain_platform (shelf d) (GetBook ''b1'') else Inr (WInt (int d)))"

fun sample_reply :: "redis_command \<Rightarrow> (string \<Rightarrow> string option) \<Rightarrow> reply" where
  "sample_reply (GET k) m = Bulk (m k)"
| "sample_reply (SETEX k s v) m = Ready"
| "sample_reply (SET_NX k v ms) m = Granted (m k = None)"
| "sample_reply (INCR k) m = (case counter m k of Some n \<Rightarrow> Number (n + 1) | None \<Rightarrow> Failed)"
| "sample_reply (SCAN p) m = Names []"
| "sample_reply PING m = Ready"
| "sample_reply c m = Number 0"

fun sample_exec :: "bool \<Rightarrow> nat \<Rightarrow> sample_world \<Rightarrow> activity \<Rightarrow> cache_op \<Rightarrow> (sample_world \<times> reply) option" where
  "sample_exec fails d w t (Redis c) =
     (let r = (if fails then Failed else sample_reply c (server w));
          m = (if r = Failed then server w else redis_effect c (server w))
      in Some ((served reader m w)\<lparr>late := if r = Failed then c # late w else late w\<rparr>, r))"
| "sample_exec fails d w t (Random spread) = (if 0 \<le> spread then Some (w, Sample 0) else None)"
| "sample_exec fails d w t Token = Some (w, Fresh ''token'')"
| "sample_exec fails d w t (Source key) = Some (w, Loaded (sample_load (last (history w)) key))"
| "sample_exec fails d w t Operation =
     Some (w\<lparr>history := history w @ [d]\<rparr>, Committed (Inr WNull) (length (history w)))"
| "sample_exec fails d w t (IsUnsafe ns) = Some (w, Flag (ns \<in> unsafe (adapters w (process_of t))))"
| "sample_exec fails d w t (MarkUnsafe ns) =
     Some (set_adapter (process_of t) (\<lambda>a. a\<lparr>unsafe := insert ns (unsafe a)\<rparr>) w, Ready)"
| "sample_exec fails d w t (ClearUnsafe ns) =
     Some (set_adapter (process_of t) (\<lambda>a. a\<lparr>unsafe := unsafe a - {ns}\<rparr>) w, Ready)"
| "sample_exec fails d w t (StartRecovery ns) =
     Some (set_adapter (process_of t) (\<lambda>a. a\<lparr>recovering := insert ns (recovering a)\<rparr>) w, Ready)"
| "sample_exec fails d w t (Sleep x) = Some (w, Ready)"
| "sample_exec fails d w t (LockFlight k) =
     (if k \<in> flights (adapters w (process_of t)) then None
      else Some (set_adapter (process_of t) (\<lambda>a. a\<lparr>flights := insert k (flights a)\<rparr>) w, Ready))"
| "sample_exec fails d w t (UnlockFlight k) =
     Some (set_adapter (process_of t) (\<lambda>a. a\<lparr>flights := flights a - {k}\<rparr>) w, Ready)"
| "sample_exec fails d w t (LockRecovery ns) =
     (if ns \<in> recovery_locks (adapters w (process_of t)) then None
      else Some (set_adapter (process_of t) (\<lambda>a. a\<lparr>recovery_locks := insert ns (recovery_locks a)\<rparr>) w, Ready))"
| "sample_exec fails d w t q = None"

text \<open>A schedule: start a query or a command, let a task take some steps (failing the given commands), or evict a key.\<close>

datatype action = StartQuery nat string | StartCommand nat string | Recover nat string | Go nat nat | Fail nat | Evict string

definition data_after :: "sample_world \<Rightarrow> nat" where
  "data_after w = length (history w)"

type_synonym sample_system = "sample_world \<times> (activity \<times> outcome task) list"

definition go :: "bool \<Rightarrow> nat \<Rightarrow> sample_system \<Rightarrow> sample_system option" where
  "go fails i s =
     (if i < length (snd s) then
        case snd s ! i of
          (t, Await q k) \<Rightarrow>
            (case sample_exec fails (data_after (fst s)) (fst s) t q of
               Some (w, r) \<Rightarrow> Some (w, (snd s)[i := (t, k r)])
             | None \<Rightarrow> None)
        | _ \<Rightarrow> None
      else None)"

fun go_on :: "nat \<Rightarrow> nat \<Rightarrow> sample_system \<Rightarrow> sample_system option" where
  "go_on i 0 s = Some s"
| "go_on i (Suc n) s = (case go False i s of Some s' \<Rightarrow> go_on i n s' | None \<Rightarrow> None)"

fun act :: "action \<Rightarrow> sample_system \<Rightarrow> sample_system option" where
  "act (StartQuery p key) (w, ts) =
     (if cache_key key
      then Some (w, ts @ [(Query p key (fence w (space_of key) (gen reader w (space_of key))),
                     query_task plain_platform sample_client key None)])
      else None)"
| "act (StartCommand p ns) (w, ts) =
     (if ns \<in> set cache_namespaces then Some (w, ts @ [(Command p ns, command_task sample_client ns)]) else None)"
| "act (Recover p ns) (w, ts) =
     (if ns \<in> set cache_namespaces \<and> ns \<in> recovering (adapters w p)
      then Some (w, ts @ [(Recovery p ns, recovery_task sample_client ns 1)]) else None)"
| "act (Go i n) s = go_on i n s"
| "act (Fail i) s = go True i s"
| "act (Evict k) (w, ts) = Some (w\<lparr>server := (server w)(k := None)\<rparr>, ts)"

fun acts :: "action list \<Rightarrow> sample_system \<Rightarrow> sample_system option" where
  "acts [] s = Some s"
| "acts (a # as) s = (case act a s of Some s' \<Rightarrow> acts as s' | None \<Rightarrow> None)"

definition sample_start :: sample_world where
  "sample_start = \<lparr>server = (\<lambda>k. None), late = [], history = [0],
     adapters = (\<lambda>p. \<lparr>unsafe = {}, recovering = {}, flights = {}, recovery_locks = {}\<rparr>), fence = (\<lambda>ns n. 0)\<rparr>"

section \<open>Soundness\<close>

abbreviation sample_step where
  "sample_step lossy \<equiv> cache_step (sample_server lossy) plain_platform sample_client sample_load"

lemma sample_generation: "generation_at (sample_server lossy) = generation_at reader"
  by (intro ext) (simp add: generation_at_def sample_server_def reader_def)

lemma sample_served: "served reader m w = served (sample_server lossy) m w"
  by (simp add: served_def sample_generation [of lossy])

lemma sample_exec_redis:
  "(if fails then Failed else sample_reply c m) \<noteq> Failed \<Longrightarrow> redis_reply c m (if fails then Failed else sample_reply c m)"
  by (cases c) (auto split: option.splits if_splits)

lemma sample_exec_sound:
  assumes "sample_exec fails d w t q = Some (w', r)"
  shows "cache_exec (sample_server lossy) sample_load w t q w' r"
proof (cases q)
  case (Redis c)
  let ?r = "if fails then Failed else sample_reply c (server w)"
  let ?m = "if ?r = Failed then server w else redis_effect c (server w)"
  have "srv_exec (sample_server lossy) (server w) c ?m ?r"
    using sample_exec_redis [of fails c "server w"] by (auto simp: sample_server_def)
  from cache_exec.redis [OF this, of sample_load t] assms Redis show ?thesis
    by (auto simp: Let_def sample_served [where lossy=lossy])
qed (use assms in \<open>auto intro: cache_exec.intros split: if_splits\<close>)

lemma go_sound:
  assumes "go fails i s = Some s'"
  shows "sample_step lossy s s'"
proof -
  obtain t q k where i: "i < length (snd s)" "snd s ! i = (t, Await q k)"
    using assms by (auto simp: go_def split: if_splits prod.splits io.splits)
  with assms obtain w r where x: "sample_exec fails (data_after (fst s)) (fst s) t q = Some (w, r)"
    "s' = (w, (snd s)[i := (t, k r)])" by (auto simp: go_def split: option.splits)
  from system_step.resumed [where exec="cache_exec (sample_server lossy) sample_load", OF i sample_exec_sound [OF x(1)]]
  show ?thesis by (cases s) (simp add: x(2))
qed

lemma act_sound: "act a s = Some s' \<Longrightarrow> lossy \<or> (\<forall>k. a \<noteq> Evict k) \<Longrightarrow> (sample_step lossy)\<^sup>*\<^sup>* s s'"
proof (cases "(a, s)" rule: act.cases)
  case (1 p key w ts)
  moreover assume "act a s = Some s'"
  ultimately show ?thesis
    using cache_start.query [of key "sample_server lossy" plain_platform sample_client w p None]
    by (auto split: if_splits simp: sample_generation [of lossy] intro!: r_into_rtranclp system_step.started)
next
  case (2 p ns w ts)
  moreover assume "act a s = Some s'"
  ultimately show ?thesis
    by (auto split: if_splits intro!: r_into_rtranclp system_step.started cache_start.command)
next
  case (3 p ns w ts)
  moreover assume "act a s = Some s'"
  ultimately show ?thesis
    by (auto split: if_splits intro!: r_into_rtranclp system_step.started cache_start.recovery)
next
  case (4 i n s2)
  have "go_on i n s2 = Some s' \<Longrightarrow> (sample_step lossy)\<^sup>*\<^sup>* s2 s'"
    by (induction n arbitrary: s2) (auto split: option.splits intro: converse_rtranclp_into_rtranclp go_sound)
  moreover assume "act a s = Some s'"
  ultimately show ?thesis using 4 by simp
next
  case (5 i s2)
  moreover assume "act a s = Some s'"
  ultimately show ?thesis by (auto intro!: r_into_rtranclp go_sound)
next
  case (6 k w ts)
  moreover assume "act a s = Some s'" "lossy \<or> (\<forall>k. a \<noteq> Evict k)"
  moreover have "cache_env (sample_server True) w (w\<lparr>server := (server w)(k := None)\<rparr>)"
    by (rule cache_env.expiry) (auto simp: sample_server_def)
  ultimately show ?thesis by (auto intro!: r_into_rtranclp system_step.environment)
qed

lemma acts_sound:
  "acts as s = Some s' \<Longrightarrow> lossy \<or> (\<forall>k. Evict k \<notin> set as) \<Longrightarrow> (sample_step lossy)\<^sup>*\<^sup>* s s'"
proof (induction as arbitrary: s)
  case (Cons a as)
  then obtain s1 where s1: "act a s = Some s1" "acts as s1 = Some s'" by (auto split: option.splits)
  from s1(1) Cons.prems(2) have "(sample_step lossy)\<^sup>*\<^sup>* s s1" by (intro act_sound) auto
  moreover have "lossy \<or> (\<forall>k. Evict k \<notin> set as)" using Cons.prems(2) by auto
  with Cons.IH [OF s1(2)] have "(sample_step lossy)\<^sup>*\<^sup>* s1 s'" .
  ultimately show ?case by (rule rtranclp_trans)
qed simp

lemma steps_reachable:
  "(system_step env start exec)\<^sup>*\<^sup>* s s' \<Longrightarrow> reachable env start exec w s \<Longrightarrow> reachable env start exec w s'"
  by (induction rule: rtranclp_induct) (auto intro: reachable.step)

section \<open>Runs\<close>

definition book_key :: string where "book_key = ''book:list:v1:0''"

definition dune_payload :: "nat \<Rightarrow> wire" where
  "dune_payload d = WObj (book_members (book_model_of_row (hd (rs_books (shelf d)))))"

lemma sample_loads: "sample_load d book_key = Inr (WInt (int d))" "sample_load d dune_key = Inr (dune_payload d)"
  by (simp_all add: sample_load_def book_key_def dune_key_def dune_payload_def find_book_by_id_def found_or_def shelf_def)

lemma book_key_facts: "cache_key book_key" "space_of book_key = ''book''" "key_namespace book_key = Inr ''book''"
  by (simp_all add: book_key_def cache_key_def cache_namespaces_def space_of_def key_namespace_def
      cache_namespace_def is_lower_def is_digit_def code_def)

lemma sample_enabled: "enabled sample_client" "jitter_ratio sample_client = 1 / 10" "default_ttl sample_client = 120"
  by (simp_all add: sample_client_def redis_client_def)

lemma book_valid: "cache_namespace ''book'' = Inr ''book''" by (rule namespace_valid) (simp add: cache_namespaces_def)

lemma py_int10_show_int: "0 \<le> i \<Longrightarrow> py_int10 (show_int i) = Some i"
  using py_int10_show_nat [of "nat i"] show_int_nat [of "nat i"] by simp

lemma book_keys:
  "versioned book_key n \<noteq> generation_key ns" "generation_key ns \<noteq> versioned book_key n"
  "lock_key pl k \<noteq> versioned book_key n" "versioned book_key n \<noteq> lock_key pl k"
  "lock_key pl k \<noteq> generation_key ns" "generation_key ns \<noteq> lock_key pl k"
  using cache_key_prefix [OF book_key_facts(1)] lock_key_kind lock_not_generation generation_key_kind by metis+

lemma lock_keys: "lock_key plain_platform k = lock_key plain_platform k' \<longleftrightarrow> k = k'"
  by (simp add: lock_key_def plain_platform_def)

lemma served_fields:
  "server (served srv m w) = m" "history (served srv m w) = history w" "adapters (served srv m w) = adapters w"
  by (simp_all add: served_def)

lemma adapter_fields:
  "server (set_adapter p f w) = server w" "history (set_adapter p f w) = history w"
  "adapters (set_adapter p f w) = (adapters w)(p := f (adapters w p))"
  by (simp_all add: set_adapter_def)

lemma number_stored: "deserialized plain_platform (serialized plain_platform (WInt i)) = Some (WInt i)"
  "serialized plain_platform (WInt i) \<noteq> []"
  by (simp_all add: deserialized_serialized serialized_nonempty)

lemmas run_simps = go_def recovery_task_def query_task_def command_task_def handle_invalidating_def get_or_set_def is_unsafe_def
  get_namespace_generation_def redis_get_def source_def invalidate_all_def advance_generation_def
  bump_namespace_generation_def redis_delete_pattern_def recover_namespace_once_def in_flight_def take_lease_def
  try_acquire_lock_def release_lock_def load_and_store_def store_loaded_def redis_set_def effective_ttl_def io_finally_def
  sample_enabled book_valid sample_start_def data_after_def eval_nat_numeral counter_def served_fields adapter_fields
  cache_namespaces_def Let_def book_key_facts py_int10_show_int book_keys lock_keys number_stored versioned_inject sample_loads

lemma dune_storable: "storable plain_platform (dune_payload d)"
  by (simp add: dune_payload_def shelf_def book_members_def book_model_of_row_def opt_date_def datetime_type_key_def)

text \<open>The tasks of a run when it is over: their cache keys and programs.\<close>

definition tasks_after :: "action list \<Rightarrow> (string option \<times> outcome task) list option" where
  "tasks_after as = map_option (\<lambda>s. map (\<lambda>(t, p). (key_of t, p)) (snd s)) (acts as (sample_start, []))"

text \<open>When the counter is evicted, the answer from before the command is served after it.\<close>

lemma evicted_counter_serves_old_data:
  "tasks_after [StartQuery 0 book_key, Go 0 14, StartCommand 0 ''book'', Go 1 4, Evict (generation_key ''book''),
       StartQuery 1 book_key, Go 2 3]
   = Some [(Some book_key, Ret (Answer (Inr (WInt 0)))), (None, Ret (Executed (Inr WNull) (Some True) 1)),
       (Some book_key, Ret (Answer (Inr (WInt 0))))]"
  by (simp add: tasks_after_def run_simps)

text \<open>Phases of runs: a command that fails to persist its fence, a recovery, a query that fills or hits the cache.\<close>

abbreviation entry_key :: string where "entry_key \<equiv> versioned book_key 1"

lemma failed_command:
  assumes "history w = h" "length h = i" "ts ! j = (Command 0 ''book'', command_task sample_client ''book'')" "j < length ts"
  shows "\<exists>w'. acts [Go j 1, Fail j, Go j 3] (w, ts)
      = Some (w', ts[j := (Command 0 ''book'', Ret (Executed (Inr WNull) (Some False) i))])
    \<and> history w' = h @ [i] \<and> server w' = server w \<and> unsafe (adapters w' 0) = insert ''book'' (unsafe (adapters w 0))
    \<and> ''book'' \<in> recovering (adapters w' 0) \<and> flights (adapters w' 0) = flights (adapters w 0)
    \<and> recovery_locks (adapters w' 0) = recovery_locks (adapters w 0) \<and> adapters w' 1 = adapters w 1"
  using assms by (simp add: run_simps)

lemma recovery_incremented:
  assumes "n = length ts" "''book'' \<in> unsafe (adapters w 0)" "''book'' \<in> recovering (adapters w 0)" "''book'' \<notin> recovery_locks (adapters w 0)"
    "server w (generation_key ''book'') = None"
  shows "\<exists>w' k. acts [Recover 0 ''book'', Go n 6] (w, ts) = Some (w', ts @ [(Recovery 0 ''book'', Await (ClearUnsafe ''book'') k)])
    \<and> history w' = history w \<and> server w' = (server w)(generation_key ''book'' \<mapsto> show_int 1)
    \<and> unsafe (adapters w' 0) = unsafe (adapters w 0) \<and> flights (adapters w' 0) = flights (adapters w 0)
    \<and> adapters w' 1 = adapters w 1"
  using assms by (simp add: run_simps)

lemma query_fills:
  assumes "n = length ts" "unsafe (adapters w 1) = {}" "flights (adapters w 1) = {}" "server w (generation_key ''book'') = Some (show_int 1)"
    "server w entry_key = None" "server w (lock_key plain_platform entry_key) = None"
  shows "\<exists>w' since. acts [StartQuery 1 book_key, Go n 14] (w, ts)
      = Some (w', ts @ [(Query 1 book_key since, Ret (Answer (Inr (WInt (int (last (history w)))))))])
    \<and> history w' = history w \<and> server w' (generation_key ''book'') = Some (show_int 1)
    \<and> server w' entry_key = Some (serialized plain_platform (WInt (int (last (history w)))))
    \<and> adapters w' 0 = adapters w 0"
  using assms by (simp add: run_simps)

lemma mark_removed:
  assumes "j < length ts" "ts ! j = (Recovery 0 ''book'', Await (ClearUnsafe ''book'') k)"
  shows "\<exists>w' ts'. acts [Go j 1] (w, ts) = Some (w', ts') \<and> length ts' = length ts \<and> (\<forall>i. i \<noteq> j \<longrightarrow> ts' ! i = ts ! i)
    \<and> server w' = server w \<and> history w' = history w \<and> unsafe (adapters w' 0) = unsafe (adapters w 0) - {''book''}"
  using assms by (simp add: run_simps)

lemma query_hits:
  assumes "n = length ts" "unsafe (adapters w 0) = {}" "server w (generation_key ''book'') = Some (show_int 1)"
    "server w entry_key = Some (serialized plain_platform (WInt v))"
  shows "\<exists>w' since. acts [StartQuery 0 book_key, Go n 3] (w, ts)
      = Some (w', ts @ [(Query 0 book_key since, Ret (Answer (Inr (WInt v))))])"
  using assms by (simp add: run_simps)

text \<open>
  Two commands of a process fail to persist their fence. The background task recovers the
  first fence; before its reply is processed, a query elsewhere fills the new generation and the
  second command commits, fails its increment and marks the name space. The recovery then removes
  the mark, and the next query of that process gets the data from before the second command.
\<close>

lemma acts_append: "acts (as @ bs) s = (case acts as s of Some s' \<Rightarrow> acts bs s' | None \<Rightarrow> None)"
  by (induction as arbitrary: s) (auto split: option.split)

lemma recovery_forgets_later_command:
  "\<exists>w ts since. (sample_step False)\<^sup>*\<^sup>* (sample_start, []) (w, ts)
     \<and> ts ! 3 = (Command 0 ''book'', Ret (Executed (Inr WNull) (Some False) 2))
     \<and> ts ! 4 = (Query 0 book_key since, Ret (Answer (Inr (WInt 1))))"
proof -
  let ?cmd = "(Command 0 ''book'', command_task sample_client ''book'')"
  let ?failed = "\<lambda>i. (Command 0 ''book'', Ret (Executed (Inr WNull) (Some False) i))"
  have start: "acts [StartCommand 0 ''book''] (sample_start, []) = Some (sample_start, [?cmd])"
    by (simp add: cache_namespaces_def)
  obtain w1 where 1: "acts [Go 0 1, Fail 0, Go 0 3] (sample_start, [?cmd]) = Some (w1, [?failed 1])" "history w1 = [0, 1]"
    "server w1 = (\<lambda>k. None)" "unsafe (adapters w1 0) = {''book''}" "''book'' \<in> recovering (adapters w1 0)"
    "recovery_locks (adapters w1 0) = {}" "adapters w1 1 = adapters sample_start 1"
    using failed_command [of sample_start "[0]" 1 "[?cmd]" 0] by (auto simp: sample_start_def simp del: acts.simps)
  obtain w2 k where 2: "acts [Recover 0 ''book'', Go 1 6] (w1, [?failed 1])
      = Some (w2, [?failed 1, (Recovery 0 ''book'', Await (ClearUnsafe ''book'') k)])" "history w2 = [0, 1]"
    "server w2 = [generation_key ''book'' \<mapsto> show_int 1]" "unsafe (adapters w2 0) = {''book''}"
    "adapters w2 1 = adapters sample_start 1"
    using recovery_incremented [of 1 "[?failed 1]" w1] 1 by (auto simp del: acts.simps)
  let ?mark = "(Recovery 0 ''book'', Await (ClearUnsafe ''book'') k)"
  have "unsafe (adapters w2 1) = {}" "flights (adapters w2 1) = {}" using 2(5) by (simp_all add: sample_start_def)
  then obtain w3 s where 3: "acts [StartQuery 1 book_key, Go 2 14] (w2, [?failed 1, ?mark])
      = Some (w3, [?failed 1, ?mark, (Query 1 book_key s, Ret (Answer (Inr (WInt 1))))])" "history w3 = [0, 1]"
    "server w3 (generation_key ''book'') = Some (show_int 1)"
    "server w3 entry_key = Some (serialized plain_platform (WInt 1))" "unsafe (adapters w3 0) = {''book''}"
    using query_fills [of 2 "[?failed 1, ?mark]" w2] 2 by (auto simp: book_keys simp del: acts.simps)
  let ?q = "(Query 1 book_key s, Ret (Answer (Inr (WInt 1))))"
  have again: "acts [StartCommand 0 ''book''] (w3, [?failed 1, ?mark, ?q]) = Some (w3, [?failed 1, ?mark, ?q, ?cmd])"
    by (simp add: cache_namespaces_def)
  obtain w4 where 4: "acts [Go 3 1, Fail 3, Go 3 3] (w3, [?failed 1, ?mark, ?q, ?cmd]) = Some (w4, [?failed 1, ?mark, ?q, ?failed 2])"
    "server w4 = server w3" "unsafe (adapters w4 0) = {''book''}"
    using failed_command [of w3 "[0, 1]" 2 "[?failed 1, ?mark, ?q, ?cmd]" 3] 3 by (auto simp: eval_nat_numeral simp del: acts.simps)
  obtain w5 ts where 5: "acts [Go 1 1] (w4, [?failed 1, ?mark, ?q, ?failed 2]) = Some (w5, ts)" "length ts = 4"
    "ts ! 3 = ?failed 2" "server w5 = server w3" "unsafe (adapters w5 0) = {}"
    using mark_removed [of 1 "[?failed 1, ?mark, ?q, ?failed 2]" k w4] 4 by (auto simp del: acts.simps)
  obtain w6 s' where 6: "acts [StartQuery 0 book_key, Go 4 3] (w5, ts) = Some (w6, ts @ [(Query 0 book_key s', Ret (Answer (Inr (WInt 1))))])"
    using query_hits [of 4 ts w5 1] 3(3,4) 5 by (auto simp del: acts.simps)
  have "acts ([StartCommand 0 ''book''] @ [Go 0 1, Fail 0, Go 0 3] @ [Recover 0 ''book'', Go 1 6] @ [StartQuery 1 book_key, Go 2 14]
      @ [StartCommand 0 ''book''] @ [Go 3 1, Fail 3, Go 3 3] @ [Go 1 1] @ [StartQuery 0 book_key, Go 4 3]) (sample_start, [])
    = Some (w6, ts @ [(Query 0 book_key s', Ret (Answer (Inr (WInt 1))))])"
    by (simp only: acts_append start 1(1) 2(1) 3(1) again 4(1) 5(1) 6 option.case)
  from acts_sound [OF this, of False] 5(2,3) show ?thesis
    by (intro exI [of _ w6] exI [of _ "ts @ [(Query 0 book_key s', Ret (Answer (Inr (WInt 1))))]"] exI [of _ s'])
      (simp add: nth_append)
qed

section \<open>The property at work\<close>

definition sample_setting :: "(string \<Rightarrow> string option, nat) cache_setting" where
  "sample_setting = \<lparr>the_server = sample_server False, the_platform = plain_platform,
     the_client = sample_client, the_load = sample_load\<rparr>"

lemma sample_documented: "redis_documented (sample_server False)"
  by (auto simp: redis_documented_def sample_server_def expired_def)

lemma sample_setting_ok: "setting_ok sample_setting"
proof -
  have "storable plain_platform v" if "sample_load d key = Inr v" for d key v
    using that dune_storable sample_loads(2) [of d] by (auto simp: sample_load_def split: if_splits)
  then show ?thesis by (simp add: setting_ok_def sample_setting_def sample_documented sample_enabled)
qed

lemma command_fenced:
  "\<exists>w. acts [StartCommand 0 ''book'', Go 0 4] (sample_start, [])
      = Some (w, [(Command 0 ''book'', Ret (Executed (Inr WNull) (Some True) 1))])
    \<and> history w = [0, 1] \<and> server w = [generation_key ''book'' \<mapsto> show_int 1] \<and> adapters w 1 = adapters sample_start 1"
  by (simp add: run_simps)

theorem cache_serves_committed_data_witness:
  "\<exists>w' m. 1 \<le> m \<and> m < length (history w') \<and> sample_load (history w' ! m) book_key = Inr (WInt 1)
     \<and> (\<exists>ts. acts [StartCommand 0 ''book'', Go 0 4, StartQuery 1 book_key, Go 1 14] (sample_start, []) = Some (w', ts))"
proof -
  obtain w ts where w: "acts [StartCommand 0 ''book'', Go 0 4] (sample_start, []) = Some (w, ts)"
    "ts = [(Command 0 ''book'', Ret (Executed (Inr WNull) (Some True) 1))]"
    "history w = [0, 1]" "server w = [generation_key ''book'' \<mapsto> show_int 1]" "adapters w 1 = adapters sample_start 1"
    using command_fenced by blast
  then have "unsafe (adapters w 1) = {}" "flights (adapters w 1) = {}" by (simp_all add: sample_start_def)
  then obtain w' s where w': "acts [StartQuery 1 book_key, Go 1 14] (w, ts)
      = Some (w', ts @ [(Query 1 book_key s, Ret (Answer (Inr (WInt 1))))])"
    using query_fills [of 1 ts w] w by (auto simp: book_keys simp del: acts.simps)
  have first: "(sample_step False)\<^sup>*\<^sup>* (sample_start, []) (w, ts)" by (rule acts_sound [OF w(1)]) simp
  have "\<exists>m. 1 \<le> m \<and> m < length (history w') \<and> the_load sample_setting (history w' ! m) book_key = Inr (WInt 1)"
  proof (rule cache_serves_committed_data [OF sample_setting_ok])
    show "cache_initial (the_server sample_setting) sample_start"
      by (simp add: cache_initial_def sample_setting_def sample_server_def sample_start_def)
    show "cache_reachable (the_server sample_setting) (the_platform sample_setting) (the_client sample_setting)
        (the_load sample_setting) sample_start (w, ts)"
      using first by (auto simp: sample_setting_def intro: steps_reachable reachable.initial)
    show "(Command 0 ''book'', Ret (Executed (Inr WNull) (Some True) 1)) \<in> set ts" by (simp add: w(2))
    show "(cache_step (the_server sample_setting) (the_platform sample_setting) (the_client sample_setting)
        (the_load sample_setting))\<^sup>*\<^sup>* (w, ts) (w', ts @ [(Query 1 book_key s, Ret (Answer (Inr (WInt 1))))])"
      using acts_sound [OF w', of False] by (simp add: sample_setting_def)
  qed (auto simp: book_key_facts)
  moreover have "acts ([StartCommand 0 ''book'', Go 0 4] @ [StartQuery 1 book_key, Go 1 14]) (sample_start, [])
      = Some (w', ts @ [(Query 1 book_key s, Ret (Answer (Inr (WInt 1))))])"
    by (simp only: acts_append w(1) w' option.case)
  ultimately show ?thesis by (auto simp: sample_setting_def)
qed

end
