(* ===== verification/SearchScenarios.thy ===== *)
theory SearchScenarios
  imports SearchTheorems CacheScenarios
begin

text \<open>
  A concrete run around the search index: an executable scheduler for a sample engine, sound for
  the step relation, and on it a rebuild during which a row changes, with the property about
  processed changes at work.
\<close>

section \<open>A sample engine\<close>

fun bulk_run :: "(string \<times> wire \<times> int option \<times> document) list \<Rightarrow> es_view \<Rightarrow> es_view \<times> string option list" where
  "bulk_run [] v = (v, [])"
| "bulk_run ((name, i, version, d) # items) v =
     (let (v1, r) = write_doc name i version (Some d) v; (v2, es) = bulk_run items v1
      in (v2, (case r of
           Acknowledged \<Rightarrow> None
         | Conflict \<Rightarrow> Some ''version_conflict_engine_exception''
         | _ \<Rightarrow> Some ''unavailable'') # es))"

fun run_command :: "es_command \<Rightarrow> es_view \<Rightarrow> es_view \<times> es_reply" where
  "run_command (IndexDoc name i d version) v = write_doc name i version (Some d) v"
| "run_command (DeleteDoc name i version) v = write_doc name i version None v"
| "run_command (Bulk items) v = (case bulk_run items v of (v', es) \<Rightarrow> (v', Items es))"
| "run_command (IndexExists name) v = (v, Boolean (existing v name \<or> aliases v name \<noteq> []))"
| "run_command (CreateIndex index body) v =
     (if existing v index then (v, EsFailed) else (v\<lparr>existing := (existing v)(index := True)\<rparr>, Acknowledged))"
| "run_command (DeleteIndex index) v = (if aliases v index = [] then (drop_index index v, Acknowledged) else (v, EsFailed))"
| "run_command (AliasExists name) v = (v, Boolean (aliases v name \<noteq> []))"
| "run_command (GetAlias name) v = (v, if aliases v name = [] then NotFound else Indices (aliases v name))"
| "run_command (UpdateAliases as) v = (case act_aliases as v of None \<Rightarrow> (v, EsFailed) | Some v' \<Rightarrow> (v', Acknowledged))"
| "run_command (Refresh index) v = (v, Acknowledged)"
| "run_command q v = (v, EsFailed)"

definition sample_engine :: "es_view search_engine" where
  "sample_engine = \<lparr>es_view = (\<lambda>v. v), es_exec = (\<lambda>v q v' r. (v', r) = run_command q v \<or> v' = v \<and> r = EsFailed),
     es_forget = (\<lambda>v v'. False)\<rparr>"

definition book_row :: "string \<Rightarrow> int \<Rightarrow> document" where
  "book_row i v = [(''id'', WStr i), (''title'', WStr ''Kindred''), (''version'', WInt v)]"

definition sample_search :: "es_view search_setting" where
  "sample_search = \<lparr>engine_of = sample_engine, platform_of = plain_platform, logical = ''books'',
     cdc_row = book_row, sql_row = book_row, skew = (\<lambda>p. rat_of_nat p)\<rparr>"

lemma bulk_run_answers: "bulk_answers items v (fst (bulk_run items v)) (snd (bulk_run items v))"
  by (induction items v rule: bulk_run.induct) (auto simp: Let_def write_doc_def split: prod.splits option.splits)

lemma run_command_effect:
  "run_command q v = (v, EsFailed) \<or> es_effect q v (fst (run_command q v)) (snd (run_command q v))"
  by (cases q) (auto simp: case_prod_beta bulk_run_answers split: option.splits)

lemma sample_engine_documented: "es_documented sample_engine"
proof -
  have "r = EsFailed \<and> (v' = v \<or> (\<exists>r'. es_effect q v v' r')) \<or> es_effect q v v' r" if "(v', r) = run_command q v" for q v v' r
    using run_command_effect [of q v] that [symmetric] by auto
  then show ?thesis by (auto simp: es_documented_def sample_engine_def)
qed

lemma sample_search_ok: "search_setting_ok sample_search"
  using sample_engine_documented
  by (simp add: search_setting_ok_def sample_search_def plain_platform_def row_ok_def book_row_def row_to_dict_def dget_def inj_def)

lemma sample_fields:
  "view sample_search w = engine w" "targets sample_search w = set (aliases (engine w) ''books__reindex_target'')"
  "logical sample_search = ''books''" "platform_of sample_search = plain_platform"
  "cdc_row sample_search = book_row" "sql_row sample_search = book_row" "skew sample_search p = rat_of_nat p"
  by (simp_all add: sample_search_def view_def sample_engine_def targets_def target_alias_def)

section \<open>A scheduler\<close>

type_synonym engine_world = "es_view search_world"

fun sample_request :: "bool \<Rightarrow> engine_world \<Rightarrow> search_activity \<Rightarrow> search_op \<Rightarrow> (engine_world \<times> search_reply) option" where
  "sample_request fails w t (Es q) =
     (if fails then Some (with_engine sample_search (engine w) w, Outcome EsFailed)
      else case run_command q (engine w) of (v', r) \<Rightarrow> Some (with_engine sample_search v' w, Outcome r))"
| "sample_request fails w t MonotonicClock = Some (w, At (time w + skew sample_search (process_at t)))"
| "sample_request fails w t (CachedTargets name) =
     (if name = ''books'' then Some (w, Known (target_caches w (process_at t))) else None)"
| "sample_request fails w t (CacheTargets name until names) =
     (if name = ''books'' then Some (w\<lparr>target_caches := (target_caches w)(process_at t \<mapsto> (until, names))\<rparr>, Continue) else None)"
| "sample_request fails w t (DropTargets name) =
     (if name = ''books'' then Some (w\<lparr>target_caches := (target_caches w)(process_at t := None)\<rparr>, Continue) else None)"
| "sample_request fails w t (Schedule n) = Some (w, Order [0..<n])"
| "sample_request fails w t (EvictCached entity i) = Some (w, Continue)"
| "sample_request fails w t (SelectRows last_id limit) =
     Some (w, Rows (map (\<lambda>(i, v). book_row i v) (scan_page plain_platform last_id limit (table w))))"
| "sample_request fails w t IndexStamp =
     (if ''books-next'' \<in> index_names w then None
      else Some (w\<lparr>index_names := insert ''books-next'' (index_names w)\<rparr>, Stamp ''next''))"
| "sample_request fails w t (Deadline d) = Some (w, At (time w + d))"
| "sample_request fails w t (WaitUntil x) = (if x \<le> time w then Some (w, Continue) else None)"
| "sample_request fails w t TryAdvisoryLock =
     (case t of
        Rebuild p s \<Rightarrow>
          (if lock w \<noteq> None then Some (w, Lock False)
           else if s \<in> sessions w then None
           else Some (w\<lparr>lock := Some s, sessions := insert s (sessions w)\<rparr>, Lock True))
      | _ \<Rightarrow> None)"
| "sample_request fails w t AdvisoryUnlock =
     (case t of
        Rebuild p s \<Rightarrow> (if lock w = Some s then Some (w\<lparr>lock := None\<rparr>, Lock True) else Some (w, Lock False))
      | _ \<Rightarrow> None)"

datatype search_action = Insert string | Update string int | Pass rat | Deliver nat string int rat | Job nat nat
  | Advance nat nat | Break nat

type_synonym search_system = "engine_world \<times> (search_activity \<times> unit search_task) list"

definition advance :: "bool \<Rightarrow> nat \<Rightarrow> search_system \<Rightarrow> search_system option" where
  "advance fails j s =
     (if j < length (snd s) then
        case snd s ! j of
          (t, Await q k) \<Rightarrow>
            (if alive (fst s) t then
               case sample_request fails (fst s) t q of
                 Some (w, r) \<Rightarrow> Some (w, (snd s)[j := (t, k r)])
               | None \<Rightarrow> None
             else None)
        | _ \<Rightarrow> None
      else None)"

fun advances :: "nat \<Rightarrow> nat \<Rightarrow> search_system \<Rightarrow> search_system option" where
  "advances j 0 s = Some s"
| "advances j (Suc n) s = (case advance False j s of Some s' \<Rightarrow> advances j n s' | None \<Rightarrow> None)"

definition delivery :: "string \<Rightarrow> int \<Rightarrow> unit search_task" where
  "delivery i v = process_record plain_platform False [(''cdc.books'', ''books'')] ''cdc.books'' WNull
     (upsert_record sample_search ''u'' i v WNull)"

definition sample_job :: "unit search_task" where
  "sample_job = reindex_job plain_platform [(''books'', WNull)] False 1 2"

fun search_act :: "search_action \<Rightarrow> search_system \<Rightarrow> search_system option" where
  "search_act (Insert i) (w, ts) =
     (if i \<noteq> [] \<and> i \<notin> fst ` set (changes w)
      then Some (w\<lparr>table := table w @ [(i, 0)], changes := changes w @ [(i, 0, time w)]\<rparr>, ts) else None)"
| "search_act (Update i v) (w, ts) =
     (if (i, v) \<in> set (table w)
      then Some (w\<lparr>table := map (\<lambda>(j, u). (j, if j = i then v + 1 else u)) (table w), changes := changes w @ [(i, v + 1, time w)]\<rparr>, ts)
      else None)"
| "search_act (Pass x) (w, ts) = (if time w \<le> x then Some (w\<lparr>time := x\<rparr>, ts) else None)"
| "search_act (Deliver p i v x) (w, ts) =
     (if (i, v, x) \<in> set (changes w) then Some (w, ts @ [(Upsert p i v x, delivery i v)]) else None)"
| "search_act (Job p s) (w, ts) = Some (w, ts @ [(Rebuild p s, sample_job)])"
| "search_act (Advance j n) s = advances j n s"
| "search_act (Break j) s = advance True j s"

fun search_acts :: "search_action list \<Rightarrow> search_system \<Rightarrow> search_system option" where
  "search_acts [] s = Some s"
| "search_acts (a # as) s = (case search_act a s of Some s' \<Rightarrow> search_acts as s' | None \<Rightarrow> None)"

definition sample_index :: engine_world where
  "sample_index = \<lparr>engine = \<lparr>documents = (\<lambda>index i. None), aliases = (\<lambda>a. if a = ''books'' then [''books-first''] else []),
       existing = (\<lambda>n. n = ''books-first'')\<rparr>,
     time = 0, table = [], changes = [], target_caches = (\<lambda>p. None), registered = (\<lambda>n. None),
     index_names = {''books-first''}, lock = None, sessions = {}, dead = {}\<rparr>"

section \<open>Soundness\<close>

abbreviation search_step where
  "search_step \<equiv> system_step (search_env sample_search) (search_start sample_search) (search_exec sample_search)"

lemma sample_request_sound:
  assumes "sample_request fails w t q = Some (w', r)" "alive w t"
  shows "search_exec sample_search w t q w' r"
proof (cases q)
  case (Es command)
  have e: "es_exec (engine_of sample_search) = (\<lambda>v q v' r. (v', r) = run_command q v \<or> v' = v \<and> r = EsFailed)"
    by (simp add: sample_search_def sample_engine_def)
  show ?thesis using assms Es by (auto split: if_splits prod.splits intro!: search_exec.command simp: e)
next
  case (SelectRows last_id limit)
  show ?thesis using assms search_exec.selected [of w t sample_search last_id limit] SelectRows by (auto simp: sample_fields)
next
  case MonotonicClock
  show ?thesis using assms search_exec.clock [of w t sample_search] MonotonicClock by auto
next
  case TryAdvisoryLock
  then show ?thesis using assms
    by (auto split: if_splits search_activity.splits intro: search_exec.locked search_exec.lock_busy)
next
  case AdvisoryUnlock
  then show ?thesis using assms
    by (auto split: if_splits search_activity.splits intro: search_exec.unlocked search_exec.not_owner)
qed (use assms in \<open>auto intro: search_exec.intros split: if_splits simp: sample_fields\<close>)


lemma advance_sound:
  assumes "advance fails j s = Some s'"
  shows "search_step s s'"
proof -
  obtain t q k where j: "j < length (snd s)" "snd s ! j = (t, Await q k)" "alive (fst s) t"
    using assms by (auto simp: advance_def split: if_splits prod.splits io.splits)
  with assms obtain w r where x: "sample_request fails (fst s) t q = Some (w, r)" "s' = (w, (snd s)[j := (t, k r)])"
    by (auto simp: advance_def split: option.splits)
  from system_step.resumed [where exec="search_exec sample_search", OF j(1,2) sample_request_sound [OF x(1) j(3)]]
  show ?thesis by (cases s) (simp add: x(2))
qed

lemma search_act_sound: "search_act a s = Some s' \<Longrightarrow> search_step\<^sup>*\<^sup>* s s'"
proof (cases "(a, s)" rule: search_act.cases)
  case (4 p i v x w ts)
  moreover assume "search_act a s = Some s'"
  ultimately show ?thesis
    using search_start.upsert [of i v x w "[(''cdc.books'', ''books'')]" "''cdc.books''" sample_search "''u''" p False WNull WNull]
    by (auto split: if_splits simp: sample_fields delivery_def intro!: r_into_rtranclp system_step.started)
next
  case (5 p s2 w ts)
  moreover assume "search_act a s = Some s'"
  ultimately show ?thesis
    using search_start.rebuild [of 1 sample_search w p s2 WNull False 2]
    by (auto simp: sample_fields sample_job_def grace_accepted_def target_cache_seconds_def
        intro!: r_into_rtranclp system_step.started)
next
  case (6 j n s2)
  have "advances j n s2 = Some s' \<Longrightarrow> search_step\<^sup>*\<^sup>* s2 s'"
    by (induction n arbitrary: s2) (auto split: option.splits intro: converse_rtranclp_into_rtranclp advance_sound)
  moreover assume "search_act a s = Some s'"
  ultimately show ?thesis using 6 by simp
qed (auto split: if_splits intro!: r_into_rtranclp system_step.environment intro: advance_sound search_env.intros)

lemma search_acts_sound: "search_acts as s = Some s' \<Longrightarrow> search_step\<^sup>*\<^sup>* s s'"
  by (induction as arbitrary: s) (auto split: option.splits dest!: search_act_sound intro: rtranclp_trans)

lemma sample_run_reachable:
  assumes "search_acts as (sample_index, []) = Some s"
  shows "search_reachable sample_search sample_index s"
  using steps_reachable [OF search_acts_sound [OF assms]] by (simp add: reachable.initial)

lemma sample_index_initial: "search_initial sample_search sample_index"
proof -
  have "engine sample_index = \<lparr>documents = (\<lambda>index i. None), aliases = (\<lambda>a. if a = ''books'' then [''books-first''] else []),
      existing = (\<lambda>n. n = ''books-first'')\<rparr>" "index_names sample_index = {''books-first''}"
    by (simp_all add: sample_index_def)
  then have "\<exists>first \<in> index_names sample_index. first \<noteq> logical sample_search \<and> first \<noteq> target_name sample_search
      \<and> aliases (view sample_search sample_index) = (\<lambda>a. if a = logical sample_search then [first] else [])"
    by (intro bexI [of _ "''books-first''"]) (simp_all add: sample_fields target_alias_def)
  then show ?thesis unfolding search_initial_def by (intro conjI) (simp_all add: sample_index_def sample_fields)
qed


section \<open>Runs\<close>

lemmas search_run_simps = advance_def Let_def eval_nat_numeral sample_fields with_engine_def target_alias_def
  sample_job_def reindex_job_def read_model_reindex_lock_def lock_call_def reindex_alias_def
  get_alias_indices_def es_call_def rebuild_index_def create_index_def set_reindex_target_def pause_def
  put_doc_def write_doc_def resolve_def drop_index_def

lemmas consumer_simps = delivery_def process_record_def upsert_record_def process_upsert_def book_row_def dget_def dget_or_def
  transform_def transform_book_def parse_timestamp_def document_external_version_def index_read_model_def
  get_read_model_write_targets_def discover_targets_def gather_def es_index_def invalidate_cache_def unique_names_def
  target_cache_seconds_def

lemmas job_simps = scan_rows.simps batch_size_def scan_page_def plain_platform_def row_to_dict_def bulk_index_def bulk_items_def
  es_refresh_def swap_alias_def clear_reindex_target_def delete_index_def

text \<open>The run evaluates a coroutine up to its next request only.\<close>

lemma run_await: "q = q' \<Longrightarrow> Await q k = Await q' k"
  by simp

lemma run_bind: "p = p' \<Longrightarrow> io_bind p f = io_bind p' f"
  by simp

lemma run_then: "p = p' \<Longrightarrow> and_then p f = and_then p' f"
  by simp

lemma and_then_simps: "and_then (Ret (Inl e)) f = Ret (Inl e)" "and_then (Ret (Inr x)) f = f x"
    "and_then (Await q k) f = Await q (\<lambda>r. and_then (k r) f)"
  by (simp_all add: and_then_def)

text \<open>
  A job makes its new index the target of writes; a consumer writes version 0 of a row to both indexes; the scan
  reads that version; version 1 is committed and consumed before the batch is written, which then
  conflicts; the alias is swapped and the old index deleted; version 0 is delivered once more.
\<close>

definition sample_run :: "search_action list" where
  "sample_run = [Insert ''b1'', Job 0 7, Advance 0 10, Deliver 1 ''b1'' 0 0, Advance 1 8, Pass 1, Advance 0 2,
     Update ''b1'' 0, Deliver 2 ''b1'' 1 1, Advance 2 8, Advance 0 11, Deliver 1 ''b1'' 0 0, Advance 3 6]"

lemma sample_run_ends:
  "\<exists>w. search_acts sample_run (sample_index, [])
     = Some (w, [(Rebuild 0 7, Ret (Inr ())), (Upsert 1 ''b1'' 0 0, Ret (Inr ())), (Upsert 2 ''b1'' 1 1, Ret (Inr ())),
         (Upsert 1 ''b1'' 0 0, Ret (Inr ()))])
     \<and> table w = [(''b1'', 1)] \<and> aliases (engine w) ''books'' = [''books-next''] \<and> \<not> existing (engine w) ''books-first''"
  by (simp add: sample_run_def search_run_simps consumer_simps job_simps and_then_simps sample_index_def
      cong: run_await run_bind run_then)

theorem processed_changes_are_served_witness:
  "\<exists>w ts d. search_acts sample_run (sample_index, []) = Some (w, ts)
     \<and> documents (engine w) ''books-next'' (WStr ''b1'') = Some (2, Some d) \<and> renders sample_search ''b1'' 1 d"
proof -
  obtain w ts where w: "search_acts sample_run (sample_index, []) = Some (w, ts)"
    "(Upsert 2 ''b1'' 1 1, Ret (Inr ())) \<in> set ts" "table w = [(''b1'', 1)]" "aliases (engine w) ''books'' = [''books-next'']"
    using sample_run_ends by auto
  have "(''b1'', 1) \<in> set (table w)" using w(3) by simp
  from processed_changes_are_served [OF sample_search_ok sample_index_initial sample_run_reachable [OF w(1)] w(2) this]
  obtain v' d where "documents (engine w) ''books-next'' (WStr ''b1'') = Some (v' + 1, Some d)" "1 \<le> v'" "v' \<le> 1"
    "renders sample_search ''b1'' v' d"
    using w(4) by (auto simp: sample_fields)
  moreover from this have "v' = 1" by simp
  ultimately show ?thesis using w(1) by auto
qed

theorem consumed_index_is_current_witness:
  "\<exists>w ts. search_acts sample_run (sample_index, []) = Some (w, ts) \<and> table w = [(''b1'', 1)]
     \<and> (\<exists>index. aliases (view sample_search w) ''books'' = [index] \<and> (\<forall>(i, u) \<in> set (table w).
          \<exists>d. documents (view sample_search w) index (WStr i) = Some (u + 1, Some d) \<and> renders sample_search i u d))"
proof -
  obtain w ts where w: "search_acts sample_run (sample_index, []) = Some (w, ts)"
    "(Upsert 2 ''b1'' 1 1, Ret (Inr ())) \<in> set ts" "table w = [(''b1'', 1)]"
    using sample_run_ends by auto
  then have "\<forall>(i, u) \<in> set (table w). \<exists>p t. (Upsert p i u t, Ret (Inr ())) \<in> set ts" by auto
  from consumed_index_is_current [OF sample_search_ok sample_index_initial sample_run_reachable [OF w(1)] this]
  have "\<exists>index. aliases (view sample_search w) ''books'' = [index] \<and> (\<forall>(i, u) \<in> set (table w).
      \<exists>d. documents (view sample_search w) index (WStr i) = Some (u + 1, Some d) \<and> renders sample_search i u d)"
    unfolding sample_fields(3) .
  with w(1,3) show ?thesis by blast
qed

end
