(* ===== verification/QueryScenarios.thy ===== *)
theory QueryScenarios
  imports CacheScenarios
begin

text \<open>The properties of the query handlers on a concrete run: a book is reserved, and then read through the cache.\<close>

lemma dune_key_facts: "cache_key dune_key" "space_of dune_key = ''book''" "key_namespace dune_key = Inr ''book''"
  by (simp_all add: dune_key_def cache_key_def cache_namespaces_def space_of_def key_namespace_def
      cache_namespace_def is_lower_def is_digit_def code_def)

lemma dune_keys:
  "versioned dune_key n \<noteq> generation_key ns" "generation_key ns \<noteq> versioned dune_key n"
  "lock_key pl k \<noteq> versioned dune_key n" "versioned dune_key n \<noteq> lock_key pl k"
  using cache_key_prefix [OF dune_key_facts(1)] lock_key_kind generation_key_kind by metis+

lemma dune_query_key: "query_key plain_platform (GetBook ''b1'') = Inr dune_key"
  by (simp add: query_key_form key_prefix_def key_text_def key_value_def plain_platform_def json_dumps_def
      json_string_def json_char_def short_escape_def dune_key_def code_def)

lemma dune_stored: "deserialized plain_platform (serialized plain_platform (dune_payload d)) = Some (dune_payload d)"
  "serialized plain_platform (dune_payload d) \<noteq> []" "dune_payload d \<noteq> WNull"
  by (simp_all add: deserialized_serialized serialized_nonempty dune_storable) (simp add: dune_payload_def)

lemma dune_fills:
  assumes "n = length ts" "unsafe (adapters w 1) = {}" "flights (adapters w 1) = {}" "server w (generation_key ''book'') = Some (show_int 1)"
    "server w (versioned dune_key 1) = None" "server w (lock_key plain_platform (versioned dune_key 1)) = None"
  shows "\<exists>w' since. acts [StartQuery 1 dune_key, Go n 14] (w, ts)
      = Some (w', ts @ [(Query 1 dune_key since, Ret (Answer (Inr (dune_payload (last (history w))))))])"
  using assms by (simp add: run_simps dune_key_facts dune_keys dune_stored)

lemma sample_side: "\<forall>d. the_load sample_setting d dune_key = query_load (the_platform sample_setting) (shelf d) (GetBook ''b1'')"
  by (simp add: sample_setting_def sample_load_def)

theorem queries_read_committed_state_witness:
  "\<exists>w ts m a. acts [StartCommand 0 ''book'', Go 0 4, StartQuery 1 dune_key, Go 1 14] (sample_start, []) = Some (w, ts)
     \<and> 1 \<le> m \<and> m < length (history w) \<and> hydrated plain_platform (GetBook ''b1'') (dune_payload 1) = Inr a
     \<and> in_repository plain_platform (shelf (history w ! m)) (GetBook ''b1'') = Some a"
proof -
  obtain w ts where w: "acts [StartCommand 0 ''book'', Go 0 4] (sample_start, []) = Some (w, ts)"
    "ts = [(Command 0 ''book'', Ret (Executed (Inr WNull) (Some True) 1))]"
    "history w = [0, 1]" "server w = [generation_key ''book'' \<mapsto> show_int 1]" "adapters w 1 = adapters sample_start 1"
    using command_fenced by blast
  then have "unsafe (adapters w 1) = {}" "flights (adapters w 1) = {}" by (simp_all add: sample_start_def)
  then obtain w' s where w': "acts [StartQuery 1 dune_key, Go 1 14] (w, ts)
      = Some (w', ts @ [(Query 1 dune_key s, Ret (Answer (Inr (dune_payload 1))))])"
    using dune_fills [of 1 ts w] w by (auto simp: dune_keys book_keys simp del: acts.simps)
  let ?c = sample_setting
  have steps: "(cache_step (the_server ?c) (the_platform ?c) (the_client ?c) (the_load ?c))\<^sup>*\<^sup>* (sample_start, []) (w, ts)"
      "(cache_step (the_server ?c) (the_platform ?c) (the_client ?c) (the_load ?c))\<^sup>*\<^sup>* (w, ts)
        (w', ts @ [(Query 1 dune_key s, Ret (Answer (Inr (dune_payload 1))))])"
    using acts_sound [OF w(1), of False] acts_sound [OF w', of False] by (simp_all add: sample_setting_def)
  have "\<exists>m a. 1 \<le> m \<and> m < length (history w') \<and> hydrated (the_platform ?c) (GetBook ''b1'') (dune_payload 1) = Inr a
      \<and> in_repository (the_platform ?c) (shelf (history w' ! m)) (GetBook ''b1'') = Some a"
  proof (rule queries_read_committed_state [OF sample_setting_ok _ steps_reachable [OF steps(1) reachable.initial] _ _ steps(2)])
    show "cache_initial (the_server ?c) sample_start"
      by (simp add: cache_initial_def sample_setting_def sample_server_def sample_start_def)
    show "(Command 0 ''book'', Ret (Executed (Inr WNull) (Some True) 1)) \<in> set ts" by (simp add: w(2))
    show "query_key (the_platform ?c) (GetBook ''b1'') = Inr dune_key" using dune_query_key by (simp add: sample_setting_def)
  qed (use sample_side in \<open>auto simp: dune_key_facts\<close>)
  moreover have "acts ([StartCommand 0 ''book'', Go 0 4] @ [StartQuery 1 dune_key, Go 1 14]) (sample_start, [])
      = Some (w', ts @ [(Query 1 dune_key s, Ret (Answer (Inr (dune_payload 1))))])"
    by (simp only: acts_append w(1) w' option.case)
  ultimately show ?thesis by (auto simp: sample_setting_def)
qed

theorem queries_have_own_keys_witness:
  "query_key plain_platform (ListPatronLoans ''p'' True 20 0 None) \<noteq> query_key plain_platform (ListPatronLoans ''p'' True 20 20 None)"
  by (rule queries_have_own_keys) (simp_all add: plain_platform_def)

end
