(* ===== verification/Retention.thy ===== *)
theory Retention
  imports Samples Database MessageConsumer "HOL-Library.List_Lexorder" "HOL-Library.Product_Lexorder"
begin

text \<open>
  Retention: the outbox (\<open>src/infrastructure/adapters/outbox/retention.py\<close>) and the durable state of the
  application (\<open>src/infrastructure/adapters/maintenance/durable_state_retention.py\<close>) are pruned in
  rounds, each a transaction of its own that deletes at most a batch of the oldest expired rows.

  Between the rounds the world goes on: what others insert, the clock of the database, the replication slot before
  and after the deletion, and whether the commit succeeds are functions of the round. The order of
  texts in \<open>ORDER BY id\<close> is that of the parameter \<open>collate\<close>.
\<close>

section \<open>The outbox\<close>

record outbox_pruning =
  older_than :: "datetime option"
  retention_hours :: "int option"
  outbox_batch_size :: int
  outbox_max_batches :: int
  replication_slot :: "string option"
  max_slot_lag_bytes :: int

text \<open>A replication slot: active, and how many bytes behind its confirmed position is, if it has one.\<close>

record slot_state =
  slot_active :: bool
  slot_lag :: "int option"

record outbox_world =
  collate :: "string \<Rightarrow> string"
  is_postgresql :: bool
  arrivals :: "nat \<Rightarrow> outbox_row list"
  clock_timestamp :: "nat \<Rightarrow> instant"
  slot_before :: "nat \<Rightarrow> string \<Rightarrow> slot_state option"
  slot_after :: "nat \<Rightarrow> string \<Rightarrow> slot_state option"
  commit_error :: "nat \<Rightarrow> infra_exn option"

definition slot_name_ok :: "string \<Rightarrow> bool" where
  "slot_name_ok s \<longleftrightarrow> s \<noteq> [] \<and> length s \<le> 63 \<and> is_lower (hd s)
     \<and> list_all (\<lambda>c. is_lower c \<or> is_digit c \<or> c = CHR ''_'') s"

definition outbox_arguments :: "outbox_pruning \<Rightarrow> infra_exn + instant option" where
  "outbox_arguments a =
     (if \<not> (1 \<le> outbox_batch_size a \<and> outbox_batch_size a \<le> 10000)
      then Inl (ValueError ''batch_size must be between 1 and 10000'')
      else if \<not> (1 \<le> outbox_max_batches a \<and> outbox_max_batches a \<le> 10000)
      then Inl (ValueError ''max_batches must be between 1 and 10000'')
      else if (older_than a = None) = (retention_hours a = None)
      then Inl (ValueError ''provide exactly one of older_than or retention_hours'')
      else if (case older_than a of Some (Naive t) \<Rightarrow> True | _ \<Rightarrow> False)
      then Inl (ValueError ''older_than must be timezone-aware'')
      else if (case retention_hours a of Some h \<Rightarrow> h < 1 | None \<Rightarrow> False)
      then Inl (ValueError ''retention_hours must be positive'')
      else if max_slot_lag_bytes a < 0 then Inl (ValueError ''max_slot_lag_bytes must be non-negative'')
      else if (case replication_slot a of Some s \<Rightarrow> \<not> slot_name_ok s | None \<Rightarrow> False)
      then Inl (ValueError ''replication_slot has an invalid PostgreSQL identifier'')
      else case older_than a of
             Some (Aware t off) \<Rightarrow> (if in_range t then Inr (Some t) else Inl OverflowError)
           | _ \<Rightarrow> Inr None)"

text \<open>\<open>_require_active_replication_slot\<close>\<close>

definition slot_ready :: "int \<Rightarrow> slot_state option \<Rightarrow> bool" where
  "slot_ready max_lag s =
     (case s of None \<Rightarrow> False | Some x \<Rightarrow> slot_active x \<and> (case slot_lag x of None \<Rightarrow> False | Some n \<Rightarrow> n \<le> max_lag))"

definition require_slot :: "outbox_pruning \<Rightarrow> outbox_world \<Rightarrow> (string \<Rightarrow> slot_state option) \<Rightarrow> infra_exn + unit" where
  "require_slot a w slots =
     (case replication_slot a of
        None \<Rightarrow> Inr ()
      | Some name \<Rightarrow>
          (if \<not> is_postgresql w then Inl (RuntimeError ''Replication-slot fencing requires PostgreSQL'')
           else if slot_ready (max_slot_lag_bytes a) (slots name) then Inr ()
           else Inl (RuntimeError (''Outbox replication slot '' @ CHR 0x27 # name @ CHR 0x27
             # '' is absent, inactive, or beyond the configured WAL-lag limit; retention is fenced off''))))"

definition cutoff :: "outbox_pruning \<Rightarrow> instant option \<Rightarrow> outbox_world \<Rightarrow> nat \<Rightarrow> infra_exn + instant" where
  "cutoff a explicit_cutoff w k =
     (case retention_hours a of
        Some hours \<Rightarrow>
          (if \<not> is_postgresql w then Inl (RuntimeError ''Database-clock retention requires PostgreSQL'')
           else Inr (clock_timestamp w k - hours * 3600000000))
      | None \<Rightarrow> (case explicit_cutoff of Some t \<Rightarrow> Inr t | None \<Rightarrow> Inl (RuntimeError ''AssertionError'')))"

definition message_ids :: "outbox_world \<Rightarrow> instant \<Rightarrow> nat \<Rightarrow> outbox_row list \<Rightarrow> string list" where
  "message_ids w limit n rows = map ob_id (take n
     (sort_key (\<lambda>r. (ob_inserted_at r, collate w (ob_id r))) (filter (\<lambda>r. ob_inserted_at r < limit) rows)))"

text \<open>
  The rounds: \<open>k\<close> counts them, \<open>m\<close> are left, \<open>n\<close> rows have been deleted. The result is that of the
  call together with the table as it leaves it.
\<close>

fun outbox_rounds ::
  "outbox_pruning \<Rightarrow> instant option \<Rightarrow> outbox_world \<Rightarrow> nat \<Rightarrow> nat \<Rightarrow> int \<Rightarrow> outbox_row list \<Rightarrow> (infra_exn + int) \<times> outbox_row list" where
  "outbox_rounds a explicit_cutoff w k 0 n rows = (Inr n, rows)"
| "outbox_rounds a explicit_cutoff w k (Suc m) n rows =
     (let now = rows @ arrivals w k
      in case rbind (require_slot a w (slot_before w k)) (\<lambda>_. cutoff a explicit_cutoff w k) of
           Inl e \<Rightarrow> (Inl e, now)
         | Inr limit \<Rightarrow>
             (let ids = message_ids w limit (nat (outbox_batch_size a)) now
              in if ids = [] then (Inr n, now)
                 else case require_slot a w (slot_after w k) of
                        Inl e \<Rightarrow> (Inl e, now)
                      | Inr _ \<Rightarrow>
                          (case commit_error w k of
                             Some e \<Rightarrow> (Inl e, now)
                           | None \<Rightarrow>
                               (let left = filter (\<lambda>r. ob_id r \<notin> set ids) now; deleted = n + int (length ids)
                                in if int (length ids) < outbox_batch_size a then (Inr deleted, left)
                                   else outbox_rounds a explicit_cutoff w (Suc k) m deleted left))))"

definition outbox_prune :: "outbox_pruning \<Rightarrow> outbox_world \<Rightarrow> outbox_row list \<Rightarrow> (infra_exn + int) \<times> outbox_row list" where
  "outbox_prune a w rows =
     (case outbox_arguments a of
        Inl e \<Rightarrow> (Inl e, rows)
      | Inr explicit_cutoff \<Rightarrow> outbox_rounds a explicit_cutoff w 0 (nat (outbox_max_batches a)) 0 rows)"

section \<open>Durable state\<close>

text \<open>
  A table of \<open>_POLICIES\<close>: the timestamp column (SQL's null compares as false) and the extra predicate. Of a
  round: the clock of the database, the rows that other transactions have locked (they are
  skipped), what others did to the table before it, and the error of its transaction, if any. One reading of the
  clock stands for those of a statement.
\<close>

record 'r policy =
  timestamp_of :: "'r \<Rightarrow> instant option"
  extra_predicate :: "'r \<Rightarrow> bool"

record 'r table_round =
  round_clock :: instant
  row_locked :: "'r \<Rightarrow> bool"
  others_do :: "'r list \<Rightarrow> 'r list"
  round_error :: "infra_exn option"

record stored_receipt = "response command_receipt" +
  created_at :: instant

definition receipts_policy :: "stored_receipt policy" where
  "receipts_policy = \<lparr>timestamp_of = (\<lambda>r. Some (created_at r)), extra_predicate = (\<lambda>r. True)\<rparr>"

definition operations_policy :: "borrow_operation policy" where
  "operations_policy = \<lparr>timestamp_of = (\<lambda>r. Some (op_updated_at r)), extra_predicate = (\<lambda>r. op_status r \<in> {OpReleased, OpReturned})\<rparr>"

definition inbox_policy :: "inbox_row policy" where
  "inbox_policy = \<lparr>timestamp_of = ib_processed_at, extra_predicate = (\<lambda>r. ib_status r = ''processed'')\<rparr>"

definition quarantine_policy :: "quarantine_row policy" where
  "quarantine_policy = \<lparr>timestamp_of = (\<lambda>r. Some (qr_last_seen_at r)), extra_predicate = (\<lambda>r. True)\<rparr>"

definition expired_row :: "'r policy \<Rightarrow> instant \<Rightarrow> int \<Rightarrow> 'r \<Rightarrow> bool" where
  "expired_row po now days r \<longleftrightarrow> extra_predicate po r
     \<and> (case timestamp_of po r of None \<Rightarrow> False | Some t \<Rightarrow> t < now - days * 86400000000)"

text \<open>The candidates, by their position (\<open>ctid\<close>) in the table.\<close>

definition candidates :: "'r policy \<Rightarrow> 'r table_round \<Rightarrow> int \<Rightarrow> nat \<Rightarrow> 'r list \<Rightarrow> nat list" where
  "candidates po e days n rows = take n (sort_key (\<lambda>i. the (timestamp_of po (rows ! i)))
     (filter (\<lambda>i. expired_row po (round_clock e) days (rows ! i) \<and> \<not> row_locked e (rows ! i)) [0..<length rows]))"

fun table_rounds ::
  "'r policy \<Rightarrow> int \<Rightarrow> nat \<Rightarrow> (nat \<Rightarrow> 'r table_round) \<Rightarrow> nat \<Rightarrow> nat \<Rightarrow> int \<Rightarrow> 'r list \<Rightarrow> (infra_exn + int) \<times> 'r list" where
  "table_rounds po days batch es k 0 n rows = (Inr n, rows)"
| "table_rounds po days batch es k (Suc m) n rows =
     (let now = others_do (es k) rows; ids = candidates po (es k) days batch now
      in case round_error (es k) of
           Some e \<Rightarrow> (Inl e, now)
         | None \<Rightarrow>
             (let left = nths now (- set ids); count = length ids
              in if count < batch then (Inr (n + int count), left)
                 else table_rounds po days batch es (Suc k) m (n + int count) left))"

definition prune_table ::
  "'r policy \<Rightarrow> int \<Rightarrow> int \<Rightarrow> int \<Rightarrow> bool \<Rightarrow> (nat \<Rightarrow> 'r table_round) \<Rightarrow> 'r list \<Rightarrow> (infra_exn + int) \<times> 'r list" where
  "prune_table po days batch max_batches postgresql es rows =
     (if \<not> postgresql \<and> 0 < max_batches then (Inl (RuntimeError ''Durable-state retention requires PostgreSQL''), rows)
      else table_rounds po days (nat batch) es 0 (nat max_batches) 0 rows)"

record durable_state =
  ds_receipts :: "stored_receipt list"
  ds_operations :: "borrow_operation list"
  ds_inbox :: "inbox_row list"
  ds_quarantine :: "quarantine_row list"

record durable_horizons =
  command_receipt_days :: int
  terminal_operation_days :: int
  processed_inbox_days :: int
  quarantine_days :: int
  durable_batch_size :: int
  max_batches_per_table :: int

record durable_world =
  durable_postgresql :: bool
  receipt_rounds :: "nat \<Rightarrow> stored_receipt table_round"
  operation_rounds :: "nat \<Rightarrow> borrow_operation table_round"
  inbox_rounds :: "nat \<Rightarrow> inbox_row table_round"
  quarantine_rounds :: "nat \<Rightarrow> quarantine_row table_round"

definition durable_arguments :: "durable_horizons \<Rightarrow> infra_exn + unit" where
  "durable_arguments h =
     (if \<not> list_all (\<lambda>d. 1 \<le> d \<and> d \<le> 3650)
          [command_receipt_days h, terminal_operation_days h, processed_inbox_days h, quarantine_days h]
      then Inl (ValueError ''retention days must be between 1 and 3650'')
      else if \<not> (1 \<le> durable_batch_size h \<and> durable_batch_size h \<le> 10000)
      then Inl (ValueError ''batch_size must be between 1 and 10000'')
      else if \<not> (1 \<le> max_batches_per_table h \<and> max_batches_per_table h \<le> 10000)
      then Inl (ValueError ''max_batches_per_table must be between 1 and 10000'')
      else Inr ())"

text \<open>The tables are pruned in the order of the horizons; the first error ends the call.\<close>

definition durable_prune ::
  "durable_horizons \<Rightarrow> durable_world \<Rightarrow> durable_state \<Rightarrow> (infra_exn + (string \<times> int) list) \<times> durable_state" where
  "durable_prune h w s =
     (case durable_arguments h of
        Inl e \<Rightarrow> (Inl e, s)
      | Inr _ \<Rightarrow>
          (case prune_table receipts_policy (command_receipt_days h) (durable_batch_size h) (max_batches_per_table h)
                  (durable_postgresql w) (receipt_rounds w) (ds_receipts s) of
             (Inl e, r) \<Rightarrow> (Inl e, s\<lparr>ds_receipts := r\<rparr>)
           | (Inr n1, r) \<Rightarrow>
          (case prune_table operations_policy (terminal_operation_days h) (durable_batch_size h) (max_batches_per_table h)
                  (durable_postgresql w) (operation_rounds w) (ds_operations s) of
             (Inl e, ops) \<Rightarrow> (Inl e, s\<lparr>ds_receipts := r, ds_operations := ops\<rparr>)
           | (Inr n2, ops) \<Rightarrow>
          (case prune_table inbox_policy (processed_inbox_days h) (durable_batch_size h) (max_batches_per_table h)
                  (durable_postgresql w) (inbox_rounds w) (ds_inbox s) of
             (Inl e, inb) \<Rightarrow> (Inl e, s\<lparr>ds_receipts := r, ds_operations := ops, ds_inbox := inb\<rparr>)
           | (Inr n3, inb) \<Rightarrow>
          (case prune_table quarantine_policy (quarantine_days h) (durable_batch_size h) (max_batches_per_table h)
                  (durable_postgresql w) (quarantine_rounds w) (ds_quarantine s) of
             (x, q) \<Rightarrow>
               (rbind x (\<lambda>n4. Inr [(''command_receipts'', n1), (''borrow_operations'', n2), (''event_inbox'', n3), (''event_quarantine'', n4)]),
                s\<lparr>ds_receipts := r, ds_operations := ops, ds_inbox := inb, ds_quarantine := q\<rparr>))))))"


section \<open>What is deleted\<close>

text \<open>A round that may delete a row: the slot is ready twice, the transaction commits, and the row has expired.\<close>

definition deletes_in :: "outbox_pruning \<Rightarrow> instant option \<Rightarrow> outbox_world \<Rightarrow> nat \<Rightarrow> outbox_row \<Rightarrow> bool" where
  "deletes_in a x w j r \<longleftrightarrow> require_slot a w (slot_before w j) = Inr () \<and> require_slot a w (slot_after w j) = Inr ()
     \<and> commit_error w j = None \<and> (\<exists>limit. cutoff a x w j = Inr limit \<and> ob_inserted_at r < limit)"

lemma message_ids_rows: "i \<in> set (message_ids w limit n rows) \<Longrightarrow> \<exists>r\<in>set rows. ob_id r = i \<and> ob_inserted_at r < limit"
  by (auto simp: message_ids_def dest!: in_set_takeD)

lemma message_ids_all:
  assumes "length (message_ids w limit n rows) < n" "r \<in> set rows" "ob_inserted_at r < limit"
  shows "ob_id r \<in> set (message_ids w limit n rows)"
proof -
  let ?xs = "sort_key (\<lambda>r. (ob_inserted_at r, collate w (ob_id r))) (filter (\<lambda>r. ob_inserted_at r < limit) rows)"
  have "length ?xs < n" using assms(1) by (simp add: message_ids_def)
  then have "message_ids w limit n rows = map ob_id ?xs" by (simp add: message_ids_def)
  with assms(2,3) show ?thesis by simp
qed

lemma length_message_ids: "length (message_ids w limit n rows) \<le> n"
  by (simp add: message_ids_def)

text \<open>The cases of a round.\<close>

lemma outbox_round_cases:
  assumes "outbox_rounds a x w k (Suc m) n rows = (res, rows')"
  obtains (raised) e where "res = Inl e" "rows' = rows @ arrivals w k"
  | (nothing_left) limit where "cutoff a x w k = Inr limit" "res = Inr n" "rows' = rows @ arrivals w k"
      "message_ids w limit (nat (outbox_batch_size a)) (rows @ arrivals w k) = []"
  | (deleted) limit ids left where "cutoff a x w k = Inr limit" "require_slot a w (slot_before w k) = Inr ()"
      "require_slot a w (slot_after w k) = Inr ()" "commit_error w k = None"
      "ids = message_ids w limit (nat (outbox_batch_size a)) (rows @ arrivals w k)"
      "left = filter (\<lambda>r. ob_id r \<notin> set ids) (rows @ arrivals w k)"
      "(if int (length ids) < outbox_batch_size a then (Inr (n + int (length ids)), left)
        else outbox_rounds a x w (Suc k) m (n + int (length ids)) left) = (res, rows')"
proof (cases "rbind (require_slot a w (slot_before w k)) (\<lambda>_. cutoff a x w k)")
  case (Inl e)
  with assms show thesis by (intro raised [of e]) (simp_all add: Let_def)
next
  case (Inr limit)
  then have c: "require_slot a w (slot_before w k) = Inr ()" "cutoff a x w k = Inr limit" by (auto simp: result_simps)
  let ?now = "rows @ arrivals w k"
  let ?ids = "message_ids w limit (nat (outbox_batch_size a)) ?now"
  show thesis
  proof (cases "?ids = []")
    case True
    with assms Inr show thesis by (intro nothing_left [OF c(2)]) (simp_all add: Let_def)
  next
    case False
    show thesis
    proof (cases "require_slot a w (slot_after w k)")
      case (Inl e)
      with assms Inr False show thesis by (intro raised [of e]) (simp_all add: Let_def)
    next
      case after: (Inr u)
      show thesis
      proof (cases "commit_error w k")
        case None
        have "require_slot a w (slot_after w k) = Inr ()" using after by simp
        note deleted' = deleted [OF c(2,1) this None refl refl]
        show thesis using assms unfolding outbox_rounds.simps Let_def Inr after None sum.case option.case
          by (simp only: False if_False) (rule deleted' [unfolded Let_def])
      next
        case (Some e)
        with assms Inr False after show thesis by (intro raised [of e]) (simp_all add: Let_def)
      qed
    qed
  qed
qed

lemma outbox_rounds_delete:
  assumes "outbox_rounds a x w k m n rows = (res, rows')"
    and "inj_on ob_id (set rows \<union> (\<Union>j. set (arrivals w j)))" "r \<in> set rows" "r \<notin> set rows'"
  shows "\<exists>j. j < k + m \<and> deletes_in a x w j r"
  using assms
proof (induction m arbitrary: k n rows)
  case (Suc m)
  from Suc.prems(1) show ?case
  proof (cases rule: outbox_round_cases)
    case (deleted limit ids left)
    show ?thesis
    proof (cases "r \<in> set left")
      case True
      have "inj_on ob_id (set left \<union> (\<Union>j. set (arrivals w j)))" using Suc.prems(2) deleted(6) by (rule_tac inj_on_subset) auto
      then have "\<exists>j. j < Suc k + m \<and> deletes_in a x w j r"
        using True Suc.prems(4) deleted(7) by (intro Suc.IH [of "Suc k" "n + int (length ids)" left]) (auto split: if_splits)
      then show ?thesis by simp
    next
      case False
      with deleted(6) Suc.prems(3) have "ob_id r \<in> set ids" by simp
      then obtain r' where "r' \<in> set (rows @ arrivals w k)" "ob_id r' = ob_id r" "ob_inserted_at r' < limit"
        using message_ids_rows unfolding deleted(5) by blast
      moreover from this(1,2) have "r' = r" using Suc.prems(2,3) by (intro inj_onD [OF Suc.prems(2)]) auto
      ultimately show ?thesis using deleted(1-4) by (intro exI [of _ k]) (auto simp: deletes_in_def)
    qed
  qed (use Suc.prems in auto)
qed simp

lemma outbox_rounds_complete:
  assumes "outbox_rounds a x w k m n rows = (Inr n', rows')" "n' < n + int m * outbox_batch_size a" "1 \<le> outbox_batch_size a"
  shows "\<exists>j limit. j < k + m \<and> cutoff a x w j = Inr limit \<and> (\<forall>r\<in>set rows'. limit \<le> ob_inserted_at r)"
  using assms
proof (induction m arbitrary: k n rows)
  case (Suc m)
  from Suc.prems(1) show ?case
  proof (cases rule: outbox_round_cases)
    case (nothing_left limit)
    have "limit \<le> ob_inserted_at r" if "r \<in> set rows'" for r
      using message_ids_all [of w limit "nat (outbox_batch_size a)" "rows @ arrivals w k" r] nothing_left(3,4) that Suc.prems(3)
      by (force simp: not_less)
    with nothing_left(1) show ?thesis by (intro exI [of _ k] exI [of _ limit]) simp
  next
    case (deleted limit ids left)
    show ?thesis
    proof (cases "int (length ids) < outbox_batch_size a")
      case True
      then have "limit \<le> ob_inserted_at r" if "r \<in> set rows'" for r
        using message_ids_all [of w limit "nat (outbox_batch_size a)" "rows @ arrivals w k" r] deleted that by (force simp: not_less)
      with deleted(1) show ?thesis by (intro exI [of _ k] exI [of _ limit]) simp
    next
      case False
      then have "int (length ids) = outbox_batch_size a"
        using length_message_ids [of w limit "nat (outbox_batch_size a)" "rows @ arrivals w k"] deleted(5) Suc.prems(3)
        by (simp add: le_nat_iff)
      then have "n' < n + int (length ids) + int m * outbox_batch_size a" using Suc.prems(2) by (simp add: algebra_simps)
      with False deleted(7) Suc.prems(3) Suc.IH [of "Suc k" "n + int (length ids)" left] show ?thesis by simp
    qed
  qed simp
qed simp

text \<open>The same for the tables of the durable state.\<close>

lemma candidates_expired:
  "i \<in> set (candidates po e days n rows) \<Longrightarrow> i < length rows \<and> expired_row po (round_clock e) days (rows ! i) \<and> \<not> row_locked e (rows ! i)"
  by (auto simp: candidates_def dest!: in_set_takeD)

lemma table_rounds_delete:
  assumes "table_rounds po days batch es k m n rows = (res, rows')" "r \<in> set rows" "r \<notin> set rows'"
    and "\<And>j xs. set xs \<subseteq> set (others_do (es j) xs)"
  shows "\<exists>j. j < k + m \<and> round_error (es j) = None \<and> \<not> row_locked (es j) r \<and> expired_row po (round_clock (es j)) days r"
  using assms(1-3)
proof (induction m arbitrary: k n rows)
  case (Suc m)
  let ?now = "others_do (es k) rows"
  let ?ids = "candidates po (es k) days batch ?now"
  let ?left = "nths ?now (- set ?ids)"
  have r: "r \<in> set ?now" using Suc.prems(2) assms(4) by blast
  then obtain i where i: "i < length ?now" "r = ?now ! i" by (auto simp: in_set_conv_nth)
  have ok: "round_error (es k) = None" using Suc.prems(1,3) r by (auto simp: Let_def split: option.splits)
  show ?case
  proof (cases "r \<in> set ?left")
    case True
    with Suc.prems(1,3) ok have "table_rounds po days batch es (Suc k) m (n + int (length ?ids)) ?left = (res, rows')"
      by (auto simp: Let_def split: if_splits)
    from Suc.IH [OF this True Suc.prems(3)] show ?thesis by simp
  next
    case False
    with i have "i \<in> set ?ids" by (auto simp: set_nths)
    with candidates_expired [OF this] i(2) ok show ?thesis by (intro exI [of _ k]) simp
  qed
qed simp


lemma prune_table_delete:
  assumes "prune_table po days batch m postgresql es rows = (res, rows')" "r \<in> set rows" "r \<notin> set rows'"
    and "\<And>j xs. set xs \<subseteq> set (others_do (es j) xs)"
  shows "\<exists>j. expired_row po (round_clock (es j)) days r"
proof -
  have "table_rounds po days (nat batch) es 0 (nat m) 0 rows = (res, rows')"
    using assms(1-3) by (auto simp: prune_table_def split: if_splits)
  from table_rounds_delete [OF this assms(2-4)] show ?thesis by blast
qed

section \<open>Properties\<close>

text \<open>
  C39: The outbox is pruned behind the fence: a row is deleted only in a round in which the replication
  slot was active and within the lag limit before and after the deletion, whose transaction committed, and whose
  cutoff the row is older than. And a call that returns before it has used up its batches has left no
  row that was expired in its last round.
\<close>

theorem outbox_retention_is_fenced:
  assumes "outbox_prune a w rows = (res, rows')" and "inj_on ob_id (set rows \<union> (\<Union>j. set (arrivals w j)))"
  shows "(\<forall>r \<in> set rows. r \<notin> set rows' \<longrightarrow>
      (\<exists>x j. outbox_arguments a = Inr x \<and> j < nat (outbox_max_batches a) \<and> deletes_in a x w j r))
    \<and> (\<forall>n. res = Inr n \<longrightarrow> n < outbox_max_batches a * outbox_batch_size a \<longrightarrow>
      (\<exists>x j limit. j < nat (outbox_max_batches a) \<and> cutoff a x w j = Inr limit \<and> (\<forall>r \<in> set rows'. limit \<le> ob_inserted_at r)))"
proof (cases "outbox_arguments a")
  case (Inl e)
  with assms(1) show ?thesis by (auto simp: outbox_prune_def)
next
  case (Inr x)
  then have run: "outbox_rounds a x w 0 (nat (outbox_max_batches a)) 0 rows = (res, rows')" and "1 \<le> outbox_batch_size a" "1 \<le> outbox_max_batches a"
    using assms(1) by (auto simp: outbox_prune_def outbox_arguments_def split: if_splits)
  have "\<exists>x j limit. j < nat (outbox_max_batches a) \<and> cutoff a x w j = Inr limit \<and> (\<forall>r \<in> set rows'. limit \<le> ob_inserted_at r)"
    if "res = Inr n" "n < outbox_max_batches a * outbox_batch_size a" for n
    using outbox_rounds_complete [OF run [unfolded that(1)]] that(2) \<open>1 \<le> outbox_batch_size a\<close> \<open>1 \<le> outbox_max_batches a\<close> by auto
  moreover have "\<exists>j. j < nat (outbox_max_batches a) \<and> deletes_in a x w j r" if "r \<in> set rows" "r \<notin> set rows'" for r
    using outbox_rounds_delete [OF run assms(2) that] by simp
  ultimately show ?thesis using Inr by blast
qed

text \<open>
  C40: The durable state of work in progress survives retention: a borrow operation is deleted only when it
  is released or returned, an inbox entry only when it is processed, and these, command receipts and quarantined
  messages only when they are older than their horizon by the clock of the database in some round.
\<close>

theorem retention_keeps_work_in_progress:
  assumes "durable_prune h w s = (res, s')"
    and "\<And>j xs. set xs \<subseteq> set (others_do (receipt_rounds w j) xs)" "\<And>j xs. set xs \<subseteq> set (others_do (operation_rounds w j) xs)"
    and "\<And>j xs. set xs \<subseteq> set (others_do (inbox_rounds w j) xs)" "\<And>j xs. set xs \<subseteq> set (others_do (quarantine_rounds w j) xs)"
  shows "(\<forall>r \<in> set (ds_operations s). r \<notin> set (ds_operations s') \<longrightarrow> op_status r \<in> {OpReleased, OpReturned}
        \<and> (\<exists>j. op_updated_at r < round_clock (operation_rounds w j) - terminal_operation_days h * 86400000000))
    \<and> (\<forall>r \<in> set (ds_inbox s). r \<notin> set (ds_inbox s') \<longrightarrow> ib_status r = ''processed''
        \<and> (\<exists>j t. ib_processed_at r = Some t \<and> t < round_clock (inbox_rounds w j) - processed_inbox_days h * 86400000000))
    \<and> (\<forall>r \<in> set (ds_receipts s). r \<notin> set (ds_receipts s') \<longrightarrow>
        (\<exists>j. created_at r < round_clock (receipt_rounds w j) - command_receipt_days h * 86400000000))
    \<and> (\<forall>r \<in> set (ds_quarantine s). r \<notin> set (ds_quarantine s') \<longrightarrow>
        (\<exists>j. qr_last_seen_at r < round_clock (quarantine_rounds w j) - quarantine_days h * 86400000000))"
proof -
  let ?prune = "\<lambda>po days es rows. prune_table po days (durable_batch_size h) (max_batches_per_table h) (durable_postgresql w) es rows"
  have tables: "ds_operations s' = ds_operations s \<or> (\<exists>x. ?prune operations_policy (terminal_operation_days h) (operation_rounds w) (ds_operations s) = (x, ds_operations s'))"
    "ds_inbox s' = ds_inbox s \<or> (\<exists>x. ?prune inbox_policy (processed_inbox_days h) (inbox_rounds w) (ds_inbox s) = (x, ds_inbox s'))"
    "ds_receipts s' = ds_receipts s \<or> (\<exists>x. ?prune receipts_policy (command_receipt_days h) (receipt_rounds w) (ds_receipts s) = (x, ds_receipts s'))"
    "ds_quarantine s' = ds_quarantine s \<or> (\<exists>x. ?prune quarantine_policy (quarantine_days h) (quarantine_rounds w) (ds_quarantine s) = (x, ds_quarantine s'))"
    using assms(1) by (auto simp: durable_prune_def split: sum.splits prod.splits)
  have op: "\<exists>j. expired_row operations_policy (round_clock (operation_rounds w j)) (terminal_operation_days h) r"
    if "r \<in> set (ds_operations s)" "r \<notin> set (ds_operations s')" for r
    using tables(1) that prune_table_delete [OF _ that assms(3)] by auto
  have ib: "\<exists>j. expired_row inbox_policy (round_clock (inbox_rounds w j)) (processed_inbox_days h) r"
    if "r \<in> set (ds_inbox s)" "r \<notin> set (ds_inbox s')" for r
    using tables(2) that prune_table_delete [OF _ that assms(4)] by auto
  have rc: "\<exists>j. expired_row receipts_policy (round_clock (receipt_rounds w j)) (command_receipt_days h) r"
    if "r \<in> set (ds_receipts s)" "r \<notin> set (ds_receipts s')" for r
    using tables(3) that prune_table_delete [OF _ that assms(2)] by auto
  have qr: "\<exists>j. expired_row quarantine_policy (round_clock (quarantine_rounds w j)) (quarantine_days h) r"
    if "r \<in> set (ds_quarantine s)" "r \<notin> set (ds_quarantine s')" for r
    using tables(4) that prune_table_delete [OF _ that assms(5)] by auto
  note policies = expired_row_def operations_policy_def inbox_policy_def receipts_policy_def quarantine_policy_def
  have "ib_status r = ''processed'' \<and> (\<exists>j t. ib_processed_at r = Some t
      \<and> t < round_clock (inbox_rounds w j) - processed_inbox_days h * 86400000000)"
    if "r \<in> set (ds_inbox s)" "r \<notin> set (ds_inbox s')" for r
    using ib [OF that] by (auto simp: policies split: option.splits)
  with op [unfolded policies] rc [unfolded policies] qr [unfolded policies] show ?thesis by simp
qed

section \<open>Witnesses\<close>

definition old_row :: outbox_row where
  "old_row = (from_domain_event (sample_event (CatalogEvent (BookRemovedFromCatalog ''book-1''))) ''book'' ''book-1'')\<lparr>ob_inserted_at := 0\<rparr>"

definition hourly_pruning :: outbox_pruning where
  "hourly_pruning = \<lparr>older_than = None, retention_hours = Some 1, outbox_batch_size = 500, outbox_max_batches = 20,
     replication_slot = Some ''library_outbox'', max_slot_lag_bytes = 1073741824\<rparr>"

definition healthy_slot :: outbox_world where
  "healthy_slot = \<lparr>collate = (\<lambda>s. s), is_postgresql = True, arrivals = (\<lambda>k. []), clock_timestamp = (\<lambda>k. 3600000001),
     slot_before = (\<lambda>k name. Some \<lparr>slot_active = True, slot_lag = Some 100\<rparr>),
     slot_after = (\<lambda>k name. Some \<lparr>slot_active = True, slot_lag = Some 200\<rparr>), commit_error = (\<lambda>k. None)\<rparr>"

lemma old_row_pruned: "outbox_prune hourly_pruning healthy_slot [old_row] = (Inr 1, [])"
  by code_simp

lemma outbox_retention_is_fenced_witness:
  "outbox_prune hourly_pruning healthy_slot [old_row] = (Inr 1, [])
   \<and> (\<exists>x j. outbox_arguments hourly_pruning = Inr x \<and> j < nat (outbox_max_batches hourly_pruning)
        \<and> deletes_in hourly_pruning x healthy_slot j old_row)"
  using outbox_retention_is_fenced [OF old_row_pruned] old_row_pruned by (simp add: healthy_slot_def)

definition a_round :: "'r table_round" where
  "a_round = \<lparr>round_clock = 120 * 86400000000 + 1, row_locked = (\<lambda>r. False), others_do = (\<lambda>rows. rows), round_error = None\<rparr>"

definition sample_operation :: "operation_status \<Rightarrow> borrow_operation" where
  "sample_operation st = \<lparr>operation_id = ''op-1'', op_book_id = ''book-1'', op_patron_id = ''patron-1'', op_generation = 1,
     op_status = st, op_created_at = 0, op_updated_at = 0, op_loan_id = None, op_failure_reason = None\<rparr>"

definition sample_state :: durable_state where
  "sample_state = \<lparr>ds_receipts = [], ds_operations = [sample_operation OpReleased, sample_operation OpReserved],
     ds_inbox = [], ds_quarantine = []\<rparr>"

definition default_horizons :: durable_horizons where
  "default_horizons = \<lparr>command_receipt_days = 30, terminal_operation_days = 120, processed_inbox_days = 120, quarantine_days = 365,
     durable_batch_size = 500, max_batches_per_table = 20\<rparr>"

definition quiet_world :: durable_world where
  "quiet_world = \<lparr>durable_postgresql = True, receipt_rounds = (\<lambda>k. a_round), operation_rounds = (\<lambda>k. a_round),
     inbox_rounds = (\<lambda>k. a_round), quarantine_rounds = (\<lambda>k. a_round)\<rparr>"

lemma sample_state_pruned:
  "durable_prune default_horizons quiet_world sample_state
   = (Inr [(''command_receipts'', 0), (''borrow_operations'', 1), (''event_inbox'', 0), (''event_quarantine'', 0)],
      sample_state\<lparr>ds_operations := [sample_operation OpReserved]\<rparr>)"
  by code_simp

lemma retention_keeps_work_in_progress_witness:
  "sample_operation OpReleased \<in> set (ds_operations sample_state)
   \<and> sample_operation OpReleased \<notin> set (ds_operations (snd (durable_prune default_horizons quiet_world sample_state)))
   \<and> (\<exists>j. op_updated_at (sample_operation OpReleased)
        < round_clock (operation_rounds quiet_world j) - terminal_operation_days default_horizons * 86400000000)"
  using retention_keeps_work_in_progress [OF sample_state_pruned]
  by (simp add: sample_state_pruned) (simp add: quiet_world_def a_round_def sample_state_def sample_operation_def)

end
