(* ===== verification/Spec2Isabelle.thy ===== *)
theory Spec2Isabelle
  imports KernelProps IdempotentCommands EventHandlers BorrowingPolicy BreakerProps ConsumerProps PagingTheorems SearchScenarios QueryScenarios Retention
begin

text \<open>
  The library: a book lending service. Three contexts (Catalog, Lending, Patron) each own an
  aggregate and a table. A borrow is a saga over them: Catalog reserves a book and writes an event
  to the outbox; a worker hands the event to Lending, which creates a loan or reports the
  rejection; the event of the loan lets Catalog confirm the reservation, and so on until the book
  is back. Events travel through Kafka, at least once and in any order; an inbox with leases and
  idempotent commands make that harmless. Queries read the search engine or the database, through
  a cache in Redis. This theory imports the development; below is where each part is, in the order
  of the imports. Paths are under \<open>src/\<close>; properties are the theorems after a text with a claim id.

  1. Values. \<open>Prelude\<close>: Python's strings, results as \<open>error + value\<close> with \<open>rbind\<close>, \<open>ropt\<close>;
  strings are Latin-1. \<open>PyUuid\<close>: \<open>uuid.UUID\<close>. \<open>SharedKernel\<close>: \<open>domain/shared_kernel\<close> with the
  exceptions of the whole program as the datatype \<open>exn\<close>, UTC instants (microseconds, with
  the range of \<open>datetime\<close>), e-mail addresses, and the seal of aggregate roots. \<open>Samples\<close>: concrete
  values for witnesses. \<open>Events\<close>: \<open>domain_event.py\<close> and the event classes of the three contexts;
  the locale \<open>aggregate\<close> is what the three aggregates share (each command keeps the invariant, the
  identity, and the pending events as a prefix), and is interpreted for each of them.

  2. Aggregates, as records, commands as functions to \<open>exn + aggregate\<close>: \<open>CatalogBook\<close>,
  \<open>CatalogBookProps\<close> (\<open>domain/catalog\<close>), \<open>LendingLoan\<close>, \<open>LendingLoanProps\<close> (\<open>domain/lending\<close>),
  \<open>PatronAggregate\<close>, \<open>KernelProps\<close> (\<open>domain/patron\<close>, the seal, ISBN). For each: an invariant, the
  life cycle as an abstract state machine that every command refines, fences against messages of
  earlier reservations, and redelivery without effect.

  3. Database. \<open>Tables\<close>: a table is a list of rows with column types, check constraints and unique
  indexes; the locale \<open>versioned_table\<close> is optimistic locking. \<open>Rows\<close>, \<open>RowProps\<close>: \<open>book_model.py\<close>,
  \<open>loan_model.py\<close>, \<open>patron_model.py\<close>, with the round trip between aggregates and rows. \<open>Fingerprint\<close>:
  \<open>idempotency.py\<close>, canonical JSON and fingerprints, with SHA-256 as a parameter. \<open>Database\<close>,
  \<open>DatabaseProps\<close>: command repositories, receipts, borrow operations, the outbox and the units of
  work; a transaction is a list of statements, executed from one state or not at all.

  4. Commands. \<open>CatalogHandlers\<close>, \<open>LendingHandlers\<close>, \<open>PatronHandlers\<close>: every file of
  \<open>application/command_handlers\<close>. A handler reads a snapshot and gives a plan, the statements and
  events of its transaction. \<open>IdempotentCommands\<close>: the locale \<open>keyed_handler\<close>, interpreted on the
  eight commands with a key, and that such a command is executed once. \<open>EventHandlers\<close>: every file of
  \<open>application/event_handlers\<close> as the commands it issues.

  5. The saga. \<open>SagaCore\<close>, \<open>SagaEffects\<close>, \<open>SagaViews\<close>, \<open>SagaCommits\<close>, \<open>SagaHandlers\<close>, \<open>SagaLoans\<close>,
  \<open>Saga\<close>: the system of all handlers. A step commits a plan that its handler computed from any
  earlier state of the database; messages are the events of the outbox, delivered any number of
  times at any later time; the invariant relates books, loans, operations and the outbox. \<open>SagaRun\<close>
  runs it on an example and has the properties, of the outbox, of the lookups, and of both contexts.
  \<open>BorrowingFence\<close> refines the steps that take the patron's advisory lock (\<open>borrowing_fence.py\<close>) into
  sessions that ask, wait for the lock, read query by query and commit, with everything else in
  between; \<open>BorrowingPolicy\<close> shows that each is a step of the saga, and that the limits of the tiers hold.

  6. Delivery. \<open>Inbox\<close>, \<open>InboxProps\<close>: \<open>delivery_store.py\<close>; operations of several consumers in any
  order, with a rival's insert inside a claim. \<open>Dispatcher\<close>: \<open>event_dispatcher.py\<close>, over the locale
  \<open>handler_inbox\<close>, interpreted on the inbox. \<open>EventRegistry\<close>, \<open>RegistryProps\<close>: \<open>event_registry.py\<close>,
  contracts, serialization and validation. \<open>MessageConsumer\<close>, \<open>ConsumerProps\<close>: the retry loop of
  \<open>kafka_client.py\<close>, \<open>domain_event_consumer.py\<close> and the quarantine. \<open>CircuitBreaker\<close>, \<open>BreakerProps\<close>:
  \<open>circuit_breaker.py\<close> and the e-mail service; each critical section under the breaker's lock is
  a step, with calls in flight between them. \<open>Retention\<close>: \<open>outbox/retention.py\<close> and
  \<open>durable_state_retention.py\<close>, round by round, with a world that changes between the rounds.

  7. Queries. \<open>Json\<close>: \<open>json.loads\<close> and \<open>json.dumps\<close>. \<open>Cursor\<close>: \<open>pagination.py\<close>, with base64 and UTF-8.
  \<open>ReadModels\<close>, \<open>QueryRepos\<close>: \<open>read_models.py\<close> and the three query repositories. \<open>Paging\<close>: a client
  that follows cursors, and the locale \<open>keyset\<close> of what a page must promise; \<open>PagingProps\<close> and
  \<open>DatedPaging\<close> interpret it on books, patrons and loans; \<open>PagingTheorems\<close> has the properties. Each
  page is read from another state of the database.

  8. Cache. \<open>Async\<close>: coroutines, systems of tasks that interleave at every \<open>await\<close>, and the locale
  \<open>async_system\<close>, a rely-guarantee rule in which a task carries knowledge no other step falsifies.
  \<open>RedisClient\<close>: \<open>redis_client.py\<close>. \<open>CacheAdapter\<close>: \<open>cache_adapter.py\<close> and \<open>cache_invalidation.py\<close>.
  \<open>Cache\<close>: the system, with Redis as a parameter (\<open>redis_documented\<close>). Failed commands may have been
  executed, or be executed later; entries may expire at any moment. \<open>CacheKnowledge\<close>, \<open>CacheTasks\<close>,
  \<open>CacheProps\<close>, \<open>CacheTheorems\<close>: the interpretation and the property. \<open>CacheScenarios\<close>: an
  executable scheduler, the witness, and two runs in which the fence is lost. \<open>QueryHandlers\<close>:
  \<open>application/query_handlers\<close>, each a validation, a cache key, a read through the cache and the
  hydration of a read model; its properties compose the cache with the repositories, and
  \<open>QueryScenarios\<close> has their witnesses.

  9. Search index. \<open>SearchIndex\<close>: \<open>elasticsearch_client.py\<close>. \<open>SearchSync\<close>: the consumer of change
  records (\<open>elasticsearch_sync.py\<close>), the rebuild job (\<open>reindex_read_models.py\<close>, \<open>reindex_lock.py\<close>) and the
  freshness gate. \<open>SharedSystem\<close>: the locale \<open>shared_system\<close>, the rule for tasks that exclude each
  other, of which \<open>async_system\<close> is an instance (\<open>sublocale\<close>). \<open>SearchWorld\<close>: a table with its change log,
  consumer processes and rebuild jobs that interleave at every request, and the engine as a
  parameter (\<open>es_documented\<close>). \<open>SearchKnowledge\<close>, \<open>SearchTasks\<close>: what a task knows, and that it is
  correct in terms of it. \<open>SearchProps\<close>, \<open>SearchSteps\<close>, \<open>SearchRebuild\<close>, \<open>SearchOwner\<close>, \<open>SearchExec\<close>: the
  invariant and its preservation by each request. \<open>SearchTheorems\<close>: the interpretation and the properties.
  \<open>SearchScenarios\<close>: a scheduler for a sample engine, and a rebuild during which a row changes.
  Assumed besides the engine's documentation: versions of a row grow by one with each update, an
  identity is not used again after its row is deleted, a tombstone or delete record is delivered after the delete
  has been committed, names of new indexes are fresh, monotonic clocks run at the rate of time (from any origin),
  and a session holds its advisory lock until it releases it or ends. A rebuild scans at most
  \<open>rounds\<close> batches, for every number \<open>rounds\<close>; one that has used them up ends as an interrupted one.

  Bounds and fuel. \<open>json_loads\<close> runs with fuel \<open>2 * length + 2\<close>, enough as every recursive call
  consumes a character or closes an element (\<open>json_loads_text\<close> shows it for every printed text).
  \<open>peer_rounds\<close> counts the polls of a query that waits for another's load (\<open>peer_polls_enough\<close>: the
  waiting time is used up by then). The retry loop of Kafka and the attempts of an inbox
  claim are bounded by the code. Retrying for ever is modelled up to each outcome of a cycle.

  Parameters, code that is not in the repository: SHA-256 and the canonical text of floats, ISO-8601
  reading (\<open>fromisoformat\<close>), the collation and the case folding of the database, the search engine,
  Redis and Kafka. What is assumed of them is a hypothesis of the properties that need it, and
  each has a witness with a concrete instance.

  Not modelled: the HTTP and command-line layer, which declares requests and responses
  around the handlers; wiring, start-up and shutdown of processes; the clients of Postgres, SendGrid
  and etcd, and connection handling in all clients; loggers; the migration scripts, whose constraints
  are those of \<open>Rows\<close>, \<open>Database\<close> and \<open>Inbox\<close>; isolation levels below the serial order of commits.
  A transaction's reads are one earlier state, except behind the borrowing fence, where each query
  reads what is committed at its own moment.

  Simplifications. Strings have characters up to U+00FF; in particular no title is long enough in JSON for
  its cursor to be refused (see \<open>PagingTheorems\<close>), and digits of other scripts do not occur. A receipt
  keeps its response as a value: the JSON text of it, and \<open>isoformat\<close> within, are taken as the
  identity. The inserts of a unit of work are flushed in the order of the plan, where SQLAlchemy groups
  them by mapper; which exception comes first is all that depends on it. \<open>find_expired_reservations\<close>
  orders identifiers by code point, not by the collation of the database. A critical section of the
  circuit breaker reads the clock once. The SCAN of \<open>delete_pattern\<close> ends before its first UNLINK. The
  floats of the configuration are reals, without the checks for infinities and booleans. A failed command
  of Elasticsearch is executed at once or not at all (those of Redis may be executed later). Assignments
  to the two attributes that control the seal of an aggregate, which nothing in the repository makes, are
  not modelled.
\<close>

end
